(* ===== verification/Prelude.thy ===== *)
theory Prelude
  imports Complex_Main
begin

text \<open>
  Shared vocabulary of the development: clock readings, the exceptions that cross
  component boundaries, Python values that several modules use (decimal rendering of
  integers, ASCII case folding, truthiness), and database tables as lists of rows in
  insertion order with the query and update shapes the repositories use (first matching
  row, update of one loaded row, bulk update, bulk delete, offset/limit pages).
  The lemma collections \<open>table_simps\<close> and \<open>handler_simps\<close> carry the component proofs.
\<close>

section \<open>Collections and names\<close>

named_theorems table_simps \<open>equations about tables of rows\<close>
named_theorems handler_simps \<open>unfolding rules of request handlers\<close>

text \<open>A point in time or a duration, as an integer number of clock ticks.\<close>

type_synonym time = int

type_synonym str = string

text \<open>The exception classes of the code; messages are dropped, the data that callers read is kept.\<close>

datatype exn =
    ValueError
  | AttributeError
  | NameError
  | TypeError
  | OverflowError
  | KeyError
  | IntegrityError
  | DataError
  | ConcurrencyError
  | PaymentTransitionError str str
  | ApexTransientError
  | ApexConflictError
  | ApexValidationError
  | PaymentAlreadyExists
  | ApexWalletAlreadyExistsError nat
  | NetworkValidationError
  | ResolvedIpDriftError
  | DeliveryRevalidationFailed
  | BlockFetchError bool
  | BlockHandlerError int
  | BlockPollerValidationError
  | BlockPollerFetchError
  | TransportFailure
  | HTTPStatusError int
  | TxIndexerError
  | TxIndexerRetryExhausted
  | TxIndexerQueryError
  | TxIndexerValidationError str
  | RateLimitError str
  | HTTPError nat

text \<open>
  An operation on a state returns what the Python call returns or raises, and the state it
  leaves behind: the changes committed before an exception stay.
\<close>

type_synonym ('a, 's) outcome = "(exn + 'a) \<times> 's"

section \<open>Python values\<close>

text \<open>\<open>str(n)\<close> of an integer.\<close>

fun digits_of :: "nat \<Rightarrow> string" where
  "digits_of n =
     (if n < 10 then [char_of (48 + n)] else digits_of (n div 10) @ [char_of (48 + n mod 10)])"

declare digits_of.simps [simp del]

definition py_str_int :: "int \<Rightarrow> string" where
  "py_str_int i = (if i < 0 then CHR ''-'' # digits_of (nat (- i)) else digits_of (nat i))"

text \<open>\<open>str.lower\<close> on ASCII characters.\<close>

definition lower_char :: "char \<Rightarrow> char" where
  "lower_char c =
     (let n = (of_char c :: nat) in if 65 \<le> n \<and> n \<le> 90 then char_of (n + 32) else c)"

definition py_lower :: "string \<Rightarrow> string" where
  "py_lower s = map lower_char s"

text \<open>Truthiness of an optional string: \<open>None\<close> and the empty string are false.\<close>

definition truthy :: "str option \<Rightarrow> bool" where
  "truthy v = (case v of None \<Rightarrow> False | Some s \<Rightarrow> s \<noteq> [])"

lemma truthy_simps [simp]: "\<not> truthy None" "truthy (Some s) \<longleftrightarrow> s \<noteq> []"
  by (simp_all add: truthy_def)

text \<open>\<open>a or b\<close> on optional strings.\<close>

definition py_or :: "str option \<Rightarrow> str option \<Rightarrow> str option" where
  "py_or a b = (if truthy a then a else b)"

lemma digits_of_digits: "c \<in> set (digits_of n) \<Longrightarrow> 48 \<le> (of_char c :: nat) \<and> of_char c \<le> (57 :: nat)"
proof (induction n rule: digits_of.induct)
  case (1 n)
  show ?case
  proof (cases "n < 10")
    case True
    with "1.prems" show ?thesis by (simp add: digits_of.simps [of n])
  next
    case False
    with "1.prems" have "c \<in> set (digits_of (n div 10)) \<or> c = char_of (48 + n mod 10)"
      by (auto simp: digits_of.simps [of n])
    moreover have "48 + n mod 10 < (256 :: nat)" "n mod 10 \<le> 9" by presburger+
    ultimately show ?thesis using "1.IH" [OF False] by auto
  qed
qed

lemma digits_of_nonempty: "digits_of n \<noteq> []"
  by (subst digits_of.simps) simp

lemma py_str_int_no_dot: "CHR ''.'' \<notin> set (py_str_int i)"
proof
  assume "CHR ''.'' \<in> set (py_str_int i)"
  then obtain n where "CHR ''.'' \<in> set (digits_of n)"
    by (auto simp: py_str_int_def split: if_splits)
  from digits_of_digits [OF this] show False by simp
qed

lemma py_str_int_nonempty [simp]: "py_str_int i \<noteq> []"
  by (simp add: py_str_int_def digits_of_nonempty)

section \<open>Tables\<close>

text \<open>The row a query with \<open>.first()\<close> returns is \<^const>\<open>List.find\<close>; the ORM then mutates that row.\<close>

fun update_first :: "('r \<Rightarrow> bool) \<Rightarrow> ('r \<Rightarrow> 'r) \<Rightarrow> 'r list \<Rightarrow> 'r list" where
  "update_first P f [] = []"
| "update_first P f (r # rs) = (if P r then f r # rs else r # update_first P f rs)"

text \<open>\<open>DELETE\<close> of the one loaded row.\<close>

fun delete_first :: "('r \<Rightarrow> bool) \<Rightarrow> 'r list \<Rightarrow> 'r list" where
  "delete_first P [] = []"
| "delete_first P (r # rs) = (if P r then rs else r # delete_first P rs)"

text \<open>\<open>UPDATE ... WHERE\<close>.\<close>

definition update_where :: "('r \<Rightarrow> bool) \<Rightarrow> ('r \<Rightarrow> 'r) \<Rightarrow> 'r list \<Rightarrow> 'r list" where
  "update_where P f rs = map (\<lambda>r. if P r then f r else r) rs"

text \<open>\<open>OFFSET (page - 1) * page_size LIMIT page_size\<close>, for \<open>page \<ge> 1\<close>.\<close>

definition page_slice :: "nat \<Rightarrow> nat \<Rightarrow> 'r list \<Rightarrow> 'r list" where
  "page_slice page page_size rs = take page_size (drop ((page - 1) * page_size) rs)"

text \<open>\<open>ORDER BY key DESC\<close>: the reverse of the ascending stable order on the reversed rows, so ties keep table order.\<close>

definition sort_desc :: "('r \<Rightarrow> 'k :: linorder) \<Rightarrow> 'r list \<Rightarrow> 'r list" where
  "sort_desc k rs = rev (sort_key k (rev rs))"

text \<open>\<open>ORDER BY key DESC\<close> with \<open>.first()\<close>.\<close>

definition first_desc :: "('r \<Rightarrow> 'k :: linorder) \<Rightarrow> 'r list \<Rightarrow> 'r option" where
  "first_desc k rs = (case sort_desc k rs of [] \<Rightarrow> None | r # _ \<Rightarrow> Some r)"

text \<open>A \<open>UNIQUE\<close> constraint on a nullable key: \<open>NULL\<close> never clashes.\<close>

definition unique_key :: "('r \<Rightarrow> 'k option) \<Rightarrow> 'r list \<Rightarrow> bool" where
  "unique_key key rs \<longleftrightarrow> distinct (filter (\<lambda>v. v \<noteq> None) (map key rs))"

lemma unique_key_Nil [simp]: "unique_key key []"
  by (simp add: unique_key_def)

lemma unique_key_snoc:
  "unique_key key (rs @ [x]) \<longleftrightarrow> unique_key key rs \<and> (key x \<noteq> None \<longrightarrow> (\<forall>r \<in> set rs. key r \<noteq> key x))"
  by (force simp: unique_key_def)

lemma unique_key_map [table_simps]: "(\<And>r. key (g r) = key r) \<Longrightarrow> unique_key key (map g rs) = unique_key key rs"
  by (simp add: unique_key_def comp_def)

lemma unique_key_update_first [table_simps]:
  assumes "\<And>r. key (f r) = key r"
  shows "unique_key key (update_first P f rs) = unique_key key rs"
proof -
  have "map key (update_first P f rs) = map key rs"
    using assms by (induction rs) auto
  then show ?thesis by (simp add: unique_key_def)
qed

lemma unique_key_eq:
  "unique_key key rs \<Longrightarrow> r \<in> set rs \<Longrightarrow> r' \<in> set rs \<Longrightarrow> key r = key r' \<Longrightarrow> key r \<noteq> None \<Longrightarrow> r = r'"
  by (induction rs) (auto simp: unique_key_def image_iff split: if_splits)

lemma length_update_first [simp]: "length (update_first P f rs) = length rs"
  by (induction rs) auto

lemma map_update_first_key [table_simps]:
  "(\<And>r. g (f r) = g r) \<Longrightarrow> map g (update_first P f rs) = map g rs"
  by (induction rs) auto

lemma map_update_where_key [table_simps]:
  "(\<And>r. g (f r) = g r) \<Longrightarrow> map g (update_where P f rs) = map g rs"
  by (simp add: update_where_def)

lemma find_None_set: "find P rs = None \<longleftrightarrow> (\<forall>r \<in> set rs. \<not> P r)"
  by (auto simp: find_None_iff)

lemma find_Some_P: "find P rs = Some r \<Longrightarrow> P r"
  by (induction rs) (auto split: if_splits)

lemma find_Some_set: "find P rs = Some r \<Longrightarrow> r \<in> set rs"
  by (induction rs) (auto split: if_splits)

lemma find_append: "find P (xs @ ys) = (case find P xs of None \<Rightarrow> find P ys | Some r \<Rightarrow> Some r)"
  by (induction xs) auto

lemma find_append_None [simp]: "find P xs = None \<Longrightarrow> find P (xs @ ys) = find P ys"
  by (simp add: find_append)

lemma find_append_Some [simp]: "find P xs = Some r \<Longrightarrow> find P (xs @ ys) = Some r"
  by (simp add: find_append)

lemma find_update_first [table_simps]:
  "(\<And>r. P r \<Longrightarrow> P (f r)) \<Longrightarrow> find P (update_first P f rs) = map_option f (find P rs)"
  by (induction rs) auto

lemma find_update_first_other:
  "(\<And>r. P r \<Longrightarrow> \<not> Q r \<and> \<not> Q (f r)) \<Longrightarrow> find Q (update_first P f rs) = find Q rs"
  by (induction rs) auto

lemma set_update_first:
  "r \<in> set (update_first P f rs) \<Longrightarrow> r \<in> set rs \<or> (\<exists>r0 \<in> set rs. P r0 \<and> r = f r0)"
  by (induction rs) (auto split: if_splits)

lemma find_update_first_Some:
  "find P rs = Some r \<Longrightarrow> f r \<in> set (update_first P f rs)"
  by (induction rs) (auto split: if_splits)

lemma set_delete_first: "r \<in> set (delete_first P rs) \<Longrightarrow> r \<in> set rs"
  by (induction rs) (auto split: if_splits)

lemma delete_first_keeps: "r \<in> set rs \<Longrightarrow> \<not> P r \<Longrightarrow> r \<in> set (delete_first P rs)"
  by (induction rs) auto

lemma distinct_delete_first: "distinct (map g rs) \<Longrightarrow> distinct (map g (delete_first P rs))"
  by (induction rs) (auto dest: set_delete_first)

lemma delete_first_unique:
  "distinct (map g rs) \<Longrightarrow> (\<And>r. P r \<Longrightarrow> g r = k) \<Longrightarrow> (\<And>r. g r = k \<Longrightarrow> P r)
    \<Longrightarrow> find P (delete_first P rs) = None"
  by (induction rs) (force simp: find_None_iff)+

lemma find_key_unique:
  "distinct (map g rs) \<Longrightarrow> r \<in> set rs \<Longrightarrow> find (\<lambda>x. g x = g r) rs = Some r"
  by (induction rs) (force simp: image_iff)+

lemma distinct_map_filter_one:
  "distinct (map g rs) \<Longrightarrow> r \<in> set rs \<Longrightarrow> filter (\<lambda>x. g x = g r) rs = [r]"
proof (induction rs)
  case (Cons a rs)
  show ?case
  proof (cases "r = a")
    case True
    with Cons.prems(1) show ?thesis by (auto simp: filter_empty_conv image_iff)
  next
    case False
    with Cons show ?thesis by (auto simp: image_iff)
  qed
qed simp

lemma find_filter: "find P (filter Q rs) = find (\<lambda>r. Q r \<and> P r) rs"
  by (induction rs) auto

lemma length_page_slice: "length (page_slice p n rs) \<le> n"
  by (simp add: page_slice_def)

lemma set_page_slice: "set (page_slice p n rs) \<subseteq> set rs"
  by (metis page_slice_def order_trans set_drop_subset set_take_subset)

text \<open>Consecutive offset pages tile the result: nothing is lost and nothing repeats.\<close>

lemma concat_pages:
  "concat (map (\<lambda>p. page_slice p n rs) [1..<Suc k]) = take (k * n) rs"
proof (induction k)
  case 0
  show ?case by simp
next
  case (Suc k)
  then show ?case
    by (simp add: page_slice_def take_add [symmetric] add.commute)
qed

lemma set_sort_desc [simp]: "set (sort_desc k rs) = set rs"
  by (simp add: sort_desc_def)

lemma length_sort_desc [simp]: "length (sort_desc k rs) = length rs"
  by (simp add: sort_desc_def)

lemma sorted_sort_desc: "sorted (map k (rev (sort_desc k rs)))"
  by (simp add: sort_desc_def)

lemma insort_key_max: "\<forall>y \<in> set ys. k y < k x \<Longrightarrow> insort_key k x ys = ys @ [x]"
  by (induction ys) (auto simp: not_le)

lemma first_desc_None [simp]: "first_desc k rs = None \<longleftrightarrow> rs = []"
  by (auto simp: first_desc_def split: list.split dest: arg_cong [where f = set])

lemma first_desc_Some:
  assumes "first_desc k rs = Some r"
  shows "r \<in> set rs" and "x \<in> set rs \<Longrightarrow> k x \<le> k r"
proof -
  from assms obtain rest where eq: "sort_desc k rs = r # rest"
    by (auto simp: first_desc_def split: list.splits)
  then have "set rs = insert r (set rest)" by (metis list.simps(15) set_sort_desc)
  moreover from sorted_sort_desc [of k rs] eq have "\<forall>y \<in> set rest. k y \<le> k r"
    by (simp add: sorted_append)
  ultimately show "r \<in> set rs" and "x \<in> set rs \<Longrightarrow> k x \<le> k r" by auto
qed

text \<open>A row inserted last with a key above all others is the one the query returns.\<close>

lemma first_desc_snoc_max:
  assumes "\<forall>y \<in> set rs. k y < k x"
  shows "first_desc k (rs @ [x]) = Some x"
proof -
  have "insort_key k x (sort_key k (rev rs)) = sort_key k (rev rs) @ [x]"
    by (rule insort_key_max) (simp add: assms)
  then show ?thesis by (simp add: first_desc_def sort_desc_def)
qed

end
