(* ===== verification/Intervals.thy ===== *)
theory Intervals
  imports Prelude
begin

text \<open>
  Merging of overlapping outage intervals, \<^verbatim>\<open>app/services/sla/interval_merge.py\<close>: the loop over
  the intervals sorted by start, and the proof that the merged list covers exactly the same time,
  is separated, and can be summed without counting any tick twice.
\<close>

section \<open>Model\<close>

type_synonym interval = "time \<times> time"

text \<open>One iteration: extend the last merged interval or append.\<close>

definition absorb :: "interval list \<Rightarrow> interval \<Rightarrow> interval list" where
  "absorb merged iv =
     (let (start, end1) = iv; (last_start, last_end) = last merged in
      if start \<le> last_end then butlast merged @ [(last_start, max last_end end1)]
      else merged @ [(start, end1)])"

definition merge_intervals :: "interval list \<Rightarrow> interval list" where
  "merge_intervals intervals =
     (if intervals = [] then []
      else let ordered = sort_key fst intervals in foldl absorb [hd ordered] (tl ordered))"

section \<open>The loop, with the last interval carried explicitly\<close>

fun absorb_from :: "interval \<Rightarrow> interval list \<Rightarrow> interval list" where
  "absorb_from c [] = [c]"
| "absorb_from (ls, le) ((s, e) # rest) =
     (if s \<le> le then absorb_from (ls, max le e) rest else (ls, le) # absorb_from (s, e) rest)"

lemma foldl_absorb: "foldl absorb (done @ [c]) rest = done @ absorb_from c rest"
proof (induction c rest arbitrary: "done" rule: absorb_from.induct)
  case (1 c)
  show ?case by simp
next
  case (2 ls le s e rest)
  from "2.IH"(2) [of "done @ [(ls, le)]"] "2.IH"(1) [of "done"] show ?case
    by (simp add: absorb_def)
qed

lemma merge_intervals_absorb:
  "ivs \<noteq> [] \<Longrightarrow> merge_intervals ivs = absorb_from (hd (sort_key fst ivs)) (tl (sort_key fst ivs))"
  using foldl_absorb [of "[]"] by (simp add: merge_intervals_def Let_def)

definition covered :: "interval list \<Rightarrow> time set" where
  "covered ivs = (\<Union>(s, e) \<in> set ivs. {s..<e})"

definition downtime :: "interval list \<Rightarrow> time" where
  "downtime ivs = (\<Sum>(s, e) \<leftarrow> ivs. e - s)"

fun separated :: "interval list \<Rightarrow> bool" where
  "separated ((s, e) # (s', e') # rest) = (e < s' \<and> separated ((s', e') # rest))"
| "separated _ = True"

definition forward :: "interval list \<Rightarrow> bool" where
  "forward ivs \<longleftrightarrow> (\<forall>(s, e) \<in> set ivs. s \<le> e)"

lemma covered_simps [simp]: "covered [] = {}" "covered ((s, e) # ivs) = {s..<e} \<union> covered ivs"
  by (simp_all add: covered_def)

lemma downtime_simps [simp]: "downtime [] = 0" "downtime ((s, e) # ivs) = (e - s) + downtime ivs"
  by (simp_all add: downtime_def)

lemma forward_simps [simp]: "forward []" "forward ((s, e) # ivs) \<longleftrightarrow> s \<le> e \<and> forward ivs"
  by (auto simp: forward_def)

lemma absorb_from_forward: "forward (c # rest) \<Longrightarrow> forward (absorb_from c rest)"
  by (induction c rest rule: absorb_from.induct) (auto simp: max_def split: if_splits)

lemma absorb_from_covered:
  "sorted (map fst (c # rest)) \<Longrightarrow> forward (c # rest) \<Longrightarrow> covered (absorb_from c rest) = covered (c # rest)"
proof (induction c rest rule: absorb_from.induct)
  case (1 c)
  then show ?case by simp
next
  case (2 ls le s e rest)
  then show ?case by auto
qed

lemma absorb_from_start: "\<exists>e' ivs. absorb_from (s, e) rest = (s, e') # ivs"
  by (induction "(s, e)" rest arbitrary: s e rule: absorb_from.induct) auto

lemma absorb_from_separated: "separated (absorb_from c rest)"
proof (induction c rest rule: absorb_from.induct)
  case (1 c)
  show ?case by simp
next
  case (2 ls le s e rest)
  then show ?case
    using absorb_from_start [of s e rest] by (auto simp: not_le)
qed

lemma separated_above: "separated ((s, e) # ivs) \<Longrightarrow> forward ((s, e) # ivs) \<Longrightarrow> x \<in> covered ivs \<Longrightarrow> e < x"
proof (induction ivs arbitrary: s e)
  case Nil
  then show ?case by simp
next
  case (Cons iv ivs)
  obtain s' e' where [simp]: "iv = (s', e')" by (cases iv)
  from Cons.prems Cons.IH [of s' e'] show ?case by fastforce
qed

lemma finite_covered [simp]: "finite (covered ivs)"
  by (induction ivs) auto

lemma separated_tl: "separated (iv # ivs) \<Longrightarrow> separated ivs"
  by (cases iv; cases ivs) (auto split: prod.splits)

lemma separated_downtime: "separated ivs \<Longrightarrow> forward ivs \<Longrightarrow> downtime ivs = int (card (covered ivs))"
proof (induction ivs)
  case Nil
  then show ?case by simp
next
  case (Cons iv ivs)
  obtain s e where [simp]: "iv = (s, e)" by (cases iv)
  have "{s..<e} \<inter> covered ivs = {}" using separated_above [of s e ivs] Cons.prems by fastforce
  then have "card (covered (iv # ivs)) = card {s..<e} + card (covered ivs)"
    by (simp add: card_Un_disjoint)
  with Cons separated_tl [of iv ivs] show ?case by simp
qed

lemma sort_key_split:
  assumes "ivs \<noteq> []"
  shows "sort_key fst ivs = hd (sort_key fst ivs) # tl (sort_key fst ivs)"
  using assms by (metis hd_Cons_tl length_0_conv length_sort)

lemma merge_intervals_facts:
  assumes "forward ivs"
  shows "separated (merge_intervals ivs)" "forward (merge_intervals ivs)"
    "covered (merge_intervals ivs) = covered ivs"
proof -
  have "separated (merge_intervals ivs) \<and> forward (merge_intervals ivs) \<and>
      covered (merge_intervals ivs) = covered ivs"
  proof (cases "ivs = []")
    case True
    then show ?thesis by (simp add: merge_intervals_def)
  next
    case False
    note split = sort_key_split [OF False]
    have "forward (sort_key fst ivs)" using assms by (simp add: forward_def)
    moreover have "covered (sort_key fst ivs) = covered ivs" by (simp add: covered_def)
    moreover have "sorted (map fst (sort_key fst ivs))" by simp
    ultimately show ?thesis
      using absorb_from_forward absorb_from_covered absorb_from_separated split
        merge_intervals_absorb [OF False] by metis
  qed
  then show "separated (merge_intervals ivs)" "forward (merge_intervals ivs)"
    "covered (merge_intervals ivs) = covered ivs" by simp_all
qed

section \<open>Properties\<close>

text \<open>Downtime is not double counted: for intervals that do not run backwards, merging covers
  exactly the same time, leaves intervals that neither overlap nor touch, and the sum of the merged
  lengths is the number of distinct ticks that any outage covers.\<close>

theorem merge_intervals_counts_once:
  assumes "forward ivs"
  shows "covered (merge_intervals ivs) = covered ivs \<and> separated (merge_intervals ivs) \<and>
    downtime (merge_intervals ivs) = int (card (covered ivs))"
  using merge_intervals_facts [OF assms] separated_downtime by auto

theorem merge_intervals_counts_once_witness:
  "merge_intervals [(10, 20), (0, 5), (15, 30), (5, 7)] = [(0, 7), (10, 30)] \<and>
   downtime [(0, 7), (10, 30)] = int (card (covered [(10, 20), (0, 5), (15, 30), (5, 7)]))"
proof -
  have "merge_intervals [(10, 20), (0, 5), (15, 30), (5, 7)] = [(0, 7), (10, 30)]" by code_simp
  moreover have "forward [(10, 20), (0, 5), (15, 30), (5, 7)]" by simp
  ultimately show ?thesis using merge_intervals_counts_once by metis
qed

end
