(* ===== verification/Sla_Policy.thy ===== *)
theory Sla_Policy
  imports Prelude
begin

text \<open>
  SLA policies and the SLA calculation: \<^verbatim>\<open>app/services/sla/config.py\<close> (per-process policy cache,
  publish ledger in the \<^verbatim>\<open>sla_config_history\<close> table, optimistic concurrency by publish token),
  \<^verbatim>\<open>app/services/sla/sla_calculator.py\<close> and the contract boundary of
  \<^verbatim>\<open>app/services/contracts\<close> (\<^verbatim>\<open>sla_adapter.py\<close>, \<^verbatim>\<open>translation.py\<close>).
  SHA-256, the token generator and the clock are arguments.
\<close>

section \<open>Data\<close>

text \<open>\<^verbatim>\<open>SLASeverityConfig\<close>; the update request has the same fields.\<close>

record severity_config =
  threshold_minutes :: int
  penalty_per_minute :: int
  reward_base :: int

text \<open>The \<open>ge=0\<close> constraints of the Pydantic model.\<close>

definition severity_config_valid :: "severity_config \<Rightarrow> bool" where
  "severity_config_valid c \<longleftrightarrow>
     0 \<le> threshold_minutes c \<and> 0 \<le> penalty_per_minute c \<and> 0 \<le> reward_base c"

record policy_content =
  pc_severity :: str
  pc_policy_version :: int
  pc_config :: severity_config
  pc_content_hash :: str

record history_row =
  h_severity :: str
  h_policy_version :: int
  h_config :: severity_config
  h_content_hash :: str
  h_publish_token :: str
  h_published_at :: time
  h_published_by :: "str option"

record history_entry =
  he_severity :: str
  he_policy_version :: int
  he_config :: severity_config
  he_content_hash :: str
  he_published_at :: time
  he_published_by :: "str option"

text \<open>The module-level dictionaries of one process.\<close>

record policy_cache =
  SLA_CONFIG :: "str \<rightharpoonup> severity_config"
  policy_versions :: "str \<rightharpoonup> int"
  publish_tokens :: "str \<rightharpoonup> str"

definition default_SLA_CONFIG :: "str \<rightharpoonup> severity_config" where
  "default_SLA_CONFIG =
     [''critical'' \<mapsto> \<lparr>threshold_minutes = 15, penalty_per_minute = 100, reward_base = 750\<rparr>,
      ''high'' \<mapsto> \<lparr>threshold_minutes = 30, penalty_per_minute = 50, reward_base = 750\<rparr>,
      ''medium'' \<mapsto> \<lparr>threshold_minutes = 60, penalty_per_minute = 25, reward_base = 750\<rparr>,
      ''low'' \<mapsto> \<lparr>threshold_minutes = 120, penalty_per_minute = 10, reward_base = 600\<rparr>]"

text \<open>The state of a process after import.\<close>

definition initial_cache :: policy_cache where
  "initial_cache =
     \<lparr>SLA_CONFIG = default_SLA_CONFIG,
      policy_versions = (\<lambda>sev. map_option (\<lambda>_. 1) (default_SLA_CONFIG sev)),
      publish_tokens = (\<lambda>sev. map_option (\<lambda>_. []) (default_SLA_CONFIG sev))\<rparr>"

text \<open>Well-formed cache: the three dictionaries have the same keys, all of them lower case, and valid values.\<close>

definition cache_ok :: "policy_cache \<Rightarrow> bool" where
  "cache_ok p \<longleftrightarrow>
     dom (policy_versions p) = dom (SLA_CONFIG p) \<and> dom (publish_tokens p) = dom (SLA_CONFIG p) \<and>
     (\<forall>c \<in> ran (SLA_CONFIG p). severity_config_valid c)"

section \<open>Policy store\<close>

text \<open>The JSON document with sorted keys that is hashed.\<close>

definition config_json :: "str \<Rightarrow> severity_config \<Rightarrow> int \<Rightarrow> str" where
  "config_json sev c v =
     ''{\"penalty_per_minute\": '' @ py_str_int (penalty_per_minute c) @
     '', \"policy_version\": '' @ py_str_int v @
     '', \"reward_base\": '' @ py_str_int (reward_base c) @
     '', \"severity\": \"'' @ sev @
     ''\", \"threshold_minutes\": '' @ py_str_int (threshold_minutes c) @ ''}''"

definition compute_content_hash :: "(str \<Rightarrow> str) \<Rightarrow> str \<Rightarrow> severity_config \<Rightarrow> int \<Rightarrow> str" where
  "compute_content_hash sha256 sev c v = sha256 (config_json sev c v)"

definition latest_history_row :: "history_row list \<Rightarrow> str \<Rightarrow> history_row option" where
  "latest_history_row db sev =
     first_desc h_policy_version (filter (\<lambda>r. h_severity r = sev) db)"

definition get_policy_version :: "policy_cache \<Rightarrow> history_row list option \<Rightarrow> str \<Rightarrow> exn + int" where
  "get_policy_version p db severity =
     (let normalized = py_lower severity in
      if SLA_CONFIG p normalized = None then Inl ValueError
      else case (case db of None \<Rightarrow> None | Some rows \<Rightarrow> latest_history_row rows normalized) of
             Some latest \<Rightarrow> Inr (h_policy_version latest)
           | None \<Rightarrow> (case policy_versions p normalized of
                        None \<Rightarrow> Inl KeyError | Some v \<Rightarrow> Inr v))"

definition get_current_token :: "policy_cache \<Rightarrow> history_row list option \<Rightarrow> str \<Rightarrow> exn + str" where
  "get_current_token p db severity =
     (let normalized = py_lower severity in
      if SLA_CONFIG p normalized = None then Inl ValueError
      else case (case db of None \<Rightarrow> None | Some rows \<Rightarrow> latest_history_row rows normalized) of
             Some latest \<Rightarrow> Inr (h_publish_token latest)
           | None \<Rightarrow> (case publish_tokens p normalized of
                        None \<Rightarrow> Inl KeyError | Some t \<Rightarrow> Inr t))"

definition get_config_for_severity :: "policy_cache \<Rightarrow> str \<Rightarrow> exn + severity_config" where
  "get_config_for_severity p severity =
     (case SLA_CONFIG p (py_lower severity) of None \<Rightarrow> Inl ValueError | Some c \<Rightarrow> Inr c)"

definition get_config_with_hash :: "(str \<Rightarrow> str) \<Rightarrow> policy_cache \<Rightarrow> str \<Rightarrow> exn + policy_content" where
  "get_config_with_hash sha256 p severity =
     (let normalized = py_lower severity in
      case SLA_CONFIG p normalized of
        None \<Rightarrow> Inl ValueError
      | Some config \<Rightarrow>
          (case policy_versions p normalized of
             None \<Rightarrow> Inl KeyError
           | Some version \<Rightarrow>
               Inr \<lparr>pc_severity = normalized, pc_policy_version = version, pc_config = config,
                    pc_content_hash = compute_content_hash sha256 normalized config version\<rparr>))"

text \<open>
  \<open>others\<close> are the rows that concurrent workers commit between the read of the latest row and
  the commit of this publish; the unique index on (severity, version) is checked against them.
\<close>

definition publish_config_for_severity ::
  "(str \<Rightarrow> str) \<Rightarrow> str \<Rightarrow> time \<Rightarrow> str \<Rightarrow> severity_config \<Rightarrow> str option \<Rightarrow> str option
    \<Rightarrow> history_row list \<Rightarrow> history_row list option \<Rightarrow> policy_cache
    \<Rightarrow> (policy_content \<times> str \<times> history_entry, policy_cache \<times> history_row list option) outcome" where
  "publish_config_for_severity sha256 new_token now severity payload expected_token published_by
      others db p =
     (let normalized = py_lower severity in
      if SLA_CONFIG p normalized = None then (Inl ValueError, p, db)
      else
        (let latest = (case db of None \<Rightarrow> None | Some rows \<Rightarrow> latest_history_row rows normalized);
             current = (case latest of
                 Some row \<Rightarrow> Some (h_policy_version row, h_publish_token row)
               | None \<Rightarrow> (case (policy_versions p normalized, publish_tokens p normalized) of
                     (Some v, Some t) \<Rightarrow> Some (v, t) | _ \<Rightarrow> None)) in
         case current of
           None \<Rightarrow> (Inl KeyError, p, db)
         | Some (current_version, current_token) \<Rightarrow>
             if expected_token \<noteq> None \<and> expected_token \<noteq> Some current_token
             then (Inl ConcurrencyError, p, db)
             else
               (let new_version = current_version + 1;
                    content_hash = compute_content_hash sha256 normalized payload new_version;
                    row = \<lparr>h_severity = normalized, h_policy_version = new_version,
                           h_config = payload, h_content_hash = content_hash,
                           h_publish_token = new_token, h_published_at = now,
                           h_published_by = published_by\<rparr>;
                    p' = p\<lparr>policy_versions := (policy_versions p)(normalized \<mapsto> new_version),
                           SLA_CONFIG := (SLA_CONFIG p)(normalized \<mapsto> payload),
                           publish_tokens := (publish_tokens p)(normalized \<mapsto> new_token)\<rparr>;
                    policy = \<lparr>pc_severity = normalized, pc_policy_version = new_version,
                              pc_config = payload, pc_content_hash = content_hash\<rparr>;
                    entry = \<lparr>he_severity = normalized, he_policy_version = new_version,
                             he_config = payload, he_content_hash = content_hash,
                             he_published_at = now, he_published_by = published_by\<rparr> in
                case db of
                  None \<Rightarrow> (Inr (policy, new_token, entry), p', None)
                | Some rows \<Rightarrow>
                    if \<exists>r \<in> set (rows @ others).
                         h_severity r = normalized \<and> h_policy_version r = new_version
                    then (Inl ConcurrencyError, p, Some (rows @ others))
                    else (Inr (policy, new_token, entry), p', Some (rows @ others @ [row])))))"

text \<open>A token-less update is a publish without a token check and without a publisher.\<close>

definition update_config_for_severity ::
  "(str \<Rightarrow> str) \<Rightarrow> str \<Rightarrow> time \<Rightarrow> str \<Rightarrow> severity_config
    \<Rightarrow> history_row list \<Rightarrow> history_row list option \<Rightarrow> policy_cache
    \<Rightarrow> (severity_config, policy_cache \<times> history_row list option) outcome" where
  "update_config_for_severity sha256 new_token now severity payload others db p =
     (case publish_config_for_severity sha256 new_token now severity payload None None others db p of
        (Inl e, st) \<Rightarrow> (Inl e, st)
      | (Inr (policy, _), st) \<Rightarrow> (Inr (pc_config policy), st))"

section \<open>SLA calculation\<close>

datatype sla_status = Met | Violated
datatype payment_type = Reward | Penalty
datatype rating = Exceptional | Excellent | Good | Poor

record sla_result =
  r_id :: "int option"
  r_outage_id :: str
  r_status :: sla_status
  r_mttr_minutes :: int
  r_threshold_minutes :: int
  r_amount :: int
  r_payment_type :: payment_type
  r_rating :: rating
  r_policy_version :: str
  r_threshold_source :: str
  r_reason_code :: "str option"
  r_decision_trace :: "str option"
  r_compute_hash :: "str option"

definition compute_hash :: "(str \<Rightarrow> str) \<Rightarrow> str \<Rightarrow> str \<Rightarrow> str \<Rightarrow> str \<Rightarrow> str" where
  "compute_hash sha256 outage_id started_at resolved_at policy_version =
     sha256 (outage_id @ ''||'' @ started_at @ ''||'' @ resolved_at @ ''||'' @ policy_version)"

fun rating_name :: "rating \<Rightarrow> str" where
  "rating_name Exceptional = ''exceptional''"
| "rating_name Excellent = ''excellent''"
| "rating_name Good = ''good''"
| "rating_name Poor = ''poor''"

text \<open>The reward tier of a performance ratio: multiplier in percent, rating, reason code.\<close>

definition reward_tier :: "int \<Rightarrow> int \<times> rating \<times> str" where
  "reward_tier ratio =
     (if ratio < 50 then (200, Exceptional, ''met_exceptional'')
      else if ratio < 75 then (150, Excellent, ''met_excellent'')
      else (100, Good, ''met_good''))"

definition version_fallback_note :: "str \<Rightarrow> str \<Rightarrow> str" where
  "version_fallback_note policy_version live_version =
     (if policy_version \<noteq> [] \<and> policy_version \<noteq> live_version
      then '' [WARNING: requested policy_version='' @ policy_version @
           '' but no history exists; computed with live config version='' @ live_version @ '']''
      else [])"

definition calculate ::
  "(str \<Rightarrow> str) \<Rightarrow> policy_cache \<Rightarrow> str \<Rightarrow> str \<Rightarrow> int \<Rightarrow> str \<Rightarrow> str \<Rightarrow> str \<Rightarrow> str
    \<Rightarrow> exn + sla_result" where
  "calculate sha256 p outage_id severity0 mttr policy_version threshold_source started_at resolved_at =
     (let severity = py_lower severity0 in
      if SLA_CONFIG p severity = None then Inl ValueError
      else case (get_config_for_severity p severity, get_policy_version p None severity) of
        (Inr config, Inr live) \<Rightarrow>
          (let note = version_fallback_note policy_version (py_str_int live);
               threshold = threshold_minutes config;
               hash = (if started_at \<noteq> [] \<and> resolved_at \<noteq> []
                       then Some (compute_hash sha256 outage_id started_at resolved_at policy_version)
                       else None) in
           if mttr > threshold then
             (let overtime = mttr - threshold; penalty = overtime * penalty_per_minute config in
              Inr \<lparr>r_id = None, r_outage_id = outage_id, r_status = Violated,
                   r_mttr_minutes = mttr, r_threshold_minutes = threshold, r_amount = - penalty,
                   r_payment_type = Penalty, r_rating = Poor, r_policy_version = policy_version,
                   r_threshold_source = threshold_source, r_reason_code = Some ''mttr_exceeded'',
                   r_decision_trace = Some (''MTTR '' @ py_str_int mttr @ '' > threshold '' @
                     py_str_int threshold @ '' (overtime '' @ py_str_int overtime @ '' minutes)'' @ note),
                   r_compute_hash = hash\<rparr>)
           else
             (let ratio = (if threshold = 0 then 0 else (mttr * 100) div threshold);
                  (multiplier, rating, reason_code) = reward_tier ratio;
                  reward = (reward_base config * multiplier) div 100 in
              Inr \<lparr>r_id = None, r_outage_id = outage_id, r_status = Met,
                   r_mttr_minutes = mttr, r_threshold_minutes = threshold, r_amount = reward,
                   r_payment_type = Reward, r_rating = rating, r_policy_version = policy_version,
                   r_threshold_source = threshold_source, r_reason_code = Some reason_code,
                   r_decision_trace = Some (''MTTR '' @ py_str_int mttr @ '' <= threshold '' @
                     py_str_int threshold @ '', performance ratio '' @ py_str_int ratio @
                     ''%, rating '' @ rating_name rating @ note),
                   r_compute_hash = hash\<rparr>))
      | (Inl ValueError, _) \<Rightarrow> Inl AttributeError
      | (_, Inl ValueError) \<Rightarrow> Inl AttributeError
      | (Inl e, _) \<Rightarrow> Inl e
      | (_, Inl e) \<Rightarrow> Inl e)"

section \<open>The contract boundary\<close>

record contract_metadata =
  contract_address :: str
  network :: str
  execution_mode :: str

text \<open>The contract-style dictionary; a key that may be missing is an option.\<close>

record contract_result =
  c_outage_id :: str
  c_status :: str
  c_mttr_minutes :: int
  c_threshold_minutes :: int
  c_amount :: int
  c_payment_type :: str
  c_rating :: str
  c_policy_version :: "str option"
  c_threshold_source :: "str option"
  c_contract_metadata :: contract_metadata
  c_compute_hash :: "str option"

fun rating_code :: "rating \<Rightarrow> str" where
  "rating_code Exceptional = ''top''"
| "rating_code Excellent = ''high''"
| "rating_code Good = ''good''"
| "rating_code Poor = ''poor''"

definition rating_of_code :: "str \<Rightarrow> rating option" where
  "rating_of_code s =
     [''top'' \<mapsto> Exceptional, ''high'' \<mapsto> Excellent, ''good'' \<mapsto> Good, ''poor'' \<mapsto> Poor] s"

definition calculate_sla ::
  "(str \<Rightarrow> str) \<Rightarrow> contract_metadata \<Rightarrow> policy_cache \<Rightarrow> str \<Rightarrow> str \<Rightarrow> int \<Rightarrow> str \<Rightarrow> str \<Rightarrow> str
    \<Rightarrow> str \<Rightarrow> exn + contract_result" where
  "calculate_sla sha256 meta p outage_id severity mttr policy_version threshold_source
      started_at resolved_at =
     (case calculate sha256 p outage_id severity mttr policy_version threshold_source
             started_at resolved_at of
        Inl e \<Rightarrow> Inl e
      | Inr local \<Rightarrow>
          Inr \<lparr>c_outage_id = r_outage_id local,
               c_status = (if r_status local = Violated then ''viol'' else ''met''),
               c_mttr_minutes = r_mttr_minutes local,
               c_threshold_minutes = r_threshold_minutes local,
               c_amount = r_amount local,
               c_payment_type = (if r_payment_type local = Penalty then ''pen'' else ''rew''),
               c_rating = rating_code (r_rating local),
               c_policy_version = Some (r_policy_version local),
               c_threshold_source = Some (r_threshold_source local),
               c_contract_metadata = meta,
               c_compute_hash = r_compute_hash local\<rparr>)"

definition translate_contract_result :: "contract_result \<Rightarrow> exn + sla_result" where
  "translate_contract_result raw =
     (case rating_of_code (c_rating raw) of
        None \<Rightarrow> Inl KeyError
      | Some rating \<Rightarrow>
          Inr \<lparr>r_id = None, r_outage_id = c_outage_id raw,
               r_status = (if c_status raw = ''viol'' then Violated else Met),
               r_mttr_minutes = c_mttr_minutes raw,
               r_threshold_minutes = c_threshold_minutes raw,
               r_amount = c_amount raw,
               r_payment_type = (if c_payment_type raw = ''pen'' then Penalty else Reward),
               r_rating = rating,
               r_policy_version = (case c_policy_version raw of None \<Rightarrow> ''1.0'' | Some v \<Rightarrow> v),
               r_threshold_source = (case c_threshold_source raw of None \<Rightarrow> ''contract'' | Some v \<Rightarrow> v),
               r_reason_code = None, r_decision_trace = None,
               r_compute_hash = c_compute_hash raw\<rparr>)"

section \<open>Lemmas on the policy store\<close>

lemma lower_char_idem [simp]: "lower_char (lower_char c) = lower_char c"
proof (cases "65 \<le> (of_char c :: nat) \<and> of_char c \<le> (90 :: nat)")
  case True
  then show ?thesis by (simp add: lower_char_def Let_def)
next
  case False
  then show ?thesis by (auto simp: lower_char_def Let_def)
qed

lemma py_lower_idem [simp]: "py_lower (py_lower s) = py_lower s"
  by (simp add: py_lower_def)

lemma default_SLA_CONFIG_valid: "default_SLA_CONFIG sev = Some c \<Longrightarrow> severity_config_valid c"
  by (simp add: default_SLA_CONFIG_def fun_upd_def severity_config_valid_def split: if_split_asm) auto

lemma cache_ok_initial: "cache_ok initial_cache"
  by (auto simp: cache_ok_def initial_cache_def dom_def ran_def dest: default_SLA_CONFIG_valid)

lemma cache_ok_lookup:
  assumes "cache_ok p" and "SLA_CONFIG p sev = Some c"
  shows "\<exists>v. policy_versions p sev = Some v" "\<exists>t. publish_tokens p sev = Some t"
    and "severity_config_valid c"
proof -
  from assms have "sev \<in> dom (policy_versions p)" "sev \<in> dom (publish_tokens p)" "c \<in> ran (SLA_CONFIG p)"
    by (simp_all add: cache_ok_def domI ranI)
  with assms(1) show "\<exists>v. policy_versions p sev = Some v" "\<exists>t. publish_tokens p sev = Some t"
    and "severity_config_valid c" by (auto simp: cache_ok_def)
qed

lemma latest_history_row_Some:
  assumes "latest_history_row db sev = Some r"
  shows "r \<in> set db" "h_severity r = sev"
    and "x \<in> set db \<Longrightarrow> h_severity x = sev \<Longrightarrow> h_policy_version x \<le> h_policy_version r"
  using first_desc_Some [OF assms [unfolded latest_history_row_def]] by auto

lemma latest_history_row_None:
  "latest_history_row db sev = None \<longleftrightarrow> (\<forall>r \<in> set db. h_severity r \<noteq> sev)"
  by (auto simp: latest_history_row_def filter_empty_conv)

lemma latest_history_row_snoc:
  assumes "\<And>r. r \<in> set db \<Longrightarrow> h_severity r = h_severity x \<Longrightarrow> h_policy_version r < h_policy_version x"
  shows "latest_history_row (db @ [x]) (h_severity x) = Some x"
  unfolding latest_history_row_def using assms by (simp add: first_desc_snoc_max)

lemma latest_history_row_other:
  "h_severity x \<noteq> sev \<Longrightarrow> latest_history_row (db @ [x]) sev = latest_history_row db sev"
  by (simp add: latest_history_row_def)

text \<open>What a successful publish did, in one elimination rule.\<close>

lemma publish_cases:
  assumes "publish_config_for_severity H tok now sev c expd who others db p = (res, p', db')"
  obtains (failed) e where "res = Inl e" "p' = p" "db' = db \<or> (\<exists>rows. db = Some rows \<and> db' = Some (rows @ others))"
  | (published) v where "get_policy_version p db sev = Inr v"
      "\<forall>t. expd = Some t \<longrightarrow> get_current_token p db sev = Inr t"
      "res = Inr (\<lparr>pc_severity = py_lower sev, pc_policy_version = v + 1, pc_config = c,
                   pc_content_hash = compute_content_hash H (py_lower sev) c (v + 1)\<rparr>, tok,
                 \<lparr>he_severity = py_lower sev, he_policy_version = v + 1, he_config = c,
                  he_content_hash = compute_content_hash H (py_lower sev) c (v + 1),
                  he_published_at = now, he_published_by = who\<rparr>)"
      "p' = p\<lparr>policy_versions := (policy_versions p)(py_lower sev \<mapsto> v + 1),
              SLA_CONFIG := (SLA_CONFIG p)(py_lower sev \<mapsto> c),
              publish_tokens := (publish_tokens p)(py_lower sev \<mapsto> tok)\<rparr>"
      "db' = map_option (\<lambda>rows. rows @ others @
              [\<lparr>h_severity = py_lower sev, h_policy_version = v + 1, h_config = c,
                h_content_hash = compute_content_hash H (py_lower sev) c (v + 1),
                h_publish_token = tok, h_published_at = now, h_published_by = who\<rparr>]) db"
      "\<And>rows. db = Some rows \<Longrightarrow> \<forall>r \<in> set (rows @ others). h_severity r = py_lower sev \<longrightarrow> h_policy_version r \<noteq> v + 1"
  using assms
  by (fastforce simp: publish_config_for_severity_def get_policy_version_def get_current_token_def
      Let_def split: if_splits option.splits)

section \<open>Lemmas on the calculation\<close>

text \<open>The decision the calculation takes for one severity configuration.\<close>

definition performance_ratio :: "severity_config \<Rightarrow> int \<Rightarrow> int" where
  "performance_ratio c mttr =
     (if threshold_minutes c = 0 then 0 else (mttr * 100) div threshold_minutes c)"

definition sla_amount :: "severity_config \<Rightarrow> int \<Rightarrow> int" where
  "sla_amount c mttr =
     (if mttr > threshold_minutes c then - ((mttr - threshold_minutes c) * penalty_per_minute c)
      else (reward_base c * fst (reward_tier (performance_ratio c mttr))) div 100)"

definition sla_rating :: "severity_config \<Rightarrow> int \<Rightarrow> rating" where
  "sla_rating c mttr =
     (if mttr > threshold_minutes c then Poor
      else fst (snd (reward_tier (performance_ratio c mttr))))"

lemma calculate_total:
  assumes "cache_ok p" and "SLA_CONFIG p (py_lower sev) = Some c"
  shows "\<exists>r. calculate H p oid sev mttr pv src st rs = Inr r"
proof -
  from cache_ok_lookup [OF assms] obtain v where "policy_versions p (py_lower sev) = Some v" by blast
  with assms(2) show ?thesis
    by (simp add: calculate_def get_config_for_severity_def get_policy_version_def Let_def split_beta)
qed

lemma calculate_result:
  assumes "cache_ok p" and "SLA_CONFIG p (py_lower sev) = Some c"
    and "calculate H p oid sev mttr pv src st rs = Inr r"
  shows "r_id r = None" "r_outage_id r = oid" "r_mttr_minutes r = mttr"
    "r_threshold_minutes r = threshold_minutes c" "r_policy_version r = pv" "r_threshold_source r = src"
    "r_status r = (if mttr > threshold_minutes c then Violated else Met)"
    "r_payment_type r = (if mttr > threshold_minutes c then Penalty else Reward)"
    "r_rating r = sla_rating c mttr" "r_amount r = sla_amount c mttr"
    "r_compute_hash r = (if st \<noteq> [] \<and> rs \<noteq> [] then Some (compute_hash H oid st rs pv) else None)"
proof -
  from cache_ok_lookup [OF assms(1,2)] obtain v where v: "policy_versions p (py_lower sev) = Some v"
    by blast
  note calc = assms(3) [unfolded calculate_def]
  have defs: "get_config_for_severity p (py_lower sev) = Inr c"
    "get_policy_version p None (py_lower sev) = Inr v"
    using assms(2) v by (simp_all add: get_config_for_severity_def get_policy_version_def Let_def)
  note facts = sla_rating_def sla_amount_def performance_ratio_def [symmetric] Let_def split_beta
  show "r_id r = None" "r_outage_id r = oid" "r_mttr_minutes r = mttr"
    "r_threshold_minutes r = threshold_minutes c" "r_policy_version r = pv" "r_threshold_source r = src"
    "r_status r = (if mttr > threshold_minutes c then Violated else Met)"
    "r_payment_type r = (if mttr > threshold_minutes c then Penalty else Reward)"
    "r_rating r = sla_rating c mttr" "r_amount r = sla_amount c mttr"
    "r_compute_hash r = (if st \<noteq> [] \<and> rs \<noteq> [] then Some (compute_hash H oid st rs pv) else None)"
    using calc by (auto simp: assms(2) defs facts split: if_split_asm)
qed

lemma calculate_trace:
  assumes "cache_ok p" and "policy_versions p (py_lower sev) = Some v"
    and "calculate H p oid sev mttr pv src st rs = Inr r"
  shows "\<exists>trace. r_decision_trace r = Some (trace @ version_fallback_note pv (py_str_int v))"
proof -
  have ex: "\<exists>t. xs @ n = t @ n" for xs n :: str by blast
  from assms(3) obtain c where c: "SLA_CONFIG p (py_lower sev) = Some c"
    by (auto simp: calculate_def Let_def split: if_splits)
  have defs: "get_config_for_severity p (py_lower sev) = Inr c"
    "get_policy_version p None (py_lower sev) = Inr v"
    using c assms(2) by (simp_all add: get_config_for_severity_def get_policy_version_def Let_def)
  obtain xs where "r_decision_trace r = Some (xs @ version_fallback_note pv (py_str_int v))"
    using assms(3) unfolding calculate_def
    by (cases "mttr > threshold_minutes c")
      (auto simp: c defs Let_def split_beta simp del: append.simps simp flip: append_assoc)
  then show ?thesis by blast
qed

lemma calculate_unknown:
  "SLA_CONFIG p (py_lower sev) = None \<Longrightarrow> calculate H p oid sev mttr pv src st rs = Inl ValueError"
  by (simp add: calculate_def)

lemma reward_tier_mult:
  "fst (reward_tier q) \<in> {100, 150, 200}"
  "q \<le> q' \<Longrightarrow> fst (reward_tier q') \<le> fst (reward_tier q)"
  by (auto simp: reward_tier_def)

lemma performance_ratio_mono:
  "0 \<le> threshold_minutes c \<Longrightarrow> m \<le> m' \<Longrightarrow> performance_ratio c m \<le> performance_ratio c m'"
  by (auto simp: performance_ratio_def intro!: zdiv_mono1)

lemma sla_amount_antimono:
  assumes "severity_config_valid c" and "m \<le> m'"
  shows "sla_amount c m' \<le> sla_amount c m"
proof -
  let ?mult = "\<lambda>m. fst (reward_tier (performance_ratio c m))"
  from assms(1) have nn: "0 \<le> threshold_minutes c" "0 \<le> penalty_per_minute c" "0 \<le> reward_base c"
    by (simp_all add: severity_config_valid_def)
  have "0 \<le> ?mult m" using reward_tier_mult(1) [of "performance_ratio c m"] by auto
  with nn have reward: "0 \<le> (reward_base c * ?mult m) div 100"
    by (simp add: pos_imp_zdiv_nonneg_iff)
  have fine: "0 \<le> (m' - threshold_minutes c) * penalty_per_minute c" if "m' > threshold_minutes c"
    using nn that by simp
  have "?mult m' \<le> ?mult m"
    using reward_tier_mult(2) performance_ratio_mono nn(1) assms(2) by blast
  with nn have "(reward_base c * ?mult m') div 100 \<le> (reward_base c * ?mult m) div 100"
    by (intro zdiv_mono1 mult_left_mono) auto
  moreover have "(m - threshold_minutes c) * penalty_per_minute c \<le> (m' - threshold_minutes c) * penalty_per_minute c"
    using nn assms(2) by (simp add: mult_right_mono)
  ultimately show ?thesis using reward fine assms(2) by (auto simp: sla_amount_def)
qed

lemma rating_of_code_inverse [simp]: "rating_of_code (rating_code q) = Some q"
  by (cases q) (simp_all add: rating_of_code_def)

section \<open>Properties\<close>

text \<open>C4. Longer repairs never pay more: for one severity and one policy state, the settlement
  amount is antitone in the repair time, across the penalty branch and all reward tiers.\<close>

theorem sla_amount_antitone:
  assumes "cache_ok p" and "m \<le> m'"
    and "calculate H p oid sev m pv src st rs = Inr r"
    and "calculate H p oid' sev m' pv' src' st' rs' = Inr r'"
  shows "r_amount r' \<le> r_amount r"
proof -
  from assms(3) obtain c where c: "SLA_CONFIG p (py_lower sev) = Some c"
    using calculate_unknown by fastforce
  have "sla_amount c m' \<le> sla_amount c m"
    by (rule sla_amount_antimono [OF cache_ok_lookup(3) [OF assms(1) c] assms(2)])
  then show ?thesis
    by (simp only: calculate_result(10) [OF assms(1) c assms(3)] calculate_result(10) [OF assms(1) c assms(4)])
qed

theorem sla_amount_antitone_witness:
  "\<exists>r r'. calculate (\<lambda>s. s) initial_cache ''o'' ''HIGH'' 20 ''1'' ''config'' [] [] = Inr r \<and>
     calculate (\<lambda>s. s) initial_cache ''o'' ''HIGH'' 40 ''1'' ''config'' [] [] = Inr r' \<and>
     r_amount r = 1125 \<and> r_amount r' = - 500 \<and> r_amount r' \<le> r_amount r"
proof -
  have "SLA_CONFIG initial_cache (py_lower ''HIGH'') =
      Some \<lparr>threshold_minutes = 30, penalty_per_minute = 50, reward_base = 750\<rparr>" (is "_ = Some ?c")
    by code_simp
  note ok = cache_ok_initial this
  obtain r where r: "calculate (\<lambda>s. s) initial_cache ''o'' ''HIGH'' 20 ''1'' ''config'' [] [] = Inr r"
    using calculate_total [OF ok] by blast
  obtain r' where r': "calculate (\<lambda>s. s) initial_cache ''o'' ''HIGH'' 40 ''1'' ''config'' [] [] = Inr r'"
    using calculate_total [OF ok] by blast
  have "r_amount r' \<le> r_amount r"
    by (rule sla_amount_antitone [OF cache_ok_initial _ r r']) simp
  with r r' calculate_result(10) [OF ok r] calculate_result(10) [OF ok r'] show ?thesis
    by (simp add: sla_amount_def performance_ratio_def reward_tier_def)
qed

text \<open>The calculation is total on known severities and decides by the threshold alone: an
  outage is violated exactly when its repair time exceeds the threshold, a violation is a
  penalty of overtime times the per-minute rate, and a met SLA is a non-negative reward.\<close>

theorem calculate_decides_by_threshold:
  assumes "cache_ok p" and "SLA_CONFIG p (py_lower sev) = Some c"
  shows "\<exists>r. calculate H p oid sev mttr pv src st rs = Inr r \<and>
     (r_status r = Violated \<longleftrightarrow> mttr > threshold_minutes c) \<and>
     (r_payment_type r = Penalty \<longleftrightarrow> r_status r = Violated) \<and>
     (r_rating r = Poor \<longleftrightarrow> r_status r = Violated) \<and>
     (r_status r = Violated \<longrightarrow> r_amount r = - ((mttr - threshold_minutes c) * penalty_per_minute c)) \<and>
     (r_status r = Met \<longrightarrow> r_amount r \<in> {reward_base c, reward_base c * 3 div 2, reward_base c * 2} \<and> 0 \<le> r_amount r)"
proof -
  obtain r where r: "calculate H p oid sev mttr pv src st rs = Inr r"
    using calculate_total [OF assms] by blast
  note res = calculate_result [OF assms r]
  have rate: "sla_rating c mttr = Poor \<longleftrightarrow> mttr > threshold_minutes c"
    by (auto simp: sla_rating_def reward_tier_def)
  have half: "reward_base c * 150 div 100 = reward_base c * 3 div 2"
    using div_mult_mult1 [of 50 "reward_base c * 3" 2] by (simp add: algebra_simps)
  have "0 \<le> reward_base c"
    using cache_ok_lookup(3) [OF assms] by (simp add: severity_config_valid_def)
  then have amt: "sla_amount c mttr \<in> {reward_base c, reward_base c * 3 div 2, reward_base c * 2} \<and> 0 \<le> sla_amount c mttr"
    if "\<not> mttr > threshold_minutes c"
    using that half
    by (auto simp: sla_amount_def reward_tier_def pos_imp_zdiv_nonneg_iff)
  show ?thesis
    by (rule exI [where x = r]) (use r res rate amt in \<open>auto simp: sla_amount_def\<close>)
qed

theorem calculate_decides_by_threshold_witness:
  "\<exists>r. calculate (\<lambda>s. s) initial_cache ''o'' ''low'' 120 ''1'' ''config'' [] [] = Inr r \<and>
     r_status r = Met \<and> 0 \<le> r_amount r"
proof -
  have "SLA_CONFIG initial_cache (py_lower ''low'') =
      Some \<lparr>threshold_minutes = 120, penalty_per_minute = 10, reward_base = 600\<rparr>"
    by code_simp
  from calculate_decides_by_threshold [OF cache_ok_initial this,
      of "\<lambda>s. s" "''o''" 120 "''1''" "''config''" "[]" "[]"]
  show ?thesis by (auto intro: sla_status.exhaust)
qed

text \<open>The contract boundary: translating the adapter's contract-style answer gives back the
  calculator's result in every field except the reason code and the decision trace, which the
  contract shape does not carry and which are therefore lost on every routed settlement.\<close>

theorem translate_calculate_sla:
  assumes "calculate H p oid sev mttr pv src st rs = Inr r" and "cache_ok p"
  shows "\<exists>raw. calculate_sla H meta p oid sev mttr pv src st rs = Inr raw \<and>
     translate_contract_result raw = Inr (r\<lparr>r_reason_code := None, r_decision_trace := None\<rparr>)"
proof -
  from assms(1) obtain c where c: "SLA_CONFIG p (py_lower sev) = Some c"
    using calculate_unknown by fastforce
  have "r_id r = None" by (rule calculate_result(1) [OF assms(2) c assms(1)])
  then have "translate_contract_result
      \<lparr>c_outage_id = r_outage_id r, c_status = (if r_status r = Violated then ''viol'' else ''met''),
       c_mttr_minutes = r_mttr_minutes r, c_threshold_minutes = r_threshold_minutes r,
       c_amount = r_amount r, c_payment_type = (if r_payment_type r = Penalty then ''pen'' else ''rew''),
       c_rating = rating_code (r_rating r), c_policy_version = Some (r_policy_version r),
       c_threshold_source = Some (r_threshold_source r), c_contract_metadata = meta,
       c_compute_hash = r_compute_hash r\<rparr> = Inr (r\<lparr>r_reason_code := None, r_decision_trace := None\<rparr>)"
    by (cases r; cases "r_status r"; cases "r_payment_type r") (simp_all add: translate_contract_result_def)
  with assms(1) show ?thesis by (simp add: calculate_sla_def)
qed

theorem translate_calculate_sla_witness:
  "\<exists>r raw. calculate (\<lambda>s. s) initial_cache ''o'' ''low'' 7 ''1'' ''config'' [] [] = Inr r \<and>
     calculate_sla (\<lambda>s. s) \<lparr>contract_address = ''C'', network = ''testnet'', execution_mode = ''local_adapter''\<rparr>
       initial_cache ''o'' ''low'' 7 ''1'' ''config'' [] [] = Inr raw \<and>
     translate_contract_result raw = Inr (r\<lparr>r_reason_code := None, r_decision_trace := None\<rparr>)"
proof -
  have "SLA_CONFIG initial_cache (py_lower ''low'') =
      Some \<lparr>threshold_minutes = 120, penalty_per_minute = 10, reward_base = 600\<rparr>"
    by code_simp
  from calculate_total [OF cache_ok_initial this] obtain r where
    r: "calculate (\<lambda>s. s) initial_cache ''o'' ''low'' 7 ''1'' ''config'' [] [] = Inr r" by blast
  from translate_calculate_sla [OF r cache_ok_initial] r show ?thesis by blast
qed

text \<open>The routed handlers request policy version \<open>1.0\<close>, which the integer live version never
  renders to: every result computed for it carries the version-mismatch warning.\<close>

theorem policy_version_1_0_always_warns:
  assumes "cache_ok p" and "calculate H p oid sev mttr ''1.0'' src st rs = Inr r"
  shows "\<exists>trace v. policy_versions p (py_lower sev) = Some v \<and>
     r_decision_trace r = Some (trace @ '' [WARNING: requested policy_version=1.0'' @
       '' but no history exists; computed with live config version='' @ py_str_int v @ '']'')"
proof -
  from assms(2) obtain c where c: "SLA_CONFIG p (py_lower sev) = Some c"
    using calculate_unknown by fastforce
  from cache_ok_lookup [OF assms(1) c] obtain v where v: "policy_versions p (py_lower sev) = Some v"
    by blast
  from calculate_trace [OF assms(1) v assms(2)] obtain trace where
    tr: "r_decision_trace r = Some (trace @ version_fallback_note ''1.0'' (py_str_int v))" by blast
  have "''1.0'' \<noteq> py_str_int v" using py_str_int_no_dot [of v] by (metis list.set_intros)
  then have note_eq: "version_fallback_note ''1.0'' (py_str_int v) =
      '' [WARNING: requested policy_version=1.0'' @
      '' but no history exists; computed with live config version='' @ py_str_int v @ '']''"
    by (simp add: version_fallback_note_def)
  show ?thesis
    by (intro exI conjI) (rule v, simp only: tr note_eq)
qed

theorem policy_version_1_0_always_warns_witness:
  "\<exists>r trace. calculate (\<lambda>s. s) initial_cache ''o'' ''low'' 7 ''1.0'' ''config'' [] [] = Inr r \<and>
     r_decision_trace r = Some (trace @ '' [WARNING: requested policy_version=1.0'' @
       '' but no history exists; computed with live config version=1]'')"
proof -
  have "SLA_CONFIG initial_cache (py_lower ''low'') =
      Some \<lparr>threshold_minutes = 120, penalty_per_minute = 10, reward_base = 600\<rparr>"
    by code_simp
  from calculate_total [OF cache_ok_initial this] obtain r where
    r: "calculate (\<lambda>s. s) initial_cache ''o'' ''low'' 7 ''1.0'' ''config'' [] [] = Inr r" by blast
  have v: "policy_versions initial_cache (py_lower ''low'') = Some 1" by code_simp
  have "py_str_int 1 = ''1''" by (simp add: py_str_int_def digits_of.simps) code_simp
  with policy_version_1_0_always_warns [OF cache_ok_initial r] v r show ?thesis by fastforce
qed

text \<open>Publishing in the ledger: on success the persisted version of the severity grows by exactly
  one, the new token and configuration are the ones every later read returns, the content hash of
  the answer is the hash of what was stored, and no other severity is touched.  The row lock on the
  latest row is the hypothesis that no other worker publishes this severity meanwhile.\<close>

theorem publish_bumps_version:
  assumes "publish_config_for_severity H tok now sev c expd who others (Some rows) p
      = (Inr (policy, tok', entry), p', db')"
    and "\<forall>r \<in> set others. h_severity r \<noteq> py_lower sev"
  shows "\<exists>v. get_policy_version p (Some rows) sev = Inr v \<and>
     get_policy_version p' db' sev = Inr (v + 1) \<and>
     get_current_token p' db' sev = Inr tok \<and> tok' = tok \<and>
     get_config_with_hash H p' sev = Inr policy \<and> pc_config policy = c \<and>
     (\<forall>sev'. py_lower sev' \<noteq> py_lower sev \<longrightarrow>
        get_policy_version p' db' sev' = get_policy_version p (Some (rows @ others)) sev' \<and>
        get_config_for_severity p' sev' = get_config_for_severity p sev')"
  using assms(1)
proof (cases rule: publish_cases)
  case (failed e)
  then show ?thesis by simp
next
  case (published v)
  let ?row = "\<lparr>h_severity = py_lower sev, h_policy_version = v + 1, h_config = c,
                h_content_hash = compute_content_hash H (py_lower sev) c (v + 1),
                h_publish_token = tok, h_published_at = now, h_published_by = who\<rparr>"
  have below: "h_policy_version r < v + 1" if "r \<in> set (rows @ others)" "h_severity r = py_lower sev" for r
  proof -
    from that assms(2) have "r \<in> set rows" by auto
    with that(2) have "latest_history_row rows (py_lower sev) \<noteq> None"
      by (auto simp: latest_history_row_None)
    then obtain l where l: "latest_history_row rows (py_lower sev) = Some l" by blast
    with published(1) have "h_policy_version l = v"
      by (simp add: get_policy_version_def Let_def split: if_splits)
    with latest_history_row_Some(3) [OF l \<open>r \<in> set rows\<close> that(2)] show ?thesis by simp
  qed
  have db': "db' = Some ((rows @ others) @ [?row])" using published(5) by simp
  have new: "latest_history_row ((rows @ others) @ [?row]) (py_lower sev) = Some ?row"
    using latest_history_row_snoc [of "rows @ others" ?row] below by simp
  have old: "latest_history_row ((rows @ others) @ [?row]) sev' = latest_history_row (rows @ others) sev'"
    if "sev' \<noteq> py_lower sev" for sev'
    by (rule latest_history_row_other) (use that in auto)
  show ?thesis
    using published(1,3,4) new old
    by (intro exI [where x = v])
      (auto simp: db' get_policy_version_def get_current_token_def get_config_for_severity_def
        get_config_with_hash_def Let_def split: option.splits)
qed

theorem publish_bumps_version_witness:
  "\<exists>p' db'. get_policy_version p' db' ''high'' = Inr 2 \<and> get_current_token p' db' ''high'' = Inr ''t1'' \<and>
     publish_config_for_severity (\<lambda>s. s) ''t1'' 5 ''high''
       \<lparr>threshold_minutes = 20, penalty_per_minute = 60, reward_base = 700\<rparr> (Some []) None [] (Some []) initial_cache
       = (fst (publish_config_for_severity (\<lambda>s. s) ''t1'' 5 ''high''
       \<lparr>threshold_minutes = 20, penalty_per_minute = 60, reward_base = 700\<rparr> (Some []) None [] (Some []) initial_cache), p', db')"
proof -
  let ?c = "\<lparr>threshold_minutes = 20, penalty_per_minute = 60, reward_base = 700\<rparr>"
  let ?pub = "publish_config_for_severity (\<lambda>s. s) ''t1'' 5 ''high'' ?c (Some []) None [] (Some []) initial_cache"
  have low: "py_lower ''high'' = ''high''" by code_simp
  have v: "get_policy_version initial_cache (Some []) ''high'' = Inr 1" by code_simp
  obtain policy tok' entry p' db' where pub: "?pub = (Inr (policy, tok', entry), p', db')"
    by (simp add: publish_config_for_severity_def Let_def low initial_cache_def default_SLA_CONFIG_def
        latest_history_row_def first_desc_def sort_desc_def)
  from publish_bumps_version [OF pub] v pub show ?thesis by auto
qed

text \<open>The unique index is never violated: whatever concurrent workers commit in between and
  whatever the outcome, the ledger keeps at most one row per severity and version.\<close>

theorem publish_keeps_versions_unique:
  assumes "publish_config_for_severity H tok now sev c expd who others (Some rows) p = (res, p', Some rows')"
    and "distinct (map (\<lambda>r. (h_severity r, h_policy_version r)) (rows @ others))"
  shows "distinct (map (\<lambda>r. (h_severity r, h_policy_version r)) rows')"
  using assms(1)
proof (cases rule: publish_cases)
  case (failed e)
  with assms(2) show ?thesis by auto
next
  case (published v)
  with assms(2) show ?thesis by (auto simp: image_iff)
qed

theorem publish_keeps_versions_unique_witness:
  "\<exists>res p' rows'. publish_config_for_severity (\<lambda>s. s) ''t'' 5 ''low''
       \<lparr>threshold_minutes = 1, penalty_per_minute = 1, reward_base = 1\<rparr> None None
       [\<lparr>h_severity = ''low'', h_policy_version = 2, h_config =
          \<lparr>threshold_minutes = 9, penalty_per_minute = 9, reward_base = 9\<rparr>, h_content_hash = ''x'',
          h_publish_token = ''u'', h_published_at = 4, h_published_by = None\<rparr>]
       (Some []) initial_cache = (res, p', Some rows') \<and> res = Inl ConcurrencyError \<and>
     distinct (map (\<lambda>r. (h_severity r, h_policy_version r)) rows')"
proof -
  let ?r = "\<lparr>h_severity = ''low'', h_policy_version = 2, h_config =
          \<lparr>threshold_minutes = 9, penalty_per_minute = 9, reward_base = 9\<rparr>, h_content_hash = ''x'',
          h_publish_token = ''u'', h_published_at = 4, h_published_by = None\<rparr>"
  have low: "py_lower ''low'' = ''low''" by code_simp
  have "publish_config_for_severity (\<lambda>s. s) ''t'' 5 ''low''
       \<lparr>threshold_minutes = 1, penalty_per_minute = 1, reward_base = 1\<rparr> None None [?r]
       (Some []) initial_cache = (Inl ConcurrencyError, initial_cache, Some [?r])"
    by (simp add: publish_config_for_severity_def Let_def low initial_cache_def default_SLA_CONFIG_def
        latest_history_row_def first_desc_def sort_desc_def)
  from this publish_keeps_versions_unique [OF this] show ?thesis by auto
qed

text \<open>Optimistic concurrency: of two publishes of a severity that hold the same token, the second
  one is refused and changes nothing, provided the first was given a fresh token.\<close>

theorem publish_same_token_loses:
  assumes "publish_config_for_severity H tok now sev c (Some t) who others (Some rows) p
      = (Inr ans, p', Some rows')"
    and "\<forall>r \<in> set others. h_severity r \<noteq> py_lower sev" and "tok \<noteq> t"
  shows "publish_config_for_severity H tok2 now2 sev c2 (Some t) who2 others2 (Some rows') p'
      = (Inl ConcurrencyError, p', Some rows')"
proof -
  obtain policy tok' entry where ans: "ans = (policy, tok', entry)" by (cases ans)
  from publish_bumps_version [OF assms(1) [unfolded ans] assms(2)]
  obtain v where "get_current_token p' (Some rows') sev = Inr tok"
    "get_policy_version p' (Some rows') sev = Inr (v + 1)" by blast
  with assms(3) show ?thesis
    by (auto simp: publish_config_for_severity_def get_current_token_def get_policy_version_def Let_def
        split: if_splits option.splits)
qed

theorem publish_same_token_loses_witness:
  "\<exists>p' rows'. publish_config_for_severity (\<lambda>s. s) ''t2'' 6 ''low''
       \<lparr>threshold_minutes = 2, penalty_per_minute = 1, reward_base = 1\<rparr> (Some []) None [] (Some rows') p'
     = (Inl ConcurrencyError, p', Some rows') \<and> rows' \<noteq> []"
proof -
  let ?pub = "publish_config_for_severity (\<lambda>s. s) ''t1'' 5 ''low''
       \<lparr>threshold_minutes = 1, penalty_per_minute = 1, reward_base = 1\<rparr> (Some []) None [] (Some []) initial_cache"
  have low: "py_lower ''low'' = ''low''" by code_simp
  obtain ans p' rows' where pub: "?pub = (Inr ans, p', Some rows')" "rows' \<noteq> []"
    by (simp add: publish_config_for_severity_def Let_def low initial_cache_def default_SLA_CONFIG_def
        latest_history_row_def first_desc_def sort_desc_def)
  from publish_same_token_loses [OF pub(1)] pub(2) show ?thesis
    by (intro exI [of _ p'] exI [of _ rows']) simp
qed

end
