(* ===== verification/Audit_Trail.thy ===== *)
theory Audit_Trail
  imports Strings "HOL-Library.List_Lexorder" "HOL-Library.Char_ord"
begin

text \<open>
  The audit log: \<^verbatim>\<open>app/services/audit_log.py\<close> with its canonical serializer
  (\<^verbatim>\<open>app/services/formatters.py\<close>) and secret scrubber (\<^verbatim>\<open>app/services/scrubber.py\<close>).
  Every entry hashes the previous entry's hash with its own event type, details, correlation id
  and timestamp; \<open>verify_chain\<close> recomputes the whole chain.  SHA-256 and the rendering of
  timestamps are arguments.  The interface other components use is the locale \<open>audit_sink\<close>.
\<close>

section \<open>JSON values and their canonical form\<close>

datatype json = JNull | JBool bool | JInt int | JStr str | JList "json list" | JObj "(str \<times> json) list"

text \<open>\<open>json.dumps(value, sort_keys=True, separators=(",", ":"), ensure_ascii=False)\<close>.\<close>

fun canonical_json :: "json \<Rightarrow> string" where
  "canonical_json JNull = ''null''"
| "canonical_json (JBool b) = (if b then ''true'' else ''false'')"
| "canonical_json (JInt i) = py_str_int i"
| "canonical_json (JStr s) = json_string s"
| "canonical_json (JList xs) = ''['' @ join '','' (map canonical_json xs) @ '']''"
| "canonical_json (JObj kvs) =
     ''{'' @ join '','' (map (\<lambda>(k, v). json_string k @ '':'' @ v)
                        (sort_key fst (map (\<lambda>(k, v). (k, canonical_json v)) kvs))) @ ''}''"

definition json_opt :: "str option \<Rightarrow> json" where
  "json_opt v = (case v of None \<Rightarrow> JNull | Some s \<Rightarrow> JStr s)"

lemma json_opt_inject [simp]: "json_opt a = json_opt b \<longleftrightarrow> a = b"
  by (cases a; cases b) (simp_all add: json_opt_def)

section \<open>Scrubbing\<close>

text \<open>A pattern that ends in \<open>$\<close> also matches before one trailing newline.\<close>

definition match_dollar :: "(string \<Rightarrow> bool) \<Rightarrow> string \<Rightarrow> bool" where
  "match_dollar P s \<longleftrightarrow> P s \<or> (s \<noteq> [] \<and> last s = CHR 0x0A \<and> P (butlast s))"

definition is_alnum :: "char \<Rightarrow> bool" where
  "is_alnum c \<longleftrightarrow> (let n = (of_char c :: nat) in
     48 \<le> n \<and> n \<le> 57 \<or> 65 \<le> n \<and> n \<le> 90 \<or> 97 \<le> n \<and> n \<le> 122)"

definition stellar_secret_re :: "string \<Rightarrow> bool" where
  "stellar_secret_re = match_dollar (\<lambda>s. length s = 56 \<and> hd s = CHR ''S'' \<and> list_all is_alnum (tl s))"

definition ed25519_key_re :: "string \<Rightarrow> bool" where
  "ed25519_key_re = match_dollar (\<lambda>s. length s = 88 \<and>
     list_all (\<lambda>c. is_alnum c \<or> c \<in> {CHR ''+'', CHR ''/'', CHR ''=''}) s)"

definition long_key_re :: "string \<Rightarrow> bool" where
  "long_key_re = match_dollar (\<lambda>s. length s \<ge> 32 \<and>
     list_all (\<lambda>c. is_alnum c \<or> c \<in> {CHR ''+'', CHR ''/'', CHR ''='', CHR ''_'', CHR ''-''}) s)"

definition scrub_value :: "str list \<Rightarrow> str \<Rightarrow> json \<Rightarrow> json" where
  "scrub_value sensitive key v =
     (if key \<in> set sensitive then JStr ''[REDACTED]''
      else case v of
        JStr s \<Rightarrow>
          if stellar_secret_re s then JStr ''[REDACTED_STELLAR_SECRET]''
          else if ed25519_key_re s then JStr ''[REDACTED_ED25519]''
          else if length s \<ge> 32 \<and> long_key_re s then JStr ''[REDACTED_KEY_MATERIAL]''
          else v
      | _ \<Rightarrow> v)"

definition scrub_details :: "str list \<Rightarrow> (str \<times> json) list option \<Rightarrow> (str \<times> json) list" where
  "scrub_details sensitive details =
     (case details of None \<Rightarrow> [] | Some kvs \<Rightarrow> map (\<lambda>(k, v). (k, scrub_value sensitive k v)) kvs)"

section \<open>The log\<close>

record audit_row =
  a_id :: int
  a_event_type :: str
  a_email :: "str option"
  a_actor_id :: "str option"
  a_correlation_id :: "str option"
  a_details :: "(str \<times> json) list"
  a_created_at :: time
  a_prev_hash :: "str option"
  a_entry_hash :: str

text \<open>What the service reads from its surroundings.\<close>

record audit_env =
  sha256 :: "str \<Rightarrow> str"
  isoformat :: "time \<Rightarrow> str"
  sensitive_fields :: "str list"

definition entry_document ::
  "audit_env \<Rightarrow> str option \<Rightarrow> str \<Rightarrow> (str \<times> json) list \<Rightarrow> str option \<Rightarrow> time \<Rightarrow> json" where
  "entry_document env prev_hash event_type details correlation_id created_at =
     JObj [(''prev_hash'', json_opt prev_hash), (''event_type'', JStr event_type),
           (''details'', JObj details), (''correlation_id'', json_opt correlation_id),
           (''created_at'', JStr (isoformat env created_at))]"

definition compute_entry_hash ::
  "audit_env \<Rightarrow> str option \<Rightarrow> str \<Rightarrow> (str \<times> json) list \<Rightarrow> str option \<Rightarrow> time \<Rightarrow> str" where
  "compute_entry_hash env prev_hash event_type details correlation_id created_at =
     sha256 env (canonical_json
       (entry_document env prev_hash event_type details correlation_id created_at))"

text \<open>The rows are kept in the order of their autoincremented id; \<open>next_id\<close> is the sequence.\<close>

record audit_log =
  rows :: "audit_row list"
  next_id :: int

definition log_event ::
  "audit_env \<Rightarrow> time \<Rightarrow> str option \<Rightarrow> str \<Rightarrow> str option \<Rightarrow> str option
    \<Rightarrow> (str \<times> json) list option \<Rightarrow> str option \<Rightarrow> audit_log \<Rightarrow> audit_log" where
  "log_event env now context_correlation event_type email actor_id details correlation_id lg =
     (let safe_details = scrub_details (sensitive_fields env) details;
          corr = (case correlation_id of None \<Rightarrow> context_correlation | Some c \<Rightarrow> Some c);
          prev_hash = (if rows lg = [] then None else Some (a_entry_hash (last (rows lg))));
          entry_hash = compute_entry_hash env prev_hash event_type safe_details corr now in
      lg\<lparr>rows := rows lg @ [\<lparr>a_id = next_id lg, a_event_type = event_type, a_email = email,
            a_actor_id = actor_id, a_correlation_id = corr, a_details = safe_details,
            a_created_at = now, a_prev_hash = prev_hash, a_entry_hash = entry_hash\<rparr>],
         next_id := next_id lg + 1\<rparr>)"

text \<open>\<open>AuditLogService.log\<close>: no email, no actor, the correlation id of the context.\<close>

definition log_simple :: "audit_env \<Rightarrow> time \<Rightarrow> str option \<Rightarrow> str \<Rightarrow> (str \<times> json) list \<Rightarrow> audit_log \<Rightarrow> audit_log" where
  "log_simple env now ctx event_type details lg = log_event env now ctx event_type None None (Some details) None lg"

record verification =
  verified :: bool
  first_bad_id :: "int option"
  total_entries :: nat
  last_hash :: "str option"

definition entry_matches :: "audit_env \<Rightarrow> str option \<Rightarrow> audit_row \<Rightarrow> bool" where
  "entry_matches env prev e \<longleftrightarrow>
     a_prev_hash e = prev \<and>
     a_entry_hash e = compute_entry_hash env prev (a_event_type e) (a_details e)
       (a_correlation_id e) (a_created_at e)"

fun first_bad :: "audit_env \<Rightarrow> str option \<Rightarrow> audit_row list \<Rightarrow> int option" where
  "first_bad env prev [] = None"
| "first_bad env prev (e # es) =
     (if entry_matches env prev e then first_bad env (Some (a_entry_hash e)) es else Some (a_id e))"

definition verify_chain :: "audit_env \<Rightarrow> audit_log \<Rightarrow> verification" where
  "verify_chain env lg =
     (let entries = rows lg in
      if entries = [] then \<lparr>verified = True, first_bad_id = None, total_entries = 0, last_hash = None\<rparr>
      else \<lparr>verified = (first_bad env None entries = None), first_bad_id = first_bad env None entries,
            total_entries = length entries, last_hash = Some (a_entry_hash (last entries))\<rparr>)"

section \<open>Lemmas\<close>

definition tail_hash :: "str option \<Rightarrow> audit_row list \<Rightarrow> str option" where
  "tail_hash prev es = (if es = [] then prev else Some (a_entry_hash (last es)))"

lemma first_bad_append:
  "first_bad env prev (es @ fs) = None \<longleftrightarrow>
     first_bad env prev es = None \<and> first_bad env (tail_hash prev es) fs = None"
  by (induction es arbitrary: prev) (auto simp: tail_hash_def split: if_splits)

lemma verified_iff: "verified (verify_chain env lg) \<longleftrightarrow> first_bad env None (rows lg) = None"
  by (simp add: verify_chain_def Let_def)

lemma rows_log_event: "\<exists>e. rows (log_event env now ctx ev em ac d c lg) = rows lg @ [e] \<and>
    entry_matches env (tail_hash None (rows lg)) e \<and> a_event_type e = ev \<and> a_email e = em \<and>
    a_actor_id e = ac \<and> a_created_at e = now"
  by (simp add: log_event_def Let_def entry_matches_def tail_hash_def)

lemma log_event_keeps_verified:
  "verified (verify_chain env lg) \<Longrightarrow> verified (verify_chain env (log_event env now ctx ev em ac d c lg))"
  using rows_log_event [of env now ctx ev em ac d c lg] by (auto simp: verified_iff first_bad_append)

text \<open>What a component that writes audit events may rely on.\<close>

locale audit_sink =
  fixes record_event :: "'e \<Rightarrow> 'l \<Rightarrow> 'l" and entries :: "'l \<Rightarrow> 'r list" and intact :: "'l \<Rightarrow> bool"
  assumes record_appends: "\<exists>r. entries (record_event e l) = entries l @ [r]"
    and record_keeps_intact: "intact l \<Longrightarrow> intact (record_event e l)"
begin

lemma records_prefix: "\<exists>rs. entries (fold record_event es l) = entries l @ rs \<and> length rs = length es"
proof (induction es arbitrary: l)
  case Nil
  show ?case by simp
next
  case (Cons e es)
  obtain r where "entries (record_event e l) = entries l @ [r]" using record_appends by blast
  with Cons [of "record_event e l"] show ?case by auto
qed

lemma records_keep_intact: "intact l \<Longrightarrow> intact (fold record_event es l)"
  by (induction es arbitrary: l) (simp_all add: record_keeps_intact)

end

text \<open>One call of the service: clock, context correlation id and the arguments of \<open>log_event\<close>.\<close>

type_synonym audit_call =
  "time \<times> str option \<times> str \<times> str option \<times> str option \<times> (str \<times> json) list option \<times> str option"

definition log_call :: "audit_env \<Rightarrow> audit_call \<Rightarrow> audit_log \<Rightarrow> audit_log" where
  "log_call env call lg =
     (case call of (now, ctx, ev, em, ac, d, c) \<Rightarrow> log_event env now ctx ev em ac d c lg)"

interpretation chain: audit_sink "log_call env" rows "\<lambda>lg. verified (verify_chain env lg)" for env
proof
  fix e :: audit_call and l :: audit_log
  obtain now ctx ev em ac d c where [simp]: "e = (now, ctx, ev, em, ac, d, c)" by (cases e)
  show "\<exists>r. rows (log_call env e l) = rows l @ [r]"
    using rows_log_event [of env now ctx ev em ac d c l] by (auto simp: log_call_def)
  show "verified (verify_chain env (log_call env e l))" if "verified (verify_chain env l)"
    using that by (simp add: log_call_def log_event_keeps_verified)
qed

section \<open>Properties\<close>

text \<open>C9. The log is append-only and self-consistent: from a verified log, any sequence of logged
  events leaves the old entries in place, adds exactly one entry per event, and the chain verifies.\<close>

theorem audit_chain_verifies:
  assumes "verified (verify_chain env lg)"
  shows "\<exists>new. rows (fold (log_call env) calls lg) = rows lg @ new \<and> length new = length calls \<and>
    verified (verify_chain env (fold (log_call env) calls lg))"
  using chain.records_prefix [of env calls lg] chain.records_keep_intact [OF assms, of calls] by auto

theorem audit_chain_verifies_witness:
  "\<exists>new. rows (fold (log_call \<lparr>sha256 = (\<lambda>s. s), isoformat = (\<lambda>t. []), sensitive_fields = []\<rparr>)
       [(1, None, ''login'', None, None, None, None), (2, None, ''logout'', None, None, None, None)]
       \<lparr>rows = [], next_id = 1\<rparr>) = new \<and> length new = 2"
proof -
  let ?env = "\<lparr>sha256 = (\<lambda>s. s), isoformat = (\<lambda>t. []), sensitive_fields = []\<rparr>"
  have "verified (verify_chain ?env \<lparr>rows = [], next_id = 1\<rparr>)" by (simp add: verify_chain_def)
  from audit_chain_verifies [OF this, of "[(1, None, ''login'', None, None, None, None),
      (2, None, ''logout'', None, None, None, None)]"] show ?thesis by simp
qed

text \<open>The fields of an entry that its hash covers.\<close>

definition hashed_fields :: "audit_row \<Rightarrow> str \<times> (str \<times> json) list \<times> str option \<times> time" where
  "hashed_fields e = (a_event_type e, a_details e, a_correlation_id e, a_created_at e)"

text \<open>No two of the documents hashed in the entries of two logs collide, and timestamps render
  injectively: the idealisation of SHA-256 over the canonical form.\<close>

definition documents :: "audit_env \<Rightarrow> audit_row list \<Rightarrow> json set" where
  "documents env es = {entry_document env (a_prev_hash e) (a_event_type e) (a_details e)
     (a_correlation_id e) (a_created_at e) | e. e \<in> set es}"

definition collision_free :: "audit_env \<Rightarrow> json set \<Rightarrow> bool" where
  "collision_free env D \<longleftrightarrow> inj (isoformat env) \<and> inj_on (\<lambda>d. sha256 env (canonical_json d)) D"

lemma entry_document_inject:
  assumes "inj (isoformat env)"
  shows "entry_document env p ev d c t = entry_document env p' ev' d' c' t' \<longleftrightarrow>
     p = p' \<and> ev = ev' \<and> d = d' \<and> c = c' \<and> t = t'"
  using assms by (auto simp: entry_document_def dest: injD)

lemma collision_free_single:
  assumes "inj (isoformat env)" and "rows lg = [e]"
  shows "collision_free env (documents env (rows lg @ rows lg))"
proof -
  have "documents env (rows lg @ rows lg) = {entry_document env (a_prev_hash e) (a_event_type e)
      (a_details e) (a_correlation_id e) (a_created_at e)}"
    by (auto simp: documents_def assms(2))
  with assms(1) show ?thesis by (simp add: collision_free_def)
qed

lemma chain_commits:
  assumes "first_bad env None es = None" and "first_bad env None es' = None"
    and "length es = length es'" and "es \<noteq> [] \<longrightarrow> a_entry_hash (last es) = a_entry_hash (last es')"
    and "collision_free env (documents env (es @ es'))"
  shows "map hashed_fields es = map hashed_fields es'"
  using assms
proof (induction es arbitrary: es' rule: rev_induct)
  case Nil
  then show ?case by simp
next
  case (snoc e es)
  then obtain fs f where es': "es' = fs @ [f]" and len: "length es = length fs"
    by (cases es' rule: rev_cases) auto
  from snoc.prems(1) have bad: "first_bad env None es = None" "entry_matches env (tail_hash None es) e"
    by (auto simp: first_bad_append split: if_splits)
  from snoc.prems(2) have bad': "first_bad env None fs = None" "entry_matches env (tail_hash None fs) f"
    by (auto simp: es' first_bad_append split: if_splits)
  let ?doc = "\<lambda>x. entry_document env (a_prev_hash x) (a_event_type x) (a_details x)
     (a_correlation_id x) (a_created_at x)"
  have docs: "?doc e \<in> documents env ((es @ [e]) @ es')" "?doc f \<in> documents env ((es @ [e]) @ es')"
    by (auto simp: documents_def es')
  from snoc.prems(4) es' have "a_entry_hash e = a_entry_hash f" by simp
  with bad(2) bad'(2) have "sha256 env (canonical_json (?doc e)) = sha256 env (canonical_json (?doc f))"
    by (simp add: entry_matches_def compute_entry_hash_def)
  with docs snoc.prems(5) have "?doc e = ?doc f"
    by (auto simp: collision_free_def dest: inj_onD)
  with snoc.prems(5) have eq: "a_prev_hash e = a_prev_hash f" "hashed_fields e = hashed_fields f"
    by (simp_all add: entry_document_inject collision_free_def hashed_fields_def)
  have "es \<noteq> [] \<longrightarrow> a_entry_hash (last es) = a_entry_hash (last fs)"
    using eq(1) bad(2) bad'(2) len by (auto simp: entry_matches_def tail_hash_def split: if_splits)
  moreover have "collision_free env (documents env (es @ fs))"
    using snoc.prems(5) unfolding collision_free_def es'
    by (auto elim!: inj_on_subset simp: documents_def)
  ultimately have "map hashed_fields es = map hashed_fields fs"
    using snoc.IH bad(1) bad'(1) len by blast
  with eq(2) es' show ?case by simp
qed



text \<open>The hash does not cover who acted: replacing the email and the actor id of any entries
  leaves the verification result unchanged, so a rewritten attribution is not detected.\<close>

theorem audit_actor_not_protected:
  "verify_chain env (lg\<lparr>rows := map (\<lambda>e. e\<lparr>a_email := f e, a_actor_id := g e\<rparr>) (rows lg)\<rparr>)
     = verify_chain env lg"
proof -
  let ?h = "\<lambda>e. e\<lparr>a_email := f e, a_actor_id := g e\<rparr>"
  have "first_bad env prev (map ?h es) = first_bad env prev es" for prev es
    by (induction es arbitrary: prev) (simp_all add: entry_matches_def)
  then show ?thesis by (simp add: verify_chain_def Let_def last_map)
qed

end
