(* ===== verification/Database.thy ===== *)
theory Database
  imports Sla_Policy Audit_Trail
begin

text \<open>
  The relational store behind the outage domain: the rows of \<^verbatim>\<open>app/models/orm\<close> (outages, outage
  events, SLA results, payment transactions) and the enumerations of \<^verbatim>\<open>app/models/enums.py\<close>, one
  \<^verbatim>\<open>database\<close> record per schema, and the environment a request reads (clock, UUID supply, hashing,
  settings).  A table is the list of its rows in insertion order.
\<close>

datatype severity = critical | high | medium | low
datatype outage_status = Open | Resolved

fun severity_value :: "severity \<Rightarrow> str" where
  "severity_value critical = ''critical''"
| "severity_value high = ''high''"
| "severity_value medium = ''medium''"
| "severity_value low = ''low''"

fun outage_status_value :: "outage_status \<Rightarrow> str" where
  "outage_status_value Open = ''open''"
| "outage_status_value Resolved = ''resolved''"

fun sla_status_value :: "sla_status \<Rightarrow> str" where
  "sla_status_value Met = ''met''"
| "sla_status_value Violated = ''violated''"

fun payment_type_value :: "payment_type \<Rightarrow> str" where
  "payment_type_value Reward = ''reward''"
| "payment_type_value Penalty = ''penalty''"

type_synonym location = "real \<times> real"

text \<open>The denormalised SLA status kept on the outage row.\<close>

record sla_status_doc =
  ss_status :: sla_status
  ss_mttr_minutes :: "int option"
  ss_threshold_minutes :: int
  ss_time_remaining_minutes :: "int option"

record outage_row =
  o_id :: str
  o_site_name :: str
  o_site_id :: "str option"
  o_severity :: severity
  o_status :: outage_status
  o_detected_at :: time
  o_resolved_at :: "time option"
  o_description :: str
  o_affected_services :: "str list"
  o_affected_subscribers :: "int option"
  o_assigned_to :: "str option"
  o_created_by :: "str option"
  o_location :: "location option"
  o_sla_status :: "sla_status_doc option"
  o_mttr_minutes :: "int option"
  o_created_at :: time
  o_updated_at :: time

record sla_row =
  s_id :: int
  s_outage_id :: str
  s_status :: sla_status
  s_mttr_minutes :: int
  s_threshold_minutes :: int
  s_amount :: int
  s_payment_type :: payment_type
  s_rating :: rating
  s_policy_version :: str
  s_threshold_source :: str
  s_created_at :: time
  s_is_latest :: bool
  s_reason_code :: "str option"
  s_decision_trace :: "str option"
  s_compute_hash :: "str option"

record payment_row =
  p_id :: str
  p_transaction_hash :: str
  p_type :: str
  p_amount :: int
  p_asset_code :: str
  p_from_address :: str
  p_to_address :: str
  p_status :: str
  p_outage_id :: "str option"
  p_sla_result_id :: "int option"
  p_created_at :: time
  p_confirmed_at :: "time option"
  p_retry_count :: int
  p_last_retried_at :: "time option"

record event_row =
  e_id :: str
  e_outage_id :: str
  e_event_type :: str
  e_detail :: "(str \<times> json) list option"
  e_schema_version :: str
  e_occurred_at :: time

record database =
  outages :: "outage_row list"
  outage_events :: "event_row list"
  sla_results :: "sla_row list"
  payments :: "payment_row list"
  audit :: audit_log
  next_sla_id :: int
  uuid_count :: nat

text \<open>
  What a request reads from its surroundings; one clock reading per request.  Column defaults are
  written \<open>default=datetime.now(UTC)\<close> in the ORM classes, so they are evaluated once, when the module is
  imported: \<open>process_start\<close> is that reading.
\<close>

record env =
  auditing :: audit_env
  now :: time
  process_start :: time
  correlation_id :: "str option"
  uuid4_hex :: "nat \<Rightarrow> str"
  payment_asset_code :: str
  payment_from_address :: str
  payment_to_address :: str
  contract_meta :: contract_metadata

text \<open>\<open>audit_log.log\<close> from a request handler.\<close>

definition audit_log_event :: "env \<Rightarrow> str \<Rightarrow> (str \<times> json) list \<Rightarrow> database \<Rightarrow> database" where
  "audit_log_event env event_type details db =
     db\<lparr>audit := log_simple (auditing env) (now env) (correlation_id env) event_type details (audit db)\<rparr>"

text \<open>The constraints the schema declares and the repositories rely on.\<close>

definition at_most_one_latest :: "sla_row list \<Rightarrow> bool" where
  "at_most_one_latest rs \<longleftrightarrow> distinct (map s_outage_id (filter s_is_latest rs))"

definition hash_key :: "sla_row \<Rightarrow> (str \<times> str) option" where
  "hash_key r = map_option (Pair (s_outage_id r)) (s_compute_hash r)"

definition schema_ok :: "database \<Rightarrow> bool" where
  "schema_ok db \<longleftrightarrow>
     distinct (map o_id (outages db)) \<and>
     distinct (map s_id (sla_results db)) \<and> (\<forall>r \<in> set (sla_results db). s_id r < next_sla_id db) \<and>
     unique_key hash_key (sla_results db) \<and> at_most_one_latest (sla_results db) \<and>
     distinct (map p_id (payments db)) \<and> distinct (map p_transaction_hash (payments db)) \<and>
     unique_key p_sla_result_id (payments db)"

lemma audit_log_event_frame [simp]:
  "outages (audit_log_event env ev d db) = outages db"
  "outage_events (audit_log_event env ev d db) = outage_events db"
  "sla_results (audit_log_event env ev d db) = sla_results db"
  "payments (audit_log_event env ev d db) = payments db"
  "next_sla_id (audit_log_event env ev d db) = next_sla_id db"
  "uuid_count (audit_log_event env ev d db) = uuid_count db"
  by (simp_all add: audit_log_event_def)

lemma audit_log_event_verified:
  "verified (verify_chain (auditing env) (audit db)) \<Longrightarrow>
   verified (verify_chain (auditing env) (audit (audit_log_event env ev d db)))"
  by (simp add: audit_log_event_def log_simple_def log_event_keeps_verified)

lemma schema_ok_audit [simp]: "schema_ok (audit_log_event env ev d db) = schema_ok db"
  by (simp add: schema_ok_def)

section \<open>Concrete databases\<close>

text \<open>The empty schema and plain rows, on which properties are exercised.\<close>

definition empty_database :: database where
  "empty_database =
     \<lparr>outages = [], outage_events = [], sla_results = [], payments = [],
      audit = \<lparr>rows = [], next_id = 1\<rparr>, next_sla_id = 1, uuid_count = 0\<rparr>"

definition sample_outage :: "str \<Rightarrow> outage_status \<Rightarrow> time \<Rightarrow> outage_row" where
  "sample_outage k st t =
     \<lparr>o_id = k, o_site_name = ''site'', o_site_id = None, o_severity = critical, o_status = st,
      o_detected_at = t, o_resolved_at = None, o_description = ''fibre cut'',
      o_affected_services = [''voice''], o_affected_subscribers = None, o_assigned_to = None,
      o_created_by = None, o_location = None, o_sla_status = None, o_mttr_minutes = None,
      o_created_at = t, o_updated_at = t\<rparr>"

definition sample_sla :: "int \<Rightarrow> str \<Rightarrow> sla_row" where
  "sample_sla i k =
     \<lparr>s_id = i, s_outage_id = k, s_status = Met, s_mttr_minutes = 10, s_threshold_minutes = 15,
      s_amount = 150, s_payment_type = Reward, s_rating = Good, s_policy_version = ''1.0'',
      s_threshold_source = ''config'', s_created_at = 1, s_is_latest = True, s_reason_code = None,
      s_decision_trace = None, s_compute_hash = None\<rparr>"

definition sample_env :: "time \<Rightarrow> env" where
  "sample_env t =
     \<lparr>auditing = \<lparr>sha256 = (\<lambda>s. s), isoformat = py_str_int, sensitive_fields = [''password'']\<rparr>,
      now = t, process_start = 0, correlation_id = None, uuid4_hex = (\<lambda>n. digits_of n),
      payment_asset_code = ''USDC'', payment_from_address = ''SYSTEM_POOL'',
      payment_to_address = ''OUTAGE_SETTLEMENT'',
      contract_meta = \<lparr>contract_address = ''C'', network = ''testnet'', execution_mode = ''local''\<rparr>\<rparr>"

end
