(* ===== verification/Outages.thy ===== *)
theory Outages
  imports Database "HOL-Library.Product_Lexorder" "HOL-Library.List_Lexorder" "HOL-Library.Char_ord"
begin

text \<open>
  Outage persistence: \<^verbatim>\<open>app/repositories/outage_repository.py\<close>, the timeline of
  \<^verbatim>\<open>app/repositories/outage_event_repository.py\<close>, and the request models of
  \<^verbatim>\<open>app/models/outage.py\<close>, \<^verbatim>\<open>outage_dto.py\<close> and \<^verbatim>\<open>outage_event.py\<close>.
  Queries are functions on the table, every write returns the outcome and the new database.
\<close>

section \<open>Request and response models\<close>

text \<open>The API model of an outage; it has no \<open>mttr_minutes\<close> field.\<close>

record outage =
  ou_id :: str
  ou_site_name :: str
  ou_site_id :: "str option"
  ou_severity :: severity
  ou_status :: outage_status
  ou_detected_at :: time
  ou_resolved_at :: "time option"
  ou_description :: str
  ou_affected_services :: "str list"
  ou_affected_subscribers :: "int option"
  ou_assigned_to :: "str option"
  ou_created_by :: "str option"
  ou_location :: "location option"
  ou_sla_status :: "sla_status_doc option"

definition outage_of_row :: "outage_row \<Rightarrow> outage" where
  "outage_of_row r =
     \<lparr>ou_id = o_id r, ou_site_name = o_site_name r, ou_site_id = o_site_id r,
      ou_severity = o_severity r, ou_status = o_status r, ou_detected_at = o_detected_at r,
      ou_resolved_at = o_resolved_at r, ou_description = o_description r,
      ou_affected_services = o_affected_services r, ou_affected_subscribers = o_affected_subscribers r,
      ou_assigned_to = o_assigned_to r, ou_created_by = o_created_by r, ou_location = o_location r,
      ou_sla_status = o_sla_status r\<rparr>"

record outage_create =
  oc_id :: str
  oc_site_name :: str
  oc_site_id :: "str option"
  oc_severity :: severity
  oc_status :: outage_status
  oc_detected_at :: time
  oc_description :: str
  oc_affected_services :: "str list"
  oc_affected_subscribers :: "int option"
  oc_assigned_to :: "str option"
  oc_created_by :: "str option"
  oc_location :: "location option"

record outage_limits =
  max_site_name_length :: nat
  max_description_length :: nat
  max_affected_services_count :: nat
  future_detection_skew :: time

definition outage_create_valid :: "outage_limits \<Rightarrow> time \<Rightarrow> outage_create \<Rightarrow> bool" where
  "outage_create_valid lims t c \<longleftrightarrow>
     oc_id c \<noteq> [] \<and> oc_site_name c \<noteq> [] \<and> length (oc_site_name c) \<le> max_site_name_length lims \<and>
     oc_description c \<noteq> [] \<and> length (oc_description c) \<le> max_description_length lims \<and>
     oc_affected_services c \<noteq> [] \<and> length (oc_affected_services c) \<le> max_affected_services_count lims \<and>
     (case oc_affected_subscribers c of None \<Rightarrow> True | Some n \<Rightarrow> 0 \<le> n) \<and>
     oc_detected_at c \<le> t + future_detection_skew lims"

text \<open>
  A partial update: \<open>None\<close> is a field the client did not send, \<open>Some None\<close> one it sent as
  \<open>null\<close>, \<open>Some (Some v)\<close> one it set.
\<close>

record outage_update =
  up_site_name :: "str option option"
  up_severity :: "severity option option"
  up_status :: "outage_status option option"
  up_resolved_at :: "time option option"
  up_description :: "str option option"
  up_affected_services :: "str list option option"
  up_affected_subscribers :: "int option option"
  up_assigned_to :: "str option option"
  up_created_by :: "str option option"
  up_location :: "location option option"

section \<open>Queries\<close>

record outage_filter =
  f_severity :: "severity option"
  f_status :: "outage_status option"
  f_search :: "str option"
  f_start_date :: "time option"
  f_end_date :: "time option"

definition matches_filter :: "outage_filter \<Rightarrow> outage_row \<Rightarrow> bool" where
  "matches_filter f r \<longleftrightarrow>
     (case f_severity f of None \<Rightarrow> True | Some s \<Rightarrow> o_severity r = s) \<and>
     (case f_status f of None \<Rightarrow> True | Some s \<Rightarrow> o_status r = s) \<and>
     (truthy (f_search f) \<longrightarrow>
        (let pat = ''%'' @ the (f_search f) @ ''%'' in
         ilike pat (o_id r) \<or> (case o_site_id r of None \<Rightarrow> False | Some sid \<Rightarrow> ilike pat sid) \<or>
         ilike pat (o_site_name r))) \<and>
     (case f_start_date f of None \<Rightarrow> True | Some d \<Rightarrow> d \<le> o_detected_at r) \<and>
     (case f_end_date f of None \<Rightarrow> True | Some d \<Rightarrow> o_detected_at r \<le> d)"

datatype sort_field = Sort_detected_at | Sort_site_name | Sort_severity | Sort_status | Sort_id
datatype sort_direction = Asc | Desc

text \<open>The value of the sort column: times in the first, text in the second component.\<close>

fun sort_value :: "sort_field \<Rightarrow> outage_row \<Rightarrow> time \<times> str" where
  "sort_value Sort_detected_at r = (o_detected_at r, [])"
| "sort_value Sort_site_name r = (0, o_site_name r)"
| "sort_value Sort_severity r = (0, severity_value (o_severity r))"
| "sort_value Sort_status r = (0, outage_status_value (o_status r))"
| "sort_value Sort_id r = (0, o_id r)"

text \<open>\<open>ORDER BY direction(column), id ASC\<close>.\<close>

definition order_outages :: "sort_field \<Rightarrow> sort_direction \<Rightarrow> outage_row list \<Rightarrow> outage_row list" where
  "order_outages fld dir rs =
     (case dir of Asc \<Rightarrow> sort_key (\<lambda>r. (sort_value fld r, o_id r)) rs
                | Desc \<Rightarrow> sort_desc (sort_value fld) (sort_key o_id rs))"

record outage_page =
  pg_items :: "outage list"
  pg_total :: "nat option"
  pg_page :: nat
  pg_page_size :: nat
  pg_sort_by :: sort_field
  pg_sort_direction :: sort_direction

text \<open>\<open>list\<close>: the total is read off the first row of the page.\<close>

definition list_outages ::
  "outage_filter \<Rightarrow> nat \<Rightarrow> nat \<Rightarrow> sort_field \<Rightarrow> sort_direction \<Rightarrow> bool \<Rightarrow> database \<Rightarrow> outage_page" where
  "list_outages f page page_size sort_by dir include_total db =
     (let matching = order_outages sort_by dir (filter (matches_filter f) (outages db));
          items = page_slice page page_size matching;
          total = (if include_total then Some (if items \<noteq> [] then length matching else 0) else None) in
      \<lparr>pg_items = map outage_of_row items, pg_total = total, pg_page = page, pg_page_size = page_size,
       pg_sort_by = sort_by, pg_sort_direction = dir\<rparr>)"

text \<open>A decoded cursor: the id and the sort value of the last item of the previous page.\<close>

type_synonym cursor = "str \<times> (time \<times> str)"

definition after_cursor :: "sort_field \<Rightarrow> sort_direction \<Rightarrow> cursor option \<Rightarrow> outage_row \<Rightarrow> bool" where
  "after_cursor fld dir cur r =
     (case cur of None \<Rightarrow> True
      | Some (cursor_id, cursor_value) \<Rightarrow>
          (case dir of
             Desc \<Rightarrow> sort_value fld r < cursor_value \<or> (sort_value fld r = cursor_value \<and> o_id r < cursor_id)
           | Asc \<Rightarrow> sort_value fld r > cursor_value \<or> (sort_value fld r = cursor_value \<and> o_id r > cursor_id)))"

record cursor_page =
  cp_items :: "outage list"
  cp_next_cursor :: "cursor option"
  cp_has_more :: bool

text \<open>The rows one request fetches, one more than the page holds, in the order of the query.\<close>

definition fetch_after ::
  "outage_filter \<Rightarrow> cursor option \<Rightarrow> nat \<Rightarrow> sort_field \<Rightarrow> sort_direction \<Rightarrow> database \<Rightarrow> outage_row list" where
  "fetch_after f cur lims sort_by dir db =
     take (lims + 1) (order_outages sort_by dir
       (filter (after_cursor sort_by dir cur) (filter (matches_filter f) (outages db))))"

definition list_cursor ::
  "outage_filter \<Rightarrow> cursor option \<Rightarrow> nat \<Rightarrow> sort_field \<Rightarrow> sort_direction \<Rightarrow> database \<Rightarrow> cursor_page" where
  "list_cursor f cur lims sort_by dir db =
     (let fetched = fetch_after f cur lims sort_by dir db;
          has_more = length fetched > lims;
          items = take lims fetched in
      \<lparr>cp_items = map outage_of_row items,
       cp_next_cursor = (if has_more \<and> items \<noteq> []
                         then Some (o_id (last items), sort_value sort_by (last items)) else None),
       cp_has_more = has_more\<rparr>)"

definition list_all_outages :: "database \<Rightarrow> outage list" where
  "list_all_outages db = map outage_of_row (outages db)"

definition list_filtered :: "outage_filter \<Rightarrow> database \<Rightarrow> outage list" where
  "list_filtered f db = map outage_of_row (filter (matches_filter f) (outages db))"

definition get_orm :: "str \<Rightarrow> database \<Rightarrow> outage_row option" where
  "get_orm k db = find (\<lambda>r. o_id r = k) (outages db)"

definition get_outage :: "str \<Rightarrow> database \<Rightarrow> outage option" where
  "get_outage k db = map_option outage_of_row (get_orm k db)"

section \<open>Writes\<close>

fun allowed_status_transitions :: "outage_status \<Rightarrow> outage_status list" where
  "allowed_status_transitions Open = [Open, Resolved]"
| "allowed_status_transitions Resolved = [Resolved]"

definition validate_status_transition :: "outage_status \<Rightarrow> outage_status \<Rightarrow> exn + unit" where
  "validate_status_transition current next =
     (if next \<in> set (allowed_status_transitions current) then Inr () else Inl ValueError)"

definition find_duplicate_orm :: "outage_create \<Rightarrow> database \<Rightarrow> outage_row option" where
  "find_duplicate_orm c db =
     find (\<lambda>r. o_site_name r = oc_site_name c \<and> o_detected_at r = oc_detected_at c \<and>
               o_description r = oc_description c \<and>
               (truthy (oc_site_id c) \<longrightarrow> o_site_id r = oc_site_id c)) (outages db)"

definition is_same_outage :: "outage_row \<Rightarrow> outage_create \<Rightarrow> bool" where
  "is_same_outage r c \<longleftrightarrow>
     o_id r = oc_id c \<and> o_site_name r = oc_site_name c \<and> o_site_id r = oc_site_id c \<and>
     o_severity r = oc_severity c \<and> o_status r = oc_status c \<and> o_detected_at r = oc_detected_at c \<and>
     o_description r = oc_description c \<and> o_affected_services r = oc_affected_services c \<and>
     o_affected_subscribers r = oc_affected_subscribers c \<and> o_assigned_to r = oc_assigned_to c \<and>
     o_created_by r = oc_created_by c \<and> o_location r = oc_location c"

definition check_duplicate :: "outage_create \<Rightarrow> database \<Rightarrow> exn + outage option" where
  "check_duplicate c db =
     (case get_orm (oc_id c) db of
        Some r \<Rightarrow> if is_same_outage r c then Inr (Some (outage_of_row r)) else Inl ValueError
      | None \<Rightarrow>
          (case find_duplicate_orm c db of
             Some d \<Rightarrow>
               if o_severity d \<noteq> oc_severity c \<or> o_status d \<noteq> oc_status c \<or>
                  o_affected_services d \<noteq> oc_affected_services c \<or> o_assigned_to d \<noteq> oc_assigned_to c
               then Inl ValueError else Inr (Some (outage_of_row d))
           | None \<Rightarrow> Inr None))"

text \<open>The argument \<open>t\<close> of the creating operations is the value of the column defaults
  (\<^const>\<open>process_start\<close>); of the updating ones it is the clock.\<close>

definition new_outage_row :: "time \<Rightarrow> outage_create \<Rightarrow> outage_row" where
  "new_outage_row t c =
     \<lparr>o_id = oc_id c, o_site_name = oc_site_name c, o_site_id = oc_site_id c,
      o_severity = oc_severity c, o_status = oc_status c, o_detected_at = oc_detected_at c,
      o_resolved_at = None, o_description = oc_description c,
      o_affected_services = oc_affected_services c,
      o_affected_subscribers = oc_affected_subscribers c, o_assigned_to = oc_assigned_to c,
      o_created_by = oc_created_by c, o_location = oc_location c, o_sla_status = None,
      o_mttr_minutes = None, o_created_at = t, o_updated_at = t\<rparr>"

definition create_or_get_existing :: "time \<Rightarrow> outage_create \<Rightarrow> database \<Rightarrow> (outage \<times> bool, database) outcome" where
  "create_or_get_existing t c db =
     (case check_duplicate c db of
        Inl e \<Rightarrow> (Inl e, db)
      | Inr (Some existing) \<Rightarrow> (Inr (existing, False), db)
      | Inr None \<Rightarrow>
          (let r = new_outage_row t c in
           (Inr (outage_of_row r, True), db\<lparr>outages := outages db @ [r]\<rparr>)))"

definition create_outage_row :: "time \<Rightarrow> outage_create \<Rightarrow> database \<Rightarrow> (outage, database) outcome" where
  "create_outage_row t c db =
     (case create_or_get_existing t c db of
        (Inl e, db') \<Rightarrow> (Inl e, db') | (Inr (outage, _), db') \<Rightarrow> (Inr outage, db'))"

text \<open>Setting one column: a \<open>null\<close> is only accepted where the column is nullable.\<close>

definition set_required :: "'a option option \<Rightarrow> ('a \<Rightarrow> outage_row \<Rightarrow> outage_row) \<Rightarrow> outage_row \<Rightarrow> outage_row option" where
  "set_required v upd r =
     (case v of None \<Rightarrow> Some r | Some None \<Rightarrow> None | Some (Some x) \<Rightarrow> Some (upd x r))"

definition set_nullable :: "'a option option \<Rightarrow> ('a option \<Rightarrow> outage_row \<Rightarrow> outage_row) \<Rightarrow> outage_row \<Rightarrow> outage_row" where
  "set_nullable v upd r = (case v of None \<Rightarrow> r | Some x \<Rightarrow> upd x r)"

definition apply_update :: "time \<Rightarrow> outage_update \<Rightarrow> outage_row \<Rightarrow> outage_row option" where
  "apply_update t u r =
     map_option (\<lambda>r. r\<lparr>o_updated_at := t\<rparr>)
       (map_option (set_nullable (up_resolved_at u) (\<lambda>x r. r\<lparr>o_resolved_at := x\<rparr>))
       (map_option (set_nullable (up_affected_subscribers u) (\<lambda>x r. r\<lparr>o_affected_subscribers := x\<rparr>))
       (map_option (set_nullable (up_assigned_to u) (\<lambda>x r. r\<lparr>o_assigned_to := x\<rparr>))
       (map_option (set_nullable (up_created_by u) (\<lambda>x r. r\<lparr>o_created_by := x\<rparr>))
       (map_option (set_nullable (up_location u) (\<lambda>x r. r\<lparr>o_location := x\<rparr>))
       (Option.bind (set_required (up_site_name u) (\<lambda>x r. r\<lparr>o_site_name := x\<rparr>) r)
       (\<lambda>r. Option.bind (set_required (up_severity u) (\<lambda>x r. r\<lparr>o_severity := x\<rparr>) r)
       (\<lambda>r. Option.bind (set_required (up_status u) (\<lambda>x r. r\<lparr>o_status := x\<rparr>) r)
       (\<lambda>r. Option.bind (set_required (up_description u) (\<lambda>x r. r\<lparr>o_description := x\<rparr>) r)
       (set_required (up_affected_services u) (\<lambda>x r. r\<lparr>o_affected_services := x\<rparr>)))))))))))"

definition update_outage_row :: "time \<Rightarrow> str \<Rightarrow> outage_update \<Rightarrow> database \<Rightarrow> (outage option, database) outcome" where
  "update_outage_row t k u db =
     (case get_orm k db of
        None \<Rightarrow> (Inr None, db)
      | Some r \<Rightarrow>
          (case (case up_status u of Some (Some nxt) \<Rightarrow> validate_status_transition (o_status r) nxt
                 | _ \<Rightarrow> Inr ()) of
             Inl e \<Rightarrow> (Inl e, db)
           | Inr _ \<Rightarrow>
               (case apply_update t u r of
                  None \<Rightarrow> (Inl IntegrityError, db)
                | Some r' \<Rightarrow>
                    (Inr (Some (outage_of_row r')),
                     db\<lparr>outages := update_first (\<lambda>x. o_id x = k) (\<lambda>_. r') (outages db)\<rparr>))))"

definition has_financial_history :: "str \<Rightarrow> database \<Rightarrow> bool" where
  "has_financial_history k db \<longleftrightarrow>
     (\<exists>r \<in> set (sla_results db). s_outage_id r = k) \<or> (\<exists>r \<in> set (payments db). p_outage_id r = Some k)"

text \<open>Deleting the row cascades to the timeline and nulls the payment links (foreign keys).\<close>

definition delete_outage_row :: "str \<Rightarrow> database \<Rightarrow> (unit, database) outcome" where
  "delete_outage_row k db =
     (case get_orm k db of
        None \<Rightarrow> (Inr (), db)
      | Some _ \<Rightarrow>
          if has_financial_history k db then (Inl ValueError, db)
          else (Inr (), db\<lparr>outages := delete_first (\<lambda>r. o_id r = k) (outages db),
                          outage_events := filter (\<lambda>e. e_outage_id e \<noteq> k) (outage_events db),
                          payments := update_where (\<lambda>p. p_outage_id p = Some k) (\<lambda>p. p\<lparr>p_outage_id := None\<rparr>) (payments db)\<rparr>))"

definition resolve_outage_row :: "time \<Rightarrow> str \<Rightarrow> int \<Rightarrow> database \<Rightarrow> (outage option, database) outcome" where
  "resolve_outage_row t k mttr db =
     (case get_orm k db of
        None \<Rightarrow> (Inr None, db)
      | Some r \<Rightarrow>
          if o_status r = Resolved \<and> o_mttr_minutes r = Some mttr then (Inr (Some (outage_of_row r)), db)
          else
            (case validate_status_transition (o_status r) Resolved of
               Inl e \<Rightarrow> (Inl e, db)
             | Inr _ \<Rightarrow>
                 (let r' = r\<lparr>o_status := Resolved, o_mttr_minutes := Some mttr,
                            o_resolved_at := Some t, o_updated_at := t\<rparr> in
                  (Inr (Some (outage_of_row r')),
                   db\<lparr>outages := update_first (\<lambda>x. o_id x = k) (\<lambda>_. r') (outages db)\<rparr>))))"

primrec bulk_create :: "time \<Rightarrow> outage_create list \<Rightarrow> database \<Rightarrow> (outage list, database) outcome" where
  "bulk_create t [] db = (Inr [], db)"
| "bulk_create t (c # cs) db =
     (case create_outage_row t c db of
        (Inl e, db') \<Rightarrow> (Inl e, db')
      | (Inr outage, db') \<Rightarrow>
          (case bulk_create t cs db' of
             (Inl e, db'') \<Rightarrow> (Inl e, db'')
           | (Inr created, db'') \<Rightarrow> (Inr (outage # created), db'')))"

text \<open>\<open>list_violations\<close>: the latest, violated results joined to their outages, newest first.\<close>

definition list_violations :: "nat \<Rightarrow> nat \<Rightarrow> database \<Rightarrow> (outage \<times> sla_row) list \<times> nat" where
  "list_violations page page_size db =
     (let joined = concat (map (\<lambda>s. map (\<lambda>r. (r, s)) (filter (\<lambda>r. o_id r = s_outage_id s) (outages db)))
                             (filter (\<lambda>s. s_is_latest s \<and> s_status s = Violated) (sla_results db)));
          query = sort_desc (\<lambda>(r, s). s_created_at s) joined in
      (map (\<lambda>(r, s). (outage_of_row r, s)) (page_slice page page_size query), length query))"

section \<open>The timeline\<close>

text \<open>\<open>validate_event_detail\<close>: each event type has its own Pydantic model, unknown keys are dropped.\<close>

definition validate_event_detail :: "str \<Rightarrow> (str \<times> json) list \<Rightarrow> exn + (str \<times> json) list" where
  "validate_event_detail event_type detail =
     (if event_type = ''created''
      then (case map_of detail ''site_name'' of
              Some (JStr s) \<Rightarrow> Inr [(''site_name'', JStr s)] | _ \<Rightarrow> Inl ValueError)
      else if event_type = ''updated'' \<or> event_type = ''patched''
      then (case map_of detail ''changes'' of
              None \<Rightarrow> Inr [(''changes'', JObj [])]
            | Some (JObj kvs) \<Rightarrow> Inr [(''changes'', JObj kvs)]
            | Some _ \<Rightarrow> Inl ValueError)
      else if event_type = ''resolved''
      then (case map_of detail ''mttr_minutes'' of
              Some (JInt n) \<Rightarrow> Inr [(''mttr_minutes'', JInt n)] | _ \<Rightarrow> Inl ValueError)
      else if event_type = ''sla_computed'' \<or> event_type = ''sla_recomputed''
      then (case map_of detail ''status'' of
              Some (JStr s) \<Rightarrow> Inr [(''status'', JStr s)] | _ \<Rightarrow> Inl ValueError)
      else Inl ValueError)"

definition record_event :: "env \<Rightarrow> str \<Rightarrow> str \<Rightarrow> (str \<times> json) list \<Rightarrow> database \<Rightarrow> (event_row, database) outcome" where
  "record_event env outage_id event_type detail db =
     (case validate_event_detail event_type detail of
        Inl e \<Rightarrow> (Inl e, db)
      | Inr d \<Rightarrow>
          (let ev = \<lparr>e_id = ''evt_'' @ take 12 (uuid4_hex env (uuid_count db)), e_outage_id = outage_id,
                     e_event_type = event_type, e_detail = (if d = [] then None else Some d),
                     e_schema_version = ''1'', e_occurred_at = now env\<rparr> in
           (Inr ev, db\<lparr>outage_events := outage_events db @ [ev], uuid_count := uuid_count db + 1\<rparr>)))"

text \<open>\<open>delete_events_older_than\<close>: batches until one is short.\<close>

function delete_events_older_than :: "time \<Rightarrow> nat \<Rightarrow> event_row list \<Rightarrow> nat \<times> event_row list" where
  "delete_events_older_than cutoff batch_size evs =
     (let old_ids = map e_id (take batch_size (filter (\<lambda>e. e_occurred_at e < cutoff) evs)) in
      if old_ids = [] then (0, evs)
      else
        (let evs' = filter (\<lambda>e. e_id e \<notin> set old_ids) evs in
         if length old_ids < batch_size then (length old_ids, evs')
         else (let (n, evs'') = delete_events_older_than cutoff batch_size evs' in
               (length old_ids + n, evs''))))"
  by pat_completeness auto
termination
proof (relation "measure (\<lambda>(c, b, evs). length evs)", goal_cases)
  case 1
  show ?case by simp
next
  case (2 c b evs old_ids evs')
  let ?old = "take b (filter (\<lambda>e. e_occurred_at e < c) evs)"
  from 2(1,2) obtain x where "x \<in> set ?old" by (metis list.set_sel(1) map_is_Nil_conv)
  moreover from this have "x \<in> set evs" by (auto dest: in_set_takeD)
  ultimately show ?case using 2 by (auto intro!: length_filter_less [of x])
qed

declare delete_events_older_than.simps [simp del]

definition list_for_outage ::
  "str \<Rightarrow> str option \<Rightarrow> time option \<Rightarrow> time option \<Rightarrow> nat \<Rightarrow> nat \<Rightarrow> database \<Rightarrow> event_row list \<times> nat" where
  "list_for_outage outage_id event_type start_date end_date page page_size db =
     (let evs = sort_key e_occurred_at (filter (\<lambda>e. e_outage_id e = outage_id \<and>
           (truthy event_type \<longrightarrow> event_type = Some (e_event_type e)) \<and>
           (case start_date of None \<Rightarrow> True | Some d \<Rightarrow> d \<le> e_occurred_at e) \<and>
           (case end_date of None \<Rightarrow> True | Some d \<Rightarrow> e_occurred_at e \<le> d)) (outage_events db)) in
      (page_slice page page_size evs, length evs))"

section \<open>Paging\<close>

text \<open>A client that follows \<open>next_cursor\<close> until the server reports no more pages.\<close>

fun walk_pages ::
  "nat \<Rightarrow> outage_filter \<Rightarrow> cursor option \<Rightarrow> nat \<Rightarrow> sort_field \<Rightarrow> sort_direction \<Rightarrow> database \<Rightarrow> outage list" where
  "walk_pages 0 f cur lims fld dir db = []"
| "walk_pages (Suc fuel) f cur lims fld dir db =
     (let p = list_cursor f cur lims fld dir db in
      cp_items p @ (case cp_next_cursor p of None \<Rightarrow> [] | Some c \<Rightarrow> walk_pages fuel f (Some c) lims fld dir db))"

lemma sorted_wrt_filter_drop:
  assumes "sorted_wrt (\<lambda>x y. k x < (k y :: 'k :: linorder)) xs" and "n < length xs"
  shows "filter (\<lambda>x. k (xs ! n) < k x) xs = drop (Suc n) xs"
proof -
  have split: "xs = take n xs @ xs ! n # drop (Suc n) xs"
    using assms(2) by (simp add: id_take_nth_drop)
  with assms(1) have ord: "sorted_wrt (\<lambda>x y. k x < k y) (take n xs @ xs ! n # drop (Suc n) xs)"
    by simp
  then have "\<forall>x \<in> set (take n xs). \<not> k (xs ! n) < k x" "\<forall>x \<in> set (drop (Suc n) xs). k (xs ! n) < k x"
    by (auto simp: sorted_wrt_append)
  then have "filter (\<lambda>x. k (xs ! n) < k x) (take n xs @ xs ! n # drop (Suc n) xs) = drop (Suc n) xs"
    by (simp add: filter_empty_conv)
  with split show ?thesis by simp
qed

lemma sorted_wrt_of_sorted_distinct:
  "sorted (map k xs) \<Longrightarrow> distinct (map k xs) \<Longrightarrow> sorted_wrt (\<lambda>x y. k x < (k y :: 'k :: linorder)) xs"
  by (induction xs) (auto simp: le_less image_iff)

lemma order_asc_strict:
  assumes "distinct (map o_id rs)"
  shows "sorted_wrt (\<lambda>x y. (sort_value fld x, o_id x) < (sort_value fld y, o_id y)) (order_outages fld Asc rs)"
proof (rule sorted_wrt_of_sorted_distinct)
  let ?k = "\<lambda>r. (sort_value fld r, o_id r)"
  show "sorted (map ?k (order_outages fld Asc rs))"
    by (simp add: order_outages_def)
  have "distinct (map ?k rs)"
    using assms by (auto simp: distinct_map inj_on_def)
  then have "distinct rs" "inj_on ?k (set rs)" by (auto simp: distinct_map)
  then show "distinct (map ?k (order_outages fld Asc rs))"
    by (simp add: order_outages_def distinct_map)
qed

lemma after_cursor_asc:
  "after_cursor fld Asc (Some (o_id c, sort_value fld c)) =
     (\<lambda>r. (sort_value fld c, o_id c) < (sort_value fld r, o_id r))"
  by (auto simp: after_cursor_def fun_eq_iff le_less)

lemma distinct_map_filter_ids: "distinct (map g rs) \<Longrightarrow> distinct (map g (filter P rs))"
  by (induction rs) auto

text \<open>Once a client holds the cursor of row \<open>n\<close>, the next fetch starts at row \<open>n + 1\<close>.\<close>

lemma fetch_after_asc:
  fixes f db fld
  defines "L \<equiv> order_outages fld Asc (filter (matches_filter f) (outages db))"
  assumes "distinct (map o_id (outages db))" and "n < length L"
  shows "fetch_after f (Some (o_id (L ! n), sort_value fld (L ! n))) lims fld Asc db
           = take (lims + 1) (drop (Suc n) L)"
proof -
  have "sorted_wrt (\<lambda>x y. (sort_value fld x, o_id x) < (sort_value fld y, o_id y)) L"
    unfolding L_def by (rule order_asc_strict) (rule distinct_map_filter_ids [OF assms(2)])
  from sorted_wrt_filter_drop [OF this assms(3)]
  have "filter (after_cursor fld Asc (Some (o_id (L ! n), sort_value fld (L ! n)))) L = drop (Suc n) L"
    by (simp add: after_cursor_asc)
  moreover have "order_outages fld Asc (filter P rs) = filter P (order_outages fld Asc rs)" for P rs
    by (simp add: order_outages_def filter_sort)
  ultimately show ?thesis by (simp add: fetch_after_def L_def)
qed

lemma fetch_after_start:
  "fetch_after f None lims fld dir db
     = take (lims + 1) (order_outages fld dir (filter (matches_filter f) (outages db)))"
  by (simp add: fetch_after_def after_cursor_def)

lemma walk_pages_from:
  fixes f db fld
  defines "L \<equiv> order_outages fld Asc (filter (matches_filter f) (outages db))"
  assumes ids: "distinct (map o_id (outages db))" and pos: "0 < lims"
    and fetch: "fetch_after f cur lims fld Asc db = take (lims + 1) (drop n L)"
    and fuel: "length L - n < fuel"
  shows "walk_pages fuel f cur lims fld Asc db = map outage_of_row (drop n L)"
  using fetch fuel
proof (induction fuel arbitrary: cur n)
  case 0
  then show ?case by simp
next
  case (Suc fuel)
  show ?case
  proof (cases "lims < length L - n")
    case False
    then show ?thesis using Suc.prems(1) by (simp add: list_cursor_def Let_def min_def)
  next
    case True
    define m where "m = n + lims - 1"
    have m: "m < length L" "Suc m = n + lims" using True pos by (auto simp: m_def)
    have "take lims (drop n L) \<noteq> []" using True pos by simp
    then have "last (take lims (drop n L)) = L ! m"
      using True pos by (simp add: last_conv_nth m_def min_def)
    with True pos Suc.prems(1) have page:
      "cp_items (list_cursor f cur lims fld Asc db) = map outage_of_row (take lims (drop n L))"
      "cp_next_cursor (list_cursor f cur lims fld Asc db) = Some (o_id (L ! m), sort_value fld (L ! m))"
      by (simp_all add: list_cursor_def Let_def min_def)
    have "walk_pages fuel f (Some (o_id (L ! m), sort_value fld (L ! m))) lims fld Asc db
            = map outage_of_row (drop (n + lims) L)"
    proof (rule Suc.IH)
      show "fetch_after f (Some (o_id (L ! m), sort_value fld (L ! m))) lims fld Asc db
              = take (lims + 1) (drop (n + lims) L)"
        using fetch_after_asc [OF ids m(1) [unfolded L_def]] m(2) by (simp add: L_def)
      show "length L - (n + lims) < fuel" using Suc.prems(2) True pos by linarith
    qed
    with page show ?thesis
      by (simp add: map_append [symmetric] add.commute [of n lims] del: map_append)
         (metis append_take_drop_id drop_drop map_append)
  qed
qed

text \<open>C39. Cursor pagination in ascending order is complete: for distinct ids and a positive page
  size, a client that follows \<open>next_cursor\<close> from the start until \<open>has_more\<close> is false receives
  exactly the matching outages, each once, in the order of the query, whatever the sort column.\<close>

theorem cursor_walk_complete:
  assumes "distinct (map o_id (outages db))" and "0 < lims"
    and "length (filter (matches_filter f) (outages db)) < fuel"
  shows "walk_pages fuel f None lims fld Asc db
           = map outage_of_row (order_outages fld Asc (filter (matches_filter f) (outages db)))"
  using walk_pages_from [OF assms(1,2), of f None fld 0 fuel] assms(3)
  by (simp add: fetch_after_start order_outages_def)

text \<open>In descending order the cursor filter asks for smaller ids while the query orders ids
  upwards, so a page never contains a row tied with the cursor's sort value whose id is above the
  cursor's id: such rows are skipped by every later page.\<close>

theorem cursor_desc_skips_ties:
  assumes "distinct (map o_id (outages db))" and "r \<in> set (outages db)"
    and "sort_value fld r = v" and "k < o_id r"
  shows "outage_of_row r \<notin> set (cp_items (list_cursor f (Some (k, v)) lims fld Desc db))"
proof
  let ?after = "after_cursor fld Desc (Some (k, v))"
  assume "outage_of_row r \<in> set (cp_items (list_cursor f (Some (k, v)) lims fld Desc db))"
  then obtain r' where r': "r' \<in> set (fetch_after f (Some (k, v)) lims fld Desc db)"
      and same: "outage_of_row r' = outage_of_row r"
    by (auto simp: list_cursor_def Let_def dest!: in_set_takeD)
  then have "r' \<in> set (outages db)" "?after r'"
    by (auto simp: fetch_after_def order_outages_def dest!: in_set_takeD)
  moreover have "o_id r' = o_id r" using arg_cong [OF same, of ou_id] by (simp add: outage_of_row_def)
  ultimately have "?after r" using assms(1,2) by (metis find_key_unique option.inject)
  with assms(3,4) show False by (auto simp: after_cursor_def)
qed

theorem cursor_walk_complete_witness:
  "walk_pages 4 \<lparr>f_severity = None, f_status = None, f_search = None, f_start_date = None, f_end_date = None\<rparr>
     None 2 Sort_detected_at Asc
     (empty_database\<lparr>outages := [sample_outage ''c'' Open 7, sample_outage ''b'' Open 5, sample_outage ''a'' Open 7]\<rparr>)
   = map outage_of_row [sample_outage ''b'' Open 5, sample_outage ''a'' Open 7, sample_outage ''c'' Open 7]"
proof -
  let ?f = "\<lparr>f_severity = None, f_status = None, f_search = None, f_start_date = None, f_end_date = None\<rparr>"
  let ?db = "empty_database\<lparr>outages := [sample_outage ''c'' Open 7, sample_outage ''b'' Open 5, sample_outage ''a'' Open 7]\<rparr>"
  have all: "filter (matches_filter ?f) (outages ?db) = outages ?db" by (simp add: matches_filter_def)
  have "distinct (map o_id (outages ?db))" by (simp add: sample_outage_def)
  moreover have "length (filter (matches_filter ?f) (outages ?db)) < 4" unfolding all by simp
  ultimately have "walk_pages 4 ?f None 2 Sort_detected_at Asc ?db
      = map outage_of_row (order_outages Sort_detected_at Asc (outages ?db))"
    using cursor_walk_complete [of ?db 2 ?f 4] all by simp
  then show ?thesis by (simp add: order_outages_def sample_outage_def less_list_code)
qed

theorem cursor_desc_skips_ties_witness:
  "outage_of_row (sample_outage ''b'' Open 5) \<notin>
     set (cp_items (list_cursor \<lparr>f_severity = None, f_status = None, f_search = None, f_start_date = None, f_end_date = None\<rparr>
       (Some (''a'', (5, []))) 1 Sort_detected_at Desc
       (empty_database\<lparr>outages := [sample_outage ''a'' Open 5, sample_outage ''b'' Open 5]\<rparr>)))"
  by (rule cursor_desc_skips_ties) (simp_all add: sample_outage_def less_list_code)

section \<open>Life cycle\<close>

text \<open>Any write of the outage repository, with any clock reading and payload.\<close>

inductive repo_step :: "database \<Rightarrow> database \<Rightarrow> bool" where
  creating: "repo_step db (snd (create_or_get_existing t c db))"
| updating: "repo_step db (snd (update_outage_row t k u db))"
| resolving: "repo_step db (snd (resolve_outage_row t k mttr db))"
| deleting: "repo_step db (snd (delete_outage_row k db))"

inductive_cases repo_stepE: "repo_step db db'"

lemma get_orm_append_other: "get_orm k db = Some r \<Longrightarrow> get_orm k (db\<lparr>outages := outages db @ [x]\<rparr>) = Some r"
  by (simp add: get_orm_def)

lemma get_orm_Some_id: "get_orm k db = Some r \<Longrightarrow> o_id r = k"
  by (auto simp: get_orm_def dest: find_Some_P)

lemma set_required_keeps: "set_required v upd r = Some r' \<Longrightarrow> (\<And>x r. g (upd x r) = g r) \<Longrightarrow> g r' = g r"
  by (auto simp: set_required_def split: option.splits)

lemma set_nullable_keeps: "(\<And>x r. g (upd x r) = g r) \<Longrightarrow> g (set_nullable v upd r) = g r"
  by (simp add: set_nullable_def split: option.split)

text \<open>A column that no field of the request writes is kept.\<close>

lemma apply_update_frame:
  assumes "apply_update t u r = Some r'"
    and "\<And>x r. g (r\<lparr>o_site_name := x\<rparr>) = g r" "\<And>x r. g (r\<lparr>o_severity := x\<rparr>) = g r"
    and "\<And>x r. g (r\<lparr>o_description := x\<rparr>) = g r" "\<And>x r. g (r\<lparr>o_affected_services := x\<rparr>) = g r"
    and "\<And>x r. g (r\<lparr>o_location := x\<rparr>) = g r" "\<And>x r. g (r\<lparr>o_created_by := x\<rparr>) = g r"
    and "\<And>x r. g (r\<lparr>o_assigned_to := x\<rparr>) = g r" "\<And>x r. g (r\<lparr>o_affected_subscribers := x\<rparr>) = g r"
    and "\<And>x r. g (r\<lparr>o_resolved_at := x\<rparr>) = g r" "\<And>x r. g (r\<lparr>o_updated_at := x\<rparr>) = g r"
  shows "\<exists>r2. g r2 = g r \<and> (\<exists>r3. set_required (up_status u) (\<lambda>x r. r\<lparr>o_status := x\<rparr>) r2 = Some r3 \<and> g r' = g r3)"
proof -
  from assms(1) obtain r1 r2 r3 r4 r5 where
    "set_required (up_site_name u) (\<lambda>x r. r\<lparr>o_site_name := x\<rparr>) r = Some r1"
    "set_required (up_severity u) (\<lambda>x r. r\<lparr>o_severity := x\<rparr>) r1 = Some r2"
    and st: "set_required (up_status u) (\<lambda>x r. r\<lparr>o_status := x\<rparr>) r2 = Some r3"
    and "set_required (up_description u) (\<lambda>x r. r\<lparr>o_description := x\<rparr>) r3 = Some r4"
    "set_required (up_affected_services u) (\<lambda>x r. r\<lparr>o_affected_services := x\<rparr>) r4 = Some r5"
    and r': "g r' = g r5"
    by (auto simp: apply_update_def bind_eq_Some_conv assms set_nullable_keeps)
  then have "g r1 = g r" "g r2 = g r1" "g r4 = g r3" "g r5 = g r4"
    using assms(2-5) by (blast intro: set_required_keeps)+
  with st r' show ?thesis by metis
qed

lemma apply_update_keeps:
  assumes "apply_update t u r = Some r'"
  shows "o_id r' = o_id r" "o_mttr_minutes r' = o_mttr_minutes r" "o_sla_status r' = o_sla_status r"
    "o_detected_at r' = o_detected_at r"
    "o_status r' = (case up_status u of Some (Some st) \<Rightarrow> st | _ \<Rightarrow> o_status r)"
  using apply_update_frame [OF assms, of o_id] apply_update_frame [OF assms, of o_mttr_minutes]
    apply_update_frame [OF assms, of o_sla_status] apply_update_frame [OF assms, of o_detected_at]
    apply_update_frame [OF assms, of o_status]
  by (auto simp: set_required_def split: option.splits)

text \<open>An update that keeps the ids, read back by key.\<close>

lemma get_orm_update_first:
  assumes "o_id r' = k" "get_orm k db = Some r"
  shows "get_orm j (db\<lparr>outages := update_first (\<lambda>x. o_id x = k) (\<lambda>_. r') (outages db)\<rparr>)
           = (if j = k then Some r' else get_orm j db)"
proof (cases "j = k")
  case True
  with assms show ?thesis by (simp add: get_orm_def find_update_first)
next
  case False
  with assms(1) show ?thesis by (simp add: get_orm_def find_update_first_other)
qed

lemma validate_status_transition_Resolved [simp]:
  "validate_status_transition Resolved st = (if st = Resolved then Inr () else Inl ValueError)"
  "validate_status_transition Open st = Inr ()"
  by (cases st; simp add: validate_status_transition_def)+

lemma update_outage_row_Resolved:
  assumes "get_orm k db = Some r" "o_status r = Resolved"
  shows "\<exists>r'. get_orm k (snd (update_outage_row t j u db)) = Some r' \<and> o_status r' = Resolved"
proof (cases "get_orm j db")
  case None
  with assms show ?thesis by (simp add: update_outage_row_def)
next
  case (Some q)
  have id: "o_id r' = j" if "apply_update t u q = Some r'" for r'
    using that Some by (simp add: apply_update_keeps get_orm_Some_id)
  show ?thesis
    using assms Some id
    by (auto simp: update_outage_row_def get_orm_update_first [OF _ Some] apply_update_keeps
        split: option.splits sum.splits if_splits)
qed

lemma resolve_outage_row_Resolved:
  assumes "get_orm k db = Some r" "o_status r = Resolved"
  shows "\<exists>r'. get_orm k (snd (resolve_outage_row t j m db)) = Some r' \<and> o_status r' = Resolved"
  using assms get_orm_Some_id [of j db]
  by (auto simp: resolve_outage_row_def Let_def get_orm_update_first
      split: option.splits sum.splits if_splits)

lemma find_delete_first_other:
  "(\<And>r. P r \<Longrightarrow> \<not> Q r) \<Longrightarrow> find Q (delete_first P rs) = find Q rs"
  by (induction rs) auto

lemma delete_outage_row_settled:
  assumes "has_financial_history k db"
  shows "get_orm k (snd (delete_outage_row j db)) = get_orm k db"
    and "has_financial_history k (snd (delete_outage_row j db))"
  using assms
  by (auto simp: delete_outage_row_def get_orm_def find_delete_first_other has_financial_history_def
      update_where_def split: option.splits)

lemma financial_history_frame:
  "has_financial_history k (snd (create_or_get_existing t c db)) = has_financial_history k db"
  "has_financial_history k (snd (update_outage_row t j u db)) = has_financial_history k db"
  "has_financial_history k (snd (resolve_outage_row t j m db)) = has_financial_history k db"
  by (auto simp: create_or_get_existing_def update_outage_row_def resolve_outage_row_def
      has_financial_history_def Let_def split: sum.splits option.splits)

lemma repo_step_settled:
  assumes "repo_step db db'" "has_financial_history k db" "get_orm k db = Some r" "o_status r = Resolved"
  shows "has_financial_history k db' \<and> (\<exists>r'. get_orm k db' = Some r' \<and> o_status r' = Resolved)"
  using assms
proof (cases rule: repo_step.cases)
  case (creating t c)
  with assms(2-4) show ?thesis
    using financial_history_frame(1) [of k t c db]
    by (auto simp: create_or_get_existing_def Let_def get_orm_append_other split: sum.splits option.splits)
next
  case (updating t j u)
  with assms(2-4) show ?thesis by (simp add: financial_history_frame update_outage_row_Resolved)
next
  case (resolving t j m)
  with assms(2-4) show ?thesis by (simp add: financial_history_frame resolve_outage_row_Resolved)
next
  case (deleting j)
  with assms(2-4) show ?thesis by (simp add: delete_outage_row_settled)
qed

text \<open>A resolved outage with an SLA result or a payment is never deleted and never reopened,
  whatever sequence of creations, updates, resolutions and deletions the repository executes.\<close>

theorem settled_outage_stays_resolved:
  assumes "repo_step\<^sup>*\<^sup>* db db'" and "has_financial_history k db"
    and "get_orm k db = Some r" and "o_status r = Resolved"
  shows "\<exists>r'. get_orm k db' = Some r' \<and> o_status r' = Resolved"
proof -
  from assms(1) have "has_financial_history k db' \<and> (\<exists>r'. get_orm k db' = Some r' \<and> o_status r' = Resolved)"
    using assms(2-4) by (induction rule: rtranclp_induct) (auto dest: repo_step_settled)
  then show ?thesis by blast
qed

theorem settled_outage_stays_resolved_witness:
  "\<exists>r'. get_orm ''a'' (snd (delete_outage_row ''a''
          (empty_database\<lparr>outages := [sample_outage ''a'' Resolved 5], sla_results := [sample_sla 1 ''a'']\<rparr>))) = Some r'
        \<and> o_status r' = Resolved"
proof (rule settled_outage_stays_resolved)
  let ?db = "empty_database\<lparr>outages := [sample_outage ''a'' Resolved 5], sla_results := [sample_sla 1 ''a'']\<rparr>"
  show "repo_step\<^sup>*\<^sup>* ?db (snd (delete_outage_row ''a'' ?db))" by (blast intro: deleting)
  show "has_financial_history ''a'' ?db" by (simp add: has_financial_history_def sample_sla_def)
  show "get_orm ''a'' ?db = Some (sample_outage ''a'' Resolved 5)"
    "o_status (sample_outage ''a'' Resolved 5) = Resolved"
    by (simp_all add: get_orm_def sample_outage_def)
qed

lemma is_same_new_row: "is_same_outage (new_outage_row t c) c" "o_id (new_outage_row t c) = oc_id c"
  by (simp_all add: is_same_outage_def new_outage_row_def)

text \<open>Creating an outage is idempotent: when a creation succeeds, repeating it at any later time
  returns the same outage, reports that nothing was persisted and leaves the database as it is.\<close>

theorem create_or_get_existing_idempotent:
  assumes "create_or_get_existing t c db = (Inr (outage, persisted), db')"
  shows "create_or_get_existing t' c db' = (Inr (outage, False), db')"
proof (cases "check_duplicate c db")
  case (Inr d)
  show ?thesis
  proof (cases d)
    case None
    with Inr have "get_orm (oc_id c) db = None"
      by (auto simp: check_duplicate_def split: option.splits if_splits)
    with None Inr assms have "get_orm (oc_id c) db' = Some (new_outage_row t c)"
        and "outage = outage_of_row (new_outage_row t c)"
      by (auto simp: create_or_get_existing_def Let_def get_orm_def is_same_new_row)
    then have "check_duplicate c db' = Inr (Some outage)"
      by (simp add: check_duplicate_def is_same_new_row)
    then show ?thesis by (simp add: create_or_get_existing_def)
  next
    case (Some x)
    with Inr assms show ?thesis by (simp add: create_or_get_existing_def)
  qed
qed (use assms in \<open>simp add: create_or_get_existing_def\<close>)

theorem create_or_get_existing_idempotent_witness:
  "\<exists>c outage db'. create_or_get_existing 3 c empty_database = (Inr (outage, True), db') \<and>
     create_or_get_existing 4 c db' = (Inr (outage, False), db')"
proof -
  let ?c = "\<lparr>oc_id = ''o-1'', oc_site_name = ''north'', oc_site_id = None, oc_severity = high, oc_status = Open,
    oc_detected_at = 2, oc_description = ''d'', oc_affected_services = [''voice''],
    oc_affected_subscribers = None, oc_assigned_to = None, oc_created_by = None, oc_location = None\<rparr>"
  let ?r = "new_outage_row 3 ?c"
  have "create_or_get_existing 3 ?c empty_database = (Inr (outage_of_row ?r, True), empty_database\<lparr>outages := [?r]\<rparr>)"
    by (simp add: create_or_get_existing_def check_duplicate_def get_orm_def find_duplicate_orm_def
        empty_database_def Let_def)
  with create_or_get_existing_idempotent [OF this, of 4] show ?thesis by blast
qed

lemma filter_old_batch:
  assumes "distinct (map e_id evs)"
  shows "filter (\<lambda>e. e_id e \<notin> e_id ` set (take b (filter P evs))) evs
           = filter (\<lambda>e. e \<notin> set (take b (filter P evs))) evs"
proof (rule filter_cong [OF refl])
  fix e assume "e \<in> set evs"
  moreover have "set (take b (filter P evs)) \<subseteq> set evs"
    by (meson filter_is_subset order_trans set_take_subset)
  ultimately show "(e_id e \<notin> e_id ` set (take b (filter P evs))) = (e \<notin> set (take b (filter P evs)))"
    using assms by (auto simp: distinct_map inj_on_def)
qed

lemma filter_drop_batch:
  "distinct xs \<Longrightarrow> filter P (filter (\<lambda>e. e \<notin> set (take b (filter P xs))) xs) = drop b (filter P xs)"
  "distinct xs \<Longrightarrow> filter (\<lambda>e. \<not> P e) (filter (\<lambda>e. e \<notin> set (take b (filter P xs))) xs) = filter (\<lambda>e. \<not> P e) xs"
proof -
  assume "distinct xs"
  then have "distinct (filter P xs)" by simp
  moreover have "filter (\<lambda>e. e \<notin> set (take b ys)) ys = drop b ys" if "distinct ys" for ys :: "'a list"
    using that set_take_disj_set_drop_if_distinct [of ys b b]
    by (subst append_take_drop_id [symmetric, of ys b], subst filter_append)
       (auto simp: filter_empty_conv filter_id_conv disjoint_iff simp del: append_take_drop_id)
  ultimately show "filter P (filter (\<lambda>e. e \<notin> set (take b (filter P xs))) xs) = drop b (filter P xs)"
    by (metis (no_types, lifting) filter_filter conj_commute filter_cong)
next
  show "filter (\<lambda>e. \<not> P e) (filter (\<lambda>e. e \<notin> set (take b (filter P xs))) xs) = filter (\<lambda>e. \<not> P e) xs"
    by (auto simp: filter_filter intro!: filter_cong dest!: in_set_takeD)
qed

text \<open>Timeline retention: for a positive batch size and distinct event ids the batched deletion
  ends, deletes exactly the events older than the cutoff, keeps the others in order, and returns the
  number it deleted.\<close>

theorem delete_events_older_than_correct:
  assumes "0 < batch_size" and "distinct (map e_id evs)"
  shows "delete_events_older_than cutoff batch_size evs =
           (length (filter (\<lambda>e. e_occurred_at e < cutoff) evs), filter (\<lambda>e. \<not> e_occurred_at e < cutoff) evs)"
  using assms
proof (induction cutoff batch_size evs rule: delete_events_older_than.induct)
  case (1 cutoff batch_size evs)
  let ?P = "\<lambda>e. e_occurred_at e < cutoff"
  let ?old = "take batch_size (filter ?P evs)"
  let ?rest = "filter (\<lambda>e. e \<notin> set ?old) evs"
  have d: "distinct evs" "distinct (map e_id ?rest)"
    using 1(3) by (simp add: distinct_map) (rule distinct_map_filter_ids [OF 1(3)])
  note rest = filter_drop_batch [OF d(1), of ?P batch_size] filter_old_batch [OF 1(3), of batch_size ?P]
  show ?case
  proof (cases "filter ?P evs = []")
    case True
    then show ?thesis
      by (subst delete_events_older_than.simps) (auto simp: filter_empty_conv)
  next
    case False
    with 1(2) have old: "map e_id ?old \<noteq> []" by simp
    show ?thesis
    proof (cases "length (map e_id ?old) < batch_size")
      case True
      then have short: "length (filter ?P evs) < batch_size" by simp
      then have "?old = filter ?P evs" by simp
      then have "?rest = filter (\<lambda>e. \<not> ?P e) evs" by (auto intro!: filter_cong)
      with short old rest(3) show ?thesis
        by (subst delete_events_older_than.simps) (simp add: Let_def)
    next
      case False
      have eq: "filter (\<lambda>e. e_id e \<notin> set (map e_id ?old)) evs = ?rest" using rest(3) by simp
      have "delete_events_older_than cutoff batch_size ?rest = (length (filter ?P ?rest), filter (\<lambda>e. \<not> ?P e) ?rest)"
        using 1(1) [OF refl old refl False] 1(2) d(2) unfolding eq by blast
      moreover have "length ?old + length (drop batch_size (filter ?P evs)) = length (filter ?P evs)"
        using False by simp
      ultimately show ?thesis
        using False old eq rest(1,2) by (subst delete_events_older_than.simps) (simp add: Let_def del: length_take)
    qed
  qed
qed

theorem delete_events_older_than_correct_witness:
  "\<exists>e1 e2. delete_events_older_than 5 1 [e1, e2] = (1, [e2])"
proof -
  let ?e = "\<lambda>i t. \<lparr>e_id = i, e_outage_id = ''o'', e_event_type = ''created'', e_detail = None,
                    e_schema_version = ''1'', e_occurred_at = t\<rparr>"
  have "distinct (map e_id [?e ''x'' 1, ?e ''y'' 9])" by simp
  from delete_events_older_than_correct [OF _ this, of 1 5] show ?thesis by simp blast
qed

end
