(* ===== verification/Sla_Store.thy ===== *)
theory Sla_Store
  imports Database
begin

text \<open>
  Persistence and analytics of SLA results: \<^verbatim>\<open>app/repositories/sla_repository.py\<close> and the snapshot
  checksum of \<^verbatim>\<open>app/models/orm/sla_snapshot.py\<close>.  At most one result per outage carries the
  \<open>is_latest\<close> flag; writing is idempotent in the compute hash.  Both writers satisfy the
  locale \<open>sla_writer\<close>, through which the settlement workflow uses them.  Money is an integer, as
  in the columns; averages are exact rationals rounded half to even.
\<close>

section \<open>Results\<close>

definition sla_result_of_row :: "sla_row \<Rightarrow> sla_result" where
  "sla_result_of_row r =
     \<lparr>r_id = Some (s_id r), r_outage_id = s_outage_id r, r_status = s_status r,
      r_mttr_minutes = s_mttr_minutes r, r_threshold_minutes = s_threshold_minutes r,
      r_amount = s_amount r, r_payment_type = s_payment_type r, r_rating = s_rating r,
      r_policy_version = s_policy_version r, r_threshold_source = s_threshold_source r,
      r_reason_code = s_reason_code r, r_decision_trace = s_decision_trace r,
      r_compute_hash = s_compute_hash r\<rparr>"

definition find_by_compute_hash :: "str \<Rightarrow> str \<Rightarrow> database \<Rightarrow> sla_row option" where
  "find_by_compute_hash k h db =
     find (\<lambda>r. s_outage_id r = k \<and> s_compute_hash r = Some h) (sla_results db)"

definition new_sla_row :: "env \<Rightarrow> sla_result \<Rightarrow> int \<Rightarrow> sla_row" where
  "new_sla_row env x i =
     \<lparr>s_id = i, s_outage_id = r_outage_id x, s_status = r_status x, s_mttr_minutes = r_mttr_minutes x,
      s_threshold_minutes = r_threshold_minutes x, s_amount = r_amount x,
      s_payment_type = r_payment_type x, s_rating = r_rating x, s_policy_version = r_policy_version x,
      s_threshold_source = r_threshold_source x, s_created_at = process_start env, s_is_latest = True,
      s_reason_code = r_reason_code x, s_decision_trace = r_decision_trace x,
      s_compute_hash = r_compute_hash x\<rparr>"

definition demote_latest :: "str \<Rightarrow> sla_row list \<Rightarrow> sla_row list" where
  "demote_latest k rs = update_where (\<lambda>r. s_outage_id r = k \<and> s_is_latest r) (\<lambda>r. r\<lparr>s_is_latest := False\<rparr>) rs"

text \<open>
  \<open>create\<close>.  The last guard is the unique constraint on outage and compute hash: it can only fire for
  an empty hash, which the look-up in front of it ignores.
\<close>

definition create_sla :: "env \<Rightarrow> sla_result \<Rightarrow> database \<Rightarrow> (sla_result, database) outcome" where
  "create_sla env x db =
     (let k = r_outage_id x;
          existing = (case r_compute_hash x of
             Some h \<Rightarrow> if h \<noteq> [] then find_by_compute_hash k h db else None | None \<Rightarrow> None) in
      case existing of
        Some r \<Rightarrow> (Inr (sla_result_of_row r), db)
      | None \<Rightarrow>
          if r_compute_hash x = Some [] \<and> find_by_compute_hash k [] db \<noteq> None then (Inl IntegrityError, db)
          else
            (let existing_latest = find (\<lambda>r. s_outage_id r = k \<and> s_is_latest r) (sla_results db);
                 demoted = (if existing_latest \<noteq> None then demote_latest k (sla_results db) else sla_results db);
                 orm = new_sla_row env x (next_sla_id db) in
             (Inr (sla_result_of_row orm),
              db\<lparr>sla_results := demoted @ [orm], next_sla_id := next_sla_id db + 1\<rparr>)))"

definition get_row_by_outage :: "str \<Rightarrow> database \<Rightarrow> sla_row option" where
  "get_row_by_outage k db =
     (case find (\<lambda>r. s_outage_id r = k \<and> s_is_latest r) (sla_results db) of
        Some r \<Rightarrow> Some r
      | None \<Rightarrow> first_desc s_created_at (filter (\<lambda>r. s_outage_id r = k) (sla_results db)))"

definition get_by_outage :: "str \<Rightarrow> database \<Rightarrow> sla_result option" where
  "get_by_outage k db = map_option sla_result_of_row (get_row_by_outage k db)"

definition create_if_changed :: "env \<Rightarrow> sla_result \<Rightarrow> database \<Rightarrow> (sla_result, database) outcome" where
  "create_if_changed env x db =
     (let existing = (case r_compute_hash x of
             Some h \<Rightarrow> if h \<noteq> [] then find_by_compute_hash (r_outage_id x) h db else None | None \<Rightarrow> None) in
      case existing of
        Some r \<Rightarrow> (Inr (sla_result_of_row r), db)
      | None \<Rightarrow>
          (case get_by_outage (r_outage_id x) db of
             Some latest \<Rightarrow> if latest = x then (Inr latest, db) else create_sla env x db
           | None \<Rightarrow> create_sla env x db))"

definition list_by_outage :: "str \<Rightarrow> database \<Rightarrow> sla_result list" where
  "list_by_outage k db =
     map sla_result_of_row (sort_desc s_created_at (filter (\<lambda>r. s_outage_id r = k) (sla_results db)))"

section \<open>Aggregates\<close>

definition DEFAULT_SCAN_DAYS :: int where "DEFAULT_SCAN_DAYS = 365"

text \<open>Ticks of a day are an argument: times are abstract clock readings.\<close>

definition scan_start :: "env \<Rightarrow> time \<Rightarrow> time" where
  "scan_start env day = now env - DEFAULT_SCAN_DAYS * day"

definition round_half_even :: "rat \<Rightarrow> int" where
  "round_half_even x =
     (let f = \<lfloor>x\<rfloor>; d = x - of_int f in
      if d < 1 / 2 then f else if d > 1 / 2 then f + 1 else if even f then f else f + 1)"

definition round_to :: "nat \<Rightarrow> rat \<Rightarrow> rat" where
  "round_to n x = of_int (round_half_even (x * 10 ^ n)) / 10 ^ n"

definition outage_matches :: "str option \<Rightarrow> str option \<Rightarrow> outage_row \<Rightarrow> bool" where
  "outage_matches severity site_id r \<longleftrightarrow>
     (truthy severity \<longrightarrow> Some (severity_value (o_severity r)) = severity) \<and>
     (truthy site_id \<longrightarrow> o_site_id r = site_id)"

text \<open>An inner join repeats a result once per matching outage row.\<close>

definition join_outages :: "(outage_row \<Rightarrow> bool) \<Rightarrow> database \<Rightarrow> sla_row list \<Rightarrow> sla_row list" where
  "join_outages P db rs =
     concat (map (\<lambda>s. map (\<lambda>_. s) (filter (\<lambda>r. o_id r = s_outage_id s \<and> P r) (outages db))) rs)"

record sla_performance =
  ag_total_outages :: int
  ag_violation_rate :: rat
  ag_avg_mttr :: rat
  ag_payout_sum :: int

definition violations :: "sla_row list \<Rightarrow> int" where
  "violations rs = (\<Sum>r\<leftarrow>rs. if s_status r = Violated then 1 else 0)"

definition row_number_one :: "sla_row list \<Rightarrow> sla_row \<Rightarrow> bool" where
  "row_number_one rs r \<longleftrightarrow>
     list_all (\<lambda>q. s_outage_id q = s_outage_id r \<longrightarrow>
        s_created_at q < s_created_at r \<or> s_created_at q = s_created_at r \<and> s_id q \<le> s_id r) rs"

definition aggregate_performance ::
  "env \<Rightarrow> time \<Rightarrow> time option \<Rightarrow> time option \<Rightarrow> str option \<Rightarrow> str option \<Rightarrow> database \<Rightarrow> sla_performance" where
  "aggregate_performance env day start_date end_date severity site_id db =
     (let start = (case start_date of None \<Rightarrow> scan_start env day | Some d \<Rightarrow> d);
          results = filter (\<lambda>r. start \<le> s_created_at r \<and>
             (case end_date of None \<Rightarrow> True | Some d \<Rightarrow> s_created_at r \<le> d) \<and> s_is_latest r) (sla_results db);
          joined = join_outages (outage_matches severity site_id) db results;
          latest = filter (row_number_one joined) joined;
          total = int (length latest) in
      \<lparr>ag_total_outages = total,
       ag_violation_rate = round_to 4 (if total = 0 then 0 else of_int (violations latest) / of_int total),
       ag_avg_mttr = round_to 2 (if latest = [] then 0
                                 else of_int (sum_list (map s_mttr_minutes latest)) / of_int total),
       ag_payout_sum = sum_list (map s_amount latest)\<rparr>)"

record dashboard_kpi =
  k_total_outages :: int
  k_total_violations :: int
  k_total_rewards :: int
  k_total_penalties :: int
  k_net_payout :: int

definition total_rewards :: "sla_row list \<Rightarrow> int" where
  "total_rewards rs = (\<Sum>r\<leftarrow>rs. if s_payment_type r = Reward then s_amount r else 0)"

definition total_penalties :: "sla_row list \<Rightarrow> int" where
  "total_penalties rs = (\<Sum>r\<leftarrow>rs. if s_payment_type r = Penalty then \<bar>s_amount r\<bar> else 0)"

text \<open>The rows both dashboards and trends read: latest, recent, joined only when a filter is set.\<close>

definition recent_latest :: "env \<Rightarrow> time \<Rightarrow> str option \<Rightarrow> str option \<Rightarrow> database \<Rightarrow> sla_row list" where
  "recent_latest env day severity site_id db =
     (let rs = filter (\<lambda>r. s_is_latest r \<and> scan_start env day \<le> s_created_at r) (sla_results db) in
      if truthy severity \<or> truthy site_id then join_outages (outage_matches severity site_id) db rs else rs)"

definition aggregate_dashboard_kpis ::
  "env \<Rightarrow> time \<Rightarrow> str option \<Rightarrow> str option \<Rightarrow> database \<Rightarrow> dashboard_kpi" where
  "aggregate_dashboard_kpis env day severity site_id db =
     (let rs = recent_latest env day severity site_id db in
      \<lparr>k_total_outages = int (length rs), k_total_violations = violations rs,
       k_total_rewards = total_rewards rs, k_total_penalties = total_penalties rs,
       k_net_payout = total_rewards rs - total_penalties rs\<rparr>)"

record trend_point =
  tp_bucket :: time
  tp_total_outages :: int
  tp_violations :: int
  tp_rewards :: int
  tp_penalties :: int

text \<open>
  \<open>aggregate_trends\<close>: the time-zone database and the truncation of a timestamp to its bucket are the
  database server's, arguments here; grouping, ordering and the limit are the query's.
\<close>

definition aggregate_trends ::
  "(str \<Rightarrow> bool) \<Rightarrow> (str \<Rightarrow> str \<Rightarrow> time \<Rightarrow> time) \<Rightarrow> env \<Rightarrow> time \<Rightarrow> nat \<Rightarrow> str \<Rightarrow> str \<Rightarrow> str option \<Rightarrow> str option
    \<Rightarrow> database \<Rightarrow> exn + trend_point list" where
  "aggregate_trends known_tz trunc env day limit_days bucket tz severity site_id db =
     (if bucket \<notin> {''day'', ''week'', ''month''} then Inl ValueError
      else if \<not> known_tz tz then Inl ValueError
      else
        (let rs = recent_latest env day severity site_id db;
             bucket_of = (\<lambda>r. trunc bucket tz (s_created_at r));
             buckets = rev (sort (remdups (map bucket_of rs)));
             point = (\<lambda>b. let g = filter (\<lambda>r. bucket_of r = b) rs in
                \<lparr>tp_bucket = b, tp_total_outages = int (length g), tp_violations = violations g,
                 tp_rewards = total_rewards g, tp_penalties = total_penalties g\<rparr>) in
         Inr (rev (map point (take limit_days buckets)))))"

section \<open>Snapshots\<close>

record snapshot_row =
  sn_id :: int
  sn_key :: str
  sn_total_outages :: int
  sn_total_violations :: int
  sn_total_rewards :: int
  sn_total_penalties :: int
  sn_net_payout :: int
  sn_avg_mttr :: rat
  sn_checksum :: str
  sn_created_at :: time

text \<open>\<open>json.dumps(data, sort_keys=True)\<close>; the text of a float and of the timestamp are arguments.\<close>

definition snapshot_document :: "(rat \<Rightarrow> str) \<Rightarrow> (time \<Rightarrow> str) \<Rightarrow> snapshot_row \<Rightarrow> str" where
  "snapshot_document repr iso_fmt s =
     ''{'' @ join '', ''
       (map (\<lambda>(k, v). json_string_ascii k @ '': '' @ v)
         [(''avg_mttr'', repr (sn_avg_mttr s)), (''created_at'', json_string_ascii (iso_fmt (sn_created_at s))),
          (''net_payout'', repr (of_int (sn_net_payout s))), (''snapshot_key'', json_string_ascii (sn_key s)),
          (''total_outages'', py_str_int (sn_total_outages s)),
          (''total_penalties'', repr (of_int (sn_total_penalties s))),
          (''total_rewards'', repr (of_int (sn_total_rewards s))),
          (''total_violations'', py_str_int (sn_total_violations s))]) @ ''}''"

definition compute_checksum :: "(str \<Rightarrow> str) \<Rightarrow> (rat \<Rightarrow> str) \<Rightarrow> (time \<Rightarrow> str) \<Rightarrow> snapshot_row \<Rightarrow> str" where
  "compute_checksum sha repr iso_fmt s = sha (snapshot_document repr iso_fmt s)"

text \<open>
  \<open>iso_written\<close> renders the naive timestamp the object holds when the checksum is taken,
  \<open>iso_read\<close> the one a later query loads from the time-zone-aware column.
\<close>

definition create_snapshot ::
  "(rat \<Rightarrow> str) \<Rightarrow> (time \<Rightarrow> str) \<Rightarrow> env \<Rightarrow> time \<Rightarrow> str \<Rightarrow> database \<Rightarrow> snapshot_row list \<Rightarrow> snapshot_row \<times> snapshot_row list" where
  "create_snapshot repr iso_written env day key db snaps =
     (let kpis = aggregate_dashboard_kpis env day None None db;
          perf = aggregate_performance env day None None None None db;
          orm = \<lparr>sn_id = int (length snaps) + 1, sn_key = key, sn_total_outages = k_total_outages kpis,
                 sn_total_violations = k_total_violations kpis, sn_total_rewards = k_total_rewards kpis,
                 sn_total_penalties = k_total_penalties kpis, sn_net_payout = k_net_payout kpis,
                 sn_avg_mttr = ag_avg_mttr perf, sn_checksum = [], sn_created_at = now env\<rparr>;
          orm' = orm\<lparr>sn_checksum := compute_checksum (sha256 (auditing env)) repr iso_written orm\<rparr> in
      (orm', snaps @ [orm']))"

definition rebuild_snapshot ::
  "(rat \<Rightarrow> str) \<Rightarrow> (time \<Rightarrow> str) \<Rightarrow> env \<Rightarrow> time \<Rightarrow> str \<Rightarrow> database \<Rightarrow> snapshot_row list \<Rightarrow> snapshot_row \<times> snapshot_row list" where
  "rebuild_snapshot repr iso_written env day key db snaps =
     (let kpis = aggregate_dashboard_kpis env day None None db;
          perf = aggregate_performance env day None None None None db;
          orm = \<lparr>sn_id = int (length snaps) + 1, sn_key = key, sn_total_outages = k_total_outages kpis,
                 sn_total_violations = k_total_violations kpis, sn_total_rewards = k_total_rewards kpis,
                 sn_total_penalties = k_total_penalties kpis, sn_net_payout = k_net_payout kpis,
                 sn_avg_mttr = ag_avg_mttr perf, sn_checksum = [], sn_created_at = now env\<rparr>;
          orm' = orm\<lparr>sn_checksum := compute_checksum (sha256 (auditing env)) repr iso_written orm\<rparr> in
      (orm', snaps @ [orm']))"

definition get_latest_snapshot :: "str \<Rightarrow> snapshot_row list \<Rightarrow> snapshot_row option" where
  "get_latest_snapshot key snaps = first_desc sn_created_at (filter (\<lambda>s. sn_key s = key) snaps)"

datatype integrity = Intact int | Tampered int | No_snapshot

definition verify_snapshot_integrity ::
  "(rat \<Rightarrow> str) \<Rightarrow> (time \<Rightarrow> str) \<Rightarrow> env \<Rightarrow> str \<Rightarrow> snapshot_row list \<Rightarrow> integrity" where
  "verify_snapshot_integrity repr iso_read env key snaps =
     (case get_latest_snapshot key snaps of
        None \<Rightarrow> No_snapshot
      | Some s \<Rightarrow>
          if compute_checksum (sha256 (auditing env)) repr iso_read s = sn_checksum s
          then Intact (sn_id s) else Tampered (sn_id s))"

record reconciliation =
  rc_has_snapshot :: bool
  rc_snapshot_id :: "int option"
  rc_drift_detected :: "bool option"
  rc_recommendation :: str
  rc_differences :: "(str \<times> rat \<times> rat) list option"
  rc_current_kpis :: dashboard_kpi
  rc_current_avg_mttr :: rat

text \<open>Each difference: field, snapshot value, live value.\<close>

definition reconcile_snapshots :: "env \<Rightarrow> time \<Rightarrow> str \<Rightarrow> database \<Rightarrow> snapshot_row list \<Rightarrow> reconciliation" where
  "reconcile_snapshots env day key db snaps =
     (let kpis = aggregate_dashboard_kpis env day None None db;
          perf = aggregate_performance env day None None None None db in
      case get_latest_snapshot key snaps of
        None \<Rightarrow> \<lparr>rc_has_snapshot = False, rc_snapshot_id = None, rc_drift_detected = None,
                 rc_recommendation = ''rebuild'', rc_differences = None, rc_current_kpis = kpis,
                 rc_current_avg_mttr = ag_avg_mttr perf\<rparr>
      | Some s \<Rightarrow>
          (let entry = (\<lambda>b name old new. if b then [(name, of_int old, of_int new)] else []);
               outages_differ = sn_total_outages s \<noteq> k_total_outages kpis;
               violations_differ = sn_total_violations s \<noteq> k_total_violations kpis;
               rewards_differ = sn_total_rewards s \<noteq> k_total_rewards kpis;
               penalties_differ = sn_total_penalties s \<noteq> k_total_penalties kpis;
               payout_differs = \<bar>of_int (sn_net_payout s) - of_int (k_net_payout kpis)\<bar> > (1 / 100 :: rat);
               mttr_differs = \<bar>sn_avg_mttr s - ag_avg_mttr perf\<bar> > 1 / 100;
               drift = (outages_differ \<or> violations_differ \<or> rewards_differ \<or> penalties_differ \<or>
                        payout_differs \<or> mttr_differs);
               diffs = entry outages_differ ''total_outages'' (sn_total_outages s) (k_total_outages kpis) @
                       entry violations_differ ''total_violations'' (sn_total_violations s) (k_total_violations kpis) @
                       entry rewards_differ ''total_rewards'' (sn_total_rewards s) (k_total_rewards kpis) @
                       entry penalties_differ ''total_penalties'' (sn_total_penalties s) (k_total_penalties kpis) @
                       entry payout_differs ''net_payout'' (sn_net_payout s) (k_net_payout kpis) @
                       (if mttr_differs then [(''avg_mttr'', sn_avg_mttr s, ag_avg_mttr perf)] else []) in
           \<lparr>rc_has_snapshot = True, rc_snapshot_id = Some (sn_id s), rc_drift_detected = Some drift,
            rc_recommendation = (if drift then ''rebuild'' else ''ok''),
            rc_differences = (if drift then Some diffs else None), rc_current_kpis = kpis,
            rc_current_avg_mttr = ag_avg_mttr perf\<rparr>))"

section \<open>The latest flag\<close>

lemma filter_latest_demote [table_simps]:
  "filter s_is_latest (demote_latest k rs) = filter (\<lambda>r. s_outage_id r \<noteq> k) (filter s_is_latest rs)"
  by (induction rs) (auto simp: demote_latest_def update_where_def)

lemma demote_latest_keys [table_simps]:
  "map s_id (demote_latest k rs) = map s_id rs"
  "map (\<lambda>r. (s_outage_id r, s_compute_hash r)) (demote_latest k rs) = map (\<lambda>r. (s_outage_id r, s_compute_hash r)) rs"
  by (simp_all add: demote_latest_def update_where_def)

lemma demote_latest_id: "find (\<lambda>r. s_outage_id r = k \<and> s_is_latest r) rs = None \<Longrightarrow> demote_latest k rs = rs"
  by (auto simp: demote_latest_def update_where_def find_None_set intro!: map_idI)

text \<open>The demotion is unconditional in effect: without a latest row it changes nothing.\<close>

lemma create_sla_alt:
  "create_sla env x db =
     (case (case r_compute_hash x of Some h \<Rightarrow> find_by_compute_hash (r_outage_id x) h db | None \<Rightarrow> None) of
        Some r \<Rightarrow> (if r_compute_hash x = Some [] then Inl IntegrityError else Inr (sla_result_of_row r), db)
      | None \<Rightarrow> (Inr (sla_result_of_row (new_sla_row env x (next_sla_id db))),
                 db\<lparr>sla_results := demote_latest (r_outage_id x) (sla_results db) @ [new_sla_row env x (next_sla_id db)],
                    next_sla_id := next_sla_id db + 1\<rparr>))"
  by (auto simp: create_sla_def Let_def demote_latest_id split: option.splits)

lemma at_most_one_latest_create:
  assumes "at_most_one_latest rs"
  shows "at_most_one_latest (demote_latest (r_outage_id x) rs @ [new_sla_row env x i])"
  using assms
  by (auto simp: at_most_one_latest_def table_simps new_sla_row_def
      dest: distinct_map_filter [where P = "\<lambda>r. s_outage_id r \<noteq> r_outage_id x"])

text \<open>Demotion rewrites each row by a function that keeps its keys.\<close>

definition unflag :: "str \<Rightarrow> sla_row \<Rightarrow> sla_row" where
  "unflag k r = (if s_outage_id r = k \<and> s_is_latest r then r\<lparr>s_is_latest := False\<rparr> else r)"

lemma demote_latest_map: "demote_latest k rs = map (unflag k) rs"
  by (simp add: demote_latest_def update_where_def unflag_def)

lemma unflag_keeps [simp]:
  "s_id (unflag k r) = s_id r" "s_outage_id (unflag k r) = s_outage_id r"
  "s_compute_hash (unflag k r) = s_compute_hash r" "s_amount (unflag k r) = s_amount r"
  "hash_key (unflag k r) = hash_key r"
  by (simp_all add: unflag_def hash_key_def)

lemma schema_ok_create_sla:
  assumes ok: "schema_ok db"
  shows "schema_ok (snd (create_sla env x db))"
proof (cases "case r_compute_hash x of Some h \<Rightarrow> find_by_compute_hash (r_outage_id x) h db | None \<Rightarrow> None")
  case None
  let ?new = "new_sla_row env x (next_sla_id db)"
  let ?old = "demote_latest (r_outage_id x) (sla_results db)"
  have "unique_key hash_key (?old @ [?new])"
    using ok None
    by (auto simp: schema_ok_def unique_key_snoc unique_key_map demote_latest_map hash_key_def
        find_by_compute_hash_def find_None_set new_sla_row_def split: option.splits)
  moreover have "distinct (map s_id (?old @ [?new]))"
    using ok by (auto simp: schema_ok_def demote_latest_map new_sla_row_def comp_def)
  moreover have "\<forall>r \<in> set (?old @ [?new]). s_id r < next_sla_id db + 1"
    using ok by (fastforce simp: schema_ok_def demote_latest_map new_sla_row_def)
  ultimately show ?thesis
    using at_most_one_latest_create [of "sla_results db" x env "next_sla_id db"] ok None
    by (simp add: create_sla_alt schema_ok_def)
qed (use ok in \<open>simp add: create_sla_alt\<close>)

lemma latest_demote_same:
  "find (\<lambda>r. s_outage_id r = k \<and> s_is_latest r) (demote_latest k rs) = None"
  by (induction rs) (simp_all add: demote_latest_map unflag_def)

lemma demote_latest_other:
  assumes "k \<noteq> j"
  shows "find (\<lambda>r. s_outage_id r = k \<and> s_is_latest r) (demote_latest j rs) = find (\<lambda>r. s_outage_id r = k \<and> s_is_latest r) rs"
    and "filter (\<lambda>r. s_outage_id r = k) (demote_latest j rs) = filter (\<lambda>r. s_outage_id r = k) rs"
  using assms by (induction rs) (simp_all add: demote_latest_map unflag_def)

lemma get_row_by_outage_create_other:
  "r_outage_id x \<noteq> k \<Longrightarrow> get_row_by_outage k (snd (create_sla env x db)) = get_row_by_outage k db"
  by (auto simp: create_sla_alt get_row_by_outage_def demote_latest_other find_append new_sla_row_def
      split: option.splits)

lemma create_sla_fresh:
  assumes "\<And>h. r_compute_hash x = Some h \<Longrightarrow> find_by_compute_hash (r_outage_id x) h db = None"
  shows "fst (create_sla env x db) = Inr (x\<lparr>r_id := Some (next_sla_id db)\<rparr>)"
    and "get_by_outage (r_outage_id x) (snd (create_sla env x db)) = Some (x\<lparr>r_id := Some (next_sla_id db)\<rparr>)"
proof -
  have new: "sla_result_of_row (new_sla_row env x i) = x\<lparr>r_id := Some i\<rparr>" for i
    by (cases x) (simp add: sla_result_of_row_def new_sla_row_def)
  have "(case r_compute_hash x of Some h \<Rightarrow> find_by_compute_hash (r_outage_id x) h db | None \<Rightarrow> None) = None"
    using assms by (simp split: option.split)
  moreover have "s_outage_id (new_sla_row env x i) = r_outage_id x" "s_is_latest (new_sla_row env x i)" for i
    by (simp_all add: new_sla_row_def)
  ultimately show "fst (create_sla env x db) = Inr (x\<lparr>r_id := Some (next_sla_id db)\<rparr>)"
    and "get_by_outage (r_outage_id x) (snd (create_sla env x db)) = Some (x\<lparr>r_id := Some (next_sla_id db)\<rparr>)"
    by (simp_all add: create_sla_alt get_by_outage_def get_row_by_outage_def find_append latest_demote_same new)
qed

lemma create_sla_replay:
  assumes "r_compute_hash x = Some h" "h \<noteq> []"
  shows "create_sla env' x (snd (create_sla env x db)) = (fst (create_sla env x db), snd (create_sla env x db))"
proof (cases "find_by_compute_hash (r_outage_id x) h db")
  case (Some r)
  with assms show ?thesis by (simp add: create_sla_alt)
next
  case None
  have "find (\<lambda>r. s_outage_id r = k \<and> s_compute_hash r = Some h) (demote_latest j rs) = None"
    if "find (\<lambda>r. s_outage_id r = k \<and> s_compute_hash r = Some h) rs = None" for k j rs
    using that by (force simp: find_None_set demote_latest_def update_where_def)
  with None assms have "find_by_compute_hash (r_outage_id x) h (snd (create_sla env x db))
      = Some (new_sla_row env x (next_sla_id db))"
    by (simp add: create_sla_alt find_by_compute_hash_def find_append new_sla_row_def)
  with None assms show ?thesis by (simp add: create_sla_alt)
qed

text \<open>The equality test of \<open>create_if_changed\<close> never succeeds on a computed result, which has no id yet.\<close>

lemma create_if_changed_is_create: "r_id x = None \<Longrightarrow> create_if_changed env x db = create_sla env x db"
  by (auto simp: create_if_changed_def create_sla_def Let_def get_by_outage_def sla_result_of_row_def
      split: option.splits)

section \<open>The interface of the writers\<close>

locale sla_writer =
  fixes put :: "env \<Rightarrow> sla_result \<Rightarrow> database \<Rightarrow> (sla_result, database) outcome"
  assumes write_schema: "schema_ok db \<Longrightarrow> schema_ok (snd (put env x db))"
    and write_other: "r_outage_id x \<noteq> k \<Longrightarrow> get_row_by_outage k (snd (put env x db)) = get_row_by_outage k db"
    and write_frame: "outages (snd (put env x db)) = outages db"
      "outage_events (snd (put env x db)) = outage_events db"
      "payments (snd (put env x db)) = payments db" "audit (snd (put env x db)) = audit db"
begin

lemma writes_schema: "schema_ok db \<Longrightarrow> schema_ok (fold (\<lambda>(env, x) db. snd (put env x db)) calls db)"
  by (induction calls arbitrary: db) (auto intro: write_schema)

lemma writes_other:
  "\<forall>(env, x) \<in> set calls. r_outage_id x \<noteq> k \<Longrightarrow>
   get_row_by_outage k (fold (\<lambda>(env, x) db. snd (put env x db)) calls db) = get_row_by_outage k db"
  by (induction calls arbitrary: db) (auto simp: write_other)

lemma writes_keep_other_tables:
  "outages (fold (\<lambda>(env, x) db. snd (put env x db)) calls db) = outages db"
  "payments (fold (\<lambda>(env, x) db. snd (put env x db)) calls db) = payments db"
  by (induction calls arbitrary: db) (auto simp: write_frame)

end

lemma create_sla_frame [simp]:
  "outages (snd (create_sla env x db)) = outages db"
  "outage_events (snd (create_sla env x db)) = outage_events db"
  "payments (snd (create_sla env x db)) = payments db" "audit (snd (create_sla env x db)) = audit db"
  by (simp_all add: create_sla_alt split: option.split)

lemma create_if_changed_cases:
  "snd (create_if_changed env x db) = db \<or> snd (create_if_changed env x db) = snd (create_sla env x db)"
  by (auto simp: create_if_changed_def Let_def split: option.splits)

interpretation plain: sla_writer create_sla
  by unfold_locales (simp_all add: schema_ok_create_sla get_row_by_outage_create_other)

interpretation changed: sla_writer create_if_changed
proof unfold_locales
  fix db :: database and env :: env and x :: sla_result and k :: str
  show "schema_ok (snd (create_if_changed env x db))" if "schema_ok db"
    using that create_if_changed_cases [of env x db] schema_ok_create_sla by metis
  show "get_row_by_outage k (snd (create_if_changed env x db)) = get_row_by_outage k db" if "r_outage_id x \<noteq> k"
    using that create_if_changed_cases [of env x db] get_row_by_outage_create_other by metis
  show "outages (snd (create_if_changed env x db)) = outages db"
    "outage_events (snd (create_if_changed env x db)) = outage_events db"
    "payments (snd (create_if_changed env x db)) = payments db" "audit (snd (create_if_changed env x db)) = audit db"
    using create_if_changed_cases [of env x db] by (metis create_sla_frame)+
qed

section \<open>Properties\<close>

text \<open>C5. Whatever sequence of results the repository is asked to store, through \<open>create\<close> or
  \<open>create_if_changed\<close>, no outage ever has two results flagged as the latest, ids stay unique, and no
  outage has two results with the same compute hash.\<close>

theorem sla_writes_keep_one_latest:
  assumes "schema_ok db"
  shows "(let db' = fold (\<lambda>(env, x) db. snd (create_sla env x db)) calls db;
              db'' = fold (\<lambda>(env, x) db. snd (create_if_changed env x db)) calls db in
          at_most_one_latest (sla_results db') \<and> distinct (map s_id (sla_results db')) \<and>
          unique_key hash_key (sla_results db') \<and>
          at_most_one_latest (sla_results db'') \<and> distinct (map s_id (sla_results db'')) \<and>
          unique_key hash_key (sla_results db''))"
  using plain.writes_schema [OF assms, of calls] changed.writes_schema [OF assms, of calls]
  by (simp add: schema_ok_def Let_def)

theorem sla_writes_keep_one_latest_witness:
  "at_most_one_latest (sla_results (fold (\<lambda>(env, x) db. snd (create_sla env x db)) [(sample_env 5, sla_result_of_row (sample_sla 1 ''o''))] empty_database))"
proof -
  have "schema_ok empty_database" by (simp add: empty_database_def schema_ok_def at_most_one_latest_def)
  from sla_writes_keep_one_latest [OF this, of "[(sample_env 5, sla_result_of_row (sample_sla 1 ''o''))]"]
  show ?thesis by (simp add: Let_def)
qed

text \<open>Storing a result whose compute hash is new for its outage returns the stored result with the
  next id, makes it the authoritative result of its outage, and changes the authoritative result of no
  other outage.\<close>

theorem create_sla_becomes_latest:
  assumes "\<forall>h. r_compute_hash x = Some h \<longrightarrow> find_by_compute_hash (r_outage_id x) h db = None"
  shows "fst (create_sla env x db) = Inr (x\<lparr>r_id := Some (next_sla_id db)\<rparr>) \<and>
         get_by_outage k (snd (create_sla env x db)) =
           (if k = r_outage_id x then Some (x\<lparr>r_id := Some (next_sla_id db)\<rparr>) else get_by_outage k db)"
  using create_sla_fresh [of x db env] get_row_by_outage_create_other [of x k env db] assms
  by (auto simp: get_by_outage_def)

theorem create_sla_becomes_latest_witness:
  "\<exists>x. r_compute_hash x = Some ''h'' \<and>
     (\<forall>env. get_by_outage ''o'' (snd (create_sla env x (empty_database\<lparr>sla_results := [sample_sla 1 ''o'']\<rparr>)))
        = Some (x\<lparr>r_id := Some 1\<rparr>))"
proof -
  let ?x = "(sla_result_of_row (sample_sla 1 ''o''))\<lparr>r_compute_hash := Some ''h''\<rparr>"
  let ?db = "empty_database\<lparr>sla_results := [sample_sla 1 ''o'']\<rparr>"
  have "\<forall>h. r_compute_hash ?x = Some h \<longrightarrow> find_by_compute_hash (r_outage_id ?x) h ?db = None"
    by (simp add: find_by_compute_hash_def sample_sla_def)
  from create_sla_becomes_latest [OF this] show ?thesis
    by (intro exI [of _ ?x]) (simp add: empty_database_def sample_sla_def sla_result_of_row_def)
qed

text \<open>Replaying a computation is harmless, but it does not restore it: when an outage already has
  the result of compute hash \<open>h\<close>, storing \<open>h\<close> again returns that old row and leaves the database as it is, so
  the authoritative result stays whatever was stored last.\<close>

theorem create_sla_replay_is_noop:
  assumes "r_compute_hash x = Some h" and "h \<noteq> []"
    and "find_by_compute_hash (r_outage_id x) h db = Some r"
  shows "create_sla env x db = (Inr (sla_result_of_row r), db) \<and>
         create_if_changed env x db = (Inr (sla_result_of_row r), db)"
  using assms by (simp add: create_sla_def create_if_changed_def Let_def)

theorem create_sla_replay_is_noop_witness:
  "\<exists>db x r. r_compute_hash x = Some ''a'' \<and> create_sla (sample_env 5) x db = (Inr (sla_result_of_row r), db) \<and>
     get_by_outage ''o'' db \<noteq> Some (sla_result_of_row r)"
proof -
  let ?r = "(sample_sla 1 ''o'')\<lparr>s_compute_hash := Some ''a'', s_is_latest := False\<rparr>"
  let ?q = "(sample_sla 2 ''o'')\<lparr>s_compute_hash := Some ''b''\<rparr>"
  let ?db = "empty_database\<lparr>sla_results := [?r, ?q]\<rparr>"
  have "find_by_compute_hash (r_outage_id (sla_result_of_row ?r)) ''a'' ?db = Some ?r"
    by (simp add: find_by_compute_hash_def sla_result_of_row_def sample_sla_def)
  from create_sla_replay_is_noop [OF _ _ this, of "sample_env 5"] have
    "create_sla (sample_env 5) (sla_result_of_row ?r) ?db = (Inr (sla_result_of_row ?r), ?db)"
    by (simp add: sla_result_of_row_def)
  moreover have "get_by_outage ''o'' ?db \<noteq> Some (sla_result_of_row ?r)"
    by (simp add: get_by_outage_def get_row_by_outage_def sample_sla_def sla_result_of_row_def)
  moreover have "r_compute_hash (sla_result_of_row ?r) = Some ''a''" by (simp add: sla_result_of_row_def)
  ultimately show ?thesis by blast
qed

text \<open>Amounts carry the sign of their payment type, as the calculator produces them.\<close>

definition signed_ok :: "sla_row list \<Rightarrow> bool" where
  "signed_ok rs \<longleftrightarrow> list_all (\<lambda>r. s_payment_type r = Penalty \<longrightarrow> s_amount r \<le> 0) rs"

lemma net_is_sum: "signed_ok rs \<Longrightarrow> total_rewards rs - total_penalties rs = sum_list (map s_amount rs)"
proof (induction rs)
  case (Cons r rs)
  then show ?case by (cases "s_payment_type r") (auto simp: total_rewards_def total_penalties_def signed_ok_def)
qed (simp add: total_rewards_def total_penalties_def)

lemma join_all:
  assumes "distinct (map o_id (outages db))" and "\<forall>s \<in> set rs. \<exists>r \<in> set (outages db). o_id r = s_outage_id s"
  shows "join_outages (\<lambda>_. True) db rs = rs"
proof -
  have "map (\<lambda>_. s) (filter (\<lambda>r. o_id r = s_outage_id s) (outages db)) = [s]" if s: "s \<in> set rs" for s
  proof -
    from assms(2) s obtain r where r: "r \<in> set (outages db)" "o_id r = s_outage_id s" by blast
    with distinct_map_filter_one [OF assms(1) r(1)] show ?thesis by simp
  qed
  then have "join_outages (\<lambda>_. True) db rs = concat (map (\<lambda>s. [s]) rs)"
    by (simp add: join_outages_def cong: map_cong)
  then show ?thesis by simp
qed

lemma row_number_one_all:
  assumes "distinct (map s_outage_id rs)"
  shows "filter (row_number_one rs) rs = rs"
proof -
  have "row_number_one rs r" if "r \<in> set rs" for r
    unfolding row_number_one_def list_all_iff
    using assms that by (metis find_key_unique option.inject order_refl)
  then show ?thesis by (simp add: filter_id_conv)
qed

definition references_ok :: "database \<Rightarrow> bool" where
  "references_ok db \<longleftrightarrow> (\<forall>s \<in> set (sla_results db). \<exists>r \<in> set (outages db). o_id r = s_outage_id s)"

lemma performance_rows:
  fixes env day db
  defines "rs \<equiv> filter (\<lambda>r. s_is_latest r \<and> scan_start env day \<le> s_created_at r) (sla_results db)"
  assumes "schema_ok db" and "references_ok db"
  shows "aggregate_performance env day None None None None db =
           \<lparr>ag_total_outages = int (length rs),
            ag_violation_rate = round_to 4 (if rs = [] then 0 else of_int (violations rs) / of_int (int (length rs))),
            ag_avg_mttr = round_to 2 (if rs = [] then 0 else of_int (sum_list (map s_mttr_minutes rs)) / of_int (int (length rs))),
            ag_payout_sum = sum_list (map s_amount rs)\<rparr>"
proof -
  have rs: "filter (\<lambda>r. scan_start env day \<le> s_created_at r \<and> s_is_latest r) (sla_results db) = rs"
    unfolding rs_def by (rule filter_cong) auto
  have matches: "outage_matches None None = (\<lambda>_. True)" by (simp add: outage_matches_def fun_eq_iff)
  have join: "join_outages (\<lambda>_. True) db rs = rs"
    using assms(2,3) by (intro join_all) (auto simp: schema_ok_def references_ok_def rs_def)
  have "distinct (map s_outage_id rs)"
  proof -
    have "rs = filter (\<lambda>r. scan_start env day \<le> s_created_at r) (filter s_is_latest (sla_results db))"
      by (simp add: rs_def conj_commute)
    moreover have "distinct (map s_outage_id (filter s_is_latest (sla_results db)))"
      using assms(2) by (simp add: schema_ok_def at_most_one_latest_def)
    ultimately show ?thesis by (metis distinct_map_filter)
  qed
  then show ?thesis
    by (simp add: aggregate_performance_def Let_def rs matches join row_number_one_all)
qed

text \<open>The two dashboards agree: over a consistent schema in which every result belongs to an outage
  and penalties are not positive, the unfiltered KPI endpoint and the performance endpoint count the
  same outages, and the net payout of the one is the payout sum of the other.\<close>

theorem dashboard_agrees_with_performance:
  assumes "schema_ok db" and "references_ok db" and "signed_ok (sla_results db)"
  shows "k_total_outages (aggregate_dashboard_kpis env day None None db)
           = ag_total_outages (aggregate_performance env day None None None None db) \<and>
         k_net_payout (aggregate_dashboard_kpis env day None None db)
           = ag_payout_sum (aggregate_performance env day None None None None db)"
proof -
  let ?rs = "filter (\<lambda>r. s_is_latest r \<and> scan_start env day \<le> s_created_at r) (sla_results db)"
  have "signed_ok ?rs" using assms(3) by (simp add: signed_ok_def list_all_iff)
  from net_is_sum [OF this] show ?thesis
    by (simp add: performance_rows [OF assms(1,2)] aggregate_dashboard_kpis_def recent_latest_def Let_def)
qed

theorem dashboard_agrees_with_performance_witness:
  "k_net_payout (aggregate_dashboard_kpis (sample_env 5) 1 None None
      (empty_database\<lparr>outages := [sample_outage ''o'' Resolved 1], sla_results := [sample_sla 1 ''o''], next_sla_id := 2\<rparr>)) =
   ag_payout_sum (aggregate_performance (sample_env 5) 1 None None None None
      (empty_database\<lparr>outages := [sample_outage ''o'' Resolved 1], sla_results := [sample_sla 1 ''o''], next_sla_id := 2\<rparr>))"
proof -
  let ?db = "empty_database\<lparr>outages := [sample_outage ''o'' Resolved 1], sla_results := [sample_sla 1 ''o''], next_sla_id := 2\<rparr>"
  have "schema_ok ?db" "references_ok ?db" "signed_ok (sla_results ?db)"
    by (simp_all add: schema_ok_def references_ok_def signed_ok_def empty_database_def sample_sla_def
        sample_outage_def at_most_one_latest_def unique_key_def)
  from dashboard_agrees_with_performance [OF this] show ?thesis by blast
qed

text \<open>Trends by day, week or month cannot separate results: the creation time of a stored result is the
  column default, which is read once when the module is imported, so after any number of results
  stored by one process into an empty table every trend query has at most one point.\<close>

theorem trends_collapse_to_process_start:
  assumes "\<forall>(env, x) \<in> set calls. process_start env = t0"
    and "aggregate_trends known_tz trunc e day limit_days bucket tz None None
           (fold (\<lambda>(env, x) db. snd (create_sla env x db)) calls empty_database) = Inr points"
  shows "length points \<le> 1"
proof -
  have all: "\<forall>r \<in> set (sla_results (fold (\<lambda>(env, x) db. snd (create_sla env x db)) calls db)). s_created_at r = t0"
    if "\<forall>(env, x) \<in> set calls. process_start env = t0" "\<forall>r \<in> set (sla_results db). s_created_at r = t0" for calls db
    using that
  proof (induction calls arbitrary: db)
    case (Cons c calls)
    obtain env x where c: "c = (env, x)" by fastforce
    have "\<forall>r \<in> set (sla_results (snd (create_sla env x db))). s_created_at r = t0"
      using Cons.prems c by (auto simp: create_sla_alt demote_latest_map unflag_def new_sla_row_def split: option.splits)
    with Cons c show ?case by simp
  qed simp
  let ?db = "fold (\<lambda>(env, x) db. snd (create_sla env x db)) calls empty_database"
  have "\<forall>r \<in> set (sla_results ?db). s_created_at r = t0"
    by (rule all [OF assms(1)]) (simp add: empty_database_def)
  then have "set (map (\<lambda>r. trunc bucket tz (s_created_at r)) (recent_latest e day None None ?db)) \<subseteq> {trunc bucket tz t0}"
    by (auto simp: recent_latest_def Let_def)
  then have "length (remdups (map (\<lambda>r. trunc bucket tz (s_created_at r)) (recent_latest e day None None ?db))) \<le> 1"
    using card_mono [of "{trunc bucket tz t0}"] by (simp add: length_remdups_card_conv)
  with assms(2) show ?thesis by (auto simp: aggregate_trends_def Let_def split: if_splits)
qed

theorem trends_collapse_to_process_start_witness:
  "\<exists>points. aggregate_trends (\<lambda>_. True) (\<lambda>b tz t. t) (sample_env 900) 10 7 ''day'' ''UTC'' None None
       (fold (\<lambda>(env, x) db. snd (create_sla env x db))
          [(sample_env 100, sla_result_of_row (sample_sla 1 ''a'')), (sample_env 800, sla_result_of_row (sample_sla 1 ''b''))]
          empty_database) = Inr points \<and> length points \<le> 1"
proof -
  let ?calls = "[(sample_env 100, sla_result_of_row (sample_sla 1 ''a'')), (sample_env 800, sla_result_of_row (sample_sla 1 ''b''))]"
  have "\<forall>(env, x) \<in> set ?calls. process_start env = 0" by (simp add: sample_env_def)
  moreover obtain points where
    "aggregate_trends (\<lambda>_. True) (\<lambda>b tz t. t) (sample_env 900) 10 7 ''day'' ''UTC'' None None
       (fold (\<lambda>(env, x) db. snd (create_sla env x db)) ?calls empty_database) = Inr points"
    by (simp add: aggregate_trends_def Let_def)
  ultimately show ?thesis using trends_collapse_to_process_start by blast
qed

lemma get_latest_snapshot_snoc:
  "\<forall>s \<in> set snaps. sn_created_at s < sn_created_at new \<Longrightarrow> get_latest_snapshot (sn_key new) (snaps @ [new]) = Some new"
  by (simp add: get_latest_snapshot_def first_desc_snoc_max)

lemma create_snapshot_row:
  "\<exists>new. create_snapshot repr iso_written env day key db snaps = (new, snaps @ [new]) \<and> sn_key new = key \<and>
     sn_created_at new = now env \<and> sn_checksum new = compute_checksum (sha256 (auditing env)) repr iso_written new"
  by (simp add: create_snapshot_def Let_def compute_checksum_def snapshot_document_def)

text \<open>A snapshot taken after all earlier ones verifies exactly when the timestamp that is read back
  renders as it did when the checksum was taken.  The checksum is computed over the naive timestamp
  and checked over the one loaded from a time-zone-aware column, so wherever the two renderings differ
  every fresh snapshot is reported as tampered with (for a collision-free digest).\<close>

theorem fresh_snapshot_intact_iff:
  assumes "\<forall>s \<in> set snaps. sn_created_at s < now env" and "inj (sha256 (auditing env))"
    and "create_snapshot repr iso_written env day key db snaps = (new, snaps')"
  shows "verify_snapshot_integrity repr iso_read env key snaps' =
           (if json_string_ascii (iso_read (now env)) = json_string_ascii (iso_written (now env))
            then Intact (sn_id new) else Tampered (sn_id new))"
proof -
  from create_snapshot_row [of repr iso_written env day key db snaps] assms(3)
  have new: "snaps' = snaps @ [new]" "sn_key new = key" "sn_created_at new = now env"
    "sn_checksum new = compute_checksum (sha256 (auditing env)) repr iso_written new" by auto
  with get_latest_snapshot_snoc [of snaps new] assms(1) have "get_latest_snapshot key snaps' = Some new" by simp
  moreover have "compute_checksum (sha256 (auditing env)) repr iso_read new = sn_checksum new \<longleftrightarrow>
      json_string_ascii (iso_read (now env)) = json_string_ascii (iso_written (now env))"
    using assms(2) by (simp add: new inj_eq compute_checksum_def snapshot_document_def)
  ultimately show ?thesis by (simp add: verify_snapshot_integrity_def)
qed

theorem fresh_snapshot_intact_iff_witness:
  "\<exists>new. create_snapshot (\<lambda>_. ''0.0'') py_str_int (sample_env 5) 1 ''global'' empty_database [] = (new, [new]) \<and>
     verify_snapshot_integrity (\<lambda>_. ''0.0'') (\<lambda>t. py_str_int t @ ''+00:00'') (sample_env 5) ''global'' [new] = Tampered (sn_id new)"
proof -
  obtain new where new: "create_snapshot (\<lambda>_. ''0.0'') py_str_int (sample_env 5) 1 ''global'' empty_database [] = (new, [new])"
    using create_snapshot_row [of "\<lambda>_. ''0.0''" py_str_int "sample_env 5" 1 "''global''" empty_database "[]"] by auto
  have "inj (sha256 (auditing (sample_env 5)))" by (simp add: sample_env_def)
  from fresh_snapshot_intact_iff [OF _ this new, of "\<lambda>t. py_str_int t @ ''+00:00''"] new show ?thesis
    by (simp add: json_string_ascii_def escape_ascii_def escape_char_def)
qed

text \<open>Reconciling right after taking a snapshot reports no drift and no recommendation to rebuild;
  rebuilding takes the same snapshot as creating.\<close>

theorem reconcile_after_snapshot_ok:
  assumes "\<forall>s \<in> set snaps. sn_created_at s < now env"
    and "rebuild_snapshot repr iso_fmt env day key db snaps = (new, snaps')"
  shows "rc_drift_detected (reconcile_snapshots env day key db snaps') = Some False \<and>
         rc_recommendation (reconcile_snapshots env day key db snaps') = ''ok'' \<and>
         create_snapshot repr iso_fmt env day key db snaps = (new, snaps')"
proof -
  let ?kpis = "aggregate_dashboard_kpis env day None None db"
  let ?perf = "aggregate_performance env day None None None None db"
  have same: "create_snapshot repr iso_fmt env day key db snaps = (new, snaps')"
    using assms(2) by (simp add: create_snapshot_def rebuild_snapshot_def)
  then have new: "snaps' = snaps @ [new]" "sn_key new = key" "sn_created_at new = now env"
    "sn_total_outages new = k_total_outages ?kpis" "sn_total_violations new = k_total_violations ?kpis"
    "sn_total_rewards new = k_total_rewards ?kpis" "sn_total_penalties new = k_total_penalties ?kpis"
    "sn_net_payout new = k_net_payout ?kpis" "sn_avg_mttr new = ag_avg_mttr ?perf"
    by (auto simp: create_snapshot_def Let_def)
  with get_latest_snapshot_snoc [of snaps new] assms(1) have "get_latest_snapshot key snaps' = Some new" by simp
  with same show ?thesis by (simp add: reconcile_snapshots_def Let_def new)
qed

theorem reconcile_after_snapshot_ok_witness:
  "\<exists>new. rc_recommendation (reconcile_snapshots (sample_env 5) 1 ''global''
      (empty_database\<lparr>sla_results := [sample_sla 1 ''o'']\<rparr>) [new]) = ''ok''"
proof -
  let ?db = "empty_database\<lparr>sla_results := [sample_sla 1 ''o'']\<rparr>"
  obtain new where new: "rebuild_snapshot (\<lambda>_. ''0.0'') py_str_int (sample_env 5) 1 ''global'' ?db [] = (new, [new])"
    by (simp add: rebuild_snapshot_def Let_def)
  from reconcile_after_snapshot_ok [OF _ new] show ?thesis by (intro exI [of _ new]) simp
qed

end
