(* ===== verification/Payments.thy ===== *)
theory Payments
  imports Sla_Store "HOL-Library.Product_Lexorder"
begin

text \<open>
  Payments: the status policy of \<^verbatim>\<open>app/models/payment.py\<close>, the repository
  \<^verbatim>\<open>app/repositories/payment_repository.py\<close>, the replay store
  \<^verbatim>\<open>app/services/single_use_token_store.py\<close> and the handlers of
  \<^verbatim>\<open>app/api/v1/endpoints/payments.py\<close>.  The status policy is used through the locale
  \<open>status_machine\<close>, the replay store through \<open>single_use\<close>.
\<close>

section \<open>Status policy\<close>

datatype payment_status = Pending | Confirmed | Failed

fun payment_status_value :: "payment_status \<Rightarrow> str" where
  "payment_status_value Pending = ''pending''"
| "payment_status_value Confirmed = ''confirmed''"
| "payment_status_value Failed = ''failed''"

text \<open>\<open>PaymentStatus(value)\<close>, which raises on an unknown value.\<close>

definition payment_status_of :: "str \<Rightarrow> payment_status option" where
  "payment_status_of s =
     (if s = ''pending'' then Some Pending else if s = ''confirmed'' then Some Confirmed
      else if s = ''failed'' then Some Failed else None)"

fun valid_transitions :: "payment_status \<Rightarrow> payment_status list" where
  "valid_transitions Pending = [Confirmed, Failed]"
| "valid_transitions Confirmed = []"
| "valid_transitions Failed = [Pending]"

definition validate_transition :: "str \<Rightarrow> str \<Rightarrow> exn + unit" where
  "validate_transition current next_status =
     (case (payment_status_of current, payment_status_of next_status) of
        (Some c, Some n) \<Rightarrow>
          if n \<in> set (valid_transitions c) then Inr () else Inl (PaymentTransitionError current next_status)
      | _ \<Rightarrow> Inl (PaymentTransitionError current next_status))"

section \<open>Repository\<close>

definition get_payment_row :: "str \<Rightarrow> database \<Rightarrow> payment_row option" where
  "get_payment_row k db = find (\<lambda>p. p_id p = k) (payments db)"

text \<open>
  \<open>create\<close>: the insert fails on a clash of the primary key, of the transaction hash or of a present SLA
  result id.  Retry columns take their defaults.
\<close>

definition create_payment :: "payment_row \<Rightarrow> database \<Rightarrow> (payment_row, database) outcome" where
  "create_payment data db =
     (let orm = data\<lparr>p_retry_count := 0, p_last_retried_at := None\<rparr> in
      if list_ex (\<lambda>p. p_id p = p_id orm \<or> p_transaction_hash p = p_transaction_hash orm \<or>
                     p_sla_result_id orm \<noteq> None \<and> p_sla_result_id p = p_sla_result_id orm) (payments db)
      then (Inl IntegrityError, db)
      else (Inr orm, db\<lparr>payments := payments db @ [orm]\<rparr>))"

definition get_by_sla_result :: "int \<Rightarrow> database \<Rightarrow> payment_row option" where
  "get_by_sla_result i db = find (\<lambda>p. p_sla_result_id p = Some i) (payments db)"

record payment_filter =
  pf_status :: "str option"
  pf_outage_id :: "str option"
  pf_type :: "str option"
  pf_date_from :: "time option"
  pf_date_to :: "time option"

definition matches_payment :: "payment_filter \<Rightarrow> payment_row \<Rightarrow> bool" where
  "matches_payment f p \<longleftrightarrow>
     (truthy (pf_status f) \<longrightarrow> pf_status f = Some (p_status p)) \<and>
     (truthy (pf_outage_id f) \<longrightarrow> pf_outage_id f = p_outage_id p) \<and>
     (truthy (pf_type f) \<longrightarrow> pf_type f = Some (p_type p)) \<and>
     (case pf_date_from f of None \<Rightarrow> True | Some d \<Rightarrow> d \<le> p_created_at p) \<and>
     (case pf_date_to f of None \<Rightarrow> True | Some d \<Rightarrow> p_created_at p \<le> d)"

datatype payment_sort_field = By_created_at | By_amount | By_status

fun payment_sort_value :: "payment_sort_field \<Rightarrow> payment_row \<Rightarrow> int \<times> str" where
  "payment_sort_value By_created_at p = (p_created_at p, [])"
| "payment_sort_value By_amount p = (p_amount p, [])"
| "payment_sort_value By_status p = (0, p_status p)"

definition order_payments :: "payment_sort_field \<Rightarrow> bool \<Rightarrow> payment_row list \<Rightarrow> payment_row list" where
  "order_payments fld ascending ps =
     (if ascending then sort_key (payment_sort_value fld) ps else sort_desc (payment_sort_value fld) ps)"

definition list_payment_rows ::
  "nat \<Rightarrow> nat \<Rightarrow> payment_filter \<Rightarrow> payment_sort_field \<Rightarrow> bool \<Rightarrow> database \<Rightarrow> payment_row list \<times> nat" where
  "list_payment_rows page page_size f fld ascending db =
     (let matching = order_payments fld ascending (filter (matches_payment f) (payments db));
          items = page_slice page page_size matching in
      (items, if items \<noteq> [] then length matching else 0))"

definition list_payments_by_outage :: "str \<Rightarrow> database \<Rightarrow> payment_row list" where
  "list_payments_by_outage k db = filter (\<lambda>p. p_outage_id p = Some k) (payments db)"

text \<open>The ORM object found by id, mutated and committed.\<close>

definition save_payment :: "str \<Rightarrow> (payment_row \<Rightarrow> payment_row) \<Rightarrow> database \<Rightarrow> database" where
  "save_payment k f db = db\<lparr>payments := update_first (\<lambda>p. p_id p = k) f (payments db)\<rparr>"

definition update_status :: "str \<Rightarrow> str \<Rightarrow> database \<Rightarrow> payment_row option \<times> database" where
  "update_status k status db =
     (case get_payment_row k db of
        None \<Rightarrow> (None, db)
      | Some p \<Rightarrow> (Some (p\<lparr>p_status := status\<rparr>), save_payment k (\<lambda>p. p\<lparr>p_status := status\<rparr>) db))"

definition new_payment :: "env \<Rightarrow> nat \<Rightarrow> str \<Rightarrow> int \<Rightarrow> sla_result \<Rightarrow> payment_row" where
  "new_payment env n outage_id i x =
     \<lparr>p_id = ''pay_'' @ take 12 (uuid4_hex env n), p_transaction_hash = ''simulated-'' @ uuid4_hex env (n + 1),
      p_type = payment_type_value (r_payment_type x), p_amount = \<bar>r_amount x\<bar>,
      p_asset_code = payment_asset_code env, p_from_address = payment_from_address env,
      p_to_address = payment_to_address env, p_status = ''pending'', p_outage_id = Some outage_id,
      p_sla_result_id = Some i, p_created_at = now env, p_confirmed_at = None, p_retry_count = 0,
      p_last_retried_at = None\<rparr>"

definition create_for_sla_result :: "env \<Rightarrow> str \<Rightarrow> sla_result \<Rightarrow> database \<Rightarrow> (payment_row, database) outcome" where
  "create_for_sla_result env outage_id x db =
     (case r_id x of
        None \<Rightarrow> (Inl ValueError, db)
      | Some i \<Rightarrow>
          (case get_by_sla_result i db of
             Some existing \<Rightarrow> (Inr existing, db)
           | None \<Rightarrow>
               create_payment (new_payment env (uuid_count db) outage_id i x)
                 (db\<lparr>uuid_count := uuid_count db + 2\<rparr>)))"

definition MAX_RETRIES :: int where "MAX_RETRIES = 3"

definition set_reconciled :: "time \<Rightarrow> str \<Rightarrow> payment_row \<Rightarrow> payment_row" where
  "set_reconciled t new_status p =
     (let p' = p\<lparr>p_status := new_status\<rparr> in
      if new_status = ''confirmed'' then p'\<lparr>p_confirmed_at := Some t\<rparr> else p')"

definition reconcile :: "time \<Rightarrow> str \<Rightarrow> str \<Rightarrow> database \<Rightarrow> (payment_row option, database) outcome" where
  "reconcile t k new_status db =
     (case get_payment_row k db of
        None \<Rightarrow> (Inr None, db)
      | Some p \<Rightarrow>
          (case validate_transition (p_status p) new_status of
             Inl e \<Rightarrow> (Inl e, db)
           | Inr _ \<Rightarrow> (Inr (Some (set_reconciled t new_status p)), save_payment k (set_reconciled t new_status) db)))"

definition set_retried :: "time \<Rightarrow> payment_row \<Rightarrow> payment_row" where
  "set_retried t p = p\<lparr>p_retry_count := p_retry_count p + 1, p_last_retried_at := Some t, p_status := ''pending''\<rparr>"

definition retry :: "time \<Rightarrow> str \<Rightarrow> database \<Rightarrow> (payment_row option, database) outcome" where
  "retry t k db =
     (case get_payment_row k db of
        None \<Rightarrow> (Inr None, db)
      | Some p \<Rightarrow>
          if p_retry_count p \<ge> MAX_RETRIES then (Inr None, db)
          else
            (case validate_transition (p_status p) ''pending'' of
               Inl e \<Rightarrow> (Inl e, db)
             | Inr _ \<Rightarrow> (Inr (Some (set_retried t p)), save_payment k (set_retried t) db)))"

definition HISTORY_EVENT_TYPES :: "str list" where
  "HISTORY_EVENT_TYPES = [''payment_reconciled'', ''payment_retried'']"

text \<open>The audit rows of one payment, oldest first; an empty details object is falsy.\<close>

definition history_rows :: "str \<Rightarrow> database \<Rightarrow> audit_row list" where
  "history_rows k db =
     filter (\<lambda>r. a_details r \<noteq> [] \<and> map_of (a_details r) ''id'' = Some (JStr k))
       (sort_key a_created_at (filter (\<lambda>r. a_event_type r \<in> set HISTORY_EVENT_TYPES) (rows (audit db))))"

definition get_payment_history :: "str \<Rightarrow> database \<Rightarrow> (str \<times> str option \<times> (str \<times> json) list \<times> time) list" where
  "get_payment_history k db =
     map (\<lambda>r. (a_event_type r, a_email r, a_details r, a_created_at r)) (history_rows k db)"

record history_item =
  h_event_type :: str
  h_actor :: "str option"
  h_previous_status :: "json option"
  h_new_status :: "json option"
  h_timestamp :: time
  h_details :: "(str \<times> json) list option"

fun json_falsy :: "json \<Rightarrow> bool" where
  "json_falsy JNull = True"
| "json_falsy (JBool b) = (\<not> b)"
| "json_falsy (JInt i) = (i = 0)"
| "json_falsy (JStr s) = (s = [])"
| "json_falsy (JList xs) = (xs = [])"
| "json_falsy (JObj kvs) = (kvs = [])"

definition get_reconciliation_history :: "str \<Rightarrow> database \<Rightarrow> history_item list" where
  "get_reconciliation_history k db =
     map (\<lambda>r. \<lparr>h_event_type = a_event_type r, h_actor = a_email r,
         h_previous_status = map_of (a_details r) ''previous_status'',
         h_new_status = (case map_of (a_details r) ''status'' of
            Some v \<Rightarrow> if json_falsy v then map_of (a_details r) ''new_status'' else Some v
          | None \<Rightarrow> map_of (a_details r) ''new_status''),
         h_timestamp = a_created_at r,
         h_details = (let d = filter (\<lambda>(k, v). k \<notin> {''previous_status'', ''status'', ''new_status'', ''id''}) (a_details r)
                      in if d = [] then None else Some d)\<rparr>) (history_rows k db)"

section \<open>Single-use tokens\<close>

record token_store =
  fallback :: "(str \<times> time) list"
  disabled_until :: time

definition CIRCUIT_OPEN_TTL_SECONDS :: time where "CIRCUIT_OPEN_TTL_SECONDS = 30"
definition MAX_FALLBACK_TOKENS :: nat where "MAX_FALLBACK_TOKENS = 50000"
definition CALLBACK_NONCE_TTL_SECONDS :: time where "CALLBACK_NONCE_TTL_SECONDS = 300"

definition consume_fallback :: "time \<Rightarrow> time \<Rightarrow> str \<Rightarrow> token_store \<Rightarrow> bool \<times> token_store" where
  "consume_fallback ttl t token st =
     (let kept = (if length (fallback st) \<ge> MAX_FALLBACK_TOKENS
                  then filter (\<lambda>(k, ts). \<not> ts < t - ttl) (fallback st) else fallback st) in
      if token \<in> fst ` set kept then (True, st\<lparr>fallback := kept\<rparr>)
      else (False, st\<lparr>fallback := kept @ [(token, t)]\<rparr>))"

text \<open>
  \<open>consume\<close>.  The reply of \<open>SET key NX EX ttl\<close> is an argument: \<open>None\<close> when Redis raises, else
  whether the key was set.
\<close>

definition consume :: "bool \<Rightarrow> time \<Rightarrow> bool option \<Rightarrow> time \<Rightarrow> str \<Rightarrow> token_store \<Rightarrow> bool \<times> token_store" where
  "consume broker_configured ttl redis_set_nx t token st =
     (if \<not> broker_configured then consume_fallback ttl t token st
      else if \<not> t < disabled_until st then
        (case redis_set_nx of
           Some was_set \<Rightarrow> (\<not> was_set, st)
         | None \<Rightarrow> consume_fallback ttl t token (st\<lparr>disabled_until := t + CIRCUIT_OPEN_TTL_SECONDS\<rparr>))
      else consume_fallback ttl t token st)"

section \<open>Handlers\<close>

record payment_page =
  pp_items :: "payment_row list"
  pp_total :: nat
  pp_page :: nat
  pp_page_size :: nat

text \<open>
  \<open>list_payments\<close>: the cursor branch calls \<open>repo.list_cursor\<close>, which the repository does not define.
\<close>

definition list_payments ::
  "nat \<Rightarrow> nat \<Rightarrow> str option \<Rightarrow> payment_filter \<Rightarrow> payment_sort_field \<Rightarrow> bool \<Rightarrow> database \<Rightarrow> exn + payment_page" where
  "list_payments page page_size cursor f fld ascending db =
     (if (case (pf_date_from f, pf_date_to f) of (Some a, Some b) \<Rightarrow> a > b | _ \<Rightarrow> False) then Inl (HTTPError 400)
      else if cursor \<noteq> None then Inl AttributeError
      else (let (items, total) = list_payment_rows page page_size f fld ascending db in
            Inr \<lparr>pp_items = items, pp_total = total, pp_page = page, pp_page_size = page_size\<rparr>))"

definition export_payments :: "str \<Rightarrow> payment_filter \<Rightarrow> database \<Rightarrow> exn + payment_row list" where
  "export_payments fmt f db =
     (if py_lower fmt \<notin> {''json'', ''csv''} then Inl (HTTPError 400)
      else Inr (fst (list_payment_rows 1 10000 f By_created_at False db)))"

definition get_payment :: "str \<Rightarrow> database \<Rightarrow> exn + payment_row" where
  "get_payment k db = (case get_payment_row k db of None \<Rightarrow> Inl (HTTPError 404) | Some p \<Rightarrow> Inr p)"

definition payment_history_endpoint ::
  "str \<Rightarrow> database \<Rightarrow> exn + (str \<times> str option \<times> (str \<times> json) list \<times> time) list" where
  "payment_history_endpoint k db =
     (case get_payment_row k db of None \<Rightarrow> Inl (HTTPError 404) | Some _ \<Rightarrow> Inr (get_payment_history k db))"

text \<open>The response model requires \<open>new_status\<close> to be a string; anything else is a validation error.\<close>

definition history_item_valid :: "history_item \<Rightarrow> bool" where
  "history_item_valid h \<longleftrightarrow>
     (case h_previous_status h of None \<Rightarrow> True | Some JNull \<Rightarrow> True | Some (JStr _) \<Rightarrow> True | _ \<Rightarrow> False) \<and>
     (case h_new_status h of Some (JStr _) \<Rightarrow> True | _ \<Rightarrow> False)"

definition reconciliation_history_endpoint :: "str \<Rightarrow> database \<Rightarrow> exn + (str \<times> str \<times> history_item list)" where
  "reconciliation_history_endpoint k db =
     (case get_payment_row k db of
        None \<Rightarrow> Inl (HTTPError 404)
      | Some p \<Rightarrow>
          (let history = get_reconciliation_history k db in
           if list_all history_item_valid history then Inr (k, p_status p, history) else Inl ValueError))"

definition reconcile_payment :: "env \<Rightarrow> str \<Rightarrow> str \<Rightarrow> database \<Rightarrow> (payment_row, database) outcome" where
  "reconcile_payment env k status db =
     (case get_payment_row k db of
        None \<Rightarrow> (Inl (HTTPError 404), db)
      | Some existing \<Rightarrow>
          (case reconcile (now env) k status db of
             (Inl (PaymentTransitionError _ _), db') \<Rightarrow> (Inl (HTTPError 422), db')
           | (Inl e, db') \<Rightarrow> (Inl e, db')
           | (Inr None, db') \<Rightarrow> (Inl (HTTPError 404), db')
           | (Inr (Some p), db') \<Rightarrow>
               (Inr p, audit_log_event env ''payment_reconciled''
                  [(''id'', JStr k), (''previous_status'', JStr (p_status existing)), (''status'', JStr status)] db')))"

text \<open>\<open>retry_payment\<close> and the administrator's \<open>retry_now\<close> differ in the audit details only.\<close>

definition retry_with_details ::
  "env \<Rightarrow> str \<Rightarrow> (payment_row \<Rightarrow> (str \<times> json) list) \<Rightarrow> database \<Rightarrow> (payment_row, database) outcome" where
  "retry_with_details env k details db =
     (case get_payment_row k db of
        None \<Rightarrow> (Inl (HTTPError 404), db)
      | Some existing \<Rightarrow>
          (case retry (now env) k db of
             (Inl (PaymentTransitionError _ _), db') \<Rightarrow> (Inl (HTTPError 422), db')
           | (Inl e, db') \<Rightarrow> (Inl e, db')
           | (Inr None, db') \<Rightarrow> (Inl (HTTPError 409), db')
           | (Inr (Some p), db') \<Rightarrow> (Inr p, audit_log_event env ''payment_retried'' (details p) db')))"

definition retry_payment :: "env \<Rightarrow> str \<Rightarrow> database \<Rightarrow> (payment_row, database) outcome" where
  "retry_payment env k db =
     retry_with_details env k (\<lambda>p. [(''id'', JStr k), (''retry_count'', JInt (p_retry_count p)), (''override'', JBool False)]) db"

definition retry_now :: "env \<Rightarrow> str \<Rightarrow> str \<Rightarrow> database \<Rightarrow> (payment_row, database) outcome" where
  "retry_now env email k db =
     retry_with_details env k (\<lambda>p. [(''id'', JStr k), (''retry_count'', JInt (p_retry_count p)),
        (''actor'', JStr email), (''override'', JBool True)]) db"

definition RETRY_BASE_SECONDS :: int where "RETRY_BASE_SECONDS = 30"
definition RETRY_MAX_SECONDS :: int where "RETRY_MAX_SECONDS = 3600"

definition retry_backoff :: "int \<Rightarrow> int" where
  "retry_backoff retry_count = min (RETRY_BASE_SECONDS * 2 ^ nat retry_count) RETRY_MAX_SECONDS"

definition compute_next_retry_at :: "time \<Rightarrow> time \<Rightarrow> int \<Rightarrow> time option \<Rightarrow> time option" where
  "compute_next_retry_at second t retry_count last_retried_at =
     (if retry_count \<ge> MAX_RETRIES then None
      else Some ((case last_retried_at of None \<Rightarrow> t | Some a \<Rightarrow> a) + retry_backoff retry_count * second))"

record retry_queue_item =
  q_payment :: payment_row
  q_next_retry_at :: "time option"
  q_backoff_seconds :: int

text \<open>\<open>list_retry_queue\<close>: the repository call keeps its default page of twenty, newest first.\<close>

definition list_retry_queue ::
  "time \<Rightarrow> time \<Rightarrow> (str \<times> time) option \<Rightarrow> nat \<Rightarrow> database \<Rightarrow> retry_queue_item list \<times> (str \<times> time) option \<times> bool" where
  "list_retry_queue second t cur lims db =
     (let items = fst (list_payment_rows 1 20 \<lparr>pf_status = Some ''failed'', pf_outage_id = None, pf_type = None,
            pf_date_from = None, pf_date_to = None\<rparr> By_created_at False db);
          items = (case cur of None \<Rightarrow> items
             | Some (cid, ct) \<Rightarrow> filter (\<lambda>p. p_created_at p < ct \<or> p_created_at p = ct \<and> p_id p < cid) items);
          page_items = take lims items;
          has_more = length items > lims;
          result = map (\<lambda>p. \<lparr>q_payment = p,
             q_next_retry_at = compute_next_retry_at second t (p_retry_count p) (p_last_retried_at p),
             q_backoff_seconds = retry_backoff (p_retry_count p)\<rparr>) page_items in
      (result,
       if has_more \<and> result \<noteq> [] then Some (p_id (last page_items), p_created_at (last page_items)) else None,
       has_more))"

definition callback_message :: "str \<Rightarrow> str \<Rightarrow> str option \<Rightarrow> str" where
  "callback_message transaction_id status nonce =
     transaction_id @ '':'' @ status @ '':'' @ (case nonce of None \<Rightarrow> [] | Some n \<Rightarrow> n)"

definition verify_callback_signature ::
  "(str \<Rightarrow> str \<Rightarrow> str) \<Rightarrow> str \<Rightarrow> str \<Rightarrow> str option \<Rightarrow> str \<Rightarrow> str \<Rightarrow> bool" where
  "verify_callback_signature hmac transaction_id status nonce signature secret \<longleftrightarrow>
     hmac secret (callback_message transaction_id status nonce) = signature"

record provider_callback_request =
  cb_transaction_id :: str
  cb_status :: str
  cb_provider_ref :: "str option"
  cb_nonce :: "str option"

record callback_env =
  cb_env :: env
  cb_hmac :: "str \<Rightarrow> str \<Rightarrow> str"
  cb_secret :: str
  cb_exc_text :: "exn \<Rightarrow> str"
  cb_iso :: "time \<Rightarrow> str"
  cb_second :: time
  cb_broker_configured :: bool
  cb_redis_set_nx :: "bool option"
  cb_monotonic :: time

definition callback_rejected :: "callback_env \<Rightarrow> str \<Rightarrow> provider_callback_request \<Rightarrow> (str \<times> json) list \<Rightarrow> database \<Rightarrow> database" where
  "callback_rejected ce event req extra db =
     audit_log_event (cb_env ce) event
       ([(''transaction_id'', JStr (cb_transaction_id req))] @ extra @ [(''provider_ref'', json_opt (cb_provider_ref req))]) db"

text \<open>\<open>provider_callback\<close>: the part after authentication and replay protection.\<close>

definition apply_callback ::
  "callback_env \<Rightarrow> provider_callback_request \<Rightarrow> str \<Rightarrow> database \<Rightarrow> (payment_row, database) outcome" where
  "apply_callback ce req nonce db =
     (let env = cb_env ce; k = cb_transaction_id req; status = cb_status req; ref = json_opt (cb_provider_ref req) in
      case get_payment_row k db of
        None \<Rightarrow> (Inl (HTTPError 404), callback_rejected ce ''callback_rejected_unknown_payment'' req [] db)
      | Some existing \<Rightarrow>
          if p_status existing = status then
            (Inr existing, audit_log_event env ''payment_provider_callback_duplicate''
               [(''transaction_id'', JStr k), (''provider_ref'', ref), (''nonce'', JStr nonce), (''status'', JStr status)] db)
          else
            (case reconcile (now env) k status db of
               (Inl e, db') \<Rightarrow>
                 (let context = [(''transaction_id'', JStr k), (''from_status'', JStr (p_status existing)),
                        (''to_status'', JStr status), (''provider_ref'', ref), (''error'', JStr (cb_exc_text ce e))] in
                  (Inl (HTTPError 422),
                   audit_log_event env ''payment_dead_letter'' (context @ [(''error_type'', JStr ''PaymentTransitionError'')])
                     (audit_log_event env ''callback_rejected_invalid_transition'' context db')))
             | (Inr None, db') \<Rightarrow> (Inl AttributeError, db')
             | (Inr (Some updated), db') \<Rightarrow>
                 (let db1 = audit_log_event env ''payment_provider_callback''
                        [(''id'', JStr k), (''status'', JStr status), (''provider_ref'', ref), (''nonce'', JStr nonce)] db' in
                  if status = ''failed'' \<and> p_retry_count updated < MAX_RETRIES then
                    (case retry (now env) k db1 of
                       (Inl e, db2) \<Rightarrow> (Inl e, db2)
                     | (Inr None, db2) \<Rightarrow> (Inr updated, db2)
                     | (Inr (Some p), db2) \<Rightarrow>
                         (Inr updated, audit_log_event env ''payment_auto_retry_scheduled''
                            [(''id'', JStr k), (''retry_count'', JInt (p_retry_count p)),
                             (''next_retry_at'', json_opt (map_option (cb_iso ce)
                                (compute_next_retry_at (cb_second ce) (now env) (p_retry_count p) (p_last_retried_at p))))] db2))
                  else (Inr updated, db1))))"

definition provider_callback ::
  "callback_env \<Rightarrow> provider_callback_request \<Rightarrow> str option \<Rightarrow> str option \<Rightarrow> database \<Rightarrow> token_store
    \<Rightarrow> (exn + payment_row) \<times> database \<times> token_store" where
  "provider_callback ce req x_webhook_signature x_callback_nonce db st =
     (let effective_nonce = py_or x_callback_nonce (cb_nonce req) in
      if \<not> truthy effective_nonce then
        (Inl (HTTPError 400), callback_rejected ce ''callback_rejected_missing_nonce'' req [] db, st)
      else if cb_secret ce \<noteq> [] \<and> \<not> truthy x_webhook_signature then
        (Inl (HTTPError 401), callback_rejected ce ''callback_rejected_missing_signature'' req [] db, st)
      else if cb_secret ce \<noteq> [] \<and>
          \<not> verify_callback_signature (cb_hmac ce) (cb_transaction_id req) (cb_status req) effective_nonce
              (the x_webhook_signature) (cb_secret ce) then
        (Inl (HTTPError 401), callback_rejected ce ''callback_rejected_bad_signature'' req [] db, st)
      else
        (case consume (cb_broker_configured ce) CALLBACK_NONCE_TTL_SECONDS (cb_redis_set_nx ce) (cb_monotonic ce)
                (the effective_nonce) st of
           (True, st') \<Rightarrow>
             (Inl (HTTPError 409),
              callback_rejected ce ''callback_rejected_replay'' req [(''nonce'', JStr (the effective_nonce))] db, st')
         | (False, st') \<Rightarrow>
             (case apply_callback ce req (the effective_nonce) db of (res, db') \<Rightarrow> (res, db', st'))))"

section \<open>Batched retry and conflict translation\<close>

definition build_retry_batch :: "'a list \<Rightarrow> nat \<Rightarrow> nat \<Rightarrow> 'a list \<times> bool \<times> nat" where
  "build_retry_batch failed_payment_ids cursor batch_size =
     (let end_pos = cursor + batch_size in
      (take batch_size (drop cursor failed_payment_ids), end_pos < length failed_payment_ids, end_pos))"

text \<open>\<open>create_or_get_existing_payment\<close>: a unique-constraint race becomes a conflict, after a rollback.\<close>

definition create_or_get_existing_payment ::
  "(database \<Rightarrow> (payment_row, database) outcome) \<Rightarrow> database \<Rightarrow> (payment_row, database) outcome" where
  "create_or_get_existing_payment create_fn db =
     (case create_fn db of
        (Inl IntegrityError, _) \<Rightarrow> (Inl PaymentAlreadyExists, db)
      | (Inl e, db') \<Rightarrow> (Inl e, db')
      | (Inr p, db') \<Rightarrow> (Inr p, db'))"

section \<open>The abstract machine of payments\<close>

text \<open>
  What the handlers promise about the table: a payment is added as pending with no retries, moves along
  the status policy, and is retried at most three times.
\<close>

inductive payment_move :: "payment_row list \<Rightarrow> payment_row list \<Rightarrow> bool" where
  added: "p_status p = ''pending'' \<Longrightarrow> p_retry_count p = 0 \<Longrightarrow> p_last_retried_at p = None \<Longrightarrow>
      p_confirmed_at p = None \<Longrightarrow> 0 \<le> p_amount p \<Longrightarrow> p_id p \<notin> p_id ` set ps \<Longrightarrow>
      p_transaction_hash p \<notin> p_transaction_hash ` set ps \<Longrightarrow>
      p_sla_result_id p = None \<or> p_sla_result_id p \<notin> p_sla_result_id ` set ps \<Longrightarrow>
      payment_move ps (ps @ [p])"
| reconciled: "find (\<lambda>p. p_id p = k) ps = Some p \<Longrightarrow> validate_transition (p_status p) s = Inr () \<Longrightarrow>
      payment_move ps (update_first (\<lambda>p. p_id p = k) (set_reconciled t s) ps)"
| retried: "find (\<lambda>p. p_id p = k) ps = Some p \<Longrightarrow> p_retry_count p < MAX_RETRIES \<Longrightarrow>
      validate_transition (p_status p) ''pending'' = Inr () \<Longrightarrow>
      payment_move ps (update_first (\<lambda>p. p_id p = k) (set_retried t) ps)"

inductive_cases payment_moveE: "payment_move ps ps'"

text \<open>A request to one of the handlers, in any environment.\<close>

inductive payment_step :: "database \<Rightarrow> database \<Rightarrow> bool" where
  settling: "payment_step db (snd (create_for_sla_result env outage_id x db))"
| reconciling: "payment_step db (snd (reconcile_payment env k s db))"
| retrying: "payment_step db (snd (retry_payment env k db))"
| overriding: "payment_step db (snd (retry_now env email k db))"
| calling_back: "payment_step db (fst (snd (provider_callback ce req sig nonce db st)))"

lemma p_id_set [simp]:
  "p_id (set_reconciled t s p) = p_id p" "p_id (set_retried t p) = p_id p"
  "p_sla_result_id (set_reconciled t s p) = p_sla_result_id p" "p_sla_result_id (set_retried t p) = p_sla_result_id p"
  "p_transaction_hash (set_reconciled t s p) = p_transaction_hash p" "p_transaction_hash (set_retried t p) = p_transaction_hash p"
  "p_amount (set_reconciled t s p) = p_amount p" "p_amount (set_retried t p) = p_amount p"
  "p_status (set_reconciled t s p) = s" "p_status (set_retried t p) = ''pending''"
  "p_retry_count (set_reconciled t s p) = p_retry_count p" "p_retry_count (set_retried t p) = p_retry_count p + 1"
  by (simp_all add: set_reconciled_def set_retried_def Let_def)

lemma reconcile_move:
  "payments (snd (reconcile t k s db)) = payments db \<or> payment_move (payments db) (payments (snd (reconcile t k s db)))"
proof (cases "get_payment_row k db")
  case (Some p)
  show ?thesis
  proof (cases "validate_transition (p_status p) s")
    case (Inr u)
    with Some show ?thesis
      using reconciled [of k "payments db" p s t] by (simp add: reconcile_def save_payment_def get_payment_row_def)
  qed (simp add: reconcile_def Some)
qed (simp add: reconcile_def)

lemma retry_move:
  "payments (snd (retry t k db)) = payments db \<or> payment_move (payments db) (payments (snd (retry t k db)))"
proof (cases "get_payment_row k db")
  case (Some p)
  show ?thesis
  proof (cases "validate_transition (p_status p) ''pending''")
    case (Inr u)
    with Some show ?thesis
      using retried [of k "payments db" p t] by (auto simp: retry_def save_payment_def get_payment_row_def)
  qed (simp add: retry_def Some)
qed (simp add: retry_def)

lemma create_for_sla_result_move:
  "payments (snd (create_for_sla_result env oid x db)) = payments db \<or>
   payment_move (payments db) (payments (snd (create_for_sla_result env oid x db)))"
proof (cases "r_id x")
  case (Some i)
  let ?p = "new_payment env (uuid_count db) oid i x"
  have p: "?p\<lparr>p_retry_count := 0, p_last_retried_at := None\<rparr> = ?p" by (simp add: new_payment_def)
  have "payment_move (payments db) (payments db @ [?p])"
    if "\<not> list_ex (\<lambda>p. p_id p = p_id ?p \<or> p_transaction_hash p = p_transaction_hash ?p \<or>
                     p_sla_result_id ?p \<noteq> None \<and> p_sla_result_id p = p_sla_result_id ?p) (payments db)"
  proof (rule added)
    show "p_id ?p \<notin> p_id ` set (payments db)" "p_transaction_hash ?p \<notin> p_transaction_hash ` set (payments db)"
      using that by (auto simp: list_ex_iff)
    show "p_sla_result_id ?p = None \<or> p_sla_result_id ?p \<notin> p_sla_result_id ` set (payments db)"
      using that by (auto simp: list_ex_iff)
  qed (simp_all add: new_payment_def)
  with Some show ?thesis
    by (auto simp: create_for_sla_result_def create_payment_def p Let_def split: option.splits)
qed (simp add: create_for_sla_result_def)

lemma callback_rejected_payments [simp]: "payments (callback_rejected ce ev req d db) = payments db"
  by (simp add: callback_rejected_def)

lemma apply_callback_payments:
  "payments (snd (apply_callback ce req nonce db)) = payments db \<or>
   payments (snd (apply_callback ce req nonce db)) = payments (snd (reconcile (now (cb_env ce)) (cb_transaction_id req) (cb_status req) db)) \<or>
   (\<exists>db1. payments db1 = payments (snd (reconcile (now (cb_env ce)) (cb_transaction_id req) (cb_status req) db)) \<and>
     payments (snd (apply_callback ce req nonce db)) = payments (snd (retry (now (cb_env ce)) (cb_transaction_id req) db1)))"
proof (cases "get_payment_row (cb_transaction_id req) db")
  case (Some p)
  obtain res db' where r: "reconcile (now (cb_env ce)) (cb_transaction_id req) (cb_status req) db = (res, db')"
    by fastforce
  define db1 where "db1 = audit_log_event (cb_env ce) ''payment_provider_callback''
     [(''id'', JStr (cb_transaction_id req)), (''status'', JStr (cb_status req)),
      (''provider_ref'', json_opt (cb_provider_ref req)), (''nonce'', JStr nonce)] db'"
  obtain res2 db2 where r2: "retry (now (cb_env ce)) (cb_transaction_id req) db1 = (res2, db2)" by fastforce
  have "payments db1 = payments db'" by (simp add: db1_def)
  with Some r r2 show ?thesis
    by (cases res; cases res2) (auto simp: apply_callback_def Let_def db1_def [symmetric] split: option.splits)
qed (simp add: apply_callback_def Let_def)

lemma apply_callback_move: "payment_move\<^sup>*\<^sup>* (payments db) (payments (snd (apply_callback ce req nonce db)))"
proof -
  have one: "payment_move\<^sup>*\<^sup>* (payments db) (payments (snd (reconcile t k s db)))" for t k s db
    using reconcile_move [of t k s db] by auto
  have two: "payment_move\<^sup>*\<^sup>* (payments db) (payments (snd (retry t k db)))" for t k db
    using retry_move [of t k db] by auto
  from apply_callback_payments [of ce req nonce db] one two show ?thesis
    by (metis rtranclp.rtrancl_refl rtranclp_trans)
qed

lemma retry_with_details_move:
  "payment_move\<^sup>*\<^sup>* (payments db) (payments (snd (retry_with_details env k d db)))"
proof -
  have "payments (snd (retry_with_details env k d db)) = payments (snd (retry (now env) k db)) \<or>
        payments (snd (retry_with_details env k d db)) = payments db"
    by (auto simp: retry_with_details_def split: option.splits prod.splits sum.splits exn.splits)
  with retry_move [of "now env" k db] show ?thesis by (auto simp del: p_id_set)
qed

lemma provider_callback_payments:
  "payments (fst (snd (provider_callback ce req sig nonce db st))) = payments db \<or>
   payments (fst (snd (provider_callback ce req sig nonce db st)))
     = payments (snd (apply_callback ce req (the (py_or nonce (cb_nonce req))) db))"
  by (auto simp: provider_callback_def Let_def split: prod.splits bool.splits)

lemma payment_step_moves:
  assumes "payment_step db db'"
  shows "payment_move\<^sup>*\<^sup>* (payments db) (payments db')"
  using assms
proof (cases rule: payment_step.cases)
  case (settling env outage_id x)
  with create_for_sla_result_move [of env outage_id x db] show ?thesis by auto
next
  case (reconciling env k s)
  have "payments (snd (reconcile_payment env k s db)) = payments (snd (reconcile (now env) k s db)) \<or>
        payments (snd (reconcile_payment env k s db)) = payments db"
    by (auto simp: reconcile_payment_def split: option.splits prod.splits sum.splits exn.splits)
  with reconcile_move [of "now env" k s db] reconciling show ?thesis by auto
next
  case (retrying env k)
  then show ?thesis by (simp add: retry_payment_def retry_with_details_move)
next
  case (overriding env email k)
  then show ?thesis by (simp add: retry_now_def retry_with_details_move)
next
  case (calling_back ce req sig nonce st)
  from apply_callback_move [of db ce req] provider_callback_payments [of ce req sig nonce db st] calling_back
  show ?thesis by (metis rtranclp.rtrancl_refl)
qed

text \<open>C6. Every request that can touch payments (settlement of an SLA result, reconciliation, retry,
  administrator retry, provider callback) only ever changes the payment table by moves of the abstract
  machine: adding a pending payment under fresh keys, a status change the policy allows, or a bounded
  retry.\<close>

theorem payment_requests_refine_machine:
  assumes "payment_step\<^sup>*\<^sup>* db db'"
  shows "payment_move\<^sup>*\<^sup>* (payments db) (payments db')"
  using assms by (induction rule: rtranclp_induct) (auto dest: payment_step_moves)

theorem payment_requests_refine_machine_witness:
  "payment_move\<^sup>*\<^sup>* (payments empty_database)
     (payments (snd (create_for_sla_result (sample_env 5) ''o'' (sla_result_of_row (sample_sla 1 ''o'')) empty_database)))"
  by (rule payment_requests_refine_machine) (blast intro: settling)

section \<open>Invariants of the machine\<close>

definition payment_ok :: "payment_row \<Rightarrow> bool" where
  "payment_ok p \<longleftrightarrow>
     payment_status_of (p_status p) \<noteq> None \<and> 0 \<le> p_amount p \<and>
     0 \<le> p_retry_count p \<and> p_retry_count p \<le> MAX_RETRIES \<and>
     (p_confirmed_at p \<noteq> None \<longleftrightarrow> p_status p = ''confirmed'') \<and>
     (p_last_retried_at p = None \<longleftrightarrow> p_retry_count p = 0)"

definition payments_ok :: "payment_row list \<Rightarrow> bool" where
  "payments_ok ps \<longleftrightarrow> list_all payment_ok ps \<and> distinct (map p_id ps) \<and>
     distinct (map p_transaction_hash ps) \<and> unique_key p_sla_result_id ps"

lemma validate_transition_Inr:
  assumes "validate_transition c n = Inr ()"
  shows "c \<noteq> ''confirmed''" "payment_status_of n \<noteq> None"
  using assms
  by (auto simp: validate_transition_def payment_status_of_def split: option.splits if_splits)

lemma payment_ok_set_reconciled:
  "payment_ok p \<Longrightarrow> validate_transition (p_status p) s = Inr () \<Longrightarrow> payment_ok (set_reconciled t s p)"
  by (auto simp: payment_ok_def set_reconciled_def Let_def dest: validate_transition_Inr)

lemma payment_ok_set_retried:
  "payment_ok p \<Longrightarrow> p_retry_count p < MAX_RETRIES \<Longrightarrow> validate_transition (p_status p) ''pending'' = Inr () \<Longrightarrow>
   payment_ok (set_retried t p)"
  by (auto simp: payment_ok_def set_retried_def payment_status_of_def dest: validate_transition_Inr)

lemma list_all_update_first:
  "list_all P xs \<Longrightarrow> find Q xs = Some x \<Longrightarrow> P (f x) \<Longrightarrow> list_all P (update_first Q f xs)"
  by (induction xs) (auto split: if_splits)

lemma payments_ok_update_first:
  assumes "payments_ok ps" "find (\<lambda>p. p_id p = k) ps = Some p" "payment_ok (f p)"
    and "\<And>p. p_id (f p) = p_id p" "\<And>p. p_transaction_hash (f p) = p_transaction_hash p"
    and "\<And>p. p_sla_result_id (f p) = p_sla_result_id p"
  shows "payments_ok (update_first (\<lambda>p. p_id p = k) f ps)"
  using assms
  by (simp add: payments_ok_def list_all_update_first map_update_first_key unique_key_update_first)

lemma payment_move_ok: "payment_move ps ps' \<Longrightarrow> payments_ok ps \<Longrightarrow> payments_ok ps'"
proof (induction rule: payment_move.induct)
  case (added p ps)
  then show ?case
    by (auto simp: payments_ok_def payment_ok_def unique_key_snoc payment_status_of_def MAX_RETRIES_def image_iff)
next
  case (reconciled k ps p s t)
  then have "payment_ok p" by (auto simp: payments_ok_def list_all_iff dest: find_Some_set)
  with reconciled show ?case by (auto intro!: payments_ok_update_first payment_ok_set_reconciled)
next
  case (retried k ps p t)
  then have "payment_ok p" by (auto simp: payments_ok_def list_all_iff dest: find_Some_set)
  with retried show ?case by (auto intro!: payments_ok_update_first payment_ok_set_retried)
qed

lemma payment_steps_moves: "payment_step\<^sup>*\<^sup>* db db' \<Longrightarrow> payment_move\<^sup>*\<^sup>* (payments db) (payments db')"
  by (induction rule: rtranclp_induct) (auto dest: payment_step_moves)

text \<open>C2. Starting from no payments, after any sequence of requests every payment has one of the three
  statuses, a non-negative amount, between zero and three retries, a confirmation time exactly when it
  is confirmed and a retry time exactly when it was retried; ids and transaction hashes are unique and
  no SLA result is paid twice.\<close>

theorem payments_always_ok:
  assumes "payment_step\<^sup>*\<^sup>* db db'" and "payments db = []"
  shows "payments_ok (payments db')"
proof -
  have "payments_ok (payments db)" by (simp add: assms(2) payments_ok_def)
  with payment_steps_moves [OF assms(1)] show ?thesis
    by (induction rule: rtranclp_induct) (auto intro: payment_move_ok)
qed

theorem payments_always_ok_witness:
  "payments_ok (payments (snd (create_for_sla_result (sample_env 5) ''o'' (sla_result_of_row (sample_sla 1 ''o'')) empty_database)))"
  by (rule payments_always_ok [of empty_database]) (blast intro: settling, simp add: empty_database_def)

text \<open>A confirmed payment: no move applies to it.\<close>

lemma payment_move_confirmed:
  "payment_move ps ps' \<Longrightarrow> find (\<lambda>p. p_id p = k) ps = Some p \<Longrightarrow> p_status p = ''confirmed'' \<Longrightarrow>
   find (\<lambda>p. p_id p = k) ps' = Some p"
proof (induction rule: payment_move.induct)
  case (reconciled j ps q s t)
  then have "j \<noteq> k" by (auto dest: validate_transition_Inr)
  with reconciled show ?case by (simp add: find_update_first_other)
next
  case (retried j ps q t)
  then have "j \<noteq> k" by (auto dest: validate_transition_Inr)
  with retried show ?case by (simp add: find_update_first_other)
qed simp

text \<open>C3. Confirmation is final: once a payment is confirmed, no sequence of requests (provider callbacks with
  valid signatures and administrator retries included) changes any field of it.\<close>

theorem confirmed_payment_is_final:
  assumes "payment_step\<^sup>*\<^sup>* db db'" and "get_payment_row k db = Some p" and "p_status p = ''confirmed''"
  shows "get_payment_row k db' = Some p"
  using payment_steps_moves [OF assms(1)] assms(2)
  unfolding get_payment_row_def
  by (induction rule: rtranclp_induct) (auto intro: payment_move_confirmed assms(3))

definition sample_payment :: "str \<Rightarrow> str \<Rightarrow> int \<Rightarrow> payment_row" where
  "sample_payment k st retries =
     \<lparr>p_id = k, p_transaction_hash = ''simulated-'' @ k, p_type = ''reward'', p_amount = 150, p_asset_code = ''USDC'',
      p_from_address = ''SYSTEM_POOL'', p_to_address = ''OUTAGE_SETTLEMENT'', p_status = st, p_outage_id = Some ''o'',
      p_sla_result_id = Some 1, p_created_at = 1, p_confirmed_at = (if st = ''confirmed'' then Some 2 else None),
      p_retry_count = retries, p_last_retried_at = (if retries = 0 then None else Some 2)\<rparr>"

theorem confirmed_payment_is_final_witness:
  "get_payment_row ''p'' (snd (retry_now (sample_env 9) ''admin'' ''p''
      (empty_database\<lparr>payments := [sample_payment ''p'' ''confirmed'' 0]\<rparr>))) = Some (sample_payment ''p'' ''confirmed'' 0)"
proof (rule confirmed_payment_is_final)
  let ?db = "empty_database\<lparr>payments := [sample_payment ''p'' ''confirmed'' 0]\<rparr>"
  show "payment_step\<^sup>*\<^sup>* ?db (snd (retry_now (sample_env 9) ''admin'' ''p'' ?db))" by (blast intro: overriding)
  show "get_payment_row ''p'' ?db = Some (sample_payment ''p'' ''confirmed'' 0)"
    "p_status (sample_payment ''p'' ''confirmed'' 0) = ''confirmed''"
    by (simp_all add: get_payment_row_def sample_payment_def)
qed

section \<open>Replay protection\<close>

text \<open>What a client of the token store relies on: \<open>live t tok st\<close> says that \<open>tok\<close> still counts as used at time \<open>t\<close>.\<close>

locale single_use =
  fixes use :: "time \<Rightarrow> str \<Rightarrow> 's \<Rightarrow> bool \<times> 's" and live :: "time \<Rightarrow> str \<Rightarrow> 's \<Rightarrow> bool" and ttl :: time
  assumes live_rejected: "live t tok st \<Longrightarrow> fst (use t tok st)"
    and fresh_recorded: "\<not> fst (use t tok st) \<Longrightarrow> t' \<le> t + ttl \<Longrightarrow> live t' tok (snd (use t tok st))"
    and live_kept: "live t' tok st \<Longrightarrow> t \<le> t' \<Longrightarrow> live t' tok (snd (use t tok' st))"
begin

lemma live_kept_fold:
  "live t' tok st \<Longrightarrow> \<forall>(t, k) \<in> set calls. t \<le> t' \<Longrightarrow> live t' tok (fold (\<lambda>(t, k) st. snd (use t k st)) calls st)"
  by (induction calls arbitrary: st) (auto simp: live_kept)

lemma accepted_once:
  assumes "\<not> fst (use t tok st)" "t' \<le> t + ttl" "\<forall>(u, k) \<in> set calls. u \<le> t'"
  shows "fst (use t' tok (fold (\<lambda>(u, k) st. snd (use u k st)) calls (snd (use t tok st))))"
  using assms by (blast intro: live_rejected live_kept_fold fresh_recorded)

end

definition token_live :: "time \<Rightarrow> time \<Rightarrow> str \<Rightarrow> token_store \<Rightarrow> bool" where
  "token_live ttl t tok st \<longleftrightarrow> list_ex (\<lambda>(k, ts). k = tok \<and> \<not> ts < t - ttl) (fallback st)"

lemma token_live_rejected: "token_live ttl t tok st \<Longrightarrow> fst (consume_fallback ttl t tok st)"
  by (force simp: token_live_def consume_fallback_def Let_def list_ex_iff)

lemma token_fresh_recorded:
  "\<not> fst (consume_fallback ttl t tok st) \<Longrightarrow> t' \<le> t + ttl \<Longrightarrow> token_live ttl t' tok (snd (consume_fallback ttl t tok st))"
  by (auto simp: token_live_def consume_fallback_def Let_def list_ex_iff split: if_splits)

lemma token_live_kept:
  "token_live ttl t' tok st \<Longrightarrow> t \<le> t' \<Longrightarrow> token_live ttl t' tok (snd (consume_fallback ttl t tok' st))"
  by (fastforce simp: token_live_def consume_fallback_def Let_def list_ex_iff)

lemma token_live_disabled [simp]: "token_live ttl t tok (st\<lparr>disabled_until := d\<rparr>) = token_live ttl t tok st"
  by (simp add: token_live_def)

interpretation in_process: single_use "consume_fallback ttl" "token_live ttl" ttl for ttl
  by unfold_locales (simp_all add: token_live_rejected token_fresh_recorded token_live_kept)

text \<open>Without a broker, and with a broker that keeps failing, the store behaves like the in-process map.\<close>

lemma consume_without_redis:
  "(\<not> broker \<or> reply = None) \<Longrightarrow> \<exists>d. consume broker ttl reply t tok st = consume_fallback ttl t tok (st\<lparr>disabled_until := d\<rparr>)"
proof -
  assume "\<not> broker \<or> reply = None"
  then have "consume broker ttl reply t tok st = consume_fallback ttl t tok (st\<lparr>disabled_until := disabled_until st\<rparr>) \<or>
      consume broker ttl reply t tok st = consume_fallback ttl t tok (st\<lparr>disabled_until := t + CIRCUIT_OPEN_TTL_SECONDS\<rparr>)"
    by (auto simp: consume_def)
  then show ?thesis by blast
qed

interpretation without_redis: single_use "\<lambda>t. consume broker ttl None t" "token_live ttl" ttl for broker ttl
proof unfold_locales
  fix t t' :: time and tok tok' :: str and st :: token_store
  obtain d where d: "consume broker ttl None t tok st = consume_fallback ttl t tok (st\<lparr>disabled_until := d\<rparr>)"
    using consume_without_redis by blast
  obtain d' where d': "consume broker ttl None t tok' st = consume_fallback ttl t tok' (st\<lparr>disabled_until := d'\<rparr>)"
    using consume_without_redis by blast
  show "fst (consume broker ttl None t tok st)" if "token_live ttl t tok st"
    using that by (simp add: d token_live_rejected)
  show "token_live ttl t' tok (snd (consume broker ttl None t tok st))"
    if "\<not> fst (consume broker ttl None t tok st)" "t' \<le> t + ttl"
    using that by (simp add: d token_fresh_recorded)
  show "token_live ttl t' tok (snd (consume broker ttl None t tok' st))" if "token_live ttl t' tok st" "t \<le> t'"
    using that by (simp add: d' token_live_kept)
qed

lemma provider_callback_store:
  "snd (snd (provider_callback ce req sig nonce db st)) = st \<or>
   snd (snd (provider_callback ce req sig nonce db st))
     = snd (consume (cb_broker_configured ce) CALLBACK_NONCE_TTL_SECONDS (cb_redis_set_nx ce) (cb_monotonic ce)
             (the (py_or nonce (cb_nonce req))) st)"
  by (auto simp: provider_callback_def Let_def split: prod.splits bool.splits)

lemma provider_callback_used_nonce:
  assumes "fst (consume (cb_broker_configured ce) CALLBACK_NONCE_TTL_SECONDS (cb_redis_set_nx ce) (cb_monotonic ce)
             (the (py_or nonce (cb_nonce req))) st)"
  shows "\<exists>e db' st'. provider_callback ce req sig nonce db st = (Inl e, db', st') \<and> payments db' = payments db"
  using assms by (auto simp: provider_callback_def Let_def split: prod.splits bool.splits)

text \<open>One callback of a run: environment, request, signature header, nonce header.\<close>

type_synonym callback = "callback_env \<times> provider_callback_request \<times> str option \<times> str option"

definition run_callback :: "callback \<Rightarrow> database \<times> token_store \<Rightarrow> database \<times> token_store" where
  "run_callback c s = (case c of (ce, req, sig, nonce) \<Rightarrow> snd (provider_callback ce req sig nonce (fst s) (snd s)))"

lemma run_callbacks_live:
  "token_live CALLBACK_NONCE_TTL_SECONDS t tok (snd s) \<Longrightarrow>
   \<forall>(ce, req, sig, nonce) \<in> set cs. cb_redis_set_nx ce = None \<and> cb_monotonic ce \<le> t \<Longrightarrow>
   token_live CALLBACK_NONCE_TTL_SECONDS t tok (snd (fold run_callback cs s))"
proof (induction cs arbitrary: s)
  case (Cons c cs)
  obtain ce req sig nonce where c: "c = (ce, req, sig, nonce)" by (cases c)
  with Cons.prems have "cb_redis_set_nx ce = None" "cb_monotonic ce \<le> t" by auto
  then have "token_live CALLBACK_NONCE_TTL_SECONDS t tok (snd (run_callback c s))"
    using provider_callback_store [of ce req sig nonce "fst s" "snd s"] Cons.prems(1)
    by (auto simp: run_callback_def c intro: without_redis.live_kept)
  with Cons show ?case by simp
qed simp

text \<open>C40. A captured callback cannot be replayed into the ledger: while Redis does not answer (the documented
  fallback), once a callback with some nonce has been let through, every callback of the same process
  carrying that nonce within the replay window is answered with an error and leaves all payments as
  they are, whatever callbacks were processed in between and whatever it is signed with.\<close>

theorem callback_nonce_accepted_once:
  assumes "cb_redis_set_nx ce = None" and "py_or nonce (cb_nonce req) = Some tok"
    and "provider_callback ce req sig nonce db st = (Inr p, db1, st1)"
    and "fold run_callback cs (db1, st1) = (db2, st2)"
    and "\<forall>(ce, req, sig, nonce) \<in> set cs. cb_redis_set_nx ce = None \<and> cb_monotonic ce \<le> cb_monotonic ce'"
    and "cb_monotonic ce' \<le> cb_monotonic ce + CALLBACK_NONCE_TTL_SECONDS"
    and "cb_redis_set_nx ce' = None" and "py_or nonce' (cb_nonce req') = Some tok"
  shows "\<exists>e db3 st3. provider_callback ce' req' sig' nonce' db2 st2 = (Inl e, db3, st3) \<and> payments db3 = payments db2"
proof -
  let ?use = "\<lambda>ce st. consume (cb_broker_configured ce) CALLBACK_NONCE_TTL_SECONDS None (cb_monotonic ce) tok st"
  from assms(1-3) have fresh: "\<not> fst (?use ce st)" "st1 = snd (?use ce st)"
    by (auto simp: provider_callback_def Let_def split: prod.splits bool.splits if_splits)
  have "token_live CALLBACK_NONCE_TTL_SECONDS (cb_monotonic ce') tok (snd (db1, st1))"
    using without_redis.fresh_recorded [OF fresh(1) assms(6)] fresh(2) by simp
  from run_callbacks_live [OF this assms(5)] assms(4)
  have "token_live CALLBACK_NONCE_TTL_SECONDS (cb_monotonic ce') tok st2" by simp
  from without_redis.live_rejected [OF this, of "cb_broker_configured ce'"]
  show ?thesis using provider_callback_used_nonce [of ce' nonce' req' st2] assms(7,8) by simp
qed

text \<open>Callbacks are authenticated: when a webhook secret is configured, a callback whose signature is
  missing or is not the HMAC of its transaction, status and nonce is answered with 400 or 401 and
  changes neither a payment nor the set of used nonces.\<close>

theorem forged_callback_rejected:
  assumes "cb_secret ce \<noteq> []"
    and "\<forall>s. sig = Some s \<longrightarrow> s \<noteq> cb_hmac ce (cb_secret ce)
            (callback_message (cb_transaction_id req) (cb_status req) (py_or nonce (cb_nonce req))) \<or> s = []"
  shows "\<exists>code db'. provider_callback ce req sig nonce db st = (Inl (HTTPError code), db', st) \<and>
           code \<in> {400, 401} \<and> payments db' = payments db"
  using assms
  by (cases sig) (auto simp: provider_callback_def Let_def verify_callback_signature_def)

definition sample_callback_env :: "time \<Rightarrow> str \<Rightarrow> callback_env" where
  "sample_callback_env t secret =
     \<lparr>cb_env = sample_env t, cb_hmac = (\<lambda>k m. k @ ''|'' @ m), cb_secret = secret, cb_exc_text = (\<lambda>_. ''error''),
      cb_iso = py_str_int, cb_second = 1, cb_broker_configured = False, cb_redis_set_nx = None, cb_monotonic = t\<rparr>"

definition sample_callback :: "str \<Rightarrow> provider_callback_request" where
  "sample_callback st = \<lparr>cb_transaction_id = ''p'', cb_status = st, cb_provider_ref = None, cb_nonce = Some ''n1''\<rparr>"

theorem callback_nonce_accepted_once_witness:
  "\<exists>db1 st1 p e db3 st3.
     provider_callback (sample_callback_env 10 []) (sample_callback ''failed'') None None
       (empty_database\<lparr>payments := [sample_payment ''p'' ''pending'' 0]\<rparr>) \<lparr>fallback = [], disabled_until = 0\<rparr> = (Inr p, db1, st1) \<and>
     provider_callback (sample_callback_env 20 []) (sample_callback ''failed'') None None db1 st1 = (Inl e, db3, st3) \<and>
     payments db3 = payments db1"
proof -
  let ?db = "empty_database\<lparr>payments := [sample_payment ''p'' ''pending'' 0]\<rparr>"
  obtain p db1 st1 where first: "provider_callback (sample_callback_env 10 []) (sample_callback ''failed'') None None ?db
      \<lparr>fallback = [], disabled_until = 0\<rparr> = (Inr p, db1, st1)"
    by (simp add: provider_callback_def sample_callback_env_def sample_callback_def py_or_def Let_def consume_def
        consume_fallback_def apply_callback_def get_payment_row_def sample_payment_def reconcile_def
        validate_transition_def payment_status_of_def retry_def MAX_RETRIES_def save_payment_def sample_env_def
        set_reconciled_def MAX_FALLBACK_TOKENS_def)
  have "\<exists>e db3 st3. provider_callback (sample_callback_env 20 []) (sample_callback ''failed'') None None db1 st1 = (Inl e, db3, st3) \<and>
      payments db3 = payments db1"
    by (rule callback_nonce_accepted_once [OF _ _ first, of "''n1''" "[]"])
       (simp_all add: sample_callback_env_def sample_callback_def py_or_def CALLBACK_NONCE_TTL_SECONDS_def)
  with first show ?thesis by blast
qed

theorem forged_callback_rejected_witness:
  "\<exists>code db'. provider_callback (sample_callback_env 10 ''key'') (sample_callback ''confirmed'') (Some ''forged'') None
      (empty_database\<lparr>payments := [sample_payment ''p'' ''pending'' 0]\<rparr>) \<lparr>fallback = [], disabled_until = 0\<rparr>
      = (Inl (HTTPError code), db', \<lparr>fallback = [], disabled_until = 0\<rparr>) \<and> code \<in> {400, 401} \<and>
     payments db' = [sample_payment ''p'' ''pending'' 0]"
  using forged_callback_rejected [of "sample_callback_env 10 ''key''" "Some ''forged''" "sample_callback ''confirmed''" None
      "empty_database\<lparr>payments := [sample_payment ''p'' ''pending'' 0]\<rparr>" "\<lparr>fallback = [], disabled_until = 0\<rparr>"]
  by (simp add: sample_callback_env_def)

section \<open>Settlement of one result, automatic retry, history\<close>

text \<open>A payment is generated once per SLA result: when generating it succeeds, generating it again returns
  the same payment and leaves the database as it is; the amount is the absolute value of the result's.\<close>

theorem create_for_sla_result_idempotent:
  assumes "create_for_sla_result env outage_id x db = (Inr p, db')"
  shows "create_for_sla_result env' outage_id' x db' = (Inr p, db') \<and>
         (get_by_sla_result (the (r_id x)) db = None \<longrightarrow> p_amount p = \<bar>r_amount x\<bar> \<and> p_status p = ''pending'')"
proof (cases "r_id x")
  case (Some i)
  show ?thesis
  proof (cases "get_by_sla_result i db")
    case None
    then have absent: "find (\<lambda>p. p_sla_result_id p = Some i) (payments db) = None" by (simp add: get_by_sla_result_def)
    from assms Some None have "payments db' = payments db @ [p]" "p_sla_result_id p = Some i"
        "p_amount p = \<bar>r_amount x\<bar>" "p_status p = ''pending''"
      by (auto simp: create_for_sla_result_def create_payment_def Let_def new_payment_def split: if_splits)
    with absent Some show ?thesis by (simp add: create_for_sla_result_def get_by_sla_result_def)
  qed (use assms Some in \<open>simp add: create_for_sla_result_def\<close>)
qed (use assms in \<open>simp add: create_for_sla_result_def\<close>)

theorem create_for_sla_result_idempotent_witness:
  "\<exists>p db'. create_for_sla_result (sample_env 5) ''o'' (sla_result_of_row (sample_sla 1 ''o'')) empty_database = (Inr p, db') \<and>
     create_for_sla_result (sample_env 6) ''o'' (sla_result_of_row (sample_sla 1 ''o'')) db' = (Inr p, db')"
proof -
  obtain p db' where first: "create_for_sla_result (sample_env 5) ''o'' (sla_result_of_row (sample_sla 1 ''o'')) empty_database = (Inr p, db')"
    by (simp add: create_for_sla_result_def sla_result_of_row_def get_by_sla_result_def empty_database_def
        create_payment_def Let_def)
  from create_for_sla_result_idempotent [OF first] first show ?thesis by blast
qed

text \<open>Automatic retry on a failed callback: a callback that fails a pending payment with retries left puts the
  payment straight back to pending with one more retry, but answers with the intermediate record,
  whose status is failed and whose retry count is the old one.\<close>

theorem failed_callback_retries_but_reports_failed:
  assumes "get_payment_row k db = Some p" and "p_status p = ''pending''" and "p_retry_count p < MAX_RETRIES"
    and "cb_transaction_id req = k" and "cb_status req = ''failed''"
    and "apply_callback ce req nonce db = (Inr answer, db')"
  shows "p_status answer = ''failed'' \<and> p_retry_count answer = p_retry_count p \<and>
         (\<exists>stored. get_payment_row k db' = Some stored \<and> p_status stored = ''pending'' \<and>
                   p_retry_count stored = p_retry_count p + 1)"
proof -
  have ok: "validate_transition ''pending'' ''failed'' = Inr ()" "validate_transition ''failed'' ''pending'' = Inr ()"
    by (simp_all add: validate_transition_def payment_status_of_def)
  have ids: "find (\<lambda>p. p_id p = k) (update_first (\<lambda>p. p_id p = k) f ps) = map_option f (find (\<lambda>p. p_id p = k) ps)"
    if "\<And>p. p_id (f p) = p_id p" for f ps
    using that by (simp add: find_update_first)
  let ?failed = "set_reconciled (now (cb_env ce)) ''failed'' p"
  have rec: "reconcile (now (cb_env ce)) k ''failed'' db =
      (Inr (Some ?failed), save_payment k (set_reconciled (now (cb_env ce)) ''failed'') db)"
    using assms(1,2) ok(1) by (simp add: reconcile_def)
  have ret: "retry t k db1 = (Inr (Some (set_retried t ?failed)), save_payment k (set_retried t) db1)"
    if "payments db1 = payments (save_payment k (set_reconciled (now (cb_env ce)) ''failed'') db)" for t db1
    using that assms(1,3) ok(2) by (simp add: retry_def get_payment_row_def save_payment_def ids)
  have "answer = ?failed \<and> payments db' = payments (save_payment k (set_retried (now (cb_env ce)))
      (save_payment k (set_reconciled (now (cb_env ce)) ''failed'') db))"
    using assms(6) unfolding apply_callback_def Let_def
    by (simp add: assms(1,2,4,5) rec ret assms(3)) (auto simp: save_payment_def)
  with assms(1) show ?thesis by (simp add: get_payment_row_def save_payment_def ids)
qed

theorem failed_callback_retries_but_reports_failed_witness:
  "\<exists>answer db' stored.
     apply_callback (sample_callback_env 10 []) (sample_callback ''failed'') ''n1''
       (empty_database\<lparr>payments := [sample_payment ''p'' ''pending'' 0]\<rparr>) = (Inr answer, db') \<and>
     p_status answer = ''failed'' \<and> get_payment_row ''p'' db' = Some stored \<and> p_status stored = ''pending''"
proof -
  let ?db = "empty_database\<lparr>payments := [sample_payment ''p'' ''pending'' 0]\<rparr>"
  obtain answer db' where a: "apply_callback (sample_callback_env 10 []) (sample_callback ''failed'') ''n1'' ?db = (Inr answer, db')"
    by (simp add: sample_callback_env_def sample_callback_def apply_callback_def get_payment_row_def sample_payment_def
        reconcile_def validate_transition_def payment_status_of_def retry_def MAX_RETRIES_def save_payment_def sample_env_def
        set_reconciled_def Let_def)
  have "p_status answer = ''failed'' \<and> p_retry_count answer = p_retry_count (sample_payment ''p'' ''pending'' 0) \<and>
         (\<exists>stored. get_payment_row ''p'' db' = Some stored \<and> p_status stored = ''pending'' \<and>
                   p_retry_count stored = p_retry_count (sample_payment ''p'' ''pending'' 0) + 1)"
    by (rule failed_callback_retries_but_reports_failed [OF _ _ _ _ _ a])
       (simp_all add: get_payment_row_def sample_payment_def MAX_RETRIES_def sample_callback_def)
  with a show ?thesis by blast
qed

lemma audit_rows_log:
  "rows (audit (audit_log_event env ev d db)) = rows (audit db) @ [last (rows (audit (audit_log_event env ev d db)))]"
  "a_event_type (last (rows (audit (audit_log_event env ev d db)))) = ev"
  "a_details (last (rows (audit (audit_log_event env ev d db)))) = scrub_details (sensitive_fields (auditing env)) (Some d)"
  by (simp_all add: audit_log_event_def log_simple_def log_event_def Let_def)

text \<open>The reconciliation history of a payment cannot be read after a retry: the audit entry of a retry carries no
  status, the response model requires one, so once a retry of a payment succeeded the endpoint fails
  with a validation error (for an id that the scrubber leaves alone).\<close>

theorem reconciliation_history_fails_after_retry:
  assumes "retry_payment env k db = (Inr p, db')"
    and "scrub_value (sensitive_fields (auditing env)) ''id'' (JStr k) = JStr k"
  shows "reconciliation_history_endpoint k db' = Inl ValueError"
proof -
  let ?d = "[(''id'', JStr k), (''retry_count'', JInt (p_retry_count p)), (''override'', JBool False)]"
  from assms(1) obtain q db1 where q: "get_payment_row k db = Some q"
      and r: "retry (now env) k db = (Inr (Some p), db1)" and db': "db' = audit_log_event env ''payment_retried'' ?d db1"
    by (auto simp: retry_payment_def retry_with_details_def split: option.splits prod.splits sum.splits exn.splits)
  let ?new = "last (rows (audit db'))"
  have new: "a_event_type ?new = ''payment_retried''" "a_details ?new = scrub_details (sensitive_fields (auditing env)) (Some ?d)"
    "?new \<in> set (rows (audit db'))"
    unfolding db' using audit_rows_log [of env "''payment_retried''" ?d db1] by (auto intro: last_in_set)
  then have "?new \<in> set (history_rows k db')"
    using assms(2) by (simp add: history_rows_def HISTORY_EVENT_TYPES_def scrub_details_def)
  moreover have "map_of (a_details ?new) ''status'' = None" "map_of (a_details ?new) ''new_status'' = None"
    by (simp_all add: new scrub_details_def)
  ultimately have "\<not> list_all history_item_valid (get_reconciliation_history k db')"
    by (force simp: get_reconciliation_history_def list_all_iff history_item_valid_def)
  moreover have "get_payment_row k db' \<noteq> None"
    using r q by (auto simp: db' retry_def get_payment_row_def save_payment_def find_update_first
        split: if_splits sum.splits)
  ultimately show ?thesis by (auto simp: reconciliation_history_endpoint_def Let_def)
qed

theorem reconciliation_history_fails_after_retry_witness:
  "\<exists>p db'. retry_payment (sample_env 9) ''p'' (empty_database\<lparr>payments := [sample_payment ''p'' ''failed'' 0]\<rparr>) = (Inr p, db') \<and>
     reconciliation_history_endpoint ''p'' db' = Inl ValueError"
proof -
  obtain p db' where r: "retry_payment (sample_env 9) ''p'' (empty_database\<lparr>payments := [sample_payment ''p'' ''failed'' 0]\<rparr>) = (Inr p, db')"
    by (simp add: retry_payment_def retry_with_details_def retry_def get_payment_row_def sample_payment_def MAX_RETRIES_def
        validate_transition_def payment_status_of_def)
  have "scrub_value (sensitive_fields (auditing (sample_env 9))) ''id'' (JStr ''p'') = JStr ''p''"
    by (simp add: sample_env_def scrub_value_def stellar_secret_re_def ed25519_key_re_def match_dollar_def)
  from reconciliation_history_fails_after_retry [OF r this] r show ?thesis by blast
qed

end
