(* ===== verification/Rate_Limits.thy ===== *)
theory Rate_Limits
  imports Prelude "HOL-Library.AList"
begin

text \<open>
  Rate limiting: the limiters of \<^verbatim>\<open>app/core/rate_limiter.py\<close> (in-process, Redis with its Lua script,
  and their composition), the persistent ledger of \<^verbatim>\<open>app/services/auth_attempt_ledger.py\<close> and the
  per-subscriber budget of \<^verbatim>\<open>app/services/event_listener_rate_limit.py\<close>.  All window limiters satisfy the
  locale \<open>window_limiter\<close>; the bound on granted requests is proved once there.
\<close>

section \<open>Dictionaries with a default\<close>

definition dflt :: "'k \<Rightarrow> ('k \<times> 'v list) list \<Rightarrow> 'v list" where
  "dflt k d = (case map_of d k of None \<Rightarrow> [] | Some v \<Rightarrow> v)"

lemma dflt_update [simp]: "dflt j (AList.update k v d) = (if j = k then v else dflt j d)"
  by (simp add: dflt_def update_conv')

section \<open>In-process limiter\<close>

definition SIMPLE_RATE_LIMITER_SWEEP_THRESHOLD :: nat where "SIMPLE_RATE_LIMITER_SWEEP_THRESHOLD = 1024"

type_synonym hit_map = "(str \<times> time list) list"

text \<open>\<open>cull_expired\<close>: drop the keys whose last hit left the window; also returns how many.\<close>

definition cull_expired :: "time \<Rightarrow> time \<Rightarrow> hit_map \<Rightarrow> nat \<times> hit_map" where
  "cull_expired window t d =
     (let expired = filter (\<lambda>(k, h). h = [] \<or> last h \<le> t - window) d in
      (length expired, filter (\<lambda>(k, h). \<not> (h = [] \<or> last h \<le> t - window)) d))"

definition simple_is_allowed :: "nat \<Rightarrow> time \<Rightarrow> time \<Rightarrow> str \<Rightarrow> hit_map \<Rightarrow> bool \<times> hit_map" where
  "simple_is_allowed limit window t key requests =
     (let pruned = AList.update key (filter (\<lambda>h. h > t - window) (dflt key requests)) requests;
          swept = (if length pruned > SIMPLE_RATE_LIMITER_SWEEP_THRESHOLD then snd (cull_expired window t pruned) else pruned) in
      if length (dflt key swept) \<ge> limit then (False, AList.update key (dflt key swept) swept)
      else (True, AList.update key (dflt key swept @ [t]) swept))"

definition simple_check_or_raise :: "nat \<Rightarrow> time \<Rightarrow> time \<Rightarrow> str \<Rightarrow> hit_map \<Rightarrow> (unit, hit_map) outcome" where
  "simple_check_or_raise limit window t key requests =
     (case simple_is_allowed limit window t key requests of
        (True, d) \<Rightarrow> (Inr (), d) | (False, d) \<Rightarrow> (Inl (RateLimitError key), d))"

section \<open>Event budget of a subscriber\<close>

definition allow_local :: "nat \<Rightarrow> time \<Rightarrow> time \<Rightarrow> str \<Rightarrow> hit_map \<Rightarrow> bool \<times> hit_map" where
  "allow_local limit window t subscriber_id hits =
     (let h = filter (\<lambda>s. s > t - window) (dflt subscriber_id hits) in
      if length h \<ge> limit then (False, AList.update subscriber_id h hits)
      else (True, AList.update subscriber_id (h @ [t]) hits))"

text \<open>\<open>allow\<close>: the reply of the shared counter (\<open>INCR\<close>) is an argument, \<open>None\<close> when Redis is off or raises.\<close>

definition event_allow :: "nat \<Rightarrow> time \<Rightarrow> nat option \<Rightarrow> time \<Rightarrow> str \<Rightarrow> hit_map \<Rightarrow> bool \<times> hit_map" where
  "event_allow limit window redis_count t subscriber_id hits =
     (case redis_count of Some n \<Rightarrow> (n \<le> limit, hits) | None \<Rightarrow> allow_local limit window t subscriber_id hits)"

definition retry_after_seconds :: "time \<Rightarrow> int option \<Rightarrow> time \<Rightarrow> str \<Rightarrow> hit_map \<Rightarrow> int" where
  "retry_after_seconds window redis_ttl t subscriber_id hits =
     (case redis_ttl of
        Some ttl \<Rightarrow> if ttl > 0 then ttl
                    else (case dflt subscriber_id hits of [] \<Rightarrow> 0 | h # hs \<Rightarrow> max 0 (window - (t - Min (set (h # hs))) + 1))
      | None \<Rightarrow> (case dflt subscriber_id hits of [] \<Rightarrow> 0 | h # hs \<Rightarrow> max 0 (window - (t - Min (set (h # hs))) + 1)))"

section \<open>The Lua script\<close>

text \<open>
  The script works on one sorted set per key: scores with members, and the expiry armed by
  \<open>EXPIRE\<close>.  A key past its expiry is absent.
\<close>

record zset =
  z_members :: "(time \<times> str) list"
  z_expires :: time

type_synonym zsets = "(str \<times> zset) list"

definition live_zset :: "time \<Rightarrow> str \<Rightarrow> zsets \<Rightarrow> (time \<times> str) list" where
  "live_zset t key db = (case map_of db key of None \<Rightarrow> [] | Some z \<Rightarrow> if t < z_expires z then z_members z else [])"

definition zadd :: "time \<Rightarrow> str \<Rightarrow> (time \<times> str) list \<Rightarrow> (time \<times> str) list" where
  "zadd score member zs = filter (\<lambda>(s, m). m \<noteq> member) zs @ [(score, member)]"

definition rate_limiter_lua :: "nat \<Rightarrow> time \<Rightarrow> time \<Rightarrow> str \<Rightarrow> str \<Rightarrow> zsets \<Rightarrow> bool \<times> zsets" where
  "rate_limiter_lua limit window t member key db =
     (let window_start = t - window;
          kept = filter (\<lambda>(s, m). \<not> (0 \<le> s \<and> s \<le> window_start)) (live_zset t key db) in
      if length kept \<ge> limit
      then (False, AList.update key \<lparr>z_members = kept, z_expires = (case map_of db key of Some z \<Rightarrow> z_expires z | None \<Rightarrow> t)\<rparr> db)
      else (True, AList.update key \<lparr>z_members = zadd t member kept, z_expires = t + window\<rparr> db))"

section \<open>Persistent ledger\<close>

record attempt_row =
  at_scope_hash :: str
  at_attempt_hash :: str
  at_occurred_at :: time

definition prune_scope :: "str \<Rightarrow> time \<Rightarrow> attempt_row list \<Rightarrow> attempt_row list" where
  "prune_scope scope cutoff db = filter (\<lambda>r. \<not> (at_scope_hash r = scope \<and> at_occurred_at r < cutoff)) db"

definition prune_expired :: "time \<Rightarrow> time \<Rightarrow> time \<Rightarrow> attempt_row list \<Rightarrow> attempt_row list" where
  "prune_expired rate_window stuffing_window t db =
     filter (\<lambda>r. \<not> at_occurred_at r < t - max rate_window stuffing_window) db"

definition scope_count :: "str \<Rightarrow> time \<Rightarrow> attempt_row list \<Rightarrow> nat" where
  "scope_count scope cutoff db = length (filter (\<lambda>r. at_scope_hash r = scope \<and> at_occurred_at r \<ge> cutoff) db)"

text \<open>\<open>record_rate_limit_attempt\<close> on the hashed scope; the retention of the table is \<open>retention\<close>.\<close>

definition record_in_scope ::
  "nat \<Rightarrow> time \<Rightarrow> time \<Rightarrow> time \<Rightarrow> str \<Rightarrow> time \<Rightarrow> str \<Rightarrow> attempt_row list \<Rightarrow> bool \<times> attempt_row list" where
  "record_in_scope max_attempts window rate_window stuffing_window attempt_hash t scope db =
     (let cutoff = t - window;
          db1 = prune_scope scope cutoff (prune_expired rate_window stuffing_window t db) in
      if scope_count scope cutoff db1 \<ge> max_attempts then (False, db1)
      else (True, db1 @ [\<lparr>at_scope_hash = scope, at_attempt_hash = attempt_hash, at_occurred_at = t\<rparr>]))"

definition record_rate_limit_attempt ::
  "(str \<Rightarrow> str) \<Rightarrow> nat \<Rightarrow> time \<Rightarrow> time \<Rightarrow> time \<Rightarrow> str \<Rightarrow> time \<Rightarrow> str \<Rightarrow> attempt_row list \<Rightarrow> bool \<times> attempt_row list" where
  "record_rate_limit_attempt digest max_attempts window rate_window stuffing_window uuid t key db =
     record_in_scope max_attempts window rate_window stuffing_window uuid t (digest (''rate:'' @ key)) db"

definition record_credential_prefix ::
  "(str \<Rightarrow> str) \<Rightarrow> nat \<Rightarrow> time \<Rightarrow> time \<Rightarrow> time \<Rightarrow> str \<Rightarrow> str \<Rightarrow> attempt_row list \<Rightarrow> attempt_row list" where
  "record_credential_prefix digest max_prefixes rate_window stuffing_window t ip password db =
     (let scope = digest (''stuffing:'' @ ip); prefix_hash = digest (take 4 password);
          cutoff = t - stuffing_window;
          db1 = prune_scope scope cutoff (prune_expired rate_window stuffing_window t db);
          same = (\<lambda>r. at_scope_hash r = scope \<and> at_attempt_hash r = prefix_hash) in
      if list_ex same db1 then update_first same (\<lambda>r. r\<lparr>at_occurred_at := t\<rparr>) db1
      else if scope_count scope cutoff db1 \<ge> max_prefixes then db1
      else db1 @ [\<lparr>at_scope_hash = scope, at_attempt_hash = prefix_hash, at_occurred_at = t\<rparr>])"

definition get_credential_prefix_count ::
  "(str \<Rightarrow> str) \<Rightarrow> time \<Rightarrow> time \<Rightarrow> time \<Rightarrow> time \<Rightarrow> str \<Rightarrow> attempt_row list \<Rightarrow> nat \<times> attempt_row list" where
  "get_credential_prefix_count digest window rate_window stuffing_window t ip db =
     (let scope = digest (''stuffing:'' @ ip); cutoff = t - window;
          db1 = prune_scope scope cutoff (prune_expired rate_window stuffing_window t db) in
      (scope_count scope cutoff db1, db1))"

section \<open>The Redis limiter\<close>

text \<open>One attempt at the script: an answer, a retryable error, or any other error.\<close>

datatype redis_reply = Answer bool | Retryable_error | Other_error

definition REDIS_MAX_ATTEMPTS :: nat where "REDIS_MAX_ATTEMPTS = 3"
definition REDIS_BASE_DELAY :: rat where "REDIS_BASE_DELAY = 5 / 100"
definition REDIS_MAX_DELAY :: rat where "REDIS_MAX_DELAY = 1 / 2"

definition backoff_delay :: "nat \<Rightarrow> rat" where
  "backoff_delay attempt = min (REDIS_BASE_DELAY * 2 ^ (attempt - 1)) REDIS_MAX_DELAY"

text \<open>\<open>_eval_with_retry\<close>: the outcome and the delays slept, from attempt \<open>n\<close> on.\<close>

function eval_with_retry :: "(nat \<Rightarrow> redis_reply) \<Rightarrow> nat \<Rightarrow> redis_reply \<times> rat list" where
  "eval_with_retry reply n =
     (case reply n of
        Retryable_error \<Rightarrow>
          if n \<ge> REDIS_MAX_ATTEMPTS then (Retryable_error, [])
          else (case eval_with_retry reply (Suc n) of (r, ds) \<Rightarrow> (r, backoff_delay n # ds))
      | r \<Rightarrow> (r, []))"
  by pat_completeness auto
termination by (relation "measure (\<lambda>(reply, n). REDIS_MAX_ATTEMPTS - n)") auto

declare eval_with_retry.simps [simp del]

record redis_limiter =
  disabled_until :: "time option"
  fallback_map :: hit_map

record limiter_settings =
  ls_limit :: nat
  ls_window :: time
  ls_circuit_reset :: time
  ls_use_redis :: bool
  ls_always_eager :: bool

definition circuit_open :: "time \<Rightarrow> redis_limiter \<Rightarrow> bool" where
  "circuit_open t l = (case disabled_until l of None \<Rightarrow> False | Some d \<Rightarrow> t < d)"

definition use_fallback :: "limiter_settings \<Rightarrow> time \<Rightarrow> str \<Rightarrow> redis_limiter \<Rightarrow> bool \<times> redis_limiter" where
  "use_fallback st t key l =
     (case simple_is_allowed (ls_limit st) (ls_window st) t key (fallback_map l) of
        (b, d) \<Rightarrow> (b, l\<lparr>fallback_map := d\<rparr>))"

definition trip_circuit :: "limiter_settings \<Rightarrow> time \<Rightarrow> redis_limiter \<Rightarrow> redis_limiter" where
  "trip_circuit st t l = l\<lparr>disabled_until := Some (t + ls_circuit_reset st)\<rparr>"

text \<open>\<open>is_allowed\<close> without a session; \<open>reply\<close> answers each attempt at the script.\<close>

definition redis_is_allowed ::
  "limiter_settings \<Rightarrow> (nat \<Rightarrow> redis_reply) \<Rightarrow> time \<Rightarrow> str \<Rightarrow> redis_limiter \<Rightarrow> bool \<times> redis_limiter" where
  "redis_is_allowed st reply t key l =
     (if \<not> ls_use_redis st \<or> ls_always_eager st then use_fallback st t key l
      else if circuit_open t l then use_fallback st t key l
      else (case fst (eval_with_retry reply 1) of
              Answer b \<Rightarrow> (b, l)
            | _ \<Rightarrow> use_fallback st t key (trip_circuit st t l)))"

text \<open>
  \<open>is_allowed\<close> with a session: the ledger decides; the Redis step then calls \<open>_run_coroutine\<close> and
  \<open>_is_allowed_async\<close>, which the class does not define, so it always ends in the handler for unexpected
  errors.
\<close>

definition redis_is_allowed_db ::
  "(str \<Rightarrow> str) \<Rightarrow> limiter_settings \<Rightarrow> time \<Rightarrow> str \<Rightarrow> time \<Rightarrow> str \<Rightarrow> attempt_row list \<Rightarrow> redis_limiter
    \<Rightarrow> bool \<times> attempt_row list \<times> redis_limiter" where
  "redis_is_allowed_db digest st stuffing_window uuid t key db l =
     (case record_rate_limit_attempt digest (ls_limit st) (ls_window st) (ls_window st) stuffing_window uuid t key db of
        (False, db') \<Rightarrow> (False, db', l)
      | (True, db') \<Rightarrow>
          if \<not> ls_use_redis st \<or> ls_always_eager st then (True, db', l)
          else if circuit_open t l then (True, db', l)
          else (True, db', trip_circuit st t l))"

definition redis_check_or_raise ::
  "limiter_settings \<Rightarrow> (nat \<Rightarrow> redis_reply) \<Rightarrow> time \<Rightarrow> str \<Rightarrow> redis_limiter \<Rightarrow> (unit, redis_limiter) outcome" where
  "redis_check_or_raise st reply t key l =
     (case redis_is_allowed st reply t key l of
        (True, l') \<Rightarrow> (Inr (), l') | (False, l') \<Rightarrow> (Inl (RateLimitError key), l'))"

section \<open>The contract of a window limiter\<close>

text \<open>The times at which a sequence of timed requests was granted for key \<open>j\<close>.\<close>

primrec granted :: "(time \<Rightarrow> 'k \<Rightarrow> 's \<Rightarrow> bool \<times> 's) \<Rightarrow> 'k \<Rightarrow> (time \<times> 'k) list \<Rightarrow> 's \<Rightarrow> time list" where
  "granted allow j [] s = []"
| "granted allow j (c # cs) s =
     (case c of (t, k) \<Rightarrow>
        (if k = j \<and> fst (allow t k s) then [t] else []) @ granted allow j cs (snd (allow t k s)))"

text \<open>
  \<open>fresh u h\<close>: a hit at time \<open>h\<close> still counts at time \<open>u\<close>.  A limiter grants a request when fewer than
  \<open>limit\<close> hits count, records exactly the granted ones, and forgets only hits that no longer count.
\<close>

locale window_limiter =
  fixes allow :: "time \<Rightarrow> 'k \<Rightarrow> 's \<Rightarrow> bool \<times> 's" and hits :: "'k \<Rightarrow> 's \<Rightarrow> time list"
    and fresh :: "time \<Rightarrow> time \<Rightarrow> bool" and limit :: nat and ok :: "time \<Rightarrow> 's \<Rightarrow> bool"
  assumes fresh_mono: "fresh u h \<Longrightarrow> t \<le> u \<Longrightarrow> fresh t h"
    and allow_iff: "ok t0 s \<Longrightarrow> t0 \<le> t \<Longrightarrow> fst (allow t k s) \<longleftrightarrow> length (filter (fresh t) (hits k s)) < limit"
    and allow_hits: "ok t0 s \<Longrightarrow> t0 \<le> t \<Longrightarrow> t \<le> u \<Longrightarrow>
      length (filter (fresh u) (hits j (snd (allow t k s)))) =
      length (filter (fresh u) (hits j s @ (if j = k \<and> fst (allow t k s) then [t] else [])))"
    and allow_ok: "ok t0 s \<Longrightarrow> t0 \<le> t \<Longrightarrow> ok t (snd (allow t k s))"
begin

lemma length_filter_fresh: "t \<le> u \<Longrightarrow> length (filter (fresh u) hs) \<le> length (filter (fresh t) hs)"
  by (induction hs) (auto dest: fresh_mono)

text \<open>The number of granted requests that count at any time \<open>u\<close> after the run is at most the limit.\<close>

lemma granted_bound:
  assumes "ok t0 s" "sorted (t0 # map fst cs)" "\<forall>(t, k) \<in> set cs. t \<le> u" "t0 \<le> u"
    and "length (filter (fresh u) (hits j s)) \<le> limit"
  shows "length (filter (fresh u) (hits j s)) + length (filter (fresh u) (granted allow j cs s)) \<le> limit"
  using assms
proof (induction cs arbitrary: s t0)
  case (Cons c cs)
  obtain t k where c: "c = (t, k)" by fastforce
  let ?s = "snd (allow t k s)" and ?new = "if j = k \<and> fst (allow t k s) then [t] else []"
  have t: "t0 \<le> t" "t \<le> u" using Cons.prems c by auto
  have eq: "length (filter (fresh u) (hits j ?s)) = length (filter (fresh u) (hits j s)) + length (filter (fresh u) ?new)"
    using allow_hits [OF Cons.prems(1) t] by simp
  have "length (filter (fresh u) (hits j ?s)) \<le> limit"
  proof (cases "j = k \<and> fst (allow t k s)")
    case True
    then have "length (filter (fresh t) (hits j s)) < limit" using allow_iff [OF Cons.prems(1) t(1)] by simp
    with length_filter_fresh [OF t(2), of "hits j s"] True eq show ?thesis by simp
  next
    case False
    with eq Cons.prems(5) show ?thesis by simp
  qed
  with Cons.IH [OF allow_ok [OF Cons.prems(1) t(1)]] Cons.prems c t(2)
  have "length (filter (fresh u) (hits j ?s)) + length (filter (fresh u) (granted allow j cs ?s)) \<le> limit" by simp
  with eq c show ?case by (cases "j = k \<and> fst (allow t k s)") (auto split: if_splits)
qed simp

end

section \<open>The limiters satisfy it\<close>

definition hits_ok :: "time \<Rightarrow> hit_map \<Rightarrow> bool" where
  "hits_ok t d \<longleftrightarrow> distinct (map fst d) \<and> (\<forall>(k, h) \<in> set d. sorted h \<and> (\<forall>x \<in> set h. x \<le> t))"

lemma dflt_ok: "hits_ok t d \<Longrightarrow> sorted (dflt k d) \<and> (\<forall>x \<in> set (dflt k d). x \<le> t)"
  by (fastforce simp: hits_ok_def dflt_def split: option.split dest: map_of_SomeD)

lemma hits_ok_mono: "hits_ok t d \<Longrightarrow> t \<le> u \<Longrightarrow> hits_ok u d"
  by (fastforce simp: hits_ok_def)

lemma update_in: "(j, v') \<in> set (AList.update k v d) \<Longrightarrow> (j, v') \<in> set d \<or> j = k \<and> v' = v"
  by (induction d) (auto split: if_splits)

lemma hits_ok_update:
  "hits_ok t d \<Longrightarrow> sorted h \<Longrightarrow> \<forall>x \<in> set h. x \<le> t \<Longrightarrow> hits_ok t (AList.update k h d)"
  unfolding hits_ok_def by (simp add: distinct_update) (fastforce dest: update_in)

lemma map_of_filter_value:
  "distinct (map fst d) \<Longrightarrow>
   map_of (filter (\<lambda>(k, v). Q v) d) k = (case map_of d k of Some v \<Rightarrow> if Q v then Some v else None | None \<Rightarrow> None)"
  by (induction d) (auto split: option.splits simp: map_of_eq_None_iff image_iff)

definition stale :: "time \<Rightarrow> time \<Rightarrow> time list \<Rightarrow> bool" where
  "stale window t h \<longleftrightarrow> h = [] \<or> last h \<le> t - window"

lemma dflt_cull:
  assumes "hits_ok t d"
  shows "dflt k (snd (cull_expired window t d)) = (if stale window t (dflt k d) then [] else dflt k d)"
proof -
  have eq: "snd (cull_expired window t d) = filter (\<lambda>(k, h). \<not> stale window t h) d"
    by (simp add: cull_expired_def stale_def)
  have "distinct (map fst d)" using assms by (simp add: hits_ok_def)
  then show ?thesis
    by (auto simp: dflt_def eq map_of_filter_value stale_def split: option.splits)
qed

lemma hits_ok_cull: "hits_ok t d \<Longrightarrow> hits_ok t (snd (cull_expired window t d))"
  by (auto simp: hits_ok_def cull_expired_def Let_def distinct_map_filter)

text \<open>A stale list holds no hit that counts.\<close>

lemma stale_none_fresh:
  assumes "sorted h" "stale window t h" "t \<le> u"
  shows "filter (\<lambda>x. x > u - window) h = []"
proof -
  have "x \<le> last h" if "x \<in> set h" for x
    using that assms(1) by (metis append_butlast_last_id empty_iff list.set(1) set_append sorted_append Un_iff
        last.simps last_in_set order_refl list.set_intros(1) set_ConsD)
  with assms(2,3) show ?thesis by (fastforce simp: filter_empty_conv stale_def)
qed

lemma filter_prune:
  "t \<le> u \<Longrightarrow> filter (\<lambda>x. t - window < x \<and> u - window < x) h = filter ((<) (u - (window :: time))) h"
  by (rule filter_cong) auto

lemma sorted_snoc_hits: "hits_ok t0 d \<Longrightarrow> t0 \<le> t \<Longrightarrow>
   sorted (filter P (dflt k d) @ [t]) \<and> (\<forall>x \<in> set (filter P (dflt k d) @ [t]). x \<le> t)"
  using dflt_ok [of t0 d k] by (auto simp: sorted_append sorted_wrt_filter)

text \<open>The state after pruning and sweeping, read back.\<close>

definition swept :: "time \<Rightarrow> time \<Rightarrow> str \<Rightarrow> hit_map \<Rightarrow> hit_map" where
  "swept window t k d =
     (let pruned = AList.update k (filter (\<lambda>h. h > t - window) (dflt k d)) d in
      if length pruned > SIMPLE_RATE_LIMITER_SWEEP_THRESHOLD then snd (cull_expired window t pruned) else pruned)"

lemma simple_is_allowed_swept:
  "simple_is_allowed limit window t k d =
     (if length (dflt k (swept window t k d)) \<ge> limit
      then (False, AList.update k (dflt k (swept window t k d)) (swept window t k d))
      else (True, AList.update k (dflt k (swept window t k d) @ [t]) (swept window t k d)))"
  by (simp add: simple_is_allowed_def swept_def Let_def)

lemma swept_facts:
  assumes "hits_ok t0 d" "t0 \<le> t"
  shows "hits_ok t (swept window t k d)"
    and "t \<le> u \<Longrightarrow> filter (\<lambda>x. x > u - window) (dflt j (swept window t k d)) = filter (\<lambda>x. x > u - window) (dflt j d)"
    and "dflt k (swept window t k d) = filter (\<lambda>x. x > t - window) (dflt k d)"
proof -
  let ?p = "AList.update k (filter (\<lambda>h. h > t - window) (dflt k d)) d"
  have ok: "hits_ok t ?p"
    using hits_ok_mono [OF assms] dflt_ok [OF hits_ok_mono [OF assms]]
    by (intro hits_ok_update) (auto simp: sorted_wrt_filter)
  then show "hits_ok t (swept window t k d)" by (simp add: swept_def Let_def hits_ok_cull)
  have none: "filter (\<lambda>x. x > u - window) (dflt j ?p) = []" if "stale window t (dflt j ?p)" "t \<le> u" for j u
    using stale_none_fresh [OF _ that] dflt_ok [OF ok] by blast
  show "t \<le> u \<Longrightarrow> filter (\<lambda>x. x > u - window) (dflt j (swept window t k d)) = filter (\<lambda>x. x > u - window) (dflt j d)"
    using none [of j u] by (auto simp: swept_def Let_def dflt_cull [OF ok] filter_prune)
  show "dflt k (swept window t k d) = filter (\<lambda>x. x > t - window) (dflt k d)"
    using none [of k t] by (auto simp: swept_def Let_def dflt_cull [OF ok])
qed

interpretation in_memory: window_limiter "simple_is_allowed limit window" dflt "\<lambda>u h. h > u - window" limit hits_ok
  for limit window
proof unfold_locales
  fix t0 t u h :: time and j k :: str and s :: hit_map
  show "h > t - window" if "h > u - window" "t \<le> u" using that by linarith
  assume s: "hits_ok t0 s" and t: "t0 \<le> t"
  note facts = swept_facts [OF s t, where window = window and k = k]
  show "fst (simple_is_allowed limit window t k s) \<longleftrightarrow> length (filter (\<lambda>h. h > t - window) (dflt k s)) < limit"
    by (simp add: simple_is_allowed_swept facts(3))
  show "length (filter (\<lambda>h. h > u - window) (dflt j (snd (simple_is_allowed limit window t k s)))) =
      length (filter (\<lambda>h. h > u - window) (dflt j s @ (if j = k \<and> fst (simple_is_allowed limit window t k s) then [t] else [])))"
    if "t \<le> u"
    using facts(2) [OF that] by (auto simp: simple_is_allowed_swept)
  show "hits_ok t (snd (simple_is_allowed limit window t k s))"
    using hits_ok_update [OF facts(1)] dflt_ok [OF facts(1), of k]
    by (auto simp: simple_is_allowed_swept sorted_append)
qed

interpretation subscriber_budget: window_limiter "allow_local limit window" dflt "\<lambda>u h. h > u - window" limit hits_ok
  for limit window
proof unfold_locales
  fix t0 t u h :: time and j k :: str and s :: hit_map
  show "h > t - window" if "h > u - window" "t \<le> u" using that by linarith
  assume s: "hits_ok t0 s" and t: "t0 \<le> t"
  show "fst (allow_local limit window t k s) \<longleftrightarrow> length (filter (\<lambda>h. h > t - window) (dflt k s)) < limit"
    by (simp add: allow_local_def Let_def)
  show "length (filter (\<lambda>h. h > u - window) (dflt j (snd (allow_local limit window t k s)))) =
      length (filter (\<lambda>h. h > u - window) (dflt j s @ (if j = k \<and> fst (allow_local limit window t k s) then [t] else [])))"
    if "t \<le> u"
    using that by (simp add: allow_local_def Let_def filter_prune)
  show "hits_ok t (snd (allow_local limit window t k s))"
    using hits_ok_update [OF hits_ok_mono [OF s t]] dflt_ok [OF hits_ok_mono [OF s t], of k]
    by (auto simp: allow_local_def Let_def sorted_append sorted_wrt_filter)
qed

definition ledger_hits :: "str \<Rightarrow> attempt_row list \<Rightarrow> time list" where
  "ledger_hits scope db = map at_occurred_at (filter (\<lambda>r. at_scope_hash r = scope) db)"

lemma ledger_hits_snoc:
  "ledger_hits j (db @ [r]) = ledger_hits j db @ (if at_scope_hash r = j then [at_occurred_at r] else [])"
  by (simp add: ledger_hits_def)

lemma ledger_hits_pruned:
  assumes "window \<le> rate_window" "t \<le> u"
  shows "filter (\<lambda>h. h \<ge> u - window) (ledger_hits j (prune_scope scope (t - window) (prune_expired rate_window stuffing t db)))
           = filter (\<lambda>h. h \<ge> u - window) (ledger_hits j db)"
proof -
  have "filter (\<lambda>r. at_scope_hash r = j \<and> at_occurred_at r \<ge> u - window)
          (prune_scope scope (t - window) (prune_expired rate_window stuffing t db))
        = filter (\<lambda>r. at_scope_hash r = j \<and> at_occurred_at r \<ge> u - window) db"
    using assms by (auto simp: prune_scope_def prune_expired_def intro!: filter_cong)
  then show ?thesis by (simp add: ledger_hits_def filter_map comp_def conj_commute)
qed

lemma scope_count_hits: "scope_count scope cutoff db = length (filter (\<lambda>h. h \<ge> cutoff) (ledger_hits scope db))"
  by (simp add: scope_count_def ledger_hits_def filter_map comp_def conj_commute)

interpretation ledger: window_limiter "record_in_scope max_attempts window (max window rate_window) stuffing uuid"
  ledger_hits "\<lambda>u h. h \<ge> u - window" max_attempts "\<lambda>t s. True"
  for max_attempts window rate_window stuffing uuid
proof unfold_locales
  fix t u h :: time and j k :: str and s :: "attempt_row list"
  show "h \<ge> t - window" if "h \<ge> u - window" "t \<le> u" using that by linarith
  let ?s = "prune_scope k (t - window) (prune_expired (max window rate_window) stuffing t s)"
  let ?allow = "record_in_scope max_attempts window (max window rate_window) stuffing uuid"
  have keep: "filter (\<lambda>h. h \<ge> u - window) (ledger_hits j ?s) = filter (\<lambda>h. h \<ge> u - window) (ledger_hits j s)" if "t \<le> u" for u j
    by (rule ledger_hits_pruned) (simp_all add: that)
  show "fst (?allow t k s) \<longleftrightarrow> length (filter (\<lambda>h. h \<ge> t - window) (ledger_hits k s)) < max_attempts"
    by (simp add: record_in_scope_def Let_def scope_count_hits keep)
  show "length (filter (\<lambda>h. h \<ge> u - window) (ledger_hits j (snd (?allow t k s)))) =
      length (filter (\<lambda>h. h \<ge> u - window) (ledger_hits j s @ (if j = k \<and> fst (?allow t k s) then [t] else [])))"
    if "t \<le> u"
    using keep [OF that, of j] by (auto simp: record_in_scope_def Let_def ledger_hits_snoc)
qed simp

section \<open>Properties\<close>

lemma record_rate_limit_granted:
  "granted (record_rate_limit_attempt digest n w w v uuid) key cs db
     = granted (\<lambda>t k. record_in_scope n w w v uuid t (digest (''rate:'' @ k))) key cs db"
  by (simp add: record_rate_limit_attempt_def [abs_def])

lemma granted_scope:
  assumes "\<forall>(t, k) \<in> set cs. (digest (''rate:'' @ k) = digest (''rate:'' @ key)) = (k = key)"
  shows "granted (\<lambda>t k. rec t (digest (''rate:'' @ k))) key cs db
           = granted rec (digest (''rate:'' @ key)) (map (\<lambda>(t, k). (t, digest (''rate:'' @ k))) cs) db"
  using assms by (induction cs arbitrary: db) auto

text \<open>The login throttle holds across restarts and workers: whatever requests for whatever keys reach the
  persistent ledger, in clock order and starting from an empty table, at any moment at most
  \<open>max_attempts\<close> of the requests granted to a key lie within the window (for a digest without
  collisions on the keys involved).\<close>

theorem ledger_limits_attempts:
  assumes "sorted (map fst calls)" and "\<forall>(t, k) \<in> set calls. t \<le> u"
    and "\<forall>(t, k) \<in> set calls. (digest (''rate:'' @ k) = digest (''rate:'' @ key)) = (k = key)"
  shows "length (filter (\<lambda>h. h \<ge> u - window)
           (granted (record_rate_limit_attempt digest max_attempts window window stuffing uuid) key calls [])) \<le> max_attempts"
proof -
  let ?calls = "map (\<lambda>(t, k). (t, digest (''rate:'' @ k))) calls"
  let ?t0 = "if calls = [] then u else fst (hd calls)"
  have eq: "map fst ?calls = map fst calls" by (simp add: comp_def split_def)
  have "sorted (?t0 # map fst calls)" using assms(1) by (cases calls) auto
  then have "sorted (?t0 # map fst ?calls)" unfolding eq .
  moreover have "\<forall>(t, k) \<in> set ?calls. t \<le> u" "?t0 \<le> u" using assms(2) by (auto, cases calls, auto)
  ultimately have "length (filter (\<lambda>h. h \<ge> u - window) (granted (record_in_scope max_attempts window (max window window) stuffing uuid)
      (digest (''rate:'' @ key)) ?calls [])) \<le> max_attempts"
    using ledger.granted_bound [where ?t0.0 = ?t0 and s = "[]" and cs = ?calls and u = u and j = "digest (''rate:'' @ key)"
        and window = window and max_attempts = max_attempts and rate_window = window and stuffing = stuffing and uuid = uuid]
    by (simp add: ledger_hits_def)
  then show ?thesis by (simp only: record_rate_limit_granted granted_scope [OF assms(3)] max.idem)
qed

theorem ledger_limits_attempts_witness:
  "length (filter (\<lambda>h. h \<ge> 3 - 10)
     (granted (record_rate_limit_attempt (\<lambda>s. s) 2 10 10 10 ''u'') ''ip'' [(1, ''ip''), (2, ''ip''), (3, ''ip'')] [])) \<le> 2"
  by (rule ledger_limits_attempts) simp_all

text \<open>The in-process limiters are exact window limiters: over any sequence of requests in clock order, at any
  moment at most \<open>limit\<close> of the requests granted to one key lie within the window, although stale keys
  are swept from the shared map; this holds for the authentication fallback and for the event budget of
  a subscriber.\<close>

theorem in_process_limiters_bound:
  assumes "sorted (map fst calls)" and "\<forall>(t, k) \<in> set calls. t \<le> u"
  shows "length (filter (\<lambda>h. h > u - window) (granted (simple_is_allowed limit window) key calls [])) \<le> limit \<and>
         length (filter (\<lambda>h. h > u - window) (granted (allow_local limit window) key calls [])) \<le> limit"
proof -
  let ?t0 = "if calls = [] then u else fst (hd calls)"
  have "sorted (?t0 # map fst calls)" using assms(1) by (cases calls) auto
  moreover have "?t0 \<le> u" using assms(2) by (cases calls) auto
  moreover have "hits_ok ?t0 []" by (simp add: hits_ok_def)
  ultimately show ?thesis
    using in_memory.granted_bound [of ?t0 "[]" calls u window key limit]
      subscriber_budget.granted_bound [of ?t0 "[]" calls u window key limit] assms(2)
    by (simp add: dflt_def)
qed

theorem in_process_limiters_bound_witness:
  "length (filter (\<lambda>h. h > 3 - 10) (granted (simple_is_allowed 2 10) ''ip'' [(1, ''ip''), (2, ''ip''), (3, ''ip'')] [])) \<le> 2"
proof -
  have "sorted (map fst [(1 :: time, ''ip''), (2, ''ip''), (3, ''ip'')])"
    "\<forall>(t, k) \<in> set [(1 :: time, ''ip''), (2, ''ip''), (3, ''ip'')]. t \<le> 3" by simp_all
  from in_process_limiters_bound [OF this, of 10 2] show ?thesis by blast
qed

lemma eval_with_retry_cases:
  "n \<le> REDIS_MAX_ATTEMPTS \<Longrightarrow>
   length (snd (eval_with_retry reply n)) \<le> REDIS_MAX_ATTEMPTS - n \<and>
   (fst (eval_with_retry reply n) = Retryable_error \<longleftrightarrow> (\<forall>i. n \<le> i \<and> i \<le> REDIS_MAX_ATTEMPTS \<longrightarrow> reply i = Retryable_error))"
proof (induction reply n rule: eval_with_retry.induct)
  case (1 reply n)
  show ?case
  proof (cases "reply n = Retryable_error \<and> n < REDIS_MAX_ATTEMPTS")
    case True
    then have step: "eval_with_retry reply n =
        (fst (eval_with_retry reply (Suc n)), backoff_delay n # snd (eval_with_retry reply (Suc n)))"
      by (simp add: eval_with_retry.simps [of reply n] split: prod.split)
    have IH: "length (snd (eval_with_retry reply (Suc n))) \<le> REDIS_MAX_ATTEMPTS - Suc n"
      "(fst (eval_with_retry reply (Suc n)) = Retryable_error) =
       (\<forall>i. Suc n \<le> i \<and> i \<le> REDIS_MAX_ATTEMPTS \<longrightarrow> reply i = Retryable_error)"
      using 1(1) True by auto
    have "(\<forall>i. n \<le> i \<and> i \<le> REDIS_MAX_ATTEMPTS \<longrightarrow> reply i = Retryable_error) =
          (\<forall>i. Suc n \<le> i \<and> i \<le> REDIS_MAX_ATTEMPTS \<longrightarrow> reply i = Retryable_error)"
      using True by (metis Suc_le_eq le_less)
    moreover have "Suc (length (snd (eval_with_retry reply (Suc n)))) \<le> REDIS_MAX_ATTEMPTS - n"
      using IH(1) True by arith
    ultimately show ?thesis using IH(2) by (simp add: step)
  next
    case False
    then have "eval_with_retry reply n = (reply n, [])"
      by (cases "reply n") (simp_all add: eval_with_retry.simps [of reply n])
    with False 1(2) show ?thesis by (auto dest: spec [of _ n] le_antisym)
  qed
qed

text \<open>A Redis outage costs at most two sleeps and then trips the circuit: the retry loop gives up exactly when all
  three attempts failed with a retryable error, sleeps at most twice, and until the circuit resets
  every further check without a session is answered by the in-process limiter without asking Redis.\<close>

theorem redis_outage_falls_back:
  assumes "ls_use_redis st" and "\<not> ls_always_eager st" and "\<not> circuit_open t l"
    and "\<forall>i \<in> {1, 2, 3}. reply i = Retryable_error" and "t \<le> u" and "u < t + ls_circuit_reset st"
    and "redis_is_allowed st reply t key l = (b, l')"
  shows "b = fst (simple_is_allowed (ls_limit st) (ls_window st) t key (fallback_map l)) \<and>
         length (snd (eval_with_retry reply 1)) \<le> 2 \<and>
         redis_is_allowed st reply' u key' l' = use_fallback st u key' l'"
proof -
  have "fst (eval_with_retry reply 1) = Retryable_error"
  proof -
    have "reply i = Retryable_error" if "1 \<le> i" "i \<le> 3" for i
      using assms(4) that by (cases "i = 1 \<or> i = 2 \<or> i = 3") auto
    then show ?thesis using eval_with_retry_cases [of 1 reply] by (simp add: REDIS_MAX_ATTEMPTS_def)
  qed
  moreover have "length (snd (eval_with_retry reply 1)) \<le> 2"
    using eval_with_retry_cases [of 1 reply] by (simp add: REDIS_MAX_ATTEMPTS_def)
  ultimately show ?thesis
    using assms by (auto simp: redis_is_allowed_def use_fallback_def trip_circuit_def circuit_open_def split: prod.splits)
qed

theorem redis_outage_falls_back_witness:
  "\<exists>b l'. redis_is_allowed \<lparr>ls_limit = 1, ls_window = 300, ls_circuit_reset = 30, ls_use_redis = True, ls_always_eager = False\<rparr>
       (\<lambda>_. Retryable_error) 5 ''ip'' \<lparr>disabled_until = None, fallback_map = []\<rparr> = (b, l') \<and>
     redis_is_allowed \<lparr>ls_limit = 1, ls_window = 300, ls_circuit_reset = 30, ls_use_redis = True, ls_always_eager = False\<rparr>
       (\<lambda>_. Answer True) 6 ''ip'' l'
     = use_fallback \<lparr>ls_limit = 1, ls_window = 300, ls_circuit_reset = 30, ls_use_redis = True, ls_always_eager = False\<rparr> 6 ''ip'' l'"
proof -
  let ?st = "\<lparr>ls_limit = 1, ls_window = 300, ls_circuit_reset = 30, ls_use_redis = True, ls_always_eager = False\<rparr>"
  let ?l = "\<lparr>disabled_until = None, fallback_map = []\<rparr>"
  obtain b l' where r: "redis_is_allowed ?st (\<lambda>_. Retryable_error) 5 ''ip'' ?l = (b, l')" by fastforce
  have "redis_is_allowed ?st (\<lambda>_. Answer True) 6 ''ip'' l' = use_fallback ?st 6 ''ip'' l'"
    using redis_outage_falls_back [OF _ _ _ _ _ _ r, of 6 "\<lambda>_. Answer True" "''ip''"] by (simp add: circuit_open_def)
  with r show ?thesis by blast
qed

text \<open>With a database session the Redis limiter never consults Redis: its verdict is the ledger's verdict, and every
  granted request made while Redis is enabled and the circuit is closed trips the circuit.\<close>

theorem session_limiter_ignores_redis:
  "fst (redis_is_allowed_db digest st v uuid t key db l)
     = fst (record_rate_limit_attempt digest (ls_limit st) (ls_window st) (ls_window st) v uuid t key db) \<and>
   (fst (redis_is_allowed_db digest st v uuid t key db l) \<and> ls_use_redis st \<and> \<not> ls_always_eager st \<and> 0 < ls_circuit_reset st
     \<longrightarrow> circuit_open t (snd (snd (redis_is_allowed_db digest st v uuid t key db l))))"
  by (auto simp: redis_is_allowed_db_def circuit_open_def trip_circuit_def split: prod.splits bool.splits option.splits)

theorem session_limiter_ignores_redis_witness:
  "circuit_open 5 (snd (snd (redis_is_allowed_db (\<lambda>s. s)
     \<lparr>ls_limit = 1, ls_window = 300, ls_circuit_reset = 30, ls_use_redis = True, ls_always_eager = False\<rparr> 300 ''u'' 5 ''ip'' []
     \<lparr>disabled_until = None, fallback_map = []\<rparr>)))"
proof -
  let ?st = "\<lparr>ls_limit = 1, ls_window = 300, ls_circuit_reset = 30, ls_use_redis = True, ls_always_eager = False\<rparr>"
  have "fst (record_rate_limit_attempt (\<lambda>s. s) 1 300 300 300 ''u'' 5 ''ip'' [])"
    by (simp add: record_rate_limit_attempt_def record_in_scope_def prune_scope_def prune_expired_def scope_count_def)
  with session_limiter_ignores_redis [of "\<lambda>s. s" ?st 300 "''u''" 5 "''ip''" "[]" "\<lparr>disabled_until = None, fallback_map = []\<rparr>"]
  show ?thesis by simp
qed

end
