(* ===== verification/Network.thy ===== *)
theory Network
  imports Strings "HOL-Library.Word"
begin

text \<open>
  Destination checks for outgoing webhooks: \<^verbatim>\<open>app/utils/network_validation.py\<close>,
  \<^verbatim>\<open>app/utils/hostname_label_match.py\<close>, \<^verbatim>\<open>app/services/webhook_ip_pinning.py\<close> and
  \<^verbatim>\<open>app/services/webhook_dispatch_revalidation.py\<close>.

  The parts of the standard library the checks stand on are modelled as CPython 3.11 has them: \<open>urllib.parse.urlparse\<close>
  on ASCII text with the \<open>hostname\<close> and \<open>port\<close> properties, and \<open>ipaddress.ip_address\<close> with its address
  classes over 32-bit and 128-bit words.  \<open>socket.getaddrinfo\<close> is an argument: the textual addresses a host resolves
  to, \<^term>\<open>None\<close> where it raises \<open>gaierror\<close>.
\<close>

section \<open>Addresses\<close>

datatype ip_addr = V4 "32 word" | V6 "128 word"

definition parse_octet :: "string \<Rightarrow> nat option" where
  "parse_octet s =
     (if s = [] \<or> \<not> list_all is_digit s \<or> length s > 3 \<or> (s \<noteq> ''0'' \<and> hd s = CHR ''0'') \<or> decimal_value s > 255
      then None else Some (decimal_value s))"

definition parse_ipv4 :: "string \<Rightarrow> 32 word option" where
  "parse_ipv4 s =
     (case map parse_octet (split_char (CHR ''.'') s) of
        [Some a, Some b, Some c, Some d] \<Rightarrow> Some (word_of_nat (((a * 256 + b) * 256 + c) * 256 + d))
      | _ \<Rightarrow> None)"

definition parse_hextet :: "string \<Rightarrow> nat option" where
  "parse_hextet s =
     (if s = [] \<or> length s > 4 \<or> list_ex (\<lambda>c. hex_value c = None) s then None
      else Some (foldl (\<lambda>n c. 16 * n + the (hex_value c)) 0 s))"

fun parse_hextets :: "nat \<Rightarrow> string list \<Rightarrow> nat option" where
  "parse_hextets n [] = Some n"
| "parse_hextets n (p # ps) = (case parse_hextet p of None \<Rightarrow> None | Some h \<Rightarrow> parse_hextets (65536 * n + h) ps)"

text \<open>A dotted-quad tail stands for two groups.\<close>

definition expand_ipv4_tail :: "string list \<Rightarrow> string list option" where
  "expand_ipv4_tail parts =
     (if CHR ''.'' \<in> set (last parts) then
        (case parse_ipv4 (last parts) of
           None \<Rightarrow> None
         | Some w \<Rightarrow> Some (butlast parts @ [hex_of_nat (unat w div 65536), hex_of_nat (unat w mod 65536)]))
      else Some parts)"

text \<open>The groups before and after \<open>::\<close> and the number of groups it stands for.\<close>

definition hextet_layout :: "string list \<Rightarrow> (string list \<times> nat \<times> string list) option" where
  "hextet_layout parts =
     (case filter (\<lambda>i. parts ! i = []) [1..<length parts - 1] of
        [] \<Rightarrow> if length parts \<noteq> 8 \<or> hd parts = [] \<or> last parts = [] then None else Some (parts, 0, [])
      | [i] \<Rightarrow>
          (let hi = (if hd parts = [] then i - 1 else i);
               lo = (if last parts = [] then length parts - i - 2 else length parts - i - 1) in
           if hd parts = [] \<and> hi \<noteq> 0 \<or> last parts = [] \<and> lo \<noteq> 0 \<or> hi + lo > 7 then None
           else Some (take hi parts, 8 - (hi + lo), drop (length parts - lo) parts))
      | _ \<Rightarrow> None)"

definition parse_ipv6 :: "string \<Rightarrow> 128 word option" where
  "parse_ipv6 s =
     (case partition_at (CHR ''%'') s of (addr, scope_id) \<Rightarrow>
        if CHR ''/'' \<in> set s \<or> CHR ''%'' \<in> set s \<and> (scope_id = [] \<or> CHR ''%'' \<in> set scope_id) then None
        else
          (let parts0 = split_char (CHR '':'') addr in
           if length parts0 < 3 then None
           else
             (case expand_ipv4_tail parts0 of
                None \<Rightarrow> None
              | Some parts \<Rightarrow>
                  if length parts > 9 then None
                  else
                    (case hextet_layout parts of
                       None \<Rightarrow> None
                     | Some (hi, skipped, lo) \<Rightarrow>
                         (case parse_hextets 0 hi of
                            None \<Rightarrow> None
                          | Some n \<Rightarrow> map_option word_of_nat (parse_hextets (n * 65536 ^ skipped) lo))))))"

definition ip_address :: "string \<Rightarrow> ip_addr option" where
  "ip_address s = (case parse_ipv4 s of Some w \<Rightarrow> Some (V4 w) | None \<Rightarrow> map_option V6 (parse_ipv6 s))"

text \<open>Membership in a network \<open>address/prefix\<close> compares the leading bits.\<close>

definition quad :: "nat \<Rightarrow> nat \<Rightarrow> nat \<Rightarrow> nat \<Rightarrow> 32 word" where
  "quad a b c d = word_of_nat (((a * 256 + b) * 256 + c) * 256 + d)"

definition in_net :: "'w::len word \<Rightarrow> 'w word \<times> nat \<Rightarrow> bool" where
  "in_net w net = (case net of (a, p) \<Rightarrow> drop_bit (LENGTH('w) - p) w = drop_bit (LENGTH('w) - p) a)"

text \<open>A 128-bit network given by its first four 16-bit groups; the remaining groups are zero.\<close>

definition groups :: "nat \<Rightarrow> nat \<Rightarrow> nat \<Rightarrow> nat \<Rightarrow> 128 word" where
  "groups a b c d = word_of_nat ((((a * 65536 + b) * 65536 + c) * 65536 + d) * 65536 ^ 4)"

definition v4_private_networks :: "(32 word \<times> nat) list" where
  "v4_private_networks =
     [(quad 0 0 0 0, 8), (quad 10 0 0 0, 8), (quad 127 0 0 0, 8), (quad 169 254 0 0, 16), (quad 172 16 0 0, 12),
      (quad 192 0 0 0, 24), (quad 192 0 0 170, 31), (quad 192 0 2 0, 24), (quad 192 168 0 0, 16),
      (quad 198 18 0 0, 15), (quad 198 51 100 0, 24), (quad 203 0 113 0, 24), (quad 240 0 0 0, 4),
      (quad 255 255 255 255, 32)]"

definition v4_private_exceptions :: "(32 word \<times> nat) list" where
  "v4_private_exceptions = [(quad 192 0 0 9, 32), (quad 192 0 0 10, 32)]"

definition v6_private_networks :: "(128 word \<times> nat) list" where
  "v6_private_networks =
     [(1, 128), (0, 128), (word_of_nat (65535 * 65536 ^ 2), 96), (groups 0x64 0xff9b 1 0, 48), (groups 0x100 0 0 0, 64),
      (groups 0x2001 0 0 0, 23), (groups 0x2001 0xdb8 0 0, 32), (groups 0x2002 0 0 0, 16), (groups 0xfc00 0 0 0, 7),
      (groups 0xfe80 0 0 0, 10)]"

definition v6_private_exceptions :: "(128 word \<times> nat) list" where
  "v6_private_exceptions =
     [(groups 0x2001 1 0 0 + 1, 128), (groups 0x2001 1 0 0 + 2, 128), (groups 0x2001 3 0 0, 32),
      (groups 0x2001 4 0x112 0, 48), (groups 0x2001 0x20 0 0, 28), (groups 0x2001 0x30 0 0, 28)]"

definition v6_reserved_networks :: "(128 word \<times> nat) list" where
  "v6_reserved_networks =
     [(0, 8), (groups 0x100 0 0 0, 8), (groups 0x200 0 0 0, 7), (groups 0x400 0 0 0, 6), (groups 0x800 0 0 0, 5),
      (groups 0x1000 0 0 0, 4), (groups 0x4000 0 0 0, 3), (groups 0x6000 0 0 0, 3), (groups 0x8000 0 0 0, 3),
      (groups 0xA000 0 0 0, 3), (groups 0xC000 0 0 0, 3), (groups 0xE000 0 0 0, 4), (groups 0xF000 0 0 0, 5),
      (groups 0xF800 0 0 0, 6), (groups 0xFE00 0 0 0, 9)]"

fun is_loopback :: "ip_addr \<Rightarrow> bool" where
  "is_loopback (V4 w) = in_net w (quad 127 0 0 0, 8)"
| "is_loopback (V6 w) = (w = 1)"

fun is_link_local :: "ip_addr \<Rightarrow> bool" where
  "is_link_local (V4 w) = in_net w (quad 169 254 0 0, 16)"
| "is_link_local (V6 w) = in_net w (groups 0xfe80 0 0 0, 10)"

fun is_multicast :: "ip_addr \<Rightarrow> bool" where
  "is_multicast (V4 w) = in_net w (quad 224 0 0 0, 4)"
| "is_multicast (V6 w) = in_net w (groups 0xff00 0 0 0, 8)"

fun is_reserved :: "ip_addr \<Rightarrow> bool" where
  "is_reserved (V4 w) = in_net w (quad 240 0 0 0, 4)"
| "is_reserved (V6 w) = list_ex (in_net w) v6_reserved_networks"

definition v4_is_private :: "32 word \<Rightarrow> bool" where
  "v4_is_private w = (list_ex (in_net w) v4_private_networks \<and> \<not> list_ex (in_net w) v4_private_exceptions)"

text \<open>An IPv4-mapped address \<open>::ffff:a.b.c.d\<close> is judged as the address it embeds.\<close>

fun is_private :: "ip_addr \<Rightarrow> bool" where
  "is_private (V4 w) = v4_is_private w"
| "is_private (V6 w) =
     (if drop_bit 32 w = word_of_nat 65535 then v4_is_private (ucast w)
      else list_ex (in_net w) v6_private_networks \<and> \<not> list_ex (in_net w) v6_private_exceptions)"

section \<open>URLs\<close>

text \<open>What the checks read of \<open>urlparse(url)\<close>.\<close>

record parse_result =
  up_scheme :: str
  up_netloc :: str
  up_fragment :: str

definition scheme_char :: "char \<Rightarrow> bool" where
  "scheme_char c \<longleftrightarrow> is_letter c \<or> is_digit c \<or> c \<in> {CHR ''+'', CHR ''-'', CHR ''.''}"

definition split_scheme :: "string \<Rightarrow> string \<times> string" where
  "split_scheme u =
     (case partition_at (CHR '':'') u of (s, rest) \<Rightarrow>
        if CHR '':'' \<in> set u \<and> s \<noteq> [] \<and> is_letter (hd s) \<and> list_all scheme_char s then (py_lower s, rest) else ([], u))"

text \<open>\<open>_check_bracketed_host\<close>: an IPvFuture literal, or an address that is not IPv4.\<close>

definition bracketed_host_ok :: "string \<Rightarrow> bool" where
  "bracketed_host_ok h =
     (case h of
        c # cs \<Rightarrow>
          if c = CHR ''v'' then
            (let ds = takeWhile (\<lambda>d. hex_value d \<noteq> None) cs; rest = drop (length ds) cs in
             ds \<noteq> [] \<and> length rest \<ge> 2 \<and> hd rest = CHR ''.'')
          else (case ip_address h of Some (V6 _) \<Rightarrow> True | _ \<Rightarrow> False)
      | [] \<Rightarrow> False)"

definition netloc_ok :: "string \<Rightarrow> bool" where
  "netloc_ok n \<longleftrightarrow>
     (CHR ''['' \<in> set n \<longleftrightarrow> CHR '']'' \<in> set n) \<and>
     (CHR ''['' \<in> set n \<longrightarrow> bracketed_host_ok (fst (partition_at (CHR '']'') (snd (partition_at (CHR ''['') n)))))"

definition urlparse :: "string \<Rightarrow> exn + parse_result" where
  "urlparse url0 =
     (let url1 = filter (\<lambda>c. c \<notin> {CHR 0x09, CHR 0x0A, CHR 0x0D}) (dropWhile (\<lambda>c. (of_char c :: nat) \<le> 32) url0) in
      case split_scheme url1 of (scheme, url2) \<Rightarrow>
        (case (if take 2 url2 = ''//'' then
                 (takeWhile (\<lambda>c. c \<notin> set ''/?#'') (drop 2 url2), dropWhile (\<lambda>c. c \<notin> set ''/?#'') (drop 2 url2))
               else ([], url2)) of (netloc, rest) \<Rightarrow>
           if netloc_ok netloc
           then Inr \<lparr>up_scheme = scheme, up_netloc = netloc, up_fragment = snd (partition_at (CHR ''#'') rest)\<rparr>
           else Inl ValueError))"

definition hostinfo :: "parse_result \<Rightarrow> string \<times> string" where
  "hostinfo p =
     (let info = after_last (CHR ''@'') (up_netloc p) in
      if CHR ''['' \<in> set info then
        (case partition_at (CHR '']'') (snd (partition_at (CHR ''['') info)) of (h, rest) \<Rightarrow>
           (h, snd (partition_at (CHR '':'') rest)))
      else partition_at (CHR '':'') info)"

text \<open>\<open>parsed.hostname or ""\<close>: lower case up to a zone identifier.\<close>

definition hostname_of :: "parse_result \<Rightarrow> string" where
  "hostname_of p = (let h = fst (hostinfo p) in
     py_lower (takeWhile (\<lambda>c. c \<noteq> CHR ''%'') h) @ dropWhile (\<lambda>c. c \<noteq> CHR ''%'') h)"

definition port_of :: "parse_result \<Rightarrow> exn + nat option" where
  "port_of p =
     (let s = snd (hostinfo p) in
      if s = [] then Inr None
      else if \<not> list_all is_digit s \<or> decimal_value s > 65535 then Inl ValueError
      else Inr (Some (decimal_value s)))"

section \<open>Validation\<close>

record network_settings =
  ns_environment :: str
  ns_url_allowlist :: "str list"
  ns_validator_bypass :: bool
  ns_allow_private :: bool

fun collect_ips :: "nat \<Rightarrow> str list \<Rightarrow> str list \<Rightarrow> str list" where
  "collect_ips max_results ips [] = ips"
| "collect_ips max_results ips (ip # results) =
     (let ips' = (if ip \<in> set ips then ips else ips @ [ip]) in
      if length ips' \<ge> max_results then ips' else collect_ips max_results ips' results)"

definition resolve_host :: "(str \<Rightarrow> str list option) \<Rightarrow> str \<Rightarrow> nat \<Rightarrow> exn + str list" where
  "resolve_host getaddrinfo hostname max_results =
     (if hostname = [] then Inl NetworkValidationError
      else
        (case getaddrinfo hostname of
           None \<Rightarrow> Inl NetworkValidationError
         | Some addr_info \<Rightarrow>
             (let ips = collect_ips max_results [] addr_info in
              if ips = [] then Inl NetworkValidationError else Inr ips)))"

definition CLOUD_METADATA_ADDRESSES :: "ip_addr set" where
  "CLOUD_METADATA_ADDRESSES = {V4 (quad 169 254 169 254)}"

definition validate_ip_address :: "network_settings \<Rightarrow> str \<Rightarrow> exn + unit" where
  "validate_ip_address cfg ip_str =
     (case ip_address ip_str of
        None \<Rightarrow> Inl NetworkValidationError
      | Some ip \<Rightarrow>
          if is_loopback ip then Inl NetworkValidationError
          else if is_link_local ip then Inl NetworkValidationError
          else if is_multicast ip then Inl NetworkValidationError
          else if ip \<in> CLOUD_METADATA_ADDRESSES then Inl NetworkValidationError
          else if is_reserved ip then Inl NetworkValidationError
          else if is_private ip \<and> \<not> ns_allow_private cfg then Inl NetworkValidationError
          else Inr ())"

fun validate_all :: "network_settings \<Rightarrow> str list \<Rightarrow> exn + unit" where
  "validate_all cfg [] = Inr ()"
| "validate_all cfg (ip # ips) = (case validate_ip_address cfg ip of Inl e \<Rightarrow> Inl e | Inr _ \<Rightarrow> validate_all cfg ips)"

definition validate_webhook_url :: "network_settings \<Rightarrow> (str \<Rightarrow> str list option) \<Rightarrow> str \<Rightarrow> exn + str list" where
  "validate_webhook_url cfg getaddrinfo url =
     (case urlparse url of
        Inl e \<Rightarrow> Inl e
      | Inr parsed \<Rightarrow>
          (case port_of parsed of
             Inl _ \<Rightarrow> Inl NetworkValidationError
           | Inr port \<Rightarrow>
               if port \<noteq> None \<and> port \<notin> {Some 80, Some 443} then Inl NetworkValidationError
               else if up_fragment parsed \<noteq> [] then Inl NetworkValidationError
               else if up_scheme parsed \<notin> {''http'', ''https''} then Inl NetworkValidationError
               else if ns_environment cfg \<noteq> ''local'' \<and> up_scheme parsed \<noteq> ''https'' then Inl NetworkValidationError
               else if ns_url_allowlist cfg \<noteq> [] \<and> \<not> list_ex (\<lambda>allowed. starts_with allowed url) (ns_url_allowlist cfg)
               then Inl NetworkValidationError
               else if ns_validator_bypass cfg \<and> ns_environment cfg = ''local''
               then resolve_host getaddrinfo (hostname_of parsed) 5
               else if py_lower (hostname_of parsed) = ''localhost'' then Inl NetworkValidationError
               else
                 (case resolve_host getaddrinfo (hostname_of parsed) 5 of
                    Inl e \<Rightarrow> Inl e
                  | Inr resolved_ips \<Rightarrow>
                      (case validate_all cfg resolved_ips of Inl e \<Rightarrow> Inl e | Inr _ \<Rightarrow> Inr resolved_ips))))"

definition validate_webhook_url_and_rewrite ::
  "network_settings \<Rightarrow> (str \<Rightarrow> str list option) \<Rightarrow> str \<Rightarrow> exn + str list" where
  "validate_webhook_url_and_rewrite cfg getaddrinfo url =
     (if ns_validator_bypass cfg \<and> ns_environment cfg = ''local'' then
        (case urlparse url of Inl e \<Rightarrow> Inl e | Inr parsed \<Rightarrow> resolve_host getaddrinfo (hostname_of parsed) 5)
      else validate_webhook_url cfg getaddrinfo url)"

section \<open>Host names and pinned addresses\<close>

definition labels_of :: "string \<Rightarrow> string list" where
  "labels_of h = split_char (CHR ''.'') (py_lower (rstrip_char (CHR ''.'') h))"

definition hostname_matches_allowlist :: "str \<Rightarrow> str \<Rightarrow> bool" where
  "hostname_matches_allowlist hostname allowlist_entry =
     (let host_labels = labels_of hostname; allow_labels = labels_of allowlist_entry in
      if length host_labels < length allow_labels then False
      else drop (length host_labels - length allow_labels) host_labels = allow_labels)"

definition assert_ip_pinned :: "str \<Rightarrow> str list \<Rightarrow> exn + unit" where
  "assert_ip_pinned dispatch_ip resolved_ips = (if dispatch_ip \<notin> set resolved_ips then Inl ResolvedIpDriftError else Inr ())"

definition revalidate_before_dispatch :: "str \<Rightarrow> (str \<Rightarrow> str list) \<Rightarrow> (str \<Rightarrow> bool) \<Rightarrow> exn + str list" where
  "revalidate_before_dispatch hostname resolve_fn is_public_ip_fn =
     (let fresh_ips = resolve_fn hostname in
      if \<not> list_all is_public_ip_fn fresh_ips then Inl DeliveryRevalidationFailed else Inr fresh_ips)"


section \<open>What a validated address is\<close>

text \<open>
  The destinations the validator lets through, by leading octet and leading group: IPv4 outside the unspecified, private,
  loopback, link-local, multicast and reserved blocks; IPv6 in the global unicast block without 6to4, or in the
  deprecated site-local block, which none of the tests covers.
\<close>

fun public_ip :: "ip_addr \<Rightarrow> bool" where
  "public_ip (V4 w) =
     (let a = unat w div 2 ^ 24; b = unat w div 2 ^ 16 mod 256 in
      a \<notin> {0, 10, 127} \<and> a < 224 \<and> \<not> (a = 169 \<and> b = 254) \<and> \<not> (a = 172 \<and> 16 \<le> b \<and> b \<le> 31) \<and> \<not> (a = 192 \<and> b = 168))"
| "public_ip (V6 w) =
     (let g = unat w div 2 ^ 112 in 0x2000 \<le> g \<and> g < 0x4000 \<and> g \<noteq> 0x2002 \<or> 0xfec0 \<le> g \<and> g \<le> 0xfeff)"

lemma div_range: "0 < k \<Longrightarrow> (n :: nat) div k = q \<longleftrightarrow> q * k \<le> n \<and> n < q * k + k"
  by (metis add.commute div_mult_self1_is_m div_nat_eqI dividend_less_div_times mult.commute mult_Suc times_div_less_eq_dividend)

lemma past_block: "(n :: nat) div k \<noteq> q \<Longrightarrow> 0 < k \<Longrightarrow> q * k \<le> n \<Longrightarrow> q * k + k \<le> n"
  by (auto simp: div_range)

lemma in_net_unat:
  fixes w :: "'w::len word"
  shows "in_net w (a, p) \<longleftrightarrow> unat w div 2 ^ (LENGTH('w) - p) = unat a div 2 ^ (LENGTH('w) - p)"
  unfolding in_net_def prod.case word_unat_eq_iff unat_drop_bit_eq
  unfolding drop_bit_eq_div ..

lemma in_net_v4: "in_net (w :: 32 word) (a, p) \<longleftrightarrow> unat w div 2 ^ (32 - p) = unat a div 2 ^ (32 - p)"
  by (simp add: in_net_unat)

lemma in_net_v6: "in_net (w :: 128 word) (a, p) \<longleftrightarrow> unat w div 2 ^ (128 - p) = unat a div 2 ^ (128 - p)"
  by (simp add: in_net_unat)

lemma unat_quad:
  assumes "a < 256" "b < 256" "c < 256" "d < 256"
  shows "unat (quad a b c d) = ((a * 256 + b) * 256 + c) * 256 + d"
  unfolding quad_def unat_of_nat by (rule mod_less) (use assms in simp)

lemma unat_groups:
  assumes "a < 65536" "b < 65536" "c < 65536" "d < 65536"
  shows "unat (groups a b c d) = (((a * 65536 + b) * 65536 + c) * 65536 + d) * 65536 ^ 4"
  unfolding groups_def unat_of_nat by (rule mod_less) (use assms in simp)

lemma v4_passes_public:
  assumes "\<not> is_loopback (V4 w)" "\<not> is_link_local (V4 w)" "\<not> is_multicast (V4 w)" "\<not> is_reserved (V4 w)" "\<not> is_private (V4 w)"
  shows "public_ip (V4 w)"
proof -
  define a b where ab: "a = unat w div 2 ^ 24" "b = unat w div 2 ^ 16 mod 256"
  have "unat w < 2 ^ 32" using unsigned_less [of w] by simp
  then have a: "a < 256" by (simp add: ab div_less_iff_less_mult)
  have c: "unat w div 2 ^ 16 = 256 * a + b"
    using mult_div_mod_eq [of 256 "unat w div 2 ^ 16"] by (simp add: ab div_mult2_eq [symmetric])
  have b: "b < 256" by (simp add: ab)
  have t: "unat w div 2 ^ 28 = a div 16" "unat w div 2 ^ 20 = (256 * a + b) div 16"
    unfolding c [symmetric] by (simp_all add: ab(1) div_mult2_eq [symmetric])
  note t = t [simplified] c [simplified] ab(1) [symmetric, simplified]
  have ne: "unat w \<noteq> 3221225481" "unat w \<noteq> 3221225482" if "256 * a + b \<noteq> 49152"
    using that c by auto
  have f: "a div 16 \<noteq> 14" "a div 16 \<noteq> 15" "256 * a + b \<noteq> 43518" "a \<noteq> 127"
    using assms(1-4) by (simp_all add: in_net_v4 unat_quad t)
  have p: "a \<noteq> 0 \<and> a \<noteq> 10 \<and> (256 * a + b) div 16 \<noteq> 2753 \<and> 256 * a + b \<noteq> 49320"
  proof (cases "256 * a + b = 49152")
    case True
    with b have "a = 192" by presburger
    with True have "a = 192 \<and> b = 0" by simp
    then show ?thesis by simp
  next
    case False
    have "\<not> list_ex (in_net w) v4_private_networks"
      using assms(5) ne [OF False] by (simp add: v4_is_private_def v4_private_exceptions_def in_net_v4 unat_quad)
    then show ?thesis by (simp add: v4_private_networks_def in_net_v4 unat_quad t)
  qed
  have "a < 224" using f(1,2) a by (simp add: div_range)
  moreover have "\<not> (a = 172 \<and> 16 \<le> b \<and> b \<le> 31)" using p b by (auto simp: div_range)
  moreover have "\<not> (a = 169 \<and> b = 254)" "\<not> (a = 192 \<and> b = 168)" using f(3) p by auto
  ultimately show ?thesis using f(4) p by (simp add: Let_def ab [symmetric, simplified])
qed

lemma unat_word_65535: "unat (word_of_nat 65535 :: 128 word) = 65535"
  by simp

lemma in_net_coarser:
  fixes w :: "'w::len word"
  assumes "in_net w (a, p)" "q \<le> p" "p \<le> LENGTH('w)"
  shows "in_net w (a, q)"
proof -
  have "LENGTH('w) - q = (LENGTH('w) - p) + (p - q)" using assms by simp
  with assms(1) show ?thesis by (simp add: in_net_unat power_add div_mult2_eq)
qed

lemma v6_exception_group:
  assumes "list_ex (in_net w) v6_private_exceptions"
  shows "unat w div 2 ^ 112 = 0x2001"
proof -
  from assms have "list_ex (\<lambda>(a, p). in_net w (a, 16)) v6_private_exceptions"
    unfolding v6_private_exceptions_def by (auto intro: in_net_coarser)
  then show ?thesis by (auto simp: v6_private_exceptions_def in_net_v6 groups_def)
qed

lemma v6_not_private:
  assumes "\<not> is_private (V6 w)" "0 < unat w div 2 ^ 112" "unat w div 2 ^ 112 \<noteq> 0x2001"
  shows "\<not> list_ex (in_net w) v6_private_networks"
proof -
  have "drop_bit 32 w \<noteq> word_of_nat 65535"
  proof
    assume "drop_bit 32 w = word_of_nat 65535"
    then have "unat w div 2 ^ 32 = 65535" by (metis drop_bit_eq_div unat_drop_bit_eq unat_word_65535)
    then have "unat w < 2 ^ 112" by (simp add: div_range)
    with assms(2) show False by simp
  qed
  with assms(1) v6_exception_group assms(3) show ?thesis by auto
qed

lemma v6_passes_public:
  assumes "\<not> is_link_local (V6 w)" "\<not> is_multicast (V6 w)" "\<not> is_reserved (V6 w)" "\<not> is_private (V6 w)"
  shows "public_ip (V6 w)"
proof -
  define g where "g = unat w div 2 ^ 112"
  have "unat w < 2 ^ 128" using unsigned_less [of w] by simp
  then have g: "g < 65536" by (simp add: g_def div_less_iff_less_mult)
  have top: "unat w div 2 ^ (112 + k) = g div 2 ^ k" for k
    by (simp add: g_def power_add div_mult2_eq)
  note t = top [of 8, simplified] top [of 9, simplified] top [of 10, simplified] top [of 11, simplified] top [of 12, simplified]
    top [of 13, simplified] top [of 7, simplified] top [of 6, simplified] top [of 0, simplified]
  have "g div 256 \<noteq> 0 \<and> g div 256 \<noteq> 1 \<and> g div 512 \<noteq> 1 \<and> g div 1024 \<noteq> 1 \<and> g div 2048 \<noteq> 1 \<and> g div 4096 \<noteq> 1 \<and>
      g div 8192 \<noteq> 2 \<and> g div 8192 \<noteq> 3 \<and> g div 8192 \<noteq> 4 \<and> g div 8192 \<noteq> 5 \<and> g div 8192 \<noteq> 6 \<and>
      g div 4096 \<noteq> 14 \<and> g div 2048 \<noteq> 30 \<and> g div 1024 \<noteq> 62 \<and> g div 128 \<noteq> 508 \<and> g div 64 \<noteq> 1018 \<and> g div 256 \<noteq> 255"
    using assms(1-3) by (simp add: v6_reserved_networks_def in_net_v6 unat_groups t)
  then have f: "g div 256 \<noteq> 0" "g div 256 \<noteq> 1" "g div 512 \<noteq> 1" "g div 1024 \<noteq> 1" "g div 2048 \<noteq> 1" "g div 4096 \<noteq> 1"
    "g div 8192 \<noteq> 2" "g div 8192 \<noteq> 3" "g div 8192 \<noteq> 4" "g div 8192 \<noteq> 5" "g div 8192 \<noteq> 6"
    "g div 4096 \<noteq> 14" "g div 2048 \<noteq> 30" "g div 1024 \<noteq> 62" "g div 128 \<noteq> 508" "g div 64 \<noteq> 1018" "g div 256 \<noteq> 255"
    by blast+
  have blocked: "\<not> in_net w net" if "net \<in> set v6_private_networks" "0 < g" "g \<noteq> 0x2001" for net
    using v6_not_private [OF assms(4)] that unfolding g_def by (auto simp: list_ex_iff)
  have low: "8192 \<le> g"
    using past_block [OF f(1)] past_block [OF f(2)] past_block [OF f(3)] past_block [OF f(4)] past_block [OF f(5)]
      past_block [OF f(6)] by simp
  have mid: "64512 \<le> g" if "16384 \<le> g"
    using that past_block [OF f(7)] past_block [OF f(8)] past_block [OF f(9)] past_block [OF f(10)] past_block [OF f(11)]
      past_block [OF f(12)] past_block [OF f(13)] past_block [OF f(14)] by simp
  have top: "65216 \<le> g" "g < 65280" if "16384 \<le> g"
  proof -
    from mid [OF that] have m: "64512 \<le> g" .
    have "g div 512 \<noteq> 126"
      using blocked [of "(groups 0xfc00 0 0 0, 7)"] m by (simp add: v6_private_networks_def in_net_v6 unat_groups t)
    from past_block [OF this] past_block [OF f(15)] past_block [OF f(16)] m show "65216 \<le> g" by simp
    then show "g < 65280" using past_block [OF f(17)] g by linarith
  qed
  from low top have "8192 \<le> g \<and> g < 16384 \<or> 65216 \<le> g \<and> g < 65280" by linarith
  moreover have "g \<noteq> 0x2002"
    using blocked [of "(groups 0x2002 0 0 0, 16)"] by (auto simp: v6_private_networks_def in_net_v6 unat_groups t)
  ultimately show ?thesis by (auto simp: Let_def g_def [symmetric, simplified])
qed


section \<open>Validated destinations\<close>

lemma collect_ips_facts:
  assumes "distinct ips" "length ips < n"
  shows "distinct (collect_ips n ips rs) \<and> length (collect_ips n ips rs) \<le> n \<and> set (collect_ips n ips rs) \<subseteq> set ips \<union> set rs"
  using assms by (induction n ips rs rule: collect_ips.induct) (auto simp: Let_def)

lemma resolve_host_Inr:
  assumes "resolve_host getaddrinfo h n = Inr ips" "0 < n"
  obtains addrs where "getaddrinfo h = Some addrs" "set ips \<subseteq> set addrs" "ips \<noteq> []" "distinct ips" "length ips \<le> n"
  using assms collect_ips_facts [of "[]" n] that
  by (fastforce simp: resolve_host_def Let_def split: if_splits option.splits)

lemma validate_ip_address_public:
  assumes "validate_ip_address cfg ip = Inr ()" "\<not> ns_allow_private cfg"
  obtains a where "ip_address ip = Some a" "public_ip a"
proof -
  from assms(1) obtain a where a: "ip_address ip = Some a"
    by (auto simp: validate_ip_address_def split: option.splits)
  with assms have f: "\<not> is_loopback a" "\<not> is_link_local a" "\<not> is_multicast a" "\<not> is_reserved a" "\<not> is_private a"
    by (auto simp: validate_ip_address_def simp del: is_loopback.simps is_link_local.simps is_multicast.simps
        is_reserved.simps is_private.simps split: if_splits)
  have "public_ip a"
  proof (cases a)
    case (V4 w)
    with f v4_passes_public show ?thesis by blast
  next
    case (V6 w)
    with f v6_passes_public show ?thesis by blast
  qed
  with a that show ?thesis by blast
qed

lemma validate_all_Inr: "validate_all cfg ips = Inr u \<Longrightarrow> \<forall>ip\<in>set ips. validate_ip_address cfg ip = Inr ()"
  by (induction ips) (auto split: sum.splits)

lemma if_Inl_Inr: "(if c then Inl e else x) = Inr y \<longleftrightarrow> \<not> c \<and> x = Inr y"
  by simp

lemma validate_webhook_url_Inr:
  assumes "validate_webhook_url cfg getaddrinfo url = Inr ips" "\<not> (ns_validator_bypass cfg \<and> ns_environment cfg = ''local'')"
  obtains p where "urlparse url = Inr p" "up_scheme p \<in> {''http'', ''https''}"
    "ns_environment cfg \<noteq> ''local'' \<longrightarrow> up_scheme p = ''https''"
    "resolve_host getaddrinfo (hostname_of p) 5 = Inr ips" "validate_all cfg ips = Inr ()"
proof -
  from assms(1) obtain p where p: "urlparse url = Inr p"
    by (cases "urlparse url") (simp_all add: validate_webhook_url_def)
  from assms(1) obtain port where q: "port_of p = Inr port"
    by (cases "port_of p") (simp_all add: validate_webhook_url_def p)
  let ?r = "resolve_host getaddrinfo (hostname_of p) 5"
  have *: "up_scheme p \<in> {''http'', ''https''}" "ns_environment cfg \<noteq> ''local'' \<longrightarrow> up_scheme p = ''https''"
    "(case ?r of Inl e \<Rightarrow> Inl e | Inr ips \<Rightarrow> (case validate_all cfg ips of Inl e \<Rightarrow> Inl e | Inr _ \<Rightarrow> Inr ips)) = Inr ips"
    using assms(1) unfolding validate_webhook_url_def p q sum.case if_Inl_Inr if_not_P [OF assms(2)] by blast+
  obtain ips' where r: "?r = Inr ips'" using *(3) by (cases ?r) simp_all
  obtain u where "validate_all cfg ips' = Inr u" "ips' = ips"
    using *(3) unfolding r sum.case by (cases "validate_all cfg ips'") simp_all
  with p *(1,2) r that show ?thesis by simp
qed

text \<open>A URL that passes the webhook validator outside the local bypass, with private networks disallowed, resolves to between one and five distinct addresses of the resolver's answer, each of which parses and is public: outside the unspecified, private, loopback, link-local, multicast and reserved IPv4 blocks, or a global unicast (not 6to4) or site-local IPv6 address; outside the local environment the scheme is https.\<close>

theorem validated_url_is_public:
  assumes v: "validate_webhook_url cfg getaddrinfo url = Inr ips"
    and b: "\<not> (ns_validator_bypass cfg \<and> ns_environment cfg = ''local'')"
    and np: "\<not> ns_allow_private cfg"
  shows "ips \<noteq> [] \<and> distinct ips \<and> length ips \<le> 5 \<and>
         (\<forall>ip\<in>set ips. \<exists>a. ip_address ip = Some a \<and> public_ip a) \<and>
         (\<exists>p addrs. urlparse url = Inr p \<and> getaddrinfo (hostname_of p) = Some addrs \<and> set ips \<subseteq> set addrs \<and>
            (ns_environment cfg \<noteq> ''local'' \<longrightarrow> up_scheme p = ''https''))"
proof -
  from v b obtain p where p: "urlparse url = Inr p" "ns_environment cfg \<noteq> ''local'' \<longrightarrow> up_scheme p = ''https''"
    "resolve_host getaddrinfo (hostname_of p) 5 = Inr ips" "validate_all cfg ips = Inr ()"
    by (rule validate_webhook_url_Inr)
  from p(3) obtain addrs where a: "getaddrinfo (hostname_of p) = Some addrs" "set ips \<subseteq> set addrs" "ips \<noteq> []" "distinct ips"
    "length ips \<le> 5"
    by (rule resolve_host_Inr) simp
  have "\<exists>a. ip_address ip = Some a \<and> public_ip a" if "ip \<in> set ips" for ip
    using validate_all_Inr [OF p(4)] that np validate_ip_address_public by metis
  with p(1,2) a show ?thesis by blast
qed

text \<open>A destination in the protected environment: an address of a public block.\<close>

definition production_network :: network_settings where
  "production_network = \<lparr>ns_environment = ''production'', ns_url_allowlist = [], ns_validator_bypass = False, ns_allow_private = False\<rparr>"

definition sample_resolver :: "str \<Rightarrow> str list option" where
  "sample_resolver h = (if h = ''hooks.example'' then Some [''93.184.216.34'', ''93.184.216.34'', ''2606:2800:220:1::8a2e:7334''] else None)"

definition sample_public_v6 :: "128 word" where
  "sample_public_v6 = groups 0x2606 0x2800 0x220 1 + word_of_nat 0x8a2e7334"

lemma sample_addresses:
  "ip_address ''93.184.216.34'' = Some (V4 (quad 93 184 216 34))"
  "ip_address ''2606:2800:220:1::8a2e:7334'' = Some (V6 sample_public_v6)"
  by (simp_all add: ip_address_def parse_ipv4_def parse_octet_def is_digit_def decimal_value_def quad_def parse_ipv6_def
      partition_at_def expand_ipv4_tail_def hextet_layout_def parse_hextet_def hex_value_def Let_def upt_rec
      sample_public_v6_def groups_def)

lemma sample_public_v4: "validate_ip_address production_network ''93.184.216.34'' = Inr ()"
  by (simp add: validate_ip_address_def sample_addresses in_net_v4 unat_quad v4_is_private_def v4_private_networks_def
      CLOUD_METADATA_ADDRESSES_def production_network_def) (simp add: quad_def)

lemma sample_validation:
  "validate_webhook_url production_network sample_resolver ''https://hooks.example:443/in?x=1'' =
     Inr [''93.184.216.34'', ''2606:2800:220:1::8a2e:7334'']"
proof -
  have "validate_ip_address production_network ''2606:2800:220:1::8a2e:7334'' = Inr ()"
    by (simp add: validate_ip_address_def sample_addresses in_net_v6 v6_private_networks_def v6_reserved_networks_def
        CLOUD_METADATA_ADDRESSES_def production_network_def unat_groups sample_public_v6_def groups_def)
  moreover have "urlparse ''https://hooks.example:443/in?x=1'' =
      Inr \<lparr>up_scheme = ''https'', up_netloc = ''hooks.example:443'', up_fragment = []\<rparr>"
    by (simp add: urlparse_def split_scheme_def partition_at_def is_letter_def is_digit_def scheme_char_def py_lower_def
        lower_char_def netloc_ok_def Let_def)
  ultimately show ?thesis
    by (simp add: validate_webhook_url_def sample_public_v4 port_of_def hostinfo_def hostname_of_def after_last_def partition_at_def
        decimal_value_def is_digit_def py_lower_def lower_char_def resolve_host_def sample_resolver_def Let_def)
      (simp add: production_network_def)
qed

theorem validated_url_is_public_witness:
  "\<forall>ip\<in>set [''93.184.216.34'', ''2606:2800:220:1::8a2e:7334'']. \<exists>a. ip_address ip = Some a \<and> public_ip a"
  using validated_url_is_public [OF sample_validation] by (simp add: production_network_def)

section \<open>Allowlists\<close>

text \<open>An entry of the URL allowlist constrains nothing beyond its own text: every URL that extends the entry, also in the middle of its host name, is validated as if there were no allowlist.\<close>

theorem url_allowlist_is_a_prefix_test:
  "validate_webhook_url (cfg\<lparr>ns_url_allowlist := [allowed]\<rparr>) getaddrinfo (allowed @ rest) =
   validate_webhook_url (cfg\<lparr>ns_url_allowlist := []\<rparr>) getaddrinfo (allowed @ rest)"
proof -
  have "validate_ip_address (cfg\<lparr>ns_url_allowlist := l\<rparr>) ip = validate_ip_address cfg ip" for l ip
    by (cases "ip_address ip") (simp_all add: validate_ip_address_def)
  then have "validate_all (cfg\<lparr>ns_url_allowlist := l\<rparr>) ips = validate_all cfg ips" for l ips
    by (induction ips) (simp_all split: sum.split)
  then show ?thesis by (simp add: validate_webhook_url_def starts_with_def cong: sum.case_cong if_cong)
qed

lemma split_char_concat: "split_char d (p @ d # s) = split_char d p @ split_char d s"
proof (induction p)
  case (Cons c p)
  then show ?case using split_char_nonempty [of d p] by (cases "split_char d p") auto
qed simp

lemma join_char_append: "ps \<noteq> [] \<Longrightarrow> qs \<noteq> [] \<Longrightarrow> join_char d (ps @ qs) = join_char d ps @ d # join_char d qs"
proof (induction d ps rule: join_char.induct)
  case (2 d p)
  then show ?case by (cases qs) simp_all
qed simp_all

abbreviation normal_host :: "str \<Rightarrow> str" where
  "normal_host h \<equiv> py_lower (rstrip_char (CHR ''.'') h)"

text \<open>The label matcher accepts a host for an allowlist entry exactly when, up to case and trailing dots, the host is the entry or ends in a dot followed by the entry.\<close>

theorem hostname_match_is_label_suffix:
  "hostname_matches_allowlist h a \<longleftrightarrow>
     normal_host h = normal_host a \<or> (\<exists>p. normal_host h = p @ ''.'' @ normal_host a)"
proof
  assume m: "hostname_matches_allowlist h a"
  define k where "k = length (labels_of h) - length (labels_of a)"
  from m have "drop k (labels_of h) = labels_of a"
    by (simp add: hostname_matches_allowlist_def k_def Let_def split: if_splits)
  then have l: "labels_of h = take k (labels_of h) @ labels_of a" by (metis append_take_drop_id)
  have j: "join_char (CHR ''.'') (labels_of x) = normal_host x" for x
    by (simp add: labels_of_def join_split_char)
  show "normal_host h = normal_host a \<or> (\<exists>p. normal_host h = p @ ''.'' @ normal_host a)"
  proof (cases "take k (labels_of h) = []")
    case True
    with l j show ?thesis by (metis append_Nil)
  next
    case False
    have "labels_of a \<noteq> []" by (simp add: labels_of_def split_char_nonempty)
    with False l j [of h] j [of a] have "normal_host h = join_char (CHR ''.'') (take k (labels_of h)) @ ''.'' @ normal_host a"
      by (metis append_Cons append_Nil join_char_append)
    then show ?thesis by blast
  qed
next
  assume "normal_host h = normal_host a \<or> (\<exists>p. normal_host h = p @ ''.'' @ normal_host a)"
  then obtain ls where "labels_of h = ls @ labels_of a"
    by (auto simp: labels_of_def split_char_concat)
  then show "hostname_matches_allowlist h a" by (simp add: hostname_matches_allowlist_def Let_def)
qed

text \<open>Two destinations that are not public and pass: the deprecated site-local block, and a metadata service in the shared address space.\<close>

theorem unguarded_destinations:
  "validate_ip_address production_network ''fec0::1'' = Inr () \<and>
   validate_ip_address production_network ''100.100.100.200'' = Inr ()"
proof
  have "ip_address ''fec0::1'' = Some (V6 (groups 0xfec0 0 0 0 + 1))"
    by (simp add: ip_address_def parse_ipv4_def parse_octet_def is_digit_def decimal_value_def quad_def parse_ipv6_def
        partition_at_def expand_ipv4_tail_def hextet_layout_def parse_hextet_def hex_value_def Let_def upt_rec groups_def)
  then show "validate_ip_address production_network ''fec0::1'' = Inr ()"
    by (simp add: validate_ip_address_def in_net_v6 v6_private_networks_def v6_reserved_networks_def
        CLOUD_METADATA_ADDRESSES_def production_network_def unat_groups groups_def)
next
  have "ip_address ''100.100.100.200'' = Some (V4 (quad 100 100 100 200))"
    by (simp add: ip_address_def parse_ipv4_def parse_octet_def is_digit_def decimal_value_def quad_def)
  then show "validate_ip_address production_network ''100.100.100.200'' = Inr ()"
    by (simp add: validate_ip_address_def in_net_v4 unat_quad v4_is_private_def v4_private_networks_def
        CLOUD_METADATA_ADDRESSES_def production_network_def) (simp add: quad_def)
qed

end
