(* ===== verification/Webhooks.thy ===== *)
theory Webhooks
  imports Database Rate_Limits Network
begin

text \<open>
  Webhook fan-out: signing (\<^verbatim>\<open>app/services/webhook_signing.py\<close>), the circuit breaker
  (\<^verbatim>\<open>webhook_breaker.py\<close>), subscriber resolution (\<^verbatim>\<open>app/repositories/webhook_repository.py\<close>,
  \<^verbatim>\<open>event_listener.py\<close>) and the delivery pipeline of \<^verbatim>\<open>webhook_service.py\<close> with claims, retries and
  dead letters (rows of \<^verbatim>\<open>app/models/webhook.py\<close>).  Every attempt observes its surroundings through an
  \<open>attempt_env\<close>: resolved addresses, the shared breaker marker, the HTTP outcome, the jitter draw.
\<close>

section \<open>Signing\<close>

definition CURRENT_SIGNATURE_VERSION :: int where "CURRENT_SIGNATURE_VERSION = 2"
definition LEGACY_SIGNATURE_VERSION :: int where "LEGACY_SIGNATURE_VERSION = 1"
definition TIMESTAMPED_SIGNATURE_VERSION :: int where "TIMESTAMPED_SIGNATURE_VERSION = 2"

text \<open>HMAC-SHA256 is the argument \<open>hmac\<close>: secret, message, hex digest.\<close>

definition sign_payload_v1 :: "(str \<Rightarrow> str \<Rightarrow> str) \<Rightarrow> str \<Rightarrow> str \<Rightarrow> str" where
  "sign_payload_v1 hmac secret payload = hmac secret payload"

definition verify_signature_v1 :: "(str \<Rightarrow> str \<Rightarrow> str) \<Rightarrow> str \<Rightarrow> str \<Rightarrow> str \<Rightarrow> bool" where
  "verify_signature_v1 hmac secret payload signature \<longleftrightarrow> sign_payload_v1 hmac secret payload = signature"

definition signing_input_v2 :: "str \<Rightarrow> str \<Rightarrow> str" where
  "signing_input_v2 timestamp payload = timestamp @ ''.'' @ payload"

definition sign_payload_v2 :: "(str \<Rightarrow> str \<Rightarrow> str) \<Rightarrow> str \<Rightarrow> str \<Rightarrow> str \<Rightarrow> str" where
  "sign_payload_v2 hmac secret payload timestamp = hmac secret (signing_input_v2 timestamp payload)"

definition verify_signature_v2 :: "(str \<Rightarrow> str \<Rightarrow> str) \<Rightarrow> str \<Rightarrow> str \<Rightarrow> str \<Rightarrow> str \<Rightarrow> bool" where
  "verify_signature_v2 hmac secret payload signature timestamp \<longleftrightarrow>
     sign_payload_v2 hmac secret payload timestamp = signature"

text \<open>\<open>fromiso\<close> parses a timestamp (naive values are read as UTC); \<open>None\<close> when it does not parse.\<close>

definition is_timestamp_fresh :: "(str \<Rightarrow> time option) \<Rightarrow> str \<Rightarrow> time \<Rightarrow> time \<Rightarrow> bool" where
  "is_timestamp_fresh fromiso timestamp max_skew t =
     (case fromiso timestamp of None \<Rightarrow> False | Some sent_at \<Rightarrow> \<bar>t - sent_at\<bar> \<le> max_skew)"

definition verify_delivery_signature ::
  "(str \<Rightarrow> str \<Rightarrow> str) \<Rightarrow> (str \<Rightarrow> time option) \<Rightarrow> str \<Rightarrow> str \<Rightarrow> str \<Rightarrow> int \<Rightarrow> str option \<Rightarrow> time \<Rightarrow> time \<Rightarrow> bool" where
  "verify_delivery_signature hmac fromiso secret payload signature version timestamp max_skew t \<longleftrightarrow>
     (if version = LEGACY_SIGNATURE_VERSION then verify_signature_v1 hmac secret payload signature
      else if \<not> truthy timestamp \<or> \<not> is_timestamp_fresh fromiso (the timestamp) max_skew t then False
      else verify_signature_v2 hmac secret payload signature (the timestamp))"

text \<open>Signature, version and the timestamp to send; \<open>now_iso\<close> is used when no timestamp is given.\<close>

definition sign_payload :: "(str \<Rightarrow> str \<Rightarrow> str) \<Rightarrow> str \<Rightarrow> str \<Rightarrow> str \<Rightarrow> int \<Rightarrow> str option \<Rightarrow> exn + (str \<times> int \<times> str)" where
  "sign_payload hmac now_iso secret payload version timestamp =
     (if version = LEGACY_SIGNATURE_VERSION
      then Inr (sign_payload_v1 hmac secret payload, version, if truthy timestamp then the timestamp else [])
      else if version = TIMESTAMPED_SIGNATURE_VERSION
      then (let ts = (if truthy timestamp then the timestamp else now_iso) in
            Inr (sign_payload_v2 hmac secret payload ts, version, ts))
      else Inl ValueError)"

definition verify_signature :: "(str \<Rightarrow> str \<Rightarrow> str) \<Rightarrow> str \<Rightarrow> str \<Rightarrow> str \<Rightarrow> int \<Rightarrow> str option \<Rightarrow> bool" where
  "verify_signature hmac secret payload signature version timestamp \<longleftrightarrow>
     (if version = LEGACY_SIGNATURE_VERSION then verify_signature_v1 hmac secret payload signature
      else if version = TIMESTAMPED_SIGNATURE_VERSION
      then truthy timestamp \<and> verify_signature_v2 hmac secret payload signature (the timestamp)
      else False)"

section \<open>Circuit breaker\<close>

datatype breaker_state = CLOSED | HALF_OPEN | OPEN

text \<open>What is sent to the shared store.\<close>

datatype redis_command = Setex str time | Del str

record breaker_config =
  bc_fail_threshold :: nat
  bc_window_seconds :: time
  bc_reset_seconds :: time

record circuit_breaker =
  br_state :: "str \<rightharpoonup> breaker_state"
  br_failures :: "str \<rightharpoonup> time list"
  br_open_since :: "str \<rightharpoonup> time"
  br_probe_sent :: "str \<rightharpoonup> bool"
  br_published :: "redis_command list"

definition new_breaker :: circuit_breaker where
  "new_breaker = \<lparr>br_state = Map.empty, br_failures = Map.empty, br_open_since = Map.empty,
                  br_probe_sent = Map.empty, br_published = []\<rparr>"

definition state_of :: "circuit_breaker \<Rightarrow> str \<Rightarrow> breaker_state" where
  "state_of b h = (case br_state b h of None \<Rightarrow> CLOSED | Some s \<Rightarrow> s)"

definition record_failure :: "breaker_config \<Rightarrow> time \<Rightarrow> str \<Rightarrow> circuit_breaker \<Rightarrow> circuit_breaker" where
  "record_failure cfg t h b =
     (let cutoff = t - bc_window_seconds cfg;
          old = (case br_failures b h of None \<Rightarrow> [] | Some fs \<Rightarrow> fs);
          fs = filter (\<lambda>x. x > cutoff) old @ [t];
          b1 = b\<lparr>br_failures := (br_failures b)(h \<mapsto> fs)\<rparr> in
      if length fs \<ge> bc_fail_threshold cfg
      then b1\<lparr>br_state := (br_state b)(h \<mapsto> OPEN), br_open_since := (br_open_since b)(h \<mapsto> t),
              br_probe_sent := (br_probe_sent b)(h \<mapsto> False),
              br_published := br_published b @ [Setex h (bc_reset_seconds cfg)]\<rparr>
      else b1)"

definition record_success :: "str \<Rightarrow> circuit_breaker \<Rightarrow> circuit_breaker" where
  "record_success h b =
     b\<lparr>br_failures := (br_failures b)(h := None), br_state := (br_state b)(h \<mapsto> CLOSED),
       br_open_since := (br_open_since b)(h := None), br_probe_sent := (br_probe_sent b)(h := None),
       br_published := br_published b @ [Del h]\<rparr>"

text \<open>\<open>allow_request\<close>; \<open>shared_open\<close> is the reply of \<open>EXISTS\<close> on the shared marker, \<open>None\<close> without Redis.\<close>

definition allow_request :: "breaker_config \<Rightarrow> bool option \<Rightarrow> time \<Rightarrow> str \<Rightarrow> circuit_breaker \<Rightarrow> bool \<times> circuit_breaker" where
  "allow_request cfg shared_open t h b =
     (let adopt = (state_of b h = CLOSED \<and> shared_open = Some True);
          b1 = (if adopt then b\<lparr>br_state := (br_state b)(h \<mapsto> OPEN), br_open_since := (br_open_since b)(h \<mapsto> t)\<rparr> else b) in
      if state_of b1 h = OPEN \<and>
         \<not> t - (case br_open_since b1 h of None \<Rightarrow> 0 | Some s \<Rightarrow> s) \<ge> bc_reset_seconds cfg
      then (False, b1)
      else
        (let b2 = (if state_of b1 h = OPEN then b1\<lparr>br_state := (br_state b1)(h \<mapsto> HALF_OPEN)\<rparr> else b1) in
         if state_of b2 h = HALF_OPEN then
           (if br_probe_sent b2 h = Some True then (False, b2)
            else (True, b2\<lparr>br_probe_sent := (br_probe_sent b2)(h \<mapsto> True)\<rparr>))
         else (True, b2)))"

definition on_success :: "str \<Rightarrow> circuit_breaker \<Rightarrow> circuit_breaker" where
  "on_success h b = record_success h b"

definition on_failure :: "breaker_config \<Rightarrow> time \<Rightarrow> str \<Rightarrow> circuit_breaker \<Rightarrow> circuit_breaker" where
  "on_failure cfg t h b =
     (if state_of b h = HALF_OPEN
      then b\<lparr>br_state := (br_state b)(h \<mapsto> OPEN), br_open_since := (br_open_since b)(h \<mapsto> t),
             br_probe_sent := (br_probe_sent b)(h \<mapsto> False)\<rparr>
      else record_failure cfg t h b)"

definition reset_breaker :: "str \<Rightarrow> circuit_breaker \<Rightarrow> circuit_breaker" where
  "reset_breaker h b =
     b\<lparr>br_state := (br_state b)(h := None), br_failures := (br_failures b)(h := None),
       br_open_since := (br_open_since b)(h := None), br_probe_sent := (br_probe_sent b)(h := None)\<rparr>"

section \<open>Rows\<close>

datatype webhook_event = SLA_VIOLATION | SLA_WARNING | SLA_RESOLVED

fun webhook_event_value :: "webhook_event \<Rightarrow> str" where
  "webhook_event_value SLA_VIOLATION = ''sla.violation''"
| "webhook_event_value SLA_WARNING = ''sla.warning''"
| "webhook_event_value SLA_RESOLVED = ''sla.resolved''"

datatype delivery_status = PENDING | SENDING | SUCCESS | FAILED | RETRYING | DEAD_LETTER | BREAKER_OPEN

text \<open>
  An entry of the \<open>previous_secrets\<close> history; the expiry is \<^term>\<open>None\<close> for an entry that is malformed or whose
  timestamp does not parse.
\<close>

record secret_entry =
  pe_hashed_secret :: str
  pe_created_at :: time
  pe_expires_at :: "time option"

text \<open>\<open>wh_events\<close> and \<open>wh_resolved_ips\<close> are JSON texts in the table; here the list they parse to, if they do.\<close>

record webhook =
  wh_id :: str
  wh_name :: str
  wh_url :: str
  wh_secret :: "str option"
  wh_is_active :: bool
  wh_events :: "str list option"
  wh_resolved_ips :: "str list option"
  wh_max_retries :: int
  wh_created_at :: time
  wh_last_secret_rotation_at :: "time option"
  wh_secret_version :: int
  wh_previous_secrets :: "secret_entry list"
  wh_secret_grace_hours :: int
  wh_deleted_at :: "time option"

record delivery =
  wd_id :: str
  wd_webhook_id :: str
  wd_event :: webhook_event
  wd_payload :: str
  wd_status :: delivery_status
  wd_attempt_count :: int
  wd_next_retry_at :: "time option"
  wd_response_status_code :: "nat option"
  wd_response_body :: "str option"
  wd_error_message :: "str option"
  wd_delivered_at :: "time option"
  wd_dead_lettered_at :: "time option"
  wd_signature_version :: int
  wd_created_at :: time
  wd_updated_at :: time

record webhook_state =
  webhooks :: "webhook list"
  deliveries :: "delivery list"
  breaker :: circuit_breaker
  event_hits :: hit_map
  celery_queue :: "str list"
  delivery_uuids :: nat

section \<open>Subscribers\<close>

text \<open>
  \<open>subscribers_for_event\<close>: the SQL pattern selects a superset of the rows whose parsed list contains the
  event; the exact test decides.
\<close>

definition is_subscribed :: "webhook \<Rightarrow> webhook_event \<Rightarrow> bool" where
  "is_subscribed w ev = (case wh_events w of None \<Rightarrow> False | Some evs \<Rightarrow> webhook_event_value ev \<in> set evs)"

definition subscribers_for_event :: "webhook_event \<Rightarrow> webhook_state \<Rightarrow> webhook list" where
  "subscribers_for_event ev s =
     filter (\<lambda>w. is_subscribed w ev) (filter (\<lambda>w. wh_is_active w \<and> wh_deleted_at w = None) (webhooks s))"

record subscriber_decision =
  sd_webhook :: webhook
  sd_allowed :: bool

record fanout_env =
  fe_limit :: nat
  fe_window :: time
  fe_redis_count :: "str \<Rightarrow> nat option"
  fe_monotonic :: time

text \<open>\<open>dispatch_plan\<close> with no further policy, as \<open>build_event_listener\<close> builds the listener.\<close>

fun dispatch_plan :: "fanout_env \<Rightarrow> webhook list \<Rightarrow> hit_map \<Rightarrow> subscriber_decision list \<times> hit_map" where
  "dispatch_plan fe [] hits = ([], hits)"
| "dispatch_plan fe (w # ws) hits =
     (case event_allow (fe_limit fe) (fe_window fe) (fe_redis_count fe (wh_id w)) (fe_monotonic fe) (wh_id w) hits of
        (allowed, hits') \<Rightarrow>
          (case dispatch_plan fe ws hits' of
             (ds, hits'') \<Rightarrow> (\<lparr>sd_webhook = w, sd_allowed = allowed\<rparr> # ds, hits'')))"

section \<open>Delivery\<close>

text \<open>\<open>_scrub_response_body\<close>: two substitutions, then truncation.\<close>

definition is_space :: "char \<Rightarrow> bool" where
  "is_space c \<longleftrightarrow> (let n = (of_char c :: nat) in n = 32 \<or> 9 \<le> n \<and> n \<le> 13 \<or> 28 \<le> n \<and> n \<le> 31 \<or> n = 133 \<or> n = 160)"

definition match_stellar_secret :: "string \<Rightarrow> string option" where
  "match_stellar_secret s =
     (if length (take 56 s) = 56 \<and> hd s = CHR ''S'' \<and> list_all is_alnum (take 55 (tl s)) then Some (drop 56 s) else None)"

definition match_assignment_after :: "string \<Rightarrow> string option" where
  "match_assignment_after s =
     (case dropWhile is_space s of
        [] \<Rightarrow> None
      | c # r \<Rightarrow>
          if c \<noteq> CHR '':'' \<and> c \<noteq> CHR ''='' then None
          else (let v = dropWhile is_space r in if v = [] then None else Some (dropWhile (\<lambda>c. \<not> is_space c) v)))"

definition sensitive_keywords :: "string list" where
  "sensitive_keywords = [''password'', ''secret'', ''token'', ''api_key'', ''api-key'', ''apikey'']"

definition match_assignment :: "string \<Rightarrow> string option" where
  "match_assignment s =
     foldr (\<lambda>kw rest. if py_lower (take (length kw) s) = kw
                      then (case match_assignment_after (drop (length kw) s) of Some r \<Rightarrow> Some r | None \<Rightarrow> rest)
                      else rest) sensitive_keywords None"

text \<open>\<open>pattern.sub("[REDACTED]", s)\<close> for a matcher that returns what follows the match.\<close>

function redact_all :: "(string \<Rightarrow> string option) \<Rightarrow> string \<Rightarrow> string" where
  "redact_all m [] = []"
| "redact_all m (c # cs) =
     (case m (c # cs) of
        Some rest \<Rightarrow> if length rest < length (c # cs) then ''[REDACTED]'' @ redact_all m rest else c # redact_all m cs
      | None \<Rightarrow> c # redact_all m cs)"
  by pat_completeness auto
termination by (relation "measure (\<lambda>(m, s). length s)") auto

definition RESPONSE_BODY_STORAGE_LIMIT :: nat where "RESPONSE_BODY_STORAGE_LIMIT = 500"

definition scrub_response_body :: "str \<Rightarrow> str" where
  "scrub_response_body body =
     take RESPONSE_BODY_STORAGE_LIMIT (redact_all match_assignment (redact_all match_stellar_secret body))"

datatype jitter_mode = Jitter_none | Jitter_equal | Jitter_full

text \<open>\<open>draw\<close> is the value drawn by \<open>random.uniform\<close>, in ticks; \<open>second\<close> the ticks of one second.\<close>

definition apply_jitter :: "jitter_mode \<Rightarrow> time \<Rightarrow> time \<Rightarrow> time \<Rightarrow> time" where
  "apply_jitter mode second draw delay =
     (case mode of Jitter_none \<Rightarrow> delay | Jitter_equal \<Rightarrow> draw | Jitter_full \<Rightarrow> max second draw)"

datatype http_result = Http_response nat str | Http_timeout str | Http_request_error str | Http_other_error

definition is_success :: "nat \<Rightarrow> bool" where "is_success code \<longleftrightarrow> 200 \<le> code \<and> code \<le> 299"

record attempt_env =
  ae_now :: time
  ae_iso :: str
  ae_correlation_id :: str
  ae_traceparent :: "str option"
  ae_resolve :: "str \<Rightarrow> str list option"
  ae_shared_open :: "bool option"
  ae_http :: http_result
  ae_draw :: time

record delivery_settings =
  ds_hmac :: "str \<Rightarrow> str \<Rightarrow> str"
  ds_host_key :: "str \<Rightarrow> str"
  ds_breaker :: breaker_config
  ds_retry_delays :: "int list"
  ds_max_delay :: int
  ds_jitter :: jitter_mode
  ds_second :: time
  ds_network :: network_settings

definition build_headers ::
  "delivery_settings \<Rightarrow> attempt_env \<Rightarrow> webhook \<Rightarrow> str \<Rightarrow> webhook_event \<Rightarrow> int \<Rightarrow> exn + (str \<times> str) list" where
  "build_headers cfg ae w payload ev version =
     (let base = [(''Content-Type'', ''application/json''), (''X-Webhook-Event'', webhook_event_value ev),
                  (''X-Webhook-Timestamp'', ae_iso ae), (''X-Correlation-ID'', ae_correlation_id ae)] @
                 (case ae_traceparent ae of None \<Rightarrow> [] | Some tp \<Rightarrow> if tp = [] then [] else [(''traceparent'', tp)]) in
      if truthy (wh_secret w) then
        (case sign_payload (ds_hmac cfg) (ae_iso ae) (the (wh_secret w)) payload version (Some (ae_iso ae)) of
           Inl e \<Rightarrow> Inl e
         | Inr (sig_hex, _, signed_timestamp) \<Rightarrow>
             Inr (AList.update ''X-Webhook-Timestamp'' (if signed_timestamp \<noteq> [] then signed_timestamp else ae_iso ae)
                   (base @ [(''X-Webhook-Signature'', ''sha256='' @ sig_hex),
                            (''X-Webhook-Signature-Version'', py_str_int version)])))
      else Inr base)"

text \<open>
  \<open>_attempt_delivery\<close>: whether it succeeded, the mutated delivery row and the breaker.  Exceptions that are
  not HTTP errors propagate.
\<close>

definition attempt_delivery ::
  "delivery_settings \<Rightarrow> attempt_env \<Rightarrow> webhook \<Rightarrow> delivery \<Rightarrow> circuit_breaker \<Rightarrow> (exn + bool) \<times> delivery \<times> circuit_breaker" where
  "attempt_delivery cfg ae w d b =
     (case build_headers cfg ae w (wd_payload d) (wd_event d) (wd_signature_version d) of
        Inl e \<Rightarrow> (Inl e, d, b)
      | Inr headers \<Rightarrow>
          (case validate_webhook_url (ds_network cfg) (ae_resolve ae) (wh_url w) of
             Inl e \<Rightarrow> (Inl e, d, b)
           | Inr current_ips \<Rightarrow>
               if (case wh_resolved_ips w of None \<Rightarrow> False
                   | Some approved \<Rightarrow> approved \<noteq> [] \<and> set approved \<inter> set current_ips = {})
               then (Inl NetworkValidationError, d, b)
               else
                 (let h = ds_host_key cfg (wh_url w) in
                  case allow_request (ds_breaker cfg) (ae_shared_open ae) (ae_now ae) h b of
                    (False, b1) \<Rightarrow>
                      (Inr False, d\<lparr>wd_status := BREAKER_OPEN,
                                    wd_error_message := Some ''Circuit breaker open, delivery deferred''\<rparr>, b1)
                  | (True, b1) \<Rightarrow>
                      (case ae_http ae of
                         Http_response code body \<Rightarrow>
                           (let d1 = d\<lparr>wd_response_status_code := Some code, wd_response_body := Some (scrub_response_body body)\<rparr> in
                            if is_success code then (Inr True, d1, on_success h b1)
                            else (Inr False, d1\<lparr>wd_error_message := Some (''Non-success status: '' @ digits_of code)\<rparr>,
                                  on_failure (ds_breaker cfg) (ae_now ae) h b1))
                       | Http_timeout msg \<Rightarrow>
                           (Inr False, d\<lparr>wd_error_message := Some (''Request timed out: '' @ msg)\<rparr>,
                            on_failure (ds_breaker cfg) (ae_now ae) h b1)
                       | Http_request_error msg \<Rightarrow>
                           (Inr False, d\<lparr>wd_error_message := Some (''Request error: '' @ msg)\<rparr>,
                            on_failure (ds_breaker cfg) (ae_now ae) h b1)
                       | Http_other_error \<Rightarrow> (Inl ValueError, d, b1)))))"

text \<open>Python's \<open>webhook.max_retries or 3\<close>.\<close>

definition effective_max_retries :: "webhook \<Rightarrow> int" where
  "effective_max_retries w = (if wh_max_retries w = 0 then 3 else wh_max_retries w)"

text \<open>The end of \<open>dispatch_delivery\<close>: the row after an attempt.\<close>

definition settle_attempt :: "delivery_settings \<Rightarrow> attempt_env \<Rightarrow> webhook \<Rightarrow> bool \<Rightarrow> delivery \<Rightarrow> delivery" where
  "settle_attempt cfg ae w success d =
     (let d1 =
        (if success then d\<lparr>wd_status := SUCCESS, wd_delivered_at := Some (ae_now ae), wd_next_retry_at := None\<rparr>
         else if wd_status d = BREAKER_OPEN then d
         else
           (let retry_index = wd_attempt_count d - 1 in
            if retry_index < effective_max_retries w \<and> retry_index < int (length (ds_retry_delays cfg)) then
              (let base_delay = ds_retry_delays cfg ! nat retry_index;
                   raw_delay = min (base_delay * 2 ^ nat retry_index) (ds_max_delay cfg);
                   delay = min (apply_jitter (ds_jitter cfg) (ds_second cfg) (ae_draw ae) (raw_delay * ds_second cfg))
                               (ds_max_delay cfg * ds_second cfg) in
               d\<lparr>wd_next_retry_at := Some (ae_now ae + delay), wd_status := RETRYING\<rparr>)
            else d\<lparr>wd_status := DEAD_LETTER, wd_dead_lettered_at := Some (ae_now ae), wd_next_retry_at := None\<rparr>)) in
      d1\<lparr>wd_updated_at := ae_now ae\<rparr>)"

definition get_delivery :: "str \<Rightarrow> webhook_state \<Rightarrow> delivery option" where
  "get_delivery k s = find (\<lambda>d. wd_id d = k) (deliveries s)"

definition put_delivery :: "delivery \<Rightarrow> webhook_state \<Rightarrow> webhook_state" where
  "put_delivery d s = s\<lparr>deliveries := update_first (\<lambda>x. wd_id x = wd_id d) (\<lambda>_. d) (deliveries s)\<rparr>"

definition claimable :: "delivery \<Rightarrow> bool" where
  "claimable d \<longleftrightarrow> wd_status d = PENDING \<or> wd_status d = RETRYING"

definition claim :: "time \<Rightarrow> delivery \<Rightarrow> delivery" where
  "claim t d = d\<lparr>wd_status := SENDING, wd_attempt_count := wd_attempt_count d + 1, wd_updated_at := t\<rparr>"

text \<open>
  \<open>dispatch_delivery\<close>: an atomic claim (conditional update, committed), then the attempt.  A propagating
  exception leaves the claimed row as committed.
\<close>

definition dispatch_delivery ::
  "delivery_settings \<Rightarrow> attempt_env \<Rightarrow> str \<Rightarrow> webhook_state \<Rightarrow> (unit, webhook_state) outcome" where
  "dispatch_delivery cfg ae k s =
     (case get_delivery k s of
        None \<Rightarrow> (Inr (), s)
      | Some d0 \<Rightarrow>
          if \<not> claimable d0 then (Inr (), s)
          else
            (let d = claim (ae_now ae) d0; s1 = put_delivery d s in
             case find (\<lambda>w. wh_id w = wd_webhook_id d) (webhooks s) of
               None \<Rightarrow> (Inl AttributeError, s1)
             | Some w \<Rightarrow>
                 (case attempt_delivery cfg ae w d (breaker s1) of
                    (Inl e, d1, b1) \<Rightarrow> (Inl e, s1\<lparr>breaker := b1\<rparr>)
                  | (Inr success, d1, b1) \<Rightarrow> (Inr (), put_delivery (settle_attempt cfg ae w success d1) (s1\<lparr>breaker := b1\<rparr>)))))"

definition create_delivery ::
  "(nat \<Rightarrow> str) \<Rightarrow> time \<Rightarrow> webhook \<Rightarrow> webhook_event \<Rightarrow> json \<Rightarrow> int \<Rightarrow> webhook_state \<Rightarrow> delivery \<times> webhook_state" where
  "create_delivery uuid t w ev payload version s =
     (let d = \<lparr>wd_id = uuid (delivery_uuids s), wd_webhook_id = wh_id w, wd_event = ev,
               wd_payload = canonical_json payload, wd_status = PENDING, wd_attempt_count = 0,
               wd_next_retry_at = None, wd_response_status_code = None, wd_response_body = None,
               wd_error_message = None, wd_delivered_at = None, wd_dead_lettered_at = None,
               wd_signature_version = version, wd_created_at = t, wd_updated_at = t\<rparr> in
      (d, s\<lparr>deliveries := deliveries s @ [d], delivery_uuids := delivery_uuids s + 1\<rparr>))"

text \<open>The loop of \<open>trigger_sla_violation_webhooks\<close>; \<open>attempts\<close> gives the surroundings of each inline attempt.\<close>

fun fan_out ::
  "delivery_settings \<Rightarrow> (nat \<Rightarrow> str) \<Rightarrow> time \<Rightarrow> bool \<Rightarrow> (str \<Rightarrow> attempt_env) \<Rightarrow> webhook_event \<Rightarrow> json \<Rightarrow> int
    \<Rightarrow> subscriber_decision list \<Rightarrow> webhook_state \<Rightarrow> (str list, webhook_state) outcome" where
  "fan_out cfg uuid t celery attempts ev payload version [] s = (Inr [], s)"
| "fan_out cfg uuid t celery attempts ev payload version (dec # decs) s =
     (if \<not> sd_allowed dec then fan_out cfg uuid t celery attempts ev payload version decs s
      else
        (case create_delivery uuid t (sd_webhook dec) ev payload version s of
           (d, s1) \<Rightarrow>
             (case (if celery then (Inr (), s1\<lparr>celery_queue := celery_queue s1 @ [wd_id d]\<rparr>)
                    else dispatch_delivery cfg (attempts (wd_id d)) (wd_id d) s1) of
                (Inl e, s2) \<Rightarrow> (Inl e, s2)
              | (Inr _, s2) \<Rightarrow>
                  (case fan_out cfg uuid t celery attempts ev payload version decs s2 of
                     (Inl e, s3) \<Rightarrow> (Inl e, s3)
                   | (Inr ids, s3) \<Rightarrow> (Inr (wd_id d # ids), s3)))))"

record trigger_env =
  te_settings :: delivery_settings
  te_uuid :: "nat \<Rightarrow> str"
  te_now :: time
  te_iso :: str
  te_celery_available :: bool
  te_attempts :: "str \<Rightarrow> attempt_env"
  te_fanout :: fanout_env

definition trigger_sla_violation_webhooks ::
  "trigger_env \<Rightarrow> json \<Rightarrow> webhook_event \<Rightarrow> webhook_state \<Rightarrow> (str list, webhook_state) outcome" where
  "trigger_sla_violation_webhooks te sla_data ev s =
     (case dispatch_plan (te_fanout te) (subscribers_for_event ev s) (event_hits s) of
        (decisions, hits) \<Rightarrow>
          (let payload = JObj [(''schema_version'', JStr ''1''), (''event'', JStr (webhook_event_value ev)),
                               (''timestamp'', JStr (te_iso te)), (''data'', sla_data)] in
           fan_out (te_settings te) (te_uuid te) (te_now te) (te_celery_available te) (te_attempts te) ev payload
             CURRENT_SIGNATURE_VERSION decisions (s\<lparr>event_hits := hits\<rparr>)))"

definition WEBHOOK_RETRY_BATCH_SIZE :: nat where "WEBHOOK_RETRY_BATCH_SIZE = 100"

definition due_deliveries :: "nat \<Rightarrow> time \<Rightarrow> webhook_state \<Rightarrow> delivery list" where
  "due_deliveries batch_size t s =
     take batch_size (sort_key (\<lambda>d. the (wd_next_retry_at d))
       (filter (\<lambda>d. (wd_status d = RETRYING \<or> wd_status d = BREAKER_OPEN) \<and>
                    (case wd_next_retry_at d of None \<Rightarrow> False | Some n \<Rightarrow> n \<le> t)) (deliveries s)))"

fun dispatch_all ::
  "delivery_settings \<Rightarrow> (str \<Rightarrow> attempt_env) \<Rightarrow> str list \<Rightarrow> webhook_state \<Rightarrow> (nat, webhook_state) outcome" where
  "dispatch_all cfg attempts [] s = (Inr 0, s)"
| "dispatch_all cfg attempts (k # ks) s =
     (case dispatch_delivery cfg (attempts k) k s of
        (Inl e, s1) \<Rightarrow> (Inl e, s1)
      | (Inr _, s1) \<Rightarrow>
          (case dispatch_all cfg attempts ks s1 of (Inl e, s2) \<Rightarrow> (Inl e, s2) | (Inr n, s2) \<Rightarrow> (Inr (n + 1), s2)))"

definition retry_pending_deliveries ::
  "delivery_settings \<Rightarrow> (str \<Rightarrow> attempt_env) \<Rightarrow> time \<Rightarrow> nat \<Rightarrow> webhook_state \<Rightarrow> (nat, webhook_state) outcome" where
  "retry_pending_deliveries cfg attempts t batch_size s =
     dispatch_all cfg attempts (map wd_id (due_deliveries batch_size t s)) s"

definition get_dead_letter_deliveries :: "str option \<Rightarrow> nat \<Rightarrow> webhook_state \<Rightarrow> delivery list" where
  "get_dead_letter_deliveries webhook_id lims s =
     take lims (sort_desc (\<lambda>d. case wd_dead_lettered_at d of None \<Rightarrow> 0 | Some t \<Rightarrow> t)
       (filter (\<lambda>d. wd_status d = DEAD_LETTER \<and> (webhook_id = None \<or> webhook_id = Some (wd_webhook_id d))) (deliveries s)))"

definition reset_for_replay :: "time \<Rightarrow> delivery \<Rightarrow> delivery" where
  "reset_for_replay t d =
     d\<lparr>wd_status := PENDING, wd_attempt_count := 0, wd_next_retry_at := None, wd_dead_lettered_at := None,
       wd_error_message := None, wd_response_status_code := None, wd_response_body := None,
       wd_delivered_at := None, wd_updated_at := t\<rparr>"

definition replay_dead_letter_delivery ::
  "delivery_settings \<Rightarrow> attempt_env \<Rightarrow> str \<Rightarrow> webhook_state \<Rightarrow> (bool, webhook_state) outcome" where
  "replay_dead_letter_delivery cfg ae k s =
     (case get_delivery k s of
        None \<Rightarrow> (Inr False, s)
      | Some d \<Rightarrow>
          if wd_status d \<noteq> DEAD_LETTER then (Inr False, s)
          else (case dispatch_delivery cfg ae k (put_delivery (reset_for_replay (ae_now ae) d) s) of
                  (Inl e, s') \<Rightarrow> (Inl e, s') | (Inr _, s') \<Rightarrow> (Inr True, s')))"

section \<open>The breaker\<close>

abbreviation failures_of :: "circuit_breaker \<Rightarrow> str \<Rightarrow> time list" where
  "failures_of b h \<equiv> (case br_failures b h of None \<Rightarrow> [] | Some fs \<Rightarrow> fs)"

lemma on_failure_closed:
  assumes "state_of b h = CLOSED" and "filter (\<lambda>x. x > t - bc_window_seconds cfg) (failures_of b h) = fs"
  shows "failures_of (on_failure cfg t h b) h = fs @ [t]"
    and "Suc (length fs) < bc_fail_threshold cfg \<Longrightarrow> state_of (on_failure cfg t h b) h = CLOSED"
    and "Suc (length fs) \<ge> bc_fail_threshold cfg \<Longrightarrow>
      state_of (on_failure cfg t h b) h = OPEN \<and> br_open_since (on_failure cfg t h b) h = Some t \<and>
      br_probe_sent (on_failure cfg t h b) h = Some False"
  using assms by (simp_all add: on_failure_def record_failure_def Let_def state_of_def)

text \<open>Below the threshold the host stays closed and all failures of the window are remembered.\<close>

lemma failures_below_threshold:
  assumes "length ts < bc_fail_threshold cfg" and "\<forall>t \<in> set ts. \<forall>u \<in> set ts. t > u - bc_window_seconds cfg"
  shows "state_of (fold (\<lambda>t. on_failure cfg t h) ts new_breaker) h = CLOSED \<and>
         failures_of (fold (\<lambda>t. on_failure cfg t h) ts new_breaker) h = ts"
  using assms
proof (induction ts rule: rev_induct)
  case Nil
  show ?case by (simp add: new_breaker_def state_of_def)
next
  case (snoc t ts)
  let ?b = "fold (\<lambda>t. on_failure cfg t h) ts new_breaker"
  have IH: "state_of ?b h = CLOSED" "failures_of ?b h = ts" using snoc by auto
  have "filter (\<lambda>x. x > t - bc_window_seconds cfg) (failures_of ?b h) = ts"
    using snoc.prems(2) IH(2) by (simp add: filter_id_conv)
  from on_failure_closed(1,2) [OF IH(1) this] snoc.prems(1) show ?case by simp
qed

lemma open_refuses:
  assumes "state_of b h = OPEN" "br_open_since b h = Some t0" "t - t0 < bc_reset_seconds cfg"
  shows "allow_request cfg shared t h b = (False, b)"
  using assms by (simp add: allow_request_def Let_def)

text \<open>The breaker trips at its threshold and not before: after that many failures of a host inside one window the
  host is open and every request within the reset period of the last failure is refused without
  changing the breaker, whatever other workers published; with one failure less it is still closed.\<close>

theorem breaker_trips_at_threshold:
  assumes "length ts = bc_fail_threshold cfg" and "ts \<noteq> []"
    and "\<forall>t \<in> set ts. \<forall>u \<in> set ts. t > u - bc_window_seconds cfg"
    and "t < last ts + bc_reset_seconds cfg"
  shows "(let b = fold (\<lambda>t. on_failure cfg t h) ts new_breaker in
          state_of b h = OPEN \<and> allow_request cfg shared t h b = (False, b)) \<and>
         state_of (fold (\<lambda>t. on_failure cfg t h) (butlast ts) new_breaker) h = CLOSED"
proof -
  let ?b = "fold (\<lambda>t. on_failure cfg t h) (butlast ts) new_breaker"
  have ts: "ts = butlast ts @ [last ts]" using assms(2) by simp
  have len: "length (butlast ts) < bc_fail_threshold cfg" "Suc (length (butlast ts)) \<ge> bc_fail_threshold cfg"
    using assms(1) length_greater_0_conv [of ts] assms(2) by simp_all
  then have b: "state_of ?b h = CLOSED" "failures_of ?b h = butlast ts"
    using failures_below_threshold [of "butlast ts" cfg h] assms(3) by (auto dest: in_set_butlastD)
  have "filter (\<lambda>x. x > last ts - bc_window_seconds cfg) (failures_of ?b h) = butlast ts"
    using assms(2,3) b(2) by (auto simp: filter_id_conv dest: in_set_butlastD)
  from on_failure_closed(3) [OF b(1) this] len(2) b(1)
  have "state_of (on_failure cfg (last ts) h ?b) h = OPEN"
      "br_open_since (on_failure cfg (last ts) h ?b) h = Some (last ts)" "state_of ?b h = CLOSED" by simp_all
  moreover have "fold (\<lambda>t. on_failure cfg t h) ts new_breaker = on_failure cfg (last ts) h ?b"
    by (subst ts) simp
  ultimately show ?thesis using open_refuses [of _ h "last ts" t cfg shared] assms(4) by (simp add: Let_def)
qed

theorem breaker_trips_at_threshold_witness:
  "state_of (fold (\<lambda>t. on_failure \<lparr>bc_fail_threshold = 2, bc_window_seconds = 300, bc_reset_seconds = 600\<rparr> t ''h'') [1, 2] new_breaker) ''h'' = OPEN"
  using breaker_trips_at_threshold [of "[1, 2]" "\<lparr>bc_fail_threshold = 2, bc_window_seconds = 300, bc_reset_seconds = 600\<rparr>" 3 "''h''" None]
  by (simp add: Let_def)

text \<open>In the half-open state a host admits one probe: the first request after the reset period passes, and until its
  outcome is reported every further request is refused, at whatever time it comes.  A probe whose
  outcome is never reported (any exception other than an HTTP error) therefore blocks the host for
  good.\<close>

theorem half_open_admits_one_probe:
  assumes "state_of b h = OPEN" and "br_open_since b h = Some t0" and "t \<ge> t0 + bc_reset_seconds cfg"
    and "br_probe_sent b h = Some False"
    and "allow_request cfg shared t h b = (r, b')"
  shows "r \<and> state_of b' h = HALF_OPEN \<and> (\<forall>u shared'. allow_request cfg shared' u h b' = (False, b'))"
proof -
  from assms have r: "r" "b' = b\<lparr>br_state := (br_state b)(h \<mapsto> HALF_OPEN), br_probe_sent := (br_probe_sent b)(h \<mapsto> True)\<rparr>"
    by (auto simp: allow_request_def Let_def state_of_def split: if_splits)
  then have "state_of b' h = HALF_OPEN" "br_probe_sent b' h = Some True" by (simp_all add: state_of_def)
  with r(1) show ?thesis by (simp add: allow_request_def Let_def)
qed

theorem half_open_admits_one_probe_witness:
  "\<exists>b'. allow_request \<lparr>bc_fail_threshold = 1, bc_window_seconds = 300, bc_reset_seconds = 600\<rparr> None 601 ''h''
          (on_failure \<lparr>bc_fail_threshold = 1, bc_window_seconds = 300, bc_reset_seconds = 600\<rparr> 1 ''h'' new_breaker) = (True, b') \<and>
        allow_request \<lparr>bc_fail_threshold = 1, bc_window_seconds = 300, bc_reset_seconds = 600\<rparr> None 99999 ''h'' b' = (False, b')"
proof -
  let ?cfg = "\<lparr>bc_fail_threshold = 1, bc_window_seconds = 300, bc_reset_seconds = 600\<rparr>"
  let ?b = "on_failure ?cfg 1 ''h'' new_breaker"
  obtain r b' where a: "allow_request ?cfg None 601 ''h'' ?b = (r, b')" by fastforce
  have "state_of ?b ''h'' = OPEN" "br_open_since ?b ''h'' = Some 1" "br_probe_sent ?b ''h'' = Some False"
    by (simp_all add: on_failure_def record_failure_def new_breaker_def state_of_def)
  from half_open_admits_one_probe [OF this(1,2) _ this(3) a] a show ?thesis by auto
qed

section \<open>Signatures\<close>

lemma map_of_update_headers: "map_of (AList.update k v d) k = Some v" "j \<noteq> k \<Longrightarrow> map_of (AList.update k v d) j = map_of d j"
  by (simp_all add: update_conv')

text \<open>What is sent verifies at the receiver: for a webhook with a secret, the signature, version and timestamp headers
  of a current-version delivery pass the published receiver check within the skew window, for every
  payload; and for a collision-free HMAC the same signature is refused with any other timestamp.\<close>

theorem delivery_headers_verify:
  assumes "wh_secret w = Some secret" and "secret \<noteq> []" and "ae_iso ae \<noteq> []"
    and "fromiso (ae_iso ae) = Some sent" and "\<bar>t - sent\<bar> \<le> skew"
    and "build_headers cfg ae w payload ev CURRENT_SIGNATURE_VERSION = Inr headers"
  shows "\<exists>digest. map_of headers ''X-Webhook-Signature'' = Some (''sha256='' @ digest) \<and>
           verify_delivery_signature (ds_hmac cfg) fromiso secret payload digest CURRENT_SIGNATURE_VERSION
             (map_of headers ''X-Webhook-Timestamp'') skew t \<and>
           (inj (ds_hmac cfg secret) \<longrightarrow>
              (\<forall>ts. ts \<noteq> ae_iso ae \<longrightarrow> \<not> verify_signature (ds_hmac cfg) secret payload digest CURRENT_SIGNATURE_VERSION (Some ts)))"
proof -
  let ?digest = "sign_payload_v2 (ds_hmac cfg) secret payload (ae_iso ae)"
  have "map_of headers ''X-Webhook-Signature'' = Some (''sha256='' @ ?digest)"
    "map_of headers ''X-Webhook-Timestamp'' = Some (ae_iso ae)"
    using assms
    by (auto simp: build_headers_def Let_def sign_payload_def CURRENT_SIGNATURE_VERSION_def LEGACY_SIGNATURE_VERSION_def
        TIMESTAMPED_SIGNATURE_VERSION_def update_conv' split: option.splits if_splits)
  moreover have "verify_delivery_signature (ds_hmac cfg) fromiso secret payload ?digest CURRENT_SIGNATURE_VERSION (Some (ae_iso ae)) skew t"
    using assms(3-5) by (simp add: verify_delivery_signature_def CURRENT_SIGNATURE_VERSION_def LEGACY_SIGNATURE_VERSION_def
        is_timestamp_fresh_def verify_signature_v2_def)
  moreover have "\<not> verify_signature (ds_hmac cfg) secret payload ?digest CURRENT_SIGNATURE_VERSION (Some ts)"
    if "inj (ds_hmac cfg secret)" "ts \<noteq> ae_iso ae" for ts
    using that by (auto simp: verify_signature_def verify_signature_v2_def sign_payload_v2_def signing_input_v2_def
        CURRENT_SIGNATURE_VERSION_def LEGACY_SIGNATURE_VERSION_def inj_eq)
  ultimately show ?thesis by auto
qed

section \<open>Deliveries\<close>

lemma get_put_delivery:
  assumes "get_delivery (wd_id d) s = Some d0"
  shows "get_delivery j (put_delivery d s) = (if j = wd_id d then Some d else get_delivery j s)"
proof (cases "j = wd_id d")
  case True
  with assms show ?thesis by (simp add: get_delivery_def put_delivery_def find_update_first)
next
  case False
  then show ?thesis by (simp add: get_delivery_def put_delivery_def find_update_first_other)
qed

lemma attempt_delivery_keeps:
  assumes "attempt_delivery cfg ae w d b = (r, d1, b1)"
  shows "wd_id d1 = wd_id d" "wd_attempt_count d1 = wd_attempt_count d" "wd_webhook_id d1 = wd_webhook_id d"
    "wd_status d1 = wd_status d \<or> wd_status d1 = BREAKER_OPEN"
    "wd_status d1 = BREAKER_OPEN \<Longrightarrow> wd_status d \<noteq> BREAKER_OPEN \<Longrightarrow> r = Inr False"
  using assms
  by (auto simp: attempt_delivery_def Let_def split: sum.splits option.splits prod.splits bool.splits http_result.splits if_splits)

lemma claim_simps [simp]:
  "wd_id (claim t d) = wd_id d" "wd_webhook_id (claim t d) = wd_webhook_id d"
  "wd_attempt_count (claim t d) = wd_attempt_count d + 1" "wd_status (claim t d) = SENDING"
  by (simp_all add: claim_def)

lemma settle_attempt_simps [simp]:
  "wd_id (settle_attempt cfg ae w r d) = wd_id d" "wd_attempt_count (settle_attempt cfg ae w r d) = wd_attempt_count d"
  "wd_webhook_id (settle_attempt cfg ae w r d) = wd_webhook_id d"
  by (simp_all add: settle_attempt_def Let_def)

lemma get_delivery_id: "get_delivery k s = Some d \<Longrightarrow> wd_id d = k"
  by (auto simp: get_delivery_def dest: find_Some_P)

lemma get_delivery_breaker [simp]: "get_delivery k (s\<lparr>breaker := b\<rparr>) = get_delivery k s"
  by (simp add: get_delivery_def)

text \<open>The effect of a dispatch on the delivery table, in one statement.\<close>

lemma dispatch_delivery_effect:
  "get_delivery j (snd (dispatch_delivery cfg ae k s)) =
     (case get_delivery k s of
        Some d0 \<Rightarrow>
          if j = k \<and> claimable d0 then
            (case find (\<lambda>w. wh_id w = wd_webhook_id d0) (webhooks s) of
               None \<Rightarrow> Some (claim (ae_now ae) d0)
             | Some w \<Rightarrow>
                 (case attempt_delivery cfg ae w (claim (ae_now ae) d0) (breaker s) of
                    (Inl e, _, _) \<Rightarrow> Some (claim (ae_now ae) d0)
                  | (Inr r, d1, _) \<Rightarrow> Some (settle_attempt cfg ae w r d1)))
          else get_delivery j s
      | None \<Rightarrow> get_delivery j s)"
proof (cases "get_delivery k s")
  case (Some d0)
  then have k: "wd_id d0 = k" by (rule get_delivery_id)
  let ?d = "claim (ae_now ae) d0"
  have get1: "get_delivery i (put_delivery ?d s) = (if i = k then Some ?d else get_delivery i s)" for i
    using get_put_delivery [of ?d s d0 i] Some k by simp
  have get2: "get_delivery i (put_delivery (settle_attempt cfg ae w r d1) (put_delivery ?d s\<lparr>breaker := b1\<rparr>))
      = (if i = k then Some (settle_attempt cfg ae w r d1) else get_delivery i s)"
    if "wd_id d1 = k" for i w r d1 b1
    using get_put_delivery [of "settle_attempt cfg ae w r d1" "put_delivery ?d s\<lparr>breaker := b1\<rparr>" ?d i] that get1 by simp
  have breaker: "breaker (put_delivery ?d s) = breaker s" "webhooks (put_delivery ?d s) = webhooks s"
    by (simp_all add: put_delivery_def)
  show ?thesis
  proof (cases "find (\<lambda>w. wh_id w = wd_webhook_id d0) (webhooks s)")
    case None
    with Some show ?thesis by (simp add: dispatch_delivery_def Let_def get1)
  next
    case w: (Some w)
    obtain r d1 b1 where att: "attempt_delivery cfg ae w ?d (breaker s) = (r, d1, b1)" by (metis prod.exhaust)
    with attempt_delivery_keeps(1) [OF att] k have "wd_id d1 = k" by simp
    with Some w att show ?thesis
      by (cases r) (simp_all add: dispatch_delivery_def Let_def get1 get2 breaker)
  qed
qed (simp add: dispatch_delivery_def)

text \<open>Any step of the pipeline under fixed settings: a task dispatch, a retry sweep, a replay, an event.\<close>

inductive webhook_step :: "delivery_settings \<Rightarrow> webhook_state \<Rightarrow> webhook_state \<Rightarrow> bool" for cfg where
  dispatched: "webhook_step cfg s (snd (dispatch_delivery cfg ae k s))"
| swept: "webhook_step cfg s (snd (retry_pending_deliveries cfg attempts t n s))"
| replayed: "webhook_step cfg s (snd (replay_dead_letter_delivery cfg ae k s))"
| triggered: "te_settings te = cfg \<Longrightarrow> webhook_step cfg s (snd (trigger_sla_violation_webhooks te data ev s))"

text \<open>
  A property of states that single dispatches, insertions of fresh deliveries, resets of dead letters and
  the event budget preserve is preserved by every step.
\<close>

lemma dispatch_all_preserves:
  assumes "\<And>ae k s. P s \<Longrightarrow> P (snd (dispatch_delivery cfg ae k s))"
  shows "P s \<Longrightarrow> P (snd (dispatch_all cfg attempts ks s))"
proof (induction ks arbitrary: s)
  case (Cons k ks)
  obtain r s1 where d: "dispatch_delivery cfg (attempts k) k s = (r, s1)" by fastforce
  with assms [OF Cons.prems] have "P s1" by (metis snd_conv)
  with Cons.IH [of s1] d show ?case by (auto split: sum.splits prod.splits)
qed simp

lemma fan_out_preserves:
  assumes "\<And>ae k s. P s \<Longrightarrow> P (snd (dispatch_delivery cfg ae k s))"
    and "\<And>w s. P s \<Longrightarrow> P (snd (create_delivery uuid t w ev payload version s))"
    and "\<And>q s. P s \<Longrightarrow> P (s\<lparr>celery_queue := q\<rparr>)"
  shows "P s \<Longrightarrow> P (snd (fan_out cfg uuid t celery attempts ev payload version decs s))"
proof (induction decs arbitrary: s)
  case (Cons dec decs)
  obtain d s1 where c: "create_delivery uuid t (sd_webhook dec) ev payload version s = (d, s1)" by fastforce
  with assms(2) [OF Cons.prems] have "P s1" by (metis snd_conv)
  obtain r s2 where s2: "(if celery then (Inr (), s1\<lparr>celery_queue := celery_queue s1 @ [wd_id d]\<rparr>)
      else dispatch_delivery cfg (attempts (wd_id d)) (wd_id d) s1) = (r, s2)" by fastforce
  have "P s2"
  proof (cases celery)
    case True
    with s2 assms(3) [OF \<open>P s1\<close>] show ?thesis by auto
  next
    case False
    with s2 assms(1) [OF \<open>P s1\<close>] show ?thesis by (metis snd_conv)
  qed
  with Cons.IH [of s2] Cons.IH [OF Cons.prems] c s2 show ?case by (auto split: sum.splits prod.splits)
qed simp

lemma webhook_step_preserves:
  assumes step: "webhook_step cfg s s'" and "P s"
    and dispatch: "\<And>ae k s. P s \<Longrightarrow> P (snd (dispatch_delivery cfg ae k s))"
    and create: "\<And>uuid t w ev payload version s. P s \<Longrightarrow> P (snd (create_delivery uuid t w ev payload version s))"
    and queue: "\<And>q s. P s \<Longrightarrow> P (s\<lparr>celery_queue := q\<rparr>)" and budget: "\<And>h s. P s \<Longrightarrow> P (s\<lparr>event_hits := h\<rparr>)"
    and replay: "\<And>t k d s. P s \<Longrightarrow> get_delivery k s = Some d \<Longrightarrow> wd_status d = DEAD_LETTER \<Longrightarrow>
      P (put_delivery (reset_for_replay t d) s)"
  shows "P s'"
  using step
proof (cases rule: webhook_step.cases)
  case (dispatched ae k)
  with \<open>P s\<close> dispatch show ?thesis by simp
next
  case (swept attempts t n)
  with \<open>P s\<close> dispatch_all_preserves [of P cfg, OF dispatch] show ?thesis by (simp add: retry_pending_deliveries_def)
next
  case (replayed ae k)
  show ?thesis
  proof (cases "get_delivery k s")
    case (Some d)
    show ?thesis
    proof (cases "wd_status d = DEAD_LETTER")
      case True
      from dispatch [OF replay [OF \<open>P s\<close> Some True], of ae k "ae_now ae"] replayed Some True show ?thesis
        by (auto simp: replay_dead_letter_delivery_def split: prod.splits sum.splits)
    qed (use replayed Some \<open>P s\<close> in \<open>simp add: replay_dead_letter_delivery_def\<close>)
  qed (use replayed \<open>P s\<close> in \<open>simp add: replay_dead_letter_delivery_def\<close>)
next
  case (triggered te data ev)
  obtain decisions hits where plan: "dispatch_plan (te_fanout te) (subscribers_for_event ev s) (event_hits s) = (decisions, hits)"
    by fastforce
  from fan_out_preserves [of P cfg, OF dispatch create queue budget [OF \<open>P s\<close>]] triggered plan show ?thesis
    by (simp add: trigger_sla_violation_webhooks_def Let_def)
qed

section \<open>Parked deliveries\<close>

lemma get_delivery_create:
  "get_delivery j (snd (create_delivery uuid t w ev payload version s)) =
     (case get_delivery j s of Some d \<Rightarrow> Some d
      | None \<Rightarrow> if uuid (delivery_uuids s) = j then Some (fst (create_delivery uuid t w ev payload version s)) else None)"
  by (simp add: create_delivery_def get_delivery_def find_append Let_def split: option.split)

lemma parked_step:
  assumes "webhook_step cfg s s'" "get_delivery k s = Some d" "wd_status d \<in> {SENDING, SUCCESS, BREAKER_OPEN, FAILED}"
  shows "get_delivery k s' = Some d"
  using assms(1) assms(2)
proof (rule webhook_step_preserves [where P = "\<lambda>s. get_delivery k s = Some d"])
  show "get_delivery k (snd (dispatch_delivery cfg ae j s)) = Some d" if "get_delivery k s = Some d" for ae j s
    using that assms(3) by (auto simp: dispatch_delivery_effect claimable_def split: option.splits)
  show "get_delivery k (put_delivery (reset_for_replay t e) s) = Some d"
    if "get_delivery k s = Some d" "get_delivery j s = Some e" "wd_status e = DEAD_LETTER" for t j e s
  proof -
    have "wd_id (reset_for_replay t e) = j" using that(2) by (simp add: reset_for_replay_def get_delivery_id)
    with that assms(3) get_put_delivery [of "reset_for_replay t e" s e k] show ?thesis by auto
  qed
  show "get_delivery k (snd (create_delivery uuid t w ev payload version s)) = Some d" if "get_delivery k s = Some d"
    for uuid t w ev payload version s
    using that by (simp add: get_delivery_create)
qed (simp_all add: get_delivery_def)

text \<open>A delivered webhook is never sent again: once a delivery succeeded, no dispatch, duplicate task, retry sweep,
  replay or new event changes any field of it.\<close>

theorem successful_delivery_is_final:
  assumes "(webhook_step cfg)\<^sup>*\<^sup>* s s'" and "get_delivery k s = Some d" and "wd_status d = SUCCESS"
  shows "get_delivery k s' = Some d"
  using assms(1,2) by (induction rule: rtranclp_induct) (auto intro: parked_step simp: assms(3))

text \<open>A delivery deferred by the breaker is never retried: the sweep looks for deferred rows with a retry time, but
  deferring sets none and the claim accepts only pending and retrying rows, so a row in
  \<open>BREAKER_OPEN\<close>, once there, keeps that status through every later step.\<close>

theorem deferred_delivery_is_stuck:
  assumes "(webhook_step cfg)\<^sup>*\<^sup>* s s'" and "get_delivery k s = Some d" and "wd_status d = BREAKER_OPEN"
  shows "get_delivery k s' = Some d"
  using assms(1,2) by (induction rule: rtranclp_induct) (auto intro: parked_step simp: assms(3))

section \<open>Bounded attempts\<close>

definition allowed_retries :: "delivery_settings \<Rightarrow> webhook \<Rightarrow> int" where
  "allowed_retries cfg w = min (effective_max_retries w) (int (length (ds_retry_delays cfg)))"

definition delivery_bounded :: "delivery_settings \<Rightarrow> webhook_state \<Rightarrow> delivery \<Rightarrow> bool" where
  "delivery_bounded cfg s d \<longleftrightarrow>
     (case find (\<lambda>w. wh_id w = wd_webhook_id d) (webhooks s) of
        None \<Rightarrow> True
      | Some w \<Rightarrow> wd_attempt_count d \<le> allowed_retries cfg w + 1 \<and>
          (wd_status d = PENDING \<longrightarrow> wd_attempt_count d = 0) \<and>
          (wd_status d = RETRYING \<longrightarrow> wd_attempt_count d \<le> allowed_retries cfg w))"

definition attempts_bounded :: "delivery_settings \<Rightarrow> webhook_state \<Rightarrow> bool" where
  "attempts_bounded cfg s \<longleftrightarrow>
     (\<forall>w \<in> set (webhooks s). 0 \<le> wh_max_retries w) \<and> (\<forall>k d. get_delivery k s = Some d \<longrightarrow> delivery_bounded cfg s d)"

lemma webhooks_frame [simp]:
  "webhooks (put_delivery d s) = webhooks s" "webhooks (snd (create_delivery uuid t w ev payload version s)) = webhooks s"
  by (simp_all add: put_delivery_def create_delivery_def Let_def)

lemma webhooks_dispatch [simp]: "webhooks (snd (dispatch_delivery cfg ae k s)) = webhooks s"
  by (simp add: dispatch_delivery_def Let_def split: option.splits prod.splits sum.splits)

lemma delivery_bounded_cong: "webhooks s' = webhooks s \<Longrightarrow> delivery_bounded cfg s' d = delivery_bounded cfg s d"
  by (simp add: delivery_bounded_def)

lemma settle_retrying:
  "wd_status (settle_attempt cfg ae w r d) = RETRYING \<Longrightarrow> wd_status d \<noteq> RETRYING \<Longrightarrow> wd_attempt_count d \<le> allowed_retries cfg w"
  by (auto simp: settle_attempt_def allowed_retries_def Let_def split: if_splits)

lemma settle_not_pending: "wd_status d \<noteq> PENDING \<Longrightarrow> wd_status (settle_attempt cfg ae w r d) \<noteq> PENDING"
  by (auto simp: settle_attempt_def Let_def)

lemma claim_bounded:
  assumes "delivery_bounded cfg s d" "claimable d" "find (\<lambda>w. wh_id w = wd_webhook_id d) (webhooks s) = Some w"
    "0 \<le> wh_max_retries w"
  shows "wd_attempt_count (claim t d) \<le> allowed_retries cfg w + 1"
  using assms by (auto simp: delivery_bounded_def claimable_def allowed_retries_def effective_max_retries_def)

lemma dispatch_bounded:
  assumes "attempts_bounded cfg s"
  shows "attempts_bounded cfg (snd (dispatch_delivery cfg ae k s))"
proof -
  have "delivery_bounded cfg s d" if get: "get_delivery j (snd (dispatch_delivery cfg ae k s)) = Some d" for j d
  proof (cases "get_delivery k s")
    case None
    with get assms show ?thesis by (simp add: dispatch_delivery_effect attempts_bounded_def)
  next
    case (Some d0)
    show ?thesis
    proof (cases "j = k \<and> claimable d0")
      case False
      with get Some assms show ?thesis by (auto simp: dispatch_delivery_effect attempts_bounded_def)
    next
      case True
      show ?thesis
      proof (cases "find (\<lambda>w. wh_id w = wd_webhook_id d0) (webhooks s)")
        case None
        with get Some True show ?thesis by (auto simp: dispatch_delivery_effect delivery_bounded_def)
      next
        case w: (Some w)
        then have "0 \<le> wh_max_retries w" "delivery_bounded cfg s d0"
          using assms Some by (auto simp: attempts_bounded_def dest: find_Some_set)
        with claim_bounded w True have bound: "wd_attempt_count (claim (ae_now ae) d0) \<le> allowed_retries cfg w + 1" by blast
        obtain r d1 b1 where att: "attempt_delivery cfg ae w (claim (ae_now ae) d0) (breaker s) = (r, d1, b1)" by (metis prod.exhaust)
        note keeps = attempt_delivery_keeps [OF att]
        show ?thesis
        proof (cases r)
          case (Inl e)
          with get Some True w att bound show ?thesis by (auto simp: dispatch_delivery_effect delivery_bounded_def)
        next
          case (Inr success)
          then have d: "d = settle_attempt cfg ae w success d1" using get Some True w att by (auto simp: dispatch_delivery_effect)
          have "wd_status d1 \<noteq> RETRYING" "wd_status d1 \<noteq> PENDING" using keeps(4) by auto
          with settle_retrying [of cfg ae w success d1] settle_not_pending [of d1 cfg ae w success] bound keeps w d
          show ?thesis by (auto simp: delivery_bounded_def)
        qed
      qed
    qed
  qed
  with assms show ?thesis by (simp add: attempts_bounded_def delivery_bounded_cong [OF webhooks_dispatch])
qed

lemma attempts_bounded_step: "webhook_step cfg s s' \<Longrightarrow> attempts_bounded cfg s \<Longrightarrow> attempts_bounded cfg s'"
proof (erule webhook_step_preserves)
  show "attempts_bounded cfg (snd (dispatch_delivery cfg ae k s))" if "attempts_bounded cfg s" for ae k s
    using that by (rule dispatch_bounded)
  show "attempts_bounded cfg (snd (create_delivery uuid t w ev payload version s))" if "attempts_bounded cfg s"
    for uuid t w ev payload version s
  proof -
    have "delivery_bounded cfg s (fst (create_delivery uuid t w ev payload version s))"
      using that by (auto simp: create_delivery_def Let_def delivery_bounded_def attempts_bounded_def allowed_retries_def
          effective_max_retries_def split: option.splits dest: find_Some_set)
    with that show ?thesis
      by (auto simp: attempts_bounded_def get_delivery_create delivery_bounded_cong [OF webhooks_frame(2)] split: option.splits if_splits)
  qed
  show "attempts_bounded cfg (put_delivery (reset_for_replay t d) s)"
    if "attempts_bounded cfg s" "get_delivery k s = Some d" for t k d s
  proof -
    have id: "wd_id (reset_for_replay t d) = k" using that(2) by (simp add: reset_for_replay_def get_delivery_id)
    have "delivery_bounded cfg s (reset_for_replay t d)"
      using that by (auto simp: reset_for_replay_def delivery_bounded_def attempts_bounded_def allowed_retries_def
          effective_max_retries_def split: option.splits dest: find_Some_set)
    with that id get_put_delivery [of "reset_for_replay t d" s d] show ?thesis
      by (auto simp: attempts_bounded_def delivery_bounded_cong [OF webhooks_frame(1)] split: if_splits)
  qed
qed (simp_all add: attempts_bounded_def delivery_bounded_def get_delivery_def)

text \<open>Retries are bounded: starting without deliveries and with non-negative retry settings, after any sequence of
  dispatches, duplicate tasks, sweeps, replays and events no delivery has been attempted more often since its creation
  or last replay than once plus the smaller of the webhook's retry limit and the number of configured delays.\<close>

theorem delivery_attempts_bounded:
  assumes "(webhook_step cfg)\<^sup>*\<^sup>* s s'" and "deliveries s = []" and "\<forall>w \<in> set (webhooks s). 0 \<le> wh_max_retries w"
    and "get_delivery k s' = Some d" and "find (\<lambda>w. wh_id w = wd_webhook_id d) (webhooks s') = Some w"
  shows "wd_attempt_count d \<le> min (effective_max_retries w) (int (length (ds_retry_delays cfg))) + 1"
proof -
  have "attempts_bounded cfg s" using assms(2,3) by (simp add: attempts_bounded_def get_delivery_def)
  with assms(1) have "attempts_bounded cfg s'"
    by (induction rule: rtranclp_induct) (auto intro: attempts_bounded_step)
  with assms(4) have "delivery_bounded cfg s' d" by (simp add: attempts_bounded_def)
  with assms(5) show ?thesis by (simp add: delivery_bounded_def allowed_retries_def)
qed

section \<open>Concrete runs\<close>

definition sample_settings :: delivery_settings where
  "sample_settings =
     \<lparr>ds_hmac = (\<lambda>k m. m), ds_host_key = (\<lambda>u. u),
      ds_breaker = \<lparr>bc_fail_threshold = 1, bc_window_seconds = 300, bc_reset_seconds = 600\<rparr>,
      ds_retry_delays = [30, 120, 600], ds_max_delay = 3600, ds_jitter = Jitter_none, ds_second = 1,
      ds_network = production_network\<rparr>"

definition sample_attempt :: "time \<Rightarrow> http_result \<Rightarrow> attempt_env" where
  "sample_attempt t http =
     \<lparr>ae_now = t, ae_iso = ''T'', ae_correlation_id = ''c'', ae_traceparent = None, ae_resolve = (\<lambda>_. Some [''93.184.216.34'']),
      ae_shared_open = None, ae_http = http, ae_draw = 1\<rparr>"

definition sample_webhook :: webhook where
  "sample_webhook = \<lparr>wh_id = ''w'', wh_name = ''receiver'', wh_url = ''https://receiver.example'', wh_secret = Some ''k'', wh_is_active = True,
     wh_events = Some [''sla.violation''], wh_resolved_ips = None, wh_max_retries = 3, wh_created_at = 0,
     wh_last_secret_rotation_at = None, wh_secret_version = 1, wh_previous_secrets = [], wh_secret_grace_hours = 24, wh_deleted_at = None\<rparr>"

definition sample_delivery :: "delivery_status \<Rightarrow> delivery" where
  "sample_delivery st = \<lparr>wd_id = ''d'', wd_webhook_id = ''w'', wd_event = SLA_VIOLATION, wd_payload = ''{}'', wd_status = st,
     wd_attempt_count = 0, wd_next_retry_at = None, wd_response_status_code = None, wd_response_body = None,
     wd_error_message = None, wd_delivered_at = None, wd_dead_lettered_at = None, wd_signature_version = 2, wd_created_at = 0, wd_updated_at = 0\<rparr>"

definition sample_webhook_state :: "delivery list \<Rightarrow> webhook_state" where
  "sample_webhook_state ds = \<lparr>webhooks = [sample_webhook], deliveries = ds, breaker = new_breaker, event_hits = [],
     celery_queue = [], delivery_uuids = 0\<rparr>"

theorem delivery_headers_verify_witness:
  "\<exists>headers digest. build_headers sample_settings (sample_attempt 5 (Http_response 200 [])) sample_webhook ''{}'' SLA_VIOLATION
       CURRENT_SIGNATURE_VERSION = Inr headers \<and>
     verify_delivery_signature (ds_hmac sample_settings) (\<lambda>_. Some 5) ''k'' ''{}'' digest CURRENT_SIGNATURE_VERSION
       (map_of headers ''X-Webhook-Timestamp'') 300 6"
proof -
  obtain headers where h: "build_headers sample_settings (sample_attempt 5 (Http_response 200 [])) sample_webhook ''{}'' SLA_VIOLATION
       CURRENT_SIGNATURE_VERSION = Inr headers"
    by (simp add: build_headers_def sample_webhook_def sign_payload_def CURRENT_SIGNATURE_VERSION_def LEGACY_SIGNATURE_VERSION_def
        TIMESTAMPED_SIGNATURE_VERSION_def Let_def)
  have "\<exists>digest. map_of headers ''X-Webhook-Signature'' = Some (''sha256='' @ digest) \<and>
      verify_delivery_signature (ds_hmac sample_settings) (\<lambda>_. Some 5) ''k'' ''{}'' digest CURRENT_SIGNATURE_VERSION
        (map_of headers ''X-Webhook-Timestamp'') 300 6 \<and>
      (inj (ds_hmac sample_settings ''k'') \<longrightarrow> (\<forall>ts. ts \<noteq> ae_iso (sample_attempt 5 (Http_response 200 [])) \<longrightarrow>
        \<not> verify_signature (ds_hmac sample_settings) ''k'' ''{}'' digest CURRENT_SIGNATURE_VERSION (Some ts)))"
    by (rule delivery_headers_verify [OF _ _ _ _ _ h, where sent = 5]) (simp_all add: sample_webhook_def sample_attempt_def)
  with h show ?thesis by blast
qed

theorem successful_delivery_is_final_witness:
  "get_delivery ''d'' (snd (dispatch_delivery sample_settings (sample_attempt 9 (Http_response 500 [])) ''d''
      (sample_webhook_state [sample_delivery SUCCESS]))) = Some (sample_delivery SUCCESS)"
  by (rule successful_delivery_is_final [of sample_settings "sample_webhook_state [sample_delivery SUCCESS]"])
     (blast intro: dispatched, simp_all add: get_delivery_def sample_webhook_state_def sample_delivery_def)

lemma sample_receiver:
  "validate_webhook_url production_network (\<lambda>_. Some [''93.184.216.34'']) ''https://receiver.example'' = Inr [''93.184.216.34'']"
proof -
  have "urlparse ''https://receiver.example'' = Inr \<lparr>up_scheme = ''https'', up_netloc = ''receiver.example'', up_fragment = []\<rparr>"
    by (simp add: urlparse_def split_scheme_def partition_at_def is_letter_def is_digit_def scheme_char_def py_lower_def
        lower_char_def netloc_ok_def Let_def)
  then show ?thesis
    by (simp add: validate_webhook_url_def port_of_def hostinfo_def hostname_of_def after_last_def partition_at_def
        py_lower_def lower_char_def resolve_host_def Let_def sample_public_v4 production_network_def [symmetric])
      (simp add: production_network_def)
qed

lemma sample_deferral:
  "\<exists>d. get_delivery ''d'' (snd (dispatch_delivery sample_settings (sample_attempt 9 (Http_response 200 [])) ''d''
      (sample_webhook_state [sample_delivery PENDING]\<lparr>breaker := on_failure (ds_breaker sample_settings) 5 ''https://receiver.example'' new_breaker\<rparr>)))
      = Some d \<and> wd_status d = BREAKER_OPEN"
  by (simp add: dispatch_delivery_def put_delivery_def get_delivery_def sample_webhook_state_def sample_delivery_def sample_webhook_def claimable_def
      attempt_delivery_def build_headers_def sign_payload_def LEGACY_SIGNATURE_VERSION_def TIMESTAMPED_SIGNATURE_VERSION_def
      claim_def sample_attempt_def sample_settings_def sample_receiver allow_request_def on_failure_def record_failure_def new_breaker_def
      state_of_def settle_attempt_def Let_def)

theorem deferred_delivery_is_stuck_witness:
  "\<exists>d s. get_delivery ''d'' s = Some d \<and> wd_status d = BREAKER_OPEN \<and>
     get_delivery ''d'' (snd (retry_pending_deliveries sample_settings (\<lambda>_. sample_attempt 9999 (Http_response 200 [])) 9999 100 s)) = Some d"
proof -
  obtain d s where d: "get_delivery ''d'' s = Some d" "wd_status d = BREAKER_OPEN" using sample_deferral by blast
  have "get_delivery ''d'' (snd (retry_pending_deliveries sample_settings (\<lambda>_. sample_attempt 9999 (Http_response 200 [])) 9999 100 s)) = Some d"
    by (rule deferred_delivery_is_stuck [OF _ d, of sample_settings]) (blast intro: swept)
  with d show ?thesis by blast
qed

theorem delivery_attempts_bounded_witness:
  "\<exists>s'. (webhook_step sample_settings)\<^sup>*\<^sup>* (sample_webhook_state []) s' \<and>
     (\<forall>k d w. get_delivery k s' = Some d \<and> find (\<lambda>w. wh_id w = wd_webhook_id d) (webhooks s') = Some w \<longrightarrow>
        wd_attempt_count d \<le> min (effective_max_retries w) 3 + 1)"
proof -
  let ?s = "snd (dispatch_delivery sample_settings (sample_attempt 9 (Http_response 500 [])) ''d'' (sample_webhook_state []))"
  have step: "(webhook_step sample_settings)\<^sup>*\<^sup>* (sample_webhook_state []) ?s" by (blast intro: dispatched)
  have "wd_attempt_count d \<le> min (effective_max_retries w) (int (length (ds_retry_delays sample_settings))) + 1"
    if "get_delivery k ?s = Some d" "find (\<lambda>w. wh_id w = wd_webhook_id d) (webhooks ?s) = Some w" for k d w
    by (rule delivery_attempts_bounded [OF step _ _ that]) (simp_all add: sample_webhook_state_def sample_webhook_def)
  with step show ?thesis by (auto simp: sample_settings_def)
qed

end
