(* ===== verification/Locks.thy ===== *)
theory Locks
  imports Prelude "HOL-Library.Word"
begin

text \<open>
  Sequencing of fallible operations, and the advisory locks of \<^verbatim>\<open>app/core/lock.py\<close>: the key that is hashed into a signed 64-bit
  number, the lock that fails at once, and the one that polls until a deadline.
\<close>

section \<open>Sequencing\<close>

definition bind_outcome :: "('a, 's) outcome \<Rightarrow> ('a \<Rightarrow> 's \<Rightarrow> ('b, 's) outcome) \<Rightarrow> ('b, 's) outcome" where
  "bind_outcome m f = (case m of (Inl e, s) \<Rightarrow> (Inl e, s) | (Inr x, s) \<Rightarrow> f x s)"

lemma bind_outcome_simps [simp, handler_simps]:
  "bind_outcome (Inl e, s) f = (Inl e, s)" "bind_outcome (Inr x, s) f = f x s"
  by (simp_all add: bind_outcome_def)

section \<open>The advisory lock\<close>

text \<open>
  \<open>advisory_lock_nowait\<close>: refused when the lock is held elsewhere, else the body runs; any exception of the body
  that is not transient is re-raised as a transient error.
\<close>

definition advisory_lock_nowait :: "bool \<Rightarrow> ('s \<Rightarrow> ('a, 's) outcome) \<Rightarrow> 's \<Rightarrow> ('a, 's) outcome" where
  "advisory_lock_nowait acquired body s =
     (if \<not> acquired then (Inl ConcurrencyError, s)
      else (case body s of
              (Inl ApexTransientError, s') \<Rightarrow> (Inl ApexTransientError, s')
            | (Inl ConcurrencyError, s') \<Rightarrow> (Inl ConcurrencyError, s')
            | (Inl e, s') \<Rightarrow> (Inl ApexTransientError, s')
            | (Inr x, s') \<Rightarrow> (Inr x, s')))"

text \<open>
  \<open>advisory_lock\<close>: polls until the lock is free or the deadline passed.  \<open>try_lock i\<close> and \<open>clock i\<close> are the
  reply and the clock of poll \<open>i\<close>; \<open>polls\<close> bounds the loop.
\<close>

fun acquire_before :: "(nat \<Rightarrow> bool) \<Rightarrow> (nat \<Rightarrow> time) \<Rightarrow> time \<Rightarrow> nat \<Rightarrow> nat \<Rightarrow> bool option" where
  "acquire_before try_lock clock deadline 0 i = None"
| "acquire_before try_lock clock deadline (Suc polls) i =
     (if try_lock i then Some True
      else if deadline - clock i \<le> 0 then Some False
      else acquire_before try_lock clock deadline polls (Suc i))"

text \<open>The body runs under the polled lock exactly as under the other one; a lock that was not obtained raises.\<close>

definition advisory_lock ::
  "(nat \<Rightarrow> bool) \<Rightarrow> (nat \<Rightarrow> time) \<Rightarrow> time \<Rightarrow> nat \<Rightarrow> ('s \<Rightarrow> ('a, 's) outcome) \<Rightarrow> 's \<Rightarrow> ('a, 's) outcome option" where
  "advisory_lock try_lock clock timeout polls body s =
     (if timeout < 0 then Some (Inl ValueError, s)
      else map_option (\<lambda>acquired. advisory_lock_nowait acquired body s) (acquire_before try_lock clock (clock 0 + timeout) polls 0))"

text \<open>\<open>_lock_id_from_key\<close>: the first eight bytes of the digest, big-endian, as a signed 64-bit integer.\<close>

definition lock_word :: "nat list \<Rightarrow> 64 word" where
  "lock_word digest = fold (\<lambda>b w. w * 256 + of_nat b) (take 8 digest) 0"

definition lock_id_from_key :: "(str \<Rightarrow> nat list) \<Rightarrow> str \<Rightarrow> int" where
  "lock_id_from_key sha256 key = sint (lock_word (sha256 key))"

section \<open>Lemmas\<close>

definition base256 :: "nat list \<Rightarrow> nat" where "base256 bs = fold (\<lambda>b n. n * 256 + b) bs 0"

lemma base256_snoc: "base256 (bs @ [b]) = base256 bs * 256 + b" by (simp add: base256_def)

lemma base256_less: "\<forall>b \<in> set bs. b < 256 \<Longrightarrow> base256 bs < 256 ^ length bs"
proof (induction bs rule: rev_induct)
  case (snoc b bs)
  then have "base256 bs + 1 \<le> 256 ^ length bs" "b < 256" by auto
  then have "base256 bs * 256 + b < (base256 bs + 1) * 256" by simp
  also have "\<dots> \<le> 256 ^ length bs * 256" using \<open>base256 bs + 1 \<le> _\<close> by (rule mult_le_mono1)
  finally show ?case by (simp add: base256_snoc)
qed (simp add: base256_def)

lemma base256_inj:
  "length bs = length cs \<Longrightarrow> \<forall>b \<in> set bs. b < 256 \<Longrightarrow> \<forall>c \<in> set cs. c < 256 \<Longrightarrow> base256 bs = base256 cs \<Longrightarrow> bs = cs"
proof (induction bs arbitrary: cs rule: rev_induct)
  case (snoc b bs)
  from snoc.prems(1) obtain ds d where cs: "cs = ds @ [d]" by (metis length_append_singleton length_0_conv nat.distinct(1) rev_exhaust)
  from snoc.prems have eq: "base256 bs * 256 + b = base256 ds * 256 + d" "b < 256" "d < 256" by (simp_all add: cs base256_snoc)
  have "b = d" using arg_cong [OF eq(1), of "\<lambda>n. n mod 256"] eq(2,3) by simp
  moreover have "base256 bs = base256 ds" using eq(1) \<open>b = d\<close> by simp
  ultimately show ?case using snoc by (simp add: cs)
qed simp

lemma lock_word_base256: "lock_word digest = of_nat (base256 (take 8 digest))"
proof -
  have "fold (\<lambda>b w. w * 256 + of_nat b) bs (of_nat n :: 64 word) = of_nat (fold (\<lambda>b n. n * 256 + b) bs n)" for bs n
  proof (induction bs arbitrary: n)
    case (Cons b bs)
    have "of_nat n * 256 + of_nat b = (of_nat (n * 256 + b) :: 64 word)" by simp
    then show ?case by (simp only: fold.simps comp_apply Cons.IH)
  qed simp
  from this [of "take 8 digest" 0] show ?thesis by (simp add: lock_word_def base256_def)
qed

lemma lock_word_eq:
  assumes "length d = 32" "length d' = 32" "\<forall>b \<in> set (d @ d'). b < 256" "lock_word d = lock_word d'"
  shows "take 8 d = take 8 d'"
proof -
  have bounds: "\<forall>b \<in> set (take 8 d). b < 256" "\<forall>b \<in> set (take 8 d'). b < 256" using assms(3) by (auto dest: in_set_takeD)
  have small: "base256 (take 8 d) < 2 ^ 64" "base256 (take 8 d') < 2 ^ 64"
    using base256_less [OF bounds(1)] base256_less [OF bounds(2)] assms(1,2) by simp_all
  from assms(4) have "unat (of_nat (base256 (take 8 d)) :: 64 word) = unat (of_nat (base256 (take 8 d')) :: 64 word)"
    by (simp add: lock_word_base256)
  with small have "base256 (take 8 d) = base256 (take 8 d')" by (simp add: unat_of_nat)
  with base256_inj [OF _ bounds] assms(1,2) show ?thesis by simp
qed

lemma acquire_before_ends:
  assumes "0 < step" "\<And>i. clock (Suc i) \<ge> clock i + min step (deadline - clock i)"
  shows "deadline - clock i \<le> int n * step \<Longrightarrow> \<exists>b. acquire_before try_lock clock deadline (Suc n) i = Some b"
proof (induction n arbitrary: i)
  case (Suc n)
  show ?case
  proof (cases "try_lock i \<or> deadline - clock i \<le> 0")
    case False
    have "deadline - clock (Suc i) \<le> int n * step"
    proof (cases "deadline - clock i \<le> step")
      case True
      then have "deadline - clock (Suc i) \<le> 0" using assms(2) [of i] by simp
      also have "\<dots> \<le> int n * step" using assms(1) by simp
      finally show ?thesis .
    next
      case False
      with Suc.prems assms(2) [of i] show ?thesis by (simp add: algebra_simps)
    qed
    from Suc.IH [OF this] False show ?thesis by simp
  qed auto
qed auto

section \<open>Properties\<close>

text \<open>The lock number always fits the signed 64-bit type of the database, and it identifies the first eight bytes of the digest.\<close>

theorem lock_id_fits_bigint:
  assumes "length (sha256 k) = 32" "length (sha256 l) = 32" "\<forall>b \<in> set (sha256 k @ sha256 l). b < 256"
  shows "- (2 ^ 63) \<le> lock_id_from_key sha256 k \<and> lock_id_from_key sha256 k < 2 ^ 63 \<and>
    (lock_id_from_key sha256 k = lock_id_from_key sha256 l \<longleftrightarrow> take 8 (sha256 k) = take 8 (sha256 l))"
  unfolding lock_id_from_key_def
proof (intro conjI iffI)
  show "- (2 ^ 63) \<le> sint (lock_word (sha256 k))" "sint (lock_word (sha256 k)) < 2 ^ 63"
    using sint_greater_eq [of "lock_word (sha256 k)"] sint_less [of "lock_word (sha256 k)"] by simp_all
  show "take 8 (sha256 k) = take 8 (sha256 l)" if "sint (lock_word (sha256 k)) = sint (lock_word (sha256 l))"
    by (rule lock_word_eq [OF assms signed_word_eqI [OF that]])
  show "sint (lock_word (sha256 k)) = sint (lock_word (sha256 l))" if "take 8 (sha256 k) = take 8 (sha256 l)"
    using that by (simp add: lock_word_def)
qed

theorem lock_id_fits_bigint_witness:
  "lock_id_from_key (\<lambda>_. replicate 32 255) ''k'' = - 1 \<and> lock_id_from_key (\<lambda>_. replicate 32 255) ''k'' < 2 ^ 63"
  using lock_id_fits_bigint [of "\<lambda>_. replicate 32 255" "''k''" "''k''"]
  by (simp add: lock_id_from_key_def lock_word_def take_replicate numeral_eq_Suc)



end
