(* ===== verification/Settlement.thy ===== *)
theory Settlement
  imports Outages Payments Webhooks Locks
begin

text \<open>
  The outage workflow of \<^verbatim>\<open>app/api/v1/endpoints/outages.py\<close>: creation, bulk creation, imports (dry run, atomic,
  partial), updates, deletion, resolution with SLA settlement, recomputation and the timeline, over the
  repositories and the webhook pipeline, with the advisory lock around the critical
  sections.  A request maps the pair of the relational database and the webhook state.
\<close>

section \<open>Sequencing\<close>

text \<open>An \<open>except ValueError\<close> clause that answers with a status code (\<open>PaymentTransitionError\<close> is a subclass).\<close>

definition value_error_to :: "nat \<Rightarrow> ('a, 's) outcome \<Rightarrow> ('a, 's) outcome" where
  "value_error_to code m =
     (case m of (Inl ValueError, s) \<Rightarrow> (Inl (HTTPError code), s)
      | (Inl (PaymentTransitionError _ _), s) \<Rightarrow> (Inl (HTTPError code), s)
      | r \<Rightarrow> r)"

type_synonym sys = "database \<times> webhook_state"

definition on_db :: "(database \<Rightarrow> ('a, database) outcome) \<Rightarrow> sys \<Rightarrow> ('a, sys) outcome" where
  "on_db f s = (case f (fst s) of (r, db) \<Rightarrow> (r, (db, snd s)))"

definition on_hooks :: "(webhook_state \<Rightarrow> ('a, webhook_state) outcome) \<Rightarrow> sys \<Rightarrow> ('a, sys) outcome" where
  "on_hooks f s = (case f (snd s) of (r, w) \<Rightarrow> (r, (fst s, w)))"

section \<open>Simple handlers\<close>

definition get_outage_endpoint :: "str \<Rightarrow> database \<Rightarrow> exn + outage" where
  "get_outage_endpoint k db = (case get_outage k db of None \<Rightarrow> Inl (HTTPError 404) | Some r \<Rightarrow> Inr r)"

definition create_outage :: "env \<Rightarrow> outage_create \<Rightarrow> database \<Rightarrow> (outage, database) outcome" where
  "create_outage env c db =
     bind_outcome (value_error_to 400 (create_outage_row (process_start env) c db)) (\<lambda>outage db1.
     bind_outcome (record_event env (ou_id outage) ''created'' [(''site_name'', JStr (ou_site_name outage))]
                     (audit_log_event env ''outage_created'' [(''id'', JStr (ou_id outage))] db1)) (\<lambda>_ db2.
     (Inr outage, db2)))"

fun bulk_create_loop ::
  "time \<Rightarrow> outage_create list \<Rightarrow> database \<Rightarrow> (outage list \<times> nat, database) outcome" where
  "bulk_create_loop t [] db = (Inr ([], 0), db)"
| "bulk_create_loop t (c # cs) db =
     bind_outcome (create_or_get_existing t c db) (\<lambda>(created, persisted) db1.
     bind_outcome (bulk_create_loop t cs db1) (\<lambda>(items, n) db2.
     (Inr (created # items, (if persisted then 1 else 0) + n), db2)))"

definition bulk_create_outages :: "env \<Rightarrow> outage_create list \<Rightarrow> database \<Rightarrow> (outage list \<times> nat, database) outcome" where
  "bulk_create_outages env cs db = value_error_to 400 (bulk_create_loop (process_start env) cs db)"

text \<open>\<open>payload.model_dump(exclude_unset=True, exclude_none=True)\<close>: the names of the fields that were sent with a value.\<close>

definition update_detail :: "outage_update \<Rightarrow> (str \<times> json) list" where
  "update_detail u =
     (let field = (\<lambda>name v. case v of Some (Some _) \<Rightarrow> [(name, JStr [])] | _ \<Rightarrow> []) in
      field ''site_name'' (up_site_name u) @ field ''severity'' (map_option (map_option severity_value) (up_severity u)) @
      field ''status'' (map_option (map_option outage_status_value) (up_status u)) @
      (case up_resolved_at u of Some (Some _) \<Rightarrow> [(''resolved_at'', JStr [])] | _ \<Rightarrow> []) @
      field ''description'' (up_description u) @
      (case up_affected_services u of Some (Some _) \<Rightarrow> [(''affected_services'', JStr [])] | _ \<Rightarrow> []) @
      (case up_affected_subscribers u of Some (Some _) \<Rightarrow> [(''affected_subscribers'', JStr [])] | _ \<Rightarrow> []) @
      field ''assigned_to'' (up_assigned_to u) @ field ''created_by'' (up_created_by u) @
      (case up_location u of Some (Some _) \<Rightarrow> [(''location'', JStr [])] | _ \<Rightarrow> []))"

text \<open>\<open>update_outage\<close> (event \<open>updated\<close>) and \<open>patch_outage\<close> (event \<open>patched\<close>).\<close>

definition change_outage :: "str \<Rightarrow> env \<Rightarrow> str \<Rightarrow> outage_update \<Rightarrow> database \<Rightarrow> (outage option, database) outcome" where
  "change_outage event_type env k u db =
     (case get_outage k db of
        None \<Rightarrow> (Inl (HTTPError 404), db)
      | Some _ \<Rightarrow>
          bind_outcome (value_error_to 400 (update_outage_row (now env) k u db)) (\<lambda>updated db1.
          bind_outcome (record_event env k event_type (update_detail u) db1) (\<lambda>_ db2. (Inr updated, db2))))"

definition update_outage :: "env \<Rightarrow> str \<Rightarrow> outage_update \<Rightarrow> database \<Rightarrow> (outage option, database) outcome" where
  "update_outage env k u db = change_outage ''updated'' env k u db"

definition patch_outage :: "env \<Rightarrow> str \<Rightarrow> outage_update \<Rightarrow> database \<Rightarrow> (outage option, database) outcome" where
  "patch_outage env k u db = change_outage ''patched'' env k u db"

definition delete_outage :: "str \<Rightarrow> database \<Rightarrow> (unit, database) outcome" where
  "delete_outage k db =
     (case get_outage k db of
        None \<Rightarrow> (Inl (HTTPError 404), db)
      | Some _ \<Rightarrow> value_error_to 409 (delete_outage_row k db))"

definition get_outage_timeline ::
  "str \<Rightarrow> str option \<Rightarrow> time option \<Rightarrow> time option \<Rightarrow> nat \<Rightarrow> nat \<Rightarrow> database \<Rightarrow> exn + (event_row list \<times> nat)" where
  "get_outage_timeline k event_type start_date end_date page page_size db =
     (case get_outage k db of
        None \<Rightarrow> Inl (HTTPError 404)
      | Some _ \<Rightarrow> Inr (list_for_outage k event_type start_date end_date page page_size db))"

section \<open>Imports\<close>

text \<open>A row of the file: its raw id and what the request model makes of it (an error or a payload).\<close>

type_synonym import_row = "str option \<times> (exn + outage_create)"

datatype import_consistency = Atomic | Partial

record row_result =
  rr_row :: nat
  rr_id :: "str option"
  rr_ok :: bool
  rr_outage_id :: "str option"
  rr_persisted :: "bool option"
  rr_duplicate :: "bool option"
  rr_existing_id :: "str option"

definition row_result_ok :: "nat \<Rightarrow> str option \<Rightarrow> row_result" where
  "row_result_ok i k = \<lparr>rr_row = i, rr_id = k, rr_ok = True, rr_outage_id = None, rr_persisted = None,
                        rr_duplicate = None, rr_existing_id = None\<rparr>"

definition row_error :: "nat \<Rightarrow> str option \<Rightarrow> row_result" where
  "row_error i k = (row_result_ok i k)\<lparr>rr_ok := False\<rparr>"

record import_response =
  ir_dry_run :: bool
  ir_consistency :: import_consistency
  ir_total_rows :: nat
  ir_persisted :: nat
  ir_validated :: nat
  ir_error_count :: nat
  ir_errors :: "row_result list"
  ir_rows :: "row_result list"

definition import_result :: "bool \<Rightarrow> import_consistency \<Rightarrow> nat \<Rightarrow> nat \<Rightarrow> row_result list \<Rightarrow> import_response" where
  "import_result dry consistency total_rows persisted outcomes =
     \<lparr>ir_dry_run = dry, ir_consistency = consistency, ir_total_rows = total_rows, ir_persisted = persisted,
      ir_validated = length (filter rr_ok outcomes), ir_error_count = length (filter (\<lambda>r. \<not> rr_ok r) outcomes),
      ir_errors = filter (\<lambda>r. \<not> rr_ok r) outcomes, ir_rows = outcomes\<rparr>"

fun dry_run_rows :: "nat \<Rightarrow> import_row list \<Rightarrow> database \<Rightarrow> row_result list" where
  "dry_run_rows i [] db = []"
| "dry_run_rows i ((raw, p) # rs) db =
     (case p of
        Inl _ \<Rightarrow> row_error i raw
      | Inr c \<Rightarrow>
          (case check_duplicate c db of
             Inl _ \<Rightarrow> row_error i raw
           | Inr (Some d) \<Rightarrow> (row_result_ok i (Some (oc_id c)))\<lparr>rr_duplicate := Some True, rr_existing_id := Some (ou_id d)\<rparr>
           | Inr None \<Rightarrow> (row_result_ok i (Some (oc_id c)))\<lparr>rr_duplicate := Some False\<rparr>)) # dry_run_rows (Suc i) rs db"

text \<open>\<open>row_outcomes\<close> of the validation pass of an atomic import.\<close>

fun validate_rows :: "nat \<Rightarrow> import_row list \<Rightarrow> row_result list" where
  "validate_rows i [] = []"
| "validate_rows i ((raw, p) # rs) =
     (case p of Inl _ \<Rightarrow> row_error i raw | Inr _ \<Rightarrow> row_result_ok i raw) # validate_rows (Suc i) rs"

text \<open>
  The persisting pass: outcomes, and the ids persisted so far; an exception of any row is returned with the
  ids to compensate.
\<close>

fun persist_rows ::
  "time \<Rightarrow> (row_result \<times> outage_create) list \<Rightarrow> str list \<Rightarrow> database \<Rightarrow> (exn + row_result list) \<times> str list \<times> database" where
  "persist_rows t [] done_ids db = (Inr [], done_ids, db)"
| "persist_rows t ((r, c) # rs) done_ids db =
     (case create_or_get_existing t c db of
        (Inl e, db1) \<Rightarrow> (Inl e, done_ids, db1)
      | (Inr (created, persisted), db1) \<Rightarrow>
          (let r' = r\<lparr>rr_outage_id := Some (ou_id created), rr_persisted := Some persisted\<rparr>;
               r'' = (if persisted then r' else r'\<lparr>rr_duplicate := Some True, rr_existing_id := Some (ou_id created)\<rparr>);
               done' = (if persisted then done_ids @ [ou_id created] else done_ids) in
           case persist_rows t rs done' db1 of
             (Inl e, ids, db2) \<Rightarrow> (Inl e, ids, db2)
           | (Inr outs, ids, db2) \<Rightarrow> (Inr (r'' # outs), ids, db2)))"

fun delete_all :: "str list \<Rightarrow> database \<Rightarrow> (unit, database) outcome" where
  "delete_all [] db = (Inr (), db)"
| "delete_all (k # ks) db = bind_outcome (delete_outage_row k db) (\<lambda>_ db1. delete_all ks db1)"

definition import_atomic :: "env \<Rightarrow> import_row list \<Rightarrow> database \<Rightarrow> (import_response, database) outcome" where
  "import_atomic env rs db =
     (let outcomes = validate_rows 0 rs in
      if list_ex (\<lambda>r. \<not> rr_ok r) outcomes then (Inr (import_result False Atomic (length rs) 0 outcomes), db)
      else
        (let parsed = map (\<lambda>(raw, p). case p of Inr c \<Rightarrow> c) rs in
         case persist_rows (process_start env) (zip outcomes parsed) [] db of
           (Inr outs, ids, db1) \<Rightarrow> (Inr (import_result False Atomic (length rs) (length ids) outs), db1)
         | (Inl e, ids, db1) \<Rightarrow> bind_outcome (delete_all ids db1) (\<lambda>_ db2. (Inl (HTTPError 500), db2))))"

fun import_partial_rows ::
  "time \<Rightarrow> nat \<Rightarrow> import_row list \<Rightarrow> database \<Rightarrow> (row_result list \<times> nat, database) outcome" where
  "import_partial_rows t i [] db = (Inr ([], 0), db)"
| "import_partial_rows t i ((raw, p) # rs) db =
     (case (case p of Inl e \<Rightarrow> (Inl e, db) | Inr c \<Rightarrow> create_or_get_existing t c db) of
        (Inl e, db1) \<Rightarrow>
          if e \<in> {ValueError, KeyError}
          then bind_outcome (import_partial_rows t (Suc i) rs db1) (\<lambda>(outs, n) db2. (Inr (row_error i raw # outs, n), db2))
          else (Inl e, db1)
      | (Inr (created, persisted), db1) \<Rightarrow>
          bind_outcome (import_partial_rows t (Suc i) rs db1) (\<lambda>(outs, n) db2.
            (Inr ((row_result_ok i (case p of Inr c \<Rightarrow> Some (oc_id c) | Inl _ \<Rightarrow> raw))\<lparr>rr_outage_id := Some (ou_id created),
                     rr_persisted := Some persisted, rr_duplicate := Some (\<not> persisted),
                     rr_existing_id := (if persisted then None else Some (ou_id created))\<rparr> # outs,
                  (if persisted then 1 else 0) + n), db2)))"

definition import_outages ::
  "nat \<Rightarrow> env \<Rightarrow> bool \<Rightarrow> import_consistency \<Rightarrow> import_row list \<Rightarrow> database \<Rightarrow> (import_response, database) outcome" where
  "import_outages max_rows env dry_run consistency rs db =
     (if length rs > max_rows then (Inl (HTTPError 400), db)
      else if dry_run then (Inr (import_result True consistency (length rs) 0 (dry_run_rows 0 rs db)), db)
      else (case consistency of
              Atomic \<Rightarrow> import_atomic env rs db
            | Partial \<Rightarrow> bind_outcome (import_partial_rows (process_start env) 0 rs db) (\<lambda>(outs, n) db1.
                           (Inr (import_result False Partial (length rs) n outs), db1))))"

section \<open>Resolution and recomputation\<close>

record settle_env =
  se_env :: env
  se_policy :: policy_cache
  se_trigger :: trigger_env
  se_str_datetime :: "time \<Rightarrow> str"
  se_lock_acquired :: bool

definition sla_json :: "sla_result \<Rightarrow> json" where
  "sla_json x = JObj [(''id'', (case r_id x of None \<Rightarrow> JNull | Some i \<Rightarrow> JInt i)), (''outage_id'', JStr (r_outage_id x)),
     (''status'', JStr (sla_status_value (r_status x))), (''mttr_minutes'', JInt (r_mttr_minutes x)),
     (''threshold_minutes'', JInt (r_threshold_minutes x)), (''amount'', JInt (r_amount x)),
     (''payment_type'', JStr (payment_type_value (r_payment_type x))), (''rating'', JStr (rating_name (r_rating x))),
     (''policy_version'', JStr (r_policy_version x)), (''threshold_source'', JStr (r_threshold_source x)),
     (''reason_code'', json_opt (r_reason_code x)), (''decision_trace'', json_opt (r_decision_trace x)),
     (''compute_hash'', json_opt (r_compute_hash x))]"

definition payment_json :: "(time \<Rightarrow> str) \<Rightarrow> payment_row \<Rightarrow> json" where
  "payment_json dt p = JObj [(''id'', JStr (p_id p)), (''transaction_hash'', JStr (p_transaction_hash p)), (''type'', JStr (p_type p)),
     (''amount'', JInt (p_amount p)), (''asset_code'', JStr (p_asset_code p)), (''from_address'', JStr (p_from_address p)),
     (''to_address'', JStr (p_to_address p)), (''status'', JStr (p_status p)), (''outage_id'', json_opt (p_outage_id p)),
     (''sla_result_id'', (case p_sla_result_id p of None \<Rightarrow> JNull | Some i \<Rightarrow> JInt i)),
     (''created_at'', JStr (dt (p_created_at p))), (''confirmed_at'', json_opt (map_option dt (p_confirmed_at p))),
     (''retry_count'', JInt (p_retry_count p)), (''last_retried_at'', json_opt (map_option dt (p_last_retried_at p)))]"

text \<open>The adapter call and the translation, with the hash inputs of the outage.\<close>

definition compute_sla :: "settle_env \<Rightarrow> str \<Rightarrow> severity \<Rightarrow> int \<Rightarrow> time \<Rightarrow> time option \<Rightarrow> exn + sla_result" where
  "compute_sla se k sev mttr detected_at resolved_at =
     (let iso_fmt = isoformat (auditing (se_env se)) in
      case calculate_sla (sha256 (auditing (se_env se))) (contract_meta (se_env se)) (se_policy se) k (severity_value sev) mttr
             ''1.0'' ''config'' (iso_fmt detected_at) (case resolved_at of None \<Rightarrow> [] | Some r \<Rightarrow> iso_fmt r) of
        Inl e \<Rightarrow> Inl e
      | Inr raw \<Rightarrow> translate_contract_result raw)"

definition set_sla_status :: "str \<Rightarrow> sla_result \<Rightarrow> database \<Rightarrow> database" where
  "set_sla_status k x db =
     db\<lparr>outages := update_first (\<lambda>r. o_id r = k)
       (\<lambda>r. r\<lparr>o_sla_status := Some \<lparr>ss_status = r_status x, ss_mttr_minutes = Some (r_mttr_minutes x),
                                  ss_threshold_minutes = r_threshold_minutes x, ss_time_remaining_minutes = None\<rparr>\<rparr>) (outages db)\<rparr>"

definition notify_violation :: "settle_env \<Rightarrow> str \<Rightarrow> sla_result \<Rightarrow> payment_row \<Rightarrow> sys \<Rightarrow> (unit, sys) outcome" where
  "notify_violation se k x p s =
     (if r_status x = Violated then
        bind_outcome (on_hooks (trigger_sla_violation_webhooks (se_trigger se)
            (JObj [(''outage_id'', JStr k), (''sla'', sla_json x), (''payment'', payment_json (se_str_datetime se) p)]) SLA_VIOLATION) s)
          (\<lambda>_ s1. (Inr (), s1))
      else (Inr (), s))"

text \<open>
  The part of \<open>resolve_outage\<close> that runs under the lock.  The replay check reads \<open>existing.mttr_minutes\<close>, an
  attribute the \<open>Outage\<close> model does not have, so it raises whenever the outage exists and is resolved; when it does not
  raise it is false, and the branch that answers a replay is never taken.
\<close>

definition resolve_locked ::
  "settle_env \<Rightarrow> str \<Rightarrow> int \<Rightarrow> sys \<Rightarrow> (outage \<times> sla_result \<times> payment_row, sys) outcome" where
  "resolve_locked se k mttr s =
     (let env = se_env se in
      if (case get_outage k (fst s) of Some existing \<Rightarrow> ou_status existing = Resolved | None \<Rightarrow> False)
      then (Inl AttributeError, s)
      else
        bind_outcome (on_db (\<lambda>db. value_error_to 400 (resolve_outage_row (now env) k mttr db)) s) (\<lambda>resolved s1.
        case resolved of
          None \<Rightarrow> (Inl (HTTPError 404), s1)
        | Some outage \<Rightarrow>
            bind_outcome (on_db (\<lambda>db. record_event env k ''resolved'' [(''mttr_minutes'', JInt mttr)]
                (audit_log_event env ''outage_resolved'' [(''id'', JStr (ou_id outage)), (''mttr'', JInt mttr)] db)) s1) (\<lambda>_ s2.
            case compute_sla se (ou_id outage) (ou_severity outage) mttr (ou_detected_at outage) (ou_resolved_at outage) of
              Inl e \<Rightarrow> (Inl e, s2)
            | Inr sla \<Rightarrow>
                bind_outcome (on_db (create_if_changed env sla) s2) (\<lambda>stored s3.
                bind_outcome (on_db (record_event env k ''sla_computed'' [(''status'', JStr (sla_status_value (r_status stored)))]) s3) (\<lambda>_ s4.
                bind_outcome (on_db (\<lambda>db. (Inr (), set_sla_status k stored db)) s4) (\<lambda>_ s5.
                case get_outage k (fst s5) of
                  None \<Rightarrow> (Inl AttributeError, s5)
                | Some outage' \<Rightarrow>
                    bind_outcome (on_db (create_for_sla_result env (ou_id outage') stored) s5) (\<lambda>payment s6.
                    bind_outcome (notify_violation se (ou_id outage') stored payment s6) (\<lambda>_ s7.
                    (Inr (outage', stored, payment), s7)))))))))"

definition resolve_outage ::
  "settle_env \<Rightarrow> str \<Rightarrow> int \<Rightarrow> sys \<Rightarrow> (outage \<times> sla_result \<times> payment_row, sys) outcome" where
  "resolve_outage se k mttr s =
     (case advisory_lock_nowait (se_lock_acquired se) (resolve_locked se k mttr) s of
        (Inl ConcurrencyError, s') \<Rightarrow> (Inl (HTTPError 409), s')
      | r \<Rightarrow> r)"

definition recompute_locked :: "settle_env \<Rightarrow> str \<Rightarrow> outage \<Rightarrow> sys \<Rightarrow> (sla_result \<times> payment_row, sys) outcome" where
  "recompute_locked se k outage s =
     (let env = se_env se in
      case get_orm k (fst s) of
        None \<Rightarrow> (Inl AttributeError, s)
      | Some orm \<Rightarrow>
          (case o_mttr_minutes orm of
             None \<Rightarrow> (Inl ValueError, s)
           | Some mttr \<Rightarrow>
               (case compute_sla se (ou_id outage) (ou_severity outage) mttr (o_detected_at orm) (o_resolved_at orm) of
                  Inl e \<Rightarrow> (Inl e, s)
                | Inr sla \<Rightarrow>
                    bind_outcome (on_db (create_if_changed env sla) s) (\<lambda>stored s1.
                    bind_outcome (on_db (\<lambda>db. (Inr (), set_sla_status k stored db)) s1) (\<lambda>_ s2.
                    bind_outcome (on_db (create_for_sla_result env (ou_id outage) stored) s2) (\<lambda>payment s3.
                    bind_outcome (notify_violation se (ou_id outage) stored payment s3) (\<lambda>_ s4.
                    bind_outcome (on_db (\<lambda>db. record_event env k ''sla_recomputed'' [(''status'', JStr (sla_status_value (r_status stored)))]
                        (audit_log_event env ''sla_recomputed'' [(''id'', JStr (ou_id outage))] db)) s4) (\<lambda>_ s5.
                    (Inr (stored, payment), s5)))))))))"

definition recompute_sla :: "settle_env \<Rightarrow> str \<Rightarrow> sys \<Rightarrow> (sla_result \<times> payment_row, sys) outcome" where
  "recompute_sla se k s =
     (case get_outage k (fst s) of
        None \<Rightarrow> (Inl (HTTPError 404), s)
      | Some outage \<Rightarrow>
          if ou_status outage \<noteq> Resolved then (Inl (HTTPError 400), s)
          else (case advisory_lock_nowait (se_lock_acquired se) (recompute_locked se k outage) s of
                  (Inl ConcurrencyError, s') \<Rightarrow> (Inl (HTTPError 409), s')
                | r \<Rightarrow> r))"

section \<open>Lemmas on the workflow\<close>

lemma on_db_simps [simp, handler_simps]:
  "f db = (r, db') \<Longrightarrow> on_db f (db, w) = (r, (db', w))"
  by (simp add: on_db_def)

lemma record_event_Inr:
  assumes "validate_event_detail ty d = Inr d'"
  obtains ev where "record_event env k ty d db
    = (Inr ev, db\<lparr>outage_events := outage_events db @ [ev], uuid_count := uuid_count db + 1\<rparr>)"
  using assms by (simp add: record_event_def Let_def)

lemma schema_ok_frame [simp]:
  "schema_ok (db\<lparr>outage_events := es\<rparr>) = schema_ok db"
  "schema_ok (db\<lparr>uuid_count := n\<rparr>) = schema_ok db"
  by (simp_all add: schema_ok_def)

lemma compute_sla_total:
  assumes "cache_ok (se_policy se)" "SLA_CONFIG (se_policy se) (py_lower (severity_value sev)) = Some c"
  obtains x where "compute_sla se k sev mttr dt rt = Inr x" "r_id x = None" "r_outage_id x = k" "r_mttr_minutes x = mttr"
    "r_threshold_minutes x = threshold_minutes c"
    "r_amount x = sla_amount c mttr" "r_status x = (if mttr > threshold_minutes c then Violated else Met)"
    "r_compute_hash x = (let st = isoformat (auditing (se_env se)) dt;
        rs = (case rt of None \<Rightarrow> [] | Some r \<Rightarrow> isoformat (auditing (se_env se)) r) in
      if st \<noteq> [] \<and> rs \<noteq> [] then Some (compute_hash (sha256 (auditing (se_env se))) k st rs ''1.0'') else None)"
proof -
  let ?calc = "calculate (sha256 (auditing (se_env se))) (se_policy se) k (severity_value sev) mttr ''1.0'' ''config''
    (isoformat (auditing (se_env se)) dt) (case rt of None \<Rightarrow> [] | Some r \<Rightarrow> isoformat (auditing (se_env se)) r)"
  from calculate_total [OF assms] obtain r where r: "?calc = Inr r" by blast
  note res = calculate_result [OF assms r]
  have "compute_sla se k sev mttr dt rt = Inr (r\<lparr>r_reason_code := None, r_decision_trace := None\<rparr>)"
    using res(1)
    by (cases r; cases "r_status r"; cases "r_payment_type r") (simp_all add: compute_sla_def Let_def r calculate_sla_def translate_contract_result_def)
  from that [OF this] res show ?thesis by (simp add: Let_def)
qed

lemma resolve_row_open:
  assumes "get_orm k db = Some r" "o_status r = Open"
  shows "resolve_outage_row t k mttr db =
    (let r' = r\<lparr>o_status := Resolved, o_mttr_minutes := Some mttr, o_resolved_at := Some t, o_updated_at := t\<rparr> in
     (Inr (Some (outage_of_row r')), db\<lparr>outages := update_first (\<lambda>x. o_id x = k) (\<lambda>_. r') (outages db)\<rparr>))"
  using assms by (simp add: resolve_outage_row_def validate_status_transition_def Let_def)

lemma schema_ok_put_outage:
  "get_orm k db = Some r \<Longrightarrow> o_id r' = k \<Longrightarrow> schema_ok db \<Longrightarrow>
   schema_ok (db\<lparr>outages := update_first (\<lambda>x. o_id x = k) (\<lambda>_. r') (outages db)\<rparr>)"
proof -
  have "map o_id (update_first (\<lambda>x. o_id x = k) (\<lambda>_. r') rs) = map o_id rs" if "o_id r' = k" for rs
    using that by (induction rs) auto
  then show "get_orm k db = Some r \<Longrightarrow> o_id r' = k \<Longrightarrow> schema_ok db \<Longrightarrow>
   schema_ok (db\<lparr>outages := update_first (\<lambda>x. o_id x = k) (\<lambda>_. r') (outages db)\<rparr>)"
    by (simp add: schema_ok_def)
qed

lemma set_sla_status_frame [simp]:
  "sla_results (set_sla_status k x db) = sla_results db" "payments (set_sla_status k x db) = payments db"
  "audit (set_sla_status k x db) = audit db" "next_sla_id (set_sla_status k x db) = next_sla_id db"
  "uuid_count (set_sla_status k x db) = uuid_count db" "outage_events (set_sla_status k x db) = outage_events db"
  by (simp_all add: set_sla_status_def)

definition status_doc :: "sla_result \<Rightarrow> sla_status_doc" where
  "status_doc x = \<lparr>ss_status = r_status x, ss_mttr_minutes = Some (r_mttr_minutes x),
     ss_threshold_minutes = r_threshold_minutes x, ss_time_remaining_minutes = None\<rparr>"

lemma get_orm_set_sla_status:
  "get_orm k (set_sla_status k x db) = map_option (\<lambda>r. r\<lparr>o_sla_status := Some (status_doc x)\<rparr>) (get_orm k db)"
  by (simp add: get_orm_def set_sla_status_def find_update_first status_doc_def)

lemma schema_ok_set_sla_status [simp]: "schema_ok (set_sla_status k x db) = schema_ok db"
  by (simp add: schema_ok_def set_sla_status_def map_update_first_key)

lemma get_by_outage_frame: "sla_results db' = sla_results db \<Longrightarrow> get_by_outage k db' = get_by_outage k db"
  by (simp add: get_by_outage_def get_row_by_outage_def cong: option.case_cong)

lemma get_orm_frame: "outages db' = outages db \<Longrightarrow> get_orm k db' = get_orm k db"
  by (simp add: get_orm_def)

text \<open>The keys the next payment would get clash with no stored payment.\<close>

definition fresh_keys :: "env \<Rightarrow> nat \<Rightarrow> int \<Rightarrow> payment_row list \<Rightarrow> bool" where
  "fresh_keys env n i ps \<longleftrightarrow> (\<forall>p \<in> set ps. p_id p \<noteq> ''pay_'' @ take 12 (uuid4_hex env n) \<and>
     p_transaction_hash p \<noteq> ''simulated-'' @ uuid4_hex env (n + 1) \<and> p_sla_result_id p \<noteq> Some i)"

lemma create_for_sla_result_fresh:
  assumes "r_id x = Some i" "fresh_keys env (uuid_count db) i (payments db)"
  shows "create_for_sla_result env oid x db =
    (Inr (new_payment env (uuid_count db) oid i x),
     db\<lparr>uuid_count := uuid_count db + 2, payments := payments db @ [new_payment env (uuid_count db) oid i x]\<rparr>)"
proof -
  let ?p = "new_payment env (uuid_count db) oid i x"
  have p: "?p\<lparr>p_retry_count := 0, p_last_retried_at := None\<rparr> = ?p" by (simp add: new_payment_def)
  have keys: "p_id ?p = ''pay_'' @ take 12 (uuid4_hex env (uuid_count db))"
    "p_transaction_hash ?p = ''simulated-'' @ uuid4_hex env (uuid_count db + 1)" "p_sla_result_id ?p = Some i"
    by (simp_all only: new_payment_def payment_row.simps)
  have frame: "payments (db\<lparr>uuid_count := uuid_count db + 2\<rparr>) = payments db" by simp
  have none: "get_by_sla_result i db = None"
    using assms(2) by (auto simp: get_by_sla_result_def fresh_keys_def find_None_iff)
  have "\<not> list_ex (\<lambda>q. p_id q = p_id ?p \<or> p_transaction_hash q = p_transaction_hash ?p \<or>
                     p_sla_result_id ?p \<noteq> None \<and> p_sla_result_id q = p_sla_result_id ?p) (payments db)"
    using assms(2) unfolding keys fresh_keys_def list_ex_iff by blast
  with none assms(1) show ?thesis
    by (simp only: create_for_sla_result_def option.case create_payment_def Let_def p frame if_False)
qed

lemma schema_ok_add_payment:
  assumes "schema_ok db" "fresh_keys env n i (payments db)"
  shows "schema_ok (db\<lparr>uuid_count := m, payments := payments db @ [new_payment env n oid i x]\<rparr>)"
proof -
  let ?p = "new_payment env n oid i x"
  have keys: "p_id ?p = ''pay_'' @ take 12 (uuid4_hex env n)"
    "p_transaction_hash ?p = ''simulated-'' @ uuid4_hex env (n + 1)" "p_sla_result_id ?p = Some i"
    by (simp_all only: new_payment_def payment_row.simps)
  have "p_id ?p \<notin> p_id ` set (payments db)" "p_transaction_hash ?p \<notin> p_transaction_hash ` set (payments db)"
    "\<forall>q \<in> set (payments db). p_sla_result_id q \<noteq> p_sla_result_id ?p"
    using assms(2) unfolding keys fresh_keys_def by (auto simp: image_iff)
  with assms(1) show ?thesis by (simp add: schema_ok_def unique_key_snoc)
qed

lemma fan_out_celery: "\<exists>ids s'. fan_out cfg uuid t True atts ev pl v decs s = (Inr ids, s')"
proof (induction decs arbitrary: s)
  case (Cons dec decs)
  show ?case
  proof (cases "sd_allowed dec")
    case True
    obtain d s1 where "create_delivery uuid t (sd_webhook dec) ev pl v s = (d, s1)" by fastforce
    with True Cons [of "s1\<lparr>celery_queue := celery_queue s1 @ [wd_id d]\<rparr>"] show ?thesis by auto
  qed (use Cons in simp)
qed simp

lemma notify_violation_frame: "fst (snd (notify_violation se k x p s)) = fst s"
  by (auto simp: notify_violation_def on_hooks_def bind_outcome_def split: sum.splits prod.splits)

lemma notify_violation_ok:
  assumes "r_status x = Met \<or> te_celery_available (se_trigger se)"
  shows "\<exists>w'. notify_violation se k x p (db, w) = (Inr (), (db, w'))"
proof (cases "r_status x = Violated")
  case True
  obtain decs hits where plan: "dispatch_plan (te_fanout (se_trigger se)) (subscribers_for_event SLA_VIOLATION w) (event_hits w) = (decs, hits)"
    by fastforce
  from True assms have celery: "te_celery_available (se_trigger se) = True" by simp
  let ?body = "JObj [(''outage_id'', JStr k), (''sla'', sla_json x), (''payment'', payment_json (se_str_datetime se) p)]"
  have "\<exists>ids w'. trigger_sla_violation_webhooks (se_trigger se) ?body SLA_VIOLATION w = (Inr ids, w')"
    unfolding trigger_sla_violation_webhooks_def plan Let_def prod.case celery by (rule fan_out_celery)
  then obtain ids w' where "trigger_sla_violation_webhooks (se_trigger se) ?body SLA_VIOLATION w = (Inr ids, w')" by blast
  then show ?thesis by (simp only: notify_violation_def True on_hooks_def fst_conv snd_conv prod.case bind_outcome_simps) simp
next
  case False
  then show ?thesis by (simp add: notify_violation_def)
qed

text \<open>What a settled outage looks like in the tables.\<close>

definition settled :: "str \<Rightarrow> severity_config \<Rightarrow> int \<Rightarrow> sla_result \<Rightarrow> payment_row \<Rightarrow> database \<Rightarrow> bool" where
  "settled k c mttr x p db \<longleftrightarrow>
     get_by_outage k db = Some x \<and> r_mttr_minutes x = mttr \<and> r_amount x = sla_amount c mttr \<and>
     (\<exists>i. r_id x = Some i \<and> get_by_sla_result i db = Some p) \<and>
     p_amount p = \<bar>sla_amount c mttr\<bar> \<and> p_status p = ''pending'' \<and> p_outage_id p = Some k \<and>
     (\<exists>r. get_orm k db = Some r \<and> o_status r = Resolved \<and> o_mttr_minutes r = Some mttr \<and> o_sla_status r = Some (status_doc x))"

lemma settle_tail:
  assumes x: "r_id x = None" "r_outage_id x = k" "r_mttr_minutes x = mttr" "r_amount x = sla_amount c mttr"
    and first: "\<forall>r \<in> set (sla_results db). s_outage_id r \<noteq> k"
    and ok: "schema_ok db" and row: "get_orm k db = Some r" "o_status r = Resolved" "o_mttr_minutes r = Some mttr"
    and fresh: "fresh_keys env (uuid_count db + 1) (next_sla_id db) (payments db)"
    and ev: "validate_event_detail ty d = Inr d'"
  defines "y \<equiv> x\<lparr>r_id := Some (next_sla_id db)\<rparr>"
  defines "q \<equiv> new_payment env (uuid_count db + 1) k (next_sla_id db) y"
  obtains db1 db2 e db4 where "create_if_changed env x db = (Inr y, db1)" "record_event env k ty d db1 = (Inr e, db2)"
    "create_for_sla_result env k y (set_sla_status k y db2) = (Inr q, db4)"
    "get_outage k (set_sla_status k y db2) = Some (outage_of_row (r\<lparr>o_sla_status := Some (status_doc y)\<rparr>))"
    "schema_ok db4" "settled k c mttr y q db4" "audit db4 = audit db"
proof -
  obtain db1 where db1: "db1 = snd (create_if_changed env x db)" by simp
  note new = create_sla_fresh [of x db env] 
  have nohash: "find_by_compute_hash (r_outage_id x) h db = None" for h
    using first x(2) by (auto simp: find_by_compute_hash_def find_None_set)
  have is_create: "create_if_changed env x db = create_sla env x db" by (rule create_if_changed_is_create [OF x(1)])
  have created: "create_if_changed env x db = (Inr y, db1)"
    using new(1) [OF nohash] by (simp add: db1 y_def is_create prod_eq_iff)
  have frame: "outages db1 = outages db" "payments db1 = payments db" "audit db1 = audit db"
    unfolding db1 by (simp_all add: is_create)
  have uuid: "uuid_count db1 = uuid_count db"
    unfolding db1 is_create create_sla_alt by (simp split: option.splits)
  have ok1: "schema_ok db1" unfolding db1 by (rule changed.write_schema [OF ok])
  have latest: "get_by_outage k db1 = Some y"
    using new(2) [OF nohash] by (simp add: db1 y_def is_create x(2))
  obtain e where rec: "record_event env k ty d db1
      = (Inr e, db1\<lparr>outage_events := outage_events db1 @ [e], uuid_count := uuid_count db1 + 1\<rparr>)"
    by (rule record_event_Inr [OF ev])
  let ?db2 = "db1\<lparr>outage_events := outage_events db1 @ [e], uuid_count := uuid_count db1 + 1\<rparr>"
  let ?db3 = "set_sla_status k y ?db2"
  have fresh3: "fresh_keys env (uuid_count ?db3) (next_sla_id db) (payments ?db3)"
    using fresh by (simp add: frame uuid)
  have rid: "r_id y = Some (next_sla_id db)" by (simp add: y_def)
  have u3: "uuid_count ?db3 = uuid_count db + 1" by (simp add: uuid)
  let ?db4 = "?db3\<lparr>uuid_count := uuid_count ?db3 + 2, payments := payments ?db3 @ [q]\<rparr>"
  have pay: "create_for_sla_result env k y ?db3 = (Inr q, ?db4)"
    using create_for_sla_result_fresh [OF rid fresh3, of k] unfolding q_def u3 by simp
  have ok4: "schema_ok ?db4"
    using schema_ok_add_payment [OF _ fresh3, where m = "uuid_count ?db3 + 2" and oid = k and x = y] ok1 unfolding q_def u3 by simp
  have orm: "get_orm k ?db3 = Some (r\<lparr>o_sla_status := Some (status_doc y)\<rparr>)"
    using row(1) frame(1) get_orm_frame [of ?db2 db k] by (simp add: get_orm_set_sla_status)
  have qf: "p_amount q = \<bar>sla_amount c mttr\<bar>" "p_status q = ''pending''" "p_outage_id q = Some k"
      "p_sla_result_id q = Some (next_sla_id db)"
    using x(4) by (simp_all add: q_def new_payment_def y_def)
  have "find (\<lambda>p. p_sla_result_id p = Some (next_sla_id db)) (payments ?db3) = None"
    using fresh3 by (auto simp: fresh_keys_def find_None_iff)
  then have "get_by_sla_result (next_sla_id db) ?db4 = Some q"
    using qf(4) by (simp add: get_by_sla_result_def find_append)
  moreover have "get_by_outage k ?db4 = Some y" using latest get_by_outage_frame [of ?db4 db1] by simp
  moreover have "get_orm k ?db4 = Some (r\<lparr>o_sla_status := Some (status_doc y)\<rparr>)" using orm get_orm_frame [of ?db4 ?db3] by simp
  moreover have "r_mttr_minutes y = mttr" "r_amount y = sla_amount c mttr" using x by (simp_all add: y_def)
  ultimately have "settled k c mttr y q ?db4" using qf row rid by (simp add: settled_def)
  with that [OF created rec pay _ ok4] orm frame show ?thesis by (simp add: get_outage_def)
qed

lemma locked_result:
  "se_lock_acquired se \<Longrightarrow> resolve_locked se k mttr s = (Inr y, s') \<Longrightarrow> resolve_outage se k mttr s = (Inr y, s')"
  "se_lock_acquired se \<Longrightarrow> resolve_locked se k mttr s = (Inl e, s') \<Longrightarrow> e \<noteq> ConcurrencyError \<Longrightarrow>
     resolve_outage se k mttr s = (Inl ApexTransientError, s')"
  "snd (resolve_outage se k mttr s) = (if se_lock_acquired se then snd (resolve_locked se k mttr s) else s)"
  by (auto simp: resolve_outage_def advisory_lock_nowait_def split: exn.splits sum.splits prod.splits)

lemma outage_of_row_fields [simp]:
  "ou_id (outage_of_row z) = o_id z" "ou_status (outage_of_row z) = o_status z"
  "ou_severity (outage_of_row z) = o_severity z" "ou_detected_at (outage_of_row z) = o_detected_at z"
  "ou_resolved_at (outage_of_row z) = o_resolved_at z"
  by (simp_all add: outage_of_row_def)

lemma severity_value_lower [simp]: "py_lower (severity_value s) = severity_value s"
  by (cases s; hypsubst; code_simp)

lemma validate_event_detail_workflow:
  "validate_event_detail ''resolved'' [(''mttr_minutes'', JInt n)] = Inr [(''mttr_minutes'', JInt n)]"
  "validate_event_detail ''sla_computed'' [(''status'', JStr s)] = Inr [(''status'', JStr s)]"
  "validate_event_detail ''sla_recomputed'' [(''status'', JStr s)] = Inr [(''status'', JStr s)]"
  by (simp_all add: validate_event_detail_def)

definition resolved_row :: "time \<Rightarrow> int \<Rightarrow> outage_row \<Rightarrow> outage_row" where
  "resolved_row t mttr r = r\<lparr>o_status := Resolved, o_mttr_minutes := Some mttr, o_resolved_at := Some t, o_updated_at := t\<rparr>"

lemma resolved_row_fields [simp]:
  "o_id (resolved_row t m r) = o_id r" "o_status (resolved_row t m r) = Resolved" "o_mttr_minutes (resolved_row t m r) = Some m"
  "o_severity (resolved_row t m r) = o_severity r" "o_detected_at (resolved_row t m r) = o_detected_at r"
  "o_resolved_at (resolved_row t m r) = Some t"
  by (simp_all add: resolved_row_def)

text \<open>The first half of a resolution: the row, the audit entry and the event.\<close>

lemma resolve_first_half:
  fixes env :: env and mttr :: int
  assumes row: "get_orm k db = Some r" "o_status r = Open" and ok: "schema_ok db"
    and audited: "verified (verify_chain (auditing env) (audit db))"
  defines "r1 \<equiv> resolved_row (now env) mttr r"
  defines "db1 \<equiv> db\<lparr>outages := update_first (\<lambda>x. o_id x = k) (\<lambda>_. r1) (outages db)\<rparr>"
  obtains e db2 where "resolve_outage_row (now env) k mttr db = (Inr (Some (outage_of_row r1)), db1)"
    "record_event env k ''resolved'' [(''mttr_minutes'', JInt mttr)]
       (audit_log_event env ''outage_resolved'' [(''id'', JStr k), (''mttr'', JInt mttr)] db1) = (Inr e, db2)"
    "schema_ok db2" "get_orm k db2 = Some r1" "sla_results db2 = sla_results db" "payments db2 = payments db"
    "next_sla_id db2 = next_sla_id db" "uuid_count db2 = uuid_count db + 1"
    "verified (verify_chain (auditing env) (audit db2))"
proof -
  let ?log = "audit_log_event env ''outage_resolved'' [(''id'', JStr k), (''mttr'', JInt mttr)] db1"
  have id: "o_id r1 = k" using get_orm_Some_id [OF row(1)] by (simp add: r1_def)
  obtain e where e: "record_event env k ''resolved'' [(''mttr_minutes'', JInt mttr)] ?log
      = (Inr e, ?log\<lparr>outage_events := outage_events ?log @ [e], uuid_count := uuid_count ?log + 1\<rparr>)"
    by (rule record_event_Inr [OF validate_event_detail_workflow(1)])
  let ?db2 = "?log\<lparr>outage_events := outage_events ?log @ [e], uuid_count := uuid_count ?log + 1\<rparr>"
  have a: "resolve_outage_row (now env) k mttr db = (Inr (Some (outage_of_row r1)), db1)"
    using resolve_row_open [OF row] by (simp add: Let_def r1_def db1_def resolved_row_def)
  have b: "schema_ok ?db2"
    using schema_ok_put_outage [OF row(1) id ok] by (simp add: db1_def)
  have c: "get_orm k ?db2 = Some r1"
    using get_orm_update_first [OF id row(1), of k] by (simp add: get_orm_def db1_def)
  have "verified (verify_chain (auditing env) (audit ?db2))"
    using audit_log_event_verified [of env db1] audited by (simp add: db1_def)
  then show ?thesis by (intro that [OF a e b c]) (simp_all add: db1_def)
qed

lemma resolve_locked_open:
  assumes ok: "schema_ok db" and audited: "verified (verify_chain (auditing (se_env se)) (audit db))"
    and row: "get_orm k db = Some r" "o_status r = Open"
    and first: "\<forall>x \<in> set (sla_results db). s_outage_id x \<noteq> k"
    and policy: "cache_ok (se_policy se)" "SLA_CONFIG (se_policy se) (severity_value (o_severity r)) = Some c"
    and fresh: "fresh_keys (se_env se) (uuid_count db + 2) (next_sla_id db) (payments db)"
  obtains outage x p db' where
    "resolve_locked se k mttr (db, w) = bind_outcome (notify_violation se k x p (db', w)) (\<lambda>_ s. (Inr (outage, x, p), s))"
    "settled k c mttr x p db'" "schema_ok db'" "r_status x = (if mttr > threshold_minutes c then Violated else Met)"
    "verified (verify_chain (auditing (se_env se)) (audit db'))"
proof -
  let ?env = "se_env se" and ?r = "resolved_row (now (se_env se)) mttr r"
  have id: "o_id r = k" by (rule get_orm_Some_id [OF row(1)])
  have existing: "get_outage k db = Some (outage_of_row r)" using row(1) by (simp add: get_outage_def)
  obtain e1 db2 where
    half: "resolve_outage_row (now ?env) k mttr db = (Inr (Some (outage_of_row ?r)), db\<lparr>outages := update_first (\<lambda>x. o_id x = k) (\<lambda>_. ?r) (outages db)\<rparr>)"
      "record_event ?env k ''resolved'' [(''mttr_minutes'', JInt mttr)] (audit_log_event ?env ''outage_resolved''
         [(''id'', JStr k), (''mttr'', JInt mttr)] (db\<lparr>outages := update_first (\<lambda>x. o_id x = k) (\<lambda>_. ?r) (outages db)\<rparr>)) = (Inr e1, db2)"
      "schema_ok db2" "get_orm k db2 = Some ?r"
    and frame: "sla_results db2 = sla_results db" "payments db2 = payments db" "next_sla_id db2 = next_sla_id db"
      "uuid_count db2 = uuid_count db + 1"
    and audited2: "verified (verify_chain (auditing ?env) (audit db2))"
    by (rule resolve_first_half [OF row ok audited, where mttr = mttr])
  from compute_sla_total [OF policy(1), of "o_severity r" c k mttr "o_detected_at r" "Some (now ?env)"] policy(2)
  obtain x where x: "compute_sla se k (o_severity r) mttr (o_detected_at r) (Some (now ?env)) = Inr x"
      "r_id x = None" "r_outage_id x = k" "r_mttr_minutes x = mttr" "r_amount x = sla_amount c mttr"
      "r_status x = (if mttr > threshold_minutes c then Violated else Met)"
    unfolding severity_value_lower by blast
  let ?y = "x\<lparr>r_id := Some (next_sla_id db2)\<rparr>"
  let ?p = "new_payment ?env (uuid_count db2 + 1) k (next_sla_id db2) ?y"
  let ?o = "outage_of_row (?r\<lparr>o_sla_status := Some (status_doc ?y)\<rparr>)"
  obtain db3 db4 e2 db5 where tail: "create_if_changed ?env x db2 = (Inr ?y, db3)"
    "record_event ?env k ''sla_computed'' [(''status'', JStr (sla_status_value (r_status ?y)))] db3 = (Inr e2, db4)"
    "create_for_sla_result ?env k ?y (set_sla_status k ?y db4) = (Inr ?p, db5)"
    "get_outage k (set_sla_status k ?y db4) = Some ?o"
    "schema_ok db5" "settled k c mttr ?y ?p db5" "audit db5 = audit db2"
    by (rule settle_tail [OF x(2-5) _ half(3,4) _ _ _ validate_event_detail_workflow(2)]) (use first fresh frame in simp_all)
  have "resolve_locked se k mttr (db, w) = bind_outcome (notify_violation se k ?y ?p (db5, w)) (\<lambda>_ s. (Inr (?o, ?y, ?p), s))"
    using half(1,2) tail(1-4) x(1) row id existing
    by (simp add: resolve_locked_def value_error_to_def Let_def)
  from that [OF this tail(6,5)] x(6) audited2 tail(7) show ?thesis by simp
qed


text \<open>The foreign keys of the schema: results, payments and events refer to stored outages.\<close>

definition foreign_keys_ok :: "database \<Rightarrow> bool" where
  "foreign_keys_ok db \<longleftrightarrow>
     (\<forall>s \<in> set (sla_results db). s_outage_id s \<in> o_id ` set (outages db)) \<and>
     (\<forall>p \<in> set (payments db). \<forall>k. p_outage_id p = Some k \<longrightarrow> k \<in> o_id ` set (outages db)) \<and>
     (\<forall>e \<in> set (outage_events db). e_outage_id e \<in> o_id ` set (outages db))"

definition stored_as :: "outage_create \<Rightarrow> outage_row \<Rightarrow> bool" where
  "stored_as c r \<longleftrightarrow> o_site_name r = oc_site_name c \<and> o_detected_at r = oc_detected_at c \<and> o_description r = oc_description c \<and>
     o_severity r = oc_severity c \<and> o_status r = oc_status c \<and> o_affected_services r = oc_affected_services c"

lemma check_duplicate_stored:
  "check_duplicate c db = Inr (Some d) \<Longrightarrow> \<exists>r \<in> set (outages db). stored_as c r"
  by (force simp: check_duplicate_def get_orm_def find_duplicate_orm_def is_same_outage_def stored_as_def
      dest: find_Some_iff [THEN iffD1] split: option.splits if_splits)

lemma create_or_get_existing_cases:
  obtains (failed) e where "create_or_get_existing t c db = (Inl e, db)"
  | (duplicate) d where "create_or_get_existing t c db = (Inr (d, False), db)" "\<exists>r \<in> set (outages db). stored_as c r"
  | (inserted) "create_or_get_existing t c db =
        (Inr (outage_of_row (new_outage_row t c), True), db\<lparr>outages := outages db @ [new_outage_row t c]\<rparr>)"
      "oc_id c \<notin> o_id ` set (outages db)" "stored_as c (new_outage_row t c)"
proof (cases "check_duplicate c db")
  case (Inr dup)
  show ?thesis
  proof (cases dup)
    case None
    with Inr have "get_orm (oc_id c) db = None" by (auto simp: check_duplicate_def split: option.splits if_splits)
    then have "oc_id c \<notin> o_id ` set (outages db)" by (auto simp: get_orm_def find_None_iff)
    with Inr None inserted show ?thesis by (simp add: create_or_get_existing_def Let_def stored_as_def new_outage_row_def)
  next
    case (Some d)
    with Inr duplicate check_duplicate_stored show ?thesis by (simp add: create_or_get_existing_def)
  qed
qed (use failed in \<open>simp add: create_or_get_existing_def\<close>)

text \<open>What a run of the persisting pass leaves: new rows under fresh, distinct ids, exactly the ids it reports.\<close>

lemma persist_rows_effect:
  assumes "persist_rows t rcs ids db = (res, ids', db')"
  shows "\<exists>new. db' = db\<lparr>outages := outages db @ new\<rparr> \<and> ids' = ids @ map o_id new \<and> distinct (map o_id new) \<and>
     o_id ` set new \<inter> o_id ` set (outages db) = {} \<and>
     (\<forall>outs. res = Inr outs \<longrightarrow> map rr_ok outs = map (rr_ok \<circ> fst) rcs \<and>
        (\<forall>(r, c) \<in> set rcs. \<exists>x \<in> set (outages db @ new). stored_as c x))"
  using assms
proof (induction rcs arbitrary: ids db res ids' db')
  case (Cons rc rs)
  obtain r c where rc: "rc = (r, c)" by fastforce
  note prems = Cons.prems [unfolded rc]
  show ?case
  proof (cases rule: create_or_get_existing_cases [of t c db])
    case (failed e)
    with prems show ?thesis by (simp add: rc) (auto intro!: exI [where x = "[]"])
  next
    case (duplicate d)
    obtain res0 ids0 db0 where rest: "persist_rows t rs ids db = (res0, ids0, db0)" by (metis prod_cases3)
    have "res = (case res0 of Inl e \<Rightarrow> Inl e | Inr outs \<Rightarrow> Inr (r\<lparr>rr_outage_id := Some (ou_id d), rr_persisted := Some False,
        rr_duplicate := Some True, rr_existing_id := Some (ou_id d)\<rparr> # outs))" "ids' = ids0" "db' = db0"
      using prems duplicate(1) rest by (auto simp: Let_def split: sum.splits)
    with Cons.IH [OF rest] duplicate(2) show ?thesis by (elim exE, intro exI) (auto simp: rc split: sum.splits)
  next
    case inserted
    let ?x = "new_outage_row t c" and ?db = "db\<lparr>outages := outages db @ [new_outage_row t c]\<rparr>"
    have id: "o_id ?x = oc_id c" "ou_id (outage_of_row ?x) = oc_id c" by (simp_all add: new_outage_row_def)
    obtain res0 ids0 db0 where rest: "persist_rows t rs (ids @ [oc_id c]) ?db = (res0, ids0, db0)" by (metis prod_cases3)
    from Cons.IH [OF rest]
    obtain new where new: "db0 = ?db\<lparr>outages := outages ?db @ new\<rparr>" "ids0 = (ids @ [oc_id c]) @ map o_id new"
      "distinct (map o_id new)" "o_id ` set new \<inter> o_id ` set (outages ?db) = {}"
      "\<forall>outs. res0 = Inr outs \<longrightarrow> map rr_ok outs = map (rr_ok \<circ> fst) rs \<and> (\<forall>(r, c) \<in> set rs. \<exists>x \<in> set (outages ?db @ new). stored_as c x)"
      by blast
    have "res = (case res0 of Inl e \<Rightarrow> Inl e | Inr outs \<Rightarrow> Inr (r\<lparr>rr_outage_id := Some (oc_id c), rr_persisted := Some True\<rparr> # outs))"
      "ids' = ids0" "db' = db0"
      using prems inserted(1) rest by (auto simp: Let_def id split: sum.splits)
    with new inserted(2,3) id show ?thesis
      by (intro exI [where x = "?x # new"]) (auto simp: rc split: sum.splits)
  qed
qed auto

lemma delete_first_middle:
  "\<forall>x \<in> set xs. \<not> P x \<Longrightarrow> P y \<Longrightarrow> delete_first P (xs @ y # ys) = xs @ ys"
  by (induction xs) auto

lemma delete_all_undoes:
  assumes "foreign_keys_ok db" "distinct (map o_id new)" "o_id ` set new \<inter> o_id ` set (outages db) = {}"
  shows "delete_all (map o_id new) (db\<lparr>outages := outages db @ new\<rparr>) = (Inr (), db)"
  using assms(2,3)
proof (induction new)
  case (Cons x new)
  let ?db = "db\<lparr>outages := outages db @ x # new\<rparr>"
  have fresh: "o_id x \<notin> o_id ` set (outages db)" using Cons.prems(2) by auto
  then have "get_orm (o_id x) ?db \<noteq> None" by (auto simp: get_orm_def find_None_iff)
  moreover have "\<not> has_financial_history (o_id x) ?db"
    using fresh assms(1) unfolding has_financial_history_def foreign_keys_ok_def by simp metis
  moreover have "delete_first (\<lambda>r. o_id r = o_id x) (outages db @ x # new) = outages db @ new"
    using fresh by (intro delete_first_middle) (auto simp: image_iff)
  moreover have "filter (\<lambda>e. e_outage_id e \<noteq> o_id x) (outage_events db) = outage_events db"
    using fresh assms(1) unfolding foreign_keys_ok_def filter_id_conv by metis
  moreover have "update_where (\<lambda>p. p_outage_id p = Some (o_id x)) (\<lambda>p. p\<lparr>p_outage_id := None\<rparr>) (payments db) = payments db"
    using fresh assms(1) by (auto simp: foreign_keys_ok_def update_where_def intro!: map_idI)
  ultimately have "delete_outage_row (o_id x) ?db = (Inr (), db\<lparr>outages := outages db @ new\<rparr>)"
    by (auto simp: delete_outage_row_def)
  with Cons show ?case by auto
qed simp

lemma validate_rows_ok:
  "map rr_ok (validate_rows i rs) = map (\<lambda>(raw, p). \<not> isl p) rs" "length (validate_rows i rs) = length rs"
  by (induction rs arbitrary: i) (auto simp: row_error_def row_result_ok_def split: sum.splits)

lemma list_ex_error: "list_ex (\<lambda>r. \<not> rr_ok r) outs \<longleftrightarrow> False \<in> set (map rr_ok outs)"
  by (auto simp: list_ex_iff)

lemma error_count_zero: "ir_error_count (import_result dry c n m outs) = 0 \<longleftrightarrow> False \<notin> set (map rr_ok outs)"
  by (auto simp: import_result_def filter_empty_conv)

lemma import_atomic_cases:
  assumes "import_atomic env rs db = (res, db')" "foreign_keys_ok db"
  shows "case res of Inl e \<Rightarrow> e = HTTPError 500 \<and> db' = db
     | Inr resp \<Rightarrow> if ir_error_count resp \<noteq> 0 then db' = db \<and> ir_persisted resp = 0
        else (\<exists>new. db' = db\<lparr>outages := outages db @ new\<rparr> \<and> ir_persisted resp = length new) \<and>
             (\<forall>(raw, p) \<in> set rs. \<exists>c. p = Inr c \<and> (\<exists>x \<in> set (outages db'). stored_as c x))"
proof (cases "list_ex (\<lambda>r. \<not> rr_ok r) (validate_rows 0 rs)")
  case True
  then show ?thesis
    using assms(1) error_count_zero [of False Atomic "length rs" 0 "validate_rows 0 rs"]
    by (auto simp: import_atomic_def Let_def list_ex_error import_result_def)
next
  case False
  let ?parsed = "map (\<lambda>(raw, p). case p of Inr c \<Rightarrow> c) rs"
  have valid: "\<forall>(raw, p) \<in> set rs. \<exists>c. p = Inr c"
  proof (intro ballI, clarify)
    fix raw p assume "(raw, p) \<in> set rs"
    moreover have "False \<notin> set (map (\<lambda>(raw, p). \<not> isl p) rs)" using False by (simp only: list_ex_error validate_rows_ok) simp
    ultimately have "\<not> isl p" by force
    then show "\<exists>c. p = Inr c" by (cases p) auto
  qed
  obtain res0 ids db1 where run: "persist_rows (process_start env) (zip (validate_rows 0 rs) ?parsed) [] db = (res0, ids, db1)"
    by (metis prod_cases3)
  from persist_rows_effect [OF run] obtain new where new: "db1 = db\<lparr>outages := outages db @ new\<rparr>" "ids = map o_id new"
    "distinct (map o_id new)" "o_id ` set new \<inter> o_id ` set (outages db) = {}"
    and outs: "\<And>outs. res0 = Inr outs \<Longrightarrow> map rr_ok outs = map (rr_ok \<circ> fst) (zip (validate_rows 0 rs) ?parsed) \<and>
        (\<forall>(r, c) \<in> set (zip (validate_rows 0 rs) ?parsed). \<exists>x \<in> set (outages db @ new). stored_as c x)"
    by auto
  note undo = delete_all_undoes [OF assms(2) new(3,4)]
  show ?thesis
  proof (cases res0)
    case (Inl e)
    with assms(1) False run undo new(1,2) show ?thesis by (auto simp: import_atomic_def Let_def)
  next
    case (Inr os)
    have oks: "map rr_ok os = map rr_ok (validate_rows 0 rs)"
      using outs [OF Inr] by (simp add: map_map [symmetric] validate_rows_ok(2) del: map_map)
    have "\<exists>x \<in> set (outages db @ new). stored_as c x" if "(raw, Inr c) \<in> set rs" for raw c
    proof -
      from that obtain i where i: "i < length rs" "rs ! i = (raw, Inr c)" by (auto simp: in_set_conv_nth)
      then have "(validate_rows 0 rs ! i, c) \<in> set (zip (validate_rows 0 rs) ?parsed)"
        by (auto simp: set_zip validate_rows_ok(2) intro!: exI [where x = i])
      with outs [OF Inr] show ?thesis by blast
    qed
    with valid have stored: "\<forall>(raw, p) \<in> set rs. \<exists>c. p = Inr c \<and> (\<exists>x \<in> set (outages db1). stored_as c x)"
      by (fastforce simp: new(1))
    have "False \<notin> set (map rr_ok os)" unfolding oks using False by (simp only: list_ex_error) simp
    then have none: "ir_error_count (import_result False Atomic (length rs) (length ids) os) = 0"
      by (simp only: error_count_zero) simp
    have "res = Inr (import_result False Atomic (length rs) (length ids) os)" "db' = db1"
      using assms(1) False run Inr by (simp_all add: import_atomic_def Let_def)
    then show ?thesis
      using stored none new(1,2) by (simp add: import_result_def) blast
  qed
qed

lemma bind_outcome_Inr: "bind_outcome m f = (Inr y, s') \<longleftrightarrow> (\<exists>x s. m = (Inr x, s) \<and> f x s = (Inr y, s'))"
  by (auto simp: bind_outcome_def split: sum.splits prod.splits)

lemma on_db_Inr: "on_db f s = (Inr x, s') \<longleftrightarrow> (\<exists>db'. f (fst s) = (Inr x, db') \<and> s' = (db', snd s))"
  by (auto simp: on_db_def split: prod.splits)

lemma recompute_sla_Inr:
  assumes "recompute_sla se k (db, w) = (Inr (y, p), s')"
  obtains r mttr x db1 db3 e w' where "get_orm k db = Some r" "o_status r = Resolved" "o_mttr_minutes r = Some mttr"
    "compute_sla se k (o_severity r) mttr (o_detected_at r) (o_resolved_at r) = Inr x"
    "create_if_changed (se_env se) x db = (Inr y, db1)"
    "create_for_sla_result (se_env se) k y (set_sla_status k y db1) = (Inr p, db3)"
    "record_event (se_env se) k ''sla_recomputed'' [(''status'', JStr (sla_status_value (r_status y)))]
        (audit_log_event (se_env se) ''sla_recomputed'' [(''id'', JStr k)] db3) = (Inr e, fst s')"
    "notify_violation se k y p (db3, w) = (Inr (), (db3, w'))" "snd s' = w'"
proof -
  from assms obtain r where r: "get_orm k db = Some r" "o_status r = Resolved"
    and locked: "recompute_locked se k (outage_of_row r) (db, w) = (Inr (y, p), s')"
    by (auto simp: recompute_sla_def advisory_lock_nowait_def get_outage_def split: option.splits if_splits exn.splits sum.splits prod.splits)
  have id: "o_id r = k" by (rule get_orm_Some_id [OF r(1)])
  from locked r id obtain mttr x where m: "o_mttr_minutes r = Some mttr"
    "compute_sla se k (o_severity r) mttr (o_detected_at r) (o_resolved_at r) = Inr x"
    by (auto simp: recompute_locked_def Let_def split: option.splits sum.splits)
  from locked [unfolded recompute_locked_def] r id m
  obtain db1 db3 s4 e where "create_if_changed (se_env se) x db = (Inr y, db1)"
    "create_for_sla_result (se_env se) k y (set_sla_status k y db1) = (Inr p, db3)"
    "notify_violation se k y p (db3, w) = (Inr (), s4)"
    "record_event (se_env se) k ''sla_recomputed'' [(''status'', JStr (sla_status_value (r_status y)))]
        (audit_log_event (se_env se) ''sla_recomputed'' [(''id'', JStr k)] (fst s4)) = (Inr e, fst s')" "snd s' = snd s4"
    by (auto simp: Let_def bind_outcome_Inr on_db_Inr)
  moreover from this(3) have "fst s4 = db3" using notify_violation_frame [of se k y p "(db3, w)"] by simp
  ultimately show ?thesis using that [OF r m] by (metis prod.collapse)
qed

lemma compute_sla_hashed:
  assumes "cache_ok (se_policy se)" "compute_sla se k sev mttr dt (Some rt) = Inr x"
    and "\<forall>t. isoformat (auditing (se_env se)) t \<noteq> []" "\<forall>d. sha256 (auditing (se_env se)) d \<noteq> []"
  obtains h where "r_id x = None" "r_outage_id x = k" "r_compute_hash x = Some h" "h \<noteq> []"
proof -
  have "\<exists>c. SLA_CONFIG (se_policy se) (py_lower (severity_value sev)) = Some c"
    using assms(2) by (auto simp: compute_sla_def calculate_sla_def calculate_def Let_def split: if_splits)
  then obtain c where c: "SLA_CONFIG (se_policy se) (py_lower (severity_value sev)) = Some c" ..
  show ?thesis
    by (rule compute_sla_total [OF assms(1) c, of k mttr dt "Some rt"])
       (use assms that in \<open>simp add: Let_def compute_hash_def\<close>)
qed

lemma create_if_changed_hashed:
  assumes "create_if_changed env x db = (Inr y, db1)" "r_id x = None" "r_compute_hash x = Some h" "h \<noteq> []"
    and "sla_results db2 = sla_results db1"
  shows "create_if_changed env' x db2 = (Inr y, db2)" "\<exists>i. r_id y = Some i"
proof -
  have made: "create_sla env x db = (Inr y, db1)" using assms(1,2) by (simp add: create_if_changed_is_create)
  from create_sla_replay [OF assms(3,4), of env' env db] made have "create_sla env' x db1 = (Inr y, db1)" by simp
  then obtain r where "find_by_compute_hash (r_outage_id x) h db1 = Some r" "y = sla_result_of_row r"
    using assms(3,4) by (cases "find_by_compute_hash (r_outage_id x) h db1") (auto simp: create_sla_alt dest!: arg_cong [where f = next_sla_id])
  moreover have "find_by_compute_hash (r_outage_id x) h db2 = find_by_compute_hash (r_outage_id x) h db1"
    using assms(5) by (simp add: find_by_compute_hash_def)
  ultimately show "create_if_changed env' x db2 = (Inr y, db2)" "\<exists>i. r_id y = Some i"
    using assms(2-4) by (simp_all add: create_if_changed_is_create create_sla_alt sla_result_of_row_def)
qed

lemma create_for_sla_result_stored:
  assumes "create_for_sla_result env oid x db = (Inr p, db')" "r_id x = Some i" "payments db2 = payments db'"
  shows "create_for_sla_result env' oid' x db2 = (Inr p, db2)"
proof -
  have "get_by_sla_result i db' = Some p"
  proof (cases "get_by_sla_result i db")
    case None
    then have "find (\<lambda>p. p_sla_result_id p = Some i) (payments db) = None" by (simp add: get_by_sla_result_def)
    moreover from assms None have "payments db' = payments db @ [p]" "p_sla_result_id p = Some i"
      by (auto simp: create_for_sla_result_def create_payment_def Let_def new_payment_def split: if_splits)
    ultimately show ?thesis by (simp add: get_by_sla_result_def find_append)
  qed (use assms in \<open>auto simp: create_for_sla_result_def\<close>)
  with assms(2,3) show ?thesis by (simp add: create_for_sla_result_def get_by_sla_result_def)
qed

lemma create_for_sla_result_frame:
  assumes "create_for_sla_result env oid x db = (r, db')"
  shows "outages db' = outages db" "sla_results db' = sla_results db" "audit db' = audit db"
  using assms by (auto simp: create_for_sla_result_def create_payment_def Let_def split: option.splits if_splits)

lemma record_event_frame:
  assumes "record_event env k ty d db = (r, db')"
  shows "outages db' = outages db" "sla_results db' = sla_results db" "payments db' = payments db" "audit db' = audit db"
  using assms by (auto simp: record_event_def Let_def split: sum.splits)

lemma recompute_locked_replayed:
  assumes x: "compute_sla se k (o_severity r) mttr (o_detected_at r) (o_resolved_at r) = Inr x"
    and r: "get_orm k db = Some r" "o_mttr_minutes r = Some mttr"
    and same: "create_if_changed (se_env se) x db = (Inr y, db)"
      "create_for_sla_result (se_env se) k y (set_sla_status k y db) = (Inr p, set_sla_status k y db)"
  obtains res db' w' where "recompute_locked se k (outage_of_row r) (db, w) = (res, (db', w'))"
    "sla_results db' = sla_results db" "payments db' = payments db"
    "r_status y = Met \<or> te_celery_available (se_trigger se) \<Longrightarrow> res = Inr (y, p)"
proof -
  let ?db1 = "set_sla_status k y db"
  have id: "o_id r = k" by (rule get_orm_Some_id [OF r(1)])
  let ?rest = "\<lambda>s. bind_outcome (on_db (\<lambda>db. record_event (se_env se) k ''sla_recomputed'' [(''status'', JStr (sla_status_value (r_status y)))]
      (audit_log_event (se_env se) ''sla_recomputed'' [(''id'', JStr k)] db)) s) (\<lambda>_ s5. (Inr (y, p), s5))"
  have run: "recompute_locked se k (outage_of_row r) (db, w) = bind_outcome (notify_violation se k y p (?db1, w)) (\<lambda>_ s4. ?rest s4)"
    using x r same id by (simp add: recompute_locked_def Let_def)
  obtain n w' where n: "notify_violation se k y p (?db1, w) = (n, (?db1, w'))"
    using notify_violation_frame [of se k y p "(?db1, w)"] by (metis fst_conv prod.exhaust_sel)
  obtain e db' where ev: "record_event (se_env se) k ''sla_recomputed'' [(''status'', JStr (sla_status_value (r_status y)))]
      (audit_log_event (se_env se) ''sla_recomputed'' [(''id'', JStr k)] ?db1) = (Inr e, db')"
    by (rule record_event_Inr [OF validate_event_detail_workflow(3)])
  from record_event_frame [OF ev] have frame: "sla_results db' = sla_results db" "payments db' = payments db" by simp_all
  show ?thesis
  proof (cases n)
    case (Inl err)
    with run n notify_violation_ok [of y se k p ?db1 w] show ?thesis by (auto intro!: that [of "Inl err" ?db1 w'])
  next
    case (Inr u)
    with run n ev frame show ?thesis by (auto intro!: that [of "Inr (y, p)" db' w'])
  qed
qed

lemma compute_sla_cong:
  "se_policy se' = se_policy se \<Longrightarrow> auditing (se_env se') = auditing (se_env se) \<Longrightarrow> contract_meta (se_env se') = contract_meta (se_env se)
   \<Longrightarrow> compute_sla se' k sev m dt rt = compute_sla se k sev m dt rt"
  by (simp add: compute_sla_def Let_def cong: sum.case_cong)

text \<open>C7. Recomputation is idempotent: once it succeeded, running it again later under the same policy writes no SLA result
  and no payment and answers with the same result and payment.\<close>

theorem recompute_idempotent:
  assumes first: "recompute_sla se k (db, w) = (Inr (y, p), (db', w'))"
    and policy: "cache_ok (se_policy se)" and lock: "se_lock_acquired se'"
    and same: "se_policy se' = se_policy se" "auditing (se_env se') = auditing (se_env se)"
      "contract_meta (se_env se') = contract_meta (se_env se)"
    and nonempty: "\<forall>t. isoformat (auditing (se_env se)) t \<noteq> []" "\<forall>d. sha256 (auditing (se_env se)) d \<noteq> []"
    and resolved: "\<exists>r t. get_orm k db = Some r \<and> o_resolved_at r = Some t"
  shows "\<exists>db'' w''. snd (recompute_sla se' k (db', w')) = (db'', w'') \<and>
     sla_results db'' = sla_results db' \<and> payments db'' = payments db' \<and>
     (r_status y = Met \<or> te_celery_available (se_trigger se') \<longrightarrow> fst (recompute_sla se' k (db', w')) = Inr (y, p))"
proof -
  obtain r mttr x db1 db3 e where r: "get_orm k db = Some r" "o_status r = Resolved" "o_mttr_minutes r = Some mttr"
    and x: "compute_sla se k (o_severity r) mttr (o_detected_at r) (o_resolved_at r) = Inr x"
    and made: "create_if_changed (se_env se) x db = (Inr y, db1)"
    and pay: "create_for_sla_result (se_env se) k y (set_sla_status k y db1) = (Inr p, db3)"
    and ev: "record_event (se_env se) k ''sla_recomputed'' [(''status'', JStr (sla_status_value (r_status y)))]
        (audit_log_event (se_env se) ''sla_recomputed'' [(''id'', JStr k)] db3) = (Inr e, db')"
    by (rule recompute_sla_Inr [OF first]) simp
  from resolved r(1) x nonempty policy obtain h where h: "r_id x = None" "r_compute_hash x = Some h" "h \<noteq> []"
    by (auto elim!: compute_sla_hashed)
  have tables: "sla_results db' = sla_results db1" "payments db' = payments db3" "outages db' = outages (set_sla_status k y db1)"
    using record_event_frame [OF ev] create_for_sla_result_frame [OF pay] by simp_all
  have "outages db1 = outages db" using changed.write_frame(1) [of "se_env se" x db] made by simp
  then have row: "get_orm k db' = Some (r\<lparr>o_sla_status := Some (status_doc y)\<rparr>)"
    using r(1) tables(3) get_orm_frame [of db' "set_sla_status k y db1" k] get_orm_frame [of db1 db k]
    by (simp add: get_orm_set_sla_status)
  let ?r = "r\<lparr>o_sla_status := Some (status_doc y)\<rparr>"
  note again = create_if_changed_hashed [OF made h tables(1)]
  from again(2) obtain i where i: "r_id y = Some i" ..
  have paid: "create_for_sla_result (se_env se') k y (set_sla_status k y db') = (Inr p, set_sla_status k y db')"
    by (rule create_for_sla_result_stored [OF pay i]) (simp add: tables(2))
  have x': "compute_sla se' k (o_severity ?r) mttr (o_detected_at ?r) (o_resolved_at ?r) = Inr x"
    using x by (simp add: compute_sla_cong [OF same])
  obtain res db'' w'' where second: "recompute_locked se' k (outage_of_row ?r) (db', w') = (res, (db'', w''))"
    "sla_results db'' = sla_results db'" "payments db'' = payments db'"
    "r_status y = Met \<or> te_celery_available (se_trigger se') \<Longrightarrow> res = Inr (y, p)"
    by (rule recompute_locked_replayed [OF x' row _ again(1) paid]) (use r(3) in auto)
  have "snd (recompute_sla se' k (db', w')) = (db'', w'')"
    "res = Inr (y, p) \<longrightarrow> fst (recompute_sla se' k (db', w')) = Inr (y, p)"
    using row r(2) second(1) lock
    by (auto simp: recompute_sla_def get_outage_def advisory_lock_nowait_def split: sum.splits exn.splits)
  with second(2-4) show ?thesis by blast
qed

text \<open>Resolving an unknown outage, or one that is already resolved, changes nothing and is reported as a transient error:
  the lock wraps the 404, and the replay check reads an attribute that the outage model does not have, so a repeated request
  is never answered with the stored result.\<close>

theorem resolve_refuses_as_transient:
  assumes "se_lock_acquired se"
    and "get_outage k (fst s) = None \<or> (\<exists>outage. get_outage k (fst s) = Some outage \<and> ou_status outage = Resolved)"
  shows "resolve_outage se k mttr s = (Inl ApexTransientError, s)"
proof -
  have "\<exists>e. resolve_locked se k mttr s = (Inl e, s) \<and> e \<noteq> ConcurrencyError"
    using assms(2)
    by (auto simp: resolve_locked_def Let_def on_db_def resolve_outage_row_def get_outage_def value_error_to_def split_beta)
  with locked_result(2) [OF assms(1)] show ?thesis by blast
qed

text \<open>Recomputing an outage that was marked resolved by an update, and so has no MTTR, changes nothing and is reported
  as transient.\<close>

theorem recompute_without_mttr_fails:
  assumes "get_orm k (fst s) = Some r" "o_status r = Resolved" "o_mttr_minutes r = None"
  shows "recompute_sla se k s = (Inl (if se_lock_acquired se then ApexTransientError else HTTPError 409), s)"
  using assms by (simp add: recompute_sla_def get_outage_def recompute_locked_def Let_def advisory_lock_nowait_def)

text \<open>The timeline event of an update or a patch never says what changed: the detail model keeps only a key the handlers
  do not send.\<close>

theorem change_events_lose_the_changes:
  assumes "change_outage ty env k u db = (Inr res, db')" "ty = ''updated'' \<or> ty = ''patched''"
  shows "\<exists>ev. outage_events db' = outage_events db @ [ev] \<and> e_outage_id ev = k \<and> e_detail ev = Some [(''changes'', JObj [])]"
proof -
  have names: "map_of (update_detail u) ''changes'' = None"
    unfolding update_detail_def Let_def map_of_append map_add_None by (intro conjI; simp split: option.split)
  then have val: "validate_event_detail ty (update_detail u) = Inr [(''changes'', JObj [])]"
    using assms(2) by (auto simp: validate_event_detail_def)
  from assms(1) obtain upd db1 where "value_error_to 400 (update_outage_row (now env) k u db) = (Inr upd, db1)"
    and ev: "bind_outcome (record_event env k ty (update_detail u) db1) (\<lambda>_ db2. (Inr upd, db2)) = (Inr res, db')"
    by (auto simp: change_outage_def bind_outcome_Inr split: option.splits)
  then have "outage_events db1 = outage_events db"
    by (auto simp: value_error_to_def update_outage_row_def Let_def split: option.splits sum.splits if_splits exn.splits prod.splits)
  with ev val show ?thesis by (auto simp: record_event_def Let_def)
qed

text \<open>C8. An atomic import is all or nothing: on an error, or when a row does not validate, the database is exactly what it
  was (the compensation removes every row of the batch, though each was committed on its own); otherwise every row of the file
  is stored and the reported count is the number of new rows.\<close>

theorem atomic_import_all_or_nothing:
  assumes "import_outages max_rows env False Atomic rs db = (res, db')" "foreign_keys_ok db"
  shows "case res of Inl e \<Rightarrow> db' = db
     | Inr resp \<Rightarrow> if ir_error_count resp \<noteq> 0 then db' = db \<and> ir_persisted resp = 0
        else (\<exists>new. db' = db\<lparr>outages := outages db @ new\<rparr> \<and> ir_persisted resp = length new) \<and>
             (\<forall>(raw, p) \<in> set rs. \<exists>c. p = Inr c \<and> (\<exists>x \<in> set (outages db'). stored_as c x))"
proof (cases "length rs > max_rows")
  case False
  with assms(1) have "import_atomic env rs db = (res, db')" by (simp add: import_outages_def)
  from import_atomic_cases [OF this assms(2)] show ?thesis by (cases res) auto
qed (use assms(1) in \<open>auto simp: import_outages_def\<close>)

section \<open>Concrete requests\<close>

definition sample_settle_env :: "time \<Rightarrow> settle_env" where
  "sample_settle_env t =
     \<lparr>se_env = (sample_env t)\<lparr>auditing := \<lparr>sha256 = (\<lambda>d. CHR ''h'' # d), isoformat = (\<lambda>s. CHR ''T'' # py_str_int s), sensitive_fields = []\<rparr>\<rparr>,
      se_policy = initial_cache,
      se_trigger = \<lparr>te_settings = sample_settings, te_uuid = digits_of, te_now = t, te_iso = ''T'', te_celery_available = True,
                    te_attempts = (\<lambda>_. sample_attempt t (Http_response 200 [])),
                    te_fanout = \<lparr>fe_limit = 5, fe_window = 60, fe_redis_count = (\<lambda>_. None), fe_monotonic = t\<rparr>\<rparr>,
      se_str_datetime = py_str_int, se_lock_acquired = True\<rparr>"

lemma sample_settle_env_fields [simp]:
  "se_lock_acquired (sample_settle_env t)" "se_policy (sample_settle_env t) = initial_cache"
  "te_celery_available (se_trigger (sample_settle_env t))"
  "auditing (se_env (sample_settle_env t)) = \<lparr>sha256 = (\<lambda>d. CHR ''h'' # d), isoformat = (\<lambda>s. CHR ''T'' # py_str_int s), sensitive_fields = []\<rparr>"
  "contract_meta (se_env (sample_settle_env t)) = contract_meta (sample_env t)"
  by (simp_all add: sample_settle_env_def)

definition sample_create :: "str \<Rightarrow> severity \<Rightarrow> outage_create" where
  "sample_create k sev =
     \<lparr>oc_id = k, oc_site_name = ''site'', oc_site_id = None, oc_severity = sev, oc_status = Open, oc_detected_at = 1,
      oc_description = ''fibre cut'', oc_affected_services = [''voice''], oc_affected_subscribers = None,
      oc_assigned_to = None, oc_created_by = None, oc_location = None\<rparr>"

text \<open>The second row conflicts with the first: the first one is removed again.\<close>

theorem atomic_import_all_or_nothing_witness:
  "import_outages 10 (sample_env 5) False Atomic [(None, Inr (sample_create ''o'' critical)), (None, Inr (sample_create ''o'' low))] empty_database
     = (Inl (HTTPError 500), empty_database)"
proof -
  let ?run = "import_outages 10 (sample_env 5) False Atomic [(None, Inr (sample_create ''o'' critical)), (None, Inr (sample_create ''o'' low))] empty_database"
  have "foreign_keys_ok empty_database" by (simp add: foreign_keys_ok_def empty_database_def)
  moreover have "fst ?run = Inl (HTTPError 500)" by code_simp
  ultimately show ?thesis
    using atomic_import_all_or_nothing [of 10 "sample_env 5" _ empty_database "fst ?run" "snd ?run"] by (cases ?run) simp
qed


theorem resolve_refuses_as_transient_witness:
  "resolve_outage (sample_settle_env 9) ''o'' 20 (empty_database, sample_webhook_state [])
     = (Inl ApexTransientError, (empty_database, sample_webhook_state []))"
  by (rule resolve_refuses_as_transient) (simp_all add: sample_settle_env_def get_outage_def get_orm_def empty_database_def)

theorem recompute_without_mttr_fails_witness:
  "recompute_sla (sample_settle_env 9) ''o'' (empty_database\<lparr>outages := [sample_outage ''o'' Resolved 1]\<rparr>, sample_webhook_state [])
     = (Inl ApexTransientError, (empty_database\<lparr>outages := [sample_outage ''o'' Resolved 1]\<rparr>, sample_webhook_state []))"
  using recompute_without_mttr_fails [where s = "(empty_database\<lparr>outages := [sample_outage ''o'' Resolved 1]\<rparr>, sample_webhook_state [])"
      and k = "''o''" and r = "sample_outage ''o'' Resolved 1" and se = "sample_settle_env 9"]
  by (simp add: sample_settle_env_def get_orm_def sample_outage_def)

definition no_update :: outage_update where
  "no_update = \<lparr>up_site_name = None, up_severity = None, up_status = None, up_resolved_at = None, up_description = None,
     up_affected_services = None, up_affected_subscribers = None, up_assigned_to = None, up_created_by = None, up_location = None\<rparr>"

theorem change_events_lose_the_changes_witness:
  "\<exists>res db' ev. update_outage (sample_env 5) ''o'' (no_update\<lparr>up_description := Some (Some ''power loss'')\<rparr>)
       (empty_database\<lparr>outages := [sample_outage ''o'' Open 1]\<rparr>) = (Inr res, db') \<and>
     outage_events db' = [ev] \<and> e_detail ev = Some [(''changes'', JObj [])]"
proof -
  let ?run = "change_outage ''updated'' (sample_env 5) ''o'' (no_update\<lparr>up_description := Some (Some ''power loss'')\<rparr>)
       (empty_database\<lparr>outages := [sample_outage ''o'' Open 1]\<rparr>)"
  have "\<not> isl (fst ?run)" by code_simp
  then obtain res db' where run: "?run = (Inr res, db')" by (cases "fst ?run"; cases ?run) auto
  from change_events_lose_the_changes [OF run] run show ?thesis by (auto simp: update_outage_def empty_database_def)
qed

theorem recompute_idempotent_witness:
  "\<exists>y p s'. recompute_sla (sample_settle_env 9) ''o''
       (empty_database\<lparr>outages := [(sample_outage ''o'' Resolved 1)\<lparr>o_mttr_minutes := Some 20, o_resolved_at := Some 4\<rparr>]\<rparr>, sample_webhook_state []) =
       (Inr (y, p), s') \<and> fst (recompute_sla (sample_settle_env 11) ''o'' s') = Inr (y, p)"
proof -
  let ?db = "empty_database\<lparr>outages := [(sample_outage ''o'' Resolved 1)\<lparr>o_mttr_minutes := Some 20, o_resolved_at := Some 4\<rparr>]\<rparr>"
  let ?run = "recompute_sla (sample_settle_env 9) ''o'' (?db, sample_webhook_state [])"
  have "\<not> isl (fst ?run)" by code_simp
  then obtain y p db' w' where run: "?run = (Inr (y, p), (db', w'))" by (cases "fst ?run"; cases ?run) auto
  have "\<exists>r t. get_orm ''o'' ?db = Some r \<and> o_resolved_at r = Some t" by (simp add: get_orm_def sample_outage_def)
  moreover have "contract_meta (sample_env 11) = contract_meta (sample_env 9)" by (simp add: sample_env_def)
  ultimately have "fst (recompute_sla (sample_settle_env 11) ''o'' (db', w')) = Inr (y, p)"
    using recompute_idempotent [OF run, of "sample_settle_env 11"] by (auto simp: cache_ok_initial)
  with run show ?thesis by blast
qed

end
