(* ===== verification/Batches.thy ===== *)
theory Batches
  imports Prelude "HOL-Library.Sublist"
begin

text \<open>
  Batched deletion, the shape that the clean-up of sessions, token families, jobs, webhook deliveries and audit entries shares: load at
  most \<open>n\<close> matching rows, delete them, and stop when nothing or less than a full batch was found.  Shown: it ends, it deletes
  exactly the matching rows, and it keeps the order of the others.
\<close>

section \<open>The loop\<close>

text \<open>The batched deletions: load at most \<open>n\<close> matching rows, delete them, stop after a short batch.\<close>

fun delete_batch :: "('r \<Rightarrow> bool) \<Rightarrow> nat \<Rightarrow> 'r list \<Rightarrow> 'r list" where
  "delete_batch P n [] = []"
| "delete_batch P 0 (r # rs) = r # rs"
| "delete_batch P (Suc n) (r # rs) = (if P r then delete_batch P n rs else r # delete_batch P (Suc n) rs)"

lemma length_delete_batch: "length (delete_batch P n rs) + min n (length (filter P rs)) = length rs"
  by (induction P n rs rule: delete_batch.induct) auto

function delete_in_batches :: "('r \<Rightarrow> bool) \<Rightarrow> nat \<Rightarrow> 'r list \<Rightarrow> nat \<times> 'r list" where
  "delete_in_batches P n rs =
     (let batch = take n (filter P rs) in
      if batch = [] then (0, rs)
      else if length batch < n then (length batch, delete_batch P n rs)
      else (case delete_in_batches P n (delete_batch P n rs) of (m, rs') \<Rightarrow> (length batch + m, rs')))"
  by auto
termination
proof (relation "measure (\<lambda>(P, n, rs). length rs)", simp, clarsimp)
  fix P :: "'r \<Rightarrow> bool" and n :: nat and rs assume "0 < n" and "filter P rs \<noteq> []"
  then have "0 < min n (length (filter P rs))" by simp
  with length_delete_batch [of P n rs] show "length (delete_batch P n rs) < length rs" by linarith
qed

declare delete_in_batches.simps [simp del]

section \<open>Batched deletion\<close>

lemma delete_batch_effect:
  "subseq (delete_batch P n rs) rs" "filter (\<lambda>r. \<not> P r) (delete_batch P n rs) = filter (\<lambda>r. \<not> P r) rs"
  "filter P (delete_batch P n rs) = drop n (filter P rs)"
  by (induction P n rs rule: delete_batch.induct) auto

lemma delete_in_batches_subseq:
  "subseq (snd (delete_in_batches P n rs)) rs" "filter (\<lambda>r. \<not> P r) (snd (delete_in_batches P n rs)) = filter (\<lambda>r. \<not> P r) rs"
proof (induction P n rs rule: delete_in_batches.induct)
  case (1 P n rs)
  note ih = "1.IH" [OF refl]
  case 1
  show ?case using ih(1) delete_batch_effect(1) [of P n rs]
    by (subst delete_in_batches.simps) (auto simp: Let_def split_beta intro: subseq_order.trans)
  case 2
  show ?case using ih(2) delete_batch_effect(2) [of P n rs]
    by (subst delete_in_batches.simps) (auto simp: Let_def split_beta)
qed

lemma delete_in_batches_correct:
  assumes "0 < n"
  shows "delete_in_batches P n rs = (length (filter P rs), filter (\<lambda>r. \<not> P r) rs)"
  using assms
proof (induction P n rs rule: delete_in_batches.induct)
  case (1 P n rs)
  let ?b = "take n (filter P rs)"
  have none: "xs = filter (\<lambda>r. \<not> P r) xs" if "filter P xs = []" for xs using that by (induction xs) (auto split: if_splits)
  show ?case
  proof (cases "?b = []")
    case True
    with "1.prems" have "filter P rs = []" by simp
    with none [of rs] show ?thesis by (subst delete_in_batches.simps) simp
  next
    case nonempty: False
    show ?thesis
    proof (cases "length ?b < n")
      case True
      then have short: "length (filter P rs) < n" by auto
      with none [of "delete_batch P n rs"] nonempty True show ?thesis
        by (subst delete_in_batches.simps) (simp add: delete_batch_effect Let_def)
    next
      case False
      with nonempty "1.IH" [OF refl] "1.prems" show ?thesis
        by (subst delete_in_batches.simps) (simp add: delete_batch_effect Let_def)
    qed
  qed
qed

end
