(* ===== verification/Auth.thy ===== *)
theory Auth
  imports Database Rate_Limits Batches
begin

text \<open>
  Accounts, sessions and refresh-token families: \<^verbatim>\<open>app/services/auth_store.py\<close> over the user, session and token-family
  repositories, the password policy and the bearer check of \<^verbatim>\<open>app/core/security.py\<close>, revocation, the clean-up task,
  erasure, the credential-stuffing detector and the handlers of \<^verbatim>\<open>app/api/v1/endpoints/auth.py\<close>.  The state extends the
  database by the three tables.  Rows that one request loads twice are the same object (the session's identity map), so a
  row read before a repository call shows the values after it.
\<close>

section \<open>Tables\<close>

datatype role = Admin | Engineer

fun role_value :: "role \<Rightarrow> str" where
  "role_value Admin = ''admin''" | "role_value Engineer = ''engineer''"

record user_row =
  u_id :: str
  u_email :: str
  u_hashed_password :: str
  u_full_name :: "str option"
  u_role :: role
  u_stellar_wallet :: "str option"
  u_created_at :: time
  u_failed_login_attempts :: int
  u_locked_until :: "time option"

record session_row =
  sn_access_token :: str
  sn_refresh_token :: str
  sn_email :: str
  sn_family_id :: "str option"
  sn_sequence :: int
  sn_expires_at :: time
  sn_created_at :: time

record family_row =
  tf_family_id :: str
  tf_email :: str
  tf_current_sequence :: int
  tf_compromised :: bool
  tf_created_at :: time
  tf_updated_at :: time

record auth_db = database +
  users :: "user_row list"
  sessions :: "session_row list"
  families :: "family_row list"

text \<open>Password hashing and the settings are arguments; \<open>ac_verify\<close> raises on an unreadable hash.\<close>

record auth_cfg =
  ac_env :: env
  ac_verify :: "str \<Rightarrow> str \<Rightarrow> exn + bool"
  ac_hash :: "str \<Rightarrow> str"
  ac_max_failed_attempts :: int
  ac_lockout_minutes :: int
  ac_second :: time

definition hash_token :: "auth_cfg \<Rightarrow> str \<Rightarrow> str" where
  "hash_token cfg token = sha256 (auditing (ac_env cfg)) token"

definition TOKEN_TTL_SECONDS :: int where "TOKEN_TTL_SECONDS = 3600"

definition log_auth ::
  "auth_cfg \<Rightarrow> str \<Rightarrow> str option \<Rightarrow> str option \<Rightarrow> (str \<times> json) list option \<Rightarrow> auth_db \<Rightarrow> auth_db" where
  "log_auth cfg event_type email actor_id details db =
     db\<lparr>audit := log_event (auditing (ac_env cfg)) (now (ac_env cfg)) (correlation_id (ac_env cfg)) event_type email actor_id
                  details None (audit db)\<rparr>"

section \<open>Password policy\<close>

definition has_char :: "nat \<Rightarrow> nat \<Rightarrow> string \<Rightarrow> bool" where
  "has_char lo hi s \<longleftrightarrow> list_ex (\<lambda>c. lo \<le> (of_char c :: nat) \<and> of_char c \<le> hi) s"

definition special_chars :: string where
  "special_chars = ''!@#$%^&*(),.?'' @ [CHR 0x22] @ '':{}|<>''"

definition validate_password_policy :: "string \<Rightarrow> bool" where
  "validate_password_policy password \<longleftrightarrow>
     length password \<ge> 8 \<and> has_char 97 122 password \<and> has_char 65 90 password \<and> has_char 48 57 password \<and>
     list_ex (\<lambda>c. c \<in> set special_chars) password"

section \<open>Users\<close>

record auth_user =
  au_id :: str
  au_email :: str
  au_full_name :: "str option"
  au_role :: role
  au_stellar_wallet :: "str option"
  au_created_at :: time

definition user_orm_to_pydantic :: "user_row \<Rightarrow> auth_user" where
  "user_orm_to_pydantic u =
     \<lparr>au_id = u_id u, au_email = u_email u, au_full_name = u_full_name u, au_role = u_role u,
      au_stellar_wallet = u_stellar_wallet u, au_created_at = u_created_at u\<rparr>"

definition get_by_email :: "str \<Rightarrow> auth_db \<Rightarrow> user_row option" where
  "get_by_email email db = find (\<lambda>u. u_email u = email) (users db)"

definition get_by_id :: "str \<Rightarrow> auth_db \<Rightarrow> user_row option" where
  "get_by_id k db = find (\<lambda>u. u_id u = k) (users db)"

definition list_users :: "nat \<Rightarrow> nat \<Rightarrow> auth_db \<Rightarrow> user_row list" where
  "list_users limit offset db = take limit (drop offset (sort_desc u_created_at (users db)))"

definition create_user :: "auth_cfg \<Rightarrow> str \<Rightarrow> str \<Rightarrow> str \<Rightarrow> str \<Rightarrow> role \<Rightarrow> auth_db \<Rightarrow> (user_row, auth_db) outcome" where
  "create_user cfg user_id email hashed full_name role db =
     (let u = \<lparr>u_id = user_id, u_email = email, u_hashed_password = hashed, u_full_name = Some full_name, u_role = role,
               u_stellar_wallet = None, u_created_at = process_start (ac_env cfg), u_failed_login_attempts = 0,
               u_locked_until = None\<rparr> in
      if list_ex (\<lambda>v. u_id v = user_id \<or> u_email v = email) (users db) then (Inl IntegrityError, db)
      else (Inr u, db\<lparr>users := users db @ [u]\<rparr>))"

definition on_user :: "str \<Rightarrow> (user_row \<Rightarrow> user_row) \<Rightarrow> auth_db \<Rightarrow> auth_db" where
  "on_user email f db = db\<lparr>users := update_first (\<lambda>u. u_email u = email) f (users db)\<rparr>"

definition increment_failed_attempts :: "str \<Rightarrow> auth_db \<Rightarrow> auth_db" where
  "increment_failed_attempts email = on_user email (\<lambda>u. u\<lparr>u_failed_login_attempts := u_failed_login_attempts u + 1\<rparr>)"

definition reset_failed_attempts :: "str \<Rightarrow> auth_db \<Rightarrow> auth_db" where
  "reset_failed_attempts email = on_user email (\<lambda>u. u\<lparr>u_failed_login_attempts := 0, u_locked_until := None\<rparr>)"

definition lock_account :: "str \<Rightarrow> time \<Rightarrow> auth_db \<Rightarrow> auth_db" where
  "lock_account email until = on_user email (\<lambda>u. u\<lparr>u_locked_until := Some until\<rparr>)"

definition is_locked :: "time \<Rightarrow> user_row \<Rightarrow> bool" where
  "is_locked t u \<longleftrightarrow> (case u_locked_until u of None \<Rightarrow> False | Some l \<Rightarrow> l > t)"

definition is_account_locked :: "time \<Rightarrow> str \<Rightarrow> auth_db \<Rightarrow> bool" where
  "is_account_locked t email db \<longleftrightarrow> (case get_by_email email db of None \<Rightarrow> False | Some u \<Rightarrow> is_locked t u)"

definition update_profile_row :: "str \<Rightarrow> str option \<Rightarrow> str option \<Rightarrow> auth_db \<Rightarrow> user_row option \<times> auth_db" where
  "update_profile_row k full_name stellar_wallet db =
     (let f = (\<lambda>u. (case stellar_wallet of None \<Rightarrow> id | Some w \<Rightarrow> u_stellar_wallet_update (\<lambda>_. Some w))
                   ((case full_name of None \<Rightarrow> id | Some n \<Rightarrow> u_full_name_update (\<lambda>_. Some n)) u)) in
      case get_by_id k db of
        None \<Rightarrow> (None, db)
      | Some u \<Rightarrow> (Some (f u), db\<lparr>users := update_first (\<lambda>u. u_id u = k) f (users db)\<rparr>))"

section \<open>Sessions and families\<close>

definition get_session :: "str \<Rightarrow> auth_db \<Rightarrow> session_row option" where
  "get_session access db = find (\<lambda>s. sn_access_token s = access) (sessions db)"

definition get_session_by_refresh_token :: "str \<Rightarrow> auth_db \<Rightarrow> session_row option" where
  "get_session_by_refresh_token refresh db = find (\<lambda>s. sn_refresh_token s = refresh) (sessions db)"

definition create_session ::
  "auth_cfg \<Rightarrow> str \<Rightarrow> str \<Rightarrow> str \<Rightarrow> str \<Rightarrow> int \<Rightarrow> time \<Rightarrow> auth_db \<Rightarrow> (session_row, auth_db) outcome" where
  "create_session cfg access refresh email family_id sequence expires_at db =
     (let s = \<lparr>sn_access_token = access, sn_refresh_token = refresh, sn_email = email, sn_family_id = Some family_id,
               sn_sequence = sequence, sn_expires_at = expires_at, sn_created_at = process_start (ac_env cfg)\<rparr> in
      if list_ex (\<lambda>r. sn_access_token r = access \<or> sn_refresh_token r = refresh) (sessions db) then (Inl IntegrityError, db)
      else (Inr s, db\<lparr>sessions := sessions db @ [s]\<rparr>))"

definition delete_session :: "str \<Rightarrow> auth_db \<Rightarrow> auth_db" where
  "delete_session access db = db\<lparr>sessions := delete_first (\<lambda>s. sn_access_token s = access) (sessions db)\<rparr>"

definition delete_sessions_by_family :: "str \<Rightarrow> auth_db \<Rightarrow> nat \<times> auth_db" where
  "delete_sessions_by_family family_id db =
     (length (filter (\<lambda>s. sn_family_id s = Some family_id) (sessions db)),
      db\<lparr>sessions := filter (\<lambda>s. sn_family_id s \<noteq> Some family_id) (sessions db)\<rparr>)"

definition list_sessions_by_email :: "str \<Rightarrow> auth_db \<Rightarrow> session_row list" where
  "list_sessions_by_email email db = sort_desc sn_created_at (filter (\<lambda>s. sn_email s = email) (sessions db))"

definition delete_sessions_by_email :: "str \<Rightarrow> auth_db \<Rightarrow> nat \<times> auth_db" where
  "delete_sessions_by_email email db =
     (length (filter (\<lambda>s. sn_email s = email) (sessions db)),
      db\<lparr>sessions := filter (\<lambda>s. sn_email s \<noteq> email) (sessions db)\<rparr>)"

definition get_family :: "str \<Rightarrow> auth_db \<Rightarrow> family_row option" where
  "get_family family_id db = find (\<lambda>f. tf_family_id f = family_id) (families db)"

definition create_family :: "auth_cfg \<Rightarrow> str \<Rightarrow> str \<Rightarrow> auth_db \<Rightarrow> (family_row, auth_db) outcome" where
  "create_family cfg family_id email db =
     (let f = \<lparr>tf_family_id = family_id, tf_email = email, tf_current_sequence = 0, tf_compromised = False,
               tf_created_at = process_start (ac_env cfg), tf_updated_at = process_start (ac_env cfg)\<rparr> in
      if get_family family_id db \<noteq> None then (Inl IntegrityError, db)
      else (Inr f, db\<lparr>families := families db @ [f]\<rparr>))"

text \<open>\<open>is_revoked\<close>: a family that is gone counts as revoked.\<close>

definition family_revoked :: "str \<Rightarrow> auth_db \<Rightarrow> bool" where
  "family_revoked family_id db = (case get_family family_id db of None \<Rightarrow> True | Some f \<Rightarrow> tf_compromised f)"

definition on_family :: "str \<Rightarrow> (family_row \<Rightarrow> family_row) \<Rightarrow> auth_db \<Rightarrow> auth_db" where
  "on_family family_id f db = db\<lparr>families := update_first (\<lambda>x. tf_family_id x = family_id) f (families db)\<rparr>"

definition increment_sequence :: "time \<Rightarrow> str \<Rightarrow> auth_db \<Rightarrow> auth_db" where
  "increment_sequence t family_id =
     on_family family_id (\<lambda>f. f\<lparr>tf_current_sequence := tf_current_sequence f + 1, tf_updated_at := t\<rparr>)"

definition compromise_family :: "time \<Rightarrow> str \<Rightarrow> auth_db \<Rightarrow> auth_db" where
  "compromise_family t family_id = on_family family_id (\<lambda>f. f\<lparr>tf_compromised := True, tf_updated_at := t\<rparr>)"

definition delete_families_by_email :: "str \<Rightarrow> auth_db \<Rightarrow> auth_db" where
  "delete_families_by_email email db = db\<lparr>families := filter (\<lambda>f. tf_email f \<noteq> email) (families db)\<rparr>"

definition delete_expired_sessions :: "time \<Rightarrow> nat \<Rightarrow> auth_db \<Rightarrow> nat \<times> auth_db" where
  "delete_expired_sessions t batch_size db =
     (case delete_in_batches (\<lambda>s. sn_expires_at s < t) batch_size (sessions db) of (n, ss) \<Rightarrow> (n, db\<lparr>sessions := ss\<rparr>))"

definition delete_orphaned_families :: "nat \<Rightarrow> auth_db \<Rightarrow> nat \<times> auth_db" where
  "delete_orphaned_families batch_size db =
     (case delete_in_batches (\<lambda>f. Some (tf_family_id f) \<notin> sn_family_id ` set (sessions db)) batch_size (families db) of
        (n, fs) \<Rightarrow> (n, db\<lparr>families := fs\<rparr>))"

definition cleanup_expired_auth_rows :: "auth_cfg \<Rightarrow> auth_db \<Rightarrow> (nat \<times> nat) \<times> auth_db" where
  "cleanup_expired_auth_rows cfg db =
     (case delete_expired_sessions (now (ac_env cfg)) 1000 db of (n, db1) \<Rightarrow>
      case delete_orphaned_families 1000 db1 of (m, db2) \<Rightarrow>
        ((n, m), if n \<noteq> 0 \<or> m \<noteq> 0
                 then log_auth cfg ''auth_rows_cleanup'' None None
                        (Some [(''deleted_sessions'', JInt (int n)), (''deleted_families'', JInt (int m))]) db2
                 else db2))"

section \<open>The store\<close>

text \<open>Random identifiers are drawn from the counter of the database.\<close>

definition draw :: "auth_cfg \<Rightarrow> auth_db \<Rightarrow> str \<times> auth_db" where
  "draw cfg db = (uuid4_hex (ac_env cfg) (uuid_count db), db\<lparr>uuid_count := uuid_count db + 1\<rparr>)"

definition new_account ::
  "auth_cfg \<Rightarrow> str \<Rightarrow> str \<Rightarrow> str \<Rightarrow> role \<Rightarrow> auth_db \<Rightarrow> (user_row, auth_db) outcome" where
  "new_account cfg email password full_name role db =
     (if get_by_email email db \<noteq> None then (Inl ValueError, db)
      else if \<not> validate_password_policy password then (Inl ValueError, db)
      else (case draw cfg db of (u, db1) \<Rightarrow>
              create_user cfg (''user_'' @ take 8 u) email (ac_hash cfg password) full_name role db1))"

definition register_with_db :: "auth_cfg \<Rightarrow> str \<Rightarrow> str \<Rightarrow> str \<Rightarrow> auth_db \<Rightarrow> (auth_user, auth_db) outcome" where
  "register_with_db cfg email password full_name db =
     (case new_account cfg email password full_name Engineer db of
        (Inl e, db1) \<Rightarrow> (Inl e, db1)
      | (Inr u, db1) \<Rightarrow>
          (Inr (user_orm_to_pydantic u),
           log_auth cfg ''registration'' (Some email) (Some (u_id u))
             (Some [(''user_id'', JStr (u_id u)), (''role'', JStr (role_value Engineer))]) db1))"

definition admin_create_user ::
  "auth_cfg \<Rightarrow> str \<Rightarrow> str \<Rightarrow> str \<Rightarrow> role \<Rightarrow> auth_user \<Rightarrow> auth_db \<Rightarrow> (auth_user, auth_db) outcome" where
  "admin_create_user cfg email password full_name role actor db =
     (case new_account cfg email password full_name role db of
        (Inl e, db1) \<Rightarrow> (Inl e, db1)
      | (Inr u, db1) \<Rightarrow>
          (Inr (user_orm_to_pydantic u),
           log_auth cfg ''admin_user_created'' (Some (au_email actor)) (Some (au_id actor))
             (Some [(''created_user_id'', JStr (u_id u)), (''created_email'', JStr email), (''role'', JStr (role_value role))]) db1))"

record auth_session_response =
  ar_access_token :: str
  ar_refresh_token :: str
  ar_expires_in :: int
  ar_user :: auth_user

definition session_expiry :: "auth_cfg \<Rightarrow> time" where
  "session_expiry cfg = now (ac_env cfg) + TOKEN_TTL_SECONDS * ac_second cfg"

text \<open>
  The failing branch of a login.  \<open>actor_id=stored_user.user_id\<close> is evaluated before the audit call, and the user class has
  no such attribute, so for an existing account the branch ends in an \<open>AttributeError\<close>.
\<close>

definition login_failed :: "auth_cfg \<Rightarrow> str \<Rightarrow> auth_db \<Rightarrow> (auth_session_response, auth_db) outcome" where
  "login_failed cfg email db =
     (let db1 = increment_failed_attempts email db in
      case get_by_email email db1 of
        None \<Rightarrow> (Inl ValueError,
                 log_auth cfg ''login_failed'' (Some email) None (Some [(''reason'', JStr ''invalid_credentials'')]) db1)
      | Some u \<Rightarrow>
          if u_failed_login_attempts u \<ge> ac_max_failed_attempts cfg
          then (Inl AttributeError,
                lock_account email (now (ac_env cfg) + ac_lockout_minutes cfg * 60 * ac_second cfg) db1)
          else (Inl AttributeError, db1))"

definition login_succeeded :: "auth_cfg \<Rightarrow> str \<Rightarrow> user_row \<Rightarrow> auth_db \<Rightarrow> (auth_session_response, auth_db) outcome" where
  "login_succeeded cfg email u db =
     (case draw cfg (reset_failed_attempts email db) of (a, db1) \<Rightarrow>
      case draw cfg db1 of (r, db2) \<Rightarrow>
      case draw cfg db2 of (f, db3) \<Rightarrow>
        (let access_token = ''atk_'' @ a; refresh_token = ''rtk_'' @ r; family_id = ''fam_'' @ f in
         case create_family cfg family_id email db3 of
           (Inl e, db4) \<Rightarrow> (Inl e, db4)
         | (Inr _, db4) \<Rightarrow>
             (case create_session cfg (hash_token cfg access_token) (hash_token cfg refresh_token) email family_id 0
                     (session_expiry cfg) db4 of
                (Inl e, db5) \<Rightarrow> (Inl e, db5)
              | (Inr _, db5) \<Rightarrow>
                  (Inr \<lparr>ar_access_token = access_token, ar_refresh_token = refresh_token, ar_expires_in = TOKEN_TTL_SECONDS,
                        ar_user = user_orm_to_pydantic u\<rparr>,
                   log_auth cfg ''login_success'' (Some email) (Some (u_id u)) None db5))))"

definition login_with_db :: "auth_cfg \<Rightarrow> str \<Rightarrow> str \<Rightarrow> auth_db \<Rightarrow> (auth_session_response, auth_db) outcome" where
  "login_with_db cfg email password db =
     (case get_by_email email db of
        None \<Rightarrow> login_failed cfg email db
      | Some u \<Rightarrow>
          if is_locked (now (ac_env cfg)) u
          then (Inl ValueError,
                log_auth cfg ''login_failed_locked'' (Some email) None (Some [(''reason'', JStr ''account_locked'')]) db)
          else (case ac_verify cfg password (u_hashed_password u) of
                  Inl e \<Rightarrow> (Inl e, db)
                | Inr False \<Rightarrow> login_failed cfg email db
                | Inr True \<Rightarrow> login_succeeded cfg email u db))"

text \<open>\<open>get_user_for_token\<close> as the handlers call it, without the optional cache.\<close>

definition get_user_for_token :: "auth_cfg \<Rightarrow> str \<Rightarrow> auth_db \<Rightarrow> auth_user option \<times> auth_db" where
  "get_user_for_token cfg token db =
     (let hashed = hash_token cfg token in
      case get_session hashed db of
        None \<Rightarrow> (None, db)
      | Some s \<Rightarrow>
          if now (ac_env cfg) > sn_expires_at s then (None, delete_session hashed db)
          else if truthy (sn_family_id s) \<and> family_revoked (the (sn_family_id s)) db
          then (None, log_auth cfg ''access_token_rejected'' (Some (sn_email s)) None
                        (Some [(''family_id'', JStr (the (sn_family_id s))), (''reason'', JStr ''family_revoked'')])
                        (delete_session hashed db))
          else (map_option user_orm_to_pydantic (get_by_email (sn_email s) db), db))"

text \<open>
  \<open>_refresh_with_db\<close>, after the session was found and the lock was checked: the migration of a session without family,
  and the rotation.  \<open>family\<close> is the row that \<open>increment_sequence\<close> updates, so the new session is numbered by the
  incremented value plus one.
\<close>

definition migrate_session :: "auth_cfg \<Rightarrow> session_row \<Rightarrow> auth_db \<Rightarrow> (session_row, auth_db) outcome" where
  "migrate_session cfg s db =
     (case sn_family_id s of
        Some _ \<Rightarrow> (Inr s, db)
      | None \<Rightarrow>
          (case draw cfg db of (f, db1) \<Rightarrow>
           case create_family cfg (''fam_'' @ f) (sn_email s) db1 of
             (Inl e, db2) \<Rightarrow> (Inl e, db2)
           | (Inr _, db2) \<Rightarrow>
               (let s' = s\<lparr>sn_family_id := Some (''fam_'' @ f), sn_sequence := 0\<rparr> in
                (Inr s', db2\<lparr>sessions := update_first (\<lambda>x. sn_access_token x = sn_access_token s) (\<lambda>_. s') (sessions db2)\<rparr>))))"

definition rotate_session ::
  "auth_cfg \<Rightarrow> session_row \<Rightarrow> str \<Rightarrow> auth_db \<Rightarrow> (auth_session_response, auth_db) outcome" where
  "rotate_session cfg s family_id db =
     (let db1 = delete_session (sn_access_token s) (increment_sequence (now (ac_env cfg)) family_id db) in
      case get_by_email (sn_email s) db1 of
        None \<Rightarrow> (Inl ValueError, db1)
      | Some u \<Rightarrow>
          (case draw cfg db1 of (a, db2) \<Rightarrow>
           case draw cfg db2 of (r, db3) \<Rightarrow>
           case get_family family_id db3 of
             None \<Rightarrow> (Inl AttributeError, db3)
           | Some family \<Rightarrow>
               (case create_session cfg (hash_token cfg (''atk_'' @ a)) (hash_token cfg (''rtk_'' @ r)) (sn_email s) family_id
                       (tf_current_sequence family + 1) (session_expiry cfg) db3 of
                  (Inl e, db4) \<Rightarrow> (Inl e, db4)
                | (Inr _, db4) \<Rightarrow> (Inl AttributeError, db4))))"

definition refresh_with_db :: "auth_cfg \<Rightarrow> str \<Rightarrow> auth_db \<Rightarrow> (auth_session_response, auth_db) outcome" where
  "refresh_with_db cfg refresh_token db =
     (case get_session_by_refresh_token (hash_token cfg refresh_token) db of
        None \<Rightarrow> (Inl ValueError, db)
      | Some s0 \<Rightarrow>
          if is_account_locked (now (ac_env cfg)) (sn_email s0) db
          then (Inl ValueError,
                log_auth cfg ''refresh_failed_locked'' (Some (sn_email s0)) None (Some [(''reason'', JStr ''account_locked'')]) db)
          else
            (case migrate_session cfg s0 db of
               (Inl e, db1) \<Rightarrow> (Inl e, db1)
             | (Inr s, db1) \<Rightarrow>
                 (let family_id = the (sn_family_id s); stored_user = get_by_email (sn_email s) db1 in
                  case get_family family_id db1 of
                    None \<Rightarrow> (Inl ValueError, db1)
                  | Some family \<Rightarrow>
                      if tf_compromised family
                      then (case stored_user of
                              Some _ \<Rightarrow> (Inl AttributeError, db1)
                            | None \<Rightarrow> (Inl ValueError, log_auth cfg ''refresh_failed_compromised'' (Some (sn_email s)) None
                                 (Some [(''family_id'', JStr family_id), (''reason'', JStr ''compromised_family'')]) db1))
                      else if sn_sequence s < tf_current_sequence family
                      then (let db2 = snd (delete_sessions_by_family family_id (compromise_family (now (ac_env cfg)) family_id db1)) in
                            case stored_user of
                              Some _ \<Rightarrow> (Inl AttributeError, db2)
                            | None \<Rightarrow> (Inl ValueError, log_auth cfg ''refresh_token_reuse'' (Some (sn_email s)) None
                                 (Some [(''family_id'', JStr family_id), (''sequence'', JInt (sn_sequence s)),
                                        (''expected'', JInt (tf_current_sequence family)), (''reason'', JStr ''token_replay_detected'')]) db2))
                      else rotate_session cfg s family_id db1)))"

definition logout_with_db :: "auth_cfg \<Rightarrow> str \<Rightarrow> auth_db \<Rightarrow> auth_db" where
  "logout_with_db cfg token db =
     (case get_session (hash_token cfg token) db of
        None \<Rightarrow> db
      | Some s \<Rightarrow> log_auth cfg ''logout'' (Some (sn_email s)) None None (delete_session (hash_token cfg token) db))"

definition logout_all_sessions :: "auth_cfg \<Rightarrow> str \<Rightarrow> auth_db \<Rightarrow> nat \<times> auth_db" where
  "logout_all_sessions cfg email db =
     (case delete_sessions_by_email email db of (n, db1) \<Rightarrow>
        (n, log_auth cfg ''logout_all_sessions'' (Some email) None (Some [(''sessions_invalidated'', JInt (int n))])
              (delete_families_by_email email db1)))"

record session_info =
  si_access_token_preview :: "str option"
  si_refresh_token_preview :: "str option"
  si_email :: str
  si_expires_at :: time
  si_created_at :: time
  si_is_active :: bool

definition token_preview :: "str \<Rightarrow> str option" where
  "token_preview t = (if t = [] then None else Some (take 12 t @ ''...''))"

definition get_user_sessions :: "auth_cfg \<Rightarrow> str \<Rightarrow> auth_db \<Rightarrow> session_info list" where
  "get_user_sessions cfg email db =
     map (\<lambda>s. \<lparr>si_access_token_preview = token_preview (sn_access_token s), si_refresh_token_preview = token_preview (sn_refresh_token s),
               si_email = sn_email s, si_expires_at = sn_expires_at s, si_created_at = sn_created_at s,
               si_is_active = (\<not> now (ac_env cfg) > sn_expires_at s)\<rparr>) (list_sessions_by_email email db)"

definition get_session_inventory :: "auth_cfg \<Rightarrow> str \<Rightarrow> nat \<Rightarrow> nat \<Rightarrow> auth_db \<Rightarrow> session_info list \<times> nat \<times> nat" where
  "get_session_inventory cfg email limit offset db =
     (let all_sessions = get_user_sessions cfg email db; page = take limit (drop offset all_sessions) in
      (page, length all_sessions, length (filter si_is_active page)))"

text \<open>\<open>erase_user_data\<close>.\<close>

definition erase_user_data :: "auth_cfg \<Rightarrow> user_row \<Rightarrow> auth_db \<Rightarrow> (str, auth_db) outcome" where
  "erase_user_data cfg u db =
     (case draw cfg db of (job_id, db1) \<Rightarrow>
        (let db2 = delete_families_by_email (u_email u) (snd (delete_sessions_by_email (u_email u) db1));
             email = ''erased-'' @ u_id u @ ''@deleted.local'';
             erased = (\<lambda>x. x\<lparr>u_email := email, u_full_name := Some (''Erased User '' @ take 8 (u_id u)), u_hashed_password := [],
                            u_stellar_wallet := None, u_locked_until := Some (now (ac_env cfg))\<rparr>) in
         if list_ex (\<lambda>x. u_email x = email \<and> u_id x \<noteq> u_id u) (users db2) then (Inl IntegrityError, db2)
         else (Inr job_id,
               log_auth cfg ''gdpr_erase'' (Some (u_email u)) (Some (u_id u))
                 (Some [(''job_id'', JStr job_id), (''action'', JStr ''soft_delete'')])
                 (db2\<lparr>users := update_first (\<lambda>x. u_id x = u_id u) erased (users db2)\<rparr>))))"

section \<open>Revocation list\<close>

text \<open>Redis keys with their expiry; \<open>up\<close> says whether Redis answers.  A failing read counts as not revoked.\<close>

type_synonym revocations = "(str \<times> time) list"

definition revoke_hash :: "bool \<Rightarrow> time \<Rightarrow> time \<Rightarrow> str \<Rightarrow> revocations \<Rightarrow> revocations" where
  "revoke_hash up t ttl h rv = (if up then AList.update h (t + ttl) rv else rv)"

definition is_revoked :: "bool \<Rightarrow> time \<Rightarrow> str \<Rightarrow> revocations \<Rightarrow> bool" where
  "is_revoked up t h rv \<longleftrightarrow> up \<and> (case map_of rv h of None \<Rightarrow> False | Some expiry \<Rightarrow> t < expiry)"

section \<open>The bearer check\<close>

definition bearer_prefix :: str where "bearer_prefix = ''Bearer ''"

definition extract_bearer_token :: "str option \<Rightarrow> exn + str" where
  "extract_bearer_token authorization =
     (if \<not> truthy authorization then Inl (HTTPError 401)
      else if take (length bearer_prefix) (the authorization) \<noteq> bearer_prefix then Inl (HTTPError 401)
      else Inr (drop (length bearer_prefix) (the authorization)))"

text \<open>The claims of a JWT that the library decoded and verified (signature, expiry, required claims), if it did.\<close>

record jwt_claims =
  jc_sub :: "str option"
  jc_scope :: str

definition verify_impersonation_token :: "(str \<Rightarrow> jwt_claims option) \<Rightarrow> str \<Rightarrow> jwt_claims option" where
  "verify_impersonation_token decode token =
     (case decode token of None \<Rightarrow> None | Some c \<Rightarrow> if jc_scope c \<noteq> ''impersonate'' then None else Some c)"

definition impersonated_user :: "(str \<Rightarrow> jwt_claims option) \<Rightarrow> str \<Rightarrow> auth_db \<Rightarrow> user_row option" where
  "impersonated_user decode token db =
     (case verify_impersonation_token decode token of
        None \<Rightarrow> None
      | Some c \<Rightarrow> if truthy (jc_sub c) then get_by_id (the (jc_sub c)) db else None)"

definition get_current_user ::
  "auth_cfg \<Rightarrow> (str \<Rightarrow> jwt_claims option) \<Rightarrow> bool \<Rightarrow> revocations \<Rightarrow> str option \<Rightarrow> auth_db \<Rightarrow> (auth_user, auth_db) outcome" where
  "get_current_user cfg decode up rv authorization db =
     (case extract_bearer_token authorization of
        Inl e \<Rightarrow> (Inl e, db)
      | Inr token \<Rightarrow>
          (case impersonated_user decode token db of
             Some u \<Rightarrow> (Inr (user_orm_to_pydantic u), db)
           | None \<Rightarrow>
               if is_revoked up (now (ac_env cfg)) (hash_token cfg token) rv then (Inl (HTTPError 401), db)
               else (case get_user_for_token cfg token db of
                       (None, db1) \<Rightarrow> (Inl (HTTPError 401), db1)
                     | (Some u, db1) \<Rightarrow> (Inr u, db1))))"

definition require_role :: "role \<Rightarrow> auth_user \<Rightarrow> exn + auth_user" where
  "require_role required u = (if au_role u \<noteq> required then Inl (HTTPError 403) else Inr u)"

section \<open>Credential stuffing\<close>

record stuffing_settings =
  sf_pair_threshold :: nat
  sf_account_threshold :: nat
  sf_window :: time
  sf_rate_window :: time
  sf_lockout_minutes :: int
  sf_multiplier :: int
  sf_max_minutes :: int

definition bounded_ip :: "(str \<Rightarrow> str) \<Rightarrow> str \<Rightarrow> str" where
  "bounded_ip digest ip = (if length ip \<le> 64 then ip else digest ip)"

definition normalize_account :: "str \<Rightarrow> str" where
  "normalize_account account = py_lower (py_strip account)"

definition account_hash :: "(str \<Rightarrow> str) \<Rightarrow> str \<Rightarrow> str" where
  "account_hash digest account = digest (normalize_account account)"

definition ip_key :: "(str \<Rightarrow> str) \<Rightarrow> str \<Rightarrow> str" where
  "ip_key digest ip = ''cred_stuffing:ip:'' @ bounded_ip digest ip"

definition pair_key :: "(str \<Rightarrow> str) \<Rightarrow> str \<Rightarrow> str \<Rightarrow> str" where
  "pair_key digest ip account = ''cred_stuffing:pair:'' @ bounded_ip digest ip @ '':'' @ account_hash digest account"

definition account_key :: "(str \<Rightarrow> str) \<Rightarrow> str \<Rightarrow> str" where
  "account_key digest account = ''cred_stuffing:account:'' @ account_hash digest account"

definition add_member :: "time \<Rightarrow> time \<Rightarrow> str \<times> str \<Rightarrow> zsets \<Rightarrow> zsets" where
  "add_member window t entry db =
     (case entry of (key, member) \<Rightarrow>
        AList.update key
          \<lparr>z_members = filter (\<lambda>(s, m). \<not> s \<le> t - window) (zadd t member (live_zset t key db)), z_expires = t + (window + 60)\<rparr> db)"

definition attempt_entries :: "(str \<Rightarrow> str) \<Rightarrow> str \<Rightarrow> str \<Rightarrow> str \<Rightarrow> (str \<times> str) list" where
  "attempt_entries digest ip password account =
     (let prefix = take 4 password in
      (ip_key digest ip, if account \<noteq> [] then account_hash digest account @ '':'' @ prefix else prefix) #
      (if account \<noteq> []
       then [(pair_key digest ip account, prefix), (account_key digest account, bounded_ip digest ip @ '':'' @ prefix)]
       else []))"

definition record_attempt ::
  "stuffing_settings \<Rightarrow> (str \<Rightarrow> str) \<Rightarrow> bool \<Rightarrow> time \<Rightarrow> str \<Rightarrow> str \<Rightarrow> str \<Rightarrow> zsets \<times> attempt_row list \<Rightarrow> zsets \<times> attempt_row list" where
  "record_attempt sf digest up t ip password account st =
     (case st of (redis, ledger) \<Rightarrow>
        (if up then fold (add_member (sf_window sf) t) (attempt_entries digest ip password account) redis else redis,
         record_credential_prefix digest (sf_pair_threshold sf + 1) (sf_rate_window sf) (sf_window sf) t
           (if normalize_account account \<noteq> [] then normalize_account account else ip) password ledger))"

text \<open>\<open>_count\<close>: the members left inside the window; a failing Redis counts zero.\<close>

definition count_members :: "stuffing_settings \<Rightarrow> bool \<Rightarrow> time \<Rightarrow> str \<Rightarrow> zsets \<Rightarrow> nat" where
  "count_members sf up t key redis =
     (if up then length (remdups (map snd (filter (\<lambda>(s, m). t - sf_window sf \<le> s)
        (filter (\<lambda>(s, m). \<not> s \<le> t - sf_window sf) (live_zset t key redis))))) else 0)"

definition detect_stuffing :: "stuffing_settings \<Rightarrow> (str \<Rightarrow> str) \<Rightarrow> bool \<Rightarrow> time \<Rightarrow> str \<Rightarrow> str \<Rightarrow> zsets \<Rightarrow> bool" where
  "detect_stuffing sf digest up t ip account redis \<longleftrightarrow>
     count_members sf up t (if account \<noteq> [] then pair_key digest ip account else ip_key digest ip) redis \<ge> sf_pair_threshold sf"

definition is_ip_flagged :: "stuffing_settings \<Rightarrow> (str \<Rightarrow> str) \<Rightarrow> bool \<Rightarrow> time \<Rightarrow> str \<Rightarrow> zsets \<Rightarrow> bool" where
  "is_ip_flagged sf digest up t ip redis \<longleftrightarrow> count_members sf up t (ip_key digest ip) redis \<ge> sf_pair_threshold sf"

definition is_account_sprayed :: "stuffing_settings \<Rightarrow> (str \<Rightarrow> str) \<Rightarrow> bool \<Rightarrow> time \<Rightarrow> str \<Rightarrow> zsets \<Rightarrow> bool" where
  "is_account_sprayed sf digest up t account redis \<longleftrightarrow>
     account \<noteq> [] \<and> count_members sf up t (account_key digest account) redis \<ge> sf_account_threshold sf"

definition lockout_minutes :: "stuffing_settings \<Rightarrow> int" where
  "lockout_minutes sf = max 1 (min (sf_lockout_minutes sf * sf_multiplier sf) (sf_max_minutes sf))"

section \<open>Handlers\<close>

text \<open>The forwarding header is split at commas; entries are trimmed.\<close>

fun split_commas :: "string \<Rightarrow> string list" where
  "split_commas [] = [[]]"
| "split_commas (c # cs) =
     (if c = CHR '','' then [] # split_commas cs
      else (case split_commas cs of [] \<Rightarrow> [[c]] | p # ps \<Rightarrow> (c # p) # ps))"

definition get_client_ip :: "nat \<Rightarrow> str \<Rightarrow> str option \<Rightarrow> str" where
  "get_client_ip trusted forwarded client_host =
     (if trusted > 0 \<and> forwarded \<noteq> []
      then (let parts = map py_strip (split_commas forwarded) in parts ! (length parts - trusted))
      else (case client_host of None \<Rightarrow> ''unknown'' | Some h \<Rightarrow> h))"

text \<open>\<open>return user\<close> names a variable the handler never binds.\<close>

definition register :: "auth_cfg \<Rightarrow> bool \<Rightarrow> str \<Rightarrow> str \<Rightarrow> str \<Rightarrow> auth_db \<Rightarrow> (auth_user, auth_db) outcome" where
  "register cfg allowed email password full_name db =
     (if \<not> allowed then (Inl (HTTPError 429), db)
      else (case register_with_db cfg email password full_name db of
              (Inl ValueError, db1) \<Rightarrow> (Inl (HTTPError 400), db1)
            | (Inl _, db1) \<Rightarrow> (Inl (HTTPError 500), db1)
            | (Inr _, db1) \<Rightarrow> (Inl NameError, db1)))"

record login_state =
  ls_db :: auth_db
  ls_redis :: zsets
  ls_ledger :: "attempt_row list"

record login_env =
  le_cfg :: auth_cfg
  le_stuffing :: stuffing_settings
  le_redis_up :: bool
  le_clock :: time
  le_ledger_allows :: bool
  le_memory_allows :: bool

definition suspicious :: "login_env \<Rightarrow> (str \<times> json) list \<Rightarrow> login_state \<Rightarrow> login_state" where
  "suspicious le details ls = ls\<lparr>ls_db := log_auth (le_cfg le) ''suspicious_login_activity'' None None (Some details) (ls_db ls)\<rparr>"

definition enforce_login_rate_limits :: "login_env \<Rightarrow> str \<Rightarrow> str \<Rightarrow> str \<Rightarrow> login_state \<Rightarrow> (unit, login_state) outcome" where
  "enforce_login_rate_limits le email password client_ip ls =
     (let sf = le_stuffing le; digest = hash_token (le_cfg le); up = le_redis_up le; t = le_clock le in
      case record_attempt sf digest up t client_ip password email (ls_redis ls, ls_ledger ls) of (redis, ledger) \<Rightarrow>
        (let ls1 = ls\<lparr>ls_redis := redis, ls_ledger := ledger\<rparr>;
             action = JStr (''account_locked_'' @ py_str_int (lockout_minutes sf) @ ''_minutes'') in
         if detect_stuffing sf digest up t client_ip email redis
         then (case get_credential_prefix_count digest (sf_window sf) (sf_rate_window sf) (sf_window sf) t
                     (if normalize_account email \<noteq> [] then normalize_account email else client_ip) ledger of (n, ledger1) \<Rightarrow>
                 (Inl (HTTPError 429),
                  suspicious le [(''ip'', JStr client_ip),
                     (''unique_prefix_count'', JInt (int (max n (count_members sf up t (ip_key digest client_ip) redis)))),
                     (''action'', action)] (ls1\<lparr>ls_ledger := ledger1\<rparr>)))
         else if is_account_sprayed sf digest up t email redis
         then (Inr (), suspicious le [(''scope'', JStr ''account''),
                 (''unique_prefix_count'', JInt (int (if email = [] then 0 else count_members sf up t (account_key digest email) redis))),
                 (''action'', action)] ls1)
         else (Inr (), ls1)))"

definition login :: "login_env \<Rightarrow> str \<Rightarrow> str \<Rightarrow> str \<Rightarrow> login_state \<Rightarrow> (auth_session_response, login_state) outcome" where
  "login le email password client_ip ls =
     (case enforce_login_rate_limits le email password client_ip ls of
        (Inl e, ls1) \<Rightarrow> (Inl e, ls1)
      | (Inr _, ls1) \<Rightarrow>
          if \<not> le_ledger_allows le then (Inl (HTTPError 429), ls1)
          else
            (let sf = le_stuffing le; digest = hash_token (le_cfg le); up = le_redis_up le; t = le_clock le;
                 ls2 = (if is_ip_flagged sf digest up t client_ip (ls_redis ls1)
                        then suspicious le [(''ip'', JStr client_ip), (''scope'', JStr ''ip''),
                               (''unique_prefix_count'', JInt (int (count_members sf up t (ip_key digest client_ip) (ls_redis ls1)))),
                               (''action'', JStr ''ip_flagged'')] ls1
                        else ls1) in
             if \<not> le_memory_allows le then (Inl (HTTPError 429), ls2)
             else (case login_with_db (le_cfg le) email password (ls_db ls2) of
                     (Inl ValueError, db) \<Rightarrow> (Inl (HTTPError 401), ls2\<lparr>ls_db := db\<rparr>)
                   | (r, db) \<Rightarrow> (r, ls2\<lparr>ls_db := db\<rparr>))))"

definition refresh :: "auth_cfg \<Rightarrow> bool \<Rightarrow> str \<Rightarrow> auth_db \<Rightarrow> (auth_session_response, auth_db) outcome" where
  "refresh cfg allowed refresh_token db =
     (if \<not> allowed then (Inl (HTTPError 429), db)
      else (case refresh_with_db cfg refresh_token db of
              (Inl ValueError, db1) \<Rightarrow> (Inl (HTTPError 401), db1)
            | (Inl _, db1) \<Rightarrow> (Inl (HTTPError 500), db1)
            | (Inr r, db1) \<Rightarrow> (Inr r, db1)))"

definition update_profile ::
  "auth_cfg \<Rightarrow> bool \<Rightarrow> (str \<Rightarrow> bool) \<Rightarrow> auth_user \<Rightarrow> str option \<Rightarrow> str option \<Rightarrow> auth_db \<Rightarrow> (auth_user, auth_db) outcome" where
  "update_profile cfg allowed wallet_valid current_user full_name stellar_wallet db =
     (if \<not> allowed then (Inl (HTTPError 429), db)
      else if full_name = None \<and> stellar_wallet = None then (Inl (HTTPError 400), db)
      else if (case stellar_wallet of None \<Rightarrow> False | Some w \<Rightarrow> \<not> wallet_valid w) then (Inl (HTTPError 422), db)
      else (case update_profile_row (au_id current_user) full_name stellar_wallet db of
              (None, db1) \<Rightarrow> (Inl (HTTPError 404), db1)
            | (Some u, db1) \<Rightarrow>
                (Inr (user_orm_to_pydantic u),
                 log_auth cfg ''profile_updated'' (Some (au_email current_user)) None
                   (Some [(''changed_fields'', JList ((if full_name = None then [] else [JStr ''full_name'']) @
                                                    (if stellar_wallet = None then [] else [JStr ''stellar_wallet''])))]) db1)))"

definition logout :: "auth_cfg \<Rightarrow> str option \<Rightarrow> auth_db \<Rightarrow> (unit, auth_db) outcome" where
  "logout cfg authorization db =
     (case extract_bearer_token authorization of Inl e \<Rightarrow> (Inl e, db) | Inr token \<Rightarrow> (Inr (), logout_with_db cfg token db))"

definition erase_my_data :: "auth_cfg \<Rightarrow> auth_user \<Rightarrow> auth_db \<Rightarrow> (str, auth_db) outcome" where
  "erase_my_data cfg current_user db =
     (case get_by_id (au_id current_user) db of
        None \<Rightarrow> (Inl (HTTPError 404), db)
      | Some u \<Rightarrow> (case erase_user_data cfg u db of (Inl _, db1) \<Rightarrow> (Inl (HTTPError 500), db1) | (Inr r, db1) \<Rightarrow> (Inr r, db1)))"

definition user_id_ok :: "str \<Rightarrow> bool" where
  "user_id_ok = match_dollar (\<lambda>k. k \<noteq> [] \<and> list_all (\<lambda>c. is_alnum c \<or> c = CHR ''_'' \<or> c = CHR ''-'') k)"

definition impersonate_user ::
  "auth_cfg \<Rightarrow> bool \<Rightarrow> (user_row \<Rightarrow> auth_user \<Rightarrow> str) \<Rightarrow> auth_user \<Rightarrow> str \<Rightarrow> str \<Rightarrow> auth_db \<Rightarrow> (str \<times> str, auth_db) outcome" where
  "impersonate_user cfg allowed generate admin_user user_id reason db =
     (if \<not> allowed then (Inl (HTTPError 429), db)
      else if \<not> user_id_ok user_id then (Inl (HTTPError 422), db)
      else (case get_by_id user_id db of
              None \<Rightarrow> (Inl (HTTPError 404), db)
            | Some target \<Rightarrow>
                if u_role target = Admin then (Inl (HTTPError 403), db)
                else (Inr (generate target admin_user, u_id target),
                      log_auth cfg ''impersonation_started'' (Some (au_email admin_user)) (Some (au_id admin_user))
                        (Some [(''target_user_id'', JStr (u_id target)), (''target_email'', JStr (u_email target)), (''reason'', JStr reason)]) db)))"

definition revoke_token ::
  "auth_cfg \<Rightarrow> bool \<Rightarrow> str option \<Rightarrow> auth_user \<Rightarrow> auth_db \<times> revocations \<Rightarrow> (unit, auth_db \<times> revocations) outcome" where
  "revoke_token cfg up authorization current_user st =
     (case extract_bearer_token authorization of
        Inl _ \<Rightarrow> (Inl (HTTPError 500), st)
      | Inr token \<Rightarrow>
          (Inr (), (log_auth cfg ''token_revoked'' (Some (au_email current_user)) (Some (au_id current_user)) None (fst st),
                    revoke_hash up (now (ac_env cfg)) (TOKEN_TTL_SECONDS * ac_second cfg) (hash_token cfg token) (snd st))))"

end
