(* ===== verification/Auth_Sessions.thy ===== *)
theory Auth_Sessions
  imports Auth
begin

text \<open>
  What the session store guarantees.  The tables of sessions and families together with the counter of drawn identifiers
  form an abstract machine, \<open>token_move\<close>, with the invariant \<open>token_ok\<close>; every request of \<^verbatim>\<open>auth_store.py\<close>, the
  clean-up task and erasure are sequences of its moves (\<open>auth_step_moves\<close>).  Then lockout, and what the handlers answer.
\<close>

section \<open>The abstract token machine\<close>

type_synonym token_view = "session_row list \<times> family_row list \<times> nat"

definition view :: "auth_db \<Rightarrow> token_view" where
  "view db = (sessions db, families db, uuid_count db)"

definition issued :: "(str \<Rightarrow> str) \<Rightarrow> (nat \<Rightarrow> str) \<Rightarrow> nat \<Rightarrow> nat \<Rightarrow> str \<Rightarrow> bool" where
  "issued H U lo hi h \<longleftrightarrow> (\<exists>m. lo \<le> m \<and> m < hi \<and> h = H (''atk_'' @ U m))"

definition new_family :: "str \<Rightarrow> str \<Rightarrow> family_row \<Rightarrow> bool" where
  "new_family k email fr \<longleftrightarrow> tf_family_id fr = k \<and> tf_email fr = email \<and> tf_current_sequence fr = 0 \<and> \<not> tf_compromised fr"

inductive token_move :: "(str \<Rightarrow> str) \<Rightarrow> (nat \<Rightarrow> str) \<Rightarrow> token_view \<Rightarrow> token_view \<Rightarrow> bool" for H U where
  idle: "n \<le> n' \<Longrightarrow> token_move H U (ss, fs, n) (ss, fs, n')"
| dropped: "subseq ss' ss \<Longrightarrow> token_move H U (ss, fs, n) (ss', fs, n)"
| forgotten: "\<forall>s \<in> set ss. sn_email s \<noteq> e \<Longrightarrow> token_move H U (ss, fs, n) (ss, filter (\<lambda>f. tf_email f \<noteq> e) fs, n)"
| reaped: "subseq fs' fs \<Longrightarrow> \<forall>f \<in> set fs. Some (tf_family_id f) \<in> sn_family_id ` set ss \<longrightarrow> f \<in> set fs' \<Longrightarrow>
    token_move H U (ss, fs, n) (ss, fs', n)"
| opened: "k \<notin> tf_family_id ` set fs \<Longrightarrow> new_family k e fr \<Longrightarrow> token_move H U (ss, fs, n) (ss, fs @ [fr], n)"
| logged_in: "k \<notin> tf_family_id ` set fs \<Longrightarrow> new_family k e fr \<Longrightarrow> sn_email s = e \<Longrightarrow> sn_family_id s = Some k \<Longrightarrow>
    sn_sequence s = 0 \<Longrightarrow> sn_access_token s \<notin> sn_access_token ` set ss \<Longrightarrow> issued H U n n' (sn_access_token s) \<Longrightarrow> n \<le> n' \<Longrightarrow>
    token_move H U (ss, fs, n) (ss @ [s], fs @ [fr], n')"
| migrated: "find (\<lambda>x. sn_refresh_token x = h) ss = Some s \<Longrightarrow> sn_family_id s = None \<Longrightarrow> k \<notin> tf_family_id ` set fs \<Longrightarrow>
    new_family k (sn_email s) fr \<Longrightarrow>
    token_move H U (ss, fs, n)
      (update_first (\<lambda>x. sn_access_token x = sn_access_token s) (\<lambda>_. s\<lparr>sn_family_id := Some k, sn_sequence := 0\<rparr>) ss, fs @ [fr], n)"
| bumped: "s \<in> set ss \<Longrightarrow> sn_family_id s = Some k \<Longrightarrow>
    token_move H U (ss, fs, n)
      (delete_first (\<lambda>x. sn_access_token x = sn_access_token s) ss,
       update_first (\<lambda>f. tf_family_id f = k) (\<lambda>f. f\<lparr>tf_current_sequence := tf_current_sequence f + 1, tf_updated_at := t\<rparr>) fs, n)"
| rotated: "s \<in> set ss \<Longrightarrow> sn_family_id s = Some k \<Longrightarrow> find (\<lambda>f. tf_family_id f = k) fs = Some fr \<Longrightarrow>
    sn_email s' = sn_email s \<Longrightarrow> sn_family_id s' = Some k \<Longrightarrow> sn_sequence s' = tf_current_sequence fr + 2 \<Longrightarrow>
    sn_access_token s' \<notin> sn_access_token ` set (delete_first (\<lambda>x. sn_access_token x = sn_access_token s) ss) \<Longrightarrow>
    issued H U n n' (sn_access_token s') \<Longrightarrow> n \<le> n' \<Longrightarrow>
    token_move H U (ss, fs, n)
      (delete_first (\<lambda>x. sn_access_token x = sn_access_token s) ss @ [s'],
       update_first (\<lambda>f. tf_family_id f = k) (\<lambda>f. f\<lparr>tf_current_sequence := tf_current_sequence f + 1, tf_updated_at := t\<rparr>) fs, n')"
| reused: "s \<in> set ss \<Longrightarrow> sn_family_id s = Some k \<Longrightarrow> fr \<in> set fs \<Longrightarrow> tf_family_id fr = k \<Longrightarrow> sn_sequence s < tf_current_sequence fr \<Longrightarrow>
    token_move H U (ss, fs, n)
      (filter (\<lambda>x. sn_family_id x \<noteq> Some k) ss,
       update_first (\<lambda>f. tf_family_id f = k) (\<lambda>f. f\<lparr>tf_compromised := True, tf_updated_at := t\<rparr>) fs, n)"

text \<open>
  The invariant: families have distinct ids and none is compromised, a family has at most one session, access tokens are
  distinct and were issued, and a session's family exists, belongs to the same account and is not ahead of the session.
\<close>

definition token_ok :: "(str \<Rightarrow> str) \<Rightarrow> (nat \<Rightarrow> str) \<Rightarrow> token_view \<Rightarrow> bool" where
  "token_ok H U v \<longleftrightarrow>
     (case v of (ss, fs, n) \<Rightarrow>
        distinct (map tf_family_id fs) \<and> (\<forall>f \<in> set fs. \<not> tf_compromised f) \<and>
        unique_key sn_family_id ss \<and> distinct (map sn_access_token ss) \<and>
        (\<forall>s \<in> set ss. issued H U 0 n (sn_access_token s) \<and>
           (\<forall>k. sn_family_id s = Some k \<longrightarrow>
              (\<exists>f \<in> set fs. tf_family_id f = k \<and> tf_email f = sn_email s \<and> tf_current_sequence f \<le> sn_sequence s))))"

lemma issued_mono: "issued H U lo hi h \<Longrightarrow> lo' \<le> lo \<Longrightarrow> hi \<le> hi' \<Longrightarrow> issued H U lo' hi' h"
  unfolding issued_def by (elim exE conjE, rule_tac x = m in exI) auto

lemma subseq_set: "subseq xs ys \<Longrightarrow> x \<in> set xs \<Longrightarrow> x \<in> set ys"
  by (induction rule: list_emb.induct) auto

lemma subseq_distinct: "subseq xs ys \<Longrightarrow> distinct ys \<Longrightarrow> distinct xs"
  by (induction rule: list_emb.induct) (auto dest: subseq_set)

lemma unique_key_subseq: "subseq xs ys \<Longrightarrow> unique_key key ys \<Longrightarrow> unique_key key xs"
  unfolding unique_key_def by (rule subseq_distinct [OF subseq_filter [OF subseq_map]])

lemma distinct_map_subseq: "subseq xs ys \<Longrightarrow> distinct (map g ys) \<Longrightarrow> distinct (map g xs)"
  by (rule subseq_distinct) (auto intro: subseq_map)

lemma subseq_delete_first: "subseq (delete_first P rs) rs"
  by (induction rs) auto

lemma delete_first_absent:
  "distinct (map g rs) \<Longrightarrow> s \<in> set (delete_first (\<lambda>x. g x = g r) rs) \<Longrightarrow> g s \<noteq> g r"
  by (induction rs) (auto split: if_splits, metis image_eqI)

lemma token_okI:
  assumes "distinct (map tf_family_id fs)" "\<forall>f \<in> set fs. \<not> tf_compromised f" "unique_key sn_family_id ss"
    "distinct (map sn_access_token ss)" "\<And>s. s \<in> set ss \<Longrightarrow> issued H U 0 n (sn_access_token s)"
    "\<And>s k. s \<in> set ss \<Longrightarrow> sn_family_id s = Some k \<Longrightarrow>
       \<exists>f \<in> set fs. tf_family_id f = k \<and> tf_email f = sn_email s \<and> tf_current_sequence f \<le> sn_sequence s"
  shows "token_ok H U (ss, fs, n)"
  using assms by (auto simp: token_ok_def)

lemma token_okD:
  assumes "token_ok H U (ss, fs, n)"
  shows "distinct (map tf_family_id fs)" "\<forall>f \<in> set fs. \<not> tf_compromised f" "unique_key sn_family_id ss"
    "distinct (map sn_access_token ss)" "\<And>s. s \<in> set ss \<Longrightarrow> issued H U 0 n (sn_access_token s)"
    "\<And>s k. s \<in> set ss \<Longrightarrow> sn_family_id s = Some k \<Longrightarrow>
       \<exists>f \<in> set fs. tf_family_id f = k \<and> tf_email f = sn_email s \<and> tf_current_sequence f \<le> sn_sequence s"
  using assms by (auto simp: token_ok_def)

text \<open>Adding a family, and removing sessions, keep the invariant.\<close>

lemma token_ok_open:
  "token_ok H U (ss, fs, n) \<Longrightarrow> k \<notin> tf_family_id ` set fs \<Longrightarrow> new_family k e fr \<Longrightarrow> token_ok H U (ss, fs @ [fr], n)"
  by (auto simp: token_ok_def new_family_def)

lemma token_ok_drop: "token_ok H U (ss, fs, n) \<Longrightarrow> subseq ss' ss \<Longrightarrow> token_ok H U (ss', fs, n)"
  by (rule token_okI) (auto dest: token_okD unique_key_subseq distinct_map_subseq subseq_set simp: token_ok_def)

lemma unique_family:
  assumes "unique_key sn_family_id ss" "s \<in> set ss" "s' \<in> set ss" "sn_family_id s = Some k" "sn_family_id s' = Some k"
  shows "s' = s"
  using unique_key_eq [OF assms(1,2,3)] assms(4,5) by simp

lemma family_bump:
  assumes "f \<in> set fs" "tf_family_id f \<noteq> k"
  shows "f \<in> set (update_first (\<lambda>f. tf_family_id f = k) g fs)"
  using assms by (induction fs) auto

lemma bump_keeps:
  fixes t :: time
  assumes ok: "token_ok H U (ss, fs, n)" and s: "s \<in> set ss" "sn_family_id s = Some k"
  defines "ss' \<equiv> delete_first (\<lambda>x. sn_access_token x = sn_access_token s) ss"
  defines "fs' \<equiv> update_first (\<lambda>f. tf_family_id f = k) (\<lambda>f. f\<lparr>tf_current_sequence := tf_current_sequence f + 1, tf_updated_at := t\<rparr>) fs"
  shows "token_ok H U (ss', fs', n)" "\<forall>x \<in> set ss'. sn_family_id x \<noteq> Some k"
proof -
  note D = token_okD [OF ok]
  have sub: "subseq ss' ss" unfolding ss'_def by (rule subseq_delete_first)
  have other: "sn_access_token x \<noteq> sn_access_token s" if "x \<in> set ss'" for x
    using delete_first_absent [OF D(4)] that by (auto simp: ss'_def)
  show none: "\<forall>x \<in> set ss'. sn_family_id x \<noteq> Some k"
    using unique_family [OF D(3) s(1) _ s(2)] subseq_set [OF sub] other by blast
  show "token_ok H U (ss', fs', n)"
  proof (rule token_okI)
    show "distinct (map tf_family_id fs')" using D(1) by (simp add: fs'_def map_update_first_key)
    show "\<forall>f \<in> set fs'. \<not> tf_compromised f" using D(2) by (auto simp: fs'_def dest!: set_update_first)
    show "unique_key sn_family_id ss'" by (rule unique_key_subseq [OF sub D(3)])
    show "distinct (map sn_access_token ss')" by (rule distinct_map_subseq [OF sub D(4)])
    show "issued H U 0 n (sn_access_token x)" if "x \<in> set ss'" for x by (rule D(5) [OF subseq_set [OF sub that]])
    show "\<exists>f \<in> set fs'. tf_family_id f = j \<and> tf_email f = sn_email x \<and> tf_current_sequence f \<le> sn_sequence x"
      if x: "x \<in> set ss'" "sn_family_id x = Some j" for x j
    proof -
      from D(6) [OF subseq_set [OF sub x(1)] x(2)] obtain f where f: "f \<in> set fs" "tf_family_id f = j"
        "tf_email f = sn_email x" "tf_current_sequence f \<le> sn_sequence x" by blast
      from x none have "j \<noteq> k" by auto
      with f family_bump [of f fs k] show ?thesis unfolding fs'_def by blast
    qed
  qed
qed

lemma token_ok_add:
  assumes ok: "token_ok H U (ss, fs, n)" and "n \<le> n'" "issued H U n n' (sn_access_token s)"
    and "sn_access_token s \<notin> sn_access_token ` set ss" "sn_family_id s = Some k" "\<forall>x \<in> set ss. sn_family_id x \<noteq> Some k"
    and "\<exists>f \<in> set fs. tf_family_id f = k \<and> tf_email f = sn_email s \<and> tf_current_sequence f \<le> sn_sequence s"
  shows "token_ok H U (ss @ [s], fs, n')"
proof (rule token_okI)
  note D = token_okD [OF ok]
  show "unique_key sn_family_id (ss @ [s])" using D(3) assms(5,6) by (auto simp: unique_key_snoc)
  show "distinct (map sn_access_token (ss @ [s]))" using D(4) assms(4) by simp
  show "issued H U 0 n' (sn_access_token x)" if "x \<in> set (ss @ [s])" for x
    using that D(5) [of x] assms(2,3) by (auto elim: issued_mono)
  show "\<exists>f \<in> set fs. tf_family_id f = j \<and> tf_email f = sn_email x \<and> tf_current_sequence f \<le> sn_sequence x"
    if "x \<in> set (ss @ [s])" "sn_family_id x = Some j" for x j
    using that D(6) [of x j] assms(5,7) by auto
qed (use token_okD [OF ok] in auto)

lemma token_ok_migrate:
  assumes ok: "token_ok H U (ss, fs, n)" and s: "s \<in> set ss" "sn_family_id s = None"
    and k: "k \<notin> tf_family_id ` set fs" "new_family k (sn_email s) fr"
  shows "token_ok H U (update_first (\<lambda>x. sn_access_token x = sn_access_token s)
           (\<lambda>_. s\<lparr>sn_family_id := Some k, sn_sequence := 0\<rparr>) ss, fs @ [fr], n)"
proof -
  note D = token_okD [OF ok]
  let ?s = "s\<lparr>sn_family_id := Some k, sn_sequence := 0\<rparr>"
  obtain xs ys where ss: "ss = xs @ s # ys" using split_list [OF s(1)] by blast
  have "sn_access_token s \<notin> sn_access_token ` set xs" using D(4) by (simp add: ss)
  then have apart: "\<forall>x \<in> set xs. sn_access_token x \<noteq> sn_access_token s" by (metis imageI)
  have upd: "update_first (\<lambda>x. sn_access_token x = sn_access_token s) (\<lambda>_. ?s) ss = xs @ ?s # ys"
    using apart unfolding ss by (induction xs) auto
  have fresh: "sn_family_id x \<noteq> Some k" if "x \<in> set ss" for x using D(6) [OF that, of k] k(1) by auto
  have absent: "Some k \<notin> sn_family_id ` set xs" "Some k \<notin> sn_family_id ` set ys" using fresh unfolding ss by (metis Un_iff image_iff list.set_intros(2) set_append)+
  show ?thesis unfolding upd
  proof (rule token_okI)
    show "unique_key sn_family_id (xs @ ?s # ys)"
      using D(3) s(2) absent by (auto simp: unique_key_def ss)
    show "issued H U 0 n (sn_access_token x)" if "x \<in> set (xs @ ?s # ys)" for x
      using that D(5) by (auto simp: ss)
    show "\<exists>f \<in> set (fs @ [fr]). tf_family_id f = j \<and> tf_email f = sn_email x \<and> tf_current_sequence f \<le> sn_sequence x"
      if "x \<in> set (xs @ ?s # ys)" "sn_family_id x = Some j" for x j
      using that D(6) [of x j] k(2) by (auto simp: ss new_family_def)
  qed (use D(1,2,4) k in \<open>auto simp: ss new_family_def\<close>)
qed

lemma token_move_ok: "token_move H U v v' \<Longrightarrow> token_ok H U v \<Longrightarrow> token_ok H U v'"
proof (induction rule: token_move.induct)
  case (idle n n' ss fs)
  then show ?case by (auto simp: token_ok_def elim: issued_mono)
next
  case (dropped ss' ss fs n)
  then show ?case by (blast intro: token_ok_drop)
next
  case (forgotten ss e fs n)
  note D = token_okD [OF forgotten(2)]
  show ?case using D forgotten(1) by (intro token_okI) (auto simp: distinct_map_filter, metis)
next
  case (reaped fs' fs ss n)
  note D = token_okD [OF reaped(3)]
  show ?case
  proof (rule token_okI)
    show "\<exists>f \<in> set fs'. tf_family_id f = k \<and> tf_email f = sn_email s \<and> tf_current_sequence f \<le> sn_sequence s"
      if "s \<in> set ss" "sn_family_id s = Some k" for s k
      using D(6) [OF that] reaped(2) that by (metis imageI)
  qed (use D reaped(1) in \<open>auto dest: distinct_map_subseq subseq_set\<close>)
next
  case (opened k fs e fr ss n)
  then show ?case by (blast intro: token_ok_open)
next
  case (logged_in k fs e fr s ss n n')
  note D = token_okD [OF logged_in(9)]
  have "\<forall>x \<in> set ss. sn_family_id x \<noteq> Some k" using D(6) logged_in(1) by fastforce
  with token_ok_add [OF token_ok_open [OF logged_in(9,1,2)] logged_in(8,7,6,4)] logged_in(2-5) show ?case
    by (auto simp: new_family_def)
next
  case (migrated h ss s k fs fr n)
  then have "s \<in> set ss" by (auto simp: find_Some_iff)
  with migrated show ?case by (blast intro: token_ok_migrate)
next
  case (bumped s ss k fs n t)
  then show ?case by (blast intro: bump_keeps)
next
  case (rotated s ss k fs fr s' n n' t)
  note b1 = bump_keeps(1) [OF rotated(10,1,2), where t = t] and b2 = bump_keeps(2) [OF rotated(10,1,2)]
  let ?g = "\<lambda>f. f\<lparr>tf_current_sequence := tf_current_sequence f + 1, tf_updated_at := t\<rparr>"
  have "tf_family_id fr = k" "fr \<in> set fs" using rotated(3) by (auto simp: find_Some_iff)
  moreover from token_okD(6) [OF rotated(10,1,2)] obtain f where "f \<in> set fs" "tf_family_id f = k" "tf_email f = sn_email s" by blast
  ultimately have "tf_email fr = sn_email s" using token_okD(1) [OF rotated(10)] by (metis distinct_map inj_on_eq_iff)
  moreover have "?g fr \<in> set (update_first (\<lambda>f. tf_family_id f = k) ?g fs)" by (rule find_update_first_Some [OF rotated(3)])
  ultimately show ?case
    using token_ok_add [OF b1 rotated(9,8,7,5) b2] rotated(4,6) \<open>tf_family_id fr = k\<close> by fastforce
next
  case (reused s ss k fr fs n t)
  note D = token_okD [OF reused(6)]
  from D(6) [OF reused(1,2)] obtain f where f: "f \<in> set fs" "tf_family_id f = k" "tf_current_sequence f \<le> sn_sequence s" by blast
  with reused(3,4) D(1) have "f = fr" by (metis distinct_map inj_on_eq_iff)
  with f reused(5) show ?case by simp
qed

section \<open>Requests refine the machine\<close>

definition uses :: "(str \<Rightarrow> str) \<Rightarrow> (nat \<Rightarrow> str) \<Rightarrow> auth_cfg \<Rightarrow> bool" where
  "uses H U cfg \<longleftrightarrow> hash_token cfg = H \<and> uuid4_hex (ac_env cfg) = U"

inductive auth_step :: "(str \<Rightarrow> str) \<Rightarrow> (nat \<Rightarrow> str) \<Rightarrow> auth_db \<Rightarrow> auth_db \<Rightarrow> bool" for H U where
  registering: "uses H U cfg \<Longrightarrow> auth_step H U db (snd (register_with_db cfg email password full_name db))"
| creating: "uses H U cfg \<Longrightarrow> auth_step H U db (snd (admin_create_user cfg email password full_name role actor db))"
| logging_in: "uses H U cfg \<Longrightarrow> auth_step H U db (snd (login_with_db cfg email password db))"
| accessing: "uses H U cfg \<Longrightarrow> auth_step H U db (snd (get_user_for_token cfg token db))"
| refreshing: "uses H U cfg \<Longrightarrow> auth_step H U db (snd (refresh_with_db cfg token db))"
| logging_out: "uses H U cfg \<Longrightarrow> auth_step H U db (logout_with_db cfg token db)"
| logging_out_all: "uses H U cfg \<Longrightarrow> auth_step H U db (snd (logout_all_sessions cfg email db))"
| cleaning: "uses H U cfg \<Longrightarrow> auth_step H U db (snd (cleanup_expired_auth_rows cfg db))"
| erasing: "uses H U cfg \<Longrightarrow> auth_step H U db (snd (erase_user_data cfg u db))"
| editing: "auth_step H U db (snd (update_profile_row k full_name wallet db))"

lemma view_frame [simp]:
  "view (log_auth cfg ev em ac d db) = view db" "view (on_user email f db) = view db"
  "view (reset_failed_attempts email db) = view db" "view (lock_account email t db) = view db"
  "view (increment_failed_attempts email db) = view db"
  by (simp_all add: view_def log_auth_def on_user_def reset_failed_attempts_def lock_account_def increment_failed_attempts_def)

lemma view_delete_session: "view (delete_session a db) =
  (delete_first (\<lambda>s. sn_access_token s = a) (sessions db), families db, uuid_count db)"
  by (simp add: view_def delete_session_def)

lemma new_account_view: "\<exists>n. view (snd (new_account cfg email pw nm role db)) = (sessions db, families db, uuid_count db + n)"
  by (auto simp: new_account_def draw_def create_user_def Let_def view_def intro: exI [of _ 0])

lemma move_idle: "uuid_count db \<le> n \<Longrightarrow> token_move H U (view db) (sessions db, families db, n)"
  unfolding view_def by (rule idle)

lemma move_refl: "token_move H U (view db) (view db)"
  unfolding view_def by (rule idle) simp

lemma get_family_None: "get_family k db = None \<Longrightarrow> k \<notin> tf_family_id ` set (families db)"
  by (auto simp: get_family_def find_None_iff)

lemma create_family_view:
  "(\<exists>e. create_family cfg k email db = (Inl e, db)) \<or>
   (\<exists>fr. create_family cfg k email db = (Inr fr, db\<lparr>families := families db @ [fr]\<rparr>) \<and> k \<notin> tf_family_id ` set (families db) \<and> new_family k email fr)"
  by (cases "get_family k db") (auto simp: create_family_def Let_def new_family_def dest: get_family_None)

lemma create_session_view:
  "(\<exists>e. create_session cfg a r email k sq t db = (Inl e, db)) \<or>
   (\<exists>s. create_session cfg a r email k sq t db = (Inr s, db\<lparr>sessions := sessions db @ [s]\<rparr>) \<and> a \<notin> sn_access_token ` set (sessions db) \<and>
      sn_access_token s = a \<and> sn_email s = email \<and> sn_family_id s = Some k \<and> sn_sequence s = sq)"
proof (cases "list_ex (\<lambda>x. sn_access_token x = a \<or> sn_refresh_token x = r) (sessions db)")
  case False
  then have "a \<notin> sn_access_token ` set (sessions db)" by (auto simp: list_ex_iff)
  with False show ?thesis by (simp add: create_session_def Let_def)
qed (simp add: create_session_def Let_def)

lemma login_succeeded_move:
  assumes "uses H U cfg"
  shows "token_move H U (view db) (view (snd (login_succeeded cfg email u db))) \<or>
    (\<exists>v. token_move H U (view db) v \<and> token_move H U v (view (snd (login_succeeded cfg email u db))))"
proof -
  let ?n = "uuid_count db"
  let ?db0 = "reset_failed_attempts email db"
  have v0: "sessions ?db0 = sessions db" "families ?db0 = families db" "uuid_count ?db0 = ?n"
    using view_frame(3) [of email db] by (simp_all add: view_def)
  let ?db3 = "?db0\<lparr>uuid_count := ?n + 3\<rparr>"
  let ?a = "H (''atk_'' @ U ?n)" and ?r = "H (''rtk_'' @ U (?n + 1))" and ?k = "''fam_'' @ U (?n + 2)"
  have run: "login_succeeded cfg email u db =
      (case create_family cfg ?k email ?db3 of (Inl e, db4) \<Rightarrow> (Inl e, db4)
       | (Inr _, db4) \<Rightarrow> (case create_session cfg ?a ?r email ?k 0 (session_expiry cfg) db4 of
            (Inl e, db5) \<Rightarrow> (Inl e, db5)
          | (Inr _, db5) \<Rightarrow> (Inr \<lparr>ar_access_token = ''atk_'' @ U ?n, ar_refresh_token = ''rtk_'' @ U (?n + 1), ar_expires_in = TOKEN_TTL_SECONDS,
                        ar_user = user_orm_to_pydantic u\<rparr>, log_auth cfg ''login_success'' (Some email) (Some (u_id u)) None db5)))"
  proof -
    have H: "hash_token cfg = H" and U: "uuid4_hex (ac_env cfg) = U" using assms by (simp_all add: uses_def)
    have "draw cfg ?db0 = (U ?n, ?db0\<lparr>uuid_count := ?n + 1\<rparr>)" by (simp add: draw_def U v0)
    moreover have "draw cfg (?db0\<lparr>uuid_count := ?n + 1\<rparr>) = (U (?n + 1), ?db0\<lparr>uuid_count := ?n + 2\<rparr>)" by (simp add: draw_def U)
    moreover have "draw cfg (?db0\<lparr>uuid_count := ?n + 2\<rparr>) = (U (?n + 2), ?db3)" by (simp add: draw_def U)
    ultimately show ?thesis by (simp only: login_succeeded_def prod.case Let_def H)
  qed
  have iss: "issued H U ?n (?n + 3) ?a" unfolding issued_def by (rule exI [of _ ?n]) simp
  consider (bad) e where "create_family cfg ?k email ?db3 = (Inl e, ?db3)"
    | (fam) fr where "create_family cfg ?k email ?db3 = (Inr fr, ?db3\<lparr>families := families ?db3 @ [fr]\<rparr>)" "?k \<notin> tf_family_id ` set (families ?db3)" "new_family ?k email fr"
    using create_family_view [of cfg ?k email ?db3] by blast
  then show ?thesis
  proof cases
    case bad
    then have "view (snd (login_succeeded cfg email u db)) = (sessions db, families db, ?n + 3)"
      by (simp add: run view_def v0)
    then show ?thesis by (simp add: move_idle)
  next
    case fam
    let ?db4 = "?db3\<lparr>families := families ?db3 @ [fr]\<rparr>"
    consider (dup) e where "create_session cfg ?a ?r email ?k 0 (session_expiry cfg) ?db4 = (Inl e, ?db4)"
      | (new) s where "create_session cfg ?a ?r email ?k 0 (session_expiry cfg) ?db4 = (Inr s, ?db4\<lparr>sessions := sessions ?db4 @ [s]\<rparr>)"
          "?a \<notin> sn_access_token ` set (sessions ?db4)" "sn_access_token s = ?a" "sn_email s = email" "sn_family_id s = Some ?k" "sn_sequence s = 0"
      using create_session_view [of cfg ?a ?r email ?k 0 "session_expiry cfg" ?db4] by blast
    then show ?thesis
    proof cases
      case dup
      with fam have "view (snd (login_succeeded cfg email u db)) = (sessions db, families db @ [fr], ?n + 3)"
        by (simp add: run view_def v0)
      moreover have "token_move H U (sessions db, families db, ?n + 3) (sessions db, families db @ [fr], ?n + 3)"
        using fam(2,3) by (intro opened) (simp_all add: v0)
      ultimately show ?thesis using move_idle [of db "?n + 3" H U] by auto
    next
      case new
      with fam have "view (snd (login_succeeded cfg email u db)) = (sessions db @ [s], families db @ [fr], ?n + 3)"
        by (simp add: run view_def v0 log_auth_def)
      moreover have "token_move H U (sessions db, families db, ?n) (sessions db @ [s], families db @ [fr], ?n + 3)"
        using fam(2,3) new iss by (intro logged_in [where k = ?k and e = email]) (simp_all add: v0)
      ultimately show ?thesis by (simp add: view_def)
    qed
  qed
qed

lemma login_with_db_moves:
  assumes "uses H U cfg"
  shows "(token_move H U)\<^sup>*\<^sup>* (view db) (view (snd (login_with_db cfg email password db)))"
proof -
  have failed: "view (snd (login_failed cfg email db)) = view db"
    by (simp add: login_failed_def Let_def split: option.split)
  have "(token_move H U)\<^sup>*\<^sup>* (view db) (view (snd (login_succeeded cfg email u db)))" for u
    using login_succeeded_move [OF assms, of db email u] by (meson converse_rtranclp_into_rtranclp r_into_rtranclp)
  with failed show ?thesis
    by (simp add: login_with_db_def split: option.split sum.split bool.split)
qed

lemma update_first_member: "s \<in> set rs \<Longrightarrow> P s \<Longrightarrow> y \<in> set (update_first P (\<lambda>_. y) rs)"
  by (induction rs) auto

lemma two_moves: "token_move H U x y \<Longrightarrow> token_move H U y z \<Longrightarrow> (token_move H U)\<^sup>*\<^sup>* x z"
  by (meson converse_rtranclp_into_rtranclp r_into_rtranclp)

lemma migrate_session_move:
  assumes "uses H U cfg" "get_session_by_refresh_token h db = Some s"
  obtains (failed) e db1 where "migrate_session cfg s db = (Inl e, db1)" "(token_move H U)\<^sup>*\<^sup>* (view db) (view db1)"
  | (ok) s' db1 k where "migrate_session cfg s db = (Inr s', db1)" "(token_move H U)\<^sup>*\<^sup>* (view db) (view db1)" "s' \<in> set (sessions db1)"
      "sn_family_id s' = Some k" "sn_access_token s' = sn_access_token s"
proof (cases "sn_family_id s")
  case (Some k)
  have "s \<in> set (sessions db)" using assms(2) by (auto simp: get_session_by_refresh_token_def find_Some_iff)
  with Some show ?thesis by (intro ok [of s db k]) (simp_all add: migrate_session_def)
next
  case None
  let ?n = "uuid_count db" and ?db1 = "db\<lparr>uuid_count := uuid_count db + 1\<rparr>"
  let ?k = "''fam_'' @ U ?n"
  have d: "draw cfg db = (U ?n, ?db1)" using assms(1) by (simp add: draw_def uses_def)
  have idle1: "token_move H U (view db) (view ?db1)" using move_idle [of db "?n + 1" H U] by (simp add: view_def)
  consider e where "create_family cfg ?k (sn_email s) ?db1 = (Inl e, ?db1)"
    | fr where "create_family cfg ?k (sn_email s) ?db1 = (Inr fr, ?db1\<lparr>families := families ?db1 @ [fr]\<rparr>)"
        "?k \<notin> tf_family_id ` set (families ?db1)" "new_family ?k (sn_email s) fr"
    using create_family_view [of cfg ?k "sn_email s" ?db1] by blast
  then show ?thesis
  proof cases
    case 1
    with None d have "migrate_session cfg s db = (Inl e, ?db1)" by (simp add: migrate_session_def)
    then show ?thesis by (rule failed) (use idle1 in blast)
  next
    case 2
    let ?db2 = "?db1\<lparr>families := families ?db1 @ [fr]\<rparr>"
    let ?s = "s\<lparr>sn_family_id := Some ?k, sn_sequence := 0\<rparr>"
    let ?db3 = "?db2\<lparr>sessions := update_first (\<lambda>x. sn_access_token x = sn_access_token s) (\<lambda>_. ?s) (sessions ?db2)\<rparr>"
    from None d 2 have run: "migrate_session cfg s db = (Inr ?s, ?db3)"
      by (simp only: migrate_session_def option.case prod.case sum.case Let_def)
    have found: "find (\<lambda>x. sn_refresh_token x = h) (sessions db) = Some s"
      using assms(2) by (simp add: get_session_by_refresh_token_def)
    have "token_move H U (sessions db, families db, ?n + 1)
        (update_first (\<lambda>x. sn_access_token x = sn_access_token s) (\<lambda>_. ?s) (sessions db), families db @ [fr], ?n + 1)"
      using migrated [OF found None _ 2(3)] 2(2) by simp
    then have "token_move H U (view ?db1) (view ?db3)" by (simp add: view_def)
    with idle1 have moves: "(token_move H U)\<^sup>*\<^sup>* (view db) (view ?db3)" by (rule two_moves)
    have "s \<in> set (sessions db)" using found by (auto simp: find_Some_iff)
    then have "?s \<in> set (update_first (\<lambda>x. sn_access_token x = sn_access_token s) (\<lambda>_. ?s) (sessions db))"
      by (rule update_first_member) simp
    then show ?thesis using ok [OF run moves, of ?k] by simp
  qed
qed

lemma rotate_session_moves:
  assumes "uses H U cfg" "s \<in> set (sessions db)" "sn_family_id s = Some k"
  shows "(token_move H U)\<^sup>*\<^sup>* (view db) (view (snd (rotate_session cfg s k db)))"
proof -
  let ?t = "now (ac_env cfg)"
  let ?g = "\<lambda>f. f\<lparr>tf_current_sequence := tf_current_sequence f + 1, tf_updated_at := ?t\<rparr>"
  let ?fs = "update_first (\<lambda>f. tf_family_id f = k) ?g (families db)"
  let ?ss = "delete_first (\<lambda>x. sn_access_token x = sn_access_token s) (sessions db)"
  let ?n = "uuid_count db"
  let ?db1 = "delete_session (sn_access_token s) (increment_sequence ?t k db)"
  have v1: "sessions ?db1 = ?ss" "families ?db1 = ?fs" "uuid_count ?db1 = ?n"
    by (simp_all add: delete_session_def increment_sequence_def on_family_def)
  have bump: "token_move H U (view db) (?ss, ?fs, ?n)" unfolding view_def by (rule bumped [OF assms(2,3)])
  have only: ?thesis if "\<exists>m \<ge> ?n. view (snd (rotate_session cfg s k db)) = (?ss, ?fs, m)"
  proof -
    from that obtain m where m: "?n \<le> m" "view (snd (rotate_session cfg s k db)) = (?ss, ?fs, m)" by blast
    show ?thesis unfolding m(2) by (rule two_moves [OF bump idle [OF m(1)]])
  qed
  show ?thesis
  proof (cases "get_by_email (sn_email s) ?db1")
    case None
    have "snd (rotate_session cfg s k db) = ?db1" using None by (simp add: rotate_session_def Let_def)
    then show ?thesis using only v1 by (auto simp: view_def)
  next
    case (Some u)
    let ?db3 = "?db1\<lparr>uuid_count := ?n + 2\<rparr>"
    let ?a = "H (''atk_'' @ U ?n)" and ?r = "H (''rtk_'' @ U (?n + 1))"
    have H: "hash_token cfg = H" and U: "uuid4_hex (ac_env cfg) = U" using assms(1) by (simp_all add: uses_def)
    have d1: "draw cfg ?db1 = (U ?n, ?db1\<lparr>uuid_count := ?n + 1\<rparr>)" by (simp add: draw_def U v1)
    have d2: "draw cfg (?db1\<lparr>uuid_count := ?n + 1\<rparr>) = (U (?n + 1), ?db3)" by (simp add: draw_def U)
    note run = rotate_session_def [of cfg s k db, unfolded Let_def Some option.case d1 prod.case d2 H]
    have fam: "get_family k ?db3 = map_option ?g (find (\<lambda>f. tf_family_id f = k) (families db))"
      using v1(2) by (simp add: get_family_def find_update_first)
    show ?thesis
    proof (cases "find (\<lambda>f. tf_family_id f = k) (families db)")
      case None
      then have "view (snd (rotate_session cfg s k db)) = (?ss, ?fs, ?n + 2)" using fam by (simp add: run view_def v1)
      then show ?thesis by (intro only) auto
    next
      case (Some fr)
      have g: "get_family k ?db3 = Some (?g fr)" using fam Some by simp
      note run2 = run [unfolded g option.case]
      consider e where "create_session cfg ?a ?r (sn_email s) k (tf_current_sequence (?g fr) + 1) (session_expiry cfg) ?db3 = (Inl e, ?db3)"
        | s' where "create_session cfg ?a ?r (sn_email s) k (tf_current_sequence (?g fr) + 1) (session_expiry cfg) ?db3
              = (Inr s', ?db3\<lparr>sessions := sessions ?db3 @ [s']\<rparr>)" "?a \<notin> sn_access_token ` set (sessions ?db3)"
            "sn_access_token s' = ?a" "sn_email s' = sn_email s" "sn_family_id s' = Some k" "sn_sequence s' = tf_current_sequence (?g fr) + 1"
        using create_session_view [of cfg ?a ?r "sn_email s" k "tf_current_sequence (?g fr) + 1" "session_expiry cfg" ?db3] by blast
      then show ?thesis
      proof cases
        case 1
        then have "view (snd (rotate_session cfg s k db)) = (?ss, ?fs, ?n + 2)" by (simp only: run2 prod.case sum.case snd_conv) (simp add: view_def v1)
        then show ?thesis by (intro only) auto
      next
        case 2
        have "view (snd (rotate_session cfg s k db)) = (?ss @ [s'], ?fs, ?n + 2)"
          by (simp only: run2 2(1) prod.case sum.case snd_conv) (simp add: view_def v1)
        moreover have "issued H U ?n (?n + 2) (sn_access_token s')" unfolding issued_def 2(3) by (rule exI [of _ ?n]) simp
        then have "token_move H U (view db) (?ss @ [s'], ?fs, ?n + 2)"
          unfolding view_def using 2 v1 by (intro rotated [OF assms(2,3) Some]) simp_all
        ultimately show ?thesis by auto
      qed
    qed
  qed
qed

lemma refresh_with_db_moves:
  assumes "uses H U cfg"
  shows "(token_move H U)\<^sup>*\<^sup>* (view db) (view (snd (refresh_with_db cfg token db)))"
proof (cases "get_session_by_refresh_token (hash_token cfg token) db")
  case (Some s0)
  show ?thesis
  proof (cases "is_account_locked (now (ac_env cfg)) (sn_email s0) db")
    case True
    with Some show ?thesis by (simp add: refresh_with_db_def)
  next
    case unlocked: False
    show ?thesis
    proof (cases rule: migrate_session_move [OF assms Some])
      case (1 e db1)
      with Some unlocked show ?thesis by (simp add: refresh_with_db_def)
    next
      case (2 s db1 k)
      note run = refresh_with_db_def [of cfg token db, unfolded Some option.case 2(1) prod.case sum.case Let_def]
      have rest: "(token_move H U)\<^sup>*\<^sup>* (view db1) (view (snd (refresh_with_db cfg token db)))"
      proof (cases "get_family k db1")
        case None
        with unlocked 2(4) show ?thesis by (simp add: run)
      next
        case (Some fr)
        show ?thesis
        proof (cases "\<not> tf_compromised fr \<and> sn_sequence s < tf_current_sequence fr")
          case True
          let ?fs = "update_first (\<lambda>f. tf_family_id f = k) (\<lambda>f. f\<lparr>tf_compromised := True, tf_updated_at := now (ac_env cfg)\<rparr>) (families db1)"
          have "fr \<in> set (families db1)" "tf_family_id fr = k" using Some by (auto simp: get_family_def find_Some_iff)
          with True 2(3,4) have "token_move H U (view db1) (filter (\<lambda>x. sn_family_id x \<noteq> Some k) (sessions db1), ?fs, uuid_count db1)"
            unfolding view_def by (intro reused) auto
          moreover have "view (snd (delete_sessions_by_family k (compromise_family (now (ac_env cfg)) k db1)))
              = (filter (\<lambda>x. sn_family_id x \<noteq> Some k) (sessions db1), ?fs, uuid_count db1)"
            by (simp add: view_def delete_sessions_by_family_def compromise_family_def on_family_def)
          then have "view (snd (refresh_with_db cfg token db)) = (filter (\<lambda>x. sn_family_id x \<noteq> Some k) (sessions db1), ?fs, uuid_count db1)"
            using True unlocked 2(4) Some by (simp add: run split: option.split)
          ultimately show ?thesis by auto
        next
          case False
          with unlocked 2(4) Some have "view (snd (refresh_with_db cfg token db)) = view db1 \<or>
              refresh_with_db cfg token db = rotate_session cfg s k db1"
            by (auto simp: run split: option.split)
          with rotate_session_moves [OF assms 2(3,4)] show ?thesis by auto
        qed
      qed
      from rtranclp_trans [OF 2(2) rest] show ?thesis .
    qed
  qed
qed (simp add: refresh_with_db_def)

lemma move_drop: "subseq (sessions db') (sessions db) \<Longrightarrow> families db' = families db \<Longrightarrow> uuid_count db' = uuid_count db \<Longrightarrow>
   token_move H U (view db) (view db')"
  unfolding view_def by (simp add: dropped)

lemma delete_session_move: "token_move H U (view db) (view (delete_session a db))"
  by (rule move_drop) (simp_all add: delete_session_def subseq_delete_first)

lemma forget_email_moves:
  assumes "uuid_count db \<le> n"
  shows "(token_move H U)\<^sup>*\<^sup>* (view db) (filter (\<lambda>s. sn_email s \<noteq> e) (sessions db), filter (\<lambda>f. tf_email f \<noteq> e) (families db), n)"
proof -
  let ?ss = "filter (\<lambda>s. sn_email s \<noteq> e) (sessions db)"
  have "token_move H U (view db) (?ss, families db, uuid_count db)" unfolding view_def by (rule dropped) simp
  moreover have "token_move H U (?ss, families db, uuid_count db) (?ss, filter (\<lambda>f. tf_email f \<noteq> e) (families db), uuid_count db)"
    by (rule forgotten) simp
  ultimately have "(token_move H U)\<^sup>*\<^sup>* (view db) (?ss, filter (\<lambda>f. tf_email f \<noteq> e) (families db), uuid_count db)"
    by (rule two_moves)
  from rtranclp.rtrancl_into_rtrancl [OF this idle [OF assms]] show ?thesis .
qed

lemma cleanup_moves: "(token_move H U)\<^sup>*\<^sup>* (view db) (view (snd (cleanup_expired_auth_rows cfg db)))"
proof -
  obtain n db1 where db1: "delete_expired_sessions (now (ac_env cfg)) 1000 db = (n, db1)" by fastforce
  obtain m db2 where db2: "delete_orphaned_families 1000 db1 = (m, db2)" by fastforce
  have "token_move H U (view db) (view db1)"
    using db1 by (intro move_drop)
      (auto simp: delete_expired_sessions_def split_beta delete_in_batches_subseq)
  moreover have "token_move H U (view db1) (view db2)"
  proof -
    let ?P = "\<lambda>f. Some (tf_family_id f) \<notin> sn_family_id ` set (sessions db1)"
    have "set (filter (\<lambda>f. \<not> ?P f) (families db1)) \<subseteq> set (snd (delete_in_batches ?P 1000 (families db1)))"
      unfolding delete_in_batches_subseq(2) [of ?P 1000 "families db1", symmetric] by (rule filter_is_subset)
    then have "token_move H U (sessions db1, families db1, uuid_count db1) (sessions db1, snd (delete_in_batches ?P 1000 (families db1)), uuid_count db1)"
      by (intro reaped delete_in_batches_subseq(1)) auto
    moreover have "db2 = db1\<lparr>families := snd (delete_in_batches ?P 1000 (families db1))\<rparr>"
      using arg_cong [OF db2, of snd] unfolding delete_orphaned_families_def split_beta snd_conv by (rule sym)
    ultimately show ?thesis by (simp only: view_def) simp
  qed
  ultimately have "(token_move H U)\<^sup>*\<^sup>* (view db) (view db2)" by (rule two_moves)
  with db1 db2 show ?thesis by (simp add: cleanup_expired_auth_rows_def)
qed

lemma auth_step_moves: "auth_step H U db db' \<Longrightarrow> (token_move H U)\<^sup>*\<^sup>* (view db) (view db')"
proof (induction rule: auth_step.induct)
  case (registering cfg db email password full_name)
  have "view (snd (register_with_db cfg email password full_name db)) = view (snd (new_account cfg email password full_name Engineer db))"
    by (simp add: register_with_db_def split: prod.split sum.split)
  with new_account_view [of cfg email password full_name Engineer db] show ?case
    using move_idle [of db _ H U] by (metis le_add1 r_into_rtranclp)
next
  case (creating cfg db email password full_name role actor)
  have "view (snd (admin_create_user cfg email password full_name role actor db)) = view (snd (new_account cfg email password full_name role db))"
    by (simp add: admin_create_user_def split: prod.split sum.split)
  with new_account_view [of cfg email password full_name role db] show ?case
    using move_idle [of db _ H U] by (metis le_add1 r_into_rtranclp)
next
  case (logging_in cfg db email password)
  then show ?case by (rule login_with_db_moves)
next
  case (accessing cfg db token)
  have "view (snd (get_user_for_token cfg token db)) \<in> {view db, view (delete_session (hash_token cfg token) db)}"
    by (simp add: get_user_for_token_def Let_def split: option.split)
  then show ?case using delete_session_move [of H U db] by auto
next
  case (refreshing cfg db token)
  then show ?case by (rule refresh_with_db_moves)
next
  case (logging_out cfg db token)
  have "view (logout_with_db cfg token db) \<in> {view db, view (delete_session (hash_token cfg token) db)}"
    by (simp add: logout_with_db_def split: option.split)
  then show ?case using delete_session_move [of H U db] by auto
next
  case (logging_out_all cfg db email)
  have "view (snd (logout_all_sessions cfg email db)) =
      (filter (\<lambda>s. sn_email s \<noteq> email) (sessions db), filter (\<lambda>f. tf_email f \<noteq> email) (families db), uuid_count db)"
    by (simp add: logout_all_sessions_def delete_sessions_by_email_def delete_families_by_email_def) (simp add: view_def)
  then show ?case using forget_email_moves [of db] by simp
next
  case (cleaning cfg db)
  show ?case by (rule cleanup_moves)
next
  case (erasing cfg db u)
  have "view (snd (erase_user_data cfg u db)) =
      (filter (\<lambda>s. sn_email s \<noteq> u_email u) (sessions db), filter (\<lambda>f. tf_email f \<noteq> u_email u) (families db), uuid_count db + 1)"
    by (simp add: erase_user_data_def draw_def Let_def delete_sessions_by_email_def delete_families_by_email_def) (simp add: view_def)
  then show ?case using forget_email_moves [of db "uuid_count db + 1"] by simp
next
  case (editing db k full_name wallet)
  have "view (snd (update_profile_row k full_name wallet db)) = view db"
    by (simp add: update_profile_row_def Let_def view_def split: option.split)
  then show ?case by simp
qed

lemma auth_steps_moves: "(auth_step H U)\<^sup>*\<^sup>* db db' \<Longrightarrow> (token_move H U)\<^sup>*\<^sup>* (view db) (view db')"
  by (induction rule: rtranclp_induct) (auto dest: auth_step_moves)

lemma token_moves_ok: "(token_move H U)\<^sup>*\<^sup>* v v' \<Longrightarrow> token_ok H U v \<Longrightarrow> token_ok H U v'"
  by (induction rule: rtranclp_induct) (auto dest: token_move_ok)

section \<open>Properties\<close>


text \<open>An access token that has been issued and has no session never gets one again.\<close>

definition absent :: "str \<Rightarrow> token_view \<Rightarrow> bool" where
  "absent h v \<longleftrightarrow> h \<notin> sn_access_token ` set (fst v)"

lemma access_tokens_update_first:
  "s \<in> set ss \<Longrightarrow> sn_access_token ` set (update_first (\<lambda>x. sn_access_token x = sn_access_token s) (\<lambda>_. s\<lparr>sn_family_id := k, sn_sequence := n\<rparr>) ss)
     = sn_access_token ` set ss"
proof -
  have "map sn_access_token (update_first (\<lambda>x. sn_access_token x = sn_access_token s) (\<lambda>_. s\<lparr>sn_family_id := k, sn_sequence := n\<rparr>) ss)
     = map sn_access_token ss" by (induction ss) auto
  then show ?thesis by (metis set_map)
qed

lemma issued_fresh:
  assumes "inj H" "inj U" "issued H U n n' h" "m < n"
  shows "h \<noteq> H (''atk_'' @ U m)"
proof
  assume eq: "h = H (''atk_'' @ U m)"
  from assms(3) obtain m' where m': "n \<le> m'" "h = H (''atk_'' @ U m')" unfolding issued_def by blast
  with eq have "''atk_'' @ U m' = ''atk_'' @ U m" using assms(1) by (simp only: inj_eq)
  then have "m' = m" using assms(2) by (simp only: same_append_eq inj_eq)
  with m'(1) assms(4) show False by simp
qed

lemma token_move_absent:
  assumes "token_move H U v v'" "inj H" "inj U" "absent (H (''atk_'' @ U m)) v" "m < snd (snd v)"
  shows "absent (H (''atk_'' @ U m)) v' \<and> m < snd (snd v')"
  using assms
proof (induction rule: token_move.induct)
  case (dropped ss' ss fs n)
  then show ?case by (auto simp: absent_def dest: subseq_set)
next
  case (logged_in k fs e fr s ss n n')
  have "sn_access_token s \<noteq> H (''atk_'' @ U m)" using logged_in(12) by (intro issued_fresh [OF logged_in(9,10,7)]) simp
  from not_sym [OF this] logged_in(8,11,12) show ?case by (simp add: absent_def)
next
  case (migrated h ss s k fs fr n)
  then have "s \<in> set ss" by (auto simp: find_Some_iff)
  with migrated show ?case by (simp add: absent_def access_tokens_update_first)
next
  case (bumped s ss k fs n t)
  then show ?case by (auto simp: absent_def dest: set_delete_first)
next
  case (rotated s ss k fs fr s' n n' t)
  have "sn_access_token s' \<noteq> H (''atk_'' @ U m)" using rotated(13) by (intro issued_fresh [OF rotated(10,11,8)]) simp
  from not_sym [OF this] rotated(9,12,13) show ?case by (auto simp: absent_def dest: set_delete_first)
next
  case (reused s ss k fr fs n t)
  then show ?case by (auto simp: absent_def)
qed (auto simp: absent_def)

lemma token_moves_absent:
  assumes "(token_move H U)\<^sup>*\<^sup>* v v'" "inj H" "inj U" "absent (H (''atk_'' @ U m)) v" "m < snd (snd v)"
  shows "absent (H (''atk_'' @ U m)) v'"
proof -
  from assms(1) have "absent (H (''atk_'' @ U m)) v' \<and> m < snd (snd v')"
    by (induction rule: rtranclp_induct) (use assms(2-) token_move_absent in blast)+
  then show ?thesis ..
qed

lemma absent_denied:
  assumes "absent (hash_token cfg tok) (view db)"
  shows "fst (get_user_for_token cfg tok db) = None"
proof -
  have "get_session (hash_token cfg tok) db = None"
    using assms unfolding absent_def view_def get_session_def find_None_iff fst_conv by (metis imageI)
  then show ?thesis by (simp add: get_user_for_token_def)
qed

text \<open>C12. Once a session was ended by a logout, or by a logout of all sessions of its account, its access token never authenticates again, whatever requests follow.\<close>

theorem logged_out_token_is_dead:
  assumes ok: "token_ok H U (view db)" and "inj H" "inj U" and m: "m < uuid_count db"
    and s: "get_session (H (''atk_'' @ U m)) db = Some s" and cfg: "uses H U c" "uses H U cfg"
    and out: "db1 = logout_with_db c (''atk_'' @ U m) db \<or> db1 = snd (logout_all_sessions c (sn_email s) db)"
    and steps: "(auth_step H U)\<^sup>*\<^sup>* db1 db2"
  shows "fst (get_user_for_token cfg (''atk_'' @ U m) db2) = None"
proof -
  let ?h = "H (''atk_'' @ U m)"
  have h: "hash_token c = H" "hash_token cfg = H" using cfg by (simp_all add: uses_def)
  have dist: "distinct (map sn_access_token (sessions db))" using ok by (simp add: token_ok_def view_def)
  have mem: "s \<in> set (sessions db)" "sn_access_token s = ?h" using s by (auto simp: get_session_def find_Some_iff)
  have "absent ?h (view db1) \<and> uuid_count db1 = uuid_count db"
    using out
  proof
    assume "db1 = logout_with_db c (''atk_'' @ U m) db"
    then have "view db1 = view (delete_session ?h db)" using s by (simp add: logout_with_db_def h)
    moreover have "?h \<notin> sn_access_token ` set (delete_first (\<lambda>x. sn_access_token x = ?h) (sessions db))"
      using delete_first_absent [OF dist, of _ s] mem(2) by (metis imageE)
    ultimately show ?thesis by (simp add: absent_def view_def delete_session_def)
  next
    assume "db1 = snd (logout_all_sessions c (sn_email s) db)"
    then have v: "view db1 = (filter (\<lambda>x. sn_email x \<noteq> sn_email s) (sessions db), filter (\<lambda>f. tf_email f \<noteq> sn_email s) (families db), uuid_count db)"
      by (simp add: logout_all_sessions_def delete_sessions_by_email_def delete_families_by_email_def) (simp add: view_def)
    have "x = s" if "x \<in> set (sessions db)" "sn_access_token x = ?h" for x
      using dist that mem by (metis distinct_map inj_on_eq_iff)
    then show ?thesis using v by (auto simp: absent_def view_def)
  qed
  then have a: "absent ?h (view db1)" and n: "uuid_count db1 = uuid_count db" by blast+
  have "m < snd (snd (view db1))" using m n by (simp add: view_def)
  then have "absent ?h (view db2)" by (rule token_moves_absent [OF auth_steps_moves [OF steps] assms(2,3) a])
  then show ?thesis using absent_denied [of cfg] h by simp
qed

subsection \<open>Lockout\<close>

lemma get_by_email_on_user:
  "(\<And>u. u_email (f u) = u_email u) \<Longrightarrow> get_by_email e (on_user e f db) = map_option f (get_by_email e db)"
  by (simp add: get_by_email_def on_user_def find_update_first)

lemma login_wrong_password:
  assumes "get_by_email e db = Some u" "\<not> is_locked (now (ac_env cfg)) u" "ac_verify cfg pw (u_hashed_password u) = Inr False"
  shows "fst (login_with_db cfg e pw db) = Inl AttributeError"
    "get_by_email e (snd (login_with_db cfg e pw db)) =
      Some (u\<lparr>u_failed_login_attempts := u_failed_login_attempts u + 1,
             u_locked_until := (if u_failed_login_attempts u + 1 \<ge> ac_max_failed_attempts cfg
               then Some (now (ac_env cfg) + ac_lockout_minutes cfg * 60 * ac_second cfg) else u_locked_until u)\<rparr>)"
    "sessions (snd (login_with_db cfg e pw db)) = sessions db"
  using assms
  by (simp_all add: login_with_db_def login_failed_def Let_def increment_failed_attempts_def lock_account_def
      get_by_email_on_user) (simp_all add: on_user_def)

lemma login_locked:
  assumes "get_by_email e db = Some u" "is_locked (now (ac_env cfg)) u"
  shows "fst (login_with_db cfg e pw db) = Inl ValueError" "sessions (snd (login_with_db cfg e pw db)) = sessions db"
    "get_by_email e (snd (login_with_db cfg e pw db)) = Some u"
  using assms by (simp_all add: login_with_db_def log_auth_def get_by_email_def)

text \<open>A run of wrong passwords on one account, each with its own clock.\<close>

fun guess :: "str \<Rightarrow> (auth_cfg \<times> str) list \<Rightarrow> auth_db \<Rightarrow> auth_db" where
  "guess e [] db = db"
| "guess e ((cfg, pw) # gs) db = guess e gs (snd (login_with_db cfg e pw db))"

lemma guess_counts:
  assumes "get_by_email e db = Some u" "u_locked_until u = None"
    and "\<forall>(cfg, pw) \<in> set gs. ac_max_failed_attempts cfg = n \<and> ac_verify cfg pw (u_hashed_password u) = Inr False"
    and "u_failed_login_attempts u + int (length gs) < n"
  shows "get_by_email e (guess e gs db) = Some (u\<lparr>u_failed_login_attempts := u_failed_login_attempts u + int (length gs)\<rparr>)"
  using assms
proof (induction gs arbitrary: db u)
  case (Cons g gs)
  obtain cfg pw where g: "g = (cfg, pw)" by fastforce
  let ?u = "u\<lparr>u_failed_login_attempts := u_failed_login_attempts u + 1\<rparr>"
  have "get_by_email e (snd (login_with_db cfg e pw db)) = Some ?u"
    using login_wrong_password(2) [of e db u cfg pw] Cons.prems by (simp add: g is_locked_def)
  from Cons.IH [OF this] Cons.prems show ?case by (auto simp: g)
qed simp

lemma guess_append: "guess e (gs @ hs) db = guess e hs (guess e gs db)"
  by (induction e gs db rule: guess.induct) auto

text \<open>C13. An account with no failed attempts is not locked by fewer wrong passwords than the configured number; the last one locks it, and until the lock has run out even the right password is refused and no session is created.\<close>

theorem account_locks_after_failures:
  assumes user: "get_by_email e db = Some u" "u_failed_login_attempts u = 0" "u_locked_until u = None"
    and wrong: "\<forall>(cfg, pw) \<in> set (gs @ [(last_cfg, last_pw)]). ac_max_failed_attempts cfg = n \<and> ac_verify cfg pw (u_hashed_password u) = Inr False"
    and len: "n = int (length gs) + 1"
    and later: "now (ac_env cfg) < now (ac_env last_cfg) + ac_lockout_minutes last_cfg * 60 * ac_second last_cfg"
  shows "(\<exists>u'. get_by_email e (guess e gs db) = Some u' \<and> u_locked_until u' = None) \<and>
    fst (login_with_db cfg e pw (guess e (gs @ [(last_cfg, last_pw)]) db)) = Inl ValueError \<and>
    sessions (snd (login_with_db cfg e pw (guess e (gs @ [(last_cfg, last_pw)]) db))) = sessions (guess e (gs @ [(last_cfg, last_pw)]) db)"
proof -
  let ?u = "u\<lparr>u_failed_login_attempts := int (length gs)\<rparr>"
  have before: "get_by_email e (guess e gs db) = Some ?u"
    using guess_counts [OF user(1,3), of gs n] wrong len user(2) by auto
  let ?db = "guess e (gs @ [(last_cfg, last_pw)]) db"
  have "get_by_email e ?db = Some (?u\<lparr>u_failed_login_attempts := int (length gs) + 1,
      u_locked_until := Some (now (ac_env last_cfg) + ac_lockout_minutes last_cfg * 60 * ac_second last_cfg)\<rparr>)"
    using login_wrong_password(2) [OF before, of last_cfg last_pw] wrong len user(3)
    by (simp add: guess_append is_locked_def)
  from login_locked [OF this, of cfg pw] later before user(3) show ?thesis by (auto simp: is_locked_def)
qed

subsection \<open>What the handlers answer\<close>

lemma refresh_with_db_raises: "\<exists>e. fst (refresh_with_db cfg tok db) = Inl e"
proof -
  have rot: "\<exists>e. fst (rotate_session cfg s k db1) = Inl e" for s k db1
    by (simp add: rotate_session_def Let_def split: option.split prod.split sum.split)
  then show ?thesis
    by (auto simp: refresh_with_db_def Let_def split: option.split prod.split sum.split)
qed

text \<open>Neither the registration handler nor the refresh handler ever returns a response: every call ends in an error.\<close>

theorem registration_and_refresh_never_answer:
  "(\<exists>e. fst (register cfg allowed email password full_name db) = Inl e) \<and>
   (\<exists>e. fst (refresh cfg allowed' token db') = Inl e)"
proof
  show "\<exists>e. fst (register cfg allowed email password full_name db) = Inl e"
    by (simp add: register_def split: sum.split prod.split exn.split)
  obtain e db1 where "refresh_with_db cfg token db' = (Inl e, db1)"
    using refresh_with_db_raises [of cfg token db'] by (metis prod.collapse)
  then show "\<exists>e. fst (refresh cfg allowed' token db') = Inl e"
    by (simp add: refresh_def split: exn.split)
qed

text \<open>A wrong password on an existing account fails differently from one on an unknown account.\<close>

theorem login_reveals_accounts:
  assumes "get_by_email known db = Some u" "\<not> is_locked (now (ac_env cfg)) u" "ac_verify cfg pw (u_hashed_password u) = Inr False"
    and "get_by_email unknown db = None"
  shows "fst (login_with_db cfg known pw db) = Inl AttributeError \<and> fst (login_with_db cfg unknown pw db) = Inl ValueError"
proof
  show "fst (login_with_db cfg known pw db) = Inl AttributeError" by (rule login_wrong_password(1) [OF assms(1-3)])
  have "get_by_email unknown (increment_failed_attempts unknown db) = None"
    using assms(4) by (simp add: increment_failed_attempts_def get_by_email_on_user)
  then show "fst (login_with_db cfg unknown pw db) = Inl ValueError"
    using assms(4) by (simp add: login_with_db_def login_failed_def Let_def)
qed

lemma bearer_token:
  assumes "extract_bearer_token authorization = Inr token"
  shows "authorization = Some (bearer_prefix @ token)"
proof (cases authorization)
  case (Some a)
  have "take (length bearer_prefix) a = bearer_prefix" "drop (length bearer_prefix) a = token"
    using assms unfolding Some extract_bearer_token_def option.sel by (auto split: if_splits)
  then have "a = bearer_prefix @ token" by (metis append_take_drop_id)
  then show ?thesis unfolding Some by (rule arg_cong)
qed (use assms in \<open>simp add: extract_bearer_token_def truthy_def\<close>)

text \<open>Whoever passes the bearer check is either named by a verified impersonation token, or owns a stored session that has not expired, is not on the revocation list, and whose family, if any, exists and is not compromised.\<close>

theorem authenticated_user_has_live_session:
  assumes "get_current_user cfg decode up rv authorization db = (Inr user, db')"
  shows "\<exists>token. authorization = Some (bearer_prefix @ token) \<and>
    ((\<exists>u c. decode token = Some c \<and> jc_scope c = ''impersonate'' \<and> jc_sub c = Some (u_id u) \<and> u \<in> set (users db) \<and> user = user_orm_to_pydantic u) \<or>
     (\<exists>s u. get_session (hash_token cfg token) db = Some s \<and> now (ac_env cfg) \<le> sn_expires_at s \<and>
        (truthy (sn_family_id s) \<longrightarrow> (\<exists>f. get_family (the (sn_family_id s)) db = Some f \<and> \<not> tf_compromised f)) \<and>
        \<not> is_revoked up (now (ac_env cfg)) (hash_token cfg token) rv \<and>
        get_by_email (sn_email s) db = Some u \<and> user = user_orm_to_pydantic u))"
proof -
  from assms obtain token where tok: "extract_bearer_token authorization = Inr token"
    by (auto simp: get_current_user_def split: sum.splits)
  then have auth: "authorization = Some (bearer_prefix @ token)"
    by (rule bearer_token)
  show ?thesis
  proof (cases "impersonated_user decode token db")
    case (Some u)
    with assms tok have "user = user_orm_to_pydantic u" by (simp add: get_current_user_def)
    with Some show ?thesis unfolding auth
      by (force simp: impersonated_user_def verify_impersonation_token_def get_by_id_def find_Some_iff truthy_def
          split: option.splits if_splits)
  next
    case None
    with assms tok have "\<not> is_revoked up (now (ac_env cfg)) (hash_token cfg token) rv" "fst (get_user_for_token cfg token db) = Some user"
      by (auto simp: get_current_user_def split: if_splits prod.splits option.splits)
    then show ?thesis unfolding auth
      by (force simp: get_user_for_token_def Let_def family_revoked_def split: option.splits if_splits)
  qed
qed

section \<open>Concrete accounts\<close>

definition sample_auth_cfg :: "time \<Rightarrow> auth_cfg" where
  "sample_auth_cfg t =
     \<lparr>ac_env = (sample_env t)\<lparr>uuid4_hex := \<lambda>n. replicate n CHR ''u''\<rparr>, ac_verify = (\<lambda>pw h. Inr (pw = h)), ac_hash = (\<lambda>pw. pw),
      ac_max_failed_attempts = 2, ac_lockout_minutes = 15, ac_second = 1\<rparr>"

definition sample_user :: user_row where
  "sample_user = \<lparr>u_id = ''u1'', u_email = ''a'', u_hashed_password = ''pw'', u_full_name = None, u_role = Engineer,
     u_stellar_wallet = None, u_created_at = 0, u_failed_login_attempts = 0, u_locked_until = None\<rparr>"

definition sample_auth_db :: auth_db where
  "sample_auth_db = \<lparr>outages = [], outage_events = [], sla_results = [], payments = [],
     audit = \<lparr>rows = [], next_id = 1\<rparr>, next_sla_id = 1, uuid_count = 0, users = [sample_user], sessions = [], families = []\<rparr>"

lemma sample_uses: "uses (\<lambda>s. s) (\<lambda>n. replicate n CHR ''u'') (sample_auth_cfg t)"
  by (simp add: uses_def sample_auth_cfg_def sample_env_def hash_token_def fun_eq_iff)

lemma inj_sample_uuid: "inj (\<lambda>n. replicate n CHR ''u'')"
  by (rule injI) (metis length_replicate)

lemma sample_token_ok: "token_ok (\<lambda>s. s) U (view sample_auth_db)"
  by (simp add: token_ok_def view_def sample_auth_db_def unique_key_def)


lemma sample_login:
  "\<exists>r db s. login_with_db (sample_auth_cfg 5) ''a'' ''pw'' sample_auth_db = (Inr r, db) \<and> uuid_count db = 3 \<and>
     get_session (''atk_'' @ replicate 0 CHR ''u'') db = Some s \<and> sn_email s = ''a''"
  by (simp add: login_with_db_def get_by_email_def sample_auth_db_def sample_user_def is_locked_def sample_auth_cfg_def
      login_succeeded_def draw_def reset_failed_attempts_def on_user_def sample_env_def create_family_def get_family_def
      create_session_def hash_token_def log_auth_def get_session_def Let_def)

theorem logged_out_token_is_dead_witness:
  "\<exists>r db. login_with_db (sample_auth_cfg 5) ''a'' ''pw'' sample_auth_db = (Inr r, db) \<and>
     fst (get_user_for_token (sample_auth_cfg 6) (''atk_'' @ replicate 0 CHR ''u'')
       (logout_with_db (sample_auth_cfg 5) (''atk_'' @ replicate 0 CHR ''u'') db)) = None"
proof -
  let ?U = "\<lambda>n. replicate n CHR ''u''"
  from sample_login obtain r db s where l: "login_with_db (sample_auth_cfg 5) ''a'' ''pw'' sample_auth_db = (Inr r, db)"
    "uuid_count db = 3" "get_session (''atk_'' @ replicate 0 CHR ''u'') db = Some s" by blast
  have "(auth_step (\<lambda>s. s) ?U)\<^sup>*\<^sup>* sample_auth_db db"
    using logging_in [OF sample_uses [of 5], of sample_auth_db "''a''" "''pw''"] l(1) by simp
  then have ok: "token_ok (\<lambda>s. s) ?U (view db)" by (intro token_moves_ok [OF auth_steps_moves sample_token_ok])
  have "fst (get_user_for_token (sample_auth_cfg 6) (''atk_'' @ ?U 0) (logout_with_db (sample_auth_cfg 5) (''atk_'' @ ?U 0) db)) = None"
    by (rule logged_out_token_is_dead [OF ok _ inj_sample_uuid _ l(3) sample_uses sample_uses disjI1 [OF refl] rtranclp.rtrancl_refl])
       (simp_all add: l(2))
  with l(1) show ?thesis by blast
qed

theorem account_locks_after_failures_witness:
  "fst (login_with_db (sample_auth_cfg 7) ''a'' ''pw'' (guess ''a'' [(sample_auth_cfg 5, ''x''), (sample_auth_cfg 6, ''y'')] sample_auth_db))
     = Inl ValueError"
proof -
  let ?gs = "[(sample_auth_cfg 5, ''x'')]" and ?last = "(sample_auth_cfg 6, ''y'')"
  have "fst (login_with_db (sample_auth_cfg 7) ''a'' ''pw'' (guess ''a'' (?gs @ [?last]) sample_auth_db)) = Inl ValueError"
  proof (rule account_locks_after_failures [where u = sample_user and n = 2, THEN conjunct2, THEN conjunct1])
    show "get_by_email ''a'' sample_auth_db = Some sample_user" by (simp add: get_by_email_def sample_auth_db_def sample_user_def)
  qed (simp_all add: sample_user_def sample_auth_cfg_def sample_env_def)
  then show ?thesis by (simp only: append.simps)
qed

theorem login_reveals_accounts_witness:
  "fst (login_with_db (sample_auth_cfg 5) ''a'' ''x'' sample_auth_db) = Inl AttributeError \<and>
   fst (login_with_db (sample_auth_cfg 5) ''b'' ''x'' sample_auth_db) = Inl ValueError"
  by (rule login_reveals_accounts [of _ _ sample_user])
     (simp_all add: get_by_email_def sample_auth_db_def sample_user_def sample_auth_cfg_def sample_env_def is_locked_def)

theorem authenticated_user_has_live_session_witness:
  "\<exists>r db user db' s. login_with_db (sample_auth_cfg 5) ''a'' ''pw'' sample_auth_db = (Inr r, db) \<and>
     get_current_user (sample_auth_cfg 6) (\<lambda>_. None) True [] (Some (bearer_prefix @ ''atk_'')) db = (Inr user, db') \<and>
     get_session ''atk_'' db = Some s"
proof -
  have "\<exists>r db user. login_with_db (sample_auth_cfg 5) ''a'' ''pw'' sample_auth_db = (Inr r, db) \<and>
     get_current_user (sample_auth_cfg 6) (\<lambda>_. None) True [] (Some (bearer_prefix @ ''atk_'')) db = (Inr user, db)"
  by (simp add: login_with_db_def get_by_email_def sample_auth_db_def sample_user_def is_locked_def sample_auth_cfg_def
      login_succeeded_def draw_def reset_failed_attempts_def on_user_def sample_env_def create_family_def get_family_def
      create_session_def hash_token_def log_auth_def get_session_def Let_def get_current_user_def extract_bearer_token_def
      bearer_prefix_def truthy_def impersonated_user_def verify_impersonation_token_def is_revoked_def get_user_for_token_def
      family_revoked_def session_expiry_def TOKEN_TTL_SECONDS_def)
  then obtain r db user where a: "login_with_db (sample_auth_cfg 5) ''a'' ''pw'' sample_auth_db = (Inr r, db)"
    and b: "get_current_user (sample_auth_cfg 6) (\<lambda>_. None) True [] (Some (bearer_prefix @ ''atk_'')) db = (Inr user, db)" by blast
  have "\<exists>s. get_session ''atk_'' db = Some s"
    using authenticated_user_has_live_session [OF b]
    by (simp only: option.inject same_append_eq) (auto simp: hash_token_def sample_auth_cfg_def sample_env_def)
  with a b show ?thesis by blast
qed

end
