(* ===== verification/Access.thy ===== *)
theory Access
  imports Auth_Sessions
begin

text \<open>
  The rest of the access layer: validation of account requests, the administrative handlers and the personal-data export of
  \<^verbatim>\<open>endpoints/auth.py\<close> and \<^verbatim>\<open>gdpr.py\<close>, API keys (\<^verbatim>\<open>api_key_store.py\<close>, \<^verbatim>\<open>endpoints/api_keys.py\<close>), the combined check of
  users and services in \<^verbatim>\<open>core/security.py\<close>, and the keyed token hash of \<^verbatim>\<open>core/keyed_hash.py\<close>.
\<close>

section \<open>Account requests\<close>

text \<open>\<open>str.isprintable\<close> for code points below 256.\<close>

definition is_printable :: "char \<Rightarrow> bool" where
  "is_printable c \<longleftrightarrow> (let n = (of_char c :: nat) in 32 \<le> n \<and> n \<le> 126 \<or> 161 \<le> n \<and> n \<noteq> 173)"

definition login_request :: "(str \<Rightarrow> bool) \<Rightarrow> str \<Rightarrow> str \<Rightarrow> exn + str" where
  "login_request email_valid email password =
     (let normalized = py_lower (py_strip email) in
      if email_valid normalized \<and> length password \<ge> 6 then Inr normalized else Inl (HTTPError 422))"

definition sanitize_full_name :: "str \<Rightarrow> exn + str" where
  "sanitize_full_name value =
     (let cleaned = py_strip value in
      if value = [] \<or> cleaned = [] \<or> list_ex (\<lambda>c. \<not> is_printable c) cleaned then Inl (HTTPError 422) else Inr cleaned)"

definition profile_field :: "nat \<Rightarrow> bool \<Rightarrow> str option \<Rightarrow> exn + str option" where
  "profile_field min_length printable_only value =
     (case value of
        None \<Rightarrow> Inr None
      | Some v \<Rightarrow>
          (let cleaned = py_strip v in
           if length cleaned < min_length \<or> length cleaned > 255 \<or> (printable_only \<and> list_ex (\<lambda>c. \<not> is_printable c) cleaned)
           then Inl (HTTPError 422) else Inr (Some cleaned)))"

definition profile_update_request :: "str option \<Rightarrow> str option \<Rightarrow> exn + (str option \<times> str option)" where
  "profile_update_request full_name stellar_wallet =
     (case profile_field 1 True full_name of
        Inl e \<Rightarrow> Inl e
      | Inr n \<Rightarrow> (case profile_field 0 False stellar_wallet of Inl e \<Rightarrow> Inl e | Inr w \<Rightarrow> Inr (n, w)))"

text \<open>The address pattern: a non-empty local part, one at sign, and a domain with an inner dot, without white space.\<close>

fun split_at :: "char \<Rightarrow> string \<Rightarrow> string list" where
  "split_at d [] = [[]]"
| "split_at d (c # cs) =
     (if c = d then [] # split_at d cs else (case split_at d cs of [] \<Rightarrow> [[c]] | p # ps \<Rightarrow> (c # p) # ps))"

definition email_pattern :: "str \<Rightarrow> bool" where
  "email_pattern s \<longleftrightarrow>
     (case split_at (CHR ''@'') s of
        [l, d] \<Rightarrow> l \<noteq> [] \<and> list_all (\<lambda>c. \<not> is_blank c) l \<and> list_all (\<lambda>c. \<not> is_blank c) d \<and>
                  list_ex (\<lambda>i. d ! i = CHR ''.'') [1..<length d - 1]
      | _ \<Rightarrow> False)"

definition validate_email_param :: "str \<Rightarrow> exn + str" where
  "validate_email_param email =
     (let cleaned = py_lower (py_strip email) in if email_pattern cleaned then Inr cleaned else Inl (HTTPError 422))"

section \<open>Administrative handlers\<close>

definition admin_create_user_endpoint ::
  "auth_cfg \<Rightarrow> auth_user \<Rightarrow> str \<Rightarrow> str \<Rightarrow> str \<Rightarrow> role \<Rightarrow> auth_db \<Rightarrow> (auth_user, auth_db) outcome" where
  "admin_create_user_endpoint cfg admin_user email password full_name role db =
     (case admin_create_user cfg email password full_name role admin_user db of
        (Inl ValueError, db1) \<Rightarrow> (Inl (HTTPError 400), db1)
      | r \<Rightarrow> r)"

definition get_admin_session_inventory ::
  "auth_cfg \<Rightarrow> str \<Rightarrow> nat \<Rightarrow> nat \<Rightarrow> auth_db \<Rightarrow> exn + session_info list \<times> nat \<times> nat" where
  "get_admin_session_inventory cfg email limit offset db =
     (case validate_email_param email of Inl e \<Rightarrow> Inl e | Inr em \<Rightarrow> Inr (get_session_inventory cfg em limit offset db))"

definition admin_logout_all_sessions :: "auth_cfg \<Rightarrow> str \<Rightarrow> auth_db \<Rightarrow> (nat, auth_db) outcome" where
  "admin_logout_all_sessions cfg email db =
     (case validate_email_param email of
        Inl e \<Rightarrow> (Inl e, db)
      | Inr em \<Rightarrow> (case logout_all_sessions cfg em db of (n, db1) \<Rightarrow> (Inr n, db1)))"

definition require_engineer_or_admin :: "auth_user \<Rightarrow> exn + auth_user" where
  "require_engineer_or_admin u = (if au_role u \<in> {Engineer, Admin} then Inr u else Inl (HTTPError 403))"

text \<open>
  The export: the JSON documents go through the serializer and the archiver of the standard library, \<open>dumps\<close> and \<open>pack\<close>.
\<close>

definition export_document :: "auth_cfg \<Rightarrow> user_row \<Rightarrow> auth_db \<Rightarrow> json \<times> nat" where
  "export_document cfg u db =
     (let entries = sort_desc a_created_at (filter (\<lambda>a. a_email a = Some (u_email u) \<or> a_actor_id a = Some (u_id u)) (rows (audit db)));
          stamp = (\<lambda>t. JStr (isoformat (auditing (ac_env cfg)) t)) in
      (JObj [(''exported_at'', stamp (now (ac_env cfg))),
             (''user'', JObj [(''id'', JStr (u_id u)), (''email'', JStr (u_email u)), (''full_name'', json_opt (u_full_name u)),
                (''role'', JStr (role_value (u_role u))), (''stellar_wallet'', json_opt (u_stellar_wallet u)),
                (''created_at'', stamp (u_created_at u))]),
             (''audit_logs'', JList (map (\<lambda>a. JObj [(''event_type'', JStr (a_event_type a)),
                (''correlation_id'', json_opt (a_correlation_id a)), (''details'', JObj (a_details a)),
                (''created_at'', stamp (a_created_at a))]) entries)),
             (''audit_log_count'', JInt (int (length entries)))],
       length entries))"

definition export_user_data ::
  "auth_cfg \<Rightarrow> (json \<Rightarrow> str) \<Rightarrow> ((str \<times> str) list \<Rightarrow> str) \<Rightarrow> user_row \<Rightarrow> auth_db \<Rightarrow> str \<times> auth_db" where
  "export_user_data cfg dumps pack u db =
     (case export_document cfg u db of (doc, n) \<Rightarrow>
        (let bytes = dumps doc;
             metadata = dumps (JObj [(''total_audit_log_entries'', JInt (int n)), (''truncated'', JBool (length bytes > 10 * 1024 * 1024))]);
             tar = pack [(''user_data.json'', bytes), (''_metadata.json'', metadata)] in
         (tar, log_auth cfg ''gdpr_export'' (Some (u_email u)) (Some (u_id u))
                 (Some [(''export_size_bytes'', JInt (int (length tar)))]) db)))"

definition export_my_data ::
  "auth_cfg \<Rightarrow> (json \<Rightarrow> str) \<Rightarrow> ((str \<times> str) list \<Rightarrow> str) \<Rightarrow> auth_user \<Rightarrow> auth_db \<Rightarrow> (str, auth_db) outcome" where
  "export_my_data cfg dumps pack current_user db =
     (case get_by_id (au_id current_user) db of
        None \<Rightarrow> (Inl (HTTPError 404), db)
      | Some u \<Rightarrow> (case export_user_data cfg dumps pack u db of (tar, db1) \<Rightarrow> (Inr tar, db1)))"

section \<open>API keys\<close>

record api_key_row =
  k_id :: str
  k_hashed_key :: str
  k_name :: "str option"
  k_scopes :: "str list"
  k_expires_at :: "time option"
  k_revoked_at :: "time option"
  k_created_at :: time
  k_created_by :: str

record key_state =
  ks_db :: auth_db
  ks_keys :: "api_key_row list"

definition KNOWN_SCOPES :: "str list" where
  "KNOWN_SCOPES = [''outages:read'', ''outages:write'', ''sla:read'', ''sla:write'', ''payments:read'', ''payments:write'',
     ''webhooks:read'', ''webhooks:write'', ''admin:full'']"

definition key_expired :: "time \<Rightarrow> time option \<Rightarrow> bool" where
  "key_expired t expires_at \<longleftrightarrow> (case expires_at of None \<Rightarrow> False | Some e \<Rightarrow> e \<le> t)"

definition key_status :: "time \<Rightarrow> time option \<Rightarrow> time option \<Rightarrow> str" where
  "key_status t revoked_at expires_at =
     (if revoked_at \<noteq> None then ''revoked'' else if key_expired t expires_at then ''expired'' else ''active'')"

definition key_request_valid :: "time \<Rightarrow> str list \<Rightarrow> time option \<Rightarrow> bool" where
  "key_request_valid t scopes expires_at \<longleftrightarrow> list_all (\<lambda>s. s \<in> set KNOWN_SCOPES) scopes \<and> \<not> key_expired t expires_at"

text \<open>\<open>generate_api_key\<close>: \<open>urlsafe\<close> renders the random bytes drawn at a counter value.\<close>

definition generate_api_key :: "auth_cfg \<Rightarrow> (nat \<Rightarrow> str) \<Rightarrow> auth_db \<Rightarrow> (str \<times> str) \<times> auth_db" where
  "generate_api_key cfg urlsafe db =
     (let raw_key = ''ak_'' @ urlsafe (uuid_count db) in ((raw_key, hash_token cfg raw_key), db\<lparr>uuid_count := uuid_count db + 1\<rparr>))"

definition create_api_key ::
  "auth_cfg \<Rightarrow> (nat \<Rightarrow> str) \<Rightarrow> str option \<Rightarrow> str list \<Rightarrow> str \<Rightarrow> time option \<Rightarrow> key_state \<Rightarrow> (api_key_row \<times> str, key_state) outcome" where
  "create_api_key cfg urlsafe name scopes created_by expires_at st =
     (case generate_api_key cfg urlsafe (ks_db st) of ((raw_key, hashed), db1) \<Rightarrow>
      case draw cfg db1 of (key_id, db2) \<Rightarrow>
        (let k = \<lparr>k_id = key_id, k_hashed_key = hashed, k_name = name, k_scopes = scopes, k_expires_at = expires_at,
                  k_revoked_at = None, k_created_at = now (ac_env cfg), k_created_by = created_by\<rparr> in
         if list_ex (\<lambda>x. k_id x = key_id \<or> k_hashed_key x = hashed) (ks_keys st) then (Inl IntegrityError, st\<lparr>ks_db := db2\<rparr>)
         else (Inr (k, raw_key), st\<lparr>ks_db := db2, ks_keys := ks_keys st @ [k]\<rparr>)))"

definition get_key_by_hash :: "str \<Rightarrow> key_state \<Rightarrow> api_key_row option" where
  "get_key_by_hash hashed st = find (\<lambda>k. k_hashed_key k = hashed) (ks_keys st)"

definition revoke_key :: "time \<Rightarrow> str \<Rightarrow> key_state \<Rightarrow> bool \<times> key_state" where
  "revoke_key t key_id st =
     (case find (\<lambda>k. k_id k = key_id) (ks_keys st) of
        None \<Rightarrow> (False, st)
      | Some _ \<Rightarrow> (True, st\<lparr>ks_keys := update_first (\<lambda>k. k_id k = key_id) (k_revoked_at_update (\<lambda>_. Some t)) (ks_keys st)\<rparr>))"

definition list_api_keys :: "key_state \<Rightarrow> api_key_row list" where
  "list_api_keys st = sort_desc k_created_at (ks_keys st)"

definition is_revoked_cached :: "(str \<Rightarrow> str option) \<Rightarrow> str \<Rightarrow> bool" where
  "is_revoked_cached redis key_id \<longleftrightarrow> redis (''api_key:revoked:'' @ key_id) = Some ''1''"

definition log_key :: "auth_cfg \<Rightarrow> str \<Rightarrow> auth_user \<Rightarrow> (str \<times> json) list \<Rightarrow> key_state \<Rightarrow> key_state" where
  "log_key cfg event_type u details st = st\<lparr>ks_db := log_auth cfg event_type None (Some (au_id u)) (Some details) (ks_db st)\<rparr>"

definition create_api_key_endpoint ::
  "auth_cfg \<Rightarrow> (nat \<Rightarrow> str) \<Rightarrow> auth_user \<Rightarrow> str option \<Rightarrow> str list \<Rightarrow> time option \<Rightarrow> key_state \<Rightarrow> (str \<times> str, key_state) outcome" where
  "create_api_key_endpoint cfg urlsafe current_user name scopes expires_at st =
     (if \<not> key_request_valid (now (ac_env cfg)) scopes expires_at then (Inl (HTTPError 422), st)
      else (case create_api_key cfg urlsafe name scopes (au_email current_user) expires_at st of
              (Inl e, st1) \<Rightarrow> (Inl e, st1)
            | (Inr (k, raw_key), st1) \<Rightarrow>
                (Inr (k_id k, raw_key),
                 log_key cfg ''api_key_created'' current_user
                   [(''key_id'', JStr (k_id k)), (''name'', json_opt name), (''scopes'', JList (map JStr scopes)),
                    (''created_by'', JStr (au_email current_user))] st1)))"

definition list_api_keys_endpoint :: "time \<Rightarrow> key_state \<Rightarrow> (api_key_row \<times> str) list" where
  "list_api_keys_endpoint t st = map (\<lambda>k. (k, key_status t (k_revoked_at k) (k_expires_at k))) (list_api_keys st)"

definition revoke_api_key_endpoint :: "auth_cfg \<Rightarrow> auth_user \<Rightarrow> str \<Rightarrow> key_state \<Rightarrow> (unit, key_state) outcome" where
  "revoke_api_key_endpoint cfg current_user key_id st =
     (case revoke_key (now (ac_env cfg)) key_id st of
        (False, st1) \<Rightarrow> (Inl (HTTPError 404), st1)
      | (True, st1) \<Rightarrow>
          (Inr (), log_key cfg ''api_key_revoked'' current_user
                     [(''key_id'', JStr key_id), (''revoked_by'', JStr (au_email current_user))] st1))"

text \<open>The combined check.  An actor is a service, with the scopes of its key, or a user, without scopes.\<close>

datatype actor = Service str "str list" | Person auth_user

fun actor_scopes :: "actor \<Rightarrow> str list" where
  "actor_scopes (Service _ scopes) = scopes" | "actor_scopes (Person _) = []"

definition get_current_user_or_service ::
  "auth_cfg \<Rightarrow> (str \<Rightarrow> jwt_claims option) \<Rightarrow> bool \<Rightarrow> revocations \<Rightarrow> str option \<Rightarrow> str option \<Rightarrow> key_state \<Rightarrow> (actor, key_state) outcome" where
  "get_current_user_or_service cfg decode up rv authorization x_api_key st =
     (if truthy x_api_key
      then (case get_key_by_hash (hash_token cfg (the x_api_key)) st of
              None \<Rightarrow> (Inl (HTTPError 401), st)
            | Some key \<Rightarrow>
                if k_revoked_at key \<noteq> None then (Inl (HTTPError 401), st)
                else if (case k_expires_at key of None \<Rightarrow> False | Some e \<Rightarrow> e < now (ac_env cfg)) then (Inl (HTTPError 401), st)
                else (Inr (Service (k_id key) (k_scopes key)), st))
      else if truthy authorization
      then (case get_current_user cfg decode up rv authorization (ks_db st) of
              (Inl e, db1) \<Rightarrow> (Inl e, st\<lparr>ks_db := db1\<rparr>)
            | (Inr u, db1) \<Rightarrow> (Inr (Person u), st\<lparr>ks_db := db1\<rparr>))
      else (Inl (HTTPError 401), st))"

definition require_scope :: "str \<Rightarrow> actor \<Rightarrow> exn + actor" where
  "require_scope required a = (if required \<in> set (actor_scopes a) then Inr a else Inl (HTTPError 403))"

section \<open>Keyed token hash\<close>

definition hex_of_bytes :: "string \<Rightarrow> string" where
  "hex_of_bytes bs = concat (map (\<lambda>b. let n = (of_char b :: nat) in [hex_digit (n div 16), hex_digit (n mod 16)]) bs)"

text \<open>\<open>bytes.fromhex\<close>: ASCII white space between bytes is skipped, anything else raises.\<close>

fun from_hex :: "string \<Rightarrow> exn + string" where
  "from_hex [] = Inr []"
| "from_hex [c] = (if c \<in> set [CHR '' '', CHR 0x09, CHR 0x0A, CHR 0x0B, CHR 0x0C, CHR 0x0D] then Inr [] else Inl ValueError)"
| "from_hex (c # d # cs) =
     (if c \<in> set [CHR '' '', CHR 0x09, CHR 0x0A, CHR 0x0B, CHR 0x0C, CHR 0x0D] then from_hex (d # cs)
      else (case (hex_value c, hex_value d) of
              (Some a, Some b) \<Rightarrow> (case from_hex cs of Inl e \<Rightarrow> Inl e | Inr bs \<Rightarrow> Inr (char_of (16 * a + b) # bs))
            | _ \<Rightarrow> Inl ValueError))"

definition hash_token_keyed :: "(str \<Rightarrow> str \<Rightarrow> str) \<Rightarrow> str \<Rightarrow> str \<Rightarrow> str option \<Rightarrow> str \<Rightarrow> str" where
  "hash_token_keyed hmac token server_secret salt urandom =
     (let s = (if truthy salt then the salt else urandom) in hex_of_bytes s @ '':'' @ hmac server_secret (s @ token))"

definition verify_token_keyed :: "(str \<Rightarrow> str \<Rightarrow> str) \<Rightarrow> str \<Rightarrow> str \<Rightarrow> str \<Rightarrow> exn + bool" where
  "verify_token_keyed hmac token server_secret stored =
     (case partition_at (CHR '':'') stored of (salt_hex, expected) \<Rightarrow>
        (case from_hex salt_hex of Inl e \<Rightarrow> Inl e | Inr salt \<Rightarrow>
           if list_ex (\<lambda>c. (of_char c :: nat) > 127) expected then Inl TypeError
           else Inr (hmac server_secret (salt @ token) = expected)))"

section \<open>Key administration\<close>

inductive key_step :: "key_state \<Rightarrow> key_state \<Rightarrow> bool" where
  creating_key: "key_step st (snd (create_api_key_endpoint cfg urlsafe u name scopes expires_at st))"
| revoking_key: "key_step st (snd (revoke_api_key_endpoint cfg u key_id st))"

definition keys_ok :: "api_key_row list \<Rightarrow> bool" where
  "keys_ok ks \<longleftrightarrow> distinct (map k_id ks) \<and> distinct (map k_hashed_key ks) \<and> (\<forall>k \<in> set ks. set (k_scopes k) \<subseteq> set KNOWN_SCOPES)"

lemma ks_keys_log_key [simp]: "ks_keys (log_key cfg ev u d st) = ks_keys st"
  by (simp add: log_key_def)

lemma create_key_table:
  "(ks_keys (snd (create_api_key_endpoint cfg urlsafe u name scopes e st)) = ks_keys st) \<or>
   (\<exists>k. ks_keys (snd (create_api_key_endpoint cfg urlsafe u name scopes e st)) = ks_keys st @ [k] \<and> k_revoked_at k = None \<and>
      set (k_scopes k) \<subseteq> set KNOWN_SCOPES \<and> (\<forall>x \<in> set (ks_keys st). k_id x \<noteq> k_id k \<and> k_hashed_key x \<noteq> k_hashed_key k))"
  by (auto simp: create_api_key_endpoint_def create_api_key_def generate_api_key_def draw_def Let_def key_request_valid_def
      list_ex_iff list_all_iff)

lemma revoke_key_table:
  "\<exists>t. ks_keys (snd (revoke_api_key_endpoint cfg u key_id st)) =
     update_first (\<lambda>k. k_id k = key_id) (k_revoked_at_update (\<lambda>_. Some t)) (ks_keys st)"
proof -
  have "find P xs = None \<Longrightarrow> update_first P g xs = xs" for P and g :: "api_key_row \<Rightarrow> api_key_row" and xs by (induction xs) (auto split: if_splits)
  then show ?thesis by (auto simp: revoke_api_key_endpoint_def revoke_key_def split: option.split)
qed

lemma key_step_ok: "key_step st st' \<Longrightarrow> keys_ok (ks_keys st) \<Longrightarrow> keys_ok (ks_keys st')"
proof (induction rule: key_step.induct)
  case (creating_key st cfg urlsafe u name scopes e)
  from create_key_table [of cfg urlsafe u name scopes e st] creating_key show ?case
    by (elim disjE exE) (auto simp: keys_ok_def)
next
  case (revoking_key st cfg u key_id)
  obtain t where t: "ks_keys (snd (revoke_api_key_endpoint cfg u key_id st)) =
     update_first (\<lambda>k. k_id k = key_id) (k_revoked_at_update (\<lambda>_. Some t)) (ks_keys st)" using revoke_key_table by blast
  from revoking_key show ?case unfolding t keys_ok_def
    by (simp add: map_update_first_key) (fastforce dest!: set_update_first)
qed

text \<open>The rows that have been revoked, by their hash, only grow.\<close>

definition dead_key :: "str \<Rightarrow> key_state \<Rightarrow> bool" where
  "dead_key h st \<longleftrightarrow> (\<exists>k. get_key_by_hash h st = Some k \<and> k_revoked_at k \<noteq> None)"

lemma revoked_row_stays:
  "find (\<lambda>k. k_hashed_key k = h) ks = Some k \<Longrightarrow> k_revoked_at k \<noteq> None \<Longrightarrow>
   \<exists>k'. find (\<lambda>k. k_hashed_key k = h) (update_first (\<lambda>k. k_id k = key_id) (k_revoked_at_update (\<lambda>_. Some t)) ks) = Some k' \<and> k_revoked_at k' \<noteq> None"
  by (induction ks) (auto split: if_splits)

lemma key_step_dead: "key_step st st' \<Longrightarrow> dead_key h st \<Longrightarrow> dead_key h st'"
proof (induction rule: key_step.induct)
  case (creating_key st cfg urlsafe u name scopes e)
  from create_key_table [of cfg urlsafe u name scopes e st] creating_key show ?case
    by (auto simp: dead_key_def get_key_by_hash_def)
next
  case (revoking_key st cfg u key_id)
  obtain t where t: "ks_keys (snd (revoke_api_key_endpoint cfg u key_id st)) =
     update_first (\<lambda>k. k_id k = key_id) (k_revoked_at_update (\<lambda>_. Some t)) (ks_keys st)" using revoke_key_table by blast
  from revoking_key obtain k where "find (\<lambda>k. k_hashed_key k = h) (ks_keys st) = Some k" "k_revoked_at k \<noteq> None"
    by (auto simp: dead_key_def get_key_by_hash_def)
  from revoked_row_stays [OF this] show ?case unfolding dead_key_def get_key_by_hash_def t .
qed

lemma dead_key_refused:
  "dead_key (hash_token cfg raw) st \<Longrightarrow> raw \<noteq> [] \<Longrightarrow>
   get_current_user_or_service cfg decode up rv authorization (Some raw) st = (Inl (HTTPError 401), st)"
  by (auto simp: dead_key_def get_current_user_or_service_def)

text \<open>C14. Revoking a stored API key succeeds, and from then on no request that presents the key is let in, whatever keys are created or revoked later.\<close>

theorem revoked_key_is_dead:
  assumes ok: "keys_ok (ks_keys st)" and key: "k \<in> set (ks_keys st)" "k_hashed_key k = hash_token cfg raw" "raw \<noteq> []"
    and revoked: "revoke_api_key_endpoint cfg' admin (k_id k) st = (r, st1)" and steps: "key_step\<^sup>*\<^sup>* st1 st2"
  shows "r = Inr () \<and> get_current_user_or_service cfg decode up rv authorization (Some raw) st2 = (Inl (HTTPError 401), st2)"
proof
  have found: "find (\<lambda>x. k_id x = k_id k) (ks_keys st) = Some k" "find (\<lambda>x. k_hashed_key x = k_hashed_key k) (ks_keys st) = Some k"
    using ok key(1) by (auto simp: keys_ok_def intro: find_key_unique)
  with revoked show "r = Inr ()" by (auto simp: revoke_api_key_endpoint_def revoke_key_def)
  have st1: "ks_keys st1 = update_first (\<lambda>x. k_id x = k_id k) (k_revoked_at_update (\<lambda>_. Some (now (ac_env cfg')))) (ks_keys st)"
    using found(1) revoked by (auto simp: revoke_api_key_endpoint_def revoke_key_def)
  have upd: "k\<lparr>k_revoked_at := Some (now (ac_env cfg'))\<rparr> \<in> set (ks_keys st1)" unfolding st1
    using ok key(1) by (intro find_Some_set [where P = "\<lambda>x. k_id x = k_id k"]) (simp add: find_update_first found(1))
  have "distinct (map k_hashed_key (ks_keys st1))" unfolding st1 using ok by (simp add: keys_ok_def map_update_first_key)
  from find_key_unique [OF this upd] have "dead_key (hash_token cfg raw) st1"
    by (simp add: dead_key_def get_key_by_hash_def key(2))
  with steps have "dead_key (hash_token cfg raw) st2"
    by (induction rule: rtranclp_induct) (auto dest: key_step_dead)
  then show "get_current_user_or_service cfg decode up rv authorization (Some raw) st2 = (Inl (HTTPError 401), st2)"
    by (rule dead_key_refused [OF _ key(3)])
qed

text \<open>Whoever passes a scope check presented an API key that is stored, not revoked, not past its expiry and carries the scope, and the scope is one of the registry; a user session never passes one.\<close>

theorem scoped_access_needs_live_key:
  assumes steps: "key_step\<^sup>*\<^sup>* st0 st" and ok: "keys_ok (ks_keys st0)"
    and actor: "get_current_user_or_service cfg decode up rv authorization x_api_key st = (Inr a, st')" "require_scope scope a = Inr b"
  shows "\<exists>raw k. x_api_key = Some raw \<and> k \<in> set (ks_keys st) \<and> k_hashed_key k = hash_token cfg raw \<and> k_revoked_at k = None \<and>
     (\<forall>e. k_expires_at k = Some e \<longrightarrow> now (ac_env cfg) \<le> e) \<and> scope \<in> set (k_scopes k) \<and> scope \<in> set KNOWN_SCOPES"
proof -
  from steps ok have ok': "keys_ok (ks_keys st)" by (induction rule: rtranclp_induct) (auto dest: key_step_ok)
  from actor(2) have scope: "scope \<in> set (actor_scopes a)" by (auto simp: require_scope_def split: if_splits)
  then obtain kid scopes where a: "a = Service kid scopes" by (cases a) auto
  show ?thesis
  proof (cases "truthy x_api_key")
    case True
    then obtain raw where raw: "x_api_key = Some raw" by (cases x_api_key) auto
    from actor(1) True obtain k where k: "get_key_by_hash (hash_token cfg raw) st = Some k"
      "k_revoked_at k = None" "\<not> (case k_expires_at k of None \<Rightarrow> False | Some e \<Rightarrow> e < now (ac_env cfg))" "a = Service (k_id k) (k_scopes k)"
      unfolding get_current_user_or_service_def raw by (auto split: option.splits if_splits)
    from k(1) have mem: "k \<in> set (ks_keys st)" "k_hashed_key k = hash_token cfg raw"
      by (auto simp: get_key_by_hash_def dest: find_Some_P find_Some_set)
    have "scope \<in> set (k_scopes k)" using scope k(4) by simp
    moreover have "scope \<in> set KNOWN_SCOPES" using ok' mem(1) calculation by (auto simp: keys_ok_def)
    moreover have "\<forall>e. k_expires_at k = Some e \<longrightarrow> now (ac_env cfg) \<le> e" using k(3) by auto
    ultimately show ?thesis using raw mem k(2) by blast
  next
    case False
    with actor(1) a show ?thesis by (auto simp: get_current_user_or_service_def split: if_splits prod.splits sum.splits)
  qed
qed

section \<open>Keyed hashes verify\<close>

lemma hex_value_hex_digit: "n < 16 \<Longrightarrow> hex_value (hex_digit n) = Some n"
  by (auto simp: hex_value_def hex_digit_def Let_def)

lemma hex_digit_code: "n < 16 \<Longrightarrow> (of_char (hex_digit n) :: nat) = (if n < 10 then 48 + n else 87 + n)"
  by (simp add: hex_digit_def)

lemma hex_digit_plain:
  assumes "n < 16"
  shows "hex_digit n \<noteq> CHR '':''" "hex_digit n \<notin> set [CHR '' '', CHR 0x09, CHR 0x0A, CHR 0x0B, CHR 0x0C, CHR 0x0D]"
proof -
  have *: "hex_digit n \<noteq> c" if "(of_char c :: nat) \<noteq> of_char (hex_digit n)" for c using that by metis
  show "hex_digit n \<noteq> CHR '':''" by (rule *) (use assms in \<open>simp add: hex_digit_code\<close>)
  show "hex_digit n \<notin> set [CHR '' '', CHR 0x09, CHR 0x0A, CHR 0x0B, CHR 0x0C, CHR 0x0D]"
    using assms by (simp, intro conjI) (rule *, simp add: hex_digit_code)+
qed

lemma hex_of_bytes_Cons:
  "hex_of_bytes (b # bs) = hex_digit ((of_char b :: nat) div 16) # hex_digit ((of_char b :: nat) mod 16) # hex_of_bytes bs"
  by (simp add: hex_of_bytes_def Let_def)

lemma byte_bound: "(of_char b :: nat) div 16 < 16"
  using nat_of_char_less_256 [of b] by (simp add: less_mult_imp_div_less)

lemma from_hex_hex_of_bytes: "from_hex (hex_of_bytes bs) = Inr bs"
proof (induction bs)
  case (Cons b bs)
  let ?n = "of_char b :: nat"
  have d: "?n div 16 < 16" "?n mod 16 < 16" by (simp_all add: byte_bound)
  have "char_of (16 * (?n div 16) + ?n mod 16) = b" by simp
  with Cons d show ?case
    by (simp only: hex_of_bytes_Cons from_hex.simps hex_digit_plain [OF d(1)] hex_value_hex_digit prod.case option.case if_False sum.case)
qed (simp add: hex_of_bytes_def)

lemma hex_of_bytes_no_colon: "CHR '':'' \<notin> set (hex_of_bytes bs)"
proof (induction bs)
  case (Cons b bs)
  have "(of_char b :: nat) div 16 < 16" "(of_char b :: nat) mod 16 < 16" by (simp_all add: byte_bound)
  with Cons hex_digit_plain(1) show ?case by (metis hex_of_bytes_Cons set_ConsD)
qed (simp add: hex_of_bytes_def)

text \<open>A keyed token hash verifies: the stored salt is recovered from its hexadecimal form, and a candidate is accepted exactly when its digest under that salt equals the digest of the token.\<close>

theorem keyed_hash_roundtrip:
  assumes "\<And>k m. list_all (\<lambda>c. (of_char c :: nat) \<le> 127) (hmac k m)"
  shows "verify_token_keyed hmac candidate secret (hash_token_keyed hmac token secret salt urandom) =
    Inr (hmac secret ((if truthy salt then the salt else urandom) @ candidate) =
         hmac secret ((if truthy salt then the salt else urandom) @ token))"
proof -
  let ?s = "if truthy salt then the salt else urandom"
  have "list_ex (\<lambda>c. (of_char c :: nat) > 127) (hmac secret (?s @ token)) = False"
    using assms by (fastforce simp: list_ex_iff list_all_iff)
  then show ?thesis
    by (simp add: verify_token_keyed_def hash_token_keyed_def Let_def partition_at_append hex_of_bytes_no_colon from_hex_hex_of_bytes)
qed

section \<open>A concrete key\<close>

definition sample_key :: api_key_row where
  "sample_key = \<lparr>k_id = ''k1'', k_hashed_key = ''ak_x'', k_name = None, k_scopes = [''sla:read''], k_expires_at = Some 9,
     k_revoked_at = None, k_created_at = 1, k_created_by = ''a''\<rparr>"

definition sample_keys :: key_state where
  "sample_keys = \<lparr>ks_db = sample_auth_db, ks_keys = [sample_key]\<rparr>"

lemma sample_keys_ok: "keys_ok (ks_keys sample_keys)"
  by (simp add: keys_ok_def sample_keys_def sample_key_def KNOWN_SCOPES_def)

lemma sample_hash [simp]: "hash_token (sample_auth_cfg t) raw = raw"
  by (simp add: hash_token_def sample_auth_cfg_def sample_env_def)

theorem revoked_key_is_dead_witness:
  "\<exists>st. revoke_api_key_endpoint (sample_auth_cfg 5) (user_orm_to_pydantic sample_user) ''k1'' sample_keys = (Inr (), st) \<and>
     get_current_user_or_service (sample_auth_cfg 6) (\<lambda>_. None) True [] None (Some ''ak_x'') st = (Inl (HTTPError 401), st)"
proof -
  obtain r st where run: "revoke_api_key_endpoint (sample_auth_cfg 5) (user_orm_to_pydantic sample_user) (k_id sample_key) sample_keys = (r, st)"
    by fastforce
  have "r = Inr () \<and> get_current_user_or_service (sample_auth_cfg 6) (\<lambda>_. None) True [] None (Some ''ak_x'') st = (Inl (HTTPError 401), st)"
    by (rule revoked_key_is_dead [OF sample_keys_ok _ _ _ run rtranclp.rtrancl_refl]) (simp_all add: sample_keys_def, simp add: sample_key_def)
  with run show ?thesis by (simp add: sample_key_def)
qed

theorem scoped_access_needs_live_key_witness:
  "\<exists>a b. get_current_user_or_service (sample_auth_cfg 9) (\<lambda>_. None) True [] None (Some ''ak_x'') sample_keys = (Inr a, sample_keys) \<and>
     require_scope ''sla:read'' a = Inr b \<and> ''sla:read'' \<in> set KNOWN_SCOPES"
proof -
  let ?a = "Service ''k1'' [''sla:read'']"
  have a: "get_current_user_or_service (sample_auth_cfg 9) (\<lambda>_. None) True [] None (Some ''ak_x'') sample_keys = (Inr ?a, sample_keys)"
    by (simp add: get_current_user_or_service_def get_key_by_hash_def sample_keys_def) (simp add: sample_key_def sample_auth_cfg_def sample_env_def)
  have b: "require_scope ''sla:read'' ?a = Inr ?a" by (simp add: require_scope_def)
  from scoped_access_needs_live_key [OF rtranclp.rtrancl_refl sample_keys_ok a b] a b show ?thesis by blast
qed

theorem keyed_hash_roundtrip_witness:
  "verify_token_keyed (\<lambda>k m. if m = ''st'' then ''a'' else ''b'') ''t'' ''key'' (hash_token_keyed (\<lambda>k m. if m = ''st'' then ''a'' else ''b'') ''t'' ''key'' (Some ''s'') []) = Inr True"
  by (subst keyed_hash_roundtrip) simp_all

end
