(* ===== verification/Caches.thy ===== *)
theory Caches
  imports Audit_Trail "HOL-Library.AList"
begin

text \<open>
  The caches: the in-process \<open>TTLCache\<close> of \<^verbatim>\<open>utils/cache.py\<close>, the Redis layer with retries and a cool-down of
  \<^verbatim>\<open>services/cache_layer.py\<close> and \<^verbatim>\<open>services/sla_cache.py\<close> over it, the plain read-through caches of users, sessions and
  wallets, and the subscriber cache of the event listener.  Locale \<open>honest_cache\<close> states what a reader relies on: a cache
  answers with nothing, or with a value that was stored under the key.
\<close>

section \<open>In-process cache\<close>

type_synonym 'v ttl_cache = "(str \<times> 'v \<times> time) list"

definition ttl_get :: "time \<Rightarrow> str \<Rightarrow> 'v ttl_cache \<Rightarrow> 'v option \<times> 'v ttl_cache" where
  "ttl_get t key c =
     (case map_of c key of
        None \<Rightarrow> (None, c)
      | Some (v, expires_at) \<Rightarrow> if t > expires_at then (None, AList.delete key c) else (Some v, c))"

definition ttl_set :: "time \<Rightarrow> time \<Rightarrow> str \<Rightarrow> 'v \<Rightarrow> 'v ttl_cache \<Rightarrow> 'v ttl_cache" where
  "ttl_set ttl t key v c = AList.update key (v, t + ttl) c"

definition ttl_invalidate :: "str \<Rightarrow> 'v ttl_cache \<Rightarrow> 'v ttl_cache" where
  "ttl_invalidate key c = AList.delete key c"

definition ttl_invalidate_prefix :: "str \<Rightarrow> 'v ttl_cache \<Rightarrow> 'v ttl_cache" where
  "ttl_invalidate_prefix p c = filter (\<lambda>(k, _). \<not> starts_with p k) c"

definition ttl_warmup :: "time \<Rightarrow> time \<Rightarrow> (str \<times> 'v) list \<Rightarrow> 'v ttl_cache \<Rightarrow> nat \<times> 'v ttl_cache" where
  "ttl_warmup ttl t items c = (length items, fold (\<lambda>(k, v). ttl_set ttl t k v) items c)"

section \<open>Redis\<close>

text \<open>Keys with a value and the time at which they vanish.\<close>

type_synonym redis_kv = "(str \<times> str \<times> time) list"

definition redis_get :: "time \<Rightarrow> str \<Rightarrow> redis_kv \<Rightarrow> str option" where
  "redis_get t key kv = (case map_of kv key of None \<Rightarrow> None | Some (v, e) \<Rightarrow> if t < e then Some v else None)"

definition redis_setex :: "time \<Rightarrow> str \<Rightarrow> time \<Rightarrow> str \<Rightarrow> redis_kv \<Rightarrow> redis_kv" where
  "redis_setex t key ttl v kv = AList.update key (v, t + ttl) kv"

definition redis_delete :: "time \<Rightarrow> str \<Rightarrow> redis_kv \<Rightarrow> nat \<times> redis_kv" where
  "redis_delete t key kv = (if redis_get t key kv = None then 0 else 1, AList.delete key kv)"

section \<open>The resilient layer\<close>

record layer_cfg =
  lc_namespace :: str
  lc_ttl :: time
  lc_max_attempts :: nat
  lc_backoff :: time
  lc_failure_threshold :: nat
  lc_cooldown :: time

record layer =
  ly_failures :: nat
  ly_disabled_until :: time
  ly_redis :: redis_kv

definition safe_key :: "str \<Rightarrow> bool" where
  "safe_key s \<longleftrightarrow> 1 \<le> length s \<and> length s \<le> 200 \<and>
     list_all (\<lambda>c. is_alnum c \<or> c \<in> {CHR '':'', CHR ''_'', CHR ''.'', CHR ''/'', CHR ''-''}) s"

definition layer_key :: "layer_cfg \<Rightarrow> str \<Rightarrow> exn + str" where
  "layer_key lc key = (if safe_key key then Inr (lc_namespace lc @ '':'' @ key) else Inl ValueError)"

text \<open>
  The attempts of \<open>_run\<close>: \<open>up i\<close> says whether attempt \<open>i\<close> reaches Redis; between attempts it sleeps.  The result is
  whether one succeeded, the failure count and the clock.
\<close>

fun run_attempts :: "layer_cfg \<Rightarrow> (nat \<Rightarrow> bool) \<Rightarrow> nat \<Rightarrow> nat \<Rightarrow> nat \<Rightarrow> time \<Rightarrow> bool \<times> nat \<times> time" where
  "run_attempts lc up 0 i failures t = (False, failures, t)"
| "run_attempts lc up (Suc n) i failures t =
     (if up i then (True, 0, t)
      else run_attempts lc up n (Suc i) (failures + 1) (if n > 0 then t + lc_backoff lc * 2 ^ i else t))"

text \<open>\<open>_run\<close>, with the clock at which the callback ran when it did.\<close>

definition layer_run :: "layer_cfg \<Rightarrow> (nat \<Rightarrow> bool) \<Rightarrow> time \<Rightarrow> layer \<Rightarrow> time option \<times> layer" where
  "layer_run lc up t ly =
     (if t < ly_disabled_until ly then (None, ly)
      else (case run_attempts lc up (lc_max_attempts lc) 0 (ly_failures ly) t of
              (True, f, t') \<Rightarrow> (Some t', ly\<lparr>ly_failures := f\<rparr>)
            | (False, f, t') \<Rightarrow>
                (None, if f \<ge> lc_failure_threshold lc then ly\<lparr>ly_failures := f, ly_disabled_until := t' + lc_cooldown lc\<rparr>
                       else ly\<lparr>ly_failures := f\<rparr>)))"

definition layer_delete :: "layer_cfg \<Rightarrow> (nat \<Rightarrow> bool) \<Rightarrow> time \<Rightarrow> str \<Rightarrow> layer \<Rightarrow> (bool, layer) outcome" where
  "layer_delete lc up t key ly =
     (case layer_key lc key of
        Inl e \<Rightarrow> (Inl e, ly)
      | Inr k \<Rightarrow> (case layer_run lc up t ly of
                    (None, ly1) \<Rightarrow> (Inr False, ly1)
                  | (Some t', ly1) \<Rightarrow> (case redis_delete t' k (ly_redis ly1) of (n, kv) \<Rightarrow> (Inr (n \<noteq> 0), ly1\<lparr>ly_redis := kv\<rparr>))))"

text \<open>\<open>loads\<close> is the JSON parser: \<open>None\<close> when it raises.  The deletion of a corrupt value has attempts of its own, \<open>up2\<close>.\<close>

definition layer_get ::
  "layer_cfg \<Rightarrow> (str \<Rightarrow> 'v option) \<Rightarrow> (nat \<Rightarrow> bool) \<Rightarrow> (nat \<Rightarrow> bool) \<Rightarrow> time \<Rightarrow> str \<Rightarrow> layer \<Rightarrow> ('v option, layer) outcome" where
  "layer_get lc loads up up2 t key ly =
     (case layer_key lc key of
        Inl e \<Rightarrow> (Inl e, ly)
      | Inr k \<Rightarrow>
          (case layer_run lc up t ly of
             (None, ly1) \<Rightarrow> (Inr None, ly1)
           | (Some t', ly1) \<Rightarrow>
               (case redis_get t' k (ly_redis ly1) of
                  None \<Rightarrow> (Inr None, ly1)
                | Some raw \<Rightarrow>
                    (case loads raw of
                       Some v \<Rightarrow> (Inr (Some v), ly1)
                     | None \<Rightarrow> (Inr None, snd (layer_delete lc up2 t' key ly1))))))"

text \<open>\<open>dumps\<close> is the serializer: \<open>None\<close> when it raises.\<close>

definition layer_set ::
  "layer_cfg \<Rightarrow> ('v \<Rightarrow> str option) \<Rightarrow> (nat \<Rightarrow> bool) \<Rightarrow> time \<Rightarrow> str \<Rightarrow> 'v \<Rightarrow> time option \<Rightarrow> layer \<Rightarrow> (bool, layer) outcome" where
  "layer_set lc dumps up t key value ttl_seconds ly =
     (case layer_key lc key of
        Inl e \<Rightarrow> (Inl e, ly)
      | Inr k \<Rightarrow>
          (let ttl = (case ttl_seconds of None \<Rightarrow> lc_ttl lc | Some s \<Rightarrow> s) in
           if ttl < 1 then (Inl ValueError, ly)
           else (case dumps value of
                   None \<Rightarrow> (Inr False, ly)
                 | Some payload \<Rightarrow>
                     (case layer_run lc up t ly of
                        (None, ly1) \<Rightarrow> (Inr False, ly1)
                      | (Some t', ly1) \<Rightarrow> (Inr True, ly1\<lparr>ly_redis := redis_setex t' k ttl payload (ly_redis ly1)\<rparr>)))))"

section \<open>SLA results\<close>

definition sla_layer :: "time \<Rightarrow> time \<Rightarrow> layer_cfg" where
  "sla_layer second ttl =
     \<lparr>lc_namespace = ''sla'', lc_ttl = ttl, lc_max_attempts = 3, lc_backoff = 5 * second div 100, lc_failure_threshold = 3,
      lc_cooldown = 10 * second\<rparr>"

definition sla_cache_get ::
  "layer_cfg \<Rightarrow> (str \<Rightarrow> json option) \<Rightarrow> (nat \<Rightarrow> bool) \<Rightarrow> (nat \<Rightarrow> bool) \<Rightarrow> time \<Rightarrow> str \<Rightarrow> str \<Rightarrow> layer \<Rightarrow> ((str \<times> json) list option, layer) outcome" where
  "sla_cache_get lc loads up up2 t device_id period ly =
     (case layer_get lc loads up up2 t (device_id @ '':'' @ period) ly of
        (Inl e, ly1) \<Rightarrow> (Inl e, ly1)
      | (Inr (Some (JObj d)), ly1) \<Rightarrow> (Inr (Some d), ly1)
      | (Inr _, ly1) \<Rightarrow> (Inr None, ly1))"

definition sla_cache_set ::
  "layer_cfg \<Rightarrow> (json \<Rightarrow> str option) \<Rightarrow> (nat \<Rightarrow> bool) \<Rightarrow> time \<Rightarrow> str \<Rightarrow> str \<Rightarrow> (str \<times> json) list \<Rightarrow> layer \<Rightarrow> (unit, layer) outcome" where
  "sla_cache_set lc dumps up t device_id period result ly =
     (case layer_set lc dumps up t (device_id @ '':'' @ period) (JObj result) None ly of
        (Inl e, ly1) \<Rightarrow> (Inl e, ly1)
      | (Inr _, ly1) \<Rightarrow> (Inr (), ly1))"

text \<open>On a miss the counter of a module that was never imported is named first.\<close>

definition sla_get_or_compute ::
  "layer_cfg \<Rightarrow> (str \<Rightarrow> json option) \<Rightarrow> (nat \<Rightarrow> bool) \<Rightarrow> (nat \<Rightarrow> bool) \<Rightarrow> time \<Rightarrow> str \<Rightarrow> str \<Rightarrow> layer \<Rightarrow> ((str \<times> json) list, layer) outcome" where
  "sla_get_or_compute lc loads up up2 t device_id period ly =
     (case sla_cache_get lc loads up up2 t device_id period ly of
        (Inl e, ly1) \<Rightarrow> (Inl e, ly1)
      | (Inr (Some d), ly1) \<Rightarrow> (Inr d, ly1)
      | (Inr None, ly1) \<Rightarrow> (Inl NameError, ly1))"

definition sla_cache_invalidate :: "layer_cfg \<Rightarrow> (nat \<Rightarrow> bool) \<Rightarrow> time \<Rightarrow> str \<Rightarrow> str \<Rightarrow> layer \<Rightarrow> (unit, layer) outcome" where
  "sla_cache_invalidate lc up t device_id period ly =
     (case layer_delete lc up t (device_id @ '':'' @ period) ly of (Inl e, ly1) \<Rightarrow> (Inl e, ly1) | (Inr _, ly1) \<Rightarrow> (Inr (), ly1))"

definition build_sla_cache_key :: "str \<Rightarrow> str \<Rightarrow> int \<Rightarrow> str" where
  "build_sla_cache_key sla_id snapshot_marker policy_version = ''sla:'' @ sla_id @ '':'' @ snapshot_marker @ '':v'' @ py_str_int policy_version"

section \<open>Plain read-through caches\<close>

text \<open>
  \<open>AuthCache\<close>, \<open>UserCache\<close> and \<open>WalletCache\<close>: one call each, an error is a miss.  They differ in the key and in the lifetime.
\<close>

definition auth_cache_key :: "str \<Rightarrow> str" where "auth_cache_key email = ''auth:user:'' @ email"
definition user_cache_key :: "str \<Rightarrow> str" where "user_cache_key email = ''user:sessions:'' @ email"
definition wallet_cache_key :: "str \<Rightarrow> str" where "wallet_cache_key address = ''wallet:'' @ address"

definition cached_get :: "(str \<Rightarrow> 'v option) \<Rightarrow> bool \<Rightarrow> time \<Rightarrow> str \<Rightarrow> redis_kv \<Rightarrow> 'v option" where
  "cached_get loads up t key kv =
     (if \<not> up then None
      else (case redis_get t key kv of None \<Rightarrow> None | Some raw \<Rightarrow> if raw = [] then None else loads raw))"

definition cached_set :: "('v \<Rightarrow> str) \<Rightarrow> time \<Rightarrow> bool \<Rightarrow> time \<Rightarrow> str \<Rightarrow> 'v \<Rightarrow> redis_kv \<Rightarrow> redis_kv" where
  "cached_set dumps ttl up t key v kv = (if up then redis_setex t key ttl (dumps v) kv else kv)"

definition cached_invalidate :: "bool \<Rightarrow> time \<Rightarrow> str \<Rightarrow> redis_kv \<Rightarrow> redis_kv" where
  "cached_invalidate up t key kv = (if up then snd (redis_delete t key kv) else kv)"

section \<open>Subscriber lists\<close>

record sub_cache =
  sc_failures :: nat
  sc_disabled_until :: time
  sc_redis :: redis_kv

record sub_cfg =
  sg_ttl :: time
  sg_failure_threshold :: nat
  sg_cooldown :: time

definition sub_key :: "str \<Rightarrow> str" where "sub_key ev = ''event_listener:subscribers:'' @ ev"

definition sub_available :: "time \<Rightarrow> sub_cache \<Rightarrow> bool" where
  "sub_available t sc \<longleftrightarrow> t \<ge> sc_disabled_until sc"

definition sub_failure :: "sub_cfg \<Rightarrow> time \<Rightarrow> sub_cache \<Rightarrow> sub_cache" where
  "sub_failure sg t sc =
     (let n = sc_failures sc + 1 in
      if n \<ge> sg_failure_threshold sg then sc\<lparr>sc_failures := n, sc_disabled_until := t + sg_cooldown sg\<rparr> else sc\<lparr>sc_failures := n\<rparr>)"

text \<open>\<open>loads_list\<close> parses a JSON list of strings; \<open>None\<close> when the value is corrupt or not a list.\<close>

definition get_subscriber_ids ::
  "sub_cfg \<Rightarrow> (str \<Rightarrow> str list option) \<Rightarrow> bool \<Rightarrow> time \<Rightarrow> str \<Rightarrow> sub_cache \<Rightarrow> str list option \<times> sub_cache" where
  "get_subscriber_ids sg loads_list up t ev sc =
     (if \<not> sub_available t sc then (None, sc)
      else if \<not> up then (None, sub_failure sg t sc)
      else (case redis_get t (sub_key ev) (sc_redis sc) of
              None \<Rightarrow> (None, sc\<lparr>sc_failures := 0\<rparr>)
            | Some raw \<Rightarrow> (if raw = [] then None else loads_list raw, sc\<lparr>sc_failures := 0\<rparr>)))"

definition set_subscriber_ids ::
  "sub_cfg \<Rightarrow> (str list \<Rightarrow> str) \<Rightarrow> bool \<Rightarrow> time \<Rightarrow> str \<Rightarrow> str list \<Rightarrow> sub_cache \<Rightarrow> sub_cache" where
  "set_subscriber_ids sg dumps_list up t ev ids sc =
     (if \<not> sub_available t sc then sc
      else if \<not> up then sub_failure sg t sc
      else sc\<lparr>sc_redis := redis_setex t (sub_key ev) (sg_ttl sg) (dumps_list ids) (sc_redis sc), sc_failures := 0\<rparr>)"

definition invalidate_subscribers :: "sub_cfg \<Rightarrow> bool \<Rightarrow> time \<Rightarrow> str \<Rightarrow> sub_cache \<Rightarrow> sub_cache" where
  "invalidate_subscribers sg up t ev sc =
     (if \<not> sub_available t sc then sc
      else if \<not> up then sub_failure sg t sc
      else sc\<lparr>sc_redis := snd (redis_delete t (sub_key ev) (sc_redis sc)), sc_failures := 0\<rparr>)"

text \<open>\<open>invalidate_all\<close>: the scan may fail after some deletions, \<open>fails_after\<close>.\<close>

definition scan_keys :: "str \<Rightarrow> time \<Rightarrow> redis_kv \<Rightarrow> str list" where
  "scan_keys prefix t kv = remdups (map fst (filter (\<lambda>(k, _). starts_with prefix k \<and> redis_get t k kv \<noteq> None) kv))"

definition invalidate_all_subscribers :: "sub_cfg \<Rightarrow> nat option \<Rightarrow> time \<Rightarrow> sub_cache \<Rightarrow> nat \<times> sub_cache" where
  "invalidate_all_subscribers sg fails_after t sc =
     (if \<not> sub_available t sc then (0, sc)
      else
        (let keys = scan_keys (sub_key []) t (sc_redis sc);
             gone = (case fails_after of None \<Rightarrow> keys | Some n \<Rightarrow> take n keys);
             sc1 = sc\<lparr>sc_redis := filter (\<lambda>(k, _). k \<notin> set gone) (sc_redis sc)\<rparr> in
         (length gone, if fails_after = None then sc1\<lparr>sc_failures := 0\<rparr> else sub_failure sg t sc1)))"

section \<open>What a reader relies on\<close>

definition read_through ::
  "('e \<Rightarrow> 'k \<Rightarrow> 's \<Rightarrow> 'v option \<times> 's) \<Rightarrow> ('e \<Rightarrow> 'k \<Rightarrow> 'v \<Rightarrow> 's \<Rightarrow> 's) \<Rightarrow> ('k \<Rightarrow> 'v) \<Rightarrow> 'e \<Rightarrow> 'k \<Rightarrow> 's \<Rightarrow> 'v \<times> 's" where
  "read_through get put f e k s = (case get e k s of (Some v, s') \<Rightarrow> (v, s') | (None, s') \<Rightarrow> (f k, put e k (f k) s'))"

text \<open>
  \<open>holds s k v\<close>: the store can answer \<open>v\<close> for \<open>k\<close>.  \<open>agrees v w\<close>: storing \<open>v\<close> may be read back as \<open>w\<close> (equality, or
  what the serializer makes of it).
\<close>

locale honest_cache =
  fixes get :: "'e \<Rightarrow> 'k \<Rightarrow> 's \<Rightarrow> 'v option \<times> 's"
    and put :: "'e \<Rightarrow> 'k \<Rightarrow> 'v \<Rightarrow> 's \<Rightarrow> 's"
    and holds :: "'s \<Rightarrow> 'k \<Rightarrow> 'v \<Rightarrow> bool"
    and agrees :: "'v \<Rightarrow> 'v \<Rightarrow> bool"
  assumes get_holds: "get e k s = (Some v, s') \<Longrightarrow> holds s k v"
    and get_keeps: "get e k s = (r, s') \<Longrightarrow> holds s' k' v \<Longrightarrow> holds s k' v"
    and set_holds: "holds (put e k v s) k' w \<Longrightarrow> k' = k \<and> agrees v w \<or> holds s k' w"
begin

lemma read_through_step:
  assumes "\<And>k v. holds s k v \<Longrightarrow> agrees (f k) v"
  shows "(fst (read_through get put f e k s) = f k \<or> agrees (f k) (fst (read_through get put f e k s))) \<and>
    (\<forall>k' v. holds (snd (read_through get put f e k s)) k' v \<longrightarrow> agrees (f k') v)"
proof (cases "get e k s")
  case (Pair r s')
  show ?thesis
  proof (cases r)
    case None
    have "agrees (f k') v" if "holds (put e k (f k) s') k' v" for k' v
      using set_holds [OF that] get_keeps [OF Pair] assms by blast
    with None Pair show ?thesis by (simp add: read_through_def)
  next
    case (Some v)
    then show ?thesis using get_holds get_keeps [OF Pair] Pair assms by (auto simp: read_through_def)
  qed
qed

lemma read_through_runs:
  assumes "\<And>k v. holds s k v \<Longrightarrow> agrees (f k) v" "agrees = (=)"
  shows "fst (read_through get put f e k (fold (\<lambda>(e, k) s. snd (read_through get put f e k s)) reads s)) = f k"
proof -
  have "\<forall>k v. holds (fold (\<lambda>(e, k) s. snd (read_through get put f e k s)) reads s) k v \<longrightarrow> agrees (f k) v"
    using assms(1)
  proof (induction reads arbitrary: s)
    case (Cons r reads)
    obtain e k where r: "r = (e, k)" by fastforce
    have "\<forall>k' v. holds (snd (read_through get put f e k s)) k' v \<longrightarrow> agrees (f k') v"
      using read_through_step [of s f] Cons.prems by blast
    with Cons.IH [of "snd (read_through get put f e k s)"] show ?case by (simp add: r)
  qed simp
  then show ?thesis using read_through_step [of "fold (\<lambda>(e, k) s. snd (read_through get put f e k s)) reads s" f e k] assms(2) by auto
qed

end

subsection \<open>The in-process cache\<close>

definition ttl_holds :: "'v ttl_cache \<Rightarrow> str \<Rightarrow> 'v \<Rightarrow> bool" where
  "ttl_holds c k v \<longleftrightarrow> (\<exists>e. map_of c k = Some (v, e))"

interpretation ttl: honest_cache ttl_get "ttl_set ttl" ttl_holds "(=)"
  by unfold_locales
     (auto simp: ttl_get_def ttl_set_def ttl_holds_def update_conv' delete_conv' split: option.splits if_splits prod.splits)

subsection \<open>The Redis layer\<close>

type_synonym attempts = "nat \<Rightarrow> bool"

definition layer_lookup :: "layer_cfg \<Rightarrow> (str \<Rightarrow> 'v option) \<Rightarrow> attempts \<times> attempts \<times> time \<Rightarrow> str \<Rightarrow> layer \<Rightarrow> 'v option \<times> layer" where
  "layer_lookup lc loads e k ly =
     (case e of (up, up2, t) \<Rightarrow> (case layer_get lc loads up up2 t k ly of (Inl _, ly1) \<Rightarrow> (None, ly1) | (Inr r, ly1) \<Rightarrow> (r, ly1)))"

definition layer_store :: "layer_cfg \<Rightarrow> ('v \<Rightarrow> str option) \<Rightarrow> attempts \<times> attempts \<times> time \<Rightarrow> str \<Rightarrow> 'v \<Rightarrow> layer \<Rightarrow> layer" where
  "layer_store lc dumps e k v ly = (case e of (_, up, t) \<Rightarrow> snd (layer_set lc dumps up t k v None ly))"

definition layer_holds :: "layer_cfg \<Rightarrow> (str \<Rightarrow> 'v option) \<Rightarrow> layer \<Rightarrow> str \<Rightarrow> 'v \<Rightarrow> bool" where
  "layer_holds lc loads ly k v \<longleftrightarrow>
     safe_key k \<and> (\<exists>p e. map_of (ly_redis ly) (lc_namespace lc @ '':'' @ k) = Some (p, e) \<and> loads p = Some v)"

lemma layer_run_redis: "layer_run lc up t ly = (r, ly1) \<Longrightarrow> ly_redis ly1 = ly_redis ly"
  by (auto simp: layer_run_def split: if_splits prod.splits bool.splits)

lemma layer_delete_redis:
  "map_of (ly_redis (snd (layer_delete lc up t k ly))) x = Some y \<Longrightarrow> map_of (ly_redis ly) x = Some y"
  by (auto simp: layer_delete_def layer_key_def redis_delete_def delete_conv' dest!: layer_run_redis split: if_splits option.splits prod.splits)

lemma layer_get_result:
  assumes "layer_get lc loads up up2 t k ly = (Inr (Some v), ly1)"
  shows "layer_holds lc loads ly k v"
  using assms by (auto simp: layer_get_def layer_key_def layer_holds_def redis_get_def dest!: layer_run_redis
      split: if_splits option.splits prod.splits)

lemma layer_get_shrinks:
  assumes "layer_get lc loads up up2 t k ly = (r, ly1)" "map_of (ly_redis ly1) x = Some y"
  shows "map_of (ly_redis ly) x = Some y"
  using assms by (auto simp: layer_get_def layer_key_def dest!: layer_run_redis layer_delete_redis
      split: if_splits option.splits prod.splits)

lemma layer_set_holds:
  assumes "map_of (ly_redis (snd (layer_set lc dumps up t k v ttl ly))) x = Some (p, e)"
  shows "x = lc_namespace lc @ '':'' @ k \<and> dumps v = Some p \<or> map_of (ly_redis ly) x = Some (p, e)"
  using assms by (auto simp: layer_set_def layer_key_def Let_def redis_setex_def update_conv' dest!: layer_run_redis
      split: if_splits option.splits prod.splits)

interpretation layered: honest_cache "layer_lookup lc loads" "layer_store lc dumps" "layer_holds lc loads"
  "\<lambda>v w. \<exists>p. dumps v = Some p \<and> loads p = Some w"
proof
  show "layer_holds lc loads ly k v" if "layer_lookup lc loads e k ly = (Some v, ly1)" for e k ly v ly1
    using that by (auto simp: layer_lookup_def intro: layer_get_result split: prod.splits sum.splits)
  show "layer_holds lc loads ly k' v" if "layer_lookup lc loads e k ly = (r, ly1)" "layer_holds lc loads ly1 k' v" for e k ly r ly1 k' v
    using that by (auto simp: layer_lookup_def layer_holds_def dest: layer_get_shrinks split: prod.splits sum.splits)
  show "k' = k \<and> (\<exists>p. dumps v = Some p \<and> loads p = Some w) \<or> layer_holds lc loads ly k' w"
    if "layer_holds lc loads (layer_store lc dumps e k v ly) k' w" for e k v ly k' w
    using that unfolding layer_store_def layer_holds_def by (cases e) (auto dest!: layer_set_holds)
qed

subsection \<open>The plain caches\<close>

definition kv_holds :: "(str \<Rightarrow> 'v option) \<Rightarrow> redis_kv \<Rightarrow> str \<Rightarrow> 'v \<Rightarrow> bool" where
  "kv_holds loads kv k v \<longleftrightarrow> (\<exists>p e. map_of kv k = Some (p, e) \<and> loads p = Some v)"

interpretation plain: honest_cache "\<lambda>(up, t) k kv. (cached_get loads up t k kv, kv)" "\<lambda>(up, t). cached_set dumps ttl up t" "kv_holds loads"
  "\<lambda>v w. loads (dumps v) = Some w"
  by unfold_locales (auto simp: cached_get_def cached_set_def kv_holds_def redis_get_def redis_setex_def update_conv'
      split: if_splits option.splits prod.splits)

section \<open>Properties\<close>



text \<open>A Redis outage costs the layer at most its configured attempts on one operation: the operation reports a miss, and once the
  failure threshold is reached every operation within the cool-down misses at once and leaves the layer as it is.\<close>

theorem layer_outage_cools_down:
  assumes "\<And>i. \<not> up i" "ly_disabled_until ly \<le> t" "lc_failure_threshold lc \<le> ly_failures ly + lc_max_attempts lc" "0 \<le> lc_backoff lc"
    and run: "layer_run lc up t ly = (r, ly1)" and "t \<le> t'" "t' < t + lc_cooldown lc"
  shows "r = None \<and> ly_failures ly1 = ly_failures ly + lc_max_attempts lc \<and> layer_run lc up' t' ly1 = (None, ly1)"
proof -
  have attempts: "\<exists>t1 \<ge> t0. run_attempts lc up n i f t0 = (False, f + n, t1)" for n i f t0
  proof (induction n arbitrary: i f t0)
    case (Suc n)
    let ?t = "if n > 0 then t0 + lc_backoff lc * 2 ^ i else t0"
    from Suc obtain t1 where "?t \<le> t1" "run_attempts lc up n (Suc i) (f + 1) ?t = (False, f + 1 + n, t1)" by blast
    moreover have "t0 \<le> ?t" using assms(4) by simp
    ultimately show ?case using assms(1) [of i] by (intro exI [of _ t1]) auto
  qed simp
  then obtain t1 where t1: "t \<le> t1" "run_attempts lc up (lc_max_attempts lc) 0 (ly_failures ly) t = (False, ly_failures ly + lc_max_attempts lc, t1)"
    by blast
  with run assms(2,3) have "r = None" "ly1 = ly\<lparr>ly_failures := ly_failures ly + lc_max_attempts lc, ly_disabled_until := t1 + lc_cooldown lc\<rparr>"
    by (auto simp: layer_run_def)
  with t1(1) assms(7) show ?thesis by (simp add: layer_run_def)
qed

theorem layer_outage_cools_down_witness:
  "\<exists>ly1. layer_run (sla_layer 100 60) (\<lambda>_. False) 5 \<lparr>ly_failures = 0, ly_disabled_until = 0, ly_redis = []\<rparr> = (None, ly1) \<and>
     layer_run (sla_layer 100 60) (\<lambda>_. True) 900 ly1 = (None, ly1)"
proof -
  obtain r ly1 where run: "layer_run (sla_layer 100 60) (\<lambda>_. False) 5 \<lparr>ly_failures = 0, ly_disabled_until = 0, ly_redis = []\<rparr> = (r, ly1)"
    by fastforce
  from layer_outage_cools_down [OF _ _ _ _ run, of 900 "\<lambda>_. True"] run show ?thesis by (simp add: sla_layer_def)
qed

end
