(* ===== verification/Jobs.thy ===== *)
theory Jobs
  imports Database Caches Batches Locks Webhooks "HOL-Library.Product_Lexorder"
begin

text \<open>
  Background jobs: the table of \<^verbatim>\<open>models/job.py\<close>, the mapping of Celery states in \<^verbatim>\<open>utils/job_states.py\<close>, the tasks and the
  enqueueing of \<^verbatim>\<open>tasks/sla_tasks.py\<close> with \<^verbatim>\<open>services/sla_service.py\<close>, the handlers of \<^verbatim>\<open>endpoints/jobs.py\<close>, retention
  (\<^verbatim>\<open>services/job_cleanup.py\<close>) and the staleness rule of \<^verbatim>\<open>stale_job_reaper.py\<close>.  JSON columns are plain: a change inside a
  loaded value is not seen by the session and is lost at the commit, which is written out where the code relies on it.
\<close>

section \<open>The table\<close>

datatype job_status = Job_PENDING | Job_STARTED | Job_SUCCESS | Job_FAILURE | Job_REVOKED

datatype job_type = SLA_COMPUTATION | WEBHOOK_DISPATCH | BULK_SLA_COMPUTATION

fun job_status_value :: "job_status \<Rightarrow> str" where
  "job_status_value Job_PENDING = ''pending''" | "job_status_value Job_STARTED = ''started''"
| "job_status_value Job_SUCCESS = ''success''" | "job_status_value Job_FAILURE = ''failure''"
| "job_status_value Job_REVOKED = ''revoked''"

fun job_type_value :: "job_type \<Rightarrow> str" where
  "job_type_value SLA_COMPUTATION = ''sla_computation''" | "job_type_value WEBHOOK_DISPATCH = ''webhook_dispatch''"
| "job_type_value BULK_SLA_COMPUTATION = ''bulk_sla_computation''"

text \<open>Structured progress: its fields, and the one field that is not an integer, \<open>progress_percentage\<close>.\<close>

record progress_details =
  pd_fields :: "(str \<times> json) list"
  pd_percentage :: "rat option"

record job_row =
  j_id :: str
  j_celery_task_id :: str
  j_job_type :: job_type
  j_status :: job_status
  j_payload :: "json option"
  j_result :: "json option"
  j_error :: "str option"
  j_progress :: rat
  j_progress_details :: "progress_details option"
  j_partial_results :: "(str \<times> json) list option"
  j_per_item_errors :: "(str \<times> str) list option"
  j_retry_count :: int
  j_max_retries :: int
  j_last_retried_at :: "time option"
  j_started_at :: "time option"
  j_finished_at :: "time option"
  j_created_at :: time
  j_updated_at :: time

datatype task_call =
    Compute_sla_for_device str str
  | Compute_bulk_sla "str list" str
  | Dispatch_webhook_delivery json

record job_state =
  js_db :: database
  js_jobs :: "job_row list"
  js_cache :: "job_status ttl_cache"
  js_queue :: "(str \<times> task_call) list"

record job_env =
  je_env :: env
  je_clock :: time
  je_ttl :: time
  je_day :: time
  je_celery_state :: "str \<Rightarrow> str"
  je_lock :: bool
  je_loads :: "str \<Rightarrow> json option"
  je_exc_text :: "exn \<Rightarrow> str"
  je_actor :: str

definition terminal :: "job_status \<Rightarrow> bool" where
  "terminal s \<longleftrightarrow> s \<in> {Job_SUCCESS, Job_FAILURE, Job_REVOKED}"

definition job_draw :: "job_env \<Rightarrow> job_state \<Rightarrow> str \<times> job_state" where
  "job_draw je st =
     (uuid4_hex (je_env je) (uuid_count (js_db st)), st\<lparr>js_db := (js_db st)\<lparr>uuid_count := uuid_count (js_db st) + 1\<rparr>\<rparr>)"

definition log_job :: "job_env \<Rightarrow> str \<Rightarrow> (str \<times> json) list \<Rightarrow> job_state \<Rightarrow> job_state" where
  "log_job je event_type details st =
     st\<lparr>js_db := (js_db st)\<lparr>audit := log_event (auditing (je_env je)) (now (je_env je)) (correlation_id (je_env je)) event_type
                     None None (Some details) None (audit (js_db st))\<rparr>\<rparr>"

text \<open>A changed row is stamped when it is flushed.\<close>

definition touch_job :: "time \<Rightarrow> (job_row \<Rightarrow> job_row) \<Rightarrow> job_row \<Rightarrow> job_row" where
  "touch_job t f j = (let j' = f j in if j' = j then j else j'\<lparr>j_updated_at := t\<rparr>)"

definition on_job :: "job_env \<Rightarrow> str \<Rightarrow> (job_row \<Rightarrow> job_row) \<Rightarrow> job_state \<Rightarrow> job_state" where
  "on_job je k f st = st\<lparr>js_jobs := update_first (\<lambda>j. j_id j = k) (touch_job (now (je_env je)) f) (js_jobs st)\<rparr>"

definition get_job_row :: "str \<Rightarrow> job_state \<Rightarrow> job_row option" where
  "get_job_row k st = find (\<lambda>j. j_id j = k) (js_jobs st)"

section \<open>Celery states\<close>

definition upper_char :: "char \<Rightarrow> char" where
  "upper_char c = (let n = (of_char c :: nat) in if 97 \<le> n \<and> n \<le> 122 then char_of (n - 32) else c)"

definition CELERY_STATE_TO_JOB_STATUS :: "(str \<times> job_status) list" where
  "CELERY_STATE_TO_JOB_STATUS =
     [(''PENDING'', Job_PENDING), (''STARTED'', Job_STARTED), (''RETRY'', Job_STARTED), (''SUCCESS'', Job_SUCCESS),
      (''FAILURE'', Job_FAILURE), (''REVOKED'', Job_REVOKED)]"

definition celery_state_to_job_status :: "str \<Rightarrow> job_status \<Rightarrow> job_status" where
  "celery_state_to_job_status celery_state fallback =
     (case map_of CELERY_STATE_TO_JOB_STATUS (map upper_char celery_state) of None \<Rightarrow> fallback | Some s \<Rightarrow> s)"

section \<open>Device computations\<close>

text \<open>
  \<open>SLAOrchestrator\<close>.  \<open>parse_period\<close> gives the first instants of the period and of the next one as year and month.
\<close>

definition digit_value :: "char \<Rightarrow> nat option" where
  "digit_value c = (let n = (of_char c :: nat) in if 48 \<le> n \<and> n \<le> 57 then Some (n - 48) else None)"

definition year_of :: "string \<Rightarrow> nat option" where
  "year_of s =
     (case map digit_value s of [Some a, Some b, Some c, Some d] \<Rightarrow> Some (1000 * a + 100 * b + 10 * c + d) | _ \<Rightarrow> None)"

definition month_of :: "string \<Rightarrow> nat option" where
  "month_of s =
     (case map digit_value s of
        [Some 0, Some m] \<Rightarrow> if 1 \<le> m then Some m else None
      | [Some (Suc 0), Some m] \<Rightarrow> if m \<le> 2 then Some (10 + m) else None
      | _ \<Rightarrow> None)"

definition quarter_of :: "string \<Rightarrow> nat option" where
  "quarter_of s =
     (case s of [q, c] \<Rightarrow> (if q = CHR ''Q'' then (case digit_value c of Some d \<Rightarrow> if 1 \<le> d \<and> d \<le> 4 then Some d else None | None \<Rightarrow> None) else None)
      | _ \<Rightarrow> None)"

definition strip_newline :: "string \<Rightarrow> string" where
  "strip_newline s = (if s \<noteq> [] \<and> last s = CHR 0x0A then butlast s else s)"

definition parse_period :: "str \<Rightarrow> exn + ((nat \<times> nat) \<times> (nat \<times> nat))" where
  "parse_period period =
     (let p = strip_newline period in
      if length p < 5 \<or> p ! 4 \<noteq> CHR ''-'' then Inl ApexValidationError
      else
        (case year_of (take 4 p) of
           None \<Rightarrow> Inl ApexValidationError
         | Some y \<Rightarrow>
             (case month_of (drop 5 p) of
                Some m \<Rightarrow> if y = 0 then Inl ValueError
                          else if m = 12 then (if y = 9999 then Inl ValueError else Inr ((y, m), (y + 1, 1))) else Inr ((y, m), (y, m + 1))
              | None \<Rightarrow>
                  (case quarter_of (drop 5 p) of
                     Some q \<Rightarrow>
                       (let m = (q - 1) * 3 + 1 in
                        if y = 0 then Inl ValueError
                        else if m = 10 then (if y = 9999 then Inl ValueError else Inr ((y, m), (y + 1, 1))) else Inr ((y, m), (y, m + 3)))
                   | None \<Rightarrow> Inl ApexValidationError))))"

definition get_outages_for_device :: "str \<Rightarrow> time \<Rightarrow> time \<Rightarrow> database \<Rightarrow> outage_row list" where
  "get_outages_for_device device_id start_date end_date db =
     filter (\<lambda>r. (o_id r = device_id \<or> o_site_id r = Some device_id \<or> (o_site_id r = None \<and> o_site_name r = device_id)) \<and>
                 start_date \<le> o_created_at r \<and> o_created_at r < end_date) (outages db)"

definition check_sla_violations :: "rat \<Rightarrow> rat \<Rightarrow> (str \<times> rat) list \<Rightarrow> bool" where
  "check_sla_violations availability mttr thresholds \<longleftrightarrow>
     availability < (case map_of thresholds ''availability'' of None \<Rightarrow> 999 / 10 | Some x \<Rightarrow> x) \<or>
     mttr > (case map_of thresholds ''mttr'' of None \<Rightarrow> 60 | Some x \<Rightarrow> x)"

text \<open>Both averages start by naming a helper that the module does not define.\<close>

definition calculate_mttr :: "outage_row list \<Rightarrow> exn + rat" where
  "calculate_mttr os = (if os = [] then Inr 0 else Inl NameError)"

definition calculate_availability :: "outage_row list \<Rightarrow> nat \<Rightarrow> exn + rat" where
  "calculate_availability os period_days = (if os = [] then Inr 100 else Inl NameError)"

text \<open>\<open>compute_device_sla\<close> ends at \<open>_get_sla_cache()\<close>, a name the module does not define: what it raises, before any query.\<close>

definition compute_device_sla :: "str \<Rightarrow> str \<Rightarrow> exn" where
  "compute_device_sla device_id period = NameError"

section \<open>Tasks\<close>

definition get_job_by_task :: "str \<Rightarrow> job_state \<Rightarrow> job_row option" where
  "get_job_by_task task_id st = find (\<lambda>j. j_celery_task_id j = task_id) (js_jobs st)"

definition on_task_job :: "job_env \<Rightarrow> str \<Rightarrow> (job_row \<Rightarrow> job_row) \<Rightarrow> job_state \<Rightarrow> job_state" where
  "on_task_job je task_id f st =
     st\<lparr>js_jobs := update_first (\<lambda>j. j_celery_task_id j = task_id) (touch_job (now (je_env je)) f) (js_jobs st)\<rparr>"

definition mark_started :: "job_env \<Rightarrow> str \<Rightarrow> job_state \<Rightarrow> job_state" where
  "mark_started je task_id = on_task_job je task_id (\<lambda>j. j\<lparr>j_status := Job_STARTED, j_started_at := Some (now (je_env je))\<rparr>)"

definition mark_success :: "job_env \<Rightarrow> str \<Rightarrow> json \<Rightarrow> job_state \<Rightarrow> job_state" where
  "mark_success je task_id result =
     on_task_job je task_id (\<lambda>j. j\<lparr>j_status := Job_SUCCESS, j_result := Some result, j_progress := 100,
       j_finished_at := Some (now (je_env je))\<rparr>)"

definition mark_failure :: "job_env \<Rightarrow> str \<Rightarrow> str \<Rightarrow> job_state \<Rightarrow> job_state" where
  "mark_failure je task_id error =
     on_task_job je task_id (\<lambda>j. j\<lparr>j_status := Job_FAILURE, j_error := Some error, j_finished_at := Some (now (je_env je))\<rparr>)"

definition update_progress :: "job_env \<Rightarrow> str \<Rightarrow> rat \<Rightarrow> progress_details \<Rightarrow> job_state \<Rightarrow> job_state" where
  "update_progress je task_id progress details =
     on_task_job je task_id (\<lambda>j. j\<lparr>j_progress := min progress 99, j_progress_details := Some details\<rparr>)"

text \<open>
  Partial results and per-item errors: an empty or missing value is assigned and filled before the commit; a value that is there is
  changed in place, which the commit does not write.
\<close>

definition add_partial_result :: "job_env \<Rightarrow> str \<Rightarrow> str \<Rightarrow> json \<Rightarrow> job_state \<Rightarrow> job_state" where
  "add_partial_result je task_id item_id result =
     on_task_job je task_id (\<lambda>j. if j_partial_results j \<in> {None, Some []} then j\<lparr>j_partial_results := Some [(item_id, result)]\<rparr> else j)"

definition add_item_error :: "job_env \<Rightarrow> str \<Rightarrow> str \<Rightarrow> str \<Rightarrow> job_state \<Rightarrow> job_state" where
  "add_item_error je task_id item_id error =
     on_task_job je task_id (\<lambda>j. if j_per_item_errors j \<in> {None, Some []} then j\<lparr>j_per_item_errors := Some [(item_id, error)]\<rparr> else j)"

definition json_or_null :: "json option \<Rightarrow> json" where
  "json_or_null v = (case v of None \<Rightarrow> JNull | Some x \<Rightarrow> x)"

definition log_retry :: "job_env \<Rightarrow> str \<Rightarrow> int \<Rightarrow> str \<Rightarrow> job_state \<Rightarrow> job_state" where
  "log_retry je task_id retry_count error st =
     (case get_job_by_task task_id st of
        None \<Rightarrow> st
      | Some j \<Rightarrow>
          log_job je ''job_retried''
            [(''job_id'', JStr (j_id j)), (''celery_task_id'', JStr task_id), (''job_type'', JStr (job_type_value (j_job_type j))),
             (''retry_count'', JInt retry_count), (''error'', JStr error), (''payload'', json_or_null (j_payload j))] st)"

text \<open>How a task run ends: with a value, with an exception, or requeued by Celery.\<close>

datatype task_end = Returned json | Raised exn | Requeued

definition task_retry :: "int \<Rightarrow> int \<Rightarrow> task_end" where
  "task_retry retries max_retries = (if retries + 1 > max_retries then Raised ApexTransientError else Requeued)"

definition stage :: "str \<Rightarrow> (str \<times> json) list \<Rightarrow> progress_details" where
  "stage name extra = \<lparr>pd_fields = (''stage'', JStr name) # extra, pd_percentage = None\<rparr>"

definition fail_task :: "job_env \<Rightarrow> str \<Rightarrow> int \<Rightarrow> int \<Rightarrow> exn \<Rightarrow> job_state \<Rightarrow> task_end \<times> job_state" where
  "fail_task je task_id retries max_retries e st =
     (let error_msg = je_exc_text je e;
          st1 = (if retries < max_retries then log_retry je task_id (retries + 1) error_msg st else st) in
      (task_retry retries max_retries, mark_failure je task_id error_msg st1))"

definition compute_sla_for_device :: "job_env \<Rightarrow> str \<Rightarrow> int \<Rightarrow> str \<Rightarrow> str \<Rightarrow> job_state \<Rightarrow> task_end \<times> job_state" where
  "compute_sla_for_device je task_id retries device_id period st =
     (let st1 = update_progress je task_id 30
                  (stage ''data_collection'' [(''device_id'', JStr device_id), (''period'', JStr period)]) (mark_started je task_id st) in
      fail_task je task_id retries 3 (compute_device_sla device_id period) st1)"

text \<open>\<open>round(x, 2)\<close>: to the nearest hundredth, ties to the even one.\<close>

definition round2 :: "rat \<Rightarrow> rat" where
  "round2 x =
     (let y = 100 * x; lo = \<lfloor>y\<rfloor>; d = y - of_int lo in
      of_int (if d < 1 / 2 then lo else if d > 1 / 2 then lo + 1 else if even lo then lo else lo + 1) / 100)"

text \<open>The loop of the bulk task over the numbered devices: every device ends in the error branch.\<close>

fun bulk_devices ::
  "job_env \<Rightarrow> str \<Rightarrow> nat \<Rightarrow> str \<Rightarrow> (nat \<times> str) list \<Rightarrow> nat \<Rightarrow> job_state \<Rightarrow> (str \<times> str) list \<times> nat \<times> job_state" where
  "bulk_devices je task_id tot period [] errors st = ([], errors, st)"
| "bulk_devices je task_id tot period ((idx, device_id) # ds) errors st =
     (let error = je_exc_text je (compute_device_sla device_id period);
          progress = of_nat idx / of_nat tot * 100;
          st1 = update_progress je task_id progress
                  \<lparr>pd_fields = [(''stage'', JStr ''processing_devices''), (''current_device'', JStr device_id), (''processed_count'', JInt 0),
                     (''error_count'', JInt (int errors + 1)), (''total_devices'', JInt (int tot)), (''violations_found'', JInt 0)],
                   pd_percentage = Some (round2 progress)\<rparr>
                  (add_item_error je task_id device_id error st) in
      case bulk_devices je task_id tot period ds (errors + 1) st1 of
        (results, n, st2) \<Rightarrow> ((device_id, error) # results, n, st2))"

definition bulk_summary :: "nat \<Rightarrow> nat \<Rightarrow> (str \<times> str) list \<Rightarrow> json" where
  "bulk_summary tot errors results =
     JObj [(''total'', JInt (int tot)), (''violations'', JInt 0), (''violated_devices'', JList []), (''processed_count'', JInt 0),
           (''error_count'', JInt (int errors)),
           (''results'', JList (map (\<lambda>(d, e). JObj [(''device_id'', JStr d), (''error'', JStr e)]) results))]"

definition compute_bulk_sla :: "job_env \<Rightarrow> str \<Rightarrow> str list \<Rightarrow> str \<Rightarrow> job_state \<Rightarrow> task_end \<times> job_state" where
  "compute_bulk_sla je task_id device_ids period st =
     (let tot = length device_ids;
          st1 = update_progress je task_id 5 (stage ''initialization'' [(''total_devices'', JInt (int tot)), (''period'', JStr period)])
                  (mark_started je task_id st) in
      case bulk_devices je task_id tot period (zip [1..<tot + 1] device_ids) 0 st1 of
        (results, errors, st2) \<Rightarrow>
          (let st3 = update_progress je task_id 95
                       (stage ''finalizing'' [(''total_devices'', JInt (int tot)), (''processed_count'', JInt 0),
                          (''error_count'', JInt (int errors)), (''violations_found'', JInt 0)]) st2;
               summary = bulk_summary tot errors results in
           (Returned summary, mark_success je task_id summary st3)))"

section \<open>Enqueueing\<close>

definition coerce_job_payload :: "(str \<Rightarrow> json option) \<Rightarrow> json option \<Rightarrow> exn + (str \<times> json) list" where
  "coerce_job_payload loads value =
     (case value of
        None \<Rightarrow> Inr []
      | Some (JStr s) \<Rightarrow> Inr (case loads s of Some (JObj d) \<Rightarrow> d | _ \<Rightarrow> [])
      | Some (JObj d) \<Rightarrow> Inr d
      | Some _ \<Rightarrow> Inl AttributeError)"

fun first_inflight :: "job_env \<Rightarrow> ((str \<times> json) list \<Rightarrow> bool) \<Rightarrow> job_row list \<Rightarrow> exn + job_row option" where
  "first_inflight je matches [] = Inr None"
| "first_inflight je matches (j # js) =
     (case coerce_job_payload (je_loads je) (j_payload j) of
        Inl e \<Rightarrow> Inl e
      | Inr p \<Rightarrow>
          if matches p \<and> je_celery_state je (j_celery_task_id j) \<in> {''PENDING'', ''STARTED'', ''RETRY''} then Inr (Some j)
          else first_inflight je matches js)"

definition find_inflight_sla_job :: "job_env \<Rightarrow> job_type \<Rightarrow> ((str \<times> json) list \<Rightarrow> bool) \<Rightarrow> job_state \<Rightarrow> exn + job_row option" where
  "find_inflight_sla_job je ty matches st =
     first_inflight je matches
       (take 50 (sort_desc j_created_at (filter (\<lambda>j. j_job_type j = ty \<and> j_status j \<in> {Job_PENDING, Job_STARTED}) (js_jobs st))))"

definition new_job :: "job_env \<Rightarrow> str \<Rightarrow> str \<Rightarrow> job_type \<Rightarrow> (str \<times> json) list \<Rightarrow> job_row" where
  "new_job je job_id task_id ty payload =
     \<lparr>j_id = job_id, j_celery_task_id = task_id, j_job_type = ty, j_status = Job_PENDING, j_payload = Some (JObj payload),
      j_result = None, j_error = None, j_progress = 0, j_progress_details = None, j_partial_results = None, j_per_item_errors = None,
      j_retry_count = 0, j_max_retries = 3, j_last_retried_at = None, j_started_at = None, j_finished_at = None,
      j_created_at = now (je_env je), j_updated_at = now (je_env je)\<rparr>"

definition insert_job :: "job_row \<Rightarrow> job_state \<Rightarrow> (job_row, job_state) outcome" where
  "insert_job j st =
     (if list_ex (\<lambda>x. j_id x = j_id j \<or> j_celery_task_id x = j_celery_task_id j) (js_jobs st) then (Inl IntegrityError, st)
      else (Inr j, st\<lparr>js_jobs := js_jobs st @ [j]\<rparr>))"

definition with_correlation :: "job_env \<Rightarrow> (str \<times> json) list \<Rightarrow> (str \<times> json) list" where
  "with_correlation je p =
     p @ (if truthy (correlation_id (je_env je)) then [(''correlation_id'', JStr (the (correlation_id (je_env je))))] else [])"

text \<open>The critical section: reuse a matching job in flight, else submit the task and store its row.\<close>

definition enqueue ::
  "job_env \<Rightarrow> job_type \<Rightarrow> ((str \<times> json) list \<Rightarrow> bool) \<Rightarrow> task_call \<Rightarrow> (str \<times> json) list \<Rightarrow> job_state \<Rightarrow> (job_row, job_state) outcome" where
  "enqueue je ty matches task payload =
     advisory_lock_nowait (je_lock je) (\<lambda>st.
       case find_inflight_sla_job je ty matches st of
         Inl e \<Rightarrow> (Inl e, st)
       | Inr (Some j) \<Rightarrow> (Inr j, st)
       | Inr None \<Rightarrow>
           (case job_draw je st of (task_id, st1) \<Rightarrow>
            case job_draw je (st1\<lparr>js_queue := js_queue st1 @ [(task_id, task)]\<rparr>) of (job_id, st2) \<Rightarrow>
              insert_job (new_job je job_id task_id ty payload) st2))"

definition enqueue_sla_computation :: "job_env \<Rightarrow> str \<Rightarrow> str \<Rightarrow> job_state \<Rightarrow> (job_row, job_state) outcome" where
  "enqueue_sla_computation je device_id period =
     enqueue je SLA_COMPUTATION
       (\<lambda>p. map_of p ''device_id'' = Some (JStr device_id) \<and> map_of p ''period'' = Some (JStr period))
       (Compute_sla_for_device device_id period)
       (with_correlation je [(''device_id'', JStr device_id), (''period'', JStr period)])"

fun json_strings :: "json list \<Rightarrow> str list option" where
  "json_strings [] = Some []"
| "json_strings (JStr s # vs) = map_option ((#) s) (json_strings vs)"
| "json_strings (_ # vs) = None"

definition same_devices :: "str list \<Rightarrow> json option \<Rightarrow> bool" where
  "same_devices sorted_ids v =
     (case v of
        Some (JList vs) \<Rightarrow> (case json_strings vs of Some ids \<Rightarrow> sort ids = sorted_ids | None \<Rightarrow> False)
      | Some JNull \<Rightarrow> sorted_ids = []
      | None \<Rightarrow> sorted_ids = []
      | _ \<Rightarrow> False)"

definition enqueue_bulk_sla_computation :: "job_env \<Rightarrow> str list \<Rightarrow> str \<Rightarrow> job_state \<Rightarrow> (job_row, job_state) outcome" where
  "enqueue_bulk_sla_computation je device_ids period =
     enqueue je BULK_SLA_COMPUTATION
       (\<lambda>p. same_devices (sort device_ids) (map_of p ''device_ids'') \<and> map_of p ''period'' = Some (JStr period))
       (Compute_bulk_sla device_ids period)
       (with_correlation je [(''device_ids'', JList (map JStr device_ids)), (''period'', JStr period)])"

section \<open>Handlers\<close>

definition parse_job_json :: "(str \<Rightarrow> json option) \<Rightarrow> json option \<Rightarrow> json option" where
  "parse_job_json loads v = (case v of Some (JStr s) \<Rightarrow> loads s | _ \<Rightarrow> v)"

text \<open>The response model wants objects: anything else fails its validation.\<close>

definition as_object :: "json option \<Rightarrow> exn + (str \<times> json) list option" where
  "as_object v = (case v of None \<Rightarrow> Inr None | Some (JObj d) \<Rightarrow> Inr (Some d) | Some JNull \<Rightarrow> Inr None | _ \<Rightarrow> Inl ValueError)"

record job_response =
  jr_job :: job_row
  jr_payload :: "(str \<times> json) list option"
  jr_result :: "(str \<times> json) list option"

definition serialize_job :: "job_env \<Rightarrow> job_row \<Rightarrow> exn + job_response" where
  "serialize_job je j =
     (case as_object (parse_job_json (je_loads je) (j_payload j)) of
        Inl e \<Rightarrow> Inl e
      | Inr p \<Rightarrow>
          (case as_object (parse_job_json (je_loads je) (j_result j)) of
             Inl e \<Rightarrow> Inl e
           | Inr r \<Rightarrow> Inr \<lparr>jr_job = j, jr_payload = p, jr_result = r\<rparr>))"

definition submit_sla_computation :: "job_env \<Rightarrow> str \<Rightarrow> str \<Rightarrow> job_state \<Rightarrow> (job_response, job_state) outcome" where
  "submit_sla_computation je device_id period st =
     (case enqueue_sla_computation je device_id period st of (Inl e, st1) \<Rightarrow> (Inl e, st1) | (Inr j, st1) \<Rightarrow> (serialize_job je j, st1))"

definition submit_bulk_sla_computation :: "job_env \<Rightarrow> str list \<Rightarrow> str \<Rightarrow> job_state \<Rightarrow> (job_response, job_state) outcome" where
  "submit_bulk_sla_computation je device_ids period st =
     (if device_ids = [] then (Inl (HTTPError 400), st)
      else (case enqueue_bulk_sla_computation je device_ids period st of
              (Inl e, st1) \<Rightarrow> (Inl e, st1)
            | (Inr j, st1) \<Rightarrow> (serialize_job je j, st1)))"

text \<open>\<open>list_jobs\<close>: newest first, ties by larger id; the cursor is the id and the time of the last row of a page.\<close>

definition job_order :: "job_row list \<Rightarrow> job_row list" where
  "job_order js = rev (sort_key (\<lambda>j. (j_created_at j, j_id j)) js)"

definition past_cursor :: "(str \<times> time) option \<Rightarrow> job_row \<Rightarrow> bool" where
  "past_cursor cur j =
     (case cur of None \<Rightarrow> True | Some (k, t) \<Rightarrow> j_created_at j < t \<or> (j_created_at j = t \<and> j_id j < k))"

record job_page =
  jp_items :: "job_row list"
  jp_next_cursor :: "(str \<times> time) option"
  jp_has_more :: bool

definition list_jobs :: "job_type option \<Rightarrow> job_status option \<Rightarrow> nat \<Rightarrow> (str \<times> time) option \<Rightarrow> job_state \<Rightarrow> job_page" where
  "list_jobs ty status limit cur st =
     (let fetched = take (limit + 1) (job_order (filter (\<lambda>j. (ty = None \<or> ty = Some (j_job_type j)) \<and>
                      (status = None \<or> status = Some (j_status j)) \<and> past_cursor cur j) (js_jobs st)));
          has_more = length fetched > limit; items = take limit fetched in
      \<lparr>jp_items = items,
       jp_next_cursor = (if has_more \<and> items \<noteq> [] then Some (j_id (last items), j_created_at (last items)) else None),
       jp_has_more = has_more\<rparr>)"

definition sync_job_status :: "job_env \<Rightarrow> job_row \<Rightarrow> job_state \<Rightarrow> job_row \<times> job_state" where
  "sync_job_status je j st =
     (if terminal (j_status j) then (j, st)
      else
        (case ttl_get (je_clock je) (j_id j) (js_cache st) of
           (Some cached, c) \<Rightarrow>
             (let st1 = on_job je (j_id j) (j_status_update (\<lambda>_. cached)) (st\<lparr>js_cache := c\<rparr>) in
              (touch_job (now (je_env je)) (j_status_update (\<lambda>_. cached)) j, st1))
         | (None, c) \<Rightarrow>
             (let new_status = celery_state_to_job_status (je_celery_state je (j_celery_task_id j)) (j_status j);
                  st1 = st\<lparr>js_cache := ttl_set (je_ttl je) (je_clock je) (j_id j) new_status c\<rparr> in
              (touch_job (now (je_env je)) (j_status_update (\<lambda>_. new_status)) j,
               on_job je (j_id j) (j_status_update (\<lambda>_. new_status)) st1))))"

definition get_job :: "job_env \<Rightarrow> str \<Rightarrow> job_state \<Rightarrow> (job_response, job_state) outcome" where
  "get_job je job_id st =
     (case get_job_row job_id st of
        None \<Rightarrow> (Inl (HTTPError 404), st)
      | Some j \<Rightarrow> (case sync_job_status je j st of (j', st1) \<Rightarrow> (serialize_job je j', st1)))"

definition get_job_progress :: "job_env \<Rightarrow> str \<Rightarrow> job_state \<Rightarrow> (job_row, job_state) outcome" where
  "get_job_progress je job_id st =
     (case get_job_row job_id st of
        None \<Rightarrow> (Inl (HTTPError 404), st)
      | Some j \<Rightarrow> (case sync_job_status je j st of (j', st1) \<Rightarrow> (Inr j', st1)))"

definition cancel_job :: "job_env \<Rightarrow> str \<Rightarrow> job_state \<Rightarrow> (unit, job_state) outcome" where
  "cancel_job je job_id st =
     (case get_job_row job_id st of
        None \<Rightarrow> (Inl (HTTPError 404), st)
      | Some j \<Rightarrow>
          if terminal (j_status j) then (Inl (HTTPError 400), st)
          else (Inr (),
                on_job je job_id (j_status_update (\<lambda>_. Job_REVOKED))
                  (log_job je ''job_revoked''
                     [(''job_id'', JStr (j_id j)), (''celery_task_id'', JStr (j_celery_task_id j)),
                      (''job_type'', JStr (job_type_value (j_job_type j))), (''previous_status'', JStr (job_status_value (j_status j))),
                      (''payload'', json_or_null (j_payload j))] st)))"

text \<open>The retry: what it changes on the row before the task is submitted again.\<close>

definition reset_for_retry :: "time \<Rightarrow> job_row \<Rightarrow> job_row" where
  "reset_for_retry t j =
     j\<lparr>j_retry_count := j_retry_count j + 1, j_last_retried_at := Some t, j_error := None, j_status := Job_PENDING, j_progress := 0,
       j_started_at := None, j_finished_at := None\<rparr>"

definition str_of_json :: "json option \<Rightarrow> str" where
  "str_of_json v = (case v of Some (JStr s) \<Rightarrow> s | _ \<Rightarrow> [])"

definition resubmit :: "job_env \<Rightarrow> task_call \<Rightarrow> (str \<Rightarrow> job_row \<Rightarrow> job_row) \<Rightarrow> job_row \<Rightarrow> job_state \<Rightarrow> (job_row, job_state) outcome" where
  "resubmit je task set_task j st =
     (case job_draw je st of (task_id, st1) \<Rightarrow>
        (let st2 = st1\<lparr>js_queue := js_queue st1 @ [(task_id, task)]\<rparr> in
         if list_ex (\<lambda>x. j_id x \<noteq> j_id j \<and> j_celery_task_id x = task_id) (js_jobs st2) then (Inl (HTTPError 500), st2)
         else (let f = (\<lambda>x. set_task task_id (reset_for_retry (now (je_env je)) x)) in
               (Inr (touch_job (now (je_env je)) f j), on_job je (j_id j) f st2))))"

text \<open>
  Bulk jobs go through \<open>enqueue_bulk_sla_computation\<close>, which stores a row of its own with the new task id and commits the pending
  changes with it; then the same task id is assigned to the retried job and the unique column refuses it.  A job already in flight for
  the same devices is refused in the same way, with everything pending rolled back.
\<close>

definition retry_bulk :: "job_env \<Rightarrow> (str \<times> json) list \<Rightarrow> job_row \<Rightarrow> job_state \<Rightarrow> (job_row, job_state) outcome" where
  "retry_bulk je payload j st =
     (case (case map_of payload ''device_ids'' of None \<Rightarrow> Some [] | Some (JList vs) \<Rightarrow> json_strings vs | Some _ \<Rightarrow> None) of
        None \<Rightarrow> (Inl (HTTPError 400), st)
      | Some ids \<Rightarrow>
          (case enqueue_bulk_sla_computation je ids (str_of_json (map_of payload ''period'')) st of
             (Inl e, st1) \<Rightarrow> (Inl (HTTPError 500), st1)
           | (Inr k, st1) \<Rightarrow>
               (Inl (HTTPError 500),
                if js_jobs st1 = js_jobs st then st1 else on_job je (j_id j) (reset_for_retry (now (je_env je))) st1)))"

definition json_falsy :: "json \<Rightarrow> bool" where
  "json_falsy v \<longleftrightarrow> v \<in> {JNull, JBool False, JInt 0, JStr [], JList [], JObj []}"

definition retry_payload :: "job_env \<Rightarrow> job_row \<Rightarrow> json" where
  "retry_payload je j =
     (case parse_job_json (je_loads je) (j_payload j) of None \<Rightarrow> JObj [] | Some v \<Rightarrow> if json_falsy v then JObj [] else v)"

definition retry_job :: "job_env \<Rightarrow> str \<Rightarrow> job_state \<Rightarrow> (job_row, job_state) outcome" where
  "retry_job je job_id st =
     (case get_job_row job_id st of
        None \<Rightarrow> (Inl (HTTPError 404), st)
      | Some j \<Rightarrow>
          if j_status j \<notin> {Job_FAILURE, Job_REVOKED} then (Inl (HTTPError 400), st)
          else if j_retry_count j \<ge> j_max_retries j then (Inl (HTTPError 400), st)
          else
            (let st1 = log_job je ''job_retry_initiated''
                   [(''job_id'', JStr (j_id j)), (''original_celery_task_id'', JStr (j_celery_task_id j)),
                    (''job_type'', JStr (job_type_value (j_job_type j))), (''previous_status'', JStr (job_status_value (j_status j))),
                    (''retry_count'', JInt (j_retry_count j + 1)), (''max_retries'', JInt (j_max_retries j)),
                    (''payload'', json_or_null (j_payload j)), (''previous_error'', json_opt (j_error j)),
                    (''correlation_id'', json_opt (correlation_id (je_env je))), (''initiated_by'', JStr (je_actor je))] st in
             case j_job_type j of
               WEBHOOK_DISPATCH \<Rightarrow>
                 resubmit je (Dispatch_webhook_delivery (retry_payload je j)) (\<lambda>k x. x\<lparr>j_celery_task_id := k\<rparr>) j st1
             | BULK_SLA_COMPUTATION \<Rightarrow>
                 (case retry_payload je j of JObj d \<Rightarrow> retry_bulk je d j st1 | _ \<Rightarrow> (Inl (HTTPError 500), st1))
             | SLA_COMPUTATION \<Rightarrow>
                 (case retry_payload je j of
                    JObj d \<Rightarrow>
                      resubmit je (Compute_sla_for_device (str_of_json (map_of d ''device_id'')) (str_of_json (map_of d ''period'')))
                        (\<lambda>k x. x\<lparr>j_celery_task_id := k, j_payload := Some (JObj d)\<rparr>) j st1
                  | _ \<Rightarrow> (Inl (HTTPError 500), st1))))"

section \<open>Retention\<close>

definition finished_before :: "job_status \<Rightarrow> time \<Rightarrow> job_row \<Rightarrow> bool" where
  "finished_before status cutoff j \<longleftrightarrow> j_status j = status \<and> (case j_finished_at j of None \<Rightarrow> False | Some t \<Rightarrow> t < cutoff)"

definition count_jobs_by_status :: "job_status \<Rightarrow> time \<Rightarrow> job_state \<Rightarrow> nat" where
  "count_jobs_by_status status cutoff st = length (filter (finished_before status cutoff) (js_jobs st))"

definition delete_jobs_by_status :: "job_status \<Rightarrow> time \<Rightarrow> nat \<Rightarrow> job_state \<Rightarrow> nat \<times> job_state" where
  "delete_jobs_by_status status cutoff batch_size st =
     (case delete_in_batches (finished_before status cutoff) batch_size (js_jobs st) of (n, js) \<Rightarrow> (n, st\<lparr>js_jobs := js\<rparr>))"

definition cleanup_status :: "bool \<Rightarrow> nat \<Rightarrow> job_status \<Rightarrow> time \<Rightarrow> job_state \<Rightarrow> (nat \<times> nat) \<times> job_state" where
  "cleanup_status dry_run batch_size status cutoff st =
     (let count = count_jobs_by_status status cutoff st in
      if \<not> dry_run \<and> count > 0
      then (case delete_jobs_by_status status cutoff batch_size st of (n, st1) \<Rightarrow> ((n, n), st1))
      else ((count, 0), st))"

record cleanup_stats =
  ct_successful :: nat
  ct_failed :: nat
  ct_revoked :: nat
  ct_total :: nat

definition days_or :: "int option \<Rightarrow> int \<Rightarrow> int" where
  "days_or d default_days = (case d of None \<Rightarrow> default_days | Some n \<Rightarrow> if n = 0 then default_days else n)"

definition cleanup_old_jobs ::
  "job_env \<Rightarrow> int option \<Rightarrow> int option \<Rightarrow> bool \<Rightarrow> nat \<Rightarrow> job_state \<Rightarrow> cleanup_stats \<times> job_state" where
  "cleanup_old_jobs je successful_days failed_days dry_run batch_size st =
     (let cutoff_success = now (je_env je) - days_or successful_days 30 * je_day je;
          cutoff_failed = now (je_env je) - days_or failed_days 90 * je_day je in
      case cleanup_status dry_run batch_size Job_SUCCESS cutoff_success st of ((s, ds), st1) \<Rightarrow>
      case cleanup_status dry_run batch_size Job_FAILURE cutoff_failed st1 of ((f, df), st2) \<Rightarrow>
      case cleanup_status dry_run batch_size Job_REVOKED cutoff_success st2 of ((r, dr), st3) \<Rightarrow>
        (\<lparr>ct_successful = s, ct_failed = f, ct_revoked = r, ct_total = ds + df + dr\<rparr>, st3))"

definition cleanup_endpoint :: "job_env \<Rightarrow> int option \<Rightarrow> int option \<Rightarrow> bool \<Rightarrow> job_state \<Rightarrow> cleanup_stats \<times> job_state" where
  "cleanup_endpoint je successful_days failed_days dry_run st =
     (case cleanup_old_jobs je successful_days failed_days dry_run 1000 st of (ct, st1) \<Rightarrow>
        (ct, log_job je ''job_cleanup_executed''
               [(''total_deleted'', JInt (int (ct_total ct))), (''successful_deleted'', JInt (int (ct_successful ct))),
                (''failed_deleted'', JInt (int (ct_failed ct))), (''revoked_deleted'', JInt (int (ct_revoked ct))),
                (''dry_run'', JBool dry_run), (''executed_by'', JStr (je_actor je))] st1))"

record retention_stats =
  rs_total :: nat
  rs_by_status :: "(job_status \<times> nat) list"
  rs_by_age :: "nat list"

definition get_retention_stats :: "job_env \<Rightarrow> job_state \<Rightarrow> retention_stats" where
  "get_retention_stats je st =
     (let older = (\<lambda>n. length (filter (\<lambda>j. j_created_at j < now (je_env je) - n * je_day je) (js_jobs st))) in
      \<lparr>rs_total = length (js_jobs st),
       rs_by_status = map (\<lambda>s. (s, length (filter (\<lambda>j. j_status j = s) (js_jobs st))))
                        [Job_PENDING, Job_STARTED, Job_SUCCESS, Job_FAILURE, Job_REVOKED],
       rs_by_age = map older [30, 60, 90]\<rparr>)"

text \<open>Webhook deliveries: finished ones after \<open>retention_days\<close>, dead letters after their own period; \<open>created\<close> is the creation time.\<close>

definition cleanup_old_webhook_deliveries ::
  "time \<Rightarrow> time \<Rightarrow> int \<Rightarrow> int \<Rightarrow> nat \<Rightarrow> (delivery \<Rightarrow> time) \<Rightarrow> delivery list \<Rightarrow> nat \<times> delivery list" where
  "cleanup_old_webhook_deliveries t day retention_days dead_letter_days batch_size created ds =
     (case delete_in_batches (\<lambda>d. wd_status d \<in> {SUCCESS, FAILED} \<and> created d < t - retention_days * day) batch_size ds of (n, ds1) \<Rightarrow>
      case delete_in_batches (\<lambda>d. wd_status d = DEAD_LETTER \<and> created d < t - dead_letter_days * day) batch_size ds1 of (m, ds2) \<Rightarrow>
        (n + m, ds2))"

definition is_stale_started_job :: "time \<Rightarrow> time \<Rightarrow> time \<Rightarrow> bool" where
  "is_stale_started_job heartbeat_ttl t started_at \<longleftrightarrow> t - started_at > heartbeat_ttl"

definition reap_reason :: "(time \<Rightarrow> str) \<Rightarrow> time \<Rightarrow> str" where
  "reap_reason iso_of started_at = ''stale STARTED job, no heartbeat since '' @ iso_of started_at"

end
