(* ===== verification/Job_Tracking.thy ===== *)
theory Job_Tracking
  imports Jobs
begin

text \<open>
  What the job tracking guarantees: the invariant of the table under the step relation \<open>job_step\<close> that interleaves requests, task runs
  and clean-ups, the exactness of retention, what happens to one job on its way, deduplication of submissions, and complete paging.
\<close>

section \<open>The invariant of the table\<close>

definition job_ok :: "job_row \<Rightarrow> bool" where
  "job_ok j \<longleftrightarrow> 0 \<le> j_retry_count j \<and> j_retry_count j \<le> j_max_retries j \<and> j_max_retries j = 3 \<and> 0 \<le> j_progress j \<and> j_progress j \<le> 100"

definition jobs_ok :: "job_row list \<Rightarrow> bool" where
  "jobs_ok js \<longleftrightarrow> distinct (map j_id js) \<and> distinct (map j_celery_task_id js) \<and> (\<forall>j \<in> set js. job_ok j)"

inductive job_step :: "job_state \<Rightarrow> job_state \<Rightarrow> bool" where
  submitting: "job_step st (snd (submit_sla_computation je device_id period st))"
| submitting_bulk: "job_step st (snd (submit_bulk_sla_computation je device_ids period st))"
| polling: "job_step st (snd (get_job je k st))"
| watching: "job_step st (snd (get_job_progress je k st))"
| cancelling: "job_step st (snd (cancel_job je k st))"
| retrying_job: "job_step st (snd (retry_job je k st))"
| running: "job_step st (snd (compute_sla_for_device je task_id retries device_id period st))"
| running_bulk: "job_step st (snd (compute_bulk_sla je task_id device_ids period st))"
| cleaning_up: "job_step st (snd (cleanup_endpoint je successful failed dry_run st))"

lemma touch_job_fields:
  "(\<And>j. j_id (f j) = j_id j) \<Longrightarrow> j_id (touch_job t f j) = j_id j"
  "(\<And>j. j_celery_task_id (f j) = j_celery_task_id j) \<Longrightarrow> j_celery_task_id (touch_job t f j) = j_celery_task_id j"
  "job_ok (f j) \<Longrightarrow> job_ok (touch_job t f j)"
  "j_status (touch_job t f j) = j_status (f j)" "j_finished_at (touch_job t f j) = j_finished_at (f j)"
  by (auto simp: touch_job_def Let_def job_ok_def)

lemma jobs_ok_update:
  assumes "jobs_ok js" "\<And>j. j_id (f j) = j_id j" "\<And>j. j_celery_task_id (f j) = j_celery_task_id j"
    "\<And>j. j \<in> set js \<Longrightarrow> P j \<Longrightarrow> job_ok (f j)"
  shows "jobs_ok (update_first P (touch_job t f) js)"
proof -
  have "\<forall>j \<in> set (update_first P (touch_job t f) js). job_ok j"
    using assms(1,4) by (auto simp: jobs_ok_def intro: touch_job_fields(3) dest!: set_update_first)
  with assms(1) show ?thesis
    by (simp add: jobs_ok_def map_update_first_key touch_job_fields(1) [OF assms(2)] touch_job_fields(2) [OF assms(3)])
qed

lemma jobs_ok_filter: "jobs_ok js \<Longrightarrow> jobs_ok (filter P js)"
  by (auto simp: jobs_ok_def distinct_map_filter)

lemma js_jobs_log_job [simp]: "js_jobs (log_job je ev d st) = js_jobs st"
  by (simp add: log_job_def)

lemma on_job_ok:
  "jobs_ok (js_jobs st) \<Longrightarrow> (\<And>j. j_id (f j) = j_id j) \<Longrightarrow> (\<And>j. j_celery_task_id (f j) = j_celery_task_id j) \<Longrightarrow>
   (\<And>j. j \<in> set (js_jobs st) \<Longrightarrow> j_id j = k \<Longrightarrow> job_ok (f j)) \<Longrightarrow> jobs_ok (js_jobs (on_job je k f st))"
  by (simp add: on_job_def jobs_ok_update)

lemma on_task_job_ok:
  "jobs_ok (js_jobs st) \<Longrightarrow> (\<And>j. j_id (f j) = j_id j) \<Longrightarrow> (\<And>j. j_celery_task_id (f j) = j_celery_task_id j) \<Longrightarrow>
   (\<And>j. job_ok j \<Longrightarrow> job_ok (f j)) \<Longrightarrow> jobs_ok (js_jobs (on_task_job je k f st))"
  unfolding on_task_job_def by simp (rule jobs_ok_update; simp add: jobs_ok_def)

lemma task_marks_ok:
  assumes "jobs_ok (js_jobs st)"
  shows "jobs_ok (js_jobs (mark_started je k st))" "jobs_ok (js_jobs (mark_success je k r st))" "jobs_ok (js_jobs (mark_failure je k e st))"
    "0 \<le> p \<Longrightarrow> jobs_ok (js_jobs (update_progress je k p d st))" "jobs_ok (js_jobs (add_item_error je k i e st))"
    "jobs_ok (js_jobs (log_retry je k n e st))"
  using assms by (auto simp: mark_started_def mark_success_def mark_failure_def update_progress_def add_item_error_def log_retry_def
      job_ok_def intro!: on_task_job_ok split: option.split)

lemma job_draw_jobs [simp]: "job_draw je st = (k, st') \<Longrightarrow> js_jobs st' = js_jobs st"
  by (auto simp: job_draw_def)

lemma advisory_lock_state: "snd (advisory_lock_nowait b f s) = s \<or> snd (advisory_lock_nowait b f s) = snd (f s)"
  by (auto simp: advisory_lock_nowait_def split: prod.split sum.split exn.split)

lemma insert_job_jobs:
  "js_jobs (snd (insert_job j st)) = js_jobs st \<or>
   js_jobs (snd (insert_job j st)) = js_jobs st @ [j] \<and> (\<forall>x \<in> set (js_jobs st). j_id x \<noteq> j_id j \<and> j_celery_task_id x \<noteq> j_celery_task_id j)"
  by (auto simp: insert_job_def list_ex_iff)

lemma enqueue_jobs:
  obtains (same) "js_jobs (snd (enqueue je ty m t p st)) = js_jobs st"
  | (added) j where "js_jobs (snd (enqueue je ty m t p st)) = js_jobs st @ [j]" "job_ok j" "j_job_type j = ty"
      "\<forall>x \<in> set (js_jobs st). j_id x \<noteq> j_id j \<and> j_celery_task_id x \<noteq> j_celery_task_id j"
proof -
  define body where "body = (\<lambda>st. case find_inflight_sla_job je ty m st of
         Inl e \<Rightarrow> (Inl e, st)
       | Inr (Some j) \<Rightarrow> (Inr j, st)
       | Inr None \<Rightarrow>
           (case job_draw je st of (task_id, st1) \<Rightarrow>
            case job_draw je (st1\<lparr>js_queue := js_queue st1 @ [(task_id, t)]\<rparr>) of (job_id, st2) \<Rightarrow>
              insert_job (new_job je job_id task_id ty p) st2))"
  have run: "enqueue je ty m t p st = advisory_lock_nowait (je_lock je) body st" by (simp add: enqueue_def body_def)
  have new_ok: "job_ok (new_job je a b ty p)" and new_ty: "j_job_type (new_job je a b ty p) = ty" for a b by (simp_all add: job_ok_def new_job_def)
  have "js_jobs (snd (body st)) = js_jobs st \<or> (\<exists>a b. js_jobs (snd (body st)) = js_jobs st @ [new_job je a b ty p] \<and>
      (\<forall>x \<in> set (js_jobs st). j_id x \<noteq> j_id (new_job je a b ty p) \<and> j_celery_task_id x \<noteq> j_celery_task_id (new_job je a b ty p)))"
  proof (cases "find_inflight_sla_job je ty m st = Inr None")
    case True
    obtain a st1 where d1: "job_draw je st = (a, st1)" by fastforce
    obtain b st2 where d2: "job_draw je (st1\<lparr>js_queue := js_queue st1 @ [(a, t)]\<rparr>) = (b, st2)" by fastforce
    have "body st = insert_job (new_job je b a ty p) st2" by (simp add: body_def True d1 d2)
    moreover have "js_jobs st2 = js_jobs st" using job_draw_jobs [OF d1] job_draw_jobs [OF d2] by simp
    ultimately show ?thesis using insert_job_jobs [of "new_job je b a ty p" st2] by (simp only:) blast
  next
    case False
    then have "snd (body st) = st" by (auto simp: body_def split: sum.split option.split)
    then show ?thesis by simp
  qed
  moreover have lock: "snd (enqueue je ty m t p st) = st \<or> snd (enqueue je ty m t p st) = snd (body st)"
    using advisory_lock_state [of "je_lock je" body st] unfolding run .
  ultimately consider (old) "js_jobs (snd (body st)) = js_jobs st"
    | (new) a b where "js_jobs (snd (body st)) = js_jobs st @ [new_job je a b ty p]"
      "\<forall>x \<in> set (js_jobs st). j_id x \<noteq> j_id (new_job je a b ty p) \<and> j_celery_task_id x \<noteq> j_celery_task_id (new_job je a b ty p)"
    by blast
  then show thesis
  proof cases
    case old
    from lock show thesis by (rule disjE) (rule same, simp add: old)+
  next
    case (new a b)
    from lock show thesis
    proof
      assume "snd (enqueue je ty m t p st) = st"
      then show thesis by (intro same) simp
    next
      assume "snd (enqueue je ty m t p st) = snd (body st)"
      then show thesis by (intro added [OF _ new_ok new_ty new(2)]) (simp only: new(1))
    qed
  qed
qed

lemma jobs_ok_snoc:
  "jobs_ok js \<Longrightarrow> job_ok j \<Longrightarrow> j_id j \<notin> j_id ` set js \<Longrightarrow> j_celery_task_id j \<notin> j_celery_task_id ` set js \<Longrightarrow> jobs_ok (js @ [j])"
  by (simp add: jobs_ok_def)

lemma enqueue_ok: "jobs_ok (js_jobs st) \<Longrightarrow> jobs_ok (js_jobs (snd (enqueue je ty m t p st)))"
proof (rule enqueue_jobs [of je ty m t p st])
  fix j assume a: "jobs_ok (js_jobs st)" "job_ok j" "\<forall>x \<in> set (js_jobs st). j_id x \<noteq> j_id j \<and> j_celery_task_id x \<noteq> j_celery_task_id j"
    and e: "js_jobs (snd (enqueue je ty m t p st)) = js_jobs st @ [j]"
  have "j_id j \<notin> j_id ` set (js_jobs st)" "j_celery_task_id j \<notin> j_celery_task_id ` set (js_jobs st)" using a(3) by (metis imageE)+
  with a(1,2) show ?thesis unfolding e by (rule jobs_ok_snoc)
qed simp

lemma on_status_ok: "jobs_ok (js_jobs st) \<Longrightarrow> jobs_ok (js_jobs (on_job je k (j_status_update (\<lambda>_. s)) st))"
  by (rule on_job_ok) (auto simp: jobs_ok_def job_ok_def)

lemma sync_job_status_ok:
  "jobs_ok (js_jobs st) \<Longrightarrow> jobs_ok (js_jobs (snd (sync_job_status je j st)))"
  by (simp add: sync_job_status_def Let_def on_status_ok split: option.split prod.split)

lemma update_first_split:
  "distinct (map g (xs @ r # ys)) \<Longrightarrow> update_first (\<lambda>x. g x = g r) f (xs @ r # ys) = xs @ f r # ys"
  by (induction xs) auto

lemma resubmit_ok:
  assumes ok: "jobs_ok (js_jobs st)" and j: "get_job_row k st = Some j" "j_retry_count j < j_max_retries j"
    and g: "\<And>i x. j_id (g i x) = j_id x" "\<And>i x. j_celery_task_id (g i x) = i" "\<And>i x. job_ok (g i x) = job_ok x"
  shows "jobs_ok (js_jobs (snd (resubmit je task g j st)))"
proof -
  obtain i st1 where d: "job_draw je st = (i, st1)" by fastforce
  let ?f = "\<lambda>x. g i (reset_for_retry (now (je_env je)) x)"
  have "j \<in> set (js_jobs st)" using j(1) by (auto simp: get_job_row_def dest: find_Some_set)
  then obtain xs ys where js: "js_jobs st = xs @ j # ys" using split_list by metis
  show ?thesis
  proof (cases "list_ex (\<lambda>x. j_id x \<noteq> j_id j \<and> j_celery_task_id x = i) (js_jobs st)")
    case True
    then show ?thesis using ok by (simp add: resubmit_def d Let_def job_draw_jobs [OF d])
  next
    case False
    let ?j = "touch_job (now (je_env je)) ?f j"
    have dist: "distinct (map j_id (xs @ j # ys))" using ok by (simp add: jobs_ok_def js)
    have new: "js_jobs (snd (resubmit je task g j st)) = xs @ ?j # ys"
      using False update_first_split [OF dist] by (simp add: resubmit_def d Let_def on_job_def job_draw_jobs [OF d] js)
    have jid: "j_id ?j = j_id j" by (rule touch_job_fields(1)) (simp add: g(1) reset_for_retry_def)
    have task: "j_celery_task_id ?j = i" by (simp add: touch_job_def Let_def g(2)) (metis g(2))
    have "job_ok (reset_for_retry t j)" for t using ok j(2) by (auto simp: js jobs_ok_def job_ok_def reset_for_retry_def)
    then have jok: "job_ok ?j" by (intro touch_job_fields(3)) (simp add: g(3))
    have others: "j_celery_task_id x \<noteq> i" if "x \<in> set xs \<union> set ys" for x
    proof -
      have "j_id j \<notin> j_id ` (set xs \<union> set ys)" using dist by (simp add: image_Un)
      then have "j_id x \<noteq> j_id j" using that by (metis imageI)
      with False that show ?thesis by (auto simp: js list_ex_iff)
    qed
    have "i \<notin> j_celery_task_id ` set xs" "i \<notin> j_celery_task_id ` set ys" using others by (metis Un_iff imageE)+
    then show ?thesis unfolding new using ok dist jok
      by (simp add: jobs_ok_def js jid task)
  qed
qed

lemma enqueue_keeps:
  assumes "j \<in> set (js_jobs st)"
  shows "j \<in> set (js_jobs (snd (enqueue je ty m t p st)))"
  using enqueue_jobs [of je ty m t p st] assms by (metis Un_iff set_append)

lemma retry_bulk_ok:
  assumes ok: "jobs_ok (js_jobs st)" and j: "get_job_row k st = Some j" "j_retry_count j < j_max_retries j"
  shows "jobs_ok (js_jobs (snd (retry_bulk je payload j st)))"
proof -
  have "j \<in> set (js_jobs st)" "j_id j = k" using j(1) by (auto simp: get_job_row_def dest: find_Some_set find_Some_P)
  have "jobs_ok (js_jobs (on_job je (j_id j) (reset_for_retry (now (je_env je))) st1))"
    if e: "enqueue_bulk_sla_computation je ids p st = (r, st1)" for r st1 ids p
  proof -
    have st1: "st1 = snd (enqueue_bulk_sla_computation je ids p st)" using e by simp
    have mem: "j \<in> set (js_jobs st1)" unfolding st1 enqueue_bulk_sla_computation_def
      by (rule enqueue_keeps) fact
    have ok1: "jobs_ok (js_jobs st1)" unfolding st1 enqueue_bulk_sla_computation_def by (rule enqueue_ok [OF ok])
    have "x = j" if "x \<in> set (js_jobs st1)" "j_id x = j_id j" for x
      using ok1 that mem by (metis jobs_ok_def distinct_map inj_on_eq_iff)
    moreover have "job_ok (reset_for_retry t j)" for t using ok1 mem j(2) by (auto simp: jobs_ok_def job_ok_def reset_for_retry_def)
    ultimately show ?thesis using ok1 by (intro on_job_ok) (auto simp: reset_for_retry_def)
  qed
  moreover have "jobs_ok (js_jobs st1)" if e: "enqueue_bulk_sla_computation je ids p st = (r, st1)" for r st1 ids p
  proof -
    have "jobs_ok (js_jobs (snd (enqueue_bulk_sla_computation je ids p st)))"
      unfolding enqueue_bulk_sla_computation_def by (rule enqueue_ok [OF ok])
    then show ?thesis by (simp add: that)
  qed
  ultimately have step: "jobs_ok (js_jobs (snd (case enqueue_bulk_sla_computation je ids p st of
             (Inl e, st1) \<Rightarrow> (Inl (HTTPError 500), st1)
           | (Inr k, st1) \<Rightarrow>
               (Inl (HTTPError 500),
                if js_jobs st1 = js_jobs st then st1 else on_job je (j_id j) (reset_for_retry (now (je_env je))) st1))))" for ids p
    by (cases "enqueue_bulk_sla_computation je ids p st"; cases "fst (enqueue_bulk_sla_computation je ids p st)") (use ok in simp_all)
  show ?thesis unfolding retry_bulk_def using ok step by (auto split: option.split)
qed

lemma get_job_row_log_job [simp]: "get_job_row k (log_job je ev d st) = get_job_row k st"
  by (simp add: get_job_row_def)

lemma if_refused: "A \<or> B \<Longrightarrow> (if A then x else if B then x else y) = x"
  by auto

lemma retry_job_ok: "jobs_ok (js_jobs st) \<Longrightarrow> jobs_ok (js_jobs (snd (retry_job je k st)))"
proof (cases "get_job_row k st")
  case (Some j)
  assume ok: "jobs_ok (js_jobs st)"
  show ?thesis
  proof (cases "j_status j \<in> {Job_FAILURE, Job_REVOKED} \<and> j_retry_count j < j_max_retries j")
    case True
    define details where "details = [(''job_id'', JStr (j_id j)), (''original_celery_task_id'', JStr (j_celery_task_id j)),
                    (''job_type'', JStr (job_type_value (j_job_type j))), (''previous_status'', JStr (job_status_value (j_status j))),
                    (''retry_count'', JInt (j_retry_count j + 1)), (''max_retries'', JInt (j_max_retries j)),
                    (''payload'', json_or_null (j_payload j)), (''previous_error'', json_opt (j_error j)),
                    (''correlation_id'', json_opt (correlation_id (je_env je))), (''initiated_by'', JStr (je_actor je))]"
    let ?st = "log_job je ''job_retry_initiated'' details st"
    have st: "jobs_ok (js_jobs ?st)" "get_job_row k ?st = Some j" using ok Some by simp_all
    have bulk: "jobs_ok (js_jobs (snd (retry_bulk je d j ?st)))" for d using retry_bulk_ok [OF st] True by blast
    have sla: "jobs_ok (js_jobs (snd (resubmit je t (\<lambda>k x. x\<lparr>j_celery_task_id := k, j_payload := Some p\<rparr>) j ?st)))" for t p
      using True by (intro resubmit_ok [OF st]) (simp_all add: job_ok_def)
    have hook: "jobs_ok (js_jobs (snd (resubmit je t (\<lambda>k x. x\<lparr>j_celery_task_id := k\<rparr>) j ?st)))" for t
      using True by (intro resubmit_ok [OF st]) (simp_all add: job_ok_def)
    have "\<not> (j_status j \<notin> {Job_FAILURE, Job_REVOKED})" "\<not> j_retry_count j \<ge> j_max_retries j" using True by auto
    then have run: "retry_job je k st = (case j_job_type j of
               WEBHOOK_DISPATCH \<Rightarrow>
                 resubmit je (Dispatch_webhook_delivery (retry_payload je j)) (\<lambda>k x. x\<lparr>j_celery_task_id := k\<rparr>) j ?st
             | BULK_SLA_COMPUTATION \<Rightarrow>
                 (case retry_payload je j of JObj d \<Rightarrow> retry_bulk je d j ?st | _ \<Rightarrow> (Inl (HTTPError 500), ?st))
             | SLA_COMPUTATION \<Rightarrow>
                 (case retry_payload je j of
                    JObj d \<Rightarrow>
                      resubmit je (Compute_sla_for_device (str_of_json (map_of d ''device_id'')) (str_of_json (map_of d ''period'')))
                        (\<lambda>k x. x\<lparr>j_celery_task_id := k, j_payload := Some (JObj d)\<rparr>) j ?st
                  | _ \<Rightarrow> (Inl (HTTPError 500), ?st)))"
      unfolding retry_job_def Some option.case details_def [symmetric] Let_def by (simp only: if_False)
    show ?thesis
    proof (cases "j_job_type j")
      case WEBHOOK_DISPATCH
      show ?thesis unfolding run WEBHOOK_DISPATCH job_type.case by (rule hook)
    next
      case SLA_COMPUTATION
      show ?thesis unfolding run SLA_COMPUTATION job_type.case using sla st(1) by (cases "retry_payload je j") simp_all
    next
      case BULK_SLA_COMPUTATION
      show ?thesis unfolding run BULK_SLA_COMPUTATION job_type.case using bulk st(1) by (cases "retry_payload je j") simp_all
    qed
  next
    case False
    then have "j_status j \<notin> {Job_FAILURE, Job_REVOKED} \<or> j_retry_count j \<ge> j_max_retries j" by (simp add: not_less)
    then have "retry_job je k st = (Inl (HTTPError 400), st)" unfolding retry_job_def Some option.case by (rule if_refused)
    then show ?thesis using ok by simp
  qed
qed (simp add: retry_job_def)

lemma bulk_devices_ok:
  "jobs_ok (js_jobs st) \<Longrightarrow> bulk_devices je task tot period ds n st = (rs, m, st') \<Longrightarrow> jobs_ok (js_jobs st')"
proof (induction je task tot period ds n st arbitrary: rs m st' rule: bulk_devices.induct)
  case (2 je task tot period idx d ds errors st)
  from 2(3) show ?case
    by (auto simp: Let_def split: prod.splits intro!: 2(1) [OF refl refl refl] task_marks_ok 2(2))
qed simp

lemma cleanup_status_ok: "jobs_ok (js_jobs st) \<Longrightarrow> 0 < n \<Longrightarrow> jobs_ok (js_jobs (snd (cleanup_status dry n s c st)))"
  by (auto simp: cleanup_status_def Let_def delete_jobs_by_status_def delete_in_batches_correct jobs_ok_filter)

lemma job_step_ok: "job_step st st' \<Longrightarrow> jobs_ok (js_jobs st) \<Longrightarrow> jobs_ok (js_jobs st')"
proof (induction rule: job_step.induct)
  case (submitting st je d p)
  have "js_jobs (snd (submit_sla_computation je d p st)) = js_jobs (snd (enqueue_sla_computation je d p st))"
    by (simp add: submit_sla_computation_def split: prod.split sum.split)
  with submitting show ?case by (simp add: enqueue_sla_computation_def enqueue_ok)
next
  case (submitting_bulk st je ds p)
  have "js_jobs (snd (submit_bulk_sla_computation je ds p st)) \<in> {js_jobs st, js_jobs (snd (enqueue_bulk_sla_computation je ds p st))}"
    by (simp add: submit_bulk_sla_computation_def split: prod.split sum.split)
  moreover have "jobs_ok (js_jobs (snd (enqueue_bulk_sla_computation je ds p st)))"
    unfolding enqueue_bulk_sla_computation_def by (rule enqueue_ok [OF submitting_bulk])
  ultimately show ?case using submitting_bulk by auto
next
  case (polling st je k)
  have "snd (get_job je k st) = (case get_job_row k st of None \<Rightarrow> st | Some j \<Rightarrow> snd (sync_job_status je j st))"
    by (simp add: get_job_def split: option.split prod.split)
  with polling show ?case by (simp add: sync_job_status_ok split: option.split)
next
  case (watching st je k)
  have "snd (get_job_progress je k st) = (case get_job_row k st of None \<Rightarrow> st | Some j \<Rightarrow> snd (sync_job_status je j st))"
    by (simp add: get_job_progress_def split: option.split prod.split)
  with watching show ?case by (simp add: sync_job_status_ok split: option.split)
next
  case (cancelling st je k)
  then show ?case by (auto simp: cancel_job_def on_status_ok split: option.split)
next
  case (retrying_job st je k)
  then show ?case by (rule retry_job_ok)
next
  case (running st je task_id retries device_id period)
  then show ?case by (simp add: compute_sla_for_device_def fail_task_def Let_def task_marks_ok)
next
  case (running_bulk st je task_id device_ids period)
  let ?n = "length device_ids"
  let ?st = "update_progress je task_id 5 (stage ''initialization'' [(''total_devices'', JInt (int ?n)), (''period'', JStr period)])
    (mark_started je task_id st)"
  obtain rs m st2 where loop: "bulk_devices je task_id ?n period (zip [1..<?n + 1] device_ids) 0 ?st = (rs, m, st2)" using prod_cases3 by blast
  have "jobs_ok (js_jobs ?st)" using running_bulk by (simp add: task_marks_ok)
  from bulk_devices_ok [OF this loop] have "jobs_ok (js_jobs st2)" .
  then show ?case unfolding compute_bulk_sla_def Let_def loop prod.case snd_conv by (intro task_marks_ok) simp_all
next
  case (cleaning_up st je s f dry)
  then show ?case
    by (simp add: cleanup_endpoint_def cleanup_old_jobs_def Let_def split_beta cleanup_status_ok)
qed

text \<open>C21. Whatever sequence of submissions, polls, cancellations, retries, task runs and clean-ups is executed, job ids and task ids stay unique, no job is retried more often than its limit of three, and progress stays between 0 and 100.\<close>

theorem job_table_stays_sound:
  assumes "job_step\<^sup>*\<^sup>* st st'" "jobs_ok (js_jobs st)"
  shows "jobs_ok (js_jobs st')"
  using assms by (induction rule: rtranclp_induct) (auto dest: job_step_ok)

section \<open>Retention\<close>

text \<open>A clean-up removes exactly the successful and revoked jobs that finished before the first cutoff and the failed ones that finished before the second, in any number of batches; a dry run reports the same three numbers and changes nothing.\<close>

theorem job_cleanup_exact:
  assumes "0 < n" and cs: "cs = now (je_env je) - days_or s 30 * je_day je" and cf: "cf = now (je_env je) - days_or f 90 * je_day je"
  shows "js_jobs (snd (cleanup_old_jobs je s f False n st)) =
      filter (\<lambda>j. \<not> (finished_before Job_SUCCESS cs j \<or> finished_before Job_FAILURE cf j \<or> finished_before Job_REVOKED cs j)) (js_jobs st) \<and>
    snd (cleanup_old_jobs je s f True n st) = st \<and>
    ct_successful (fst (cleanup_old_jobs je s f True n st)) = ct_successful (fst (cleanup_old_jobs je s f False n st)) \<and>
    ct_failed (fst (cleanup_old_jobs je s f True n st)) = ct_failed (fst (cleanup_old_jobs je s f False n st)) \<and>
    ct_revoked (fst (cleanup_old_jobs je s f True n st)) = ct_revoked (fst (cleanup_old_jobs je s f False n st))"
proof -
  have none: "filter P xs = [] \<Longrightarrow> filter (\<lambda>x. \<not> P x) xs = xs" for P and xs :: "job_row list" by (induction xs) (auto split: if_splits)
  have del: "cleanup_status False n t c st = ((length (filter (finished_before t c) (js_jobs st)), length (filter (finished_before t c) (js_jobs st))),
      st\<lparr>js_jobs := filter (\<lambda>j. \<not> finished_before t c j) (js_jobs st)\<rparr>)" for t c st
    using none [of "finished_before t c" "js_jobs st"] assms(1)
    by (auto simp: cleanup_status_def count_jobs_by_status_def delete_jobs_by_status_def delete_in_batches_correct Let_def)
  have keep: "cleanup_status True n t c st = ((length (filter (finished_before t c) (js_jobs st)), 0), st)" for t c st
    by (simp add: cleanup_status_def count_jobs_by_status_def Let_def)
  have other: "filter (\<lambda>x. \<not> finished_before Job_SUCCESS cs x \<and> finished_before Job_FAILURE cf x) xs = filter (finished_before Job_FAILURE cf) xs"
    "filter (\<lambda>x. \<not> finished_before Job_SUCCESS cs x \<and> \<not> finished_before Job_FAILURE cf x \<and> finished_before Job_REVOKED cs x) xs =
       filter (finished_before Job_REVOKED cs) xs" for xs
    by (auto intro!: filter_cong simp: finished_before_def)
  show ?thesis
    by (simp add: cleanup_old_jobs_def Let_def del keep cs [symmetric] cf [symmetric] other)
qed

section \<open>What happens to one job\<close>

lemma find_update_same: "(\<And>x. g (f x) = g x) \<Longrightarrow> find (\<lambda>x. g x = k) (update_first (\<lambda>x. g x = k) f xs) = map_option f (find (\<lambda>x. g x = k) xs)"
  by (induction xs) auto

lemma find_update_other_key:
  "(\<And>x. g (f x) = g x) \<Longrightarrow> find (\<lambda>x. g x = k) xs = Some r \<Longrightarrow>
   find (\<lambda>x. g x = k) (update_first P f xs) \<in> {Some r, Some (f r)}"
  by (induction xs) auto

lemma touch_job_reads [simp]:
  "j_status (touch_job t f j) = j_status (f j)" "j_error (touch_job t f j) = j_error (f j)" "j_result (touch_job t f j) = j_result (f j)"
  "j_per_item_errors (touch_job t f j) = j_per_item_errors (f j)" "j_finished_at (touch_job t f j) = j_finished_at (f j)"
  by (auto simp: touch_job_def Let_def)

lemma get_job_row_on_job:
  "(\<And>x. j_id (f x) = j_id x) \<Longrightarrow> get_job_row k (on_job je k f st) = map_option (touch_job (now (je_env je)) f) (get_job_row k st)"
  unfolding get_job_row_def on_job_def by (simp add: find_update_same touch_job_fields(1))

lemma get_job_by_task_on_task:
  "(\<And>x. j_celery_task_id (f x) = j_celery_task_id x) \<Longrightarrow>
   get_job_by_task k (on_task_job je k f st) = map_option (touch_job (now (je_env je)) f) (get_job_by_task k st)"
  unfolding get_job_by_task_def on_task_job_def by (simp add: find_update_same touch_job_fields(2))

lemma get_job_by_task_marks:
  assumes "get_job_by_task k st = Some j"
  shows "\<exists>j'. get_job_by_task k (mark_started je k st) = Some j' \<and> j_per_item_errors j' = j_per_item_errors j"
    "\<exists>j'. get_job_by_task k (update_progress je k p d st) = Some j' \<and> j_per_item_errors j' = j_per_item_errors j"
    "get_job_by_task k (log_retry je k n e st) = Some j"
    "\<exists>j'. get_job_by_task k (add_item_error je k i e st) = Some j' \<and>
       j_per_item_errors j' = (if j_per_item_errors j \<in> {None, Some []} then Some [(i, e)] else j_per_item_errors j)"
    "\<exists>j'. get_job_by_task k (mark_failure je k e st) = Some j' \<and> j_status j' = Job_FAILURE \<and> j_error j' = Some e"
    "\<exists>j'. get_job_by_task k (mark_success je k r st) = Some j' \<and> j_status j' = Job_SUCCESS \<and> j_result j' = Some r \<and>
       j_per_item_errors j' = j_per_item_errors j"
  using assms
  by (auto simp: mark_started_def update_progress_def add_item_error_def mark_failure_def mark_success_def log_retry_def
      get_job_by_task_on_task) (auto simp: get_job_by_task_def)

lemma bulk_devices_outcome:
  assumes "bulk_devices je k tot period ds n st = (rs, m, st')" "get_job_by_task k st = Some j"
  shows "rs = map (\<lambda>(_, d). (d, je_exc_text je NameError)) ds \<and> m = n + length ds \<and>
    (\<exists>j'. get_job_by_task k st' = Some j' \<and> j_per_item_errors j' =
       (if ds = [] \<or> j_per_item_errors j \<notin> {None, Some []} then j_per_item_errors j else Some [(snd (hd ds), je_exc_text je NameError)]))"
  using assms
proof (induction ds arbitrary: n st rs m j)
  case (Cons x ds)
  obtain idx d where x: "x = (idx, d)" by fastforce
  let ?e = "je_exc_text je NameError"
  define pd where "pd = \<lparr>pd_fields = [(''stage'', JStr ''processing_devices''), (''current_device'', JStr d), (''processed_count'', JInt 0),
                     (''error_count'', JInt (int n + 1)), (''total_devices'', JInt (int tot)), (''violations_found'', JInt 0)],
                   pd_percentage = Some (round2 (of_nat idx / of_nat tot * 100))\<rparr>"
  let ?st = "update_progress je k (of_nat idx / of_nat tot * 100) pd (add_item_error je k d ?e st)"
  obtain j1 where j1: "get_job_by_task k (add_item_error je k d ?e st) = Some j1"
    "j_per_item_errors j1 = (if j_per_item_errors j \<in> {None, Some []} then Some [(d, ?e)] else j_per_item_errors j)"
    using get_job_by_task_marks(4) [OF Cons.prems(2)] by metis
  obtain j2 where j2: "get_job_by_task k ?st = Some j2" "j_per_item_errors j2 = j_per_item_errors j1"
    using get_job_by_task_marks(2) [OF j1(1)] by metis
  obtain rs1 m1 st1 where rec: "bulk_devices je k tot period ds (n + 1) ?st = (rs1, m1, st1)" using prod_cases3 by blast
  from Cons.prems(1) rec have res: "rs = (d, ?e) # rs1" "m = m1" "st' = st1"
    by (simp_all add: x Let_def compute_device_sla_def pd_def)
  from Cons.IH [OF rec [folded res(3)] j2(1)] j1(2) j2(2) show ?case by (auto simp: res x)
qed auto


lemma get_job_row_cleanup:
  assumes "get_job_row k st = Some j" "j_finished_at j = None" "0 < n"
  shows "get_job_row k (snd (cleanup_status dry n s c st)) = Some j"
proof -
  have "find (\<lambda>x. j_id x = k) (filter (\<lambda>x. \<not> finished_before s c x) xs) = Some j" if "find (\<lambda>x. j_id x = k) xs = Some j" for xs
    using that assms(2) by (induction xs) (auto simp: finished_before_def split: if_splits)
  then show ?thesis using assms(1,3)
    by (simp add: cleanup_status_def Let_def delete_jobs_by_status_def delete_in_batches_correct get_job_row_def)
qed

lemma cleanup_keeps_unfinished:
  assumes "get_job_row k st = Some j" "j_finished_at j = None"
  shows "get_job_row k (snd (cleanup_endpoint je s f dry st)) = Some j"
  using assms by (simp add: cleanup_endpoint_def cleanup_old_jobs_def Let_def split_beta get_job_row_cleanup)

text \<open>Cancelling a running job succeeds and leaves no finishing time, so no later sequence of clean-ups, with whatever retention, removes it.\<close>

theorem cancelled_job_is_never_cleaned:
  assumes "get_job_row k st = Some j" "\<not> terminal (j_status j)" "j_finished_at j = None" "cancel_job je k st = (r, st1)"
  shows "r = Inr () \<and> (\<exists>j'. get_job_row k (fold (\<lambda>(je, s, f, dry) st. snd (cleanup_endpoint je s f dry st)) cleanups st1) = Some j' \<and>
    j_status j' = Job_REVOKED)"
proof -
  let ?j = "touch_job (now (je_env je)) (j_status_update (\<lambda>_. Job_REVOKED)) j"
  have st1: "r = Inr ()" "get_job_row k st1 = Some ?j"
    using assms by (auto simp: cancel_job_def get_job_row_on_job)
  have "get_job_row k (fold (\<lambda>(je, s, f, dry) st. snd (cleanup_endpoint je s f dry st)) cleanups st1) = Some ?j"
    using st1(2)
  proof (induction cleanups arbitrary: st1)
    case (Cons c cs)
    from cleanup_keeps_unfinished [OF Cons.prems] assms(3) have "get_job_row k ((\<lambda>(je, s, f, dry) st. snd (cleanup_endpoint je s f dry st)) c st1) = Some ?j"
      by (cases c) simp
    from Cons.IH [OF this] show ?case by simp
  qed simp
  with st1(1) show ?thesis by simp
qed

text \<open>The row of a job after a retry that was accepted.\<close>

lemma retry_job_row:
  assumes "retry_job je k st = (Inr r, st1)"
  shows "get_job_row k st1 = Some r \<and> j_status r = Job_PENDING \<and> j_id r = k \<and> js_cache st1 = js_cache st"
proof -
  from assms obtain j where j: "get_job_row k st = Some j" by (cases "get_job_row k st") (simp_all add: retry_job_def)
  have id: "j_id j = k" using j by (auto simp: get_job_row_def dest: find_Some_P)
  have refused: "\<not> (j_status j \<notin> {Job_FAILURE, Job_REVOKED})" "\<not> j_retry_count j \<ge> j_max_retries j"
    using assms by (auto simp: retry_job_def j split: if_splits)
  have sub: "get_job_row k st1 = Some r \<and> j_status r = Job_PENDING \<and> j_id r = k \<and> js_cache st1 = js_cache st"
    if "resubmit je t g j (log_job je ev d st) = (Inr r, st1)" and g: "\<And>i x. j_id (g i x) = j_id x" "\<And>i x. j_status (g i x) = j_status x" for t g ev d
  proof -
    have "j_id (g i (reset_for_retry t x)) = j_id x" for i t x by (simp add: g reset_for_retry_def)
    with that(1) j id show ?thesis
      by (auto simp: resubmit_def job_draw_def Let_def log_job_def get_job_row_on_job g reset_for_retry_def split: if_splits)
         (auto simp: get_job_row_def on_job_def touch_job_fields(1) g)
  qed
  have "retry_bulk je d j st0 \<noteq> (Inr r, st1)" for d st0 by (auto simp: retry_bulk_def split: option.split prod.split sum.split json.split)
  with assms refused sub show ?thesis unfolding retry_job_def j option.case Let_def
    by (simp only: if_False) (auto split: job_type.splits json.splits)
qed

lemma sync_uses_cache:
  assumes "\<not> terminal (j_status j)" "map_of (js_cache st) (j_id j) = Some (s, e)" "je_clock je \<le> e"
  shows "sync_job_status je j st = (touch_job (now (je_env je)) (j_status_update (\<lambda>_. s)) j, on_job je (j_id j) (j_status_update (\<lambda>_. s)) st)"
proof -
  have "ttl_get (je_clock je) (j_id j) (js_cache st) = (Some s, js_cache st)" using assms(2,3) by (simp add: ttl_get_def)
  with assms(1) show ?thesis by (simp add: sync_job_status_def Let_def)
qed

lemma sync_fills_cache:
  assumes "\<not> terminal (j_status j)" "map_of (js_cache st) (j_id j) = None"
  shows "map_of (js_cache (snd (sync_job_status je j st))) (j_id j) =
    Some (celery_state_to_job_status (je_celery_state je (j_celery_task_id j)) (j_status j), je_clock je + je_ttl je)"
  using assms by (simp add: sync_job_status_def ttl_get_def ttl_set_def Let_def on_job_def update_conv')

text \<open>A job that was polled as failed and then retried is set back to failed by the next poll, as long as the status cache still holds the old answer.\<close>

theorem retry_undone_by_cached_status:
  assumes j: "get_job_row k st = Some j" "\<not> terminal (j_status j)" "map_of (js_cache st) k = None"
    and failed: "celery_state_to_job_status (je_celery_state je (j_celery_task_id j)) (j_status j) = Job_FAILURE"
    and retry: "retry_job je2 k (snd (get_job je k st)) = (Inr r, st2)" and soon: "je_clock je3 \<le> je_clock je + je_ttl je"
  shows "j_status r = Job_PENDING \<and> (\<exists>j3. get_job_row k (snd (get_job je3 k st2)) = Some j3 \<and> j_status j3 = Job_FAILURE)"
proof -
  have id: "j_id j = k" using j(1) by (auto simp: get_job_row_def dest: find_Some_P)
  have "snd (get_job je k st) = snd (sync_job_status je j st)" by (simp add: get_job_def j(1) split: prod.split)
  with sync_fills_cache [OF j(2)] j(3) failed id
  have cache: "map_of (js_cache (snd (get_job je k st))) k = Some (Job_FAILURE, je_clock je + je_ttl je)" by simp
  note row = retry_job_row [OF retry]
  have sync: "snd (get_job je3 k st2) = on_job je3 k (j_status_update (\<lambda>_. Job_FAILURE)) st2"
    using sync_uses_cache [of r st2 Job_FAILURE "je_clock je + je_ttl je" je3] row cache soon
    by (simp add: get_job_def terminal_def)
  show ?thesis using row unfolding sync by (simp add: get_job_row_on_job)
qed

text \<open>The retry of a bulk job never succeeds: whatever the state, the request is answered with an error.\<close>

theorem bulk_retry_is_always_refused:
  assumes "get_job_row k st = Some j" "j_job_type j = BULK_SLA_COMPUTATION"
  shows "\<exists>code. fst (retry_job je k st) = Inl (HTTPError code)"
proof -
  have "\<exists>code. fst (retry_bulk je d j st1) = Inl (HTTPError code)" for d st1
    by (auto simp: retry_bulk_def split: option.split prod.split sum.split json.split)
  then show ?thesis unfolding retry_job_def assms(1) option.case Let_def assms(2) job_type.case
    by (auto split: json.split)
qed

section \<open>One task per request\<close>

lemma sort_desc_newest:
  assumes "\<forall>x \<in> set xs. f x < f j"
  shows "sort_desc f (xs @ [j]) = j # sort_desc f xs"
proof -
  have "insort_key f j (sort_key f (rev xs)) = sort_key f (rev xs) @ [j]" by (rule insort_key_max) (simp add: assms)
  then show ?thesis by (simp add: sort_desc_def)
qed

lemma advisory_lock_Inr: "advisory_lock_nowait b f s = (Inr x, s') \<Longrightarrow> b \<and> f s = (Inr x, s')"
  by (auto simp: advisory_lock_nowait_def split: if_splits prod.splits sum.splits exn.splits)

lemma enqueue_new:
  assumes "enqueue je ty m t p st = (Inr j, st1)" "js_jobs st1 \<noteq> js_jobs st"
  shows "\<exists>a b. j = new_job je b a ty p \<and> js_jobs st1 = js_jobs st @ [j] \<and> js_queue st1 = js_queue st @ [(a, t)]"
proof -
  note body = advisory_lock_Inr [OF assms(1) [unfolded enqueue_def], THEN conjunct2]
  have none: "find_inflight_sla_job je ty m st = Inr None"
  proof (rule ccontr)
    assume "find_inflight_sla_job je ty m st \<noteq> Inr None"
    then obtain e k where "find_inflight_sla_job je ty m st = Inl e \<or> find_inflight_sla_job je ty m st = Inr (Some k)"
      by (cases "find_inflight_sla_job je ty m st") (auto simp: not_None_eq)
    with body have "st1 = st" by (elim disjE) simp_all
    with assms(2) show False by simp
  qed
  obtain a sta where d1: "job_draw je st = (a, sta)" by fastforce
  obtain b stb where d2: "job_draw je (sta\<lparr>js_queue := js_queue sta @ [(a, t)]\<rparr>) = (b, stb)" by fastforce
  have run: "insert_job (new_job je b a ty p) stb = (Inr j, st1)" using body unfolding none sum.case option.case d1 prod.case d2 .
  have "js_queue stb = js_queue st @ [(a, t)]" "js_jobs stb = js_jobs st"
    using d1 d2 by (auto simp: job_draw_def)
  with run show ?thesis unfolding insert_job_def by (auto split: if_splits)
qed

text \<open>Submitting the same device and period again while the first task is in flight returns the first job, changes nothing, and so leaves a single task in the queue.\<close>

theorem resubmission_returns_job_in_flight:
  assumes first: "enqueue_sla_computation je d p st = (Inr j, st1)" "js_jobs st1 \<noteq> js_jobs st"
    and later: "\<forall>x \<in> set (js_jobs st). j_created_at x < now (je_env je)"
    and flying: "je_celery_state je2 (j_celery_task_id j) \<in> {''PENDING'', ''STARTED'', ''RETRY''}" "je_lock je2"
  shows "enqueue_sla_computation je2 d p st1 = (Inr j, st1) \<and> (\<exists>a. js_queue st1 = js_queue st @ [(a, Compute_sla_for_device d p)])"
proof -
  let ?p = "with_correlation je [(''device_id'', JStr d), (''period'', JStr p)]"
  from enqueue_new [OF first(1) [unfolded enqueue_sla_computation_def] first(2)] obtain a b where
    j: "j = new_job je b a SLA_COMPUTATION ?p" and jobs: "js_jobs st1 = js_jobs st @ [j]"
    and queue: "js_queue st1 = js_queue st @ [(a, Compute_sla_for_device d p)]" by blast
  let ?P = "\<lambda>j. j_job_type j = SLA_COMPUTATION \<and> j_status j \<in> {Job_PENDING, Job_STARTED}"
  have "sort_desc j_created_at (filter ?P (js_jobs st1)) = j # sort_desc j_created_at (filter ?P (js_jobs st))"
    using later sort_desc_newest [of "filter ?P (js_jobs st)" j_created_at j] by (simp add: jobs j new_job_def)
  then have "find_inflight_sla_job je2 SLA_COMPUTATION (\<lambda>p'. map_of p' ''device_id'' = Some (JStr d) \<and> map_of p' ''period'' = Some (JStr p)) st1 = Inr (Some j)"
    using flying(1) by (simp add: find_inflight_sla_job_def coerce_job_payload_def) (simp add: j new_job_def with_correlation_def)
  then show ?thesis using flying(2) queue by (simp add: enqueue_sla_computation_def enqueue_def advisory_lock_nowait_def)
qed

section \<open>Paging\<close>

fun walk_jobs :: "job_type option \<Rightarrow> job_status option \<Rightarrow> nat \<Rightarrow> nat \<Rightarrow> (str \<times> time) option \<Rightarrow> job_state \<Rightarrow> job_row list" where
  "walk_jobs ty status limit 0 cur st = []"
| "walk_jobs ty status limit (Suc n) cur st =
     (let page = list_jobs ty status limit cur st in
      jp_items page @ (case jp_next_cursor page of None \<Rightarrow> [] | Some c \<Rightarrow> walk_jobs ty status limit n (Some c) st))"

definition wanted :: "job_type option \<Rightarrow> job_status option \<Rightarrow> job_row \<Rightarrow> bool" where
  "wanted ty status j \<longleftrightarrow> (ty = None \<or> ty = Some (j_job_type j)) \<and> (status = None \<or> status = Some (j_status j))"

abbreviation job_key :: "job_row \<Rightarrow> time \<times> str" where "job_key j \<equiv> (j_created_at j, j_id j)"

lemma past_cursor_key: "past_cursor (Some (k, t)) j \<longleftrightarrow> job_key j < (t, k)"
  by (auto simp: past_cursor_def)

lemma job_order_filter: "job_order (filter P js) = filter P (job_order js)"
  by (simp add: job_order_def filter_sort [symmetric] rev_filter)

lemma sorted_wrt_both:
  "sorted_wrt P xs \<Longrightarrow> sorted_wrt Q xs \<Longrightarrow> (\<And>a b. P a b \<Longrightarrow> Q a b \<Longrightarrow> R a b) \<Longrightarrow> sorted_wrt R xs"
  by (induction xs) auto

lemma job_order_decreasing:
  assumes "distinct (map j_id js)"
  shows "sorted_wrt (\<lambda>a b. job_key b < job_key a) (job_order js)"
proof -
  have "sorted_wrt (\<lambda>a b. job_key b \<le> job_key a) (job_order js)"
    using sorted_sort_key [of job_key js] by (simp add: job_order_def sorted_wrt_rev sorted_wrt_map)
  moreover have "distinct (map j_id (job_order js))" using assms by (simp add: job_order_def distinct_map)
  then have "sorted_wrt (\<lambda>a b. j_id a \<noteq> j_id b) (job_order js)" by (simp add: distinct_conv_nth sorted_wrt_iff_nth_less)
  ultimately show ?thesis by (rule sorted_wrt_both) (metis order.not_eq_order_implies_strict prod.inject)
qed

lemma past_suffix:
  assumes "sorted_wrt (\<lambda>a b. job_key b < job_key a) (xs @ ys)" "xs \<noteq> []"
  shows "filter (past_cursor (Some (j_id (last xs), j_created_at (last xs)))) (xs @ ys) = ys"
proof -
  obtain zs z where xs: "xs = zs @ [z]" using assms(2) by (metis rev_exhaust)
  have "filter (\<lambda>j. job_key j < job_key z) zs = []" using assms(1) by (auto simp: xs sorted_wrt_append filter_empty_conv dest: order.asym)
  moreover have "filter (\<lambda>j. job_key j < job_key z) ys = ys" using assms(1) by (auto simp: xs sorted_wrt_append filter_id_conv)
  ultimately have "filter (\<lambda>j. job_key j < job_key z) ((zs @ [z]) @ ys) = ys" by simp
  moreover have "past_cursor (Some (j_id z, j_created_at z)) = (\<lambda>j. job_key j < job_key z)" by (rule ext) (rule past_cursor_key)
  ultimately show ?thesis by (simp only: xs last_snoc)
qed

lemma list_jobs_page:
  assumes "filter (past_cursor cur) (job_order (filter (wanted ty status) (js_jobs st))) = ys"
  shows "jp_items (list_jobs ty status limit cur st) = take limit ys"
    "jp_next_cursor (list_jobs ty status limit cur st) =
       (if length ys > limit \<and> take limit ys \<noteq> [] then Some (j_id (last (take limit ys)), j_created_at (last (take limit ys))) else None)"
proof -
  have "job_order (filter (\<lambda>j. (ty = None \<or> ty = Some (j_job_type j)) \<and> (status = None \<or> status = Some (j_status j)) \<and> past_cursor cur j) (js_jobs st)) = ys"
    unfolding assms [symmetric] job_order_filter [symmetric] by (simp add: wanted_def conj_assoc)
  then show "jp_items (list_jobs ty status limit cur st) = take limit ys"
    "jp_next_cursor (list_jobs ty status limit cur st) =
       (if length ys > limit \<and> take limit ys \<noteq> [] then Some (j_id (last (take limit ys)), j_created_at (last (take limit ys))) else None)"
    by (simp_all add: list_jobs_def Let_def min_def)
qed

lemma walk_jobs_suffix:
  assumes sorted: "sorted_wrt (\<lambda>a b. job_key b < job_key a) (job_order (filter (wanted ty status) (js_jobs st)))" and "0 < limit"
  shows "job_order (filter (wanted ty status) (js_jobs st)) = xs @ ys \<Longrightarrow> length ys < n \<Longrightarrow>
    (xs = [] \<and> cur = None) \<or> (xs \<noteq> [] \<and> cur = Some (j_id (last xs), j_created_at (last xs))) \<Longrightarrow>
    walk_jobs ty status limit n cur st = ys"
proof (induction n arbitrary: xs ys cur)
  case (Suc n)
  have rest: "filter (past_cursor cur) (job_order (filter (wanted ty status) (js_jobs st))) = ys"
    using Suc.prems(3) past_suffix sorted unfolding Suc.prems(1) by (auto simp: past_cursor_def)
  note page = list_jobs_page [OF rest, of limit]
  show ?case
  proof (cases "length ys > limit")
    case True
    have ne: "take limit ys \<noteq> []" using True assms(2) by auto
    have "walk_jobs ty status limit n (Some (j_id (last (take limit ys)), j_created_at (last (take limit ys)))) st = drop limit ys"
      by (rule Suc.IH [of "xs @ take limit ys"]) (use Suc.prems True ne assms(2) in auto)
    then show ?thesis using True ne by (simp add: page Let_def)
  next
    case False
    then show ?thesis by (simp add: page Let_def)
  qed
next
  case 0
  then show ?case by (simp only: not_less0)
qed

text \<open>Following the cursors of the job listing returns every job that matches the filters exactly once, newest first with ties by larger id.\<close>

theorem job_pages_complete:
  assumes "jobs_ok (js_jobs st)" "0 < limit" "length (js_jobs st) < n"
  shows "walk_jobs ty status limit n None st = job_order (filter (wanted ty status) (js_jobs st)) \<and>
    sorted_wrt (\<lambda>a b. (j_created_at b, j_id b) < (j_created_at a, j_id a)) (walk_jobs ty status limit n None st)"
proof -
  have sorted: "sorted_wrt (\<lambda>a b. job_key b < job_key a) (job_order (filter (wanted ty status) (js_jobs st)))"
    using assms(1) by (intro job_order_decreasing) (simp add: jobs_ok_def distinct_map_filter)
  have "length (job_order (filter (wanted ty status) (js_jobs st))) < n"
    using le_less_trans [OF length_filter_le assms(3)] by (simp add: job_order_def)
  with walk_jobs_suffix [OF sorted assms(2), of "[]"] sorted show ?thesis by simp
qed

section \<open>Concrete jobs\<close>

definition sample_job_env :: "time \<Rightarrow> str \<Rightarrow> job_env" where
  "sample_job_env t state =
     \<lparr>je_env = (sample_env t)\<lparr>uuid4_hex := \<lambda>n. replicate n CHR ''u''\<rparr>, je_clock = t, je_ttl = 5, je_day = 86400, je_celery_state = (\<lambda>_. state),
      je_lock = True, je_loads = (\<lambda>_. None), je_exc_text = (\<lambda>_. ''error''), je_actor = ''admin''\<rparr>"

definition sample_job :: "str \<Rightarrow> job_type \<Rightarrow> job_status \<Rightarrow> time \<Rightarrow> job_row" where
  "sample_job k ty s t =
     \<lparr>j_id = k, j_celery_task_id = ''t'' @ k, j_job_type = ty, j_status = s, j_payload = Some (JObj []), j_result = None, j_error = None,
      j_progress = 0, j_progress_details = None, j_partial_results = None, j_per_item_errors = None, j_retry_count = 0,
      j_max_retries = 3, j_last_retried_at = None, j_started_at = None, j_finished_at = None, j_created_at = t, j_updated_at = t\<rparr>"

definition sample_jobs :: "job_row list \<Rightarrow> job_state" where
  "sample_jobs js = \<lparr>js_db = empty_database, js_jobs = js, js_cache = [], js_queue = []\<rparr>"

lemma sample_jobs_fields [simp]: "js_jobs (sample_jobs js) = js" "js_cache (sample_jobs js) = []"
  by (simp_all add: sample_jobs_def)

theorem job_table_stays_sound_witness:
  "jobs_ok (js_jobs (snd (retry_job (sample_job_env 9 ''FAILURE'') ''a''
     (snd (get_job (sample_job_env 8 ''FAILURE'') ''a'' (sample_jobs [sample_job ''a'' WEBHOOK_DISPATCH Job_STARTED 1]))))))"
proof (rule job_table_stays_sound)
  let ?st = "sample_jobs [sample_job ''a'' WEBHOOK_DISPATCH Job_STARTED 1]"
  show "job_step\<^sup>*\<^sup>* ?st (snd (retry_job (sample_job_env 9 ''FAILURE'') ''a'' (snd (get_job (sample_job_env 8 ''FAILURE'') ''a'' ?st))))"
    by (rule converse_rtranclp_into_rtranclp [OF polling r_into_rtranclp [of job_step, OF retrying_job]])
  show "jobs_ok (js_jobs ?st)" by (simp add: jobs_ok_def job_ok_def sample_job_def)
qed

theorem job_cleanup_exact_witness:
  "js_jobs (snd (cleanup_old_jobs (sample_job_env 9 ''SUCCESS'') None None False 1000 (sample_jobs [sample_job ''a'' WEBHOOK_DISPATCH Job_SUCCESS 1])))
     = [sample_job ''a'' WEBHOOK_DISPATCH Job_SUCCESS 1]"
  using job_cleanup_exact [of 1000 _ "sample_job_env 9 ''SUCCESS''" None _ None "sample_jobs [sample_job ''a'' WEBHOOK_DISPATCH Job_SUCCESS 1]", OF _ refl refl]
  by (simp add: finished_before_def sample_job_def)


theorem cancelled_job_is_never_cleaned_witness:
  "\<exists>st j. cancel_job (sample_job_env 9 ''STARTED'') ''a'' (sample_jobs [sample_job ''a'' WEBHOOK_DISPATCH Job_STARTED 1]) = (Inr (), st) \<and>
     get_job_row ''a'' (snd (cleanup_endpoint (sample_job_env (10 ^ 9) ''REVOKED'') None None False st)) = Some j \<and> j_status j = Job_REVOKED"
proof -
  let ?j = "sample_job ''a'' WEBHOOK_DISPATCH Job_STARTED 1"
  obtain r st where run: "cancel_job (sample_job_env 9 ''STARTED'') ''a'' (sample_jobs [?j]) = (r, st)" by fastforce
  have a: "get_job_row ''a'' (sample_jobs [?j]) = Some ?j" "\<not> terminal (j_status ?j)" "j_finished_at ?j = None"
    by (simp_all add: get_job_row_def sample_job_def terminal_def)
  from cancelled_job_is_never_cleaned [OF a run, where cleanups = "[(sample_job_env (10 ^ 9) ''REVOKED'', None, None, False)]"] run
  show ?thesis by auto
qed

theorem bulk_retry_is_always_refused_witness:
  "\<exists>code. fst (retry_job (sample_job_env 9 ''FAILURE'') ''a'' (sample_jobs [sample_job ''a'' BULK_SLA_COMPUTATION Job_FAILURE 1])) = Inl (HTTPError code)"
  by (rule bulk_retry_is_always_refused [where j = "sample_job ''a'' BULK_SLA_COMPUTATION Job_FAILURE 1"]) (simp_all add: get_job_row_def sample_job_def)

theorem retry_undone_by_cached_status_witness:
  "\<exists>r st. retry_job (sample_job_env 9 ''FAILURE'') ''a''
      (snd (get_job (sample_job_env 8 ''FAILURE'') ''a'' (sample_jobs [sample_job ''a'' WEBHOOK_DISPATCH Job_STARTED 1]))) = (Inr r, st) \<and>
     (\<exists>j. get_job_row ''a'' (snd (get_job (sample_job_env 10 ''PENDING'') ''a'' st)) = Some j \<and> j_status j = Job_FAILURE)"
proof -
  let ?j = "sample_job ''a'' WEBHOOK_DISPATCH Job_STARTED 1"
  have a: "get_job_row ''a'' (sample_jobs [?j]) = Some ?j" "\<not> terminal (j_status ?j)" "map_of (js_cache (sample_jobs [?j])) ''a'' = None"
    by (simp_all add: get_job_row_def sample_job_def terminal_def)
  have failed: "celery_state_to_job_status (je_celery_state (sample_job_env 8 ''FAILURE'') (j_celery_task_id ?j)) (j_status ?j) = Job_FAILURE"
    by (simp add: celery_state_to_job_status_def CELERY_STATE_TO_JOB_STATUS_def sample_job_env_def upper_char_def)
  have "\<exists>r st. retry_job (sample_job_env 9 ''FAILURE'') ''a'' (snd (get_job (sample_job_env 8 ''FAILURE'') ''a'' (sample_jobs [?j]))) = (Inr r, st)"
  proof -
    have "case fst (retry_job (sample_job_env 9 ''FAILURE'') ''a'' (snd (get_job (sample_job_env 8 ''FAILURE'') ''a'' (sample_jobs [?j])))) of Inl _ \<Rightarrow> False | Inr _ \<Rightarrow> True"
      by code_simp
    then show ?thesis by (metis (no_types, lifting) prod.collapse sum.case_eq_if sum.collapse(2))
  qed
  then obtain r st where retry: "retry_job (sample_job_env 9 ''FAILURE'') ''a'' (snd (get_job (sample_job_env 8 ''FAILURE'') ''a'' (sample_jobs [?j]))) = (Inr r, st)" by blast
  have "je_clock (sample_job_env 10 ''PENDING'') \<le> je_clock (sample_job_env 8 ''FAILURE'') + je_ttl (sample_job_env 8 ''FAILURE'')"
    by (simp add: sample_job_env_def)
  from retry_undone_by_cached_status [OF a failed retry this] retry show ?thesis by blast
qed

theorem job_pages_complete_witness:
  "walk_jobs None None 1 5 None (sample_jobs [sample_job ''a'' WEBHOOK_DISPATCH Job_STARTED 1, sample_job ''b'' SLA_COMPUTATION Job_PENDING 2])
     = [sample_job ''b'' SLA_COMPUTATION Job_PENDING 2, sample_job ''a'' WEBHOOK_DISPATCH Job_STARTED 1]"
proof -
  let ?st = "sample_jobs [sample_job ''a'' WEBHOOK_DISPATCH Job_STARTED 1, sample_job ''b'' SLA_COMPUTATION Job_PENDING 2]"
  have "jobs_ok (js_jobs ?st)" by (simp add: jobs_ok_def job_ok_def sample_job_def)
  from job_pages_complete [OF this, of 1 5 None None] show ?thesis
    by (simp add: job_order_def wanted_def) (simp add: sample_job_def)
qed

theorem resubmission_returns_job_in_flight_witness:
  "\<exists>j st. enqueue_sla_computation (sample_job_env 9 ''PENDING'') ''d'' ''2025-03'' (sample_jobs []) = (Inr j, st) \<and>
     enqueue_sla_computation (sample_job_env 10 ''STARTED'') ''d'' ''2025-03'' st = (Inr j, st)"
proof -
  have "\<exists>j st. enqueue_sla_computation (sample_job_env 9 ''PENDING'') ''d'' ''2025-03'' (sample_jobs []) = (Inr j, st) \<and> js_jobs st \<noteq> []"
  proof -
    have "case enqueue_sla_computation (sample_job_env 9 ''PENDING'') ''d'' ''2025-03'' (sample_jobs []) of (Inl _, _) \<Rightarrow> False | (Inr _, st) \<Rightarrow> js_jobs st \<noteq> []"
      by code_simp
    then show ?thesis by (auto split: prod.splits sum.splits)
  qed
  then obtain j st where first: "enqueue_sla_computation (sample_job_env 9 ''PENDING'') ''d'' ''2025-03'' (sample_jobs []) = (Inr j, st)" "js_jobs st \<noteq> []" by blast
  have "enqueue_sla_computation (sample_job_env 10 ''STARTED'') ''d'' ''2025-03'' st = (Inr j, st)"
    by (rule resubmission_returns_job_in_flight [OF first(1), THEN conjunct1]) (use first(2) in \<open>simp_all add: sample_job_env_def\<close>)
  with first(1) show ?thesis by blast
qed

end
