(* ===== verification/Webhook_Admin.thy ===== *)
theory Webhook_Admin
  imports Webhooks Caches "HOL-Library.Product_Lexorder"
begin

text \<open>
  The webhook administration API: \<^verbatim>\<open>app/api/v1/endpoints/webhooks.py\<close> (schemas, registration cap, create, list, get,
  patch, soft delete, delivery listing, secret rotation, retry, dead-letter replay, replay by context), the secret history
  of \<^verbatim>\<open>app/utils/secret_history.py\<close>, its sweep in \<^verbatim>\<open>app/tasks/webhook_secret_housekeeping.py\<close>, the duplicate test of
  \<^verbatim>\<open>app/services/webhook_uniqueness.py\<close> and the stored form of secrets (\<^verbatim>\<open>app/services/secret_encryption.py\<close>).

  The JSON column \<open>previous_secrets\<close> is not change-tracked: a list that is appended to in place is written to the row
  only when the attribute was also assigned in the same transaction.  The audit log has a session of its own, so its
  entries stay when the request's transaction is rolled back.
\<close>

section \<open>State\<close>

record hook_admin =
  ha_hooks :: webhook_state
  ha_audit :: audit_log
  ha_subscribers :: sub_cache
  ha_uuids :: nat

record hook_settings =
  hs_max_name_length :: nat
  hs_max_url_length :: nat
  hs_max_events_count :: nat
  hs_max_max_retries :: int
  hs_max_webhooks :: int
  hs_fanout_warn_threshold :: int
  hs_grace_hours :: int
  hs_max_grace_hours :: int
  hs_hour :: time
  hs_delivery :: delivery_settings
  hs_cache :: "sub_cfg option"

text \<open>
  The surroundings of one request: \<open>hv_resolve_schema\<close> and \<open>hv_resolve\<close> are the answers of the resolver
  while the body is validated and while the handler runs.
\<close>

record hook_env =
  hv_env :: env
  hv_settings :: hook_settings
  hv_uuid :: "nat \<Rightarrow> str"
  hv_hash_token :: "str \<Rightarrow> str"
  hv_resolve_schema :: "str \<Rightarrow> str list option"
  hv_resolve :: "str \<Rightarrow> str list option"
  hv_actor :: str
  hv_token_hex :: str
  hv_cache_fails :: "nat option"
  hv_attempts :: "str \<Rightarrow> attempt_env"
  hv_loads :: "str \<Rightarrow> json option"

abbreviation hook_now :: "hook_env \<Rightarrow> time" where "hook_now hv \<equiv> now (hv_env hv)"

abbreviation hook_network :: "hook_env \<Rightarrow> network_settings" where
  "hook_network hv \<equiv> ds_network (hs_delivery (hv_settings hv))"

abbreviation hook_iso :: "hook_env \<Rightarrow> time \<Rightarrow> str" where "hook_iso hv \<equiv> isoformat (auditing (hv_env hv))"

definition log_hook :: "hook_env \<Rightarrow> str \<Rightarrow> (str \<times> json) list \<Rightarrow> hook_admin \<Rightarrow> hook_admin" where
  "log_hook hv event_type details st =
     st\<lparr>ha_audit := log_simple (auditing (hv_env hv)) (hook_now hv) (correlation_id (hv_env hv)) event_type details (ha_audit st)\<rparr>"

definition on_hooks :: "(webhook_state \<Rightarrow> webhook_state) \<Rightarrow> hook_admin \<Rightarrow> hook_admin" where
  "on_hooks f st = st\<lparr>ha_hooks := f (ha_hooks st)\<rparr>"

definition invalidate_event_listener_cache :: "hook_env \<Rightarrow> webhook_event option \<Rightarrow> hook_admin \<Rightarrow> hook_admin" where
  "invalidate_event_listener_cache hv ev st =
     (case hs_cache (hv_settings hv) of
        None \<Rightarrow> st
      | Some sg \<Rightarrow>
          (case ev of
             None \<Rightarrow> st\<lparr>ha_subscribers := snd (invalidate_all_subscribers sg (hv_cache_fails hv) (hook_now hv) (ha_subscribers st))\<rparr>
           | Some e \<Rightarrow> st\<lparr>ha_subscribers :=
               invalidate_subscribers sg (hv_cache_fails hv = None) (hook_now hv) (webhook_event_value e) (ha_subscribers st)\<rparr>))"

section \<open>Stored secrets\<close>

definition is_encrypted :: "str \<Rightarrow> bool" where
  "is_encrypted value \<longleftrightarrow> starts_with ''gAAAAA'' value"

text \<open>Fernet is an argument: \<open>decrypt\<close> gives \<^term>\<open>None\<close> where the library raises \<open>InvalidToken\<close>.\<close>

definition decrypt_secret :: "(str \<Rightarrow> str option) \<Rightarrow> str \<Rightarrow> str" where
  "decrypt_secret decrypt token =
     (if \<not> is_encrypted token then token else (case decrypt token of None \<Rightarrow> token | Some plain \<Rightarrow> plain))"

definition process_bind_param :: "(str \<Rightarrow> str) \<Rightarrow> str option \<Rightarrow> str option" where
  "process_bind_param encrypt value = map_option encrypt value"

definition process_result_value :: "(str \<Rightarrow> str option) \<Rightarrow> str option \<Rightarrow> str option" where
  "process_result_value decrypt value = map_option (decrypt_secret decrypt) value"

section \<open>Secret history\<close>

definition is_within_grace :: "time \<Rightarrow> secret_entry \<Rightarrow> bool" where
  "is_within_grace t e = (case pe_expires_at e of None \<Rightarrow> True | Some x \<Rightarrow> x > t)"

definition prune_expired_secrets :: "time \<Rightarrow> secret_entry list \<Rightarrow> secret_entry list \<times> nat" where
  "prune_expired_secrets t entries =
     (let kept = filter (is_within_grace t) entries in (kept, length entries - length kept))"

fun sweep_secrets :: "time \<Rightarrow> webhook list \<Rightarrow> webhook list \<times> nat" where
  "sweep_secrets t [] = ([], 0)"
| "sweep_secrets t (w # ws) =
     (case sweep_secrets t ws of (ws', removed) \<Rightarrow>
        if wh_previous_secrets w = [] then (w # ws', removed)
        else
          (case prune_expired_secrets t (wh_previous_secrets w) of (active, dropped) \<Rightarrow>
             if dropped > 0 then (w\<lparr>wh_previous_secrets := active\<rparr> # ws', removed + dropped) else (w # ws', removed)))"

definition expire_old_secrets :: "time \<Rightarrow> webhook_state \<Rightarrow> nat \<times> webhook_state" where
  "expire_old_secrets t s = (case sweep_secrets t (webhooks s) of (ws, removed) \<Rightarrow> (removed, s\<lparr>webhooks := ws\<rparr>))"

section \<open>Rows\<close>

definition is_deleted :: "webhook \<Rightarrow> bool" where
  "is_deleted w \<longleftrightarrow> wh_deleted_at w \<noteq> None"

definition find_webhook :: "str \<Rightarrow> hook_admin \<Rightarrow> webhook option" where
  "find_webhook k st = find (\<lambda>w. wh_id w = k) (webhooks (ha_hooks st))"

definition get_webhook_or_404 :: "str \<Rightarrow> hook_admin \<Rightarrow> exn + webhook" where
  "get_webhook_or_404 k st = (case find_webhook k st of None \<Rightarrow> Inl (HTTPError 404) | Some w \<Rightarrow> Inr w)"

definition get_live_webhook_or_409 :: "str \<Rightarrow> hook_admin \<Rightarrow> exn + webhook" where
  "get_live_webhook_or_409 k st =
     (case get_webhook_or_404 k st of
        Inl e \<Rightarrow> Inl e
      | Inr w \<Rightarrow> if is_deleted w then Inl (HTTPError 409) else Inr w)"

definition put_webhook :: "webhook \<Rightarrow> hook_admin \<Rightarrow> hook_admin" where
  "put_webhook w = on_hooks (\<lambda>s. s\<lparr>webhooks := update_first (\<lambda>x. wh_id x = wh_id w) (\<lambda>_. w) (webhooks s)\<rparr>)"

text \<open>The partial unique index on \<open>(url, events)\<close> over the rows that are not deleted.\<close>

definition live_keys_distinct :: "webhook list \<Rightarrow> bool" where
  "live_keys_distinct ws \<longleftrightarrow> distinct (map (\<lambda>w. (wh_url w, wh_events w)) (filter (\<lambda>w. \<not> is_deleted w) ws))"

definition canonical_webhook_key :: "str \<Rightarrow> str list \<Rightarrow> str" where
  "canonical_webhook_key url events = url @ ''|'' @ join_char (CHR '','') (sort events)"

definition is_duplicate_webhook_error :: "str \<Rightarrow> bool" where
  "is_duplicate_webhook_error message =
     (let raw = py_lower message in
      contains_str ''uq_webhooks_url_events_live'' raw \<or>
      contains_str ''unique'' raw \<and> contains_str ''url'' raw \<and> contains_str ''events'' raw)"

text \<open>The driver's message for a violation of the index.\<close>

definition unique_violation :: str where
  "unique_violation = ''duplicate key value violates unique constraint uq_webhooks_url_events_live''"

record webhook_response =
  wr_id :: str
  wr_name :: str
  wr_url :: str
  wr_is_active :: bool
  wr_events :: "str list"
  wr_max_retries :: int
  wr_secret_version :: int
  wr_last_secret_rotation_at :: "str option"
  wr_deleted_at :: "str option"

definition serialize_webhook :: "(time \<Rightarrow> str) \<Rightarrow> webhook \<Rightarrow> webhook_response" where
  "serialize_webhook fmt w =
     \<lparr>wr_id = wh_id w, wr_name = wh_name w, wr_url = wh_url w, wr_is_active = wh_is_active w,
      wr_events = (case wh_events w of None \<Rightarrow> [] | Some evs \<Rightarrow> evs), wr_max_retries = wh_max_retries w,
      wr_secret_version = wh_secret_version w,
      wr_last_secret_rotation_at = map_option fmt (wh_last_secret_rotation_at w),
      wr_deleted_at = map_option fmt (wh_deleted_at w)\<rparr>"

record delivery_response =
  dr_id :: str
  dr_webhook_id :: str
  dr_event :: webhook_event
  dr_status :: delivery_status
  dr_attempt_count :: int
  dr_response_status_code :: "nat option"
  dr_error_message :: "str option"
  dr_delivered_at :: "str option"
  dr_dead_lettered_at :: "str option"
  dr_signature_version :: int
  dr_created_at :: str

definition serialize_delivery :: "(time \<Rightarrow> str) \<Rightarrow> delivery \<Rightarrow> delivery_response" where
  "serialize_delivery fmt d =
     \<lparr>dr_id = wd_id d, dr_webhook_id = wd_webhook_id d, dr_event = wd_event d, dr_status = wd_status d,
      dr_attempt_count = wd_attempt_count d, dr_response_status_code = wd_response_status_code d,
      dr_error_message = wd_error_message d, dr_delivered_at = map_option fmt (wd_delivered_at d),
      dr_dead_lettered_at = map_option fmt (wd_dead_lettered_at d),
      dr_signature_version = wd_signature_version d, dr_created_at = fmt (wd_created_at d)\<rparr>"

section \<open>Registration\<close>

record webhook_create =
  wc_name :: str
  wc_url :: str
  wc_secret :: "str option"
  wc_events :: "webhook_event list"
  wc_max_retries :: int
  wc_is_active :: bool

definition validate_webhook_create :: "hook_env \<Rightarrow> webhook_create \<Rightarrow> bool" where
  "validate_webhook_create hv p \<longleftrightarrow>
     (let hs = hv_settings hv in
      0 \<le> wc_max_retries p \<and> wc_max_retries p \<le> hs_max_max_retries hs \<and>
      length (wc_name p) \<le> hs_max_name_length hs \<and> length (wc_url p) \<le> hs_max_url_length hs \<and>
      \<not> isl (validate_webhook_url (hook_network hv) (hv_resolve_schema hv) (wc_url p)) \<and>
      wc_events p \<noteq> [] \<and> length (wc_events p) \<le> hs_max_events_count hs)"

definition count_registered_webhooks :: "hook_admin \<Rightarrow> nat" where
  "count_registered_webhooks st = length (webhooks (ha_hooks st))"

definition count_event_subscriptions :: "hook_admin \<Rightarrow> nat" where
  "count_event_subscriptions st =
     sum_list (map (\<lambda>w. case wh_events w of None \<Rightarrow> 0 | Some evs \<Rightarrow> length evs) (webhooks (ha_hooks st)))"

definition enforce_webhook_registration_cap :: "hook_settings \<Rightarrow> hook_admin \<Rightarrow> exn + unit" where
  "enforce_webhook_registration_cap hs st =
     (if hs_max_webhooks hs \<le> 0 then Inr ()
      else if int (count_registered_webhooks st) \<ge> hs_max_webhooks hs then Inl (HTTPError 409) else Inr ())"

text \<open>\<open>_warn_on_excessive_fanout\<close> only logs and counts; this is when it does.\<close>

definition excessive_fanout :: "hook_settings \<Rightarrow> hook_admin \<Rightarrow> bool" where
  "excessive_fanout hs st \<longleftrightarrow>
     hs_fanout_warn_threshold hs > 0 \<and> int (count_event_subscriptions st) > hs_fanout_warn_threshold hs"

definition new_webhook :: "hook_env \<Rightarrow> webhook_create \<Rightarrow> str list \<Rightarrow> hook_admin \<Rightarrow> webhook" where
  "new_webhook hv p ips st =
     \<lparr>wh_id = hv_uuid hv (ha_uuids st), wh_name = wc_name p, wh_url = wc_url p, wh_secret = wc_secret p,
      wh_is_active = wc_is_active p, wh_events = Some (map webhook_event_value (wc_events p)), wh_resolved_ips = Some ips,
      wh_max_retries = wc_max_retries p, wh_created_at = hook_now hv, wh_last_secret_rotation_at = None,
      wh_secret_version = 1, wh_previous_secrets = [], wh_secret_grace_hours = 24, wh_deleted_at = None\<rparr>"

definition create_webhook :: "hook_env \<Rightarrow> webhook_create \<Rightarrow> hook_admin \<Rightarrow> (webhook_response, hook_admin) outcome" where
  "create_webhook hv p st =
     (if \<not> validate_webhook_create hv p then (Inl (HTTPError 422), st)
      else
        (case enforce_webhook_registration_cap (hv_settings hv) st of
           Inl e \<Rightarrow> (Inl e, st)
         | Inr _ \<Rightarrow>
             (case validate_webhook_url (hook_network hv) (hv_resolve hv) (wc_url p) of
                Inl e \<Rightarrow> (Inl e, st)
              | Inr ips \<Rightarrow>
                  (let w = new_webhook hv p ips st; st1 = st\<lparr>ha_uuids := ha_uuids st + 1\<rparr> in
                   if \<not> live_keys_distinct (webhooks (ha_hooks st) @ [w]) then
                     (Inl (if is_duplicate_webhook_error unique_violation then HTTPError 409 else IntegrityError), st1)
                   else
                     (Inr (serialize_webhook (hook_iso hv) w),
                      invalidate_event_listener_cache hv None
                        (on_hooks (\<lambda>s. s\<lparr>webhooks := webhooks s @ [w]\<rparr>) st1))))))"

section \<open>Reading\<close>

record 'a hook_page =
  hp_items :: "'a list"
  hp_total :: nat
  hp_returned :: nat
  hp_has_more :: bool

definition hook_page_of :: "('r \<Rightarrow> 'a) \<Rightarrow> nat \<Rightarrow> nat \<Rightarrow> 'r list \<Rightarrow> 'a hook_page" where
  "hook_page_of view offset page_size rs =
     (let items = take page_size (drop offset rs) in
      \<lparr>hp_items = map view items, hp_total = length rs, hp_returned = length items,
       hp_has_more = offset + length items < length rs\<rparr>)"

text \<open>Newest first, then by identifier.\<close>

definition webhook_order :: "webhook list \<Rightarrow> webhook list" where
  "webhook_order ws = sort_key (\<lambda>w. (- wh_created_at w, wh_id w)) ws"

definition select_webhooks :: "bool option \<Rightarrow> str option \<Rightarrow> bool \<Rightarrow> webhook list \<Rightarrow> webhook list" where
  "select_webhooks is_active name include_deleted ws =
     filter (\<lambda>w. (include_deleted \<or> \<not> is_deleted w) \<and>
                 (case is_active of None \<Rightarrow> True | Some b \<Rightarrow> wh_is_active w = b) \<and>
                 (truthy name \<longrightarrow> ilike (''%'' @ the name @ ''%'') (wh_name w))) ws"

definition list_webhooks ::
  "hook_env \<Rightarrow> bool option \<Rightarrow> str option \<Rightarrow> bool \<Rightarrow> nat \<Rightarrow> nat \<Rightarrow> hook_admin \<Rightarrow> exn + webhook_response hook_page" where
  "list_webhooks hv is_active name include_deleted page page_size st =
     (if page < 1 \<or> page_size < 1 \<or> page_size > 100 then Inl (HTTPError 422)
      else Inr (hook_page_of (serialize_webhook (hook_iso hv)) ((page - 1) * page_size) page_size
                  (webhook_order (select_webhooks is_active name include_deleted (webhooks (ha_hooks st))))))"

definition get_webhook :: "hook_env \<Rightarrow> str \<Rightarrow> hook_admin \<Rightarrow> exn + webhook_response" where
  "get_webhook hv k st =
     (case get_webhook_or_404 k st of Inl e \<Rightarrow> Inl e | Inr w \<Rightarrow> Inr (serialize_webhook (hook_iso hv) w))"

record delivery_filter =
  df_status :: "delivery_status option"
  df_event :: "webhook_event option"
  df_search :: "str option"
  df_created_after :: "time option"
  df_created_before :: "time option"
  df_delivered_after :: "time option"
  df_delivered_before :: "time option"

text \<open>A comparison with a missing bound holds, a comparison of a NULL column does not.\<close>

definition sql_from :: "time option \<Rightarrow> time option \<Rightarrow> bool" where
  "sql_from bound v = (case bound of None \<Rightarrow> True | Some b \<Rightarrow> (case v of None \<Rightarrow> False | Some x \<Rightarrow> x \<ge> b))"

definition sql_until :: "time option \<Rightarrow> time option \<Rightarrow> bool" where
  "sql_until bound v = (case bound of None \<Rightarrow> True | Some b \<Rightarrow> (case v of None \<Rightarrow> False | Some x \<Rightarrow> x \<le> b))"

definition delivery_matches :: "str \<Rightarrow> delivery_filter \<Rightarrow> delivery \<Rightarrow> bool" where
  "delivery_matches k f d \<longleftrightarrow>
     wd_webhook_id d = k \<and>
     (case df_status f of None \<Rightarrow> True | Some x \<Rightarrow> wd_status d = x) \<and>
     (case df_event f of None \<Rightarrow> True | Some x \<Rightarrow> wd_event d = x) \<and>
     sql_from (df_created_after f) (Some (wd_created_at d)) \<and> sql_until (df_created_before f) (Some (wd_created_at d)) \<and>
     sql_from (df_delivered_after f) (wd_delivered_at d) \<and> sql_until (df_delivered_before f) (wd_delivered_at d) \<and>
     (truthy (df_search f) \<longrightarrow>
        (let pat = ''%'' @ the (df_search f) @ ''%'' in
         ilike pat (wd_id d) \<or> (case wd_error_message d of None \<Rightarrow> False | Some m \<Rightarrow> ilike pat m) \<or>
         (case wd_response_status_code d of None \<Rightarrow> False | Some c \<Rightarrow> ilike pat (digits_of c))))"

definition list_webhook_deliveries ::
  "hook_env \<Rightarrow> str \<Rightarrow> delivery_filter \<Rightarrow> nat \<Rightarrow> nat \<Rightarrow> hook_admin \<Rightarrow> exn + delivery_response hook_page" where
  "list_webhook_deliveries hv k f page_size offset st =
     (if page_size < 1 \<or> page_size > 200 then Inl (HTTPError 422)
      else
        (case get_webhook_or_404 k st of
           Inl e \<Rightarrow> Inl e
         | Inr _ \<Rightarrow> Inr (hook_page_of (serialize_delivery (hook_iso hv)) offset page_size
                           (sort_desc wd_created_at (filter (delivery_matches k f) (deliveries (ha_hooks st)))))))"

section \<open>Secret rotation\<close>

definition effective_grace :: "hook_settings \<Rightarrow> webhook \<Rightarrow> int \<times> str" where
  "effective_grace hs w =
     (if 1 \<le> wh_secret_grace_hours w \<and> wh_secret_grace_hours w \<le> hs_max_grace_hours hs
      then (wh_secret_grace_hours w, ''webhook'') else (hs_grace_hours hs, ''global''))"

text \<open>
  The history column after a rotation.  Pruning assigns a fresh list, and so does the first entry of an empty history; in
  every other case the new entry is appended to the loaded list, a change the session does not see.
\<close>

definition rotated_history :: "hook_env \<Rightarrow> webhook \<Rightarrow> secret_entry list" where
  "rotated_history hv w =
     (case prune_expired_secrets (hook_now hv) (wh_previous_secrets w) of (kept, pruned) \<Rightarrow>
        (let base = (if pruned > 0 then kept else wh_previous_secrets w);
             entry = \<lparr>pe_hashed_secret = hv_hash_token hv (the (wh_secret w)), pe_created_at = hook_now hv,
                      pe_expires_at = Some (hook_now hv + fst (effective_grace (hv_settings hv) w) * hs_hour (hv_settings hv))\<rparr> in
         if \<not> truthy (wh_secret w) then base
         else if pruned > 0 \<or> base = [] then base @ [entry]
         else base))"

definition apply_secret_rotation :: "hook_env \<Rightarrow> str \<Rightarrow> str \<Rightarrow> webhook \<Rightarrow> webhook \<times> (str \<times> json) list" where
  "apply_secret_rotation hv new_secret source w =
     (case effective_grace (hv_settings hv) w of (grace_hours, grace_source) \<Rightarrow>
        (w\<lparr>wh_previous_secrets := rotated_history hv w, wh_secret := Some new_secret,
           wh_secret_version := wh_secret_version w + 1, wh_last_secret_rotation_at := Some (hook_now hv)\<rparr>,
         [(''webhook_id'', JStr (wh_id w)), (''webhook_name'', JStr (wh_name w)),
          (''old_secret_version'', JInt (wh_secret_version w)), (''new_secret_version'', JInt (wh_secret_version w + 1)),
          (''previous_rotation_at'', (case wh_last_secret_rotation_at w of None \<Rightarrow> JNull | Some t \<Rightarrow> JStr (hook_iso hv t))),
          (''grace_hours'', JInt grace_hours), (''grace_source'', JStr grace_source), (''rotated_by'', JStr (hv_actor hv)),
          (''rotation_source'', JStr source),
          (''pruned_previous_secrets'', JInt (int (snd (prune_expired_secrets (hook_now hv) (wh_previous_secrets w)))))]))"

definition rotate_webhook_secret :: "hook_env \<Rightarrow> str \<Rightarrow> hook_admin \<Rightarrow> (str, hook_admin) outcome" where
  "rotate_webhook_secret hv k st =
     (case get_live_webhook_or_409 k st of
        Inl e \<Rightarrow> (Inl e, st)
      | Inr w \<Rightarrow>
          (case apply_secret_rotation hv (hv_token_hex hv) ''rotate_endpoint'' w of (w', details) \<Rightarrow>
             (Inr (hv_token_hex hv), put_webhook w' (log_hook hv ''webhook_secret_rotated'' details st))))"

section \<open>Changes\<close>

record webhook_update =
  wu_name :: "str option"
  wu_url :: "str option"
  wu_secret :: "str option"
  wu_events :: "webhook_event list option"
  wu_max_retries :: "int option"
  wu_is_active :: "bool option"
  wu_secret_grace_hours :: "int option"

definition validate_webhook_update :: "hook_env \<Rightarrow> webhook_update \<Rightarrow> bool" where
  "validate_webhook_update hv p \<longleftrightarrow>
     (let hs = hv_settings hv in
      (case wu_max_retries p of None \<Rightarrow> True | Some n \<Rightarrow> 0 \<le> n \<and> n \<le> hs_max_max_retries hs) \<and>
      (case wu_secret_grace_hours p of None \<Rightarrow> True | Some n \<Rightarrow> 1 \<le> n \<and> n \<le> hs_max_grace_hours hs) \<and>
      (case wu_name p of None \<Rightarrow> True | Some n \<Rightarrow> length n \<le> hs_max_name_length hs) \<and>
      (case wu_url p of None \<Rightarrow> True | Some u \<Rightarrow>
         length u \<le> hs_max_url_length hs \<and> \<not> isl (validate_webhook_url (hook_network hv) (hv_resolve_schema hv) u)) \<and>
      (case wu_events p of None \<Rightarrow> True | Some evs \<Rightarrow> evs \<noteq> [] \<and> length evs \<le> hs_max_events_count hs))"

definition update_url :: "hook_env \<Rightarrow> webhook_update \<Rightarrow> webhook \<Rightarrow> exn + webhook" where
  "update_url hv p w =
     (case wu_url p of
        None \<Rightarrow> Inr w
      | Some u \<Rightarrow>
          (case validate_webhook_url (hook_network hv) (hv_resolve hv) u of
             Inl e \<Rightarrow> Inl e
           | Inr ips \<Rightarrow> Inr (w\<lparr>wh_url := u, wh_resolved_ips := Some ips\<rparr>)))"

definition update_rest :: "webhook_update \<Rightarrow> webhook \<Rightarrow> webhook" where
  "update_rest p w =
     w\<lparr>wh_events := (case wu_events p of None \<Rightarrow> wh_events w | Some evs \<Rightarrow> Some (map webhook_event_value evs)),
       wh_max_retries := (case wu_max_retries p of None \<Rightarrow> wh_max_retries w | Some n \<Rightarrow> n),
       wh_is_active := (case wu_is_active p of None \<Rightarrow> wh_is_active w | Some b \<Rightarrow> b),
       wh_secret_grace_hours := (case wu_secret_grace_hours p of None \<Rightarrow> wh_secret_grace_hours w | Some n \<Rightarrow> n)\<rparr>"

definition update_webhook :: "hook_env \<Rightarrow> str \<Rightarrow> webhook_update \<Rightarrow> hook_admin \<Rightarrow> (webhook_response, hook_admin) outcome" where
  "update_webhook hv k p st =
     (if \<not> validate_webhook_update hv p then (Inl (HTTPError 422), st)
      else
        (case get_live_webhook_or_409 k st of
           Inl e \<Rightarrow> (Inl e, st)
         | Inr w0 \<Rightarrow>
             (let w1 = (case wu_name p of None \<Rightarrow> w0 | Some n \<Rightarrow> w0\<lparr>wh_name := n\<rparr>) in
              case update_url hv p w1 of
                Inl e \<Rightarrow> (Inl e, st)
              | Inr w2 \<Rightarrow>
                  (case (case wu_secret p of
                           None \<Rightarrow> (w2, st)
                         | Some new_secret \<Rightarrow>
                             (case apply_secret_rotation hv new_secret ''patch'' w2 of (w', details) \<Rightarrow>
                                (w', log_hook hv ''webhook_secret_rotated'' details st))) of (w3, st1) \<Rightarrow>
                     (let w4 = update_rest p w3; st2 = put_webhook w4 st1 in
                      if \<not> live_keys_distinct (webhooks (ha_hooks st2)) then (Inl IntegrityError, st1)
                      else (Inr (serialize_webhook (hook_iso hv) w4), invalidate_event_listener_cache hv None st2))))))"

definition delete_webhook :: "hook_env \<Rightarrow> str \<Rightarrow> hook_admin \<Rightarrow> (unit, hook_admin) outcome" where
  "delete_webhook hv k st =
     (case get_webhook_or_404 k st of
        Inl e \<Rightarrow> (Inl e, st)
      | Inr w \<Rightarrow>
          (let st1 = (if is_deleted w then st
                      else put_webhook (w\<lparr>wh_deleted_at := Some (hook_now hv), wh_is_active := False\<rparr>)
                             (log_hook hv ''webhook_deleted''
                                [(''webhook_id'', JStr (wh_id w)), (''webhook_name'', JStr (wh_name w)), (''url'', JStr (wh_url w)),
                                 (''deleted_by'', JStr (hv_actor hv))] st)) in
           (Inr (), invalidate_event_listener_cache hv None st1)))"

section \<open>Deliveries\<close>

definition find_delivery_of :: "str \<Rightarrow> str \<Rightarrow> hook_admin \<Rightarrow> delivery option" where
  "find_delivery_of webhook_id delivery_id st =
     find (\<lambda>d. wd_id d = delivery_id \<and> wd_webhook_id d = webhook_id) (deliveries (ha_hooks st))"

text \<open>The refreshed row after a delivery call, with its audit entry; an exception of the call propagates.\<close>

definition answer_delivery ::
  "hook_env \<Rightarrow> str \<Rightarrow> str \<Rightarrow> str \<Rightarrow> webhook_state \<Rightarrow> hook_admin \<Rightarrow> (delivery_response, hook_admin) outcome" where
  "answer_delivery hv event_type webhook_id delivery_id hooks st =
     (let st1 = st\<lparr>ha_hooks := hooks\<rparr> in
      case get_delivery delivery_id hooks of
        None \<Rightarrow> (Inl AttributeError, st1)
      | Some d \<Rightarrow>
          (Inr (serialize_delivery (hook_iso hv) d),
           log_hook hv event_type
             [(''webhook_id'', JStr webhook_id), (''delivery_id'', JStr delivery_id), (''actor'', JStr (hv_actor hv))] st1))"

definition retry_delivery :: "hook_env \<Rightarrow> str \<Rightarrow> str \<Rightarrow> hook_admin \<Rightarrow> (delivery_response, hook_admin) outcome" where
  "retry_delivery hv webhook_id delivery_id st =
     (case get_webhook_or_404 webhook_id st of
        Inl e \<Rightarrow> (Inl e, st)
      | Inr _ \<Rightarrow>
          (case find_delivery_of webhook_id delivery_id st of
             None \<Rightarrow> (Inl (HTTPError 404), st)
           | Some d \<Rightarrow>
               if wd_status d = SUCCESS then (Inl (HTTPError 400), st)
               else if wd_status d = SENDING then (Inl (HTTPError 409), st)
               else
                 (case dispatch_delivery (hs_delivery (hv_settings hv)) (hv_attempts hv delivery_id) delivery_id (ha_hooks st) of
                    (Inl e, hooks) \<Rightarrow> (Inl e, st\<lparr>ha_hooks := hooks\<rparr>)
                  | (Inr _, hooks) \<Rightarrow> answer_delivery hv ''webhook_delivery_retried'' webhook_id delivery_id hooks st)))"

definition list_dead_letter_deliveries :: "hook_env \<Rightarrow> str \<Rightarrow> nat \<Rightarrow> hook_admin \<Rightarrow> exn + delivery_response list" where
  "list_dead_letter_deliveries hv k page_size st =
     (if page_size < 1 \<or> page_size > 200 then Inl (HTTPError 422)
      else
        (case get_webhook_or_404 k st of
           Inl e \<Rightarrow> Inl e
         | Inr _ \<Rightarrow> Inr (map (serialize_delivery (hook_iso hv)) (get_dead_letter_deliveries (Some k) page_size (ha_hooks st)))))"

definition replay_delivery :: "hook_env \<Rightarrow> str \<Rightarrow> str \<Rightarrow> hook_admin \<Rightarrow> (delivery_response, hook_admin) outcome" where
  "replay_delivery hv webhook_id delivery_id st =
     (case get_webhook_or_404 webhook_id st of
        Inl e \<Rightarrow> (Inl e, st)
      | Inr _ \<Rightarrow>
          (case find_delivery_of webhook_id delivery_id st of
             None \<Rightarrow> (Inl (HTTPError 404), st)
           | Some _ \<Rightarrow>
               (case replay_dead_letter_delivery (hs_delivery (hv_settings hv)) (hv_attempts hv delivery_id) delivery_id
                       (ha_hooks st) of
                  (Inl e, hooks) \<Rightarrow> (Inl e, st\<lparr>ha_hooks := hooks\<rparr>)
                | (Inr False, hooks) \<Rightarrow> (Inl (HTTPError 400), st\<lparr>ha_hooks := hooks\<rparr>)
                | (Inr True, hooks) \<Rightarrow> answer_delivery hv ''webhook_dead_letter_replayed'' webhook_id delivery_id hooks st)))"

text \<open>
  Whether a payload names the device or the outage; \<open>hv_loads\<close> is \<open>json.loads\<close>.  A payload that does not parse is
  skipped, one that is not an object raises.
\<close>

definition payload_matches :: "(str \<Rightarrow> json option) \<Rightarrow> str option \<Rightarrow> str option \<Rightarrow> str \<Rightarrow> exn + bool" where
  "payload_matches loads device_id outage_id payload =
     (case loads payload of
        None \<Rightarrow> Inr False
      | Some (JObj fs) \<Rightarrow>
          (case (case map_of fs ''data'' of None \<Rightarrow> JObj [] | Some x \<Rightarrow> x) of
             JObj ds \<Rightarrow>
               Inr (truthy device_id \<and> map_of ds ''device_id'' = Some (JStr (the device_id)) \<or>
                    truthy outage_id \<and> map_of ds ''outage_id'' = Some (JStr (the outage_id)))
           | _ \<Rightarrow> Inl AttributeError)
      | Some _ \<Rightarrow> Inl AttributeError)"

fun matching_deliveries ::
  "(str \<Rightarrow> json option) \<Rightarrow> str option \<Rightarrow> str option \<Rightarrow> delivery list \<Rightarrow> exn + delivery list" where
  "matching_deliveries loads device_id outage_id [] = Inr []"
| "matching_deliveries loads device_id outage_id (d # ds) =
     (case payload_matches loads device_id outage_id (wd_payload d) of
        Inl e \<Rightarrow> Inl e
      | Inr b \<Rightarrow>
          (case matching_deliveries loads device_id outage_id ds of
             Inl e \<Rightarrow> Inl e
           | Inr ms \<Rightarrow> Inr (if b then d # ms else ms)))"

fun replay_all ::
  "delivery_settings \<Rightarrow> (str \<Rightarrow> attempt_env) \<Rightarrow> str list \<Rightarrow> webhook_state \<Rightarrow> (nat, webhook_state) outcome" where
  "replay_all cfg attempts [] s = (Inr 0, s)"
| "replay_all cfg attempts (k # ks) s =
     (case replay_dead_letter_delivery cfg (attempts k) k s of
        (Inl e, s1) \<Rightarrow> (Inl e, s1)
      | (Inr b, s1) \<Rightarrow>
          (case replay_all cfg attempts ks s1 of
             (Inl e, s2) \<Rightarrow> (Inl e, s2)
           | (Inr n, s2) \<Rightarrow> (Inr (if b then n + 1 else n), s2)))"

definition replay_deliveries_by_event_context ::
  "hook_env \<Rightarrow> webhook_event \<Rightarrow> str option \<Rightarrow> str option \<Rightarrow> nat \<Rightarrow> webhook_state \<Rightarrow> (nat, webhook_state) outcome" where
  "replay_deliveries_by_event_context hv ev device_id outage_id max_count s =
     (let dead = filter (\<lambda>d. wd_status d = DEAD_LETTER \<and> wd_event d = ev) (deliveries s) in
      case (if truthy device_id \<or> truthy outage_id then matching_deliveries (hv_loads hv) device_id outage_id dead
            else Inr dead) of
        Inl e \<Rightarrow> (Inl e, s)
      | Inr ds \<Rightarrow> replay_all (hs_delivery (hv_settings hv)) (hv_attempts hv) (map wd_id (take max_count ds)) s)"

definition replay_deliveries_by_context ::
  "hook_env \<Rightarrow> webhook_event \<Rightarrow> str option \<Rightarrow> str option \<Rightarrow> nat \<Rightarrow> hook_admin \<Rightarrow> (nat, hook_admin) outcome" where
  "replay_deliveries_by_context hv ev device_id outage_id max_count st =
     (case replay_deliveries_by_event_context hv ev device_id outage_id max_count (ha_hooks st) of
        (Inl e, hooks) \<Rightarrow> (Inl e, st\<lparr>ha_hooks := hooks\<rparr>)
      | (Inr n, hooks) \<Rightarrow>
          (Inr n, log_hook hv ''webhook_replay_by_context''
             [(''event'', JStr (webhook_event_value ev)), (''device_id'', json_opt device_id), (''outage_id'', json_opt outage_id),
              (''limit'', JInt (int max_count)), (''replayed_count'', JInt (int n)), (''actor'', JStr (hv_actor hv))]
             (st\<lparr>ha_hooks := hooks\<rparr>)))"

end
