(* ===== verification/Webhook_Registry.thy ===== *)
theory Webhook_Registry
  imports Webhook_Admin
begin

text \<open>
  Correctness of the webhook administration.  The table of registrations is a machine of four moves
  (\<open>registry_move\<close>); every request of the API, the housekeeping task and every delivery is a sequence of them
  (\<open>hook_step_moves\<close>).  The invariant of the table, the silence of deleted webhooks and the destinations of deliveries
  follow from the moves.  Then the secret history, the registration cap and the listing.
\<close>

section \<open>The registry as a machine\<close>

text \<open>The addresses recorded for a registration parse and are public.\<close>

definition pinned_public :: "webhook \<Rightarrow> bool" where
  "pinned_public w =
     (case wh_resolved_ips w of
        None \<Rightarrow> False
      | Some ips \<Rightarrow> ips \<noteq> [] \<and> (\<forall>ip\<in>set ips. \<exists>a. ip_address ip = Some a \<and> public_ip a))"

text \<open>
  What the requests may do to the table of registrations: add a fresh live row with public addresses, change a live row
  without touching its identifier (a row that becomes deleted is inactive), or rewrite secret histories.
\<close>

inductive registry_move :: "webhook list \<Rightarrow> webhook list \<Rightarrow> bool" where
  untouched: "registry_move ws ws"
| registered: "registry_move ws (ws @ [w])"
    if "wh_id w \<notin> wh_id ` set ws" "\<not> is_deleted w" "pinned_public w" "live_keys_distinct (ws @ [w])"
| changed: "registry_move ws (update_first (\<lambda>x. wh_id x = wh_id w) (\<lambda>_. w') ws)"
    if "find (\<lambda>x. wh_id x = wh_id w) ws = Some w" "\<not> is_deleted w" "wh_id w' = wh_id w"
       "is_deleted w' \<longrightarrow> \<not> wh_is_active w'" "pinned_public w \<longrightarrow> pinned_public w'"
       "live_keys_distinct ws \<longrightarrow> live_keys_distinct (update_first (\<lambda>x. wh_id x = wh_id w) (\<lambda>_. w') ws)"
| swept: "registry_move ws ws'"
    if "map (\<lambda>w. w\<lparr>wh_previous_secrets := []\<rparr>) ws' = map (\<lambda>w. w\<lparr>wh_previous_secrets := []\<rparr>) ws"

definition registry_ok :: "webhook list \<Rightarrow> bool" where
  "registry_ok ws \<longleftrightarrow>
     distinct (map wh_id ws) \<and> live_keys_distinct ws \<and>
     (\<forall>w\<in>set ws. (is_deleted w \<longrightarrow> \<not> wh_is_active w) \<and> pinned_public w)"

lemma set_update_first_const: "x \<in> set (update_first P (\<lambda>_. y) xs) \<Longrightarrow> x = y \<or> x \<in> set xs"
  by (induction xs) (auto split: if_splits)

lemma ids_update_const:
  "wh_id w' = k \<Longrightarrow> map wh_id (update_first (\<lambda>x. wh_id x = k) (\<lambda>_. w') ws) = map wh_id ws"
  by (induction ws) auto

lemma swept_view:
  assumes "map (\<lambda>w. w\<lparr>wh_previous_secrets := []\<rparr>) ws' = map (\<lambda>w. w\<lparr>wh_previous_secrets := []\<rparr>) ws"
    and v: "\<And>w. f (w\<lparr>wh_previous_secrets := []\<rparr>) = f w"
  shows "map f ws' = map f ws"
proof -
  have "map f ws' = map f (map (\<lambda>w. w\<lparr>wh_previous_secrets := []\<rparr>) ws')" by (simp add: v)
  also have "\<dots> = map f ws" unfolding assms(1) by (simp add: v)
  finally show ?thesis .
qed

lemma map_eq_member:
  assumes "map f xs = map f ys" "x \<in> set xs"
  obtains y where "y \<in> set ys" "f y = f x"
proof -
  have "f x \<in> set (map f ys)" unfolding assms(1) [symmetric] using assms(2) by simp
  with that show ?thesis by (metis image_iff list.set_map)
qed

lemma map_filter_tagged: "map g (filter P xs) = map snd (filter fst (map (\<lambda>x. (P x, g x)) xs))"
  by (induction xs) auto

lemma live_keys_map:
  assumes "map (\<lambda>w. (\<not> is_deleted w, wh_url w, wh_events w)) ws' = map (\<lambda>w. (\<not> is_deleted w, wh_url w, wh_events w)) ws"
  shows "live_keys_distinct ws' = live_keys_distinct ws"
  unfolding live_keys_distinct_def map_filter_tagged [of "\<lambda>w. (wh_url w, wh_events w)"] assms ..

lemma find_map_view: "map_option g (find (\<lambda>x. P (g x)) xs) = find P (map g xs)"
  by (induction xs) auto

lemma registry_move_ok:
  assumes "registry_move ws ws'" "registry_ok ws"
  shows "registry_ok ws'"
  using assms
proof cases
  case (changed w w')
  have m: "w \<in> set ws" using changed(2) by (rule find_Some_set)
  have "map wh_id ws' = map wh_id ws"
    unfolding changed(1) using changed(4) by (rule ids_update_const)
  moreover have "(is_deleted x \<longrightarrow> \<not> wh_is_active x) \<and> pinned_public x" if "x \<in> set ws'" for x
    using set_update_first_const [OF that [unfolded changed(1)]] assms(2) m changed(5,6) by (auto simp: registry_ok_def)
  ultimately show ?thesis using assms(2) changed(1,7) by (simp add: registry_ok_def)
next
  case swept
  note v = swept_view [OF swept]
  have e: "map (\<lambda>w. (is_deleted w, wh_is_active w, pinned_public w)) ws' = map (\<lambda>w. (is_deleted w, wh_is_active w, pinned_public w)) ws"
    by (rule v) (simp add: is_deleted_def pinned_public_def)
  have "(is_deleted x \<longrightarrow> \<not> wh_is_active x) \<and> pinned_public x" if "x \<in> set ws'" for x
  proof -
    from e that obtain y where "y \<in> set ws" "(is_deleted y, wh_is_active y, pinned_public y) = (is_deleted x, wh_is_active x, pinned_public x)"
      by (rule map_eq_member)
    with assms(2) show ?thesis unfolding registry_ok_def prod.inject by metis
  qed
  moreover have "map wh_id ws' = map wh_id ws" by (rule v) simp
  moreover have "live_keys_distinct ws' = live_keys_distinct ws"
    by (rule live_keys_map, rule v) (simp add: is_deleted_def)
  ultimately show ?thesis using assms(2) by (simp add: registry_ok_def)
qed (auto simp: registry_ok_def)

text \<open>A deleted registration: found under its identifier, deleted and inactive.\<close>

definition tombstone :: "str \<Rightarrow> webhook list \<Rightarrow> bool" where
  "tombstone k ws = (case find (\<lambda>w. wh_id w = k) ws of None \<Rightarrow> False | Some w \<Rightarrow> is_deleted w \<and> \<not> wh_is_active w)"

lemma find_update_const_other:
  "wh_id w' = k' \<Longrightarrow> k \<noteq> k' \<Longrightarrow> find (\<lambda>x. wh_id x = k) (update_first (\<lambda>x. wh_id x = k') (\<lambda>_. w') ws) = find (\<lambda>x. wh_id x = k) ws"
  by (induction ws) auto

lemma tombstone_view:
  "tombstone k ws = (case find (\<lambda>x. fst x = k) (map (\<lambda>w. (wh_id w, is_deleted w, wh_is_active w)) ws) of
     None \<Rightarrow> False | Some (_, d, a) \<Rightarrow> d \<and> \<not> a)"
  unfolding find_map_view [symmetric] tombstone_def by (cases "find (\<lambda>w. wh_id w = k) ws") simp_all

lemma registry_move_tombstone:
  assumes "registry_move ws ws'" "tombstone k ws"
  shows "tombstone k ws'"
  using assms
proof cases
  case (registered w)
  then show ?thesis using assms(2) by (auto simp: tombstone_def find_append split: option.splits)
next
  case (changed w w')
  have "k \<noteq> wh_id w" using assms(2) changed(2,3) by (auto simp: tombstone_def)
  with assms(2) show ?thesis unfolding changed(1) by (simp add: tombstone_def find_update_const_other changed(4))
next
  case swept
  have "map (\<lambda>w. (wh_id w, is_deleted w, wh_is_active w)) ws' = map (\<lambda>w. (wh_id w, is_deleted w, wh_is_active w)) ws"
    by (rule swept_view [OF swept]) (simp add: is_deleted_def)
  with assms(2) show ?thesis unfolding tombstone_view by simp
qed simp

section \<open>Requests\<close>

text \<open>Everything that writes the webhook tables: the API, the housekeeping task and the deliveries themselves.\<close>

inductive hook_step :: "(nat \<Rightarrow> str) \<Rightarrow> network_settings \<Rightarrow> hook_admin \<Rightarrow> hook_admin \<Rightarrow> bool" for uuid net where
  registering: "hook_step uuid net st (snd (create_webhook hv p st))" if "hv_uuid hv = uuid" "hook_network hv = net"
| patching: "hook_step uuid net st (snd (update_webhook hv k u st))" if "hook_network hv = net"
| removing: "hook_step uuid net st (snd (delete_webhook hv k st))"
| rotating: "hook_step uuid net st (snd (rotate_webhook_secret hv k st))"
| housekeeping: "hook_step uuid net st (on_hooks (\<lambda>s. snd (expire_old_secrets t s)) st)"
| retrying: "hook_step uuid net st (snd (retry_delivery hv k d st))"
| replaying: "hook_step uuid net st (snd (replay_delivery hv k d st))"
| replaying_context: "hook_step uuid net st (snd (replay_deliveries_by_context hv ev dev out n st))"
| delivering: "hook_step uuid net st (on_hooks (\<lambda>_. s) st)" if "webhook_step cfg (ha_hooks st) s"

abbreviation registry :: "hook_admin \<Rightarrow> webhook list" where "registry st \<equiv> webhooks (ha_hooks st)"

lemma registry_frame [simp]:
  "registry (log_hook hv e d st) = registry st" "ha_uuids (log_hook hv e d st) = ha_uuids st"
  "registry (invalidate_event_listener_cache hv ev st) = registry st"
  "ha_uuids (invalidate_event_listener_cache hv ev st) = ha_uuids st"
  "registry (on_hooks f st) = webhooks (f (ha_hooks st))" "ha_uuids (on_hooks f st) = ha_uuids st"
  "registry (put_webhook w st) = update_first (\<lambda>x. wh_id x = wh_id w) (\<lambda>_. w) (registry st)"
  "ha_uuids (put_webhook w st) = ha_uuids st"
  by (simp_all add: log_hook_def on_hooks_def put_webhook_def invalidate_event_listener_cache_def split: option.splits)

lemma get_live_Inr:
  assumes "get_live_webhook_or_409 k st = Inr w"
  shows "find (\<lambda>x. wh_id x = wh_id w) (registry st) = Some w" "\<not> is_deleted w" "wh_id w = k"
proof -
  have f: "find (\<lambda>x. wh_id x = k) (registry st) = Some w" and d: "\<not> is_deleted w"
    using assms by (auto simp: get_live_webhook_or_409_def get_webhook_or_404_def find_webhook_def split: option.splits if_splits)
  then have "wh_id w = k" by (auto dest: find_Some_P)
  with f d show "find (\<lambda>x. wh_id x = wh_id w) (registry st) = Some w" "\<not> is_deleted w" "wh_id w = k" by simp_all
qed

lemma find_split:
  assumes "find P ws = Some w"
  obtains xs ys where "ws = xs @ w # ys" "\<And>f. update_first P f ws = xs @ f w # ys"
  using assms
proof (induction ws arbitrary: thesis)
  case (Cons x ws)
  show ?case
  proof (cases "P x")
    case True
    with Cons.prems show ?thesis by (intro Cons.prems(1) [of "[]" ws]) simp_all
  next
    case False
    with Cons.prems(2) obtain xs ys where "ws = xs @ w # ys" "\<And>f. update_first P f ws = xs @ f w # ys"
      using Cons.IH by auto
    with False show ?thesis by (intro Cons.prems(1) [of "x # xs" ys]) simp_all
  qed
qed simp

text \<open>Replacing a live row by a deleted one, or by one with the same key, keeps the index satisfied.\<close>

lemma live_keys_replace:
  assumes "find P ws = Some w" "\<not> is_deleted w" "is_deleted w' \<or> wh_url w' = wh_url w \<and> wh_events w' = wh_events w"
    "live_keys_distinct ws"
  shows "live_keys_distinct (update_first P (\<lambda>_. w') ws)"
proof -
  obtain xs ys where s: "ws = xs @ w # ys" "\<And>f. update_first P f ws = xs @ f w # ys" using find_split [OF assms(1)] by metis
  show ?thesis
  proof (cases "is_deleted w'")
    case True
    with assms(2,4) show ?thesis unfolding s(2) unfolding s(1) by (simp add: live_keys_distinct_def)
  next
    case False
    with assms(3) have "map (\<lambda>w. (\<not> is_deleted w, wh_url w, wh_events w)) (xs @ w' # ys) = map (\<lambda>w. (\<not> is_deleted w, wh_url w, wh_events w)) ws"
      using assms(2) unfolding s(1) by simp
    from live_keys_map [OF this] assms(4) show ?thesis unfolding s(2) by simp
  qed
qed

lemma changed_same_key:
  assumes "get_live_webhook_or_409 k st = Inr w" "wh_id w' = wh_id w" "is_deleted w' \<longrightarrow> \<not> wh_is_active w'"
    "is_deleted w' \<or> wh_url w' = wh_url w \<and> wh_events w' = wh_events w" "pinned_public w \<longrightarrow> pinned_public w'"
  shows "registry_move (registry st) (update_first (\<lambda>x. wh_id x = wh_id w) (\<lambda>_. w') (registry st))"
  by (rule registry_move.changed) (use assms get_live_Inr [OF assms(1)] live_keys_replace in auto)

definition protected_network :: "network_settings \<Rightarrow> bool" where
  "protected_network net \<longleftrightarrow> \<not> (ns_validator_bypass net \<and> ns_environment net = ''local'') \<and> \<not> ns_allow_private net"

lemma validated_pinned:
  assumes "validate_webhook_url net res url = Inr ips" "protected_network net" "wh_resolved_ips w = Some ips"
  shows "pinned_public w"
proof -
  from assms(1,2) obtain p where p: "resolve_host res (hostname_of p) 5 = Inr ips" "validate_all net ips = Inr ()"
    by (auto simp: protected_network_def elim: validate_webhook_url_Inr)
  from p(1) have "ips \<noteq> []" by (rule resolve_host_Inr) simp_all
  moreover have "\<exists>a. ip_address ip = Some a \<and> public_ip a" if "ip \<in> set ips" for ip
    using validate_all_Inr [OF p(2)] that assms(2) validate_ip_address_public unfolding protected_network_def by metis
  ultimately show ?thesis by (simp add: pinned_public_def assms(3))
qed

definition hook_ids_fresh :: "(nat \<Rightarrow> str) \<Rightarrow> hook_admin \<Rightarrow> bool" where
  "hook_ids_fresh uuid st \<longleftrightarrow> wh_id ` set (registry st) \<subseteq> uuid ` {..<ha_uuids st}"

lemma create_webhook_move:
  assumes "inj (hv_uuid hv)" "protected_network (hook_network hv)" "hook_ids_fresh (hv_uuid hv) st"
  shows "registry_move (registry st) (registry (snd (create_webhook hv p st))) \<and>
         hook_ids_fresh (hv_uuid hv) (snd (create_webhook hv p st))"
proof (cases "\<exists>ips. validate_webhook_create hv p \<and> enforce_webhook_registration_cap (hv_settings hv) st = Inr () \<and>
    validate_webhook_url (hook_network hv) (hv_resolve hv) (wc_url p) = Inr ips \<and>
    live_keys_distinct (registry st @ [new_webhook hv p ips st])")
  case True
  then obtain ips where c: "validate_webhook_create hv p" "enforce_webhook_registration_cap (hv_settings hv) st = Inr ()"
    "validate_webhook_url (hook_network hv) (hv_resolve hv) (wc_url p) = Inr ips"
    "live_keys_distinct (registry st @ [new_webhook hv p ips st])" by blast
  have r: "registry (snd (create_webhook hv p st)) = registry st @ [new_webhook hv p ips st]"
    "ha_uuids (snd (create_webhook hv p st)) = Suc (ha_uuids st)"
    by (simp_all add: create_webhook_def c Let_def)
  have "wh_id (new_webhook hv p ips st) \<notin> wh_id ` set (registry st)"
    using assms(1,3) by (auto simp: hook_ids_fresh_def new_webhook_def inj_eq)
  moreover have "pinned_public (new_webhook hv p ips st)"
    by (rule validated_pinned [OF c(3) assms(2)]) (simp add: new_webhook_def)
  moreover have "\<not> is_deleted (new_webhook hv p ips st)" by (simp add: is_deleted_def new_webhook_def)
  ultimately have "registry_move (registry st) (registry st @ [new_webhook hv p ips st])"
    using c(4) by (intro registry_move.registered)
  moreover have "hook_ids_fresh (hv_uuid hv) (snd (create_webhook hv p st))"
    using assms(3) unfolding hook_ids_fresh_def r by (auto simp: new_webhook_def lessThan_Suc)
  ultimately show ?thesis unfolding r by simp
next
  case False
  then have "registry (snd (create_webhook hv p st)) = registry st \<and> ha_uuids st \<le> ha_uuids (snd (create_webhook hv p st))"
    by (auto simp: create_webhook_def Let_def split: sum.splits)
  with assms(3) show ?thesis by (auto simp: hook_ids_fresh_def intro: registry_move.untouched)
qed

lemma rotation_fields [simp]:
  "wh_id (fst (apply_secret_rotation hv s src w)) = wh_id w" "wh_url (fst (apply_secret_rotation hv s src w)) = wh_url w"
  "wh_events (fst (apply_secret_rotation hv s src w)) = wh_events w" "is_deleted (fst (apply_secret_rotation hv s src w)) = is_deleted w"
  "pinned_public (fst (apply_secret_rotation hv s src w)) = pinned_public w"
  by (simp_all add: apply_secret_rotation_def is_deleted_def pinned_public_def split_beta)

lemma rotate_webhook_move: "registry_move (registry st) (registry (snd (rotate_webhook_secret hv k st)))"
proof (cases "get_live_webhook_or_409 k st")
  case (Inr w)
  let ?w = "fst (apply_secret_rotation hv (hv_token_hex hv) ''rotate_endpoint'' w)"
  have "registry (snd (rotate_webhook_secret hv k st)) = update_first (\<lambda>x. wh_id x = wh_id w) (\<lambda>_. ?w) (registry st)"
    unfolding rotate_webhook_secret_def Inr sum.case by (simp add: split_beta)
  then show ?thesis using changed_same_key [OF Inr, of ?w] get_live_Inr(2) [OF Inr] by simp
qed (simp add: rotate_webhook_secret_def registry_move.untouched)

lemma delete_webhook_move: "registry_move (registry st) (registry (snd (delete_webhook hv k st)))"
proof (cases "get_webhook_or_404 k st")
  case (Inr w)
  show ?thesis
  proof (cases "is_deleted w")
    case False
    let ?w = "w\<lparr>wh_deleted_at := Some (hook_now hv), wh_is_active := False\<rparr>"
    have l: "get_live_webhook_or_409 k st = Inr w" by (simp add: get_live_webhook_or_409_def Inr False)
    have "registry (snd (delete_webhook hv k st)) = update_first (\<lambda>x. wh_id x = wh_id w) (\<lambda>_. ?w) (registry st)"
      unfolding delete_webhook_def Inr sum.case by (simp add: False Let_def)
    then show ?thesis using changed_same_key [OF l, of ?w] by (simp add: is_deleted_def pinned_public_def)
  qed (simp add: delete_webhook_def Inr Let_def registry_move.untouched)
qed (simp add: delete_webhook_def registry_move.untouched)

lemma update_rest_fields [simp]:
  "wh_id (update_rest p w) = wh_id w" "is_deleted (update_rest p w) = is_deleted w" "pinned_public (update_rest p w) = pinned_public w"
  by (simp_all add: update_rest_def is_deleted_def pinned_public_def)

lemma update_url_fields:
  assumes "update_url hv p w = Inr w'"
  shows "wh_id w' = wh_id w" "is_deleted w' = is_deleted w" "protected_network (hook_network hv) \<Longrightarrow> pinned_public w \<Longrightarrow> pinned_public w'"
proof -
  show "wh_id w' = wh_id w" "is_deleted w' = is_deleted w"
    using assms by (auto simp: update_url_def is_deleted_def split: option.splits sum.splits)
  assume n: "protected_network (hook_network hv)" and p: "pinned_public w"
  show "pinned_public w'"
  proof (cases "wu_url p")
    case None
    with assms p show ?thesis by (simp add: update_url_def)
  next
    case (Some u)
    with assms obtain ips where "validate_webhook_url (hook_network hv) (hv_resolve hv) u = Inr ips" "wh_resolved_ips w' = Some ips"
      by (auto simp: update_url_def split: sum.splits)
    with n show ?thesis by (metis validated_pinned)
  qed
qed

text \<open>A patch refuses, or leaves one live row changed and the index satisfied.\<close>

lemma update_webhook_cases:
  obtains (refused) "registry (snd (update_webhook hv k p st)) = registry st"
  | (applied) w w' where "get_live_webhook_or_409 k st = Inr w" "wh_id w' = wh_id w" "is_deleted w' = is_deleted w"
      "protected_network (hook_network hv) \<Longrightarrow> pinned_public w \<Longrightarrow> pinned_public w'"
      "registry (snd (update_webhook hv k p st)) = update_first (\<lambda>x. wh_id x = wh_id w) (\<lambda>_. w') (registry st)"
      "live_keys_distinct (registry (snd (update_webhook hv k p st)))"
proof (cases "validate_webhook_update hv p")
  case True
  show thesis
  proof (cases "get_live_webhook_or_409 k st")
    case (Inr w)
    define w1 where "w1 = (case wu_name p of None \<Rightarrow> w | Some n \<Rightarrow> w\<lparr>wh_name := n\<rparr>)"
    have w1: "wh_id w1 = wh_id w" "is_deleted w1 = is_deleted w" "pinned_public w1 = pinned_public w"
      by (simp_all add: w1_def is_deleted_def pinned_public_def split: option.splits)
    show thesis
    proof (cases "update_url hv p w1")
      case (Inl e)
      with True Inr show thesis by (intro refused) (simp add: update_webhook_def w1_def [symmetric])
    next
      case u: (Inr w2)
      define q where "q = (case wu_secret p of None \<Rightarrow> (w2, st) | Some new_secret \<Rightarrow>
          (case apply_secret_rotation hv new_secret ''patch'' w2 of (w', details) \<Rightarrow>
            (w', log_hook hv ''webhook_secret_rotated'' details st)))"
      have q: "wh_id (fst q) = wh_id w2" "is_deleted (fst q) = is_deleted w2" "pinned_public (fst q) = pinned_public w2"
        "registry (snd q) = registry st"
        by (simp_all add: q_def split_beta split: option.splits)
      let ?w = "update_rest p (fst q)"
      have i: "wh_id ?w = wh_id w" "is_deleted ?w = is_deleted w" using q w1 update_url_fields(1,2) [OF u] by simp_all
      have e: "update_webhook hv k p st =
          (if \<not> live_keys_distinct (registry (put_webhook ?w (snd q))) then (Inl IntegrityError, snd q)
           else (Inr (serialize_webhook (hook_iso hv) ?w), invalidate_event_listener_cache hv None (put_webhook ?w (snd q))))"
        unfolding update_webhook_def Inr sum.case Let_def w1_def [symmetric] u q_def [symmetric] using True by (simp add: split_beta)
      show thesis
      proof (cases "live_keys_distinct (registry (put_webhook ?w (snd q)))")
        case False
        with e q(4) show thesis by (intro refused) simp
      next
        case l: True
        show thesis
        proof (rule applied [OF Inr i])
          show "pinned_public ?w" if "protected_network (hook_network hv)" "pinned_public w"
            using update_url_fields(3) [OF u that(1)] that(2) w1(3) q(3) by simp
          show "registry (snd (update_webhook hv k p st)) = update_first (\<lambda>x. wh_id x = wh_id w) (\<lambda>_. ?w) (registry st)"
            using l i(1) q(4) unfolding e by simp
          show "live_keys_distinct (registry (snd (update_webhook hv k p st)))" using l unfolding e by simp
        qed
      qed
    qed
  qed (use True in \<open>intro refused, simp add: update_webhook_def\<close>)
qed (simp add: update_webhook_def)

lemma update_webhook_move:
  assumes "protected_network (hook_network hv)"
  shows "registry_move (registry st) (registry (snd (update_webhook hv k p st)))"
proof (cases rule: update_webhook_cases [of hv k p st])
  case refused
  then show ?thesis by (simp add: registry_move.untouched)
next
  case (applied w w')
  show ?thesis unfolding applied(5)
    by (rule registry_move.changed) (use applied get_live_Inr [OF applied(1)] assms in simp_all)
qed

lemma webhook_step_registry: "webhook_step cfg s s' \<Longrightarrow> webhooks s' = webhooks s"
  by (erule webhook_step_preserves [where P = "\<lambda>x. webhooks x = webhooks s"]) simp_all

lemma replay_registry: "webhooks (snd (replay_dead_letter_delivery cfg ae k s)) = webhooks s"
  by (rule webhook_step_registry, rule webhook_step.replayed)

lemma replay_all_registry: "webhooks (snd (replay_all cfg attempts ks s)) = webhooks s"
proof (induction ks arbitrary: s)
  case (Cons k ks)
  obtain r s1 where r: "replay_dead_letter_delivery cfg (attempts k) k s = (r, s1)" by fastforce
  have "webhooks s1 = webhooks s" using replay_registry [of cfg "attempts k" k s] by (simp add: r)
  then show ?case using Cons.IH [of s1] by (auto simp: r split: sum.splits prod.splits)
qed simp

lemma answer_delivery_registry [simp]:
  "registry (snd (answer_delivery hv e k d s st)) = webhooks s" "ha_uuids (snd (answer_delivery hv e k d s st)) = ha_uuids st"
  by (simp_all add: answer_delivery_def Let_def split: option.splits)

lemma retry_delivery_registry:
  "registry (snd (retry_delivery hv k d st)) = registry st \<and> ha_uuids (snd (retry_delivery hv k d st)) = ha_uuids st"
proof -
  obtain r s where "dispatch_delivery (hs_delivery (hv_settings hv)) (hv_attempts hv d) d (ha_hooks st) = (r, s)" by fastforce
  moreover from this have "webhooks s = registry st" by (metis snd_conv webhooks_dispatch)
  ultimately show ?thesis by (simp add: retry_delivery_def split: sum.splits option.splits)
qed

lemma replay_delivery_registry:
  "registry (snd (replay_delivery hv k d st)) = registry st \<and> ha_uuids (snd (replay_delivery hv k d st)) = ha_uuids st"
proof -
  obtain r s where "replay_dead_letter_delivery (hs_delivery (hv_settings hv)) (hv_attempts hv d) d (ha_hooks st) = (r, s)" by fastforce
  moreover from this have "webhooks s = registry st" by (metis snd_conv replay_registry)
  ultimately show ?thesis by (simp add: replay_delivery_def split: sum.splits option.splits bool.splits)
qed

lemma replay_context_registry:
  "registry (snd (replay_deliveries_by_context hv ev dev out n st)) = registry st \<and>
   ha_uuids (snd (replay_deliveries_by_context hv ev dev out n st)) = ha_uuids st"
proof -
  obtain r s where r: "replay_deliveries_by_event_context hv ev dev out n (ha_hooks st) = (r, s)" by fastforce
  have "webhooks (snd (replay_deliveries_by_event_context hv ev dev out n (ha_hooks st))) = registry st"
    by (simp add: replay_deliveries_by_event_context_def Let_def replay_all_registry split: sum.split)
  then show ?thesis by (simp add: replay_deliveries_by_context_def r split: sum.split)
qed

lemma sweep_secrets_view:
  "map (\<lambda>w. w\<lparr>wh_previous_secrets := []\<rparr>) (fst (sweep_secrets t ws)) = map (\<lambda>w. w\<lparr>wh_previous_secrets := []\<rparr>) ws"
  by (induction ws) (simp_all add: split_beta)

lemma hook_uuids_frame:
  "ha_uuids (snd (update_webhook hv k u st)) = ha_uuids st" "ha_uuids (snd (delete_webhook hv k st)) = ha_uuids st"
  "ha_uuids (snd (rotate_webhook_secret hv k st)) = ha_uuids st"
  by (simp_all add: update_webhook_def delete_webhook_def rotate_webhook_secret_def Let_def split_beta
      split: sum.splits option.splits)

lemma registry_move_ids:
  assumes "registry_move ws ws'"
  shows "wh_id ` set ws' = wh_id ` set ws \<or> (\<exists>w. ws' = ws @ [w])"
proof -
  have "map wh_id ws' = map wh_id ws \<or> (\<exists>w. ws' = ws @ [w])"
    using assms
  proof cases
    case (changed w w')
    then show ?thesis using ids_update_const [of w' "wh_id w" ws] by simp
  next
    case swept
    from swept_view [OF this, of wh_id] show ?thesis by simp
  qed auto
  then show ?thesis by (metis set_map)
qed

lemma hook_ids_fresh_cong:
  "wh_id ` set (registry st') = wh_id ` set (registry st) \<Longrightarrow> ha_uuids st' = ha_uuids st \<Longrightarrow>
   hook_ids_fresh uuid st' = hook_ids_fresh uuid st"
  by (simp add: hook_ids_fresh_def)

lemma length_registry_frame:
  "length (registry (snd (update_webhook hv k u st))) = length (registry st)"
  "length (registry (snd (delete_webhook hv k st))) = length (registry st)"
  "length (registry (snd (rotate_webhook_secret hv k st))) = length (registry st)"
  by (cases rule: update_webhook_cases [of hv k u st]; simp)
     (simp_all add: delete_webhook_def rotate_webhook_secret_def Let_def split_beta split: sum.splits)

lemma fresh_of_move:
  assumes "registry_move (registry st) (registry st')" "length (registry st') = length (registry st)" "ha_uuids st' = ha_uuids st"
  shows "hook_ids_fresh uuid st' = hook_ids_fresh uuid st"
  using registry_move_ids [OF assms(1)]
proof
  assume "wh_id ` set (registry st') = wh_id ` set (registry st)"
  then show ?thesis using assms(3) by (rule hook_ids_fresh_cong)
qed (use assms(2) in auto)

text \<open>Every request is a move of the registry; identifiers stay among those drawn.\<close>

lemma hook_step_moves:
  assumes "hook_step uuid net st st'" "inj uuid" "protected_network net" "hook_ids_fresh uuid st"
  shows "registry_move (registry st) (registry st') \<and> hook_ids_fresh uuid st'"
  using assms(1)
proof cases
  case (registering hv p)
  with assms show ?thesis using create_webhook_move [of hv st p] by simp
next
  case (patching hv k u)
  with assms(3) have m: "registry_move (registry st) (registry st')" using update_webhook_move by simp
  with patching assms(4) show ?thesis using fresh_of_move [OF m] by (simp add: length_registry_frame hook_uuids_frame)
next
  case (removing hv k)
  then have m: "registry_move (registry st) (registry st')" using delete_webhook_move by simp
  with removing assms(4) show ?thesis using fresh_of_move [OF m] by (simp add: length_registry_frame hook_uuids_frame)
next
  case (rotating hv k)
  then have m: "registry_move (registry st) (registry st')" using rotate_webhook_move by simp
  with rotating assms(4) show ?thesis using fresh_of_move [OF m] by (simp add: length_registry_frame hook_uuids_frame)
next
  case (housekeeping t)
  have r: "registry st' = fst (sweep_secrets t (registry st))" "ha_uuids st' = ha_uuids st"
    unfolding housekeeping by (simp_all add: expire_old_secrets_def split_beta)
  have m: "registry_move (registry st) (registry st')"
    unfolding r by (rule registry_move.swept, rule sweep_secrets_view)
  moreover have "length (registry st') = length (registry st)"
    using arg_cong [OF sweep_secrets_view, of length] r(1) by simp
  ultimately show ?thesis using assms(4) r(2) fresh_of_move by blast
next
  case (retrying hv k d)
  with assms(4) retry_delivery_registry [of hv k d st] show ?thesis
    by (simp add: registry_move.untouched hook_ids_fresh_def)
next
  case (replaying hv k d)
  with assms(4) replay_delivery_registry [of hv k d st] show ?thesis
    by (simp add: registry_move.untouched hook_ids_fresh_def)
next
  case (replaying_context hv ev dev out n)
  with assms(4) replay_context_registry [of hv ev dev out n st] show ?thesis
    by (simp add: registry_move.untouched hook_ids_fresh_def)
next
  case (delivering cfg s)
  with assms(4) webhook_step_registry show ?thesis
    by (simp add: registry_move.untouched hook_ids_fresh_def)
qed

lemma hook_steps_moves:
  assumes "(hook_step uuid net)\<^sup>*\<^sup>* st st'" "inj uuid" "protected_network net" "hook_ids_fresh uuid st"
  shows "registry_move\<^sup>*\<^sup>* (registry st) (registry st') \<and> hook_ids_fresh uuid st'"
  using assms(1)
proof (induction rule: rtranclp_induct)
  case (step st1 st2)
  with hook_step_moves [OF step(2) assms(2,3)] show ?case by (meson rtranclp.rtrancl_into_rtrancl)
qed (use assms in simp)

text \<open>C19. Whatever sequence of registrations, patches, deletions, rotations, sweeps and deliveries runs, the webhook table keeps its identifiers distinct, at most one live row per url and event list, every deleted row inactive, and every row pinned to addresses that parse and are public.\<close>

theorem webhook_registry_stays_sound:
  assumes "(hook_step uuid net)\<^sup>*\<^sup>* st st'" "inj uuid" "protected_network net" "hook_ids_fresh uuid st" "registry_ok (registry st)"
  shows "registry_ok (registry st')"
proof -
  have "registry_move\<^sup>*\<^sup>* (registry st) (registry st')" using hook_steps_moves [OF assms(1-4)] by blast
  then show ?thesis using assms(5) by (induction rule: rtranclp_induct) (blast intro: registry_move_ok)+
qed

lemma find_update_const:
  "wh_id w' = k \<Longrightarrow> find (\<lambda>x. wh_id x = k) ws = Some w \<Longrightarrow> find (\<lambda>x. wh_id x = k) (update_first (\<lambda>x. wh_id x = k) (\<lambda>_. w') ws) = Some w'"
  by (induction ws) (auto split: if_splits)

lemma delete_webhook_tombstone:
  assumes r: "delete_webhook hv k st = (Inr (), st1)" and ok: "registry_ok (registry st)"
  shows "tombstone k (registry st1)"
proof -
  have e: "st1 = snd (delete_webhook hv k st)" using r by simp
  from r obtain w where g: "get_webhook_or_404 k st = Inr w"
    by (cases "get_webhook_or_404 k st") (simp_all add: delete_webhook_def)
  then have w: "find (\<lambda>x. wh_id x = k) (registry st) = Some w"
    by (auto simp: get_webhook_or_404_def find_webhook_def split: option.splits)
  then have k: "wh_id w = k" by (auto dest: find_Some_P)
  show ?thesis
  proof (cases "is_deleted w")
    case True
    with ok find_Some_set [OF w] have "\<not> wh_is_active w" by (auto simp: registry_ok_def)
    with True w show ?thesis unfolding e delete_webhook_def g sum.case by (simp add: Let_def tombstone_def)
  next
    case False
    show ?thesis unfolding e delete_webhook_def g sum.case
      by (simp add: Let_def tombstone_def False k find_update_const [OF _ w]) (simp add: is_deleted_def)
  qed
qed

lemma tombstone_unsubscribed:
  assumes "tombstone k (webhooks s)" "registry_ok (webhooks s)" "w \<in> set (subscribers_for_event ev s)"
  shows "wh_id w \<noteq> k"
proof
  assume k: "wh_id w = k"
  have "w \<in> set (webhooks s)" "wh_deleted_at w = None" using assms(3) by (auto simp: subscribers_for_event_def)
  moreover obtain v where v: "find (\<lambda>x. wh_id x = k) (webhooks s) = Some v" "is_deleted v"
    using assms(1) by (auto simp: tombstone_def split: option.splits)
  moreover have "v \<in> set (webhooks s)" "wh_id v = k" using v(1) by (auto dest: find_Some_set find_Some_P)
  ultimately have "v = w" using assms(2) k unfolding registry_ok_def distinct_map by (metis inj_onD)
  with v(2) \<open>wh_deleted_at w = None\<close> show False by (simp add: is_deleted_def)
qed

lemma tombstone_refused:
  assumes "tombstone k (registry st)"
  shows "get_live_webhook_or_409 k st = Inl (HTTPError 409)"
  using assms by (auto simp: tombstone_def get_live_webhook_or_409_def get_webhook_or_404_def find_webhook_def split: option.splits)

lemma delete_keeps_deliveries: "deliveries (ha_hooks (snd (delete_webhook hv k st))) = deliveries (ha_hooks st)"
  by (simp add: delete_webhook_def Let_def invalidate_event_listener_cache_def put_webhook_def on_hooks_def log_hook_def
      split: sum.splits option.splits)

text \<open>Deleting a webhook keeps its delivery history; from then on, after any further requests, the row is still there as a tombstone, no event selects it as a subscriber, and patches and rotations of it are refused.\<close>

theorem deleted_webhook_is_silent:
  assumes r: "delete_webhook hv k st = (Inr (), st1)" and steps: "(hook_step uuid net)\<^sup>*\<^sup>* st1 st2"
    and "inj uuid" "protected_network net" "hook_ids_fresh uuid st" "registry_ok (registry st)"
  shows "deliveries (ha_hooks st1) = deliveries (ha_hooks st) \<and> tombstone k (registry st2) \<and>
         k \<notin> wh_id ` set (subscribers_for_event ev (ha_hooks st2)) \<and>
         fst (update_webhook hv' k u st2) \<in> {Inl (HTTPError 422), Inl (HTTPError 409)} \<and>
         fst (rotate_webhook_secret hv' k st2) = Inl (HTTPError 409)"
proof -
  have s: "hook_step uuid net st st1" using hook_step.removing [of uuid net st hv k] r by simp
  have ok1: "registry_ok (registry st1)" and f1: "hook_ids_fresh uuid st1"
    using hook_step_moves [OF s assms(3-5)] registry_move_ok assms(6) by blast+
  have m: "registry_move\<^sup>*\<^sup>* (registry st1) (registry st2)" using hook_steps_moves [OF steps assms(3,4) f1] by blast
  then have t: "tombstone k (registry st2)"
    using delete_webhook_tombstone [OF r assms(6)] by (induction rule: rtranclp_induct) (blast intro: registry_move_tombstone)+
  from m have ok2: "registry_ok (registry st2)" using ok1 by (induction rule: rtranclp_induct) (blast intro: registry_move_ok)+
  have "deliveries (ha_hooks st1) = deliveries (ha_hooks st)" using delete_keeps_deliveries [of hv k st] r by simp
  moreover have "k \<notin> wh_id ` set (subscribers_for_event ev (ha_hooks st2))" using tombstone_unsubscribed [OF t ok2] by blast
  ultimately show ?thesis using t tombstone_refused [OF t] by (simp add: update_webhook_def rotate_webhook_secret_def)
qed

section \<open>Secrets\<close>

lemma prune_expired_secrets_parts:
  "fst (prune_expired_secrets t es) = filter (is_within_grace t) es"
  "snd (prune_expired_secrets t es) = length (filter (\<lambda>e. \<not> is_within_grace t e) es)"
  using sum_length_filter_compl [of "is_within_grace t" es] by (simp_all add: prune_expired_secrets_def Let_def)

lemma pruned_zero: "snd (prune_expired_secrets t es) = 0 \<longleftrightarrow> list_all (is_within_grace t) es"
  by (auto simp: prune_expired_secrets_parts filter_empty_conv list_all_iff)

text \<open>A rotation of a webhook whose history is empty or has an expired entry drops the expired entries and appends the hash of the outgoing secret, which stays in grace for exactly the effective grace window; the new secret is in place and the version goes up by one.\<close>

theorem rotation_remembers_outgoing_secret:
  assumes "wh_secret w = Some s" "s \<noteq> []" "\<not> list_all (is_within_grace (hook_now hv)) (wh_previous_secrets w) \<or> wh_previous_secrets w = []"
  shows "\<exists>e. wh_previous_secrets (fst (apply_secret_rotation hv new src w)) =
             filter (is_within_grace (hook_now hv)) (wh_previous_secrets w) @ [e] \<and>
           pe_hashed_secret e = hv_hash_token hv s \<and>
           pe_expires_at e = Some (hook_now hv + fst (effective_grace (hv_settings hv) w) * hs_hour (hv_settings hv)) \<and>
           (\<forall>t. is_within_grace t e \<longleftrightarrow> t < hook_now hv + fst (effective_grace (hv_settings hv) w) * hs_hour (hv_settings hv)) \<and>
           wh_secret (fst (apply_secret_rotation hv new src w)) = Some new \<and>
           wh_secret_version (fst (apply_secret_rotation hv new src w)) = wh_secret_version w + 1"
proof -
  have p: "snd (prune_expired_secrets (hook_now hv) (wh_previous_secrets w)) > 0 \<or> wh_previous_secrets w = []"
    using assms(3) pruned_zero [of "hook_now hv" "wh_previous_secrets w"] by (metis bot_nat_0.not_eq_extremum)
  from p show ?thesis
    by (auto simp: apply_secret_rotation_def rotated_history_def split_beta prune_expired_secrets_parts(1) assms(1,2) is_within_grace_def Let_def)
qed

text \<open>A second rotation while the first secret is in grace: the outgoing secret is in no history.\<close>

text \<open>When every entry of a non-empty history is still in grace, a rotation records nothing: the outgoing secret is in no history.\<close>

theorem rotation_in_grace_forgets_secret:
  assumes "wh_previous_secrets w \<noteq> []" "list_all (is_within_grace (hook_now hv)) (wh_previous_secrets w)"
  shows "wh_previous_secrets (fst (apply_secret_rotation hv new src w)) = wh_previous_secrets w"
proof -
  have "snd (prune_expired_secrets (hook_now hv) (wh_previous_secrets w)) = 0" using assms(2) pruned_zero by blast
  then show ?thesis using assms(1) by (simp add: apply_secret_rotation_def rotated_history_def split_beta Let_def)
qed

text \<open>The housekeeping sweep keeps exactly the entries that are still in grace, in order, and returns the number of entries it removed.\<close>

theorem secret_sweep_exact:
  "map wh_previous_secrets (webhooks (snd (expire_old_secrets t s))) = map (filter (is_within_grace t) \<circ> wh_previous_secrets) (webhooks s) \<and>
   fst (expire_old_secrets t s) = sum_list (map (\<lambda>w. length (filter (\<lambda>e. \<not> is_within_grace t e) (wh_previous_secrets w))) (webhooks s))"
proof -
  have "map wh_previous_secrets (fst (sweep_secrets t ws)) = map (filter (is_within_grace t) \<circ> wh_previous_secrets) ws \<and>
      snd (sweep_secrets t ws) = sum_list (map (\<lambda>w. length (filter (\<lambda>e. \<not> is_within_grace t e) (wh_previous_secrets w))) ws)" for ws
    by (induction ws) (auto simp: split_beta prune_expired_secrets_parts filter_id_conv filter_empty_conv)
  then show ?thesis by (simp add: expire_old_secrets_def split_beta)
qed

text \<open>Fernet's contract: a token starts with the encoded version byte and decrypts to the text it was made from.\<close>

text \<open>A webhook secret that is written through the encrypting column type is read back unchanged, given that a Fernet token starts with its version byte and decrypts to the text it was made from.\<close>

theorem stored_secret_roundtrip:
  assumes "\<And>p. starts_with ''gAAAAA'' (encrypt p)" "\<And>p. decrypt (encrypt p) = Some p"
  shows "process_result_value decrypt (process_bind_param encrypt v) = v"
  using assms by (cases v) (simp_all add: process_result_value_def process_bind_param_def decrypt_secret_def is_encrypted_def)

section \<open>Registration limit\<close>

text \<open>Deleting a webhook does not change the answer of the registration cap, although the refusal asks for a deletion.\<close>

theorem deletion_frees_no_capacity:
  "enforce_webhook_registration_cap hs (snd (delete_webhook hv k st)) = enforce_webhook_registration_cap hs st"
  by (simp add: enforce_webhook_registration_cap_def count_registered_webhooks_def length_registry_frame)

section \<open>Reading\<close>

text \<open>The pages of the webhook listing, read one after the other, give every selected registration exactly once in listing order, and each page reports the full count and whether more follow.\<close>

theorem webhook_pages_complete:
  assumes "0 < n" "n \<le> 100" "length ws \<le> k * n" "ws = webhook_order (select_webhooks is_active name include_deleted (registry st))"
  shows "concat (map (\<lambda>p. case list_webhooks hv is_active name include_deleted p n st of Inl _ \<Rightarrow> [] | Inr pg \<Rightarrow> hp_items pg) [1..<Suc k]) =
           map (serialize_webhook (hook_iso hv)) ws \<and>
         (\<forall>p pg. list_webhooks hv is_active name include_deleted p n st = Inr pg \<longrightarrow>
            hp_total pg = length ws \<and> (hp_has_more pg \<longleftrightarrow> p * n < length ws))"
proof
  have "(case list_webhooks hv is_active name include_deleted p n st of Inl _ \<Rightarrow> [] | Inr pg \<Rightarrow> hp_items pg) =
      map (serialize_webhook (hook_iso hv)) (page_slice p n ws)" if "p \<in> set [1..<Suc k]" for p
    using that assms by (auto simp: list_webhooks_def hook_page_of_def page_slice_def Let_def)
  then have "concat (map (\<lambda>p. case list_webhooks hv is_active name include_deleted p n st of Inl _ \<Rightarrow> [] | Inr pg \<Rightarrow> hp_items pg) [1..<Suc k]) =
      concat (map (\<lambda>p. map (serialize_webhook (hook_iso hv)) (page_slice p n ws)) [1..<Suc k])"
    by (metis (no_types, lifting) map_cong)
  also have "\<dots> = map (serialize_webhook (hook_iso hv)) (concat (map (\<lambda>p. page_slice p n ws) [1..<Suc k]))"
    by (simp add: map_concat comp_def)
  finally show "concat (map (\<lambda>p. case list_webhooks hv is_active name include_deleted p n st of Inl _ \<Rightarrow> [] | Inr pg \<Rightarrow> hp_items pg) [1..<Suc k]) =
      map (serialize_webhook (hook_iso hv)) ws"
    unfolding concat_pages using assms(3) by simp
next
  show "\<forall>p pg. list_webhooks hv is_active name include_deleted p n st = Inr pg \<longrightarrow>
      hp_total pg = length ws \<and> (hp_has_more pg \<longleftrightarrow> p * n < length ws)"
  proof (intro allI impI)
    fix p pg
    assume l: "list_webhooks hv is_active name include_deleted p n st = Inr pg"
    then have p: "0 < p" by (auto simp: list_webhooks_def split: if_splits)
    from l have pg: "pg = hook_page_of (serialize_webhook (hook_iso hv)) ((p - 1) * n) n ws"
      unfolding assms(4) by (simp add: list_webhooks_def split: if_splits)
    have q: "(p - 1) * n + n = p * n" using p by (metis Suc_diff_1 add.commute mult_Suc)
    show "hp_total pg = length ws \<and> (hp_has_more pg \<longleftrightarrow> p * n < length ws)"
      unfolding pg hook_page_of_def Let_def using q assms(1) by (auto simp: min_def)
  qed
qed

section \<open>Deliveries\<close>

lemma attempt_delivery_checked:
  assumes "attempt_delivery cfg ae w d b = (Inr r, d', b')"
  obtains ips where "validate_webhook_url (ds_network cfg) (ae_resolve ae) (wh_url w) = Inr ips"
    "\<And>approved. wh_resolved_ips w = Some approved \<Longrightarrow> approved \<noteq> [] \<Longrightarrow> set approved \<inter> set ips \<noteq> {}"
proof -
  from assms obtain headers where h: "build_headers cfg ae w (wd_payload d) (wd_event d) (wd_signature_version d) = Inr headers"
    by (auto simp: attempt_delivery_def split: sum.splits)
  from assms obtain ips where v: "validate_webhook_url (ds_network cfg) (ae_resolve ae) (wh_url w) = Inr ips"
    by (cases "validate_webhook_url (ds_network cfg) (ae_resolve ae) (wh_url w)") (simp_all add: attempt_delivery_def h)
  have "\<not> (case wh_resolved_ips w of None \<Rightarrow> False | Some approved \<Rightarrow> approved \<noteq> [] \<and> set approved \<inter> set ips = {})"
    using assms unfolding attempt_delivery_def h v sum.case by (auto split: if_splits)
  then have "set approved \<inter> set ips \<noteq> {}" if "wh_resolved_ips w = Some approved" "approved \<noteq> []" for approved
    using that by simp
  with v that show ?thesis by blast
qed


section \<open>Concrete runs\<close>

definition sample_hook_settings :: hook_settings where
  "sample_hook_settings =
     \<lparr>hs_max_name_length = 255, hs_max_url_length = 2048, hs_max_events_count = 50, hs_max_max_retries = 10, hs_max_webhooks = 50,
      hs_fanout_warn_threshold = 200, hs_grace_hours = 24, hs_max_grace_hours = 168, hs_hour = 3600,
      hs_delivery = sample_settings, hs_cache = None\<rparr>"

definition sample_hook_env :: "time \<Rightarrow> hook_env" where
  "sample_hook_env t =
     \<lparr>hv_env = sample_env t, hv_settings = sample_hook_settings, hv_uuid = (\<lambda>n. replicate n (CHR ''w'')),
      hv_hash_token = (\<lambda>s. ''#'' @ s), hv_resolve_schema = (\<lambda>_. Some [''93.184.216.34'']),
      hv_resolve = (\<lambda>_. Some [''93.184.216.34'']), hv_actor = ''admin'', hv_token_hex = ''new'', hv_cache_fails = None,
      hv_attempts = (\<lambda>_. sample_attempt t (Http_response 200 [])), hv_loads = (\<lambda>_. None)\<rparr>"

definition empty_hooks :: hook_admin where
  "empty_hooks =
     \<lparr>ha_hooks = (sample_webhook_state [])\<lparr>webhooks := []\<rparr>, ha_audit = \<lparr>rows = [], next_id = 1\<rparr>,
      ha_subscribers = \<lparr>sc_failures = 0, sc_disabled_until = 0, sc_redis = []\<rparr>, ha_uuids = 0\<rparr>"

definition sample_registration :: webhook_create where
  "sample_registration =
     \<lparr>wc_name = ''receiver'', wc_url = ''https://receiver.example'', wc_secret = Some ''k'', wc_events = [SLA_VIOLATION],
      wc_max_retries = 3, wc_is_active = True\<rparr>"

abbreviation sample_registered :: hook_admin where
  "sample_registered \<equiv> snd (create_webhook (sample_hook_env 5) sample_registration empty_hooks)"

lemma sample_created:
  "registry sample_registered = [new_webhook (sample_hook_env 5) sample_registration [''93.184.216.34''] empty_hooks]"
proof -
  have n: "hook_network (sample_hook_env 5) = production_network"
    by (simp add: sample_hook_env_def sample_hook_settings_def sample_settings_def)
  have u: "wc_url sample_registration = ''https://receiver.example''" by (simp add: sample_registration_def)
  have r: "hv_resolve (sample_hook_env 5) = (\<lambda>_. Some [''93.184.216.34''])" "hv_resolve_schema (sample_hook_env 5) = (\<lambda>_. Some [''93.184.216.34''])"
    by (simp_all add: sample_hook_env_def)
  have "validate_webhook_create (sample_hook_env 5) sample_registration"
    unfolding validate_webhook_create_def n u r sample_receiver
    by (simp add: sample_hook_env_def sample_hook_settings_def sample_registration_def)
  moreover have "enforce_webhook_registration_cap (hv_settings (sample_hook_env 5)) empty_hooks = Inr ()"
    by (simp add: enforce_webhook_registration_cap_def sample_hook_env_def sample_hook_settings_def count_registered_webhooks_def empty_hooks_def)
  moreover have "live_keys_distinct (registry empty_hooks @ [x])" for x
    by (simp add: live_keys_distinct_def empty_hooks_def)
  ultimately show ?thesis
    unfolding create_webhook_def n u r sample_receiver by (simp add: Let_def empty_hooks_def)
qed

lemma sample_uuid_inj: "inj (hv_uuid (sample_hook_env t))"
  by (rule injI) (simp add: sample_hook_env_def)

lemma sample_protected: "protected_network production_network"
  by (simp add: protected_network_def production_network_def)

lemma sample_start: "registry empty_hooks = []" "hook_ids_fresh uuid empty_hooks" "registry_ok (registry empty_hooks)"
  by (simp_all add: empty_hooks_def hook_ids_fresh_def registry_ok_def live_keys_distinct_def)

lemma sample_registering: "hook_step (hv_uuid (sample_hook_env 5)) production_network empty_hooks sample_registered"
  by (rule hook_step.registering) (simp_all add: sample_hook_env_def sample_hook_settings_def sample_settings_def)

theorem webhook_registry_stays_sound_witness: "registry_ok (registry sample_registered) \<and> registry sample_registered \<noteq> []"
  using webhook_registry_stays_sound [OF r_into_rtranclp, OF sample_registering sample_uuid_inj sample_protected sample_start(2,3)]
  by (simp add: sample_created)


theorem deleted_webhook_is_silent_witness:
  "tombstone [] (registry (snd (delete_webhook (sample_hook_env 9) [] sample_registered)))"
proof -
  let ?w = "new_webhook (sample_hook_env 5) sample_registration [''93.184.216.34''] empty_hooks"
  have "wh_id ?w = []" by (simp add: new_webhook_def sample_hook_env_def empty_hooks_def)
  then have "get_webhook_or_404 [] sample_registered = Inr ?w"
    unfolding get_webhook_or_404_def find_webhook_def sample_created by simp
  then have d: "delete_webhook (sample_hook_env 9) [] sample_registered = (Inr (), snd (delete_webhook (sample_hook_env 9) [] sample_registered))"
    unfolding delete_webhook_def by (simp add: Let_def)
  have "hook_ids_fresh (hv_uuid (sample_hook_env 5)) sample_registered" "registry_ok (registry sample_registered)"
    using hook_step_moves [OF sample_registering sample_uuid_inj sample_protected sample_start(2)] registry_move_ok sample_start(3) by blast+
  from deleted_webhook_is_silent [OF d rtranclp.rtrancl_refl sample_uuid_inj sample_protected this]
  show ?thesis by blast
qed

theorem rotation_remembers_outgoing_secret_witness:
  "\<exists>e. wh_previous_secrets (fst (apply_secret_rotation (sample_hook_env 5) ''n'' ''patch'' sample_webhook)) = [e] \<and>
     pe_hashed_secret e = ''#k'' \<and> pe_expires_at e = Some (5 + 24 * 3600)"
  using rotation_remembers_outgoing_secret [of sample_webhook "''k''" "sample_hook_env 5" "''n''" "''patch''"]
  by (auto simp: sample_webhook_def sample_hook_env_def sample_hook_settings_def effective_grace_def sample_env_def)

theorem rotation_in_grace_forgets_secret_witness:
  "\<exists>w. wh_secret w = Some ''second'' \<and>
     wh_previous_secrets (fst (apply_secret_rotation (sample_hook_env 5) ''third'' ''patch'' w)) = wh_previous_secrets w \<and>
     ''#second'' \<notin> pe_hashed_secret ` set (wh_previous_secrets w)"
proof -
  let ?w = "sample_webhook\<lparr>wh_secret := Some ''second'',
      wh_previous_secrets := [\<lparr>pe_hashed_secret = ''#first'', pe_created_at = 1, pe_expires_at = Some 9000\<rparr>]\<rparr>"
  have "wh_previous_secrets (fst (apply_secret_rotation (sample_hook_env 5) ''third'' ''patch'' ?w)) = wh_previous_secrets ?w"
    by (rule rotation_in_grace_forgets_secret) (simp_all add: is_within_grace_def sample_hook_env_def sample_env_def)
  then show ?thesis by (intro exI [of _ ?w]) simp
qed

theorem stored_secret_roundtrip_witness:
  "process_result_value (\<lambda>t. Some (drop 6 t)) (process_bind_param (\<lambda>p. ''gAAAAA'' @ p) (Some ''secret'')) = Some ''secret''"
  by (rule stored_secret_roundtrip) (simp_all add: starts_with_def)

theorem webhook_pages_complete_witness:
  "concat (map (\<lambda>p. case list_webhooks (sample_hook_env 5) None None False p 20 empty_hooks of Inl _ \<Rightarrow> [] | Inr pg \<Rightarrow> hp_items pg) [1..<Suc 1]) = []"
  using webhook_pages_complete [of 20 "[]" 1 None None False empty_hooks "sample_hook_env 5"]
  by (simp add: sample_start(1) webhook_order_def select_webhooks_def)

end
