(* ===== verification/Stellar.thy ===== *)
theory Stellar
  imports Strings "HOL-Library.Word"
begin

text \<open>
  Stellar addresses: the CRC16-XModem checksum of \<^verbatim>\<open>app/utils/stellar_checksum.py\<close> over 16-bit words, the key generator of
  \<^verbatim>\<open>app/services/stellar_keypair_generator.py\<close> with the standard library's base-32 encoding, and the address
  grammar of \<^verbatim>\<open>app/utils/wallet_address.py\<close> and \<^verbatim>\<open>app/models/wallet.py\<close>.  The ed25519 key is an argument: its 32 raw bytes.
\<close>

unbundle bit_operations_syntax

type_synonym byte = "8 word"

section \<open>Checksum\<close>

definition crc_shift :: "16 word \<Rightarrow> 16 word" where
  "crc_shift crc = (if bit crc 15 then push_bit 1 crc XOR 0x1021 else push_bit 1 crc)"

definition crc_byte :: "16 word \<Rightarrow> byte \<Rightarrow> 16 word" where
  "crc_byte crc b = (crc_shift ^^ 8) (crc XOR push_bit 8 (ucast b))"

definition crc16_xmodem :: "byte list \<Rightarrow> 16 word" where
  "crc16_xmodem data = foldl crc_byte 0 data"

text \<open>\<open>int.from_bytes(..., byteorder="little")\<close> and \<open>to_bytes(2, byteorder="little")\<close>.\<close>

fun from_bytes_little :: "byte list \<Rightarrow> nat" where
  "from_bytes_little [] = 0"
| "from_bytes_little (b # bs) = unat b + 256 * from_bytes_little bs"

definition to_bytes_little2 :: "16 word \<Rightarrow> byte list" where
  "to_bytes_little2 w = [ucast w, ucast (drop_bit 8 w)]"

definition has_valid_checksum :: "byte list \<Rightarrow> byte list \<Rightarrow> byte list \<Rightarrow> bool" where
  "has_valid_checksum version_byte payload checksum =
     (let expected = crc16_xmodem (version_byte @ payload); actual = from_bytes_little checksum in unat expected = actual)"

section \<open>Base 32\<close>

definition b32_char :: "nat \<Rightarrow> char" where
  "b32_char d = (if d < 26 then char_of (65 + d) else char_of (24 + d))"

text \<open>The eight digits of a 40-bit quantum, most significant first.\<close>

fun base_digits :: "nat \<Rightarrow> nat \<Rightarrow> nat \<Rightarrow> nat list" where
  "base_digits b 0 n = []"
| "base_digits b (Suc k) n = base_digits b k (n div b) @ [n mod b]"

definition quantum :: "byte list \<Rightarrow> nat" where
  "quantum bs = foldl (\<lambda>n b. 256 * n + unat b) 0 bs"

fun b32_quanta :: "byte list \<Rightarrow> string" where
  "b32_quanta (a # b # c # d # e # bs) = map b32_char (base_digits 32 8 (quantum [a, b, c, d, e])) @ b32_quanta bs"
| "b32_quanta _ = []"

text \<open>\<open>base64.b32encode\<close>: the input is filled with zero bytes to whole quanta, the digits of the filling become \<open>=\<close>.\<close>

definition b32encode :: "byte list \<Rightarrow> string" where
  "b32encode bs =
     (let leftover = length bs mod 5;
          filled = (if leftover = 0 then bs else bs @ replicate (5 - leftover) 0);
          out = b32_quanta filled;
          pad = (if leftover = 1 then 6 else if leftover = 2 then 4 else if leftover = 3 then 3 else if leftover = 4 then 1 else 0) in
      take (length out - pad) out @ replicate pad (CHR ''=''))"

definition ACCOUNT_ID_VERSION_BYTE :: byte where "ACCOUNT_ID_VERSION_BYTE = push_bit 3 6"

definition strkey_bytes :: "byte list \<Rightarrow> byte list" where
  "strkey_bytes raw_public_key =
     (let payload = ACCOUNT_ID_VERSION_BYTE # raw_public_key in payload @ to_bytes_little2 (crc16_xmodem payload))"

definition generate_stellar_public_key :: "byte list \<Rightarrow> str" where
  "generate_stellar_public_key raw_public_key =
     rev (dropWhile (\<lambda>c. c = CHR ''='') (rev (b32encode (strkey_bytes raw_public_key))))"

section \<open>Address grammar\<close>

definition key_char :: "char \<Rightarrow> bool" where
  "key_char c \<longleftrightarrow> (let n = (of_char c :: nat) in 65 \<le> n \<and> n \<le> 90 \<or> 50 \<le> n \<and> n \<le> 55)"

text \<open>The regular expression \<open>^G[A-Z2-7]{55}$\<close> with \<open>re.match\<close>: the dollar sign also matches before a final newline.\<close>

definition stellar_public_key_re :: "string \<Rightarrow> bool" where
  "stellar_public_key_re s \<longleftrightarrow>
     (let body = (if s \<noteq> [] \<and> last s = CHR 0x0A then butlast s else s) in
      length body = 56 \<and> hd body = CHR ''G'' \<and> list_all key_char (tl body))"

definition normalize_address :: "str \<Rightarrow> exn + str" where
  "normalize_address raw =
     (let stripped = py_strip raw in
      if stripped = [] then Inl ValueError
      else
        (let upper = py_upper stripped in
         if length upper \<noteq> 56 then Inl ValueError
         else if \<not> starts_with ''G'' upper then Inl ValueError
         else if \<not> stellar_public_key_re upper then Inl ValueError
         else Inr upper))"

definition is_valid_address :: "str \<Rightarrow> bool" where
  "is_valid_address raw = (case normalize_address raw of Inl _ \<Rightarrow> False | Inr _ \<Rightarrow> True)"

definition validate_stellar_public_key :: "str \<Rightarrow> bool" where
  "validate_stellar_public_key v = stellar_public_key_re v"

text \<open>\<open>WalletRegistry._build_public_key\<close> on the hexadecimal form of a fresh UUID.\<close>

definition build_public_key :: "str \<Rightarrow> str" where
  "build_public_key uuid_hex = CHR ''G'' # py_upper uuid_hex"

section \<open>Checksum properties\<close>

lemma xor_right_cancel: "(c XOR x = c XOR y) \<longleftrightarrow> x = (y :: 'a::len word)"
  by (metis xor.assoc xor.left_neutral xor_self_eq)

lemma crc_shift_bit0: "bit (crc_shift c) 0 = bit c 15"
  by (simp add: crc_shift_def bit_simps) (simp add: bit_0)

lemma crc_shift_inj: "inj crc_shift"
proof (rule injI)
  fix c d :: "16 word"
  assume e: "crc_shift c = crc_shift d"
  then have t: "bit c 15 = bit d 15" by (metis crc_shift_bit0)
  with e have p: "push_bit 1 c = push_bit 1 d" unfolding crc_shift_def by (metis xor.commute xor_right_cancel)
  show "c = d"
  proof (rule bit_word_eqI)
    fix n
    assume n: "n < LENGTH(16)"
    show "bit c n = bit d n"
    proof (cases "n = 15")
      case False
      with n have "Suc n < 16" by simp
      with arg_cong [OF p, of "\<lambda>w. bit w (Suc n)"] show ?thesis unfolding bit_push_bit_iff by simp
    qed (use t in simp)
  qed
qed

lemma crc_byte_inj: "crc_byte c a = crc_byte d b \<longleftrightarrow> c XOR push_bit 8 (ucast a) = d XOR push_bit 8 (ucast b)"
  unfolding crc_byte_def using inj_fn [OF crc_shift_inj] by (simp add: inj_eq)

lemma ucast_byte_inj: "push_bit 8 (ucast a :: 16 word) = push_bit 8 (ucast b) \<Longrightarrow> a = (b :: byte)"
proof (rule bit_word_eqI)
  fix n
  assume e: "push_bit 8 (ucast a :: 16 word) = push_bit 8 (ucast b)" and n: "n < LENGTH(8)"
  from arg_cong [OF e, of "\<lambda>w. bit w (n + 8)"] n show "bit a n = bit b n" by (simp add: bit_simps)
qed

lemma foldl_crc_inj: "foldl crc_byte c ys = foldl crc_byte d ys \<longleftrightarrow> c = d"
proof (induction ys arbitrary: c d)
  case (Cons y ys)
  have "crc_byte c y = crc_byte d y \<longleftrightarrow> c = d" by (metis crc_byte_inj xor.commute xor_right_cancel)
  with Cons show ?case by simp
qed simp

lemma crc_single_byte:
  assumes "a \<noteq> b"
  shows "crc16_xmodem (xs @ a # ys) \<noteq> crc16_xmodem (xs @ b # ys)"
proof
  assume "crc16_xmodem (xs @ a # ys) = crc16_xmodem (xs @ b # ys)"
  then have "crc_byte (foldl crc_byte 0 xs) a = crc_byte (foldl crc_byte 0 xs) b"
    by (simp add: crc16_xmodem_def foldl_crc_inj)
  with assms show False by (metis crc_byte_inj ucast_byte_inj xor_right_cancel)
qed

lemma from_to_bytes_little: "from_bytes_little (to_bytes_little2 w) = unat w"
proof -
  have "unat (ucast w :: byte) = unat w mod 256" by (simp add: unsigned_ucast_eq take_bit_eq_mod)
  moreover have "unat (ucast (drop_bit 8 w) :: byte) = unat w div 256"
  proof -
    have "unat w < 65536" using unsigned_less [of w] by simp
    then have "unat w div 256 < 256" by (simp add: div_less_iff_less_mult)
    then show ?thesis unfolding unsigned_ucast_eq unat_drop_bit_eq by (simp add: take_bit_eq_mod drop_bit_eq_div)
  qed
  ultimately show ?thesis by (simp add: to_bytes_little2_def)
qed

text \<open>Changing any single byte of a payload makes a valid checksum invalid.\<close>

theorem checksum_detects_byte_errors:
  assumes "a \<noteq> b" "has_valid_checksum version (xs @ a # ys) checksum"
  shows "\<not> has_valid_checksum version (xs @ b # ys) checksum"
  using assms(2) crc_single_byte [OF assms(1), of "version @ xs" ys]
  by (simp add: has_valid_checksum_def Let_def) (metis word_unat_eq_iff)

section \<open>Generated addresses\<close>

lemma length_base_digits [simp]: "length (base_digits b k n) = k"
  by (induction k arbitrary: n) simp_all

lemma base_digits_bound: "0 < b \<Longrightarrow> d \<in> set (base_digits b k n) \<Longrightarrow> d < b"
  by (induction k arbitrary: n) auto

lemma base_digits_inj: "0 < b \<Longrightarrow> n < b ^ k \<Longrightarrow> m < b ^ k \<Longrightarrow> base_digits b k n = base_digits b k m \<Longrightarrow> n = m"
proof (induction k arbitrary: n m)
  case (Suc k)
  then have "base_digits b k (n div b) = base_digits b k (m div b)" "n mod b = m mod b" by simp_all
  moreover have "n div b < b ^ k" "m div b < b ^ k"
    using Suc.prems by (simp_all add: div_less_iff_less_mult mult.commute)
  ultimately have "n div b = m div b" using Suc.IH Suc.prems(1) by blast
  with \<open>n mod b = m mod b\<close> show ?case by (metis div_mult_mod_eq)
qed simp

lemma b32_char_code: "x < 32 \<Longrightarrow> (of_char (b32_char x) :: nat) = (if x < 26 then 65 + x else 24 + x)"
  by (simp add: b32_char_def)

lemma b32_char_key:
  assumes "d < 32"
  shows "key_char (b32_char d)" "b32_char d \<noteq> CHR ''=''"
proof -
  show "key_char (b32_char d)" using b32_char_code [OF assms] assms by (simp add: key_char_def Let_def)
  show "b32_char d \<noteq> CHR ''=''"
  proof
    assume "b32_char d = CHR ''=''"
    with b32_char_code [OF assms] assms show False by (simp split: if_splits)
  qed
qed

lemma b32_char_inj:
  assumes "d < 32" "e < 32" "b32_char d = b32_char e"
  shows "d = e"
proof -
  have "(if d < 26 then 65 + d else 24 + d) = (if e < 26 then 65 + e else 24 + e)"
    unfolding b32_char_code [OF assms(1), symmetric] b32_char_code [OF assms(2), symmetric] assms(3) ..
  with assms(1,2) show ?thesis by (simp split: if_splits)
qed

lemma map_b32_inj: "\<forall>d\<in>set ds. d < 32 \<Longrightarrow> \<forall>e\<in>set es. e < 32 \<Longrightarrow> map b32_char ds = map b32_char es \<Longrightarrow> ds = es"
proof (induction ds arbitrary: es)
  case (Cons d ds)
  obtain e es' where es: "es = e # es'" using Cons.prems(3) by (cases es) simp_all
  with Cons.prems have "d < 32" "e < 32" "b32_char d = b32_char e" by simp_all
  moreover have "ds = es'" using Cons.prems es by (intro Cons.IH) simp_all
  ultimately show ?case using b32_char_inj es by simp
qed simp

lemma quantum_snoc: "quantum (bs @ [b]) = 256 * quantum bs + unat b"
  by (simp add: quantum_def)

lemma quantum_less: "quantum bs < 256 ^ length bs"
proof (induction bs rule: rev_induct)
  case (snoc b bs)
  have "unat b < 256" using unsigned_less [of b] by simp
  then have "256 * quantum bs + unat b < 256 * quantum bs + 256" by simp
  also have "\<dots> = 256 * (quantum bs + 1)" by simp
  also have "\<dots> \<le> 256 * 256 ^ length bs" using snoc by (intro mult_le_mono2) simp
  finally show ?case by (simp add: quantum_snoc)
qed (simp add: quantum_def)

lemma quantum_inj: "length as = length bs \<Longrightarrow> quantum as = quantum bs \<Longrightarrow> as = bs"
proof (induction as arbitrary: bs rule: rev_induct)
  case (snoc a as)
  then obtain b bs' where b: "bs = bs' @ [b]" by (cases bs rule: rev_cases) auto
  have l: "unat a < 256" "unat b < 256" using unsigned_less [of a] unsigned_less [of b] by simp_all
  have e: "256 * quantum as + unat a = 256 * quantum bs' + unat b" using snoc.prems(2) b by (simp add: quantum_snoc)
  from arg_cong [OF e, of "\<lambda>n. n mod 256"] l have "unat a = unat b" by simp
  with e have "quantum as = quantum bs'" by simp
  with snoc.IH [of bs'] snoc.prems(1) b have "as = bs'" by simp
  with b \<open>unat a = unat b\<close> show ?case by (simp add: word_unat_eq_iff)
qed simp

lemma quantum5_digits:
  "length as = 5 \<Longrightarrow> length bs = 5 \<Longrightarrow> base_digits 32 8 (quantum as) = base_digits 32 8 (quantum bs) \<Longrightarrow> as = bs"
  using quantum_less [of as] quantum_less [of bs] base_digits_inj [of 32 "quantum as" 8 "quantum bs"] quantum_inj by simp

lemma b32_quanta_chars: "c \<in> set (b32_quanta bs) \<Longrightarrow> key_char c \<and> c \<noteq> CHR ''=''"
proof (induction bs rule: b32_quanta.induct)
  case (1 a b c' d e bs)
  then show ?case using b32_char_key base_digits_bound [of 32] by (auto simp del: base_digits.simps)
qed simp_all

lemma b32_quanta_inj: "length as = length bs \<Longrightarrow> length as mod 5 = 0 \<Longrightarrow> b32_quanta as = b32_quanta bs \<Longrightarrow> as = bs"
proof (induction as arbitrary: bs rule: b32_quanta.induct)
  case (1 a b c d e as)
  then obtain a' b' c' d' e' bs' where bs: "bs = a' # b' # c' # d' # e' # bs'"
    by (auto simp: length_Suc_conv Suc_length_conv)
  let ?p = "base_digits 32 8 (quantum [a, b, c, d, e])" and ?q = "base_digits 32 8 (quantum [a', b', c', d', e'])"
  have e: "map b32_char ?p @ b32_quanta as = map b32_char ?q @ b32_quanta bs'" using "1.prems"(3) unfolding bs by (simp only: b32_quanta.simps)
  have "map b32_char ?p = map b32_char ?q" "b32_quanta as = b32_quanta bs'" using e by (simp_all del: base_digits.simps)
  then have "?p = ?q" using base_digits_bound [of 32] by (intro map_b32_inj) (auto simp del: base_digits.simps)
  then have "[a, b, c, d, e] = [a', b', c', d', e']" by (intro quantum5_digits) simp_all
  moreover have "length as mod 5 = 0"
  proof -
    have "(length as + 5) mod 5 = 0" using "1.prems"(2) by simp
    then show ?thesis by simp
  qed
  ultimately show ?case using "1.IH" [of bs'] "1.prems"(1) \<open>b32_quanta as = b32_quanta bs'\<close> bs by simp
qed (auto dest!: arg_cong [of _ _ length])

lemma length_b32_quanta: "length bs mod 5 = 0 \<Longrightarrow> length (b32_quanta bs) = 8 * (length bs div 5)"
proof (induction bs rule: b32_quanta.induct)
  case (1 a b c d e bs)
  have "(length bs + 5) mod 5 = 0" using "1.prems" by simp
  then have "length bs mod 5 = 0" by simp
  with "1.IH" show ?case by (simp del: base_digits.simps)
qed (simp_all add: mod_less)

lemma strkey_length: "length raw = 32 \<Longrightarrow> length (strkey_bytes raw) = 35"
  by (simp add: strkey_bytes_def to_bytes_little2_def Let_def)

text \<open>Thirty-five bytes are seven quanta: no filling, nothing to strip.\<close>

lemma generated_is_quanta:
  assumes "length raw = 32"
  shows "generate_stellar_public_key raw = b32_quanta (strkey_bytes raw)"
proof -
  have "b32encode (strkey_bytes raw) = b32_quanta (strkey_bytes raw)"
    by (simp add: b32encode_def strkey_length [OF assms])
  moreover have "dropWhile (\<lambda>c. c = CHR ''='') (rev (b32_quanta bs)) = rev (b32_quanta bs)" for bs
    using b32_quanta_chars [of _ bs] by (cases "rev (b32_quanta bs)") (auto simp: rev_eq_Cons_iff)
  ultimately show ?thesis by (simp add: generate_stellar_public_key_def)
qed

lemma version_digit: "quantum [ACCOUNT_ID_VERSION_BYTE, b, c, d, e] div 32 ^ 7 = 6"
proof -
  have "unat b < 256" "unat c < 256" "unat d < 256" "unat e < 256"
    using unsigned_less [of b] unsigned_less [of c] unsigned_less [of d] unsigned_less [of e] by simp_all
  moreover have "unat ACCOUNT_ID_VERSION_BYTE = 48" by (simp add: ACCOUNT_ID_VERSION_BYTE_def)
  ultimately show ?thesis by (simp add: quantum_def)
qed

lemma hd_base_digits: "hd (base_digits b (Suc k) n) = n div b ^ k mod b"
proof (induction k arbitrary: n)
  case (Suc k)
  have "hd (base_digits b (Suc (Suc k)) n) = hd (base_digits b (Suc k) (n div b))"
    by (subst base_digits.simps) (simp add: hd_append del: base_digits.simps flip: length_0_conv)
  with Suc show ?case by (simp add: div_mult2_eq)
qed simp

lemma Suc_7: "Suc 7 = 8"
  by simp

lemma generated_head:
  assumes "length raw = 32"
  shows "hd (generate_stellar_public_key raw) = CHR ''G''"
proof -
  obtain b c d e bs where r: "raw = b # c # d # e # bs" using assms by (auto simp: numeral_eq_Suc length_Suc_conv)
  have "strkey_bytes raw = ACCOUNT_ID_VERSION_BYTE # b # c # d # e # (bs @ to_bytes_little2 (crc16_xmodem (ACCOUNT_ID_VERSION_BYTE # raw)))"
    by (simp add: strkey_bytes_def r Let_def)
  then have "hd (generate_stellar_public_key raw) = b32_char (hd (base_digits 32 8 (quantum [ACCOUNT_ID_VERSION_BYTE, b, c, d, e])))"
    unfolding generated_is_quanta [OF assms] by (simp add: hd_append hd_map del: base_digits.simps flip: length_0_conv)
  also have "hd (base_digits 32 8 (quantum [ACCOUNT_ID_VERSION_BYTE, b, c, d, e])) = 6"
    using hd_base_digits [of 32 7 "quantum [ACCOUNT_ID_VERSION_BYTE, b, c, d, e]"]
    unfolding version_digit Suc_7 by simp
  also have "b32_char 6 = CHR ''G''" by code_simp
  finally show ?thesis .
qed

lemma key_char_plain: "key_char c \<Longrightarrow> \<not> is_blank c \<and> upper_char c = c \<and> c \<noteq> CHR 0x0A"
  by (auto simp: key_char_def is_blank_def upper_char_def Let_def)

lemma key_matches:
  assumes "length s = 56" "hd s = CHR ''G''" "list_all key_char s"
  shows "stellar_public_key_re s"
proof -
  have n: "s \<noteq> []" using assms(1) by auto
  then have "last s \<noteq> CHR 0x0A" using assms(3) key_char_plain by (metis last_in_set list_all_iff)
  moreover have "list_all key_char (tl s)" using assms(3) n by (cases s) simp_all
  ultimately show ?thesis using assms(1,2) by (simp add: stellar_public_key_re_def)
qed

lemma normalize_key:
  assumes "length s = 56" "hd s = CHR ''G''" "list_all key_char s"
  shows "normalize_address s = Inr s"
proof -
  have n: "s \<noteq> []" using assms(1) by auto
  have k: "\<not> is_blank c" "upper_char c = c" "c \<noteq> CHR 0x0A" if "c \<in> set s" for c
    using assms(3) that key_char_plain by (auto simp: list_all_iff)
  have "dropWhile is_blank s = s" "dropWhile is_blank (rev s) = rev s"
    using k(1) n by (simp_all add: dropWhile_eq_self_iff hd_rev)
  then have "py_strip s = s" by (simp add: py_strip_def)
  moreover have "CHR 0xDF \<notin> set s" using assms(3) by (auto simp: list_all_iff key_char_def is_digit_def)
  then have "py_upper s = s" using k(2) by (simp add: py_upper_plain map_idI)
  moreover have "starts_with ''G'' s" using assms(2) n by (cases s) (simp_all add: starts_with_def)
  moreover have "stellar_public_key_re s" using assms by (rule key_matches)
  ultimately show ?thesis using assms(1) n by (simp add: normalize_address_def Let_def)
qed

text \<open>C26. For every 32-byte public key the generator gives an address that the normalizer returns unchanged, that the request model accepts, and whose last two bytes are the valid checksum of the rest.\<close>

theorem generated_address_is_valid:
  assumes "length raw = 32"
  shows "normalize_address (generate_stellar_public_key raw) = Inr (generate_stellar_public_key raw) \<and>
         validate_stellar_public_key (generate_stellar_public_key raw) \<and>
         has_valid_checksum [ACCOUNT_ID_VERSION_BYTE] raw (drop 33 (strkey_bytes raw))"
proof -
  let ?s = "generate_stellar_public_key raw"
  have l: "length ?s = 56" unfolding generated_is_quanta [OF assms] by (simp add: length_b32_quanta strkey_length [OF assms])
  have k: "list_all key_char ?s" unfolding generated_is_quanta [OF assms] list_all_iff using b32_quanta_chars by blast
  have "validate_stellar_public_key ?s"
    unfolding validate_stellar_public_key_def using l generated_head [OF assms] k by (rule key_matches)
  moreover have "drop 33 (strkey_bytes raw) = to_bytes_little2 (crc16_xmodem (ACCOUNT_ID_VERSION_BYTE # raw))"
    by (simp add: strkey_bytes_def Let_def assms)
  then have "has_valid_checksum [ACCOUNT_ID_VERSION_BYTE] raw (drop 33 (strkey_bytes raw))"
    by (simp add: has_valid_checksum_def from_to_bytes_little Let_def)
  ultimately show ?thesis using normalize_key [OF l generated_head [OF assms] k] by blast
qed

text \<open>The generated address determines the public key: two keys with the same address are equal.\<close>

theorem generated_address_determines_key:
  assumes "length raw = 32" "length raw' = 32" "generate_stellar_public_key raw = generate_stellar_public_key raw'"
  shows "raw = raw'"
proof -
  have "strkey_bytes raw = strkey_bytes raw'"
    using assms(3) unfolding generated_is_quanta [OF assms(1)] generated_is_quanta [OF assms(2)]
    by (intro b32_quanta_inj) (simp_all add: strkey_length assms)
  then show ?thesis by (simp add: strkey_bytes_def to_bytes_little2_def Let_def)
qed

text \<open>The key that the wallet registry builds from a UUID is never a valid address for the normalizer or for the link request.\<close>

theorem built_key_is_never_valid:
  assumes "length uuid_hex = 32" "list_all (\<lambda>c. hex_value c \<noteq> None) uuid_hex"
  shows "normalize_address (build_public_key uuid_hex) = Inl ValueError \<and> \<not> validate_stellar_public_key (build_public_key uuid_hex)"
proof -
  have l: "length (py_strip s) \<le> length s" for s
    unfolding py_strip_def length_rev using length_dropWhile_le le_trans by (metis length_rev)
  have "upper_char c \<noteq> CHR 0xDF" if "c \<noteq> CHR 0xDF" for c
  proof -
    have "of_char c \<noteq> (of_char CHR 0xDF :: nat)" using that unfolding of_char_eq_iff .
    then have "of_char (upper_char c) \<noteq> (of_char CHR 0xDF :: nat)" by (auto simp: upper_char_def Let_def simp del: of_char_eq_iff)
    then show ?thesis by auto
  qed
  moreover have "CHR 0xDF \<notin> set uuid_hex" using assms(2) by (auto simp: list_all_iff hex_value_def)
  ultimately have sharp: "CHR 0xDF \<notin> set uuid_hex" "CHR 0xDF \<notin> set (map upper_char uuid_hex)" by force+
  then have b: "build_public_key uuid_hex = CHR ''G'' # map upper_char uuid_hex"
    by (simp add: build_public_key_def py_upper_plain)
  have "set (py_strip t) \<subseteq> set t" for t unfolding py_strip_def by (auto dest!: set_dropWhileD)
  then have "set (py_strip (build_public_key uuid_hex)) \<subseteq> insert CHR ''G'' (set (map upper_char uuid_hex))"
    using b by (metis list.simps(15))
  with sharp(2) have "CHR 0xDF \<notin> set (py_strip (build_public_key uuid_hex))" by auto
  with l [of "build_public_key uuid_hex"] assms b have "length (py_upper (py_strip (build_public_key uuid_hex))) \<noteq> 56"
    by (simp add: py_upper_plain)
  moreover have "\<not> stellar_public_key_re (build_public_key uuid_hex)"
    using assms b by (auto simp: stellar_public_key_re_def Let_def)
  ultimately show ?thesis by (simp add: normalize_address_def validate_stellar_public_key_def Let_def)
qed

section \<open>Concrete runs\<close>

theorem checksum_detects_byte_errors_witness:
  "\<not> has_valid_checksum [48] [1, 3] (to_bytes_little2 (crc16_xmodem [48, 1, 2]))"
proof -
  have "has_valid_checksum [48] ([1] @ 2 # []) (to_bytes_little2 (crc16_xmodem [48, 1, 2]))"
    by (simp add: has_valid_checksum_def from_to_bytes_little)
  then have "\<not> has_valid_checksum [48] ([1] @ 3 # []) (to_bytes_little2 (crc16_xmodem [48, 1, 2]))"
    by (rule checksum_detects_byte_errors [rotated]) simp
  then show ?thesis by simp
qed

theorem generated_address_is_valid_witness:
  "normalize_address (generate_stellar_public_key (replicate 32 7)) = Inr (generate_stellar_public_key (replicate 32 7))"
  using generated_address_is_valid [of "replicate 32 7"] by simp

theorem generated_address_determines_key_witness:
  "generate_stellar_public_key (replicate 32 7) \<noteq> generate_stellar_public_key (replicate 32 8)"
  using generated_address_determines_key [of "replicate 32 7" "replicate 32 8"] by (auto simp: replicate_eq_replicate)

theorem built_key_is_never_valid_witness:
  "normalize_address (build_public_key ''0123456789abcdef0123456789abcdef'') = Inl ValueError"
  using built_key_is_never_valid [of "''0123456789abcdef0123456789abcdef''"] by (simp add: hex_value_def)

end
