(* ===== verification/Wallets.thy ===== *)
theory Wallets
  imports Stellar Caches Database "HOL-Library.Product_Lexorder"
begin

text \<open>
  Wallets: the repository \<^verbatim>\<open>app/repositories/wallet_repository.py\<close>, the registry service
  \<^verbatim>\<open>app/services/wallet_registry.py\<close> with its optional read-through cache, and the endpoints of
  \<^verbatim>\<open>app/api/v1/endpoints/wallets.py\<close>.  The registry calls a batch lookup that the repository does not define; it is an
  argument here, absent in the program as it is.
\<close>

section \<open>State\<close>

record wallet_row =
  wl_id :: nat
  wl_user_id :: str
  wl_public_key :: str
  wl_funded :: bool
  wl_active :: bool
  wl_trustline_ready :: bool
  wl_created_at :: time
  wl_last_updated :: time
  wl_cached_at :: "time option"

record wallet_state =
  wt_rows :: "wallet_row list"
  wt_next_id :: nat
  wt_cache :: redis_kv

text \<open>The cache argument of a registry call: lifetime, serialisation and whether Redis answers.\<close>

record wallet_cache =
  wq_ttl :: time
  wq_dumps :: "wallet_row \<Rightarrow> str"
  wq_loads :: "str \<Rightarrow> wallet_row option"
  wq_up :: bool

section \<open>Input validation\<close>

text \<open>The pattern \<open>^[\x20-\x7E]+$\<close> with \<open>re.match\<close>: a final newline is let through.\<close>

definition safe_input :: "string \<Rightarrow> bool" where
  "safe_input s \<longleftrightarrow>
     (let body = (if s \<noteq> [] \<and> last s = CHR 0x0A then butlast s else s) in
      body \<noteq> [] \<and> list_all (\<lambda>c. 32 \<le> (of_char c :: nat) \<and> of_char c \<le> (126 :: nat)) body)"

definition word_char :: "char \<Rightarrow> bool" where
  "word_char c \<longleftrightarrow> is_letter c \<or> is_digit c \<or> c = CHR ''_''"

definition sqli_keywords :: "string list" where
  "sqli_keywords = [''union'', ''select'', ''insert'', ''update'', ''delete'', ''drop'', ''alter'', ''exec'', ''execute'',
     ''declare'', ''cast'', ''convert'', ''xp_cmdshell'', ''waitfor'', ''sleep'']"

text \<open>A keyword with a word boundary on both sides; the left boundary is known to the caller.\<close>

definition keyword_here :: "string \<Rightarrow> string \<Rightarrow> bool" where
  "keyword_here s kw \<longleftrightarrow>
     starts_with kw (py_lower s) \<and> (case drop (length kw) s of [] \<Rightarrow> True | c # _ \<Rightarrow> \<not> word_char c)"

text \<open>\<open>'\s*or\s*'\<close> and \<open>'\s*and\s*'\<close>.\<close>

definition quoted_operator :: "string \<Rightarrow> string \<Rightarrow> bool" where
  "quoted_operator op s =
     (case s of
        [] \<Rightarrow> False
      | q # r \<Rightarrow>
          q = CHR 0x27 \<and>
          (let r1 = dropWhile is_blank r in
           starts_with op (py_lower r1) \<and>
           (case dropWhile is_blank (drop (length op) r1) of [] \<Rightarrow> False | c # _ \<Rightarrow> c = CHR 0x27)))"

fun sqli_search :: "bool \<Rightarrow> string \<Rightarrow> bool" where
  "sqli_search after_word [] = False"
| "sqli_search after_word (c # s) =
     (\<not> after_word \<and> list_ex (keyword_here (c # s)) sqli_keywords \<or>
      starts_with ''--'' (c # s) \<or> c = CHR '';'' \<or> starts_with ''/*'' (c # s) \<or> starts_with ''*/'' (c # s) \<or>
      quoted_operator ''or'' (c # s) \<or> quoted_operator ''and'' (c # s) \<or>
      sqli_search (word_char c) s)"

definition validate_input :: "str \<Rightarrow> exn + unit" where
  "validate_input value =
     (if value = [] then Inl ValueError
      else if \<not> safe_input value then Inl ValueError
      else if sqli_search False value then Inl ValueError
      else Inr ())"

section \<open>Repository\<close>

text \<open>An insert is refused by a unique column or by a column width.\<close>

definition insert_wallet :: "time \<Rightarrow> str \<Rightarrow> str \<Rightarrow> bool \<Rightarrow> bool \<Rightarrow> wallet_state \<Rightarrow> (wallet_row, wallet_state) outcome" where
  "insert_wallet t user_id public_key funded trustline_ready st =
     (let w = \<lparr>wl_id = wt_next_id st, wl_user_id = user_id, wl_public_key = public_key, wl_funded = funded, wl_active = True,
               wl_trustline_ready = trustline_ready, wl_created_at = t, wl_last_updated = t, wl_cached_at = Some t\<rparr>;
          st1 = st\<lparr>wt_next_id := wt_next_id st + 1\<rparr> in
      if length user_id > 255 \<or> length public_key > 56 then (Inl DataError, st1)
      else if list_ex (\<lambda>x. wl_user_id x = user_id \<or> wl_public_key x = public_key) (wt_rows st) then (Inl IntegrityError, st1)
      else (Inr w, st1\<lparr>wt_rows := wt_rows st @ [w]\<rparr>))"

definition wallet_create :: "time \<Rightarrow> str \<Rightarrow> str \<Rightarrow> bool \<Rightarrow> bool \<Rightarrow> wallet_state \<Rightarrow> (wallet_row, wallet_state) outcome" where
  "wallet_create t user_id public_key funded trustline_ready st =
     (case validate_input user_id of
        Inl e \<Rightarrow> (Inl e, st)
      | Inr _ \<Rightarrow>
          (case validate_input public_key of
             Inl e \<Rightarrow> (Inl e, st)
           | Inr _ \<Rightarrow> insert_wallet t user_id public_key funded trustline_ready st))"

definition wallet_by_user :: "str \<Rightarrow> wallet_state \<Rightarrow> exn + wallet_row option" where
  "wallet_by_user user_id st =
     (case validate_input user_id of Inl e \<Rightarrow> Inl e | Inr _ \<Rightarrow> Inr (find (\<lambda>w. wl_user_id w = user_id) (wt_rows st)))"

definition wallet_by_key :: "str \<Rightarrow> wallet_state \<Rightarrow> exn + wallet_row option" where
  "wallet_by_key public_key st =
     (case validate_input public_key of Inl e \<Rightarrow> Inl e | Inr _ \<Rightarrow> Inr (find (\<lambda>w. wl_public_key w = public_key) (wt_rows st)))"

record wallet_page =
  wp_items :: "wallet_row list"
  wp_total :: "nat option"
  wp_page :: nat
  wp_page_size :: nat

definition wallet_order :: "wallet_row list \<Rightarrow> wallet_row list" where
  "wallet_order ws = sort_key (\<lambda>w. (- wl_created_at w, wl_id w)) ws"

definition list_wallet_rows :: "nat \<Rightarrow> nat \<Rightarrow> bool \<Rightarrow> wallet_state \<Rightarrow> wallet_page" where
  "list_wallet_rows page page_size include_total st =
     (let items = page_slice page page_size (wallet_order (wt_rows st)) in
      \<lparr>wp_items = items,
       wp_total = (if include_total then Some (if items = [] then 0 else length (wt_rows st)) else None),
       wp_page = page, wp_page_size = page_size\<rparr>)"

definition on_wallet :: "(wallet_row \<Rightarrow> wallet_row) \<Rightarrow> wallet_row \<Rightarrow> wallet_state \<Rightarrow> wallet_row \<times> wallet_state" where
  "on_wallet f w st = (f w, st\<lparr>wt_rows := update_first (\<lambda>x. wl_id x = wl_id w) f (wt_rows st)\<rparr>)"

definition set_if :: "bool option \<Rightarrow> bool \<Rightarrow> bool" where
  "set_if v old = (case v of None \<Rightarrow> old | Some b \<Rightarrow> b)"

definition wallet_update ::
  "time \<Rightarrow> bool option \<Rightarrow> bool option \<Rightarrow> bool option \<Rightarrow> wallet_row \<Rightarrow> wallet_state \<Rightarrow> wallet_row \<times> wallet_state" where
  "wallet_update t funded trustline_ready active =
     on_wallet (\<lambda>w. w\<lparr>wl_funded := set_if funded (wl_funded w), wl_trustline_ready := set_if trustline_ready (wl_trustline_ready w),
                      wl_active := set_if active (wl_active w), wl_last_updated := t, wl_cached_at := Some t\<rparr>)"

definition touch_cache :: "time \<Rightarrow> wallet_row \<Rightarrow> wallet_state \<Rightarrow> wallet_row \<times> wallet_state" where
  "touch_cache t = on_wallet (\<lambda>w. w\<lparr>wl_cached_at := Some t\<rparr>)"

section \<open>Registry\<close>

definition cache_wallet :: "wallet_cache option \<Rightarrow> time \<Rightarrow> str \<Rightarrow> wallet_row \<Rightarrow> wallet_state \<Rightarrow> wallet_state" where
  "cache_wallet cache t key w st =
     (case cache of
        None \<Rightarrow> st
      | Some wq \<Rightarrow> st\<lparr>wt_cache := cached_set (wq_dumps wq) (wq_ttl wq) (wq_up wq) t (wallet_cache_key key) w (wt_cache st)\<rparr>)"

definition cached_wallet :: "wallet_cache option \<Rightarrow> time \<Rightarrow> str \<Rightarrow> wallet_state \<Rightarrow> wallet_row option" where
  "cached_wallet cache t key st =
     (case cache of
        None \<Rightarrow> None
      | Some wq \<Rightarrow> cached_get (wq_loads wq) (wq_up wq) t (wallet_cache_key key) (wt_cache st))"

text \<open>
  \<open>create_wallet\<close>: \<open>others\<close> is what concurrent requests commit between the check and the insert.
\<close>

definition create_wallet ::
  "wallet_cache option \<Rightarrow> (wallet_state \<Rightarrow> wallet_state) \<Rightarrow> time \<Rightarrow> str \<Rightarrow> str \<Rightarrow> wallet_state \<Rightarrow> (wallet_row, wallet_state) outcome" where
  "create_wallet cache others t uuid_hex user_id st =
     (case wallet_by_user user_id st of
        Inl e \<Rightarrow> (Inl e, st)
      | Inr (Some existing) \<Rightarrow> (Inl (ApexWalletAlreadyExistsError (wl_id existing)), st)
      | Inr None \<Rightarrow>
          (let public_key = build_public_key uuid_hex in
           case wallet_create t user_id public_key False False (others st) of
             (Inr w, st1) \<Rightarrow> (Inr w, cache_wallet cache t (''addr:'' @ public_key) w st1)
           | (Inl IntegrityError, st1) \<Rightarrow>
               (case wallet_by_user user_id st1 of
                  Inl e \<Rightarrow> (Inl e, st1)
                | Inr None \<Rightarrow> (Inl IntegrityError, st1)
                | Inr (Some winner) \<Rightarrow> (Inl (ApexWalletAlreadyExistsError (wl_id winner)), st1))
           | (Inl e, st1) \<Rightarrow> (Inl e, st1)))"

record link_request =
  lr_user_id :: str
  lr_public_key :: str
  lr_funded :: bool
  lr_trustline_ready :: bool

definition link_request_valid :: "link_request \<Rightarrow> bool" where
  "link_request_valid p \<longleftrightarrow> lr_user_id p \<noteq> [] \<and> length (lr_public_key p) \<ge> 2 \<and> validate_stellar_public_key (lr_public_key p)"

type_synonym batch_lookup = "str \<Rightarrow> str \<Rightarrow> wallet_state \<Rightarrow> wallet_row option \<times> wallet_row option"

definition link_wallet ::
  "batch_lookup option \<Rightarrow> wallet_cache option \<Rightarrow> time \<Rightarrow> link_request \<Rightarrow> wallet_state \<Rightarrow> (wallet_row, wallet_state) outcome" where
  "link_wallet lookup cache t p st =
     (case lookup of
        None \<Rightarrow> (Inl AttributeError, st)
      | Some get_by_user_id_or_public_key \<Rightarrow>
          (case get_by_user_id_or_public_key (lr_user_id p) (lr_public_key p) st of (by_user, by_address) \<Rightarrow>
             if (case by_user of None \<Rightarrow> False | Some w \<Rightarrow> wl_public_key w \<noteq> lr_public_key p) then (Inl ApexConflictError, st)
             else if (case by_address of None \<Rightarrow> False | Some w \<Rightarrow> wl_user_id w \<noteq> lr_user_id p) then (Inl ApexConflictError, st)
             else
               (case by_user of
                  Some w \<Rightarrow>
                    (case wallet_update t (Some (lr_funded p)) (Some (lr_trustline_ready p)) None w st of (w', st1) \<Rightarrow>
                       (Inr w', cache_wallet cache t (''addr:'' @ wl_public_key w') w' st1))
                | None \<Rightarrow>
                    (case wallet_create t (lr_user_id p) (lr_public_key p) (lr_funded p) (lr_trustline_ready p) st of
                       (Inl e, st1) \<Rightarrow> (Inl e, st1)
                     | (Inr w, st1) \<Rightarrow> (Inr w, cache_wallet cache t (''addr:'' @ wl_public_key w) w st1)))))"

definition fetch_wallet :: "wallet_cache option \<Rightarrow> time \<Rightarrow> str \<Rightarrow> wallet_state \<Rightarrow> (wallet_row option, wallet_state) outcome" where
  "fetch_wallet cache t user_id st =
     (let key = ''user:'' @ user_id in
      case cached_wallet cache t key st of
        Some w \<Rightarrow> (Inr (Some w), st)
      | None \<Rightarrow>
          (case wallet_by_user user_id st of
             Inl e \<Rightarrow> (Inl e, st)
           | Inr None \<Rightarrow> (Inr None, st)
           | Inr (Some w) \<Rightarrow> (Inr (Some w), cache_wallet cache t key w (snd (touch_cache t w st)))))"

definition fetch_by_address :: "wallet_cache option \<Rightarrow> time \<Rightarrow> str \<Rightarrow> wallet_state \<Rightarrow> (wallet_row option, wallet_state) outcome" where
  "fetch_by_address cache t address st =
     (let key = ''addr:'' @ address in
      case cached_wallet cache t key st of
        Some w \<Rightarrow> (Inr (Some w), st)
      | None \<Rightarrow>
          (case wallet_by_key address st of
             Inl e \<Rightarrow> (Inl e, st)
           | Inr None \<Rightarrow> (Inr None, st)
           | Inr (Some w) \<Rightarrow> (Inr (Some w), cache_wallet cache t key w st)))"

text \<open>A view of a fetched wallet; a missing wallet stays missing.\<close>

definition view_wallet :: "(wallet_row \<Rightarrow> 'a) \<Rightarrow> (wallet_row option, wallet_state) outcome \<Rightarrow> ('a option, wallet_state) outcome" where
  "view_wallet f r = (case r of (Inl e, st) \<Rightarrow> (Inl e, st) | (Inr w, st) \<Rightarrow> (Inr (map_option f w), st))"

record asset_balance =
  ab_balance :: str
  ab_asset_type :: str
  ab_asset_code :: "str option"
  ab_asset_issuer :: "str option"

definition balances_of :: "wallet_row \<Rightarrow> (str \<times> asset_balance) list" where
  "balances_of w =
     (''XLM'', \<lparr>ab_balance = (if wl_funded w then ''1.0000000'' else ''0.0000000''), ab_asset_type = ''native'',
               ab_asset_code = None, ab_asset_issuer = None\<rparr>) #
     (if wl_trustline_ready w
      then [(''USDC'', \<lparr>ab_balance = ''0.0000000'', ab_asset_type = ''credit_alphanum4'', ab_asset_code = Some ''USDC'',
                       ab_asset_issuer = Some ''TEST_ISSUER''\<rparr>)]
      else [])"

definition get_balance ::
  "wallet_cache option \<Rightarrow> time \<Rightarrow> str \<Rightarrow> wallet_state \<Rightarrow> ((str \<times> asset_balance) list option, wallet_state) outcome" where
  "get_balance cache t address st = view_wallet balances_of (fetch_by_address cache t address st)"

record wallet_status =
  wx_user_id :: str
  wx_public_key :: str
  wx_funded :: bool
  wx_trustline_ready :: bool
  wx_usable :: bool
  wx_active :: bool

definition status_of :: "wallet_row \<Rightarrow> wallet_status" where
  "status_of w =
     \<lparr>wx_user_id = wl_user_id w, wx_public_key = wl_public_key w, wx_funded = wl_funded w,
      wx_trustline_ready = wl_trustline_ready w, wx_usable = (wl_funded w \<and> wl_trustline_ready w \<and> wl_active w),
      wx_active = wl_active w\<rparr>"

definition get_status :: "wallet_cache option \<Rightarrow> time \<Rightarrow> str \<Rightarrow> wallet_state \<Rightarrow> (wallet_status option, wallet_state) outcome" where
  "get_status cache t user_id st = view_wallet status_of (fetch_wallet cache t user_id st)"

definition get_trustline :: "wallet_cache option \<Rightarrow> time \<Rightarrow> str \<Rightarrow> wallet_state \<Rightarrow> ((bool \<times> bool) option, wallet_state) outcome" where
  "get_trustline cache t user_id st =
     view_wallet (\<lambda>w. (wl_trustline_ready w, \<not> wl_trustline_ready w)) (fetch_wallet cache t user_id st)"

definition get_funding_state :: "wallet_cache option \<Rightarrow> time \<Rightarrow> str \<Rightarrow> wallet_state \<Rightarrow> ((bool \<times> bool) option, wallet_state) outcome" where
  "get_funding_state cache t user_id st =
     view_wallet (\<lambda>w. (wl_funded w, \<not> wl_funded w)) (fetch_wallet cache t user_id st)"

section \<open>Endpoints\<close>

text \<open>The handlers pass no cache.  A conflict is a 409; any other exception of the wrapped calls becomes a 500.\<close>

fun wrap_error :: "exn \<Rightarrow> exn" where
  "wrap_error (ApexWalletAlreadyExistsError i) = ApexWalletAlreadyExistsError i"
| "wrap_error ApexConflictError = ApexConflictError"
| "wrap_error e = HTTPError 500"

definition wrapped :: "('a, 's) outcome \<Rightarrow> ('a, 's) outcome" where
  "wrapped r = (case r of (Inl e, st) \<Rightarrow> (Inl (wrap_error e), st) | (Inr v, st) \<Rightarrow> (Inr v, st))"

definition create_wallet_endpoint ::
  "(wallet_state \<Rightarrow> wallet_state) \<Rightarrow> time \<Rightarrow> str \<Rightarrow> str \<Rightarrow> wallet_state \<Rightarrow> (wallet_row, wallet_state) outcome" where
  "create_wallet_endpoint others t uuid_hex user_id st =
     (if user_id = [] then (Inl (HTTPError 422), st) else wrapped (create_wallet None others t uuid_hex user_id st))"

definition link_wallet_endpoint ::
  "batch_lookup option \<Rightarrow> time \<Rightarrow> link_request \<Rightarrow> wallet_state \<Rightarrow> (wallet_row, wallet_state) outcome" where
  "link_wallet_endpoint lookup t p st =
     (if \<not> link_request_valid p then (Inl (HTTPError 422), st)
      else (case link_wallet lookup None t p st of
              (Inl ApexConflictError, st1) \<Rightarrow> (Inl (HTTPError 409), st1)
            | (Inl e, st1) \<Rightarrow> (Inl (HTTPError 500), st1)
            | (Inr w, st1) \<Rightarrow> (Inr w, st1)))"

definition list_wallets_endpoint :: "nat \<Rightarrow> nat \<Rightarrow> bool \<Rightarrow> wallet_state \<Rightarrow> exn + wallet_page" where
  "list_wallets_endpoint page page_size include_total st =
     (if page < 1 \<or> page_size < 1 \<or> page_size > 100 then Inl (HTTPError 422)
      else Inr (list_wallet_rows page page_size include_total st))"

definition or_404 :: "('a option, 's) outcome \<Rightarrow> ('a, 's) outcome" where
  "or_404 r = (case r of (Inl e, st) \<Rightarrow> (Inl e, st) | (Inr None, st) \<Rightarrow> (Inl (HTTPError 404), st) | (Inr (Some v), st) \<Rightarrow> (Inr v, st))"

definition get_wallet_endpoint :: "time \<Rightarrow> str \<Rightarrow> wallet_state \<Rightarrow> (wallet_row, wallet_state) outcome" where
  "get_wallet_endpoint t user_id st = or_404 (wrapped (fetch_wallet None t user_id st))"

definition get_wallet_status :: "time \<Rightarrow> str \<Rightarrow> wallet_state \<Rightarrow> (wallet_status, wallet_state) outcome" where
  "get_wallet_status t user_id st = or_404 (get_status None t user_id st)"

definition get_wallet_trustline :: "time \<Rightarrow> str \<Rightarrow> wallet_state \<Rightarrow> (bool \<times> bool, wallet_state) outcome" where
  "get_wallet_trustline t user_id st = or_404 (get_trustline None t user_id st)"

definition get_wallet_funding_state :: "time \<Rightarrow> str \<Rightarrow> wallet_state \<Rightarrow> (bool \<times> bool, wallet_state) outcome" where
  "get_wallet_funding_state t user_id st = or_404 (get_funding_state None t user_id st)"

definition get_wallet_balance :: "time \<Rightarrow> str \<Rightarrow> wallet_state \<Rightarrow> ((str \<times> asset_balance) list, wallet_state) outcome" where
  "get_wallet_balance t address st = or_404 (get_balance None t address st)"

definition wallet_health :: "bool \<Rightarrow> exn + str" where
  "wallet_health database_up = (if database_up then Inr ''ok'' else Inl (HTTPError 503))"

text \<open>\<open>fetch_wallet_balances\<close>: the live balances, or the fallback marked as simulated.\<close>

definition fetch_wallet_balances ::
  "(str \<Rightarrow> (str \<times> str) list option) \<Rightarrow> str \<Rightarrow> (str \<times> str) list \<Rightarrow> (str \<times> str) list \<times> bool" where
  "fetch_wallet_balances horizon public_key simulated_fallback =
     (case horizon public_key of
        Some balances \<Rightarrow> (foldl (\<lambda>d (k, v). AList.update k v d) [] balances, False)
      | None \<Rightarrow> (simulated_fallback, True))"

section \<open>The wallet table\<close>

definition wallets_ok :: "wallet_state \<Rightarrow> bool" where
  "wallets_ok st \<longleftrightarrow>
     distinct (map wl_id (wt_rows st)) \<and> distinct (map wl_user_id (wt_rows st)) \<and> distinct (map wl_public_key (wt_rows st)) \<and>
     (\<forall>w\<in>set (wt_rows st). wl_id w < wt_next_id st \<and> length (wl_public_key w) \<le> 56)"

text \<open>All requests; what runs between the check and the insert of a creation is again a sequence of requests.\<close>

inductive wallet_step :: "wallet_state \<Rightarrow> wallet_state \<Rightarrow> bool" where
  creating: "wallet_step st (snd (create_wallet cache others t uuid_hex user_id st))" if "wallet_step\<^sup>*\<^sup>* st (others st)"
| linking: "wallet_step st (snd (link_wallet lookup cache t p st))"
| fetching: "wallet_step st (snd (fetch_wallet cache t user_id st))"
| looking_up: "wallet_step st (snd (fetch_by_address cache t address st))"

lemma wallet_table_frame [simp]:
  "wt_rows (cache_wallet cache t k w st) = wt_rows st" "wt_next_id (cache_wallet cache t k w st) = wt_next_id st"
  by (simp_all add: cache_wallet_def split: option.split)

lemma wallets_ok_frame [simp]: "wallets_ok (cache_wallet cache t k w st) = wallets_ok st"
  by (simp add: wallets_ok_def)

lemma wallets_ok_on_wallet:
  assumes "\<And>x. wl_id (f x) = wl_id x" "\<And>x. wl_user_id (f x) = wl_user_id x" "\<And>x. wl_public_key (f x) = wl_public_key x"
  shows "wallets_ok (snd (on_wallet f w st)) = wallets_ok st"
proof -
  have k: "map g (update_first P f rs) = map g rs" if "\<And>x. g (f x) = g x" for g :: "wallet_row \<Rightarrow> 'b" and P rs
    using that by (induction rs) auto
  have "(\<forall>w\<in>set (update_first P f rs). wl_id w < n \<and> length (wl_public_key w) \<le> 56) =
        (\<forall>w\<in>set rs. wl_id w < n \<and> length (wl_public_key w) \<le> 56)" for P rs n
    by (induction rs) (simp_all add: assms)
  then show ?thesis by (simp add: on_wallet_def wallets_ok_def k assms)
qed

lemma insert_wallet_ok:
  assumes "wallets_ok st"
  shows "wallets_ok (snd (insert_wallet t u k f r st))"
proof -
  have n: "wl_id w \<noteq> wt_next_id st" if "w \<in> set (wt_rows st)" for w using assms that by (auto simp: wallets_ok_def)
  show ?thesis using assms n
    by (auto simp: insert_wallet_def wallets_ok_def Let_def list_ex_iff image_iff intro: less_SucI)
qed

lemma wallet_create_ok: "wallets_ok st \<Longrightarrow> wallets_ok (snd (wallet_create t u k f r st))"
  by (simp add: wallet_create_def insert_wallet_ok split: sum.split)

lemma create_wallet_ok:
  assumes "wallets_ok st" "wallets_ok (others st)"
  shows "wallets_ok (snd (create_wallet cache others t uuid_hex user_id st))"
proof -
  obtain r st1 where c: "wallet_create t user_id (build_public_key uuid_hex) False False (others st) = (r, st1)" by fastforce
  with wallet_create_ok [OF assms(2)] have "wallets_ok st1" by (metis snd_conv)
  with assms(1) show ?thesis by (simp add: create_wallet_def c Let_def split: sum.split option.split exn.split)
qed

lemma link_wallet_ok:
  assumes "wallets_ok st"
  shows "wallets_ok (snd (link_wallet lookup cache t p st))"
proof (cases lookup)
  case (Some l)
  obtain by_user by_address where l: "l (lr_user_id p) (lr_public_key p) st = (by_user, by_address)" by fastforce
  obtain r st1 where c: "wallet_create t (lr_user_id p) (lr_public_key p) (lr_funded p) (lr_trustline_ready p) st = (r, st1)" by fastforce
  with wallet_create_ok [OF assms] have ok: "wallets_ok st1" by (metis snd_conv)
  have u: "wallets_ok (snd (wallet_update t a b d w st))" for a b d w
    using assms by (simp add: wallet_update_def wallets_ok_on_wallet)
  show ?thesis
  proof (cases by_user)
    case None
    then show ?thesis using assms ok by (simp add: link_wallet_def Some l c split: sum.split)
  next
    case w: (Some w)
    then show ?thesis using assms u by (simp add: link_wallet_def Some l split_beta)
  qed
qed (simp add: link_wallet_def assms)

lemma fetch_wallet_ok: "wallets_ok st \<Longrightarrow> wallets_ok (snd (fetch_wallet cache t user_id st))"
  by (simp add: fetch_wallet_def touch_cache_def wallets_ok_on_wallet Let_def split: option.split sum.split)

lemma fetch_by_address_ok: "wallets_ok st \<Longrightarrow> wallets_ok (snd (fetch_by_address cache t address st))"
  by (simp add: fetch_by_address_def Let_def split: option.split sum.split)

lemma wallet_step_ok: "wallet_step st st' \<Longrightarrow> wallets_ok st \<Longrightarrow> wallets_ok st'"
proof (induction rule: wallet_step.induct)
  case (creating st others cache t uuid_hex user_id)
  from creating.IH have "wallets_ok (others st)"
    using creating.prems by (induction rule: rtranclp_induct) simp_all
  with creating.prems show ?case by (rule create_wallet_ok)
qed (simp_all add: link_wallet_ok fetch_wallet_ok fetch_by_address_ok)

text \<open>Whatever requests run and however they interleave between the check and the insert of a creation, no two wallets share an identifier, a user or a public key.\<close>

theorem wallets_stay_unique:
  assumes "wallet_step\<^sup>*\<^sup>* st st'" "wallets_ok st"
  shows "wallets_ok st'"
  using assms by (induction rule: rtranclp_induct) (blast intro: wallet_step_ok)+

section \<open>Registration\<close>

lemma insert_wallet_Inr:
  assumes "insert_wallet t u k f r st = (Inr w, st')"
  shows "wt_rows st' = wt_rows st @ [w]" "wl_user_id w = u" "wl_public_key w = k" "wl_id w = wt_next_id st" "wl_funded w = f"
    "wl_trustline_ready w = r" "\<forall>x\<in>set (wt_rows st). wl_user_id x \<noteq> u \<and> wl_public_key x \<noteq> k"
  using assms by (auto simp: insert_wallet_def Let_def list_ex_iff split: if_splits)

lemma wallet_create_Inr:
  assumes "wallet_create t u k f r st = (Inr w, st')"
  shows "insert_wallet t u k f r st = (Inr w, st')"
  using assms by (simp add: wallet_create_def split: sum.splits)

lemma wallet_create_rows_Inl: "wallet_create t u k f r st = (Inl e, st') \<Longrightarrow> wt_rows st' = wt_rows st"
  by (auto simp: wallet_create_def insert_wallet_def Let_def split: sum.splits if_splits)

lemma find_unique_row:
  assumes "distinct (map wl_user_id rs)" "find (\<lambda>w. wl_user_id w = u) rs = Some w"
  shows "filter (\<lambda>w. wl_user_id w = u) rs = [w]"
  using assms
proof (induction rs)
  case (Cons x rs)
  show ?case
  proof (cases "wl_user_id x = u")
    case True
    with Cons.prems have "u \<notin> wl_user_id ` set rs" by auto
    then have "filter (\<lambda>w. wl_user_id w = u) rs = []" by (auto simp: filter_empty_conv)
    with True Cons.prems(2) show ?thesis by simp
  qed (use Cons in simp)
qed simp

text \<open>How a creation ends: the user had a wallet, the insert went through, a concurrent request won, or something else failed.\<close>

lemma create_wallet_cases:
  fixes others st
  obtains (had) w where "find (\<lambda>w. wl_user_id w = u) (wt_rows st) = Some w"
      "create_wallet None others t uuid_hex u st = (Inl (ApexWalletAlreadyExistsError (wl_id w)), st)"
  | (won) w st1 where "create_wallet None others t uuid_hex u st = (Inr w, st1)"
      "insert_wallet t u (build_public_key uuid_hex) False False (others st) = (Inr w, st1)"
  | (lost) w st1 where "find (\<lambda>w. wl_user_id w = u) (wt_rows (others st)) = Some w" "wt_rows st1 = wt_rows (others st)"
      "create_wallet None others t uuid_hex u st = (Inl (ApexWalletAlreadyExistsError (wl_id w)), st1)"
  | (failed) e st1 where "create_wallet None others t uuid_hex u st = (Inl e, st1)" "\<And>i. e \<noteq> ApexWalletAlreadyExistsError i"
proof (cases "validate_input u")
  case (Inl e)
  then have "create_wallet None others t uuid_hex u st = (Inl e, st)" by (simp add: create_wallet_def wallet_by_user_def)
  moreover have "e = ValueError" using Inl by (auto simp: validate_input_def split: if_splits)
  ultimately show thesis using failed by blast
next
  case v: (Inr x)
  obtain c st1 where c: "wallet_create t u (build_public_key uuid_hex) False False (others st) = (c, st1)" by fastforce
  show thesis
  proof (cases "find (\<lambda>w. wl_user_id w = u) (wt_rows st)")
    case (Some w)
    with v had show thesis by (simp add: create_wallet_def wallet_by_user_def)
  next
    case None
    show thesis
    proof (cases c)
      case (Inr w)
      show thesis by (rule won) (use v None c Inr wallet_create_Inr in \<open>simp_all add: create_wallet_def wallet_by_user_def cache_wallet_def Let_def\<close>)
    next
      case (Inl e)
      have rows: "wt_rows st1 = wt_rows (others st)" using wallet_create_rows_Inl c Inl by blast
      have e: "e \<in> {ValueError, DataError, IntegrityError}"
        using c Inl by (auto simp: wallet_create_def insert_wallet_def validate_input_def Let_def split: sum.splits if_splits)
      show thesis
      proof (cases "\<exists>w. e = IntegrityError \<and> find (\<lambda>w. wl_user_id w = u) (wt_rows (others st)) = Some w")
        case True
        then obtain w where "e = IntegrityError" "find (\<lambda>w. wl_user_id w = u) (wt_rows (others st)) = Some w" by blast
        with v None c Inl rows show thesis by (intro lost [of w st1]) (simp_all add: create_wallet_def wallet_by_user_def Let_def)
      next
        case False
        then have "create_wallet None others t uuid_hex u st = (Inl e, st1)"
          using v None c Inl rows e by (cases "find (\<lambda>w. wl_user_id w = u) (wt_rows (others st))")
            (auto simp: create_wallet_def wallet_by_user_def Let_def)
        with e show thesis by (intro failed) auto
      qed
    qed
  qed
qed


text \<open>A user name that the input filter refuses is answered with status 500, not 422.\<close>

theorem refused_input_is_a_server_error:
  assumes "validate_input u = Inl e" "u \<noteq> []"
  shows "create_wallet_endpoint others t uuid_hex u st = (Inl (HTTPError 500), st)"
proof -
  have "e = ValueError" using assms(1) by (auto simp: validate_input_def split: if_splits)
  with assms show ?thesis by (simp add: create_wallet_endpoint_def wrapped_def create_wallet_def wallet_by_user_def)
qed

section \<open>Linking\<close>

text \<open>The link endpoint never links a wallet: a well-formed request is answered with status 500 and nothing changes, because the repository has no batch lookup.\<close>

theorem linking_never_succeeds:
  "link_wallet_endpoint None t p st = (Inl (HTTPError (if link_request_valid p then 500 else 422)), st)"
  by (simp add: link_wallet_endpoint_def link_wallet_def)

text \<open>The batch lookup the registry is written for: the rows under the user and under the address.\<close>

definition both_lookups :: batch_lookup where
  "both_lookups u k st = (find (\<lambda>w. wl_user_id w = u) (wt_rows st), find (\<lambda>w. wl_public_key w = k) (wt_rows st))"

lemma wallet_create_errors:
  "wallet_create t u k f r st = (Inl e, st') \<Longrightarrow> e \<in> {ValueError, DataError, IntegrityError}"
  by (auto simp: wallet_create_def insert_wallet_def validate_input_def Let_def split: sum.splits if_splits)

lemma find_by_key:
  assumes "distinct (map g rs)"
  shows "find (\<lambda>w. g w = k) rs = Some w \<longleftrightarrow> w \<in> set rs \<and> g w = k"
  using find_key_unique [OF assms, of w] by (auto dest: find_Some_set find_Some_P)

lemma case_find_by_key:
  "distinct (map g rs) \<Longrightarrow> (case find (\<lambda>w. g w = k) rs of None \<Rightarrow> False | Some w \<Rightarrow> Q w) \<longleftrightarrow> (\<exists>w\<in>set rs. g w = k \<and> Q w)"
  by (induction rs) (auto simp: image_iff)

lemma update_first_in: "find P rs = Some w \<Longrightarrow> f w \<in> set (update_first P f rs)"
  by (induction rs) (auto split: if_splits)

text \<open>With a lookup that finds the rows under the user and under the address, linking is a conflict exactly when some wallet matches one of the two but not the other, and a success stores the user, the address and the flags of the request.\<close>

theorem linking_rules_with_lookup:
  assumes ok: "wallets_ok st" and r: "link_wallet (Some both_lookups) cache t p st = (res, st')"
  shows "(res = Inl ApexConflictError \<longleftrightarrow>
           (\<exists>w\<in>set (wt_rows st). (wl_user_id w = lr_user_id p) \<noteq> (wl_public_key w = lr_public_key p))) \<and>
         (\<forall>w. res = Inr w \<longrightarrow> w \<in> set (wt_rows st') \<and> wl_user_id w = lr_user_id p \<and> wl_public_key w = lr_public_key p \<and>
            wl_funded w = lr_funded p \<and> wl_trustline_ready w = lr_trustline_ready p)"
proof -
  let ?u = "lr_user_id p" and ?k = "lr_public_key p"
  have d: "distinct (map wl_user_id (wt_rows st))" "distinct (map wl_public_key (wt_rows st))" "distinct (map wl_id (wt_rows st))"
    using ok by (simp_all add: wallets_ok_def)
  define cu where "cu = (case find (\<lambda>w. wl_user_id w = ?u) (wt_rows st) of None \<Rightarrow> False | Some w \<Rightarrow> wl_public_key w \<noteq> ?k)"
  define ca where "ca = (case find (\<lambda>w. wl_public_key w = ?k) (wt_rows st) of None \<Rightarrow> False | Some w \<Rightarrow> wl_user_id w \<noteq> ?u)"
  have cu: "cu \<longleftrightarrow> (\<exists>w\<in>set (wt_rows st). wl_user_id w = ?u \<and> wl_public_key w \<noteq> ?k)"
    unfolding cu_def by (rule case_find_by_key [OF d(1)])
  have ca: "ca \<longleftrightarrow> (\<exists>w\<in>set (wt_rows st). wl_public_key w = ?k \<and> wl_user_id w \<noteq> ?u)"
    unfolding ca_def by (rule case_find_by_key [OF d(2)])
  show ?thesis
  proof (cases "cu \<or> ca")
    case True
    then have "res = Inl ApexConflictError"
      using r unfolding link_wallet_def both_lookups_def option.case prod.case cu_def [symmetric] ca_def [symmetric]
      by (cases cu; cases ca) simp_all
    with True cu ca show ?thesis by auto
  next
    case False
    note e = r [unfolded link_wallet_def both_lookups_def option.case prod.case cu_def [symmetric] ca_def [symmetric]]
    have none: "\<not> (\<exists>w\<in>set (wt_rows st). (wl_user_id w = ?u) \<noteq> (wl_public_key w = ?k))" using False cu ca by auto
    show ?thesis
    proof (cases "find (\<lambda>w. wl_user_id w = ?u) (wt_rows st)")
      case None
      obtain c st1 where c: "wallet_create t ?u ?k (lr_funded p) (lr_trustline_ready p) st = (c, st1)" by fastforce
      with e None False have rc: "res = c \<and> wt_rows st' = wt_rows st1" by (auto split: sum.splits)
      show ?thesis
      proof (cases c)
        case (Inl x)
        with wallet_create_errors c rc none show ?thesis by fastforce
      next
        case (Inr w)
        with insert_wallet_Inr [OF wallet_create_Inr] c rc none show ?thesis by auto
      qed
    next
      case (Some w)
      then have w: "w \<in> set (wt_rows st)" "wl_user_id w = ?u" using find_by_key [OF d(1)] by blast+
      with none have "wl_public_key w = ?k" by blast
      moreover have "find (\<lambda>x. wl_id x = wl_id w) (wt_rows st) = Some w" by (rule find_key_unique [OF d(3) w(1)])
      ultimately show ?thesis using e Some False none w
        by (auto simp: wallet_update_def on_wallet_def set_if_def dest: update_first_in)
    qed
  qed
qed

section \<open>Listing\<close>

text \<open>A page of the wallet listing is the slice of the ordered table; its total is the number of wallets, but zero for a page past the end.\<close>

theorem wallet_pages:
  assumes "list_wallets_endpoint page n True st = Inr pg"
  shows "wp_items pg = page_slice page n (wallet_order (wt_rows st)) \<and>
         wp_total pg = Some (if (page - 1) * n < length (wt_rows st) then length (wt_rows st) else 0)"
proof -
  have n: "0 < n" and e: "pg = list_wallet_rows page n True st"
    using assms by (auto simp: list_wallets_endpoint_def split: if_splits)
  show ?thesis using n unfolding e
    by (auto simp: list_wallet_rows_def Let_def page_slice_def wallet_order_def)
qed

section \<open>Concrete runs\<close>

definition sample_wallets :: wallet_state where
  "sample_wallets = \<lparr>wt_rows = [], wt_next_id = 1, wt_cache = []\<rparr>"

abbreviation sample_uuid_hex :: str where "sample_uuid_hex \<equiv> ''0f''"

abbreviation sample_wallet_created :: wallet_state where
  "sample_wallet_created \<equiv> snd (create_wallet None (\<lambda>s. s) 5 sample_uuid_hex ''alice'' sample_wallets)"

lemma sample_wallets_ok: "wallets_ok sample_wallets"
  by (simp add: wallets_ok_def sample_wallets_def)

lemma sample_wallet_creation: "\<exists>w. fst (create_wallet None (\<lambda>s. s) 5 sample_uuid_hex ''alice'' sample_wallets) = Inr w"
proof -
  have "case fst (create_wallet None (\<lambda>s. s) 5 sample_uuid_hex ''alice'' sample_wallets) of Inl _ \<Rightarrow> False | Inr _ \<Rightarrow> True" by code_simp
  then show ?thesis by (auto split: sum.splits)
qed

theorem wallets_stay_unique_witness: "wallets_ok sample_wallet_created"
  by (rule wallets_stay_unique [OF r_into_rtranclp sample_wallets_ok], rule wallet_step.creating) simp


theorem refused_input_is_a_server_error_witness:
  "create_wallet_endpoint (\<lambda>s. s) 5 sample_uuid_hex ''drop table'' sample_wallets = (Inl (HTTPError 500), sample_wallets)"
proof -
  have "validate_input ''drop table'' = Inl ValueError" by code_simp
  then show ?thesis by (rule refused_input_is_a_server_error) simp
qed

theorem linking_rules_with_lookup_witness:
  "\<forall>res st'. link_wallet (Some both_lookups) None 9
      \<lparr>lr_user_id = ''alice'', lr_public_key = ''GB'', lr_funded = True, lr_trustline_ready = True\<rparr> sample_wallets = (res, st') \<longrightarrow>
      res \<noteq> Inl ApexConflictError"
  using linking_rules_with_lookup [OF sample_wallets_ok] by (simp add: sample_wallets_def)

theorem wallet_pages_witness:
  "wp_total (list_wallet_rows 2 20 True sample_wallet_created) = Some 0 \<and> length (wt_rows sample_wallet_created) = 1"
proof -
  have e: "list_wallets_endpoint 2 20 True sample_wallet_created = Inr (list_wallet_rows 2 20 True sample_wallet_created)"
    by (simp add: list_wallets_endpoint_def)
  have l: "length (wt_rows sample_wallet_created) = 1" by code_simp
  from wallet_pages [OF e] show ?thesis by (simp add: l)
qed

end
