(* ===== verification/Values.thy ===== *)
theory Values
  imports Strings
begin

text \<open>
  Dynamically typed Python values as they come out of a JSON decoder or an injected callable: dictionaries keep
  insertion order and may have keys of any type, floats may be infinite or not a number, and \<open>POther\<close> stands for an
  object of a type outside this list.  With them the conversions the pollers use: \<open>int(x)\<close>, compact \<open>json.dumps\<close>,
  the UTF-8 length of its output, and the traversal of a list by a function that may raise.
\<close>

datatype pyfloat = Finite rat | PosInf | NegInf | NaN

datatype pyval =
    PNone | PBool bool | PInt int | PFloat pyfloat | PStr str
  | PList "pyval list" | PTuple "pyval list" | PDict "(pyval \<times> pyval) list" | POther

text \<open>\<open>d.get(k)\<close> for a string key; \<open>None\<close> of the model is the absent key.\<close>

definition dict_get :: "(pyval \<times> pyval) list \<Rightarrow> str \<Rightarrow> pyval option" where
  "dict_get d k = map_of d (PStr k)"

text \<open>\<open>d[k] = v\<close>: an existing key keeps its place.\<close>

fun dict_set :: "'k \<Rightarrow> 'v \<Rightarrow> ('k \<times> 'v) list \<Rightarrow> ('k \<times> 'v) list" where
  "dict_set k v [] = [(k, v)]"
| "dict_set k v (p # ps) = (if fst p = k then (k, v) # ps else p # dict_set k v ps)"

text \<open>The loop \<open>[f(x) for x in xs]\<close> for a function that may raise: the first exception ends it.\<close>

fun traverse :: "('a \<Rightarrow> 'e + 'b) \<Rightarrow> 'a list \<Rightarrow> 'e + 'b list" where
  "traverse f [] = Inr []"
| "traverse f (x # xs) =
     (case f x of Inl e \<Rightarrow> Inl e | Inr y \<Rightarrow> (case traverse f xs of Inl e \<Rightarrow> Inl e | Inr ys \<Rightarrow> Inr (y # ys)))"

lemma traverse_cong [fundef_cong]:
  "xs = ys \<Longrightarrow> (\<And>x. x \<in> set ys \<Longrightarrow> f x = g x) \<Longrightarrow> traverse f xs = traverse g ys"
  by (induction ys arbitrary: xs) (auto split: sum.splits)

section \<open>Integers\<close>

text \<open>Python refuses to convert between integers and decimal strings beyond this many digits.\<close>

definition MAX_STR_DIGITS :: nat where "MAX_STR_DIGITS = 4300"

text \<open>Digits with single underscores between them; the result drops the underscores.\<close>

fun digit_groups :: "string \<Rightarrow> string option" where
  "digit_groups [] = None"
| "digit_groups [c] = (if is_digit c then Some [c] else None)"
| "digit_groups (c # d # s) =
     (if \<not> is_digit c then None
      else map_option (Cons c) (digit_groups (if d = CHR ''_'' then s else d # s)))"

text \<open>\<open>int(s)\<close> of a string: surrounding blanks, one sign, digits.\<close>

definition int_space :: "char \<Rightarrow> bool" where
  "int_space c \<longleftrightarrow> (let n = (of_char c :: nat) in 9 \<le> n \<and> n \<le> 13 \<or> n = 32 \<or> n = 133 \<or> n = 160)"

definition unsigned_int :: "string \<Rightarrow> exn + int" where
  "unsigned_int s =
     (case digit_groups s of
        None \<Rightarrow> Inl ValueError
      | Some ds \<Rightarrow> if length ds > MAX_STR_DIGITS then Inl ValueError else Inr (int (decimal_value ds)))"

definition py_int_str :: "string \<Rightarrow> exn + int" where
  "py_int_str s =
     (case rev (dropWhile int_space (rev (dropWhile int_space s))) of
        [] \<Rightarrow> Inl ValueError
      | c # cs \<Rightarrow>
          if c = CHR ''-'' then map_sum id uminus (unsigned_int cs)
          else if c = CHR ''+'' then unsigned_int cs
          else unsigned_int (c # cs))"

text \<open>\<open>int(x)\<close>: floats are cut towards zero.\<close>

fun py_int :: "pyval \<Rightarrow> exn + int" where
  "py_int (PBool b) = Inr (of_bool b)"
| "py_int (PInt i) = Inr i"
| "py_int (PFloat (Finite q)) = Inr (if q < 0 then - \<lfloor>- q\<rfloor> else \<lfloor>q\<rfloor>)"
| "py_int (PFloat NaN) = Inl ValueError"
| "py_int (PFloat _) = Inl OverflowError"
| "py_int (PStr s) = py_int_str s"
| "py_int _ = Inl TypeError"

section \<open>Compact JSON\<close>

definition dumps_int :: "int \<Rightarrow> string option" where
  "dumps_int i = (let s = py_str_int i in if length (digits_of (nat \<bar>i\<bar>)) > MAX_STR_DIGITS then None else Some s)"

fun dumps_float :: "(rat \<Rightarrow> string) \<Rightarrow> pyfloat \<Rightarrow> string" where
  "dumps_float rp (Finite q) = rp q"
| "dumps_float rp PosInf = ''Infinity''"
| "dumps_float rp NegInf = ''-Infinity''"
| "dumps_float rp NaN = ''NaN''"

text \<open>Keys: strings as they are, numbers, booleans and \<open>None\<close> by their literal; any other key is a \<open>TypeError\<close>.\<close>

fun dumps_key :: "(rat \<Rightarrow> string) \<Rightarrow> pyval \<Rightarrow> string option" where
  "dumps_key rp (PStr s) = Some (json_string s)"
| "dumps_key rp (PInt i) = map_option json_string (dumps_int i)"
| "dumps_key rp (PBool b) = Some (json_string (if b then ''true'' else ''false''))"
| "dumps_key rp PNone = Some (json_string ''null'')"
| "dumps_key rp (PFloat f) = Some (json_string (dumps_float rp f))"
| "dumps_key rp _ = None"

text \<open>The parts joined by commas, when all of them could be rendered.\<close>

fun join_commas :: "string option list \<Rightarrow> string option" where
  "join_commas [] = Some []"
| "join_commas [p] = p"
| "join_commas (p # q # ps) =
     (case (p, join_commas (q # ps)) of (Some a, Some b) \<Rightarrow> Some (a @ CHR '','' # b) | _ \<Rightarrow> None)"

lemma size_dict_value: "(k, x) \<in> set kvs \<Longrightarrow> size x < Suc (size_list (size_prod size size) kvs)"
  by (induction kvs) auto

lemma size_list_value: "x \<in> set xs \<Longrightarrow> size (x :: pyval) < Suc (size_list size xs)"
  by (induction xs) auto

text \<open>
  \<open>json.dumps(v, separators=(",", ":"), ensure_ascii=False)\<close>; the shortest decimal form of a float is \<open>rp\<close>.
  \<open>None\<close> is a \<open>TypeError\<close> or a \<open>ValueError\<close>.
\<close>

function dumps :: "(rat \<Rightarrow> string) \<Rightarrow> pyval \<Rightarrow> string option" where
  "dumps rp PNone = Some ''null''"
| "dumps rp (PBool b) = Some (if b then ''true'' else ''false'')"
| "dumps rp (PInt i) = dumps_int i"
| "dumps rp (PFloat f) = Some (dumps_float rp f)"
| "dumps rp (PStr s) = Some (json_string s)"
| "dumps rp (PList xs) = map_option (\<lambda>b. ''['' @ b @ '']'') (join_commas (map (\<lambda>x. dumps rp x) xs))"
| "dumps rp (PTuple xs) = map_option (\<lambda>b. ''['' @ b @ '']'') (join_commas (map (\<lambda>x. dumps rp x) xs))"
| "dumps rp (PDict kvs) =
     map_option (\<lambda>b. [CHR 0x7B] @ b @ [CHR 0x7D])
       (join_commas (map (\<lambda>(k, x).
          (case (dumps_key rp k, dumps rp x) of (Some a, Some b) \<Rightarrow> Some (a @ CHR '':'' # b) | _ \<Rightarrow> None)) kvs))"
| "dumps rp POther = None"
  by pat_completeness auto
termination
  by (relation "measure (\<lambda>(rp, v). size v)") (auto dest: size_list_value size_dict_value)

definition utf8_length :: "string \<Rightarrow> nat" where
  "utf8_length s = sum_list (map (\<lambda>c. if (of_char c :: nat) < 128 then 1 else 2) s)"

section \<open>Facts\<close>

lemma length_digits_of: "n < 10 ^ k \<Longrightarrow> 0 < k \<Longrightarrow> length (digits_of n) \<le> k"
proof (induction k arbitrary: n)
  case (Suc k)
  show ?case
  proof (cases "n < 10")
    case True
    then show ?thesis by (simp add: digits_of.simps [of n])
  next
    case False
    then have "0 < k" using Suc.prems by (cases k) auto
    moreover have "n div 10 < 10 ^ k" using Suc.prems(1) by (simp add: div_less_iff_less_mult mult.commute)
    ultimately show ?thesis using False Suc.IH by (simp add: digits_of.simps [of n])
  qed
qed simp

lemma traverse_Inr_length: "traverse f xs = Inr ys \<Longrightarrow> length ys = length xs"
  by (induction xs arbitrary: ys) (auto split: sum.splits)

lemma traverse_Inr_set: "traverse f xs = Inr ys \<Longrightarrow> y \<in> set ys \<Longrightarrow> \<exists>x \<in> set xs. f x = Inr y"
  by (induction xs arbitrary: ys) (auto split: sum.splits)

lemma traverse_Inr_all: "traverse f xs = Inr ys \<Longrightarrow> x \<in> set xs \<Longrightarrow> \<exists>y \<in> set ys. f x = Inr y"
  by (induction xs arbitrary: ys) (auto split: sum.splits)

lemma traverse_Inl: "traverse f xs = Inl e \<Longrightarrow> \<exists>x \<in> set xs. f x = Inl e"
  by (induction xs) (auto split: sum.splits)

lemma traverse_fixed: "\<forall>x \<in> set xs. f x = Inr x \<Longrightarrow> traverse f xs = Inr xs"
  by (induction xs) auto

lemma dict_set_get [simp]: "map_of (dict_set k v d) k' = (if k' = k then Some v else map_of d k')"
  by (induction d) auto

lemma dict_set_keys: "fst ` set (dict_set k v d) = insert k (fst ` set d)"
  by (induction d) auto

lemma dict_set_member: "p \<in> set (dict_set k v d) \<Longrightarrow> p = (k, v) \<or> p \<in> set d"
  by (induction d) (auto split: if_splits)

lemma dict_set_distinct: "distinct (map fst d) \<Longrightarrow> distinct (map fst (dict_set k v d))"
  by (induction d) (auto simp: dict_set_keys)

lemma dict_set_length: "length (dict_set k v d) \<le> Suc (length d)"
  by (induction d) auto

lemma dict_set_same: "map_of d k = Some v \<Longrightarrow> dict_set k v d = d"
  by (induction d) (auto split: if_splits)

end
