(* ===== verification/Block_Poller.thy ===== *)
theory Block_Poller
  imports Values
begin

text \<open>
  \<^verbatim>\<open>services/block_poller.py\<close>: the Horizon ledger source and the resumable poller.  The HTTP client, an injected source and
  the handler are arguments; source and handler thread a state of the world of arbitrary type, so that their effects and
  their answers may change from call to call.  The delays handed to \<open>sleep\<close> are part of the result of a fetch.
\<close>

section \<open>Blocks and the Horizon source\<close>

record block =
  bk_cursor :: str
  bk_height :: int
  bk_payload :: pyval

definition HORIZON_MAX_LEDGERS_PER_PAGE :: int where "HORIZON_MAX_LEDGERS_PER_PAGE = 200"

definition make_block :: "str \<Rightarrow> int \<Rightarrow> pyval \<Rightarrow> exn + block" where
  "make_block c h p =
     (if c = [] then Inl ValueError
      else if h < 0 then Inl ValueError
      else Inr \<lparr>bk_cursor = c, bk_height = h, bk_payload = p\<rparr>)"

definition horizon_source_valid :: "str \<Rightarrow> rat \<Rightarrow> bool" where
  "horizon_source_valid base_url timeout_seconds \<longleftrightarrow>
     py_strip base_url \<noteq> [] \<and> contains_str ''://'' base_url \<and> timeout_seconds > 0"

text \<open>What the HTTP client gives back: a transport error, or a status with the decoded body, if it is JSON.\<close>

datatype http_reply = TransportError | HttpReply int "pyval option"

definition horizon_request :: "str \<Rightarrow> str option \<Rightarrow> int \<Rightarrow> str \<times> (str \<times> str) list" where
  "horizon_request base_url c l =
     (rstrip_char (CHR ''/'') base_url @ ''/ledgers'',
      [(''order'', ''asc''), (''limit'', py_str_int l)] @ (case c of None \<Rightarrow> [] | Some v \<Rightarrow> [(''cursor'', v)]))"

text \<open>\<open>record.get(\<dots>)\<close> on the value of a dictionary key, with the tests of one ledger record.\<close>

definition parse_height :: "pyval option \<Rightarrow> exn + int" where
  "parse_height v =
     (case v of
        Some (PBool _) \<Rightarrow> Inl (BlockFetchError False)
      | _ \<Rightarrow>
          (case py_int (case v of None \<Rightarrow> PNone | Some x \<Rightarrow> x) of
             Inr h \<Rightarrow> Inr h
           | Inl e \<Rightarrow> Inl (if e \<in> {TypeError, ValueError} then BlockFetchError False else e)))"

fun parse_record :: "pyval \<Rightarrow> exn + block" where
  "parse_record (PDict d) =
     (case dict_get d ''paging_token'' of
        Some (PStr c) \<Rightarrow>
          if c = [] then Inl (BlockFetchError False)
          else (case parse_height (dict_get d ''sequence'') of
                  Inl e \<Rightarrow> Inl e
                | Inr h \<Rightarrow> make_block c h (PDict d))
      | _ \<Rightarrow> Inl (BlockFetchError False))"
| "parse_record _ = Inl (BlockFetchError False)"

definition parse_body :: "pyval option \<Rightarrow> exn + block list" where
  "parse_body body =
     (case body of
        Some (PDict d) \<Rightarrow>
          (case dict_get d ''_embedded'' of
             Some (PDict e) \<Rightarrow>
               (case dict_get e ''records'' of
                  Some (PList rs) \<Rightarrow> traverse parse_record rs
                | _ \<Rightarrow> Inl (BlockFetchError False))
           | _ \<Rightarrow> Inl (BlockFetchError False))
      | _ \<Rightarrow> Inl (BlockFetchError False))"

definition fetch_blocks ::
  "str \<Rightarrow> (str \<times> (str \<times> str) list \<Rightarrow> 'w \<Rightarrow> http_reply \<times> 'w) \<Rightarrow> str option \<Rightarrow> int \<Rightarrow> 'w \<Rightarrow> (exn + block list) \<times> 'w" where
  "fetch_blocks base_url client c l w =
     (if \<not> (1 \<le> l \<and> l \<le> HORIZON_MAX_LEDGERS_PER_PAGE) then (Inl ValueError, w)
      else case client (horizon_request base_url c l) w of
        (TransportError, w1) \<Rightarrow> (Inl (BlockFetchError True), w1)
      | (HttpReply status body, w1) \<Rightarrow>
          (if status = 408 \<or> status = 429 \<or> status \<ge> 500 then Inl (BlockFetchError True)
           else if status \<ge> 400 then Inl (BlockFetchError False)
           else parse_body body, w1))"

section \<open>The poller\<close>

text \<open>What an injected source returns: a sequence, whose items may be blocks or anything else, or no sequence at all.\<close>

datatype raw_blocks = Items "block option list" | NotASequence

type_synonym 'w block_source = "str option \<Rightarrow> int \<Rightarrow> 'w \<Rightarrow> (exn + raw_blocks) \<times> 'w"
type_synonym 'w block_handler = "block \<Rightarrow> 'w \<Rightarrow> (exn + unit) \<times> 'w"

text \<open>The Horizon source as a source: it returns a list of blocks.\<close>

definition horizon_source ::
  "str \<Rightarrow> (str \<times> (str \<times> str) list \<Rightarrow> 'w \<Rightarrow> http_reply \<times> 'w) \<Rightarrow> 'w block_source" where
  "horizon_source base_url client c l w =
     (case fetch_blocks base_url client c l w of (r, w1) \<Rightarrow> (map_sum id (\<lambda>bs. Items (map Some bs)) r, w1))"

record poller_cfg =
  pc_poll_interval :: rat
  pc_batch_size :: int
  pc_max_attempts :: nat
  pc_base_delay :: rat
  pc_max_delay :: rat

definition poller_cfg_valid :: "poller_cfg \<Rightarrow> bool" where
  "poller_cfg_valid cfg \<longleftrightarrow>
     pc_poll_interval cfg > 0 \<and> 1 \<le> pc_batch_size cfg \<and> pc_batch_size cfg \<le> HORIZON_MAX_LEDGERS_PER_PAGE \<and>
     pc_max_attempts cfg \<ge> 1 \<and> pc_base_delay cfg \<ge> 0 \<and> pc_max_delay cfg \<ge> pc_base_delay cfg"

record poller =
  po_cursor :: "str option"
  po_running :: bool
  po_last_poll_at :: "time option"
  po_last_success_at :: "time option"
  po_last_error :: "exn option"
  po_consecutive_failures :: nat

definition new_poller :: "str option \<Rightarrow> poller" where
  "new_poller c = \<lparr>po_cursor = c, po_running = False, po_last_poll_at = None, po_last_success_at = None,
     po_last_error = None, po_consecutive_failures = 0\<rparr>"

datatype health_status = Starting | Healthy | Degraded | Unhealthy

definition health :: "poller_cfg \<Rightarrow> poller \<Rightarrow> health_status" where
  "health cfg p =
     (if po_last_error p \<noteq> None
      then (if po_consecutive_failures p \<ge> pc_max_attempts cfg then Unhealthy else Degraded)
      else if po_last_success_at p \<noteq> None then Healthy
      else Starting)"

definition record_poll_failure :: "time \<Rightarrow> exn \<Rightarrow> poller \<Rightarrow> poller" where
  "record_poll_failure t e p = p\<lparr>po_last_poll_at := Some t, po_last_error := Some e,
     po_consecutive_failures := Suc (po_consecutive_failures p)\<rparr>"

definition validate_blocks :: "raw_blocks \<Rightarrow> exn + block list" where
  "validate_blocks raw =
     (case raw of
        NotASequence \<Rightarrow> Inl (BlockFetchError False)
      | Items xs \<Rightarrow> traverse (\<lambda>x. case x of None \<Rightarrow> Inl (BlockFetchError False) | Some b \<Rightarrow> Inr b) xs)"

text \<open>A fetch error stays what it is; anything else an injected source raises counts as transient.\<close>

fun as_fetch_error :: "exn \<Rightarrow> exn" where
  "as_fetch_error (BlockFetchError r) = BlockFetchError r"
| "as_fetch_error _ = BlockFetchError True"

definition try_fetch :: "'w block_source \<Rightarrow> poller_cfg \<Rightarrow> str option \<Rightarrow> 'w \<Rightarrow> (exn + block list) \<times> 'w" where
  "try_fetch source cfg c w =
     (case source c (pc_batch_size cfg) w of
        (Inl e, w1) \<Rightarrow> (Inl (as_fetch_error e), w1)
      | (Inr raw, w1) \<Rightarrow> (validate_blocks raw, w1))"

definition retry_delay :: "poller_cfg \<Rightarrow> nat \<Rightarrow> rat" where
  "retry_delay cfg attempt = min (pc_base_delay cfg * 2 ^ (attempt - 1)) (pc_max_delay cfg)"

text \<open>The loop of \<open>_fetch_with_retry\<close> from one attempt on: the blocks and the number of attempts, the delays slept.\<close>

function fetch_from ::
  "'w block_source \<Rightarrow> poller_cfg \<Rightarrow> str option \<Rightarrow> nat \<Rightarrow> 'w \<Rightarrow> (exn + block list \<times> nat) \<times> rat list \<times> 'w" where
  "fetch_from source cfg c attempt w =
     (case try_fetch source cfg c w of
        (Inr bs, w1) \<Rightarrow> (Inr (bs, attempt), [], w1)
      | (Inl e, w1) \<Rightarrow>
          if e \<noteq> BlockFetchError True \<or> attempt \<ge> pc_max_attempts cfg then (Inl e, [], w1)
          else (case fetch_from source cfg c (Suc attempt) w1 of
                  (r, ds, w2) \<Rightarrow> (r, retry_delay cfg attempt # ds, w2)))"
  by pat_completeness auto
termination
  by (relation "measure (\<lambda>(source, cfg, c, attempt, w). pc_max_attempts cfg - attempt)") auto

declare fetch_from.simps [simp del]

definition fetch_with_retry ::
  "'w block_source \<Rightarrow> poller_cfg \<Rightarrow> str option \<Rightarrow> 'w \<Rightarrow> (exn + block list \<times> nat) \<times> rat list \<times> 'w" where
  "fetch_with_retry source cfg c w = fetch_from source cfg c 1 w"

record poll_result =
  pr_blocks_processed :: nat
  pr_cursor :: "str option"
  pr_latest_height :: "int option"
  pr_attempts :: nat
  pr_started_at :: time
  pr_completed_at :: time

text \<open>The loop over one page: the cursor follows the blocks whose handler succeeded.\<close>

fun process_blocks ::
  "'w block_handler option \<Rightarrow> time \<Rightarrow> block list \<Rightarrow> nat \<Rightarrow> int option \<Rightarrow> poller \<Rightarrow> 'w
    \<Rightarrow> (exn + nat \<times> int option) \<times> poller \<times> 'w" where
  "process_blocks handler t [] n h p w = (Inr (n, h), p, w)"
| "process_blocks handler t (b # bs) n h p w =
     (case (case handler of None \<Rightarrow> (Inr (), w) | Some f \<Rightarrow> f b w) of
        (Inl e, w1) \<Rightarrow>
          (Inl (BlockHandlerError (bk_height b)), record_poll_failure t (BlockHandlerError (bk_height b)) p, w1)
      | (Inr u, w1) \<Rightarrow>
          process_blocks handler t bs (Suc n) (Some (bk_height b)) (p\<lparr>po_cursor := Some (bk_cursor b)\<rparr>) w1)"

text \<open>One poll, started at \<open>t0\<close> and completed, or failed, at \<open>t1\<close>.\<close>

definition poll_once ::
  "'w block_source \<Rightarrow> 'w block_handler option \<Rightarrow> poller_cfg \<Rightarrow> time \<Rightarrow> time \<Rightarrow> poller \<Rightarrow> 'w
    \<Rightarrow> (exn + poll_result) \<times> poller \<times> 'w" where
  "poll_once source handler cfg t0 t1 p w =
     (case fetch_with_retry source cfg (po_cursor p) w of
        (Inl e, ds, w1) \<Rightarrow> (Inl e, record_poll_failure t1 e p, w1)
      | (Inr (bs, attempts), ds, w1) \<Rightarrow>
          (case process_blocks handler t1 bs 0 None p w1 of
             (Inl e, p1, w2) \<Rightarrow> (Inl e, p1, w2)
           | (Inr (n, h), p1, w2) \<Rightarrow>
               (let p2 = p1\<lparr>po_last_poll_at := Some t1, po_last_success_at := Some t1,
                            po_consecutive_failures := 0, po_last_error := None\<rparr>
                in (Inr \<lparr>pr_blocks_processed = n, pr_cursor = po_cursor p2, pr_latest_height = h,
                         pr_attempts = attempts, pr_started_at = t0, pr_completed_at = t1\<rparr>, p2, w2))))"

text \<open>
  \<open>run\<close> for the clock readings of the polls that happen before the stop event is set; errors of a poll are recorded by it
  and swallowed here.
\<close>

fun run_polls ::
  "'w block_source \<Rightarrow> 'w block_handler option \<Rightarrow> poller_cfg \<Rightarrow> (time \<times> time) list \<Rightarrow> poller \<Rightarrow> 'w \<Rightarrow> poller \<times> 'w" where
  "run_polls source handler cfg [] p w = (p, w)"
| "run_polls source handler cfg ((t0, t1) # ts) p w =
     (case poll_once source handler cfg t0 t1 p w of (r, p1, w1) \<Rightarrow> run_polls source handler cfg ts p1 w1)"

definition run ::
  "'w block_source \<Rightarrow> 'w block_handler option \<Rightarrow> poller_cfg \<Rightarrow> (time \<times> time) list \<Rightarrow> poller \<Rightarrow> 'w \<Rightarrow> poller \<times> 'w" where
  "run source handler cfg ts p w =
     (case run_polls source handler cfg ts (p\<lparr>po_running := True\<rparr>) w of (p1, w1) \<Rightarrow> (p1\<lparr>po_running := False\<rparr>, w1))"

section \<open>Retrying\<close>

text \<open>The state of the world after \<open>i\<close> calls of the source, and what the next call gives.\<close>

definition call_source :: "'w block_source \<Rightarrow> poller_cfg \<Rightarrow> str option \<Rightarrow> 'w \<Rightarrow> 'w" where
  "call_source source cfg c v = snd (source c (pc_batch_size cfg) v)"

abbreviation after_calls :: "'w block_source \<Rightarrow> poller_cfg \<Rightarrow> str option \<Rightarrow> 'w \<Rightarrow> nat \<Rightarrow> 'w" where
  "after_calls source cfg c w i \<equiv> (call_source source cfg c ^^ i) w"

abbreviation nth_reply :: "'w block_source \<Rightarrow> poller_cfg \<Rightarrow> str option \<Rightarrow> 'w \<Rightarrow> nat \<Rightarrow> exn + block list" where
  "nth_reply source cfg c w i \<equiv> fst (try_fetch source cfg c (after_calls source cfg c w i))"

text \<open>The loop ends with a call that was answered, failed for good, or was the last allowed.\<close>

definition decisive :: "'w block_source \<Rightarrow> poller_cfg \<Rightarrow> str option \<Rightarrow> 'w \<Rightarrow> nat \<Rightarrow> nat \<Rightarrow> bool" where
  "decisive source cfg c w attempt i \<longleftrightarrow>
     nth_reply source cfg c w i \<noteq> Inl (BlockFetchError True) \<or> attempt + i \<ge> pc_max_attempts cfg"

lemma try_fetch_world: "snd (try_fetch source cfg c w) = call_source source cfg c w"
  by (simp add: call_source_def try_fetch_def split: prod.splits sum.splits)

lemma validate_blocks_Inl: "validate_blocks raw = Inl e \<Longrightarrow> e = BlockFetchError False"
  by (auto simp: validate_blocks_def split: raw_blocks.splits option.splits dest!: traverse_Inl)

lemma as_fetch_error_shape: "\<exists>b. as_fetch_error e = BlockFetchError b"
  by (cases e) auto

lemma try_fetch_Inl: "try_fetch source cfg c w = (Inl e, w1) \<Longrightarrow> \<exists>b. e = BlockFetchError b"
  using as_fetch_error_shape validate_blocks_Inl by (fastforce simp: try_fetch_def split: prod.splits sum.splits)

lemma decisive_Suc:
  "decisive source cfg c w attempt (Suc i)
    \<longleftrightarrow> decisive source cfg c (call_source source cfg c w) (Suc attempt) i"
  by (simp add: decisive_def funpow_swap1)

lemma decisive_ex: "\<exists>i. decisive source cfg c w attempt i"
  by (rule exI [of _ "pc_max_attempts cfg"]) (simp add: decisive_def)

lemma fetch_from_last:
  assumes "decisive source cfg c w attempt 0"
  shows "fetch_from source cfg c attempt w =
           (map_sum id (\<lambda>bs. (bs, attempt)) (nth_reply source cfg c w 0), [], after_calls source cfg c w 1)"
  using assms try_fetch_world [of source cfg c w]
  by (subst fetch_from.simps) (auto simp: decisive_def split: prod.splits sum.splits)

lemma fetch_from_again:
  assumes "\<not> decisive source cfg c w attempt 0"
  shows "fetch_from source cfg c attempt w =
           (case fetch_from source cfg c (Suc attempt) (after_calls source cfg c w 1) of
              (r, ds, w2) \<Rightarrow> (r, retry_delay cfg attempt # ds, w2))"
  using assms try_fetch_world [of source cfg c w]
  by (subst fetch_from.simps) (auto simp: decisive_def split: prod.splits sum.splits)

lemma fetch_from_decided:
  assumes "k = (LEAST i. decisive source cfg c w attempt i)"
  shows "fetch_from source cfg c attempt w =
           (map_sum id (\<lambda>bs. (bs, attempt + k)) (nth_reply source cfg c w k),
            map (\<lambda>i. retry_delay cfg (attempt + i)) [0..<k], after_calls source cfg c w (Suc k))"
  using assms
proof (induction k arbitrary: attempt w)
  case 0
  then have "decisive source cfg c w attempt 0" by (metis LeastI_ex decisive_ex)
  then show ?case by (simp add: fetch_from_last id_def)
next
  case (Suc k)
  let ?w = "after_calls source cfg c w 1"
  have no: "\<not> decisive source cfg c w attempt 0" using Suc.prems by (metis Least_eq_0 nat.distinct(1))
  have "k = (LEAST i. decisive source cfg c ?w (Suc attempt) i)"
    using Suc.prems Least_Suc [of "decisive source cfg c w attempt", OF LeastI_ex, OF decisive_ex no]
    by (simp add: decisive_Suc)
  note step = Suc.IH [OF this]
  have "map (\<lambda>i. retry_delay cfg (attempt + i)) [0..<Suc k] =
          retry_delay cfg attempt # map (\<lambda>i. retry_delay cfg (Suc attempt + i)) [0..<k]"
    by (simp add: upt_conv_Cons map_Suc_upt [symmetric] comp_def del: upt_Suc)
  then show ?case
    unfolding fetch_from_again [OF no] step by (simp add: funpow_swap1 id_def)
qed

lemma least_decisive_bound: "(LEAST i. decisive source cfg c w 1 i) \<le> pc_max_attempts cfg - 1"
  by (rule Least_le) (auto simp: decisive_def)

lemma least_decisive_before:
  "i < (LEAST i. decisive source cfg c w 1 i) \<Longrightarrow> nth_reply source cfg c w i = Inl (BlockFetchError True)"
  using not_less_Least by (fastforce simp: decisive_def)

section \<open>No ledger is skipped\<close>

text \<open>The ledgers that follow a cursor in a chain, and the cursor after \<open>m\<close> ledgers of it.\<close>

definition ledgers_after :: "str option \<Rightarrow> block list \<Rightarrow> block list" where
  "ledgers_after c chain =
     (case c of None \<Rightarrow> chain | Some v \<Rightarrow> tl (dropWhile (\<lambda>b. bk_cursor b \<noteq> v) chain))"

definition cursor_at :: "block list \<Rightarrow> nat \<Rightarrow> str option" where
  "cursor_at chain m = (if m = 0 then None else Some (bk_cursor (chain ! (m - 1))))"

text \<open>Poller and world stand after \<open>m\<close> ledgers of the chain.\<close>

definition in_step :: "block list \<Rightarrow> ('w \<Rightarrow> block list) \<Rightarrow> nat \<Rightarrow> poller \<Rightarrow> 'w \<Rightarrow> bool" where
  "in_step chain consumed m p w \<longleftrightarrow>
     m \<le> length chain \<and> po_cursor p = cursor_at chain m \<and> consumed w = take m chain"

lemma dropWhile_at:
  "distinct (map f xs) \<Longrightarrow> i < length xs \<Longrightarrow> dropWhile (\<lambda>x. f x \<noteq> f (xs ! i)) xs = drop i xs"
proof (induction xs arbitrary: i)
  case (Cons x xs)
  show ?case
  proof (cases i)
    case (Suc j)
    with Cons.prems have "f x \<noteq> f (xs ! j)" by auto
    with Suc Cons show ?thesis by simp
  qed simp
qed simp

lemma ledgers_after_cursor_at:
  assumes "distinct (map bk_cursor chain)" "m \<le> length chain"
  shows "ledgers_after (cursor_at chain m) chain = drop m chain"
proof (cases m)
  case (Suc k)
  with assms dropWhile_at [of bk_cursor chain k] show ?thesis
    by (simp add: ledgers_after_def cursor_at_def drop_Suc tl_drop)
qed (simp add: ledgers_after_def cursor_at_def)

text \<open>
  What the poller relies on: whatever a source returns is a stretch of the chain from the cursor on, and asking it
  consumes nothing; the handler adds a ledger to what was consumed when it succeeds, and nothing when it raises.
\<close>

locale ledger_feed =
  fixes source :: "'w block_source" and handler :: "'w block_handler"
    and chain :: "block list" and consumed :: "'w \<Rightarrow> block list"
  assumes cursors_distinct: "distinct (map bk_cursor chain)"
    and source_serves: "\<And>c l w raw w1. source c l w = (Inr raw, w1) \<Longrightarrow>
          \<exists>n. raw = Items (map Some (take n (ledgers_after c chain)))"
    and source_consumes_nothing: "\<And>c l w. consumed (snd (source c l w)) = consumed w"
    and handler_consumes: "\<And>b w u w1. handler b w = (Inr u, w1) \<Longrightarrow> consumed w1 = consumed w @ [b]"
    and handler_refuses: "\<And>b w e w1. handler b w = (Inl e, w1) \<Longrightarrow> consumed w1 = consumed w"
begin

lemma consumed_after_calls: "consumed (after_calls source cfg c w i) = consumed w"
  by (induction i) (simp_all add: call_source_def source_consumes_nothing)

lemma fetch_serves:
  assumes "fetch_with_retry source cfg c w = (Inr (bs, k), ds, w1)"
  shows "\<exists>n. bs = take n (ledgers_after c chain)"
proof -
  define j where "j = (LEAST i. decisive source cfg c w 1 i)"
  from assms have "nth_reply source cfg c w j = Inr bs"
    unfolding fetch_with_retry_def fetch_from_decided [OF j_def]
    by (cases "nth_reply source cfg c w j") auto
  then obtain raw w2 where "source c (pc_batch_size cfg) (after_calls source cfg c w j) = (Inr raw, w2)"
      and ok: "validate_blocks raw = Inr bs"
    by (auto simp: try_fetch_def split: prod.splits sum.splits)
  from source_serves [OF this(1)] obtain n where n: "raw = Items (map Some (take n (ledgers_after c chain)))" by blast
  have "traverse (\<lambda>x. case x of None \<Rightarrow> Inl (BlockFetchError False) | Some b \<Rightarrow> Inr b) (map Some xs) = Inr xs"
    for xs :: "block list" by (induction xs) auto
  with n ok have "bs = take n (ledgers_after c chain)" by (simp add: validate_blocks_def)
  then show ?thesis by blast
qed

lemma fetch_consumes_nothing: "fetch_with_retry source cfg c w = (r, ds, w1) \<Longrightarrow> consumed w1 = consumed w"
  unfolding fetch_with_retry_def fetch_from_decided [OF refl] by (metis consumed_after_calls prod.inject)

lemma process_in_step:
  assumes "process_blocks (Some handler) t (take n (drop m chain)) k h p w = (r, p1, w1)" "in_step chain consumed m p w"
  shows "\<exists>m1 \<ge> m. in_step chain consumed m1 p1 w1 \<and> (isl r \<or> m1 = min (length chain) (m + n))"
  using assms
proof (induction n arbitrary: m k h p w)
  case 0
  then show ?case by (auto simp: in_step_def)
next
  case (Suc n)
  show ?case
  proof (cases "m < length chain")
    case False
    with Suc.prems show ?thesis by (auto simp: in_step_def)
  next
    case True
    then have page: "take (Suc n) (drop m chain) = chain ! m # take n (drop (Suc m) chain)"
      by (simp add: Cons_nth_drop_Suc [symmetric])
    obtain r0 w0 where call: "handler (chain ! m) w = (r0, w0)" by fastforce
    show ?thesis
    proof (cases r0)
      case (Inl e)
      with Suc.prems(1) call have "r = Inl (BlockHandlerError (bk_height (chain ! m)))"
          "p1 = record_poll_failure t (BlockHandlerError (bk_height (chain ! m))) p" "w1 = w0"
        by (auto simp: page)
      with Suc.prems(2) handler_refuses [of "chain ! m" w e w0] call Inl have "in_step chain consumed m p1 w1"
        by (simp add: in_step_def record_poll_failure_def)
      with \<open>r = _\<close> show ?thesis by auto
    next
      case (Inr u)
      with call have took: "consumed w0 = consumed w @ [chain ! m]" by (simp add: handler_consumes)
      have "in_step chain consumed (Suc m) (p\<lparr>po_cursor := Some (bk_cursor (chain ! m))\<rparr>) w0"
        using True Suc.prems(2) took by (simp add: in_step_def cursor_at_def take_Suc_conv_app_nth)
      moreover have "process_blocks (Some handler) t (take n (drop (Suc m) chain)) (Suc k)
          (Some (bk_height (chain ! m))) (p\<lparr>po_cursor := Some (bk_cursor (chain ! m))\<rparr>) w0 = (r, p1, w1)"
        using Suc.prems(1) call Inr by (simp add: page)
      ultimately obtain m1 where "m1 \<ge> Suc m" "in_step chain consumed m1 p1 w1"
          "isl r \<or> m1 = min (length chain) (Suc m + n)"
        using Suc.IH by blast
      then show ?thesis by (intro exI [of _ m1]) auto
    qed
  qed
qed

lemma poll_in_step:
  assumes "poll_once source (Some handler) cfg t0 t1 p w = (r, p1, w1)" "in_step chain consumed m p w"
  shows "\<exists>m1 \<ge> m. in_step chain consumed m1 p1 w1"
proof -
  obtain f ds wf where fetch: "fetch_with_retry source cfg (po_cursor p) w = (f, ds, wf)"
    by (metis prod_cases3)
  note kept = fetch_consumes_nothing [OF fetch]
  show ?thesis
  proof (cases f)
    case (Inl e)
    with assms fetch kept have "in_step chain consumed m p1 w1" by (auto simp: poll_once_def in_step_def record_poll_failure_def)
    then show ?thesis by blast
  next
    case (Inr bk)
    then obtain bs k where f: "f = Inr (bs, k)" by (cases bk) auto
    from fetch_serves [of cfg "po_cursor p" w] fetch f obtain n where
      "bs = take n (ledgers_after (po_cursor p) chain)" by blast
    with assms(2) have bs: "bs = take n (drop m chain)"
      by (simp add: in_step_def ledgers_after_cursor_at cursors_distinct)
    obtain g pg wg where loop: "process_blocks (Some handler) t1 bs 0 None p wf = (g, pg, wg)"
      by (metis prod_cases3)
    have "in_step chain consumed m p wf" using assms(2) kept by (simp add: in_step_def)
    from process_in_step [OF loop [unfolded bs] this] obtain m1 where m1: "m1 \<ge> m" "in_step chain consumed m1 pg wg" by blast
    have "w1 = wg \<and> po_cursor p1 = po_cursor pg"
      using assms(1) fetch f loop
      by (cases g) (auto simp: poll_once_def Let_def split: sum.splits prod.splits)
    with m1 show ?thesis by (auto simp: in_step_def)
  qed
qed

lemma polls_in_step:
  "run_polls source (Some handler) cfg ts p w = (p1, w1) \<Longrightarrow> in_step chain consumed m p w \<Longrightarrow> \<exists>m1 \<ge> m. in_step chain consumed m1 p1 w1"
proof (induction ts arbitrary: m p w)
  case (Cons t ts)
  obtain t0 t1 where t: "t = (t0, t1)" by (cases t)
  obtain r p2 w2 where poll: "poll_once source (Some handler) cfg t0 t1 p w = (r, p2, w2)" by (metis prod_cases3)
  from poll_in_step [OF poll Cons.prems(2)] obtain m2 where "m2 \<ge> m" "in_step chain consumed m2 p2 w2" by blast
  with Cons.IH [of p2 w2 m2] Cons.prems(1) poll t show ?case by (auto intro: order_trans)
qed auto

end

text \<open>A feed that answers within the allowed attempts with full pages, and a handler that never refuses.\<close>

locale lively_feed = ledger_feed +
  fixes cfg :: poller_cfg
  assumes answers: "\<And>c w. \<exists>k < pc_max_attempts cfg.
          (\<forall>i < k. nth_reply source cfg c w i = Inl (BlockFetchError True)) \<and>
          nth_reply source cfg c w k = Inr (take (nat (pc_batch_size cfg)) (ledgers_after c chain))"
    and accepts: "\<And>b w. \<not> isl (fst (handler b w))"
begin

lemma fetch_full_page:
  "\<exists>k ds w1. fetch_with_retry source cfg c w =
     (Inr (take (nat (pc_batch_size cfg)) (ledgers_after c chain), k), ds, w1)"
proof -
  from answers obtain k where k: "k < pc_max_attempts cfg"
      "\<forall>i < k. nth_reply source cfg c w i = Inl (BlockFetchError True)"
      "nth_reply source cfg c w k = Inr (take (nat (pc_batch_size cfg)) (ledgers_after c chain))" by blast
  have "k = (LEAST i. decisive source cfg c w 1 i)"
  proof (rule Least_equality [symmetric])
    show "decisive source cfg c w 1 k" using k(3) by (simp add: decisive_def)
    show "k \<le> i" if "decisive source cfg c w 1 i" for i
      using that k(1,2) by (cases "i < k") (auto simp: decisive_def)
  qed
  from fetch_from_decided [OF this] k(3) show ?thesis by (simp add: fetch_with_retry_def)
qed

lemma process_accepts: "\<not> isl (fst (process_blocks (Some handler) t bs n h p w))"
proof (induction bs arbitrary: n h p w)
  case (Cons b bs)
  obtain r w2 where "handler b w = (r, w2)" by fastforce
  with Cons accepts [of b w] show ?case by (cases r) auto
qed simp

lemma poll_full_page:
  assumes "poll_once source (Some handler) cfg t0 t1 p w = (r, p1, w1)" "in_step chain consumed m p w"
  shows "in_step chain consumed (min (length chain) (m + nat (pc_batch_size cfg))) p1 w1"
proof -
  obtain k ds wf where fetch: "fetch_with_retry source cfg (po_cursor p) w =
      (Inr (take (nat (pc_batch_size cfg)) (ledgers_after (po_cursor p) chain), k), ds, wf)"
    using fetch_full_page by blast
  have page: "ledgers_after (po_cursor p) chain = drop m chain"
    using assms(2) by (simp add: in_step_def ledgers_after_cursor_at cursors_distinct)
  obtain g pg wg where loop: "process_blocks (Some handler) t1 (take (nat (pc_batch_size cfg)) (drop m chain)) 0 None p wf
      = (g, pg, wg)" by (metis prod_cases3)
  then have "\<not> isl g" using process_accepts by (metis fst_conv)
  then obtain n h where g: "g = Inr (n, h)" by (cases g) auto
  have "in_step chain consumed m p wf"
    using assms(2) fetch_consumes_nothing [OF fetch] by (simp add: in_step_def)
  from process_in_step [OF loop this] g
  have "in_step chain consumed (min (length chain) (m + nat (pc_batch_size cfg))) pg wg" by auto
  moreover have "w1 = wg \<and> po_cursor p1 = po_cursor pg"
    using assms(1) unfolding poll_once_def fetch page prod.case sum.case loop g by (auto simp: Let_def)
  ultimately show ?thesis by (simp add: in_step_def)
qed

lemma polls_full_pages:
  "run_polls source (Some handler) cfg ts p w = (p1, w1) \<Longrightarrow> in_step chain consumed m p w \<Longrightarrow>
    in_step chain consumed (min (length chain) (m + length ts * nat (pc_batch_size cfg))) p1 w1"
proof (induction ts arbitrary: m p w)
  case (Cons t ts)
  obtain t0 t1 where t: "t = (t0, t1)" by (cases t)
  obtain r p2 w2 where poll: "poll_once source (Some handler) cfg t0 t1 p w = (r, p2, w2)" by (metis prod_cases3)
  let ?b = "nat (pc_batch_size cfg)"
  have "min (length chain) (min (length chain) (m + ?b) + length ts * ?b) = min (length chain) (m + length (t # ts) * ?b)"
    by (auto simp: min_def)
  with Cons.IH [OF _ poll_full_page [OF poll Cons.prems(2)]] Cons.prems(1) poll t show ?case by simp
qed (auto simp: in_step_def)

end

text \<open>A Horizon server in these terms: it lists the records of the chain after the cursor it was given.\<close>

definition ledger_page :: "block list \<Rightarrow> pyval" where
  "ledger_page bs = PDict [(PStr ''_embedded'', PDict [(PStr ''records'', PList (map bk_payload bs))])]"

lemma parse_ledger_page:
  assumes "\<forall>b \<in> set bs. parse_record (bk_payload b) = Inr b"
  shows "parse_body (Some (ledger_page bs)) = Inr bs"
proof -
  have "traverse parse_record (map bk_payload bs) = Inr bs" using assms by (induction bs) auto
  then show ?thesis by (simp add: parse_body_def ledger_page_def dict_get_def)
qed

lemma set_ledgers_after: "set (ledgers_after c chain) \<subseteq> set chain"
proof (cases c)
  case (Some v)
  have "x \<in> set (tl xs) \<Longrightarrow> x \<in> set xs" for x :: block and xs by (cases xs) auto
  with Some show ?thesis by (auto simp: ledgers_after_def dest: set_dropWhileD)
qed (simp add: ledgers_after_def)

locale horizon_feed =
  fixes base_url :: str and client :: "str \<times> (str \<times> str) list \<Rightarrow> 'w \<Rightarrow> http_reply \<times> 'w"
    and handler :: "'w block_handler" and chain :: "block list" and consumed :: "'w \<Rightarrow> block list"
  assumes cursors_distinct: "distinct (map bk_cursor chain)"
    and records_parse: "\<forall>b \<in> set chain. parse_record (bk_payload b) = Inr b"
    and client_serves: "\<And>c l w status body w1.
          client (horizon_request base_url c l) w = (HttpReply status (Some body), w1) \<Longrightarrow> status < 400 \<Longrightarrow>
          \<exists>n. body = ledger_page (take n (ledgers_after c chain))"
    and client_consumes_nothing: "\<And>q w. consumed (snd (client q w)) = consumed w"
    and handler_consumes: "\<And>b w u w1. handler b w = (Inr u, w1) \<Longrightarrow> consumed w1 = consumed w @ [b]"
    and handler_refuses: "\<And>b w e w1. handler b w = (Inl e, w1) \<Longrightarrow> consumed w1 = consumed w"
begin

lemma fetch_blocks_serves:
  assumes "fetch_blocks base_url client c l w = (Inr bs, w1)"
  shows "\<exists>n. bs = take n (ledgers_after c chain)"
proof -
  from assms obtain status body where reply: "client (horizon_request base_url c l) w = (HttpReply status body, w1)"
      and ok: "status < 400" "parse_body body = Inr bs"
    by (auto simp: fetch_blocks_def not_le split: if_splits prod.splits http_reply.splits)
  from ok(2) obtain v where body: "body = Some v" by (cases body) (auto simp: parse_body_def)
  from client_serves [OF reply [unfolded body] ok(1)] obtain n
    where n: "v = ledger_page (take n (ledgers_after c chain))" by blast
  have "\<forall>b \<in> set (take n (ledgers_after c chain)). parse_record (bk_payload b) = Inr b"
    using records_parse set_ledgers_after [of c chain] by (auto dest: in_set_takeD)
  from parse_ledger_page [OF this] ok(2) body n show ?thesis by auto
qed

lemma fetch_blocks_consumes_nothing: "consumed (snd (fetch_blocks base_url client c l w)) = consumed w"
  using client_consumes_nothing [of "horizon_request base_url c l" w]
  by (auto simp: fetch_blocks_def split: prod.splits http_reply.splits)

end

sublocale horizon_feed \<subseteq> feed: ledger_feed "horizon_source base_url client" handler chain consumed
proof
  show "\<exists>n. raw = Items (map Some (take n (ledgers_after c chain)))"
    if "horizon_source base_url client c l w = (Inr raw, w1)" for c l w raw w1
  proof -
    from that obtain bs where "fetch_blocks base_url client c l w = (Inr bs, w1)" "raw = Items (map Some bs)"
      by (cases "fetch_blocks base_url client c l w", cases "fst (fetch_blocks base_url client c l w)")
         (auto simp: horizon_source_def)
    with fetch_blocks_serves show ?thesis by blast
  qed
  show "consumed (snd (horizon_source base_url client c l w)) = consumed w" for c l w
    using fetch_blocks_consumes_nothing [of c l w] by (simp add: horizon_source_def case_prod_beta)
qed (fact cursors_distinct, fact handler_consumes, fact handler_refuses)

context horizon_feed
begin

lemma run_in_step:
  assumes "run (horizon_source base_url client) (Some handler) cfg ts p w = (p1, w1)" "in_step chain consumed m p w"
  shows "\<exists>m1 \<ge> m. in_step chain consumed m1 p1 w1"
proof -
  obtain p2 where polls: "run_polls (horizon_source base_url client) (Some handler) cfg ts
      (p\<lparr>po_running := True\<rparr>) w = (p2, w1)" and p1: "po_cursor p1 = po_cursor p2"
    using assms(1) by (auto simp: run_def split: prod.splits)
  have "in_step chain consumed m (p\<lparr>po_running := True\<rparr>) w" using assms(2) by (simp add: in_step_def)
  from feed.polls_in_step [OF polls this] p1 show ?thesis by (auto simp: in_step_def)
qed

end

text \<open>
  An instance: a Horizon that follows a script of failures and page lengths, and a handler that keeps a log.
\<close>

datatype horizon_turn = Unreachable | Answer int nat

fun scripted_horizon ::
  "block list \<Rightarrow> str \<times> (str \<times> str) list \<Rightarrow> horizon_turn list \<times> block list \<Rightarrow> http_reply \<times> (horizon_turn list \<times> block list)" where
  "scripted_horizon chain (url, params) ([], seen) = (TransportError, [], seen)"
| "scripted_horizon chain (url, params) (Unreachable # turns, seen) = (TransportError, turns, seen)"
| "scripted_horizon chain (url, params) (Answer status n # turns, seen) =
     (HttpReply status (Some (ledger_page (take n (ledgers_after (map_of params ''cursor'') chain)))), turns, seen)"

definition logging_handler :: "(horizon_turn list \<times> block list) block_handler" where
  "logging_handler b w = (Inr (), fst w, snd w @ [b])"

definition sample_ledger :: "nat \<Rightarrow> block" where
  "sample_ledger i = \<lparr>bk_cursor = ''t'' @ digits_of i, bk_height = int i,
     bk_payload = PDict [(PStr ''paging_token'', PStr (''t'' @ digits_of i)), (PStr ''sequence'', PInt (int i))]\<rparr>"

definition sample_chain :: "block list" where
  "sample_chain = map sample_ledger [1, 2, 3]"

definition sample_poller_cfg :: poller_cfg where
  "sample_poller_cfg = \<lparr>pc_poll_interval = 5, pc_batch_size = 2, pc_max_attempts = 3, pc_base_delay = 1 / 2,
     pc_max_delay = 8\<rparr>"

abbreviation sample_source :: "(horizon_turn list \<times> block list) block_source" where
  "sample_source \<equiv> horizon_source ''https://horizon.example'' (scripted_horizon sample_chain)"

lemma sample_chain_parses: "\<forall>b \<in> set sample_chain. parse_record (bk_payload b) = Inr b"
  by (simp add: sample_chain_def sample_ledger_def dict_get_def parse_height_def make_block_def)

lemma sample_chain_distinct: "distinct (map bk_cursor sample_chain)"
  by (simp add: sample_chain_def sample_ledger_def digits_of.simps)

lemma request_cursor: "map_of (snd (horizon_request base_url c l)) ''cursor'' = c"
  by (simp add: horizon_request_def split: option.splits)

lemma scripted_serves:
  assumes "scripted_horizon chain (horizon_request base_url c l) w = (HttpReply status (Some body), w1)"
  shows "\<exists>n. body = ledger_page (take n (ledgers_after c chain))"
proof -
  obtain url params where q: "horizon_request base_url c l = (url, params)" by fastforce
  then have "map_of params ''cursor'' = c" using request_cursor [of base_url c l] by simp
  with assms q show ?thesis by (cases "(chain, (url, params), w)" rule: scripted_horizon.cases) auto
qed

lemma scripted_consumes_nothing: "snd (snd (scripted_horizon chain q w)) = snd w"
  by (cases "(chain, q, w)" rule: scripted_horizon.cases) auto

interpretation sim: horizon_feed "''https://horizon.example''" "scripted_horizon sample_chain" logging_handler
  sample_chain snd
  by unfold_locales
    (use sample_chain_distinct sample_chain_parses scripted_serves scripted_consumes_nothing in
      \<open>auto simp: logging_handler_def\<close>)

text \<open>A Horizon that fails every other request and otherwise serves two ledgers, as a feed that lets the poller catch up.\<close>

fun flaky_horizon ::
  "block list \<Rightarrow> str \<times> (str \<times> str) list \<Rightarrow> bool \<times> block list \<Rightarrow> http_reply \<times> (bool \<times> block list)" where
  "flaky_horizon chain (url, params) (up, seen) =
     (if up then (HttpReply 200 (Some (ledger_page (take 2 (ledgers_after (map_of params ''cursor'') chain)))), False, seen)
      else (HttpReply 503 None, True, seen))"

definition accepting_handler :: "(bool \<times> block list) block_handler" where
  "accepting_handler b w = (Inr (), fst w, snd w @ [b])"

abbreviation flaky_source :: "(bool \<times> block list) block_source" where
  "flaky_source \<equiv> horizon_source ''https://horizon.example'' (flaky_horizon sample_chain)"

lemma flaky_reply:
  "flaky_source c l w =
     (if \<not> (1 \<le> l \<and> l \<le> 200) then (Inl ValueError, w)
      else if fst w then (Inr (Items (map Some (take 2 (ledgers_after c sample_chain)))), False, snd w)
      else (Inl (BlockFetchError True), True, snd w))"
proof -
  obtain url params where q: "horizon_request ''https://horizon.example'' c l = (url, params)" by fastforce
  then have c: "map_of params ''cursor'' = c" using request_cursor [of _ c l] by (metis snd_conv)
  have "\<forall>b \<in> set (take 2 (ledgers_after c sample_chain)). parse_record (bk_payload b) = Inr b"
    using sample_chain_parses set_ledgers_after [of c sample_chain] by (auto dest: in_set_takeD)
  note parsed = parse_ledger_page [OF this]
  show ?thesis
    by (cases w) (simp add: horizon_source_def fetch_blocks_def HORIZON_MAX_LEDGERS_PER_PAGE_def q c parsed)
qed

lemma traverse_Some_blocks:
  "traverse (\<lambda>x. case x of None \<Rightarrow> Inl (BlockFetchError False) | Some b \<Rightarrow> Inr b) (map Some xs) = Inr xs"
  by (induction xs) auto

lemma flaky_answers:
  "\<exists>k < pc_max_attempts sample_poller_cfg.
     (\<forall>i < k. nth_reply flaky_source sample_poller_cfg c w i = Inl (BlockFetchError True)) \<and>
     nth_reply flaky_source sample_poller_cfg c w k =
       Inr (take (nat (pc_batch_size sample_poller_cfg)) (ledgers_after c sample_chain))"
  by (rule exI [of _ "if fst w then 0 else 1"])
     (simp add: sample_poller_cfg_def try_fetch_def flaky_reply call_source_def validate_blocks_def traverse_Some_blocks)

interpretation flaky: lively_feed flaky_source accepting_handler sample_chain snd sample_poller_cfg
proof
  show "\<exists>k < pc_max_attempts sample_poller_cfg.
     (\<forall>i < k. nth_reply flaky_source sample_poller_cfg c w i = Inl (BlockFetchError True)) \<and>
     nth_reply flaky_source sample_poller_cfg c w k =
       Inr (take (nat (pc_batch_size sample_poller_cfg)) (ledgers_after c sample_chain))" for c w
    by (rule flaky_answers)
qed (auto simp: sample_chain_distinct flaky_reply accepting_handler_def split: if_splits)

lemma process_blocks_Inl:
  "process_blocks handler t bs n h p w = (Inl e, p1, w1) \<Longrightarrow>
    (\<exists>x. e = BlockHandlerError x) \<and> po_last_error p1 = Some e \<and> po_last_success_at p1 = po_last_success_at p \<and>
    po_consecutive_failures p1 = Suc (po_consecutive_failures p)"
proof (induction bs arbitrary: n h p w)
  case (Cons b bs)
  obtain r w2 where call: "(case handler of None \<Rightarrow> (Inr (), w) | Some f \<Rightarrow> f b w) = (r, w2)" by fastforce
  with Cons show ?case by (cases r) (auto simp: record_poll_failure_def)
qed simp

lemma process_blocks_Inr:
  "process_blocks handler t bs n h p w = (Inr (n1, h1), p1, w1) \<Longrightarrow>
    n1 = n + length bs \<and> po_cursor p1 = (if bs = [] then po_cursor p else Some (bk_cursor (last bs)))"
proof (induction bs arbitrary: n h p w)
  case (Cons b bs)
  obtain r w2 where call: "(case handler of None \<Rightarrow> (Inr (), w) | Some f \<Rightarrow> f b w) = (r, w2)" by fastforce
  with Cons.prems Cons.IH [of "Suc n" "Some (bk_height b)" "p\<lparr>po_cursor := Some (bk_cursor b)\<rparr>" w2] show ?case
    by (cases r) (simp_all split: if_splits)
qed simp

lemma fetch_with_retry_Inl:
  assumes "fetch_with_retry source cfg c w = (Inl e, ds, w1)"
  shows "\<exists>b. e = BlockFetchError b"
proof -
  define k where "k = (LEAST i. decisive source cfg c w 1 i)"
  from assms have "nth_reply source cfg c w k = Inl e"
    unfolding fetch_with_retry_def fetch_from_decided [OF k_def]
    by (cases "nth_reply source cfg c w k") auto
  then show ?thesis using try_fetch_Inl by (metis prod.collapse)
qed

lemma py_int_str_Inl: "py_int_str s = Inl e \<Longrightarrow> e = ValueError"
  by (auto simp: py_int_str_def unsigned_int_def split: list.splits option.splits if_splits)

lemma parse_height_Inl:
  assumes "parse_height v = Inl e"
  shows "e = BlockFetchError False \<or> e = OverflowError \<and> v \<in> {Some (PFloat PosInf), Some (PFloat NegInf)}"
proof (cases v)
  case (Some x)
  show ?thesis
  proof (cases x)
    case (PFloat q)
    with Some assms show ?thesis by (cases q) (auto simp: parse_height_def)
  next
    case (PStr t)
    with Some assms py_int_str_Inl [of t] show ?thesis
      by (auto simp: parse_height_def split: sum.splits)
  qed (use Some assms in \<open>auto simp: parse_height_def\<close>)
qed (use assms in \<open>auto simp: parse_height_def\<close>)

lemma parse_record_Inl:
  assumes "parse_record r = Inl e"
  shows "e = BlockFetchError False \<or>
    (\<exists>d. r = PDict d \<and>
       (e = ValueError \<and> (\<exists>h < 0. parse_height (dict_get d ''sequence'') = Inr h) \<or>
        e = OverflowError \<and> dict_get d ''sequence'' \<in> {Some (PFloat PosInf), Some (PFloat NegInf)}))"
proof (cases r)
  case (PDict d)
  show ?thesis
  proof (cases "e = BlockFetchError False")
    case False
    with assms PDict obtain c where "c \<noteq> []"
        "(case parse_height (dict_get d ''sequence'') of Inl e \<Rightarrow> Inl e | Inr h \<Rightarrow> make_block c h (PDict d)) = Inl e"
      by (auto split: option.splits pyval.splits if_splits)
    with False PDict parse_height_Inl show ?thesis
      by (cases "parse_height (dict_get d ''sequence'')") (fastforce simp: make_block_def split: if_splits)+
  qed simp
qed (use assms in auto)

section \<open>Properties\<close>

text \<open>C17. No ledger is lost and none is taken twice: whatever failures the network and the handler show, after any number of polls against a Horizon that serves a chain the ledgers the handler accepted are an initial stretch of that chain, in order, and the cursor stands on the last of them.\<close>

theorem no_ledger_skipped:
  assumes "distinct (map bk_cursor chain)" "\<forall>b \<in> set chain. parse_record (bk_payload b) = Inr b"
    and "\<And>c l w status body w1.
          client (horizon_request base_url c l) w = (HttpReply status (Some body), w1) \<Longrightarrow> status < 400 \<Longrightarrow>
          \<exists>n. body = ledger_page (take n (ledgers_after c chain))"
    and "\<And>q w. consumed (snd (client q w)) = consumed w"
    and "\<And>b w u w1. handler b w = (Inr u, w1) \<Longrightarrow> consumed w1 = consumed w @ [b]"
    and "\<And>b w e w1. handler b w = (Inl e, w1) \<Longrightarrow> consumed w1 = consumed w"
    and start: "consumed w = []"
    and ran: "run (horizon_source base_url client) (Some handler) cfg ts (new_poller None) w = (p1, w1)"
  shows "\<exists>m \<le> length chain. consumed w1 = take m chain \<and> po_cursor p1 = cursor_at chain m"
proof -
  have "horizon_feed base_url client handler chain consumed"
    by unfold_locales (use assms in blast)+
  moreover have "in_step chain consumed 0 (new_poller None) w"
    using start by (simp add: in_step_def new_poller_def cursor_at_def)
  ultimately show ?thesis using horizon_feed.run_in_step ran by (fastforce simp: in_step_def)
qed

theorem no_ledger_skipped_witness:
  "\<exists>m \<le> length sample_chain.
     snd (snd (run sample_source (Some logging_handler) sample_poller_cfg [(0, 1), (6, 7)] (new_poller None)
       ([Unreachable, Answer 200 2, Answer 404 0], []))) = take m sample_chain \<and>
     po_cursor (fst (run sample_source (Some logging_handler) sample_poller_cfg [(0, 1), (6, 7)] (new_poller None)
       ([Unreachable, Answer 200 2, Answer 404 0], []))) = cursor_at sample_chain m"
  by (rule no_ledger_skipped [where consumed = snd and client = "scripted_horizon sample_chain" and
        base_url = "''https://horizon.example''", OF sample_chain_distinct sample_chain_parses])
     (auto simp: scripted_serves scripted_consumes_nothing logging_handler_def)

text \<open>The retry loop agrees with its specification: with \<open>k\<close> the first call that is answered, fails for good or is the last allowed, the source is called exactly \<open>k + 1\<close> times, at most \<open>max_attempts\<close> times in all, the answer is that of the last call, all calls before it failed transiently, and the sleep after call \<open>i\<close> is the base delay doubled \<open>i\<close> times, cut at the maximum.\<close>

theorem fetch_retries_spec:
  assumes "poller_cfg_valid cfg" "k = (LEAST i. decisive source cfg c w 1 i)"
  shows "fetch_with_retry source cfg c w =
           (map_sum id (\<lambda>bs. (bs, k + 1)) (nth_reply source cfg c w k),
            map (\<lambda>i. min (pc_base_delay cfg * 2 ^ i) (pc_max_delay cfg)) [0..<k],
            after_calls source cfg c w (k + 1)) \<and>
         k + 1 \<le> pc_max_attempts cfg \<and>
         (\<forall>i < k. nth_reply source cfg c w i = Inl (BlockFetchError True)) \<and>
         (\<forall>e. nth_reply source cfg c w k = Inl e \<longrightarrow> e = BlockFetchError False \<or> k + 1 = pc_max_attempts cfg)"
proof (intro conjI)
  have "retry_delay cfg (1 + i) = min (pc_base_delay cfg * 2 ^ i) (pc_max_delay cfg)" for i
    by (simp add: retry_delay_def)
  with fetch_from_decided [OF assms(2)] show "fetch_with_retry source cfg c w =
           (map_sum id (\<lambda>bs. (bs, k + 1)) (nth_reply source cfg c w k),
            map (\<lambda>i. min (pc_base_delay cfg * 2 ^ i) (pc_max_delay cfg)) [0..<k],
            after_calls source cfg c w (k + 1))"
    by (simp add: fetch_with_retry_def add.commute [of 1])
  have pos: "1 \<le> pc_max_attempts cfg" using assms(1) by (simp add: poller_cfg_valid_def)
  with least_decisive_bound [of source cfg c w] assms(2) show bound: "k + 1 \<le> pc_max_attempts cfg" by linarith
  show "\<forall>i < k. nth_reply source cfg c w i = Inl (BlockFetchError True)"
    using least_decisive_before [of _ source cfg c w] assms(2) by simp
  have "decisive source cfg c w 1 k" unfolding assms(2) by (rule LeastI_ex [OF decisive_ex])
  moreover have "\<exists>b. e = BlockFetchError b" if "nth_reply source cfg c w k = Inl e" for e
    using that try_fetch_Inl by (metis prod.collapse)
  ultimately show "\<forall>e. nth_reply source cfg c w k = Inl e \<longrightarrow> e = BlockFetchError False \<or> k + 1 = pc_max_attempts cfg"
    using bound by (fastforce simp: decisive_def)
qed

text \<open>A poll that fails raises one of the poller's own errors, which the run loop swallows, counts one more consecutive failure and reports degraded or, from \<open>max_attempts\<close> failures on, unhealthy; a poll that succeeds reports healthy with no failure, and says how many ledgers it handled.\<close>

theorem poll_reports_health:
  assumes "poll_once source handler cfg t0 t1 p w = (r, p1, w1)"
  shows "(\<forall>e. r = Inl e \<longrightarrow>
            ((\<exists>b. e = BlockFetchError b) \<or> (\<exists>h. e = BlockHandlerError h)) \<and> po_last_error p1 = Some e \<and>
            po_consecutive_failures p1 = Suc (po_consecutive_failures p) \<and>
            po_last_success_at p1 = po_last_success_at p \<and>
            health cfg p1 = (if Suc (po_consecutive_failures p) \<ge> pc_max_attempts cfg then Unhealthy else Degraded)) \<and>
         (\<forall>x. r = Inr x \<longrightarrow>
            health cfg p1 = Healthy \<and> po_consecutive_failures p1 = 0 \<and> po_last_success_at p1 = Some t1 \<and>
            pr_cursor x = po_cursor p1 \<and> pr_completed_at x = t1 \<and> (pr_blocks_processed x = 0 \<longrightarrow> po_cursor p1 = po_cursor p))"
proof -
  obtain f ds wf where fetch: "fetch_with_retry source cfg (po_cursor p) w = (f, ds, wf)" by (metis prod_cases3)
  show ?thesis
  proof (cases f)
    case (Inl e)
    with fetch assms have "r = Inl e" "p1 = record_poll_failure t1 e p" by (simp_all add: poll_once_def)
    with fetch_with_retry_Inl [OF fetch [unfolded Inl]] show ?thesis by (simp add: record_poll_failure_def health_def)
  next
    case (Inr bk)
    then obtain bs k where f: "f = Inr (bs, k)" by (cases bk) auto
    obtain g pg wg where loop: "process_blocks handler t1 bs 0 None p wf = (g, pg, wg)" by (metis prod_cases3)
    show ?thesis
    proof (cases g)
      case (Inl e)
      with assms fetch f loop have "r = Inl e" "p1 = pg" by (simp_all add: poll_once_def)
      with process_blocks_Inl [of handler t1 bs 0 None p wf e pg wg] loop Inl show ?thesis
        by (auto simp: health_def)
    next
      case (Inr x)
      then obtain n h where g: "g = Inr (n, h)" by (cases x) auto
      define p2 where "p2 = pg\<lparr>po_last_poll_at := Some t1, po_last_success_at := Some t1,
        po_consecutive_failures := 0, po_last_error := None\<rparr>"
      have "r = Inr \<lparr>pr_blocks_processed = n, pr_cursor = po_cursor p2, pr_latest_height = h, pr_attempts = k,
          pr_started_at = t0, pr_completed_at = t1\<rparr>" "p1 = p2"
        using assms unfolding poll_once_def fetch f prod.case sum.case loop g p2_def by (auto simp: Let_def)
      moreover have "n = length bs" "po_cursor p2 = (if bs = [] then po_cursor p else Some (bk_cursor (last bs)))"
        using process_blocks_Inr [OF loop [unfolded g]] by (simp_all add: p2_def)
      ultimately show ?thesis by (simp add: p2_def health_def)
    qed
  qed
qed

text \<open>C18. With a source that answers within the allowed attempts with all ledgers after the cursor, up to the page size, and a handler that accepts, the poller catches up: \<open>n\<close> polls hand exactly the first \<open>n\<close> pages of the chain to the handler.\<close>

theorem poller_catches_up:
  assumes "distinct (map bk_cursor chain)" "consumed w = []"
    and answers: "\<And>c w. \<exists>k < pc_max_attempts cfg. (\<forall>i < k. nth_reply source cfg c w i = Inl (BlockFetchError True)) \<and>
          nth_reply source cfg c w k = Inr (take (nat (pc_batch_size cfg)) (ledgers_after c chain))"
    and serves: "\<And>c l w raw w1. source c l w = (Inr raw, w1) \<Longrightarrow>
          \<exists>n. raw = Items (map Some (take n (ledgers_after c chain)))"
    and keeps: "\<And>c l w. consumed (snd (source c l w)) = consumed w"
    and accepts: "\<And>b w. \<exists>u w1. handler b w = (Inr u, w1) \<and> consumed w1 = consumed w @ [b]"
    and ran: "run source (Some handler) cfg ts (new_poller None) w = (p1, w1)"
  shows "consumed w1 = take (length ts * nat (pc_batch_size cfg)) chain \<and>
         po_cursor p1 = cursor_at chain (min (length chain) (length ts * nat (pc_batch_size cfg)))"
proof -
  have feed: "lively_feed source handler chain consumed cfg"
  proof
    show "consumed w1 = consumed w @ [b]" if "handler b w = (Inr u, w1)" for b w u w1
      using accepts [of b w] that by auto
    show "consumed w1 = consumed w" if "handler b w = (Inl e, w1)" for b w e w1 using accepts [of b w] that by auto
    show "\<not> isl (fst (handler b w))" for b w using accepts [of b w] by auto
  qed (use assms in blast)+
  obtain p2 where polls: "run_polls source (Some handler) cfg ts ((new_poller None)\<lparr>po_running := True\<rparr>) w = (p2, w1)"
      and p1: "po_cursor p1 = po_cursor p2"
    using ran by (auto simp: run_def split: prod.splits)
  have "in_step chain consumed 0 ((new_poller None)\<lparr>po_running := True\<rparr>) w"
    using assms(2) by (simp add: in_step_def new_poller_def cursor_at_def)
  from lively_feed.polls_full_pages [OF feed polls this] p1 show ?thesis by (simp add: in_step_def min_def)
qed


theorem poller_catches_up_witness:
  "snd (snd (run flaky_source (Some accepting_handler) sample_poller_cfg [(0, 1), (6, 7)] (new_poller None) (False, [])))
     = take (length [(0 :: time, 1 :: time), (6, 7)] * nat (pc_batch_size sample_poller_cfg)) sample_chain \<and>
   po_cursor (fst (run flaky_source (Some accepting_handler) sample_poller_cfg [(0, 1), (6, 7)] (new_poller None) (False, [])))
     = cursor_at sample_chain (min (length sample_chain)
         (length [(0 :: time, 1 :: time), (6, 7)] * nat (pc_batch_size sample_poller_cfg)))"
  by (rule poller_catches_up [where consumed = snd, OF sample_chain_distinct _ flaky_answers])
     (auto simp: flaky_reply accepting_handler_def split: if_splits)

theorem fetch_retries_spec_witness:
  "poller_cfg_valid sample_poller_cfg \<and>
   fst (snd (fetch_with_retry flaky_source sample_poller_cfg None (False, []))) = [1 / 2]"
proof -
  have k: "1 = (LEAST i. decisive flaky_source sample_poller_cfg None (False, []) 1 i)"
  proof (rule Least_equality [symmetric])
    show "1 \<le> i" if "decisive flaky_source sample_poller_cfg None (False, []) 1 i" for i
      using that by (cases i) (simp_all add: decisive_def sample_poller_cfg_def try_fetch_def flaky_reply)
  qed (simp add: decisive_def sample_poller_cfg_def try_fetch_def flaky_reply call_source_def validate_blocks_def traverse_Some_blocks)
  have valid: "poller_cfg_valid sample_poller_cfg"
    by (simp add: poller_cfg_valid_def sample_poller_cfg_def HORIZON_MAX_LEDGERS_PER_PAGE_def)
  from fetch_retries_spec [OF valid k] valid show ?thesis by (simp add: sample_poller_cfg_def)
qed

theorem poll_reports_health_witness:
  "health sample_poller_cfg (fst (snd (poll_once sample_source (Some logging_handler) sample_poller_cfg 0 1 (new_poller None)
     ([Answer 404 0], [])))) = Degraded"
proof -
  let ?p = "poll_once sample_source (Some logging_handler) sample_poller_cfg 0 1 (new_poller None) ([Answer 404 0], [])"
  have r: "fst ?p = Inl (BlockFetchError False)"
    by (simp add: poll_once_def fetch_with_retry_def fetch_from.simps try_fetch_def horizon_source_def fetch_blocks_def
      sample_poller_cfg_def HORIZON_MAX_LEDGERS_PER_PAGE_def horizon_request_def new_poller_def)
  have "?p = (fst ?p, fst (snd ?p), snd (snd ?p))" by simp
  from poll_reports_health [OF this] r show ?thesis by (simp add: new_poller_def sample_poller_cfg_def)
qed

text \<open>A malformed reply is refused for good, with two exceptions that are retried as if the network had failed: a ledger whose sequence is negative, and one whose sequence is an infinite number.\<close>

theorem malformed_reply_is_terminal:
  assumes "parse_body body = Inl e"
  shows "e = BlockFetchError False \<or>
         as_fetch_error e = BlockFetchError True \<and>
         (\<exists>b m rs d. body = Some (PDict b) \<and> dict_get b ''_embedded'' = Some (PDict m) \<and>
            dict_get m ''records'' = Some (PList rs) \<and> PDict d \<in> set rs \<and>
            (e = ValueError \<and> (\<exists>h < 0. parse_height (dict_get d ''sequence'') = Inr h) \<or>
             e = OverflowError \<and> dict_get d ''sequence'' \<in> {Some (PFloat PosInf), Some (PFloat NegInf)}))"
proof (cases "e = BlockFetchError False")
  case False
  with assms obtain b m rs where shape: "body = Some (PDict b)" "dict_get b ''_embedded'' = Some (PDict m)"
      "dict_get m ''records'' = Some (PList rs)" "traverse parse_record rs = Inl e"
    by (auto simp: parse_body_def split: option.splits pyval.splits)
  from traverse_Inl [OF shape(4)] obtain r where r: "r \<in> set rs" "parse_record r = Inl e" by blast
  from parse_record_Inl [OF r(2)] False obtain d where "r = PDict d" "as_fetch_error e = BlockFetchError True"
      "e = ValueError \<and> (\<exists>h < 0. parse_height (dict_get d ''sequence'') = Inr h) \<or>
       e = OverflowError \<and> dict_get d ''sequence'' \<in> {Some (PFloat PosInf), Some (PFloat NegInf)}"
    by auto
  with shape r show ?thesis by blast
qed simp

theorem malformed_reply_is_terminal_witness:
  "parse_body (Some (ledger_page [\<lparr>bk_cursor = [], bk_height = 0, bk_payload =
      PDict [(PStr ''paging_token'', PStr ''t''), (PStr ''sequence'', PInt (-1))]\<rparr>])) = Inl ValueError \<and>
   as_fetch_error ValueError = BlockFetchError True"
proof -
  have bad: "parse_body (Some (ledger_page [\<lparr>bk_cursor = [], bk_height = 0, bk_payload =
      PDict [(PStr ''paging_token'', PStr ''t''), (PStr ''sequence'', PInt (-1))]\<rparr>])) = Inl ValueError"
    by (simp add: parse_body_def ledger_page_def dict_get_def parse_height_def make_block_def)
  from malformed_reply_is_terminal [OF this] bad show ?thesis by simp
qed

end
