(* ===== verification/Block_Hardening.thy ===== *)
theory Block_Hardening
  imports Values Rate_Limits
begin

text \<open>
  \<^verbatim>\<open>services/block_poller_hardening.py\<close>: the poller that fetches blocks by sequence number from an injected callable,
  sanitises the untrusted payloads, limits its own polls with a sliding window and retries with exponential backoff and jitter.
  The callables thread a state of the world; the random draws are an argument; the shortest decimal form of a float is an
  argument of the size check.
\<close>

section \<open>Sliding window and backoff\<close>

definition discard_expired :: "time \<Rightarrow> time \<Rightarrow> time list \<Rightarrow> time list" where
  "discard_expired window t ts = dropWhile (\<lambda>x. x \<le> t - window) ts"

definition try_acquire :: "nat \<Rightarrow> time \<Rightarrow> time \<Rightarrow> time list \<Rightarrow> bool \<times> time list" where
  "try_acquire max_requests window t ts =
     (let kept = discard_expired window t ts in
      if length kept \<ge> max_requests then (False, kept) else (True, kept @ [t]))"

definition MAX_BACKOFF_EXPONENT :: int where "MAX_BACKOFF_EXPONENT = 32"

text \<open>\<open>draw\<close> is the random generator's \<open>uniform(0.0, jitter)\<close>.\<close>

definition compute_retry_delay :: "int \<Rightarrow> rat \<Rightarrow> rat \<Rightarrow> rat \<Rightarrow> (rat \<Rightarrow> rat) \<Rightarrow> exn + rat" where
  "compute_retry_delay attempt_index base_delay max_delay jitter_ratio draw =
     (if attempt_index < 0 then Inl ValueError
      else if base_delay \<le> 0 \<or> max_delay \<le> 0 then Inr 0
      else let exponent = min attempt_index MAX_BACKOFF_EXPONENT;
               delay = min max_delay (base_delay * 2 ^ nat exponent)
           in if jitter_ratio \<le> 0 then Inr delay
              else let jitter = delay * min jitter_ratio 1;
                       lower_bound = delay - jitter
                   in Inr (max 0 (min max_delay (lower_bound + draw jitter))))"

section \<open>Sanitising payloads\<close>

record sanitizer =
  sz_max_payload_bytes :: nat
  sz_max_transactions :: nat
  sz_max_identifier_length :: nat
  sz_max_string_length :: nat
  sz_max_collection_items :: nat
  sz_max_depth :: nat

definition default_sanitizer :: sanitizer where
  "default_sanitizer = \<lparr>sz_max_payload_bytes = 5 * 1024 * 1024, sz_max_transactions = 1000,
     sz_max_identifier_length = 256, sz_max_string_length = 4096, sz_max_collection_items = 10000, sz_max_depth = 8\<rparr>"

definition MAX_SEQUENCE :: int where "MAX_SEQUENCE = 2 ^ 63 - 1"

definition control_char :: "char \<Rightarrow> bool" where
  "control_char c \<longleftrightarrow>
     (let n = (of_char c :: nat) in n \<le> 8 \<or> n = 11 \<or> n = 12 \<or> 14 \<le> n \<and> n \<le> 31 \<or> n = 127)"

definition clean_text :: "nat \<Rightarrow> string \<Rightarrow> exn + string" where
  "clean_text max_length s =
     (if CHR 0x00 \<in> set s then Inl BlockPollerValidationError
      else let cleaned = filter (\<lambda>c. \<not> control_char c) s in
        if length cleaned > max_length then Inl BlockPollerValidationError else Inr cleaned)"

fun sanitize_key :: "sanitizer \<Rightarrow> pyval \<Rightarrow> exn + str" where
  "sanitize_key sz (PStr s) =
     (case clean_text (sz_max_identifier_length sz) s of
        Inl e \<Rightarrow> Inl e
      | Inr cleaned \<Rightarrow> if py_strip cleaned = [] then Inl BlockPollerValidationError else Inr cleaned)"
| "sanitize_key sz _ = Inl BlockPollerValidationError"

text \<open>The loop of \<open>_sanitize_mapping\<close>, over the dictionary built so far.\<close>

fun sanitize_items ::
  "(pyval \<Rightarrow> exn + str) \<Rightarrow> (pyval \<Rightarrow> exn + pyval) \<Rightarrow> (pyval \<times> pyval) list \<Rightarrow> (pyval \<times> pyval) list
    \<Rightarrow> exn + (pyval \<times> pyval) list" where
  "sanitize_items skey sval acc [] = Inr acc"
| "sanitize_items skey sval acc ((raw_key, raw_item) # items) =
     (case skey raw_key of
        Inl e \<Rightarrow> Inl e
      | Inr key \<Rightarrow>
          if PStr key \<in> fst ` set acc then Inl BlockPollerValidationError
          else (case sval raw_item of
                  Inl e \<Rightarrow> Inl e
                | Inr item \<Rightarrow> sanitize_items skey sval (acc @ [(PStr key, item)]) items))"

lemma sanitize_items_cong [fundef_cong]:
  "skey = skey' \<Longrightarrow> acc = acc' \<Longrightarrow> kvs = kvs' \<Longrightarrow> (\<And>k x. (k, x) \<in> set kvs' \<Longrightarrow> f x = g x) \<Longrightarrow>
    sanitize_items skey f acc kvs = sanitize_items skey' g acc' kvs'"
proof (induction kvs' arbitrary: kvs acc acc')
  case (Cons p kvs')
  obtain k x where p: "p = (k, x)" by fastforce
  from Cons.prems(4) [of k x] p have "f x = g x" by simp
  moreover have "sanitize_items skey' f d kvs' = sanitize_items skey' g d kvs'" for d
    using Cons.IH [of d d kvs'] Cons.prems by auto
  ultimately show ?case using Cons.prems p by (auto split: sum.splits)
qed simp

function sanitize_value :: "sanitizer \<Rightarrow> nat \<Rightarrow> pyval \<Rightarrow> exn + pyval" where
  "sanitize_value sz depth v =
     (if depth > sz_max_depth sz then Inl BlockPollerValidationError
      else case v of
        PNone \<Rightarrow> Inr v
      | PBool b \<Rightarrow> Inr v
      | PInt i \<Rightarrow> Inr v
      | PFloat f \<Rightarrow> (case f of Finite q \<Rightarrow> Inr v | _ \<Rightarrow> Inl BlockPollerValidationError)
      | PStr s \<Rightarrow> map_sum id PStr (clean_text (sz_max_string_length sz) s)
      | PList xs \<Rightarrow>
          if length xs > sz_max_collection_items sz then Inl BlockPollerValidationError
          else map_sum id PList (traverse (\<lambda>x. sanitize_value sz (depth + 1) x) xs)
      | PTuple xs \<Rightarrow>
          if length xs > sz_max_collection_items sz then Inl BlockPollerValidationError
          else map_sum id PList (traverse (\<lambda>x. sanitize_value sz (depth + 1) x) xs)
      | PDict kvs \<Rightarrow>
          if length kvs > sz_max_collection_items sz then Inl BlockPollerValidationError
          else map_sum id PDict (sanitize_items (sanitize_key sz) (\<lambda>x. sanitize_value sz (depth + 1) x) [] kvs)
      | POther \<Rightarrow> Inl BlockPollerValidationError)"
  by pat_completeness auto
termination
  by (relation "measure (\<lambda>(sz, depth, v). size v)") (auto dest: size_list_value size_dict_value)

declare sanitize_value.simps [simp del]

definition validate_payload_size :: "(rat \<Rightarrow> string) \<Rightarrow> sanitizer \<Rightarrow> pyval \<Rightarrow> exn + unit" where
  "validate_payload_size rp sz payload =
     (case dumps rp payload of
        None \<Rightarrow> Inl BlockPollerValidationError
      | Some encoded \<Rightarrow>
          if utf8_length encoded > sz_max_payload_bytes sz then Inl BlockPollerValidationError else Inr ())"

definition SEQUENCE_FIELDS :: "str list" where
  "SEQUENCE_FIELDS = [''sequence'', ''ledger'', ''ledger_sequence'']"

definition IDENTIFIER_FIELDS :: "str list" where
  "IDENTIFIER_FIELDS = [''hash'', ''id'', ''tx_hash'', ''transaction_hash'', ''paging_token'']"

text \<open>\<open>str.isdigit\<close> for code points below 256: the superscripts count as digits.\<close>

definition py_isdigit :: "string \<Rightarrow> bool" where
  "py_isdigit s \<longleftrightarrow> s \<noteq> [] \<and> list_all (\<lambda>c. is_digit c \<or> (of_char c :: nat) \<in> {178, 179, 185}) s"

definition extract_sequence :: "(pyval \<times> pyval) list \<Rightarrow> exn + int" where
  "extract_sequence block =
     (let raw_value = (case find (\<lambda>key. dict_get block key \<noteq> None) SEQUENCE_FIELDS of
                         None \<Rightarrow> PNone | Some key \<Rightarrow> the (dict_get block key));
          bounded = (\<lambda>n. if 0 \<le> n \<and> n \<le> MAX_SEQUENCE then Inr n else Inl BlockPollerValidationError)
      in case raw_value of
           PStr s \<Rightarrow>
             (let candidate = py_strip s in
              if \<not> py_isdigit candidate then Inl BlockPollerValidationError
              else case py_int_str candidate of Inl e \<Rightarrow> Inl e | Inr n \<Rightarrow> bounded n)
         | PInt n \<Rightarrow> bounded n
         | _ \<Rightarrow> Inl BlockPollerValidationError)"

definition identifier_re :: "string \<Rightarrow> bool" where
  "identifier_re s \<longleftrightarrow>
     (case s of
        [] \<Rightarrow> False
      | c # cs \<Rightarrow> (is_letter c \<or> is_digit c) \<and> list_all (\<lambda>d. is_letter d \<or> is_digit d \<or> d \<in> set ''._:+/=-'') cs)"

fun sanitize_identifier :: "sanitizer \<Rightarrow> pyval \<Rightarrow> exn + str" where
  "sanitize_identifier sz (PStr s) =
     (case clean_text (sz_max_identifier_length sz) s of
        Inl e \<Rightarrow> Inl e
      | Inr t \<Rightarrow>
          (let cleaned = py_strip t in
           if cleaned = [] \<or> \<not> identifier_re cleaned then Inl BlockPollerValidationError else Inr cleaned))"
| "sanitize_identifier sz _ = Inl BlockPollerValidationError"

fun sanitize_identifiers :: "sanitizer \<Rightarrow> str list \<Rightarrow> (pyval \<times> pyval) list \<Rightarrow> exn + (pyval \<times> pyval) list" where
  "sanitize_identifiers sz [] record = Inr record"
| "sanitize_identifiers sz (key # keys) record =
     (case dict_get record key of
        None \<Rightarrow> sanitize_identifiers sz keys record
      | Some v \<Rightarrow>
          (case sanitize_identifier sz v of
             Inl e \<Rightarrow> Inl e
           | Inr s \<Rightarrow> sanitize_identifiers sz keys (dict_set (PStr key) (PStr s) record)))"

fun sanitize_transaction :: "sanitizer \<Rightarrow> pyval \<Rightarrow> exn + pyval" where
  "sanitize_transaction sz (PDict d) = map_sum id PDict (sanitize_identifiers sz IDENTIFIER_FIELDS d)"
| "sanitize_transaction sz _ = Inl BlockPollerValidationError"

definition sanitize_transactions :: "sanitizer \<Rightarrow> (pyval \<times> pyval) list \<Rightarrow> exn + (pyval \<times> pyval) list" where
  "sanitize_transactions sz block =
     (case dict_get block ''transactions'' of
        None \<Rightarrow> Inr block
      | Some PNone \<Rightarrow> Inr block
      | Some (PList transactions) \<Rightarrow>
          if length transactions > sz_max_transactions sz then Inl BlockPollerValidationError
          else (case traverse (sanitize_transaction sz) transactions of
                  Inl e \<Rightarrow> Inl e
                | Inr ts \<Rightarrow> Inr (dict_set (PStr ''transactions'') (PList ts) block))
      | Some _ \<Rightarrow> Inl BlockPollerValidationError)"

definition sanitize_block_payload ::
  "(rat \<Rightarrow> string) \<Rightarrow> sanitizer \<Rightarrow> pyval \<Rightarrow> exn + (pyval \<times> pyval) list" where
  "sanitize_block_payload rp sz payload =
     (case payload of
        PDict d \<Rightarrow>
          (case validate_payload_size rp sz payload of
             Inl e \<Rightarrow> Inl e
           | Inr u \<Rightarrow>
               (case sanitize_value sz 0 payload of
                  Inr (PDict block) \<Rightarrow>
                    (case extract_sequence block of
                       Inl e \<Rightarrow> Inl e
                     | Inr n \<Rightarrow>
                         (case sanitize_identifiers sz IDENTIFIER_FIELDS (dict_set (PStr ''sequence'') (PInt n) block) of
                            Inl e \<Rightarrow> Inl e
                          | Inr block2 \<Rightarrow> sanitize_transactions sz block2))
                | Inr v \<Rightarrow> Inl TypeError
                | Inl e \<Rightarrow> Inl e))
      | _ \<Rightarrow> Inl BlockPollerValidationError)"

section \<open>The poller\<close>

record block_poller_cfg =
  hp_poll_interval :: rat
  hp_max_retries :: nat
  hp_base_delay :: rat
  hp_max_delay :: rat
  hp_jitter_ratio :: rat
  hp_rate_limit :: nat
  hp_rate_window :: time
  hp_sanitizer :: sanitizer

text \<open>The checks of the constructor, its option helpers and the limiter's constructor.\<close>

definition block_poller_valid :: "int \<Rightarrow> block_poller_cfg \<Rightarrow> bool" where
  "block_poller_valid start_sequence cfg \<longleftrightarrow>
     start_sequence \<ge> 0 \<and> hp_poll_interval cfg > 0 \<and> hp_base_delay cfg \<ge> 0 \<and> hp_max_delay cfg > 0 \<and>
     0 \<le> hp_jitter_ratio cfg \<and> hp_jitter_ratio cfg \<le> 1 \<and> hp_rate_limit cfg > 0 \<and> hp_rate_window cfg > 0"

record block_poller =
  hp_next_sequence :: int
  hp_timestamps :: "time list"

type_synonym 'w block_fetch = "int \<Rightarrow> 'w \<Rightarrow> (exn + pyval) \<times> 'w"
type_synonym 'w block_process = "(pyval \<times> pyval) list \<Rightarrow> 'w \<Rightarrow> (exn + unit) \<times> 'w"

datatype poll_outcome = Processed int nat "(pyval \<times> pyval) list" | RateLimited

text \<open>\<open>_retry_delay\<close>; the draw of the \<open>i\<close>-th delay is \<open>draws i\<close>.\<close>

definition hardened_delay :: "block_poller_cfg \<Rightarrow> (nat \<Rightarrow> rat \<Rightarrow> rat) \<Rightarrow> nat \<Rightarrow> rat" where
  "hardened_delay cfg draws i =
     (case compute_retry_delay (int i) (hp_base_delay cfg) (hp_max_delay cfg) (hp_jitter_ratio cfg) (draws i) of
        Inr d \<Rightarrow> d | Inl e \<Rightarrow> 0)"

text \<open>One attempt: the call and the sanitising; any exception of either.\<close>

definition fetch_sanitized ::
  "(rat \<Rightarrow> string) \<Rightarrow> 'w block_fetch \<Rightarrow> block_poller_cfg \<Rightarrow> int \<Rightarrow> 'w \<Rightarrow> (exn + (pyval \<times> pyval) list) \<times> 'w" where
  "fetch_sanitized rp fetch cfg n w =
     (case fetch n w of
        (Inl e, w1) \<Rightarrow> (Inl e, w1)
      | (Inr payload, w1) \<Rightarrow> (sanitize_block_payload rp (hp_sanitizer cfg) payload, w1))"

text \<open>The loop of \<open>_fetch_with_retry\<close> after \<open>attempts\<close> failed attempts, with the delays it sleeps.\<close>

function hardened_fetch ::
  "(rat \<Rightarrow> string) \<Rightarrow> 'w block_fetch \<Rightarrow> block_poller_cfg \<Rightarrow> (nat \<Rightarrow> rat \<Rightarrow> rat) \<Rightarrow> int \<Rightarrow> nat \<Rightarrow> 'w
    \<Rightarrow> (exn + (pyval \<times> pyval) list \<times> nat) \<times> rat list \<times> 'w" where
  "hardened_fetch rp fetch cfg draws n attempts w =
     (case fetch_sanitized rp fetch cfg n w of
        (Inr block, w1) \<Rightarrow> (Inr (block, attempts + 1), [], w1)
      | (Inl e, w1) \<Rightarrow>
          if e = BlockPollerValidationError then (Inl e, [], w1)
          else if attempts + 1 > hp_max_retries cfg then (Inl BlockPollerFetchError, [], w1)
          else (case hardened_fetch rp fetch cfg draws n (attempts + 1) w1 of
                  (r, ds, w2) \<Rightarrow> (r, hardened_delay cfg draws attempts # ds, w2)))"
  by pat_completeness auto
termination
  by (relation "measure (\<lambda>(rp, fetch, cfg, draws, n, attempts, w). hp_max_retries cfg - attempts)") auto

declare hardened_fetch.simps [simp del]

definition sequence_of :: "(pyval \<times> pyval) list \<Rightarrow> int" where
  "sequence_of block = (case dict_get block ''sequence'' of Some (PInt n) \<Rightarrow> n | _ \<Rightarrow> 0)"

definition hardened_poll ::
  "(rat \<Rightarrow> string) \<Rightarrow> 'w block_fetch \<Rightarrow> 'w block_process \<Rightarrow> block_poller_cfg \<Rightarrow> (nat \<Rightarrow> rat \<Rightarrow> rat) \<Rightarrow> time \<Rightarrow> block_poller \<Rightarrow> 'w
    \<Rightarrow> (exn + poll_outcome) \<times> block_poller \<times> 'w" where
  "hardened_poll rp fetch process cfg draws t p w =
     (case try_acquire (hp_rate_limit cfg) (hp_rate_window cfg) t (hp_timestamps p) of
        (False, ts) \<Rightarrow> (Inr RateLimited, p\<lparr>hp_timestamps := ts\<rparr>, w)
      | (True, ts) \<Rightarrow>
          (let p1 = p\<lparr>hp_timestamps := ts\<rparr> in
           case hardened_fetch rp fetch cfg draws (hp_next_sequence p) 0 w of
             (Inl e, ds, w1) \<Rightarrow> (Inl e, p1, w1)
           | (Inr (block, attempts), ds, w1) \<Rightarrow>
               (case process block w1 of
                  (Inl e, w2) \<Rightarrow> (Inl e, p1, w2)
                | (Inr u, w2) \<Rightarrow>
                    (Inr (Processed (sequence_of block) attempts block),
                     p1\<lparr>hp_next_sequence := sequence_of block + 1\<rparr>, w2))))"

text \<open>\<open>run_forever\<close> for the times of the polls before the stop event: every exception is logged and swallowed.\<close>

fun run_forever ::
  "(rat \<Rightarrow> string) \<Rightarrow> 'w block_fetch \<Rightarrow> 'w block_process \<Rightarrow> block_poller_cfg \<Rightarrow> (nat \<Rightarrow> rat \<Rightarrow> rat) \<Rightarrow> time list \<Rightarrow> block_poller \<Rightarrow> 'w
    \<Rightarrow> block_poller \<times> 'w" where
  "run_forever rp fetch process cfg draws [] p w = (p, w)"
| "run_forever rp fetch process cfg draws (t # ts) p w =
     (case hardened_poll rp fetch process cfg draws t p w of
        (r, p1, w1) \<Rightarrow> run_forever rp fetch process cfg draws ts p1 w1)"

section \<open>What sanitising guarantees\<close>

definition clean_string :: "nat \<Rightarrow> string \<Rightarrow> bool" where
  "clean_string n s \<longleftrightarrow> length s \<le> n \<and> (\<forall>c \<in> set s. \<not> control_char c)"

fun clean_key :: "sanitizer \<Rightarrow> pyval \<Rightarrow> bool" where
  "clean_key sz (PStr s) \<longleftrightarrow> clean_string (sz_max_identifier_length sz) s \<and> py_strip s \<noteq> []"
| "clean_key sz _ \<longleftrightarrow> False"

text \<open>Values within all limits: no deeper, longer or larger than allowed, without control characters and special floats.\<close>

function clean :: "sanitizer \<Rightarrow> nat \<Rightarrow> pyval \<Rightarrow> bool" where
  "clean sz depth v \<longleftrightarrow> depth \<le> sz_max_depth sz \<and>
     (case v of
        PFloat f \<Rightarrow> (\<exists>q. f = Finite q)
      | PStr s \<Rightarrow> clean_string (sz_max_string_length sz) s
      | PList xs \<Rightarrow> length xs \<le> sz_max_collection_items sz \<and> (\<forall>x \<in> set xs. clean sz (depth + 1) x)
      | PTuple xs \<Rightarrow> False
      | PDict kvs \<Rightarrow> length kvs \<le> sz_max_collection_items sz \<and> distinct (map fst kvs) \<and>
          (\<forall>(k, x) \<in> set kvs. clean_key sz k \<and> clean sz (depth + 1) x)
      | POther \<Rightarrow> False
      | _ \<Rightarrow> True)"
  by pat_completeness auto
termination
  by (relation "measure (\<lambda>(sz, depth, v). size v)") (auto dest: size_list_value size_dict_value)

declare clean.simps [simp del]

lemma clean_text_Inr: "clean_text n s = Inr t \<Longrightarrow> clean_string n t"
  by (auto simp: clean_text_def clean_string_def Let_def split: if_splits)

lemma clean_text_fixed: "clean_string n s \<Longrightarrow> clean_text n s = Inr s"
  by (auto simp: clean_text_def clean_string_def Let_def control_char_def filter_id_conv)

lemma clean_text_Inl: "clean_text n s = Inl e \<Longrightarrow> e = BlockPollerValidationError"
  by (auto simp: clean_text_def Let_def split: if_splits)

lemma sanitize_key_Inr: "sanitize_key sz k = Inr t \<Longrightarrow> clean_key sz (PStr t)"
  by (cases k) (auto dest: clean_text_Inr split: sum.splits if_splits)

lemma sanitize_key_fixed: "clean_key sz k \<Longrightarrow> \<exists>t. k = PStr t \<and> sanitize_key sz k = Inr t"
  by (cases k) (auto simp: clean_text_fixed)

lemma sanitize_items_Inr:
  assumes "sanitize_items skey sval acc kvs = Inr out" "distinct (map fst acc)"
  shows "distinct (map fst out) \<and> length out = length acc + length kvs \<and>
         (\<forall>(k, x) \<in> set out. (k, x) \<in> set acc \<or> (\<exists>k0 t x0. k = PStr t \<and> skey k0 = Inr t \<and> (k0, x0) \<in> set kvs \<and> sval x0 = Inr x))"
  using assms
proof (induction skey sval acc kvs rule: sanitize_items.induct)
  case (2 skey sval acc raw_key raw_item items)
  from "2.prems"(1) obtain t y where t: "skey raw_key = Inr t" "PStr t \<notin> fst ` set acc" "sval raw_item = Inr y"
    by (auto split: sum.splits if_splits)
  with "2.prems" have "sanitize_items skey sval (acc @ [(PStr t, y)]) items = Inr out"
      "distinct (map fst (acc @ [(PStr t, y)]))" by auto
  from "2.IH" [OF t this] t show ?case by fastforce
qed auto

lemma sanitize_items_fixed:
  assumes "\<forall>(k, x) \<in> set kvs. (\<exists>t. k = PStr t \<and> skey k = Inr t) \<and> sval x = Inr x" "distinct (map fst (acc @ kvs))"
  shows "sanitize_items skey sval acc kvs = Inr (acc @ kvs)"
  using assms
proof (induction kvs arbitrary: acc)
  case (Cons p kvs)
  obtain k x where p: "p = (k, x)" by fastforce
  with Cons.prems obtain t where "k = PStr t" "skey k = Inr t" "sval x = Inr x" by auto
  with Cons.IH [of "acc @ [p]"] Cons.prems p show ?case by auto
qed simp

lemma sanitize_value_clean: "sanitize_value sz depth v = Inr v1 \<Longrightarrow> clean sz depth v1"
proof (induction sz depth v arbitrary: v1 rule: sanitize_value.induct)
  case (1 sz depth v)
  have d: "depth \<le> sz_max_depth sz" using "1.prems" by (auto simp: sanitize_value.simps [of sz depth v] split: if_splits)
  have many: "clean sz depth v1"
    if xs: "traverse (sanitize_value sz (depth + 1)) xs = Inr ys" "v1 = PList ys" "length xs \<le> sz_max_collection_items sz"
      and ih: "\<And>x y. x \<in> set xs \<Longrightarrow> sanitize_value sz (depth + 1) x = Inr y \<Longrightarrow> clean sz (depth + 1) y" for xs ys
  proof -
    have "clean sz (depth + 1) y" if "y \<in> set ys" for y using traverse_Inr_set [OF xs(1) that] ih by blast
    with d xs(2,3) traverse_Inr_length [OF xs(1)] show ?thesis by (simp add: clean.simps [of sz depth])
  qed
  show ?case
  proof (cases v)
    case (PFloat f)
    with "1.prems" d show ?thesis
      by (cases f) (auto simp: sanitize_value.simps [of sz depth] clean.simps [of sz depth] split: if_splits)
  next
    case (PStr s)
    with "1.prems" d show ?thesis
      by (cases "clean_text (sz_max_string_length sz) s")
         (auto simp: sanitize_value.simps [of sz depth] clean.simps [of sz depth] dest: clean_text_Inr split: if_splits)
  next
    case (PList xs)
    with "1.prems" d have "length xs \<le> sz_max_collection_items sz"
        "map_sum id PList (traverse (sanitize_value sz (depth + 1)) xs) = Inr v1"
      by (auto simp: sanitize_value.simps [of sz depth] split: if_splits)
    with many "1.IH"(1) [OF _ PList] d show ?thesis
      by (cases "traverse (sanitize_value sz (depth + 1)) xs") auto
  next
    case (PTuple xs)
    with "1.prems" d have "length xs \<le> sz_max_collection_items sz"
        "map_sum id PList (traverse (sanitize_value sz (depth + 1)) xs) = Inr v1"
      by (auto simp: sanitize_value.simps [of sz depth] split: if_splits)
    with many "1.IH"(2) [OF _ PTuple] d show ?thesis
      by (cases "traverse (sanitize_value sz (depth + 1)) xs") auto
  next
    case (PDict kvs)
    with "1.prems" d have len: "length kvs \<le> sz_max_collection_items sz" and
        "map_sum id PDict (sanitize_items (sanitize_key sz) (sanitize_value sz (depth + 1)) [] kvs) = Inr v1"
      by (auto simp: sanitize_value.simps [of sz depth] split: if_splits)
    then obtain out where out: "sanitize_items (sanitize_key sz) (sanitize_value sz (depth + 1)) [] kvs = Inr out"
        "v1 = PDict out"
      by (cases "sanitize_items (sanitize_key sz) (sanitize_value sz (depth + 1)) [] kvs") auto
    have "clean_key sz k \<and> clean sz (depth + 1) x" if "(k, x) \<in> set out" for k x
      using sanitize_items_Inr [OF out(1)] that "1.IH"(3) [OF _ PDict] d len sanitize_key_Inr by fastforce
    with sanitize_items_Inr [OF out(1)] out(2) d len show ?thesis by (auto simp: clean.simps [of sz depth])
  qed (use "1.prems" d in \<open>auto simp: sanitize_value.simps [of sz depth] clean.simps [of sz depth]\<close>)
qed

lemma clean_fixed: "clean sz depth v \<Longrightarrow> sanitize_value sz depth v = Inr v"
proof (induction sz depth v rule: clean.induct)
  case (1 sz depth v)
  have d: "depth \<le> sz_max_depth sz" using "1.prems" by (simp add: clean.simps [of sz depth])
  show ?case
  proof (cases v)
    case (PFloat f)
    with "1.prems" d show ?thesis by (auto simp: sanitize_value.simps [of sz depth] clean.simps [of sz depth])
  next
    case (PStr s)
    with "1.prems" d show ?thesis
      by (simp add: sanitize_value.simps [of sz depth] clean.simps [of sz depth] clean_text_fixed)
  next
    case (PList xs)
    with "1.prems" "1.IH"(1) [OF PList] have "\<forall>x \<in> set xs. sanitize_value sz (depth + 1) x = Inr x"
      by (auto simp: clean.simps [of sz depth])
    with traverse_fixed have "traverse (sanitize_value sz (depth + 1)) xs = Inr xs" by blast
    with PList "1.prems" d show ?thesis by (simp add: sanitize_value.simps [of sz depth] clean.simps [of sz depth])
  next
    case (PDict kvs)
    with "1.prems" "1.IH"(2) [OF PDict] sanitize_key_fixed
    have "\<forall>(k, x) \<in> set kvs. (\<exists>t. k = PStr t \<and> sanitize_key sz k = Inr t) \<and> sanitize_value sz (depth + 1) x = Inr x"
      by (fastforce simp: clean.simps [of sz depth])
    with PDict "1.prems" d show ?thesis
      by (simp add: sanitize_value.simps [of sz depth] clean.simps [of sz depth] sanitize_items_fixed)
  qed (use "1.prems" d in \<open>auto simp: sanitize_value.simps [of sz depth] clean.simps [of sz depth]\<close>)
qed

text \<open>A dictionary of clean entries at a depth, and one whose identifier fields are identifiers.\<close>

definition clean_items :: "sanitizer \<Rightarrow> nat \<Rightarrow> (pyval \<times> pyval) list \<Rightarrow> bool" where
  "clean_items sz depth d \<longleftrightarrow> distinct (map fst d) \<and> (\<forall>(k, x) \<in> set d. clean_key sz k \<and> clean sz depth x)"

definition identifier_ok :: "sanitizer \<Rightarrow> pyval option \<Rightarrow> bool" where
  "identifier_ok sz v \<longleftrightarrow>
     (case v of None \<Rightarrow> True | Some (PStr s) \<Rightarrow> identifier_re s \<and> length s \<le> sz_max_identifier_length sz | _ \<Rightarrow> False)"

definition identifiers_ok :: "sanitizer \<Rightarrow> (pyval \<times> pyval) list \<Rightarrow> bool" where
  "identifiers_ok sz d \<longleftrightarrow> (\<forall>key \<in> set IDENTIFIER_FIELDS. identifier_ok sz (dict_get d key))"

lemma set_py_strip: "set (py_strip s) \<subseteq> set s" and length_py_strip: "length (py_strip s) \<le> length s"
proof -
  have "set (dropWhile P t) \<subseteq> set t" for P and t :: string by (auto dest: set_dropWhileD)
  then show "set (py_strip s) \<subseteq> set s" unfolding py_strip_def by (metis order_trans set_rev)
  have "length (dropWhile P t) \<le> length t" for P and t :: string by (rule length_dropWhile_le)
  then show "length (py_strip s) \<le> length s" unfolding py_strip_def by (metis length_rev order_trans)
qed

lemma clean_string_strip: "clean_string n s \<Longrightarrow> clean_string n (py_strip s)"
  using set_py_strip [of s] length_py_strip [of s] by (auto simp: clean_string_def)

lemma clean_str: "clean sz depth (PStr s) \<longleftrightarrow> depth \<le> sz_max_depth sz \<and> clean_string (sz_max_string_length sz) s"
  by (simp add: clean.simps)

lemma sanitize_identifier_Inr:
  assumes "sanitize_identifier sz v = Inr s"
  shows "identifier_ok sz (Some (PStr s))" and "clean sz depth v \<Longrightarrow> clean sz depth (PStr s)"
proof -
  from assms obtain t u where v: "v = PStr t" and u: "clean_text (sz_max_identifier_length sz) t = Inr u"
      and s: "s = py_strip u" "identifier_re s"
    by (cases v) (auto simp: Let_def split: sum.splits if_splits)
  with clean_string_strip [OF clean_text_Inr [OF u]] show "identifier_ok sz (Some (PStr s))"
    by (simp add: identifier_ok_def clean_string_def)
  show "clean sz depth (PStr s)" if "clean sz depth v"
  proof -
    from u have "u = filter (\<lambda>c. \<not> control_char c) t" by (auto simp: clean_text_def Let_def split: if_splits)
    with that v have "clean_string (sz_max_string_length sz) u"
      by (auto simp: clean_str clean_string_def intro: order_trans [OF length_filter_le])
    with that v s show ?thesis by (simp add: clean_str clean_string_strip)
  qed
qed

lemma dict_get_member: "dict_get d key = Some v \<Longrightarrow> (PStr key, v) \<in> set d"
  by (simp add: dict_get_def map_of_SomeD)

lemma clean_items_set:
  "clean_items sz depth d \<Longrightarrow> clean_key sz k \<Longrightarrow> clean sz depth x \<Longrightarrow> clean_items sz depth (dict_set k x d)"
  by (auto simp: clean_items_def dict_set_distinct dest!: dict_set_member)

lemma clean_items_get:
  "clean_items sz depth d \<Longrightarrow> dict_get d key = Some v \<Longrightarrow> clean_key sz (PStr key) \<and> clean sz depth v"
  using dict_get_member [of d key v] by (auto simp: clean_items_def simp del: clean_key.simps)

lemma dict_set_get_key: "dict_get (dict_set (PStr k) v d) key = (if key = k then Some v else dict_get d key)"
  by (simp add: dict_get_def)

lemma length_dict_set_present: "dict_get d key \<noteq> None \<Longrightarrow> length (dict_set (PStr key) v d) = length d"
  by (induction d) (auto simp: dict_get_def split: if_splits)

lemma sanitize_identifiers_Inr:
  assumes "sanitize_identifiers sz keys d = Inr d1" "clean_items sz depth d"
  shows "clean_items sz depth d1 \<and> length d1 = length d \<and> (\<forall>key \<in> set keys. identifier_ok sz (dict_get d1 key)) \<and>
         (\<forall>key. identifier_ok sz (dict_get d key) \<longrightarrow> identifier_ok sz (dict_get d1 key)) \<and>
         (\<forall>key. key \<notin> set keys \<longrightarrow> dict_get d1 key = dict_get d key)"
  using assms
proof (induction keys arbitrary: d)
  case (Cons key keys)
  show ?case
  proof (cases "dict_get d key")
    case None
    then have absent: "identifier_ok sz (dict_get d key)" by (simp add: identifier_ok_def)
    with Cons.IH [of d] Cons.prems None show ?thesis by auto
  next
    case (Some v)
    with Cons.prems(1) obtain s where s: "sanitize_identifier sz v = Inr s"
        "sanitize_identifiers sz keys (dict_set (PStr key) (PStr s) d) = Inr d1"
      by (auto split: sum.splits)
    note got = clean_items_get [OF Cons.prems(2) Some]
    have "clean_items sz depth (dict_set (PStr key) (PStr s) d)"
      using clean_items_set [OF Cons.prems(2)] got sanitize_identifier_Inr [OF s(1)] by blast
    from Cons.IH [OF s(2) this] sanitize_identifier_Inr(1) [OF s(1)] Some show ?thesis
      by (auto simp: dict_set_get_key length_dict_set_present split: if_splits)
  qed
qed auto

lemma clean_dict:
  "clean sz depth (PDict d) \<longleftrightarrow>
     depth \<le> sz_max_depth sz \<and> length d \<le> sz_max_collection_items sz \<and> clean_items sz (depth + 1) d"
  by (auto simp: clean.simps [of sz depth] clean_items_def)

lemma clean_list:
  "clean sz depth (PList xs) \<longleftrightarrow>
     depth \<le> sz_max_depth sz \<and> length xs \<le> sz_max_collection_items sz \<and> (\<forall>x \<in> set xs. clean sz (depth + 1) x)"
  by (auto simp: clean.simps [of sz depth])

lemma sanitize_transaction_Inr:
  assumes "sanitize_transaction sz x = Inr y" "clean sz depth x"
  shows "clean sz depth y \<and> (\<exists>d. y = PDict d \<and> identifiers_ok sz d)"
proof -
  from assms(1) obtain d where x: "x = PDict d" by (cases x) auto
  with assms(1) obtain d1 where d1: "sanitize_identifiers sz IDENTIFIER_FIELDS d = Inr d1" "y = PDict d1"
    by (cases "sanitize_identifiers sz IDENTIFIER_FIELDS d") auto
  from sanitize_identifiers_Inr [OF d1(1), of "depth + 1"] assms(2) x d1(2) show ?thesis
    by (simp add: clean_dict identifiers_ok_def)
qed

definition transactions_ok :: "sanitizer \<Rightarrow> (pyval \<times> pyval) list \<Rightarrow> bool" where
  "transactions_ok sz d \<longleftrightarrow>
     (case dict_get d ''transactions'' of
        Some (PList ts) \<Rightarrow> length ts \<le> sz_max_transactions sz \<and> (\<forall>t \<in> set ts. \<exists>x. t = PDict x \<and> identifiers_ok sz x)
      | Some PNone \<Rightarrow> True
      | None \<Rightarrow> True
      | _ \<Rightarrow> False)"

lemma sanitize_transactions_Inr:
  assumes "sanitize_transactions sz d = Inr d1" "clean_items sz depth d"
  shows "clean_items sz depth d1 \<and> length d1 = length d \<and> transactions_ok sz d1 \<and>
         (\<forall>key. key \<noteq> ''transactions'' \<longrightarrow> dict_get d1 key = dict_get d key)"
proof (cases "dict_get d ''transactions''")
  case None
  with assms show ?thesis by (simp add: sanitize_transactions_def transactions_ok_def)
next
  case (Some v)
  show ?thesis
  proof (cases v)
    case (PList ts)
    with assms(1) Some obtain us where us: "traverse (sanitize_transaction sz) ts = Inr us"
        "length ts \<le> sz_max_transactions sz" "d1 = dict_set (PStr ''transactions'') (PList us) d"
      by (auto simp: sanitize_transactions_def split: if_splits sum.splits)
    note got = clean_items_get [OF assms(2) Some]
    then have ts: "\<forall>x \<in> set ts. clean sz (depth + 1) x" "length ts \<le> sz_max_collection_items sz" "depth \<le> sz_max_depth sz"
      by (auto simp: PList clean_list)
    have each: "clean sz (depth + 1) y \<and> (\<exists>x. y = PDict x \<and> identifiers_ok sz x)" if "y \<in> set us" for y
      using traverse_Inr_set [OF us(1) that] ts(1) sanitize_transaction_Inr by blast
    have len: "length us = length ts" using traverse_Inr_length [OF us(1)] .
    have "clean sz depth (PList us)" using each ts len by (simp add: clean_list)
    then have "clean_items sz depth d1" using clean_items_set [OF assms(2)] got us(3) by blast
    moreover have "transactions_ok sz d1" using each us len by (auto simp: transactions_ok_def dict_set_get_key)
    ultimately show ?thesis using us(3) Some by (simp add: dict_set_get_key length_dict_set_present)
  qed (use assms Some in \<open>auto simp: sanitize_transactions_def transactions_ok_def\<close>)
qed

lemma extract_sequence_Inr:
  assumes "extract_sequence d = Inr n"
  shows "0 \<le> n \<and> n \<le> MAX_SEQUENCE \<and> d \<noteq> []"
proof -
  have "dict_get [] key = None" for key by (simp add: dict_get_def)
  then have "d \<noteq> []"
    using assms by (auto simp: extract_sequence_def SEQUENCE_FIELDS_def)
  moreover have "0 \<le> n \<and> n \<le> MAX_SEQUENCE"
    using assms by (auto simp: extract_sequence_def Let_def split: pyval.splits if_splits sum.splits)
  ultimately show ?thesis by simp
qed

lemma clean_int: "clean sz depth (PInt n) \<longleftrightarrow> depth \<le> sz_max_depth sz"
  by (simp add: clean.simps)

lemma sequence_key_clean: "8 \<le> sz_max_identifier_length sz \<Longrightarrow> clean_key sz (PStr ''sequence'')"
  by (simp add: clean_string_def control_char_def py_strip_def is_blank_def)

lemma sanitize_block_Inr:
  assumes "sanitize_block_payload rp sz payload = Inr block"
  obtains d d1 n d2 where "payload = PDict d" "validate_payload_size rp sz payload = Inr ()"
    "sanitize_value sz 0 payload = Inr (PDict d1)" "extract_sequence d1 = Inr n"
    "sanitize_identifiers sz IDENTIFIER_FIELDS (dict_set (PStr ''sequence'') (PInt n) d1) = Inr d2"
    "sanitize_transactions sz d2 = Inr block"
  using assms by (auto simp: sanitize_block_payload_def split: pyval.splits sum.splits)

lemma sanitize_key_Inl: "sanitize_key sz k = Inl e \<Longrightarrow> e = BlockPollerValidationError"
  by (cases k) (auto dest: clean_text_Inl split: sum.splits if_splits)

lemma sanitize_items_Inl:
  "sanitize_items (sanitize_key sz) sval acc kvs = Inl e \<Longrightarrow>
    e = BlockPollerValidationError \<or> (\<exists>(k, x) \<in> set kvs. sval x = Inl e)"
proof (induction kvs arbitrary: acc)
  case (Cons p kvs)
  obtain k x where p: "p = (k, x)" by fastforce
  show ?case
  proof (cases "sanitize_key sz k")
    case (Inl e1)
    with Cons.prems p sanitize_key_Inl [OF Inl] show ?thesis by auto
  next
    case (Inr t)
    with Cons.prems Cons.IH p show ?thesis by (cases "sval x") (fastforce split: if_splits)+
  qed
qed simp

lemma map_sum_Inl: "map_sum id f r = Inl e \<Longrightarrow> r = Inl e"
  by (cases r) auto

lemma sanitize_value_Inl: "sanitize_value sz depth v = Inl e \<Longrightarrow> e = BlockPollerValidationError"
proof (induction sz depth v rule: sanitize_value.induct)
  case (1 sz depth v)
  show ?case
  proof (cases "depth \<le> sz_max_depth sz \<and> e \<noteq> BlockPollerValidationError")
    case False
    with "1.prems" show ?thesis by (auto simp: sanitize_value.simps [of sz depth])
  next
    case True
    then have d: "\<not> depth > sz_max_depth sz" by simp
    show ?thesis
    proof (cases v)
      case (PFloat f)
      with "1.prems" d show ?thesis by (cases f) (auto simp: sanitize_value.simps [of sz depth])
    next
      case (PStr s)
      with "1.prems" d have "clean_text (sz_max_string_length sz) s = Inl e"
        by (auto simp: sanitize_value.simps [of sz depth] intro: map_sum_Inl)
      then show ?thesis by (rule clean_text_Inl)
    next
      case (PList xs)
      with "1.prems" d True have len: "\<not> length xs > sz_max_collection_items sz" and
          "traverse (sanitize_value sz (depth + 1)) xs = Inl e"
        by (auto simp: sanitize_value.simps [of sz depth] intro: map_sum_Inl split: if_splits)
      with traverse_Inl [OF this(2)] "1.IH"(1) [OF d PList len] show ?thesis by blast
    next
      case (PTuple xs)
      with "1.prems" d True have len: "\<not> length xs > sz_max_collection_items sz" and
          "traverse (sanitize_value sz (depth + 1)) xs = Inl e"
        by (auto simp: sanitize_value.simps [of sz depth] intro: map_sum_Inl split: if_splits)
      with traverse_Inl [OF this(2)] "1.IH"(2) [OF d PTuple len] show ?thesis by blast
    next
      case (PDict kvs)
      with "1.prems" d True have len: "\<not> length kvs > sz_max_collection_items sz" and
          "sanitize_items (sanitize_key sz) (sanitize_value sz (depth + 1)) [] kvs = Inl e"
        by (auto simp: sanitize_value.simps [of sz depth] intro: map_sum_Inl split: if_splits)
      with sanitize_items_Inl [OF this(2)] True obtain k x where "(k, x) \<in> set kvs"
          "sanitize_value sz (depth + 1) x = Inl e" by auto
      with "1.IH"(3) [OF d PDict len] show ?thesis by blast
    qed (use "1.prems" d in \<open>auto simp: sanitize_value.simps [of sz depth]\<close>)
  qed
qed

lemma sanitize_value_dict: "sanitize_value sz depth (PDict d) = Inr v \<Longrightarrow> \<exists>d1. v = PDict d1"
  by (cases "sanitize_items (sanitize_key sz) (sanitize_value sz (depth + 1)) [] d")
     (auto simp: sanitize_value.simps [of sz depth] split: if_splits)

lemma sanitize_identifier_Inl: "sanitize_identifier sz v = Inl e \<Longrightarrow> e = BlockPollerValidationError"
  by (cases v) (auto simp: Let_def dest: clean_text_Inl split: sum.splits if_splits)

lemma sanitize_identifiers_Inl: "sanitize_identifiers sz keys d = Inl e \<Longrightarrow> e = BlockPollerValidationError"
  by (induction keys arbitrary: d) (auto dest: sanitize_identifier_Inl split: option.splits sum.splits)

lemma sanitize_transactions_Inl: "sanitize_transactions sz d = Inl e \<Longrightarrow> e = BlockPollerValidationError"
proof -
  have tx: "sanitize_transaction sz x = Inl e \<Longrightarrow> e = BlockPollerValidationError" for x
    by (cases x) (auto dest: sanitize_identifiers_Inl map_sum_Inl)
  show "sanitize_transactions sz d = Inl e \<Longrightarrow> e = BlockPollerValidationError"
    by (auto simp: sanitize_transactions_def dest!: traverse_Inl tx split: option.splits pyval.splits if_splits sum.splits)
qed

lemma extract_sequence_Inl:
  assumes "extract_sequence d = Inl e"
  shows "e = BlockPollerValidationError \<or>
    e = ValueError \<and> (\<exists>key \<in> set SEQUENCE_FIELDS. \<exists>s. dict_get d key = Some (PStr s) \<and> py_isdigit (py_strip s) \<and>
      py_int_str (py_strip s) = Inl ValueError)"
proof (cases "e = BlockPollerValidationError")
  case False
  have num: "py_int_str t = Inl x \<Longrightarrow> x = ValueError" for t x
    by (auto simp: py_int_str_def unsigned_int_def split: list.splits option.splits if_splits)
  from False assms obtain key s where key: "find (\<lambda>key. dict_get d key \<noteq> None) SEQUENCE_FIELDS = Some key"
      "the (dict_get d key) = PStr s" "py_isdigit (py_strip s)" "py_int_str (py_strip s) = Inl e"
    by (auto simp: extract_sequence_def Let_def split: pyval.splits if_splits sum.splits option.splits)
  from num [OF key(4)] have "e = ValueError" .
  moreover have "dict_get d key = Some (PStr s)" using find_Some_P [OF key(1)] key(2) by auto
  ultimately show ?thesis using find_Some_set [OF key(1)] key(3,4) by blast
qed simp

section \<open>Properties of the sanitiser\<close>


text \<open>Sanitising is idempotent: a sanitised value is within all limits, and values within all limits are left as they are.\<close>

theorem sanitising_is_idempotent:
  assumes "sanitize_value sz depth v = Inr v1"
  shows "clean sz depth v1 \<and> sanitize_value sz depth v1 = Inr v1"
  using sanitize_value_clean [OF assms] clean_fixed by blast

text \<open>The sanitiser raises its own validation error, never retried, except in one case: a sequence given as a string of characters that count as digits but have no decimal value, or of more digits than Python converts, escapes as a plain \<open>ValueError\<close>, which the fetch loop takes for a transient failure.\<close>

theorem sanitiser_errors:
  assumes "sanitize_block_payload rp sz payload = Inl e"
  shows "e = BlockPollerValidationError \<or>
    e = ValueError \<and> (\<exists>d. sanitize_value sz 0 payload = Inr (PDict d) \<and>
      (\<exists>key \<in> set SEQUENCE_FIELDS. \<exists>s. dict_get d key = Some (PStr s) \<and> py_isdigit (py_strip s) \<and>
        py_int_str (py_strip s) = Inl ValueError))"
proof (cases "e = BlockPollerValidationError")
  case False
  from False assms obtain d where d: "payload = PDict d"
    by (auto simp: sanitize_block_payload_def split: pyval.splits)
  have size: "validate_payload_size rp sz payload = Inr ()"
    using False assms d
    by (auto simp: sanitize_block_payload_def validate_payload_size_def split: option.splits if_splits sum.splits)
  obtain v where "sanitize_value sz 0 payload = Inr v"
    using False assms d size sanitize_value_Inl
    by (cases "sanitize_value sz 0 payload") (auto simp: sanitize_block_payload_def)
  with sanitize_value_dict d obtain d1 where d1: "sanitize_value sz 0 payload = Inr (PDict d1)" by blast
  have "extract_sequence d1 = Inl e"
    using False assms d size d1
    by (auto simp: sanitize_block_payload_def dest: sanitize_identifiers_Inl sanitize_transactions_Inl split: sum.splits)
  from extract_sequence_Inl [OF this] False d1 show ?thesis by blast
qed simp

section \<open>Properties of the poller\<close>

abbreviation capped_delay :: "rat \<Rightarrow> rat \<Rightarrow> int \<Rightarrow> rat" where
  "capped_delay base_delay max_delay i \<equiv> min max_delay (base_delay * 2 ^ nat (min i 32))"

lemma compute_retry_delay_value:
  assumes "compute_retry_delay i base_delay max_delay j draw = Inr d" "0 < base_delay" "0 < max_delay"
    and "D = capped_delay base_delay max_delay i"
  shows "d = (if j \<le> 0 then D else max 0 (min max_delay (D - D * min j 1 + draw (D * min j 1))))"
proof -
  have "\<not> i < 0" using assms(1) by (auto simp: compute_retry_delay_def)
  then have "compute_retry_delay i base_delay max_delay j draw =
      (if j \<le> 0 then Inr D else Inr (max 0 (min max_delay (D - D * min j 1 + draw (D * min j 1)))))"
    using assms(2,3) unfolding compute_retry_delay_def Let_def MAX_BACKOFF_EXPONENT_def assms(4) [symmetric] by simp
  with assms(1) show ?thesis by (simp split: if_splits)
qed

lemma delay_bounds:
  assumes "compute_retry_delay i base_delay max_delay j draw = Inr d" "0 \<le> j" "j \<le> 1" "0 \<le> base_delay" "0 < max_delay"
    and "\<And>x. 0 \<le> x \<Longrightarrow> 0 \<le> draw x \<and> draw x \<le> x"
  shows "(1 - j) * capped_delay base_delay max_delay i \<le> d \<and> d \<le> capped_delay base_delay max_delay i \<and> 0 \<le> d"
proof (cases "base_delay = 0")
  case True
  with assms(1,5) show ?thesis by (cases "i < 0") (simp_all add: compute_retry_delay_def)
next
  case False
  define D where "D = capped_delay base_delay max_delay i"
  have D: "0 \<le> D" "D \<le> max_delay" using assms(4,5) by (simp_all add: D_def)
  have base: "0 < base_delay" using False assms(4) by simp
  note d = compute_retry_delay_value [OF assms(1) base assms(5) D_def]
  show ?thesis
  proof (cases "j = 0")
    case True
    with d D show ?thesis unfolding D_def [symmetric] by simp
  next
    case jpos: False
    have x: "0 \<le> D * j" "D * j \<le> D" using D assms(2,3) by (simp_all add: mult_left_le)
    have r: "0 \<le> draw (D * j)" "draw (D * j) \<le> D * j" using assms(6) [OF x(1)] by simp_all
    have "min j 1 = j" using assms(3) by simp
    with d jpos assms(2) have "d = max 0 (min max_delay (D - D * j + draw (D * j)))" by simp
    with x r D have "d = D - D * j + draw (D * j)" by simp
    moreover have "(1 - j) * D = D - D * j" by (simp add: algebra_simps)
    ultimately show ?thesis unfolding D_def [symmetric] using r x by simp
  qed
qed

lemma hardened_delay_bounds:
  assumes "block_poller_valid n cfg" "\<And>i x. 0 \<le> x \<Longrightarrow> 0 \<le> draws i x \<and> draws i x \<le> x"
  shows "0 \<le> hardened_delay cfg draws i \<and> hardened_delay cfg draws i \<le> hp_max_delay cfg"
proof -
  have v: "0 \<le> hp_jitter_ratio cfg" "hp_jitter_ratio cfg \<le> 1" "0 \<le> hp_base_delay cfg" "0 < hp_max_delay cfg"
    using assms(1) by (simp_all add: block_poller_valid_def)
  show ?thesis
  proof (cases "compute_retry_delay (int i) (hp_base_delay cfg) (hp_max_delay cfg) (hp_jitter_ratio cfg) (draws i)")
    case (Inr d)
    from delay_bounds [OF Inr v assms(2)] Inr show ?thesis by (simp add: hardened_delay_def)
  qed (use v in \<open>simp add: hardened_delay_def\<close>)
qed

lemma fetch_sanitized_world: "snd (fetch_sanitized rp fetch cfg n w) = snd (fetch n w)"
  by (simp add: fetch_sanitized_def split: prod.splits sum.splits)

lemma hardened_fetch_spec:
  assumes "hardened_fetch rp fetch cfg draws n a w = (r, ds, w1)" "a \<le> hp_max_retries cfg"
  shows "a + length ds \<le> hp_max_retries cfg \<and> w1 = ((\<lambda>w. snd (fetch n w)) ^^ (length ds + 1)) w \<and>
         ds = map (hardened_delay cfg draws) [a..<a + length ds] \<and>
         (\<forall>block k. r = Inr (block, k) \<longrightarrow> k = a + length ds + 1 \<and>
            (\<exists>v. fst (fetch_sanitized rp fetch cfg n v) = Inr block)) \<and>
         (\<forall>e. r = Inl e \<longrightarrow> e = BlockPollerValidationError \<or> e = BlockPollerFetchError \<and> a + length ds = hp_max_retries cfg)"
  using assms
proof (induction rp fetch cfg draws n a w arbitrary: r ds rule: hardened_fetch.induct)
  case (1 rp fetch cfg draws n a w)
  obtain f wf where f: "fetch_sanitized rp fetch cfg n w = (f, wf)" by fastforce
  then have wf: "wf = snd (fetch n w)" using fetch_sanitized_world [of rp fetch cfg n w] by simp
  note unfold = hardened_fetch.simps [of rp fetch cfg draws n a w, unfolded f prod.case]
  show ?case
  proof (cases f)
    case (Inr block)
    with "1.prems" unfold have "r = Inr (block, a + 1)" "ds = []" "w1 = wf" by auto
    moreover have "fst (fetch_sanitized rp fetch cfg n w) = Inr block" using f Inr by simp
    ultimately show ?thesis using "1.prems"(2) wf by auto
  next
    case (Inl e)
    show ?thesis
    proof (cases "e = BlockPollerValidationError \<or> a + 1 > hp_max_retries cfg")
      case True
      with "1.prems" unfold Inl have "r = Inl BlockPollerValidationError \<or> r = Inl BlockPollerFetchError \<and> a + 1 > hp_max_retries cfg"
          "ds = []" "w1 = wf" by (auto split: if_splits)
      with "1.prems"(2) wf show ?thesis by auto
    next
      case False
      obtain ds2 where rest: "hardened_fetch rp fetch cfg draws n (a + 1) wf = (r, ds2, w1)"
          and ds: "ds = hardened_delay cfg draws a # ds2"
        using "1.prems"(1) unfold Inl False by (auto split: prod.splits)
      have ih: "a + 1 + length ds2 \<le> hp_max_retries cfg \<and> w1 = ((\<lambda>w. snd (fetch n w)) ^^ (length ds2 + 1)) wf \<and>
          ds2 = map (hardened_delay cfg draws) [a + 1..<a + 1 + length ds2] \<and>
          (\<forall>block k. r = Inr (block, k) \<longrightarrow> k = a + 1 + length ds2 + 1 \<and>
            (\<exists>v. fst (fetch_sanitized rp fetch cfg n v) = Inr block)) \<and>
          (\<forall>e. r = Inl e \<longrightarrow> e = BlockPollerValidationError \<or>
            e = BlockPollerFetchError \<and> a + 1 + length ds2 = hp_max_retries cfg)"
        using "1.IH" [OF f [symmetric] Inl] False rest by auto
      have "((\<lambda>w. snd (fetch n w)) ^^ (length ds2 + 1)) wf = ((\<lambda>w. snd (fetch n w)) ^^ (length ds + 1)) w"
      proof -
        have "length ds + 1 = Suc (length ds2 + 1)" by (simp add: ds)
        then show ?thesis by (simp only: funpow_Suc_right o_apply wf)
      qed
      moreover have "ds = map (hardened_delay cfg draws) [a..<a + length ds]"
        using ih unfolding ds by (simp add: upt_conv_Cons del: upt_Suc)
      ultimately show ?thesis using ih ds by simp
    qed
  qed
qed

lemma dropWhile_sorted_filter: "sorted ts \<Longrightarrow> dropWhile (\<lambda>x. x \<le> b) ts = filter (\<lambda>x. b < x) (ts :: time list)"
proof (induction ts)
  case (Cons t ts)
  show ?case
  proof (cases "t \<le> b")
    case False
    with Cons.prems have "\<forall>x \<in> set ts. b < x" by auto
    with False show ?thesis by (simp add: not_le filter_id_conv)
  qed (use Cons in auto)
qed simp

lemma try_acquire_filter:
  "sorted ts \<Longrightarrow> try_acquire n window t ts =
    (if length (filter (\<lambda>x. t - window < x) ts) \<ge> n then (False, filter (\<lambda>x. t - window < x) ts)
     else (True, filter (\<lambda>x. t - window < x) ts @ [t]))"
  by (simp add: try_acquire_def discard_expired_def dropWhile_sorted_filter Let_def)

interpretation poll_window: window_limiter "\<lambda>t (k :: unit). try_acquire n window t" "\<lambda>k ts. ts" "\<lambda>u h. h > u - window" n
  "\<lambda>t ts. sorted ts \<and> (\<forall>x \<in> set ts. x \<le> t)"
  for n window
proof unfold_locales
  fix t0 t u h :: time and ts :: "time list" and j k :: unit
  show "h > t - window" if "h > u - window" "t \<le> u" using that by linarith
  assume ok: "sorted ts \<and> (\<forall>x \<in> set ts. x \<le> t0)" and t: "t0 \<le> t"
  show "fst (try_acquire n window t ts) \<longleftrightarrow> length (filter (\<lambda>h. h > t - window) ts) < n"
    using ok by (auto simp: try_acquire_filter)
  show "length (filter (\<lambda>h. h > u - window) (snd (try_acquire n window t ts))) =
      length (filter (\<lambda>h. h > u - window) (ts @ (if j = k \<and> fst (try_acquire n window t ts) then [t] else [])))"
    if "t \<le> u"
    using ok filter_prune [OF that, of window ts] by (auto simp: try_acquire_filter)
  show "sorted (snd (try_acquire n window t ts)) \<and> (\<forall>x \<in> set (snd (try_acquire n window t ts)). x \<le> t)"
    using ok t by (auto simp: try_acquire_filter sorted_append sorted_wrt_filter)
qed

text \<open>The sliding window lets at most \<open>max_requests\<close> polls through within any window, whatever the times of the calls.\<close>

theorem poll_window_bound:
  assumes "sorted (map fst calls)" "\<forall>(t, k) \<in> set calls. t \<le> u"
  shows "length (filter (\<lambda>h. h > u - window) (granted (\<lambda>t k. try_acquire n window t) () calls [])) \<le> n"
proof -
  let ?t0 = "if calls = [] then u else fst (hd calls)"
  have "sorted (?t0 # map fst calls)" using assms(1) by (cases calls) auto
  moreover have "?t0 \<le> u" using assms(2) by (cases calls) auto
  ultimately show ?thesis
    using poll_window.granted_bound [of "[]" ?t0 calls u window n "()"] assms(2) by simp
qed

theorem poll_window_bound_witness:
  "length (filter (\<lambda>h. h > 3 - 10) (granted (\<lambda>t k. try_acquire 2 10 t) () [(1, ()), (2, ()), (3, ())] [])) \<le> 2"
  by (rule poll_window_bound) simp_all

text \<open>A delay lies between the un-jittered share and the whole of the capped exponential delay, so it never exceeds the maximum and is never negative.\<close>

theorem retry_delay_bounds:
  assumes "compute_retry_delay i base_delay max_delay j draw = Inr d" "0 \<le> j" "j \<le> 1" "0 \<le> base_delay" "0 < max_delay"
    and "\<And>x. 0 \<le> x \<Longrightarrow> 0 \<le> draw x \<and> draw x \<le> x"
  shows "(1 - j) * capped_delay base_delay max_delay i \<le> d \<and> d \<le> capped_delay base_delay max_delay i \<and> 0 \<le> d"
  using assms by (rule delay_bounds)

text \<open>The fetch loop of one poll ends after at most \<open>max_retries + 1\<close> requests, which it makes one after the other; it sleeps between them, never longer than the maximum delay; it gives up for a validation error at once and otherwise only after the last allowed request.  All these requests use one slot of the rate limit.\<close>

theorem hardened_retries_bounded:
  assumes "hardened_fetch rp fetch cfg draws n 0 w = (r, ds, w1)"
    and "block_poller_valid n cfg" "\<And>i x. 0 \<le> x \<Longrightarrow> 0 \<le> draws i x \<and> draws i x \<le> x"
  shows "length ds \<le> hp_max_retries cfg \<and> w1 = ((\<lambda>w. snd (fetch n w)) ^^ (length ds + 1)) w \<and>
         (\<forall>d \<in> set ds. 0 \<le> d \<and> d \<le> hp_max_delay cfg) \<and>
         (\<forall>block k. r = Inr (block, k) \<longrightarrow> k = length ds + 1) \<and>
         (\<forall>e. r = Inl e \<longrightarrow> e = BlockPollerValidationError \<or> e = BlockPollerFetchError \<and> length ds = hp_max_retries cfg)"
proof -
  note spec = hardened_fetch_spec [OF assms(1) le0]
  have "\<forall>d \<in> set ds. \<exists>i. d = hardened_delay cfg draws i"
    using spec by (metis (no_types, lifting) imageE list.set_map)
  moreover have "0 \<le> hardened_delay cfg draws i \<and> hardened_delay cfg draws i \<le> hp_max_delay cfg" for i
    by (rule hardened_delay_bounds [OF assms(2)]) (fact assms(3))
  ultimately have "\<forall>d \<in> set ds. 0 \<le> d \<and> d \<le> hp_max_delay cfg" by fastforce
  with spec show ?thesis by simp
qed

lemma hardened_poll_cases:
  assumes "hardened_poll rp fetch process cfg draws t p w = (r, p1, w1)"
  obtains (limited) "r = Inr RateLimited" "hp_next_sequence p1 = hp_next_sequence p" "w1 = w"
  | (failed) e wf where "r = Inl e" "hp_next_sequence p1 = hp_next_sequence p"
      "\<exists>i. wf = ((\<lambda>w. snd (fetch (hp_next_sequence p) w)) ^^ i) w"
      "w1 = wf \<or> (\<exists>block. process block wf = (Inl e, w1))"
  | (processed) block k wf u v i where "r = Inr (Processed (sequence_of block) k block)"
      "hp_next_sequence p1 = sequence_of block + 1" "process block wf = (Inr u, w1)"
      "wf = ((\<lambda>w. snd (fetch (hp_next_sequence p) w)) ^^ i) w"
      "fst (fetch_sanitized rp fetch cfg (hp_next_sequence p) v) = Inr block"
proof (cases "fst (try_acquire (hp_rate_limit cfg) (hp_rate_window cfg) t (hp_timestamps p))")
  case False
  then obtain ts where "try_acquire (hp_rate_limit cfg) (hp_rate_window cfg) t (hp_timestamps p) = (False, ts)"
    by (metis (full_types) prod.collapse)
  with assms limited show ?thesis by (auto simp: hardened_poll_def)
next
  case True
  then obtain ts where slot: "try_acquire (hp_rate_limit cfg) (hp_rate_window cfg) t (hp_timestamps p) = (True, ts)"
    by (metis (full_types) prod.collapse)
  obtain f ds wf where fetch: "hardened_fetch rp fetch cfg draws (hp_next_sequence p) 0 w = (f, ds, wf)"
    by (metis prod_cases3)
  note spec = hardened_fetch_spec [OF fetch le0]
  show ?thesis
  proof (cases f)
    case (Inl e)
    with assms slot fetch have "r = Inl e" "hp_next_sequence p1 = hp_next_sequence p" "w1 = wf"
      by (auto simp: hardened_poll_def)
    with failed [of e wf] spec show ?thesis by blast
  next
    case (Inr bk)
    then obtain block k where f: "f = Inr (block, k)" by (cases bk) auto
    obtain g wg where call: "process block wf = (g, wg)" by fastforce
    show ?thesis
    proof (cases g)
      case (Inl e)
      with assms slot fetch f call have "r = Inl e" "hp_next_sequence p1 = hp_next_sequence p" "w1 = wg"
        by (auto simp: hardened_poll_def)
      with failed [of e wf] spec call Inl show ?thesis by blast
    next
      case (Inr u)
      with assms slot fetch f call have "r = Inr (Processed (sequence_of block) k block)"
          "hp_next_sequence p1 = sequence_of block + 1" "w1 = wg"
        by (auto simp: hardened_poll_def)
      with processed [of block k wf u] spec call Inr f show ?thesis by blast
    qed
  qed
qed

lemma sanitized_sequence:
  assumes "sanitize_block_payload rp sz payload = Inr block"
  shows "dict_get block ''sequence'' = Some (PInt (sequence_of block)) \<and> 0 \<le> sequence_of block \<and> sequence_of block \<le> MAX_SEQUENCE \<and>
         (\<exists>d1. sanitize_value sz 0 payload = Inr (PDict d1) \<and> extract_sequence d1 = Inr (sequence_of block))"
proof -
  from sanitize_block_Inr [OF assms] obtain d d1 n d2 where steps: "payload = PDict d"
    "validate_payload_size rp sz payload = Inr ()" "sanitize_value sz 0 payload = Inr (PDict d1)" "extract_sequence d1 = Inr n"
    "sanitize_identifiers sz IDENTIFIER_FIELDS (dict_set (PStr ''sequence'') (PInt n) d1) = Inr d2"
    "sanitize_transactions sz d2 = Inr block" .
  have keep: "sanitize_identifiers sz keys d = Inr d' \<Longrightarrow> ''sequence'' \<notin> set keys \<Longrightarrow>
      dict_get d' ''sequence'' = dict_get d ''sequence''" for keys d d'
    by (induction keys arbitrary: d) (auto simp: dict_set_get_key split: option.splits sum.splits)
  have "dict_get d2 ''sequence'' = Some (PInt n)"
    using keep [OF steps(5)] by (simp add: IDENTIFIER_FIELDS_def dict_set_get_key)
  moreover have "dict_get block ''sequence'' = dict_get d2 ''sequence''"
    using steps(6) by (auto simp: sanitize_transactions_def dict_set_get_key split: option.splits pyval.splits if_splits sum.splits)
  ultimately show ?thesis using extract_sequence_Inr [OF steps(4)] steps(3,4) by (simp add: sequence_of_def)
qed

lemma fetched_sequence:
  assumes "fst (fetch_sanitized rp fetch cfg n v) = Inr block"
  obtains payload where "fst (fetch n v) = Inr payload" "sanitize_block_payload rp (hp_sanitizer cfg) payload = Inr block"
  using assms by (auto simp: fetch_sanitized_def split: prod.splits sum.splits)

text \<open>With an upstream that answers a request for a sequence number with a block of that number, the poller hands the blocks to the consumer in order without a gap or a repetition: after any number of polls, failed and refused ones included, the sequence numbers consumed are those from the start up to the next one to fetch.\<close>

theorem blocks_processed_in_order:
  assumes run: "run_forever rp fetch process cfg draws ts p w = (p1, w1)"
    and honest: "\<And>n v payload block. fst (fetch n v) = Inr payload \<Longrightarrow>
          sanitize_block_payload rp (hp_sanitizer cfg) payload = Inr block \<Longrightarrow> sequence_of block = n"
    and keeps: "\<And>n v. consumed (snd (fetch n v)) = consumed v"
    and takes: "\<And>block v u v1. process block v = (Inr u, v1) \<Longrightarrow> consumed v1 = consumed v @ [sequence_of block]"
    and refuses: "\<And>block v e v1. process block v = (Inl e, v1) \<Longrightarrow> consumed v1 = consumed v"
    and start: "consumed w = [first..hp_next_sequence p - 1]" "first \<le> hp_next_sequence p"
  shows "consumed w1 = [first..hp_next_sequence p1 - 1] \<and> hp_next_sequence p \<le> hp_next_sequence p1"
  using run start
proof (induction ts arbitrary: p w)
  case (Cons t ts)
  obtain r p2 w2 where poll: "hardened_poll rp fetch process cfg draws t p w = (r, p2, w2)" by (metis prod_cases3)
  have kept: "consumed (((\<lambda>w. snd (fetch n w)) ^^ i) v) = consumed v" for n i v
    by (induction i) (simp_all add: keeps)
  have "consumed w2 = [first..hp_next_sequence p2 - 1] \<and> hp_next_sequence p \<le> hp_next_sequence p2"
  proof (cases rule: hardened_poll_cases [OF poll])
    case 1
    with Cons.prems show ?thesis by simp
  next
    case (2 e wf)
    then have "consumed w2 = consumed wf" using refuses by blast
    with 2 Cons.prems kept show ?thesis by auto
  next
    case (3 block k wf u v i)
    from fetched_sequence [OF 3(5)] honest have seq: "sequence_of block = hp_next_sequence p" by metis
    then have "consumed w2 = [first..hp_next_sequence p - 1] @ [hp_next_sequence p]"
      using takes [OF 3(3)] 3(4) kept Cons.prems by simp
    with 3(2) seq Cons.prems(3) show ?thesis by (simp add: upto_rec2)
  qed
  with Cons.IH [of p2 w2] Cons.prems poll show ?case by auto
qed simp

lemma utf8_digits: "utf8_length (digits_of n) = length (digits_of n)"
proof -
  have "map (\<lambda>c. if (of_char c :: nat) < 128 then 1 else 2) (digits_of n) = map (\<lambda>c. 1 :: nat) (digits_of n)"
    by (rule map_cong [OF refl]) (fastforce dest: digits_of_digits)
  then show ?thesis by (simp add: utf8_length_def map_replicate_const sum_list_replicate)
qed

lemma utf8_append: "utf8_length (s @ t) = utf8_length s + utf8_length t"
  by (simp add: utf8_length_def)

lemma sequence_only_payload:
  assumes "0 \<le> m" "m \<le> MAX_SEQUENCE"
  shows "sanitize_block_payload rp default_sanitizer (PDict [(PStr ''sequence'', PInt m)]) = Inr [(PStr ''sequence'', PInt m)]"
proof -
  have "(2 :: int) ^ 63 - 1 < 10 ^ 19" by simp
  with assms have "m < 10 ^ 19" unfolding MAX_SEQUENCE_def by linarith
  then have "nat m < 10 ^ 19" using assms(1) by (metis nat_less_iff of_nat_numeral of_nat_power)
  from length_digits_of [OF this] have len: "length (digits_of (nat m)) \<le> 19" by simp
  have "dumps rp (PDict [(PStr ''sequence'', PInt m)]) =
      Some ([CHR 0x7B] @ (json_string ''sequence'' @ CHR '':'' # digits_of (nat m)) @ [CHR 0x7D])"
    using len assms(1) by (simp add: dumps_int_def py_str_int_def MAX_STR_DIGITS_def)
  moreover have "utf8_length ([CHR 0x7B] @ (json_string ''sequence'' @ CHR '':'' # digits_of (nat m)) @ [CHR 0x7D]) \<le> 100"
  proof -
    have "utf8_length (json_string ''sequence'') = 10" by (simp add: json_string_def escape_char_def utf8_length_def)
    moreover have "utf8_length (CHR '':'' # t) = Suc (utf8_length t)" for t by (simp add: utf8_length_def)
    moreover have "utf8_length [c] \<le> 2" for c by (simp add: utf8_length_def)
    ultimately show ?thesis using len by (simp add: utf8_append utf8_digits utf8_length_def [of "_ # _"])
  qed
  ultimately have size: "validate_payload_size rp default_sanitizer (PDict [(PStr ''sequence'', PInt m)]) = Inr ()"
    by (simp add: validate_payload_size_def default_sanitizer_def)
  have "clean default_sanitizer 0 (PDict [(PStr ''sequence'', PInt m)])"
    using sequence_key_clean [of default_sanitizer]
    by (simp add: clean_dict clean_items_def clean_int default_sanitizer_def del: clean_key.simps)
  note value_ok = clean_fixed [OF this]
  show ?thesis
    using size value_ok assms
    by (simp add: sanitize_block_payload_def extract_sequence_def SEQUENCE_FIELDS_def dict_get_def IDENTIFIER_FIELDS_def
      sanitize_transactions_def Let_def)
qed

lemma sequence_only_reported:
  "sanitize_block_payload rp sz (PDict [(PStr ''sequence'', PInt n)]) = Inr block \<Longrightarrow> sequence_of block = n"
proof -
  assume "sanitize_block_payload rp sz (PDict [(PStr ''sequence'', PInt n)]) = Inr block"
  from sanitized_sequence [OF this] obtain d1 where d1: "sanitize_value sz 0 (PDict [(PStr ''sequence'', PInt n)]) = Inr (PDict d1)"
      "extract_sequence d1 = Inr (sequence_of block)" by blast
  have "t = ''sequence''" if "sanitize_key sz (PStr ''sequence'') = Inr t" for t
    using that by (auto simp: clean_text_def control_char_def split: if_splits)
  with d1(1) have "d1 = [(PStr ''sequence'', PInt n)]"
    by (cases "sanitize_key sz (PStr ''sequence'')")
       (auto simp: sanitize_value.simps simp del: sanitize_key.simps split: if_splits)
  with d1(2) show "sequence_of block = n"
    by (simp add: extract_sequence_def SEQUENCE_FIELDS_def dict_get_def split: if_splits)
qed

text \<open>The poller does not compare the block it gets with the one it asked for: whatever it asked for, an upstream that answers with a block numbered \<open>m\<close> moves it to \<open>m + 1\<close>, forwards past blocks or back to blocks already processed.\<close>

theorem poll_trusts_reported_sequence:
  assumes "0 \<le> m" "m \<le> MAX_SEQUENCE" "hp_sanitizer cfg = default_sanitizer" "hp_timestamps p = []" "0 < hp_rate_limit cfg"
    and "fetch (hp_next_sequence p) w = (Inr (PDict [(PStr ''sequence'', PInt m)]), w1)"
    and "process [(PStr ''sequence'', PInt m)] w1 = (Inr (), w2)"
  shows "hp_next_sequence (fst (snd (hardened_poll rp fetch process cfg draws t p w))) = m + 1"
  using assms sequence_only_payload [OF assms(1,2), of rp]
  by (simp add: hardened_poll_def try_acquire_def discard_expired_def hardened_fetch.simps fetch_sanitized_def
    sequence_of_def dict_get_def)

section \<open>Examples\<close>

definition sample_hardened_cfg :: block_poller_cfg where
  "sample_hardened_cfg = \<lparr>hp_poll_interval = 5, hp_max_retries = 3, hp_base_delay = 1, hp_max_delay = 30,
     hp_jitter_ratio = 1 / 4, hp_rate_limit = 10, hp_rate_window = 1, hp_sanitizer = default_sanitizer\<rparr>"

text \<open>An upstream that numbers its blocks as asked, and a consumer that keeps the numbers it was given.\<close>

definition numbered_upstream :: "(int list) block_fetch" where
  "numbered_upstream n w = (Inr (PDict [(PStr ''sequence'', PInt n)]), w)"

definition numbering_consumer :: "(int list) block_process" where
  "numbering_consumer block w = (Inr (), w @ [sequence_of block])"

definition down_upstream :: "nat block_fetch" where
  "down_upstream n w = (Inl TypeError, w + 1)"

lemma sample_hardened_valid: "block_poller_valid 1 sample_hardened_cfg"
  by (simp add: block_poller_valid_def sample_hardened_cfg_def)

theorem poll_trusts_reported_sequence_witness:
  "hp_next_sequence (fst (snd (hardened_poll (\<lambda>q. ''0.0'') (\<lambda>n w. (Inr (PDict [(PStr ''sequence'', PInt 2)]), w))
     numbering_consumer sample_hardened_cfg (\<lambda>i x. 0) 0 \<lparr>hp_next_sequence = 1000, hp_timestamps = []\<rparr> []))) = 2 + 1"
  by (rule poll_trusts_reported_sequence)
     (simp_all add: sample_hardened_cfg_def numbering_consumer_def MAX_SEQUENCE_def)

theorem hardened_retries_bounded_witness:
  "length (fst (snd (hardened_fetch (\<lambda>q. ''0.0'') down_upstream sample_hardened_cfg (\<lambda>i x. 0) 1 0 0))) \<le> 3 \<and>
   fst (hardened_fetch (\<lambda>q. ''0.0'') down_upstream sample_hardened_cfg (\<lambda>i x. 0) 1 0 0) = Inl BlockPollerFetchError"
proof -
  let ?f = "hardened_fetch (\<lambda>q. ''0.0'') down_upstream sample_hardened_cfg (\<lambda>i x. 0) 1 0 0"
  have "?f = (fst ?f, fst (snd ?f), snd (snd ?f))" by simp
  from hardened_retries_bounded [OF this sample_hardened_valid]
  have "length (fst (snd ?f)) \<le> 3" by (simp add: sample_hardened_cfg_def)
  moreover have "fst ?f = Inl BlockPollerFetchError"
    by (simp add: hardened_fetch.simps fetch_sanitized_def down_upstream_def sample_hardened_cfg_def)
  ultimately show ?thesis by simp
qed

theorem retry_delay_bounds_witness:
  "(3 :: rat) / 4 * capped_delay 1 30 5 \<le> 30 \<and> compute_retry_delay 5 1 30 (1 / 4) (\<lambda>x. x) = Inr 30"
proof -
  have d: "compute_retry_delay 5 1 30 (1 / 4) (\<lambda>x. x) = Inr 30"
    by (simp add: compute_retry_delay_def MAX_BACKOFF_EXPONENT_def Let_def)
  from retry_delay_bounds [OF d] d show ?thesis by simp
qed

theorem sanitised_samples:
  "sanitize_block_payload (\<lambda>q. ''0.0'') default_sanitizer (PDict [(PStr ''sequence'', PInt 7)]) = Inr [(PStr ''sequence'', PInt 7)]"
  by (rule sequence_only_payload) (simp_all add: MAX_SEQUENCE_def)


theorem sanitising_is_idempotent_witness:
  "sanitize_value default_sanitizer 0 (PStr [CHR ''a'', CHR 0x07, CHR ''b'']) = Inr (PStr ''ab'') \<and>
   sanitize_value default_sanitizer 0 (PStr ''ab'') = Inr (PStr ''ab'')"
proof -
  have v: "sanitize_value default_sanitizer 0 (PStr [CHR ''a'', CHR 0x07, CHR ''b'']) = Inr (PStr ''ab'')"
    by (simp add: sanitize_value.simps clean_text_def control_char_def default_sanitizer_def)
  from sanitising_is_idempotent [OF v] v show ?thesis by simp
qed

theorem blocks_processed_in_order_witness:
  "snd (run_forever (\<lambda>q. ''0.0'') numbered_upstream numbering_consumer sample_hardened_cfg (\<lambda>i x. 0) [0, 5, 10]
     \<lparr>hp_next_sequence = 1, hp_timestamps = []\<rparr> []) =
   [1..hp_next_sequence (fst (run_forever (\<lambda>q. ''0.0'') numbered_upstream numbering_consumer sample_hardened_cfg (\<lambda>i x. 0)
     [0, 5, 10] \<lparr>hp_next_sequence = 1, hp_timestamps = []\<rparr> [])) - 1]"
proof -
  let ?r = "run_forever (\<lambda>q. ''0.0'') numbered_upstream numbering_consumer sample_hardened_cfg (\<lambda>i x. 0) [0, 5, 10]
     \<lparr>hp_next_sequence = 1, hp_timestamps = []\<rparr> []"
  have honest: "sequence_of block = n" if "fst (numbered_upstream n v) = Inr payload"
      "sanitize_block_payload (\<lambda>q. ''0.0'') (hp_sanitizer sample_hardened_cfg) payload = Inr block" for n v payload block
    using that by (auto simp: numbered_upstream_def sample_hardened_cfg_def dest: sequence_only_reported)
  have "?r = (fst ?r, snd ?r)" by simp
  from blocks_processed_in_order [OF this honest, where consumed = "\<lambda>w. w" and first = 1] show ?thesis
    by (simp add: numbered_upstream_def numbering_consumer_def)
qed

text \<open>A superscript two counts as a digit for \<open>isdigit\<close> and is no integer: the error is a plain \<open>ValueError\<close>.\<close>

theorem sanitiser_errors_witness:
  "sanitize_block_payload (\<lambda>q. ''0.0'') default_sanitizer (PDict [(PStr ''ledger'', PStr [CHR 0xB2])]) = Inl ValueError \<and>
   (\<exists>d. sanitize_value default_sanitizer 0 (PDict [(PStr ''ledger'', PStr [CHR 0xB2])]) = Inr (PDict d))"
proof -
  have v: "sanitize_block_payload (\<lambda>q. ''0.0'') default_sanitizer (PDict [(PStr ''ledger'', PStr [CHR 0xB2])]) = Inl ValueError"
    by (simp add: sanitize_block_payload_def validate_payload_size_def json_string_def escape_char_def utf8_length_def
      default_sanitizer_def sanitize_value.simps clean_text_def control_char_def py_strip_def is_blank_def
      extract_sequence_def SEQUENCE_FIELDS_def dict_get_def py_isdigit_def is_digit_def py_int_str_def int_space_def
      unsigned_int_def Let_def)
  from sanitiser_errors [OF v] v show ?thesis by auto
qed

end
