(* ===== verification/Disputes.thy ===== *)
theory Disputes
  imports Sla_Store Access
begin

text \<open>
  SLA disputes: \<^verbatim>\<open>api/v1/endpoints/sla_dispute.py\<close> over the tables of \<^verbatim>\<open>models/sla_dispute.py\<close>.  Engineers flag a
  settled result and propose another one, administrators resolve or reject; a proposed result that is applied becomes the
  latest of its outage.  The state extends the database by the dispute tables.
\<close>

section \<open>Tables and requests\<close>

datatype dispute_status = DisputePending | DisputeResolved | DisputeRejected

fun dispute_status_value :: "dispute_status \<Rightarrow> str" where
  "dispute_status_value DisputePending = ''pending''"
| "dispute_status_value DisputeResolved = ''resolved''"
| "dispute_status_value DisputeRejected = ''rejected''"

record dispute =
  di_id :: str
  di_sla_result_id :: int
  di_baseline_sla_result_id :: "int option"
  di_proposed_sla_result_id :: "int option"
  di_flagged_by :: str
  di_dispute_reason :: str
  di_flagged_at :: time
  di_status :: dispute_status
  di_resolved_by :: "str option"
  di_resolution_notes :: "str option"
  di_resolved_at :: "time option"

record dispute_log =
  dl_id :: str
  dl_dispute_id :: str
  dl_action :: str
  dl_actor :: str
  dl_notes :: "str option"
  dl_recorded_at :: time

record dispute_db =
  dd_db :: database
  dd_disputes :: "dispute list"
  dd_logs :: "dispute_log list"

definition flag_request_valid :: "str \<Rightarrow> bool" where
  "flag_request_valid dispute_reason \<longleftrightarrow> length dispute_reason \<ge> 10"

record resolve_request =
  rr_resolution_notes :: str
  rr_status :: dispute_status
  rr_apply_proposed :: bool

definition resolve_request_valid :: "resolve_request \<Rightarrow> bool" where
  "resolve_request_valid q \<longleftrightarrow> length (rr_resolution_notes q) \<ge> 10"

record proposed_request =
  pq_severity :: str
  pq_mttr_minutes :: int
  pq_policy_version :: str
  pq_threshold_source :: str
  pq_notes :: "str option"

section \<open>Operations\<close>

text \<open>The identifiers of new rows are drawn from the supply of the database.\<close>

definition dispute_uuid :: "env \<Rightarrow> dispute_db \<Rightarrow> str \<times> dispute_db" where
  "dispute_uuid env s =
     (uuid4_hex env (uuid_count (dd_db s)), s\<lparr>dd_db := (dd_db s)\<lparr>uuid_count := Suc (uuid_count (dd_db s))\<rparr>\<rparr>)"

definition add_dispute_log :: "env \<Rightarrow> str \<Rightarrow> str \<Rightarrow> str \<Rightarrow> str option \<Rightarrow> dispute_db \<Rightarrow> dispute_db" where
  "add_dispute_log env k action actor notes s =
     (case dispute_uuid env s of
        (i, s1) \<Rightarrow> s1\<lparr>dd_logs := dd_logs s1 @ [\<lparr>dl_id = i, dl_dispute_id = k, dl_action = action, dl_actor = actor,
          dl_notes = notes, dl_recorded_at = now env\<rparr>]\<rparr>)"

definition pending_for :: "int \<Rightarrow> dispute \<Rightarrow> bool" where
  "pending_for r d \<longleftrightarrow> di_sla_result_id d = r \<and> di_status d = DisputePending"

definition find_sla_row :: "int \<Rightarrow> dispute_db \<Rightarrow> sla_row option" where
  "find_sla_row r s = find (\<lambda>x. s_id x = r) (sla_results (dd_db s))"

definition flag_dispute :: "env \<Rightarrow> auth_user \<Rightarrow> int \<Rightarrow> str \<Rightarrow> dispute_db \<Rightarrow> (dispute, dispute_db) outcome" where
  "flag_dispute env user r reason s =
     (case require_role Engineer user of
        Inl e \<Rightarrow> (Inl e, s)
      | Inr u \<Rightarrow>
          if \<not> flag_request_valid reason then (Inl (HTTPError 422), s)
          else if find_sla_row r s = None then (Inl (HTTPError 404), s)
          else if find (pending_for r) (dd_disputes s) \<noteq> None then (Inl (HTTPError 409), s)
          else
            (case dispute_uuid env s of
               (i, s1) \<Rightarrow>
                 (let d = \<lparr>di_id = i, di_sla_result_id = r, di_baseline_sla_result_id = Some r,
                           di_proposed_sla_result_id = None, di_flagged_by = au_email user, di_dispute_reason = reason,
                           di_flagged_at = now env, di_status = DisputePending, di_resolved_by = None,
                           di_resolution_notes = None, di_resolved_at = None\<rparr>
                  in (Inr d, add_dispute_log env i ''flagged'' (au_email user) (Some reason)
                               (s1\<lparr>dd_disputes := dd_disputes s1 @ [d]\<rparr>)))))"

text \<open>\<open>json.dumps(new_sla.model_dump())\<close>.\<close>

definition json_opt_ascii :: "str option \<Rightarrow> str" where
  "json_opt_ascii v = (case v of None \<Rightarrow> ''null'' | Some s \<Rightarrow> json_string_ascii s)"

definition sla_result_document :: "sla_result \<Rightarrow> str" where
  "sla_result_document x =
     ''{'' @ join '', '' (map (\<lambda>(k, v). json_string_ascii k @ '': '' @ v)
       [(''id'', case r_id x of None \<Rightarrow> ''null'' | Some i \<Rightarrow> py_str_int i),
        (''outage_id'', json_string_ascii (r_outage_id x)),
        (''status'', json_string_ascii (sla_status_value (r_status x))),
        (''mttr_minutes'', py_str_int (r_mttr_minutes x)),
        (''threshold_minutes'', py_str_int (r_threshold_minutes x)),
        (''amount'', py_str_int (r_amount x)),
        (''payment_type'', json_string_ascii (payment_type_value (r_payment_type x))),
        (''rating'', json_string_ascii (rating_name (r_rating x))),
        (''policy_version'', json_string_ascii (r_policy_version x)),
        (''threshold_source'', json_string_ascii (r_threshold_source x)),
        (''reason_code'', json_opt_ascii (r_reason_code x)),
        (''decision_trace'', json_opt_ascii (r_decision_trace x)),
        (''compute_hash'', json_opt_ascii (r_compute_hash x))]) @ ''}''"

definition proposed_notes :: "sla_result \<Rightarrow> str option \<Rightarrow> str" where
  "proposed_notes x notes =
     ''Proposed SLA created: '' @ sla_result_document x @
     (case notes of None \<Rightarrow> [] | Some n \<Rightarrow> if n = [] then [] else '' | Notes: '' @ n)"

text \<open>The new row: the calculation without a compute hash, and not the latest.\<close>

definition proposed_row :: "env \<Rightarrow> sla_result \<Rightarrow> int \<Rightarrow> sla_row" where
  "proposed_row env x i = (new_sla_row env x i)\<lparr>s_is_latest := False, s_compute_hash := None\<rparr>"

definition create_proposed_sla ::
  "env \<Rightarrow> policy_cache \<Rightarrow> auth_user \<Rightarrow> int \<Rightarrow> proposed_request \<Rightarrow> dispute_db \<Rightarrow> (dispute, dispute_db) outcome" where
  "create_proposed_sla env pol user r q s =
     (case require_role Engineer user of
        Inl e \<Rightarrow> (Inl e, s)
      | Inr u \<Rightarrow>
          (case find (pending_for r) (dd_disputes s) of
             None \<Rightarrow> (Inl (HTTPError 404), s)
           | Some d \<Rightarrow>
               (case (case di_baseline_sla_result_id d of None \<Rightarrow> None | Some b \<Rightarrow> find_sla_row b s) of
                  None \<Rightarrow> (Inl (HTTPError 404), s)
                | Some baseline \<Rightarrow>
                    (case calculate (sha256 (auditing env)) pol (s_outage_id baseline) (pq_severity q) (pq_mttr_minutes q)
                            (pq_policy_version q) (pq_threshold_source q) [] [] of
                       Inl e \<Rightarrow> (Inl e, s)
                     | Inr x \<Rightarrow>
                         (let i = next_sla_id (dd_db s);
                              s1 = s\<lparr>dd_db := (dd_db s)\<lparr>sla_results := sla_results (dd_db s) @ [proposed_row env x i],
                                                         next_sla_id := i + 1\<rparr>,
                                     dd_disputes := update_first (pending_for r)
                                       (\<lambda>y. y\<lparr>di_proposed_sla_result_id := Some i\<rparr>) (dd_disputes s)\<rparr>
                          in (Inr (d\<lparr>di_proposed_sla_result_id := Some i\<rparr>),
                              add_dispute_log env (di_id d) ''proposed_sla_created'' (au_email user)
                                (Some (proposed_notes x (pq_notes q))) s1))))))"

text \<open>Applying a proposal: the first row found to be the latest is demoted, the proposed one promoted.\<close>

definition apply_proposed :: "sla_row \<Rightarrow> sla_row list \<Rightarrow> sla_row list" where
  "apply_proposed proposed rs =
     update_first (\<lambda>x. s_id x = s_id proposed) (\<lambda>x. x\<lparr>s_is_latest := True\<rparr>)
       (update_first (\<lambda>x. s_outage_id x = s_outage_id proposed \<and> s_is_latest x) (\<lambda>x. x\<lparr>s_is_latest := False\<rparr>) rs)"

definition settle_dispute :: "env \<Rightarrow> auth_user \<Rightarrow> resolve_request \<Rightarrow> dispute \<Rightarrow> dispute" where
  "settle_dispute env user q d = d\<lparr>di_status := rr_status q, di_resolved_by := Some (au_email user),
     di_resolution_notes := Some (rr_resolution_notes q), di_resolved_at := Some (now env)\<rparr>"

definition resolve_dispute ::
  "env \<Rightarrow> auth_user \<Rightarrow> int \<Rightarrow> resolve_request \<Rightarrow> dispute_db \<Rightarrow> (dispute, dispute_db) outcome" where
  "resolve_dispute env user r q s =
     (case require_role Admin user of
        Inl e \<Rightarrow> (Inl e, s)
      | Inr u \<Rightarrow>
          if \<not> resolve_request_valid q then (Inl (HTTPError 422), s)
          else if rr_status q = DisputePending then (Inl (HTTPError 400), s)
          else
            (case find (pending_for r) (dd_disputes s) of
               None \<Rightarrow> (Inl (HTTPError 404), s)
             | Some d \<Rightarrow>
                 (let s1 = s\<lparr>dd_disputes := update_first (pending_for r) (settle_dispute env user q) (dd_disputes s)\<rparr>;
                      finish = (\<lambda>s2. (Inr (settle_dispute env user q d),
                        add_dispute_log env (di_id d) (dispute_status_value (rr_status q)) (au_email user)
                          (Some (rr_resolution_notes q)) s2))
                  in if rr_status q = DisputeResolved \<and> rr_apply_proposed q
                     then (case di_proposed_sla_result_id d of
                             None \<Rightarrow> (Inl (HTTPError 400), s)
                           | Some i \<Rightarrow>
                               if i = 0 then (Inl (HTTPError 400), s)
                               else (case find_sla_row i s of
                                       None \<Rightarrow> (Inl (HTTPError 404), s)
                                     | Some proposed \<Rightarrow>
                                         finish (s1\<lparr>dd_db := (dd_db s1)\<lparr>sla_results :=
                                           apply_proposed proposed (sla_results (dd_db s1))\<rparr>\<rparr>)))
                     else finish s1)))"

text \<open>The most recently flagged dispute of a result.\<close>

definition latest_dispute :: "int \<Rightarrow> dispute_db \<Rightarrow> dispute option" where
  "latest_dispute r s = first_desc di_flagged_at (filter (\<lambda>d. di_sla_result_id d = r) (dd_disputes s))"

definition get_dispute :: "auth_user \<Rightarrow> int \<Rightarrow> dispute_db \<Rightarrow> exn + dispute" where
  "get_dispute user r s =
     (case require_engineer_or_admin user of
        Inl e \<Rightarrow> Inl e
      | Inr u \<Rightarrow> (case latest_dispute r s of None \<Rightarrow> Inl (HTTPError 404) | Some d \<Rightarrow> Inr d))"

definition get_dispute_history :: "auth_user \<Rightarrow> int \<Rightarrow> dispute_db \<Rightarrow> exn + dispute_log list" where
  "get_dispute_history user r s =
     (case require_engineer_or_admin user of
        Inl e \<Rightarrow> Inl e
      | Inr u \<Rightarrow>
          (case latest_dispute r s of
             None \<Rightarrow> Inl (HTTPError 404)
           | Some d \<Rightarrow> Inr (sort_key dl_recorded_at (filter (\<lambda>l. dl_dispute_id l = di_id d) (dd_logs s)))))"

record dispute_page =
  dg_items :: "dispute list"
  dg_total :: nat
  dg_page :: nat
  dg_page_size :: nat
  dg_returned :: nat
  dg_has_more :: bool

definition MAX_LIST_PAGE_SIZE :: nat where "MAX_LIST_PAGE_SIZE = 200"

text \<open>\<open>ORDER BY flagged_at DESC, id\<close>.\<close>

definition dispute_order :: "dispute list \<Rightarrow> dispute list" where
  "dispute_order ds = sort_desc di_flagged_at (sort_key di_id ds)"

definition list_disputes ::
  "auth_user \<Rightarrow> dispute_status option \<Rightarrow> nat \<Rightarrow> nat \<Rightarrow> dispute_db \<Rightarrow> exn + dispute_page" where
  "list_disputes user status_filter page page_size s =
     (case require_role Engineer user of
        Inl e \<Rightarrow> Inl e
      | Inr u \<Rightarrow>
          if page < 1 \<or> page_size < 1 \<or> page_size > MAX_LIST_PAGE_SIZE then Inl (HTTPError 422)
          else
            (let matching = filter (\<lambda>d. status_filter = None \<or> status_filter = Some (di_status d)) (dd_disputes s);
                 items = page_slice page page_size (dispute_order matching);
                 total = length matching
             in Inr \<lparr>dg_items = items, dg_total = total, dg_page = page, dg_page_size = page_size,
                     dg_returned = length items, dg_has_more = ((page - 1) * page_size + length items < total)\<rparr>))"

section \<open>Invariant\<close>

definition dispute_ok :: "sla_row list \<Rightarrow> dispute \<Rightarrow> bool" where
  "dispute_ok rs d \<longleftrightarrow>
     (di_status d = DisputePending \<longleftrightarrow> di_resolved_at d = None) \<and> (di_resolved_by d = None \<longleftrightarrow> di_resolved_at d = None) \<and>
     di_baseline_sla_result_id d = Some (di_sla_result_id d) \<and>
     (\<exists>x \<in> set rs. s_id x = di_sla_result_id d \<and>
        (\<forall>i. di_proposed_sla_result_id d = Some i \<longrightarrow> (\<exists>y \<in> set rs. s_id y = i \<and> s_outage_id y = s_outage_id x)))"

definition disputes_ok :: "dispute_db \<Rightarrow> bool" where
  "disputes_ok s \<longleftrightarrow> schema_ok (dd_db s) \<and>
     distinct (map di_sla_result_id (filter (\<lambda>d. di_status d = DisputePending) (dd_disputes s))) \<and>
     (\<forall>d \<in> set (dd_disputes s). dispute_ok (sla_results (dd_db s)) d)"

text \<open>Every result keeps its row and its outage.\<close>

definition results_kept :: "sla_row list \<Rightarrow> sla_row list \<Rightarrow> bool" where
  "results_kept rs rs' \<longleftrightarrow> (\<forall>x \<in> set rs. \<exists>y \<in> set rs'. s_id y = s_id x \<and> s_outage_id y = s_outage_id x)"

text \<open>Dispute requests, interleaved with whatever else writes to the database without losing a result.\<close>

inductive dispute_step :: "dispute_db \<Rightarrow> dispute_db \<Rightarrow> bool" where
  flagging: "dispute_step s (snd (flag_dispute env user r reason s))"
| proposing: "dispute_step s (snd (create_proposed_sla env pol user r q s))"
| resolving: "dispute_step s (snd (resolve_dispute env user r a s))"
| others: "schema_ok db \<Longrightarrow> results_kept (sla_results (dd_db s)) (sla_results db) \<Longrightarrow> dispute_step s (s\<lparr>dd_db := db\<rparr>)"

lemma results_kept_refl [simp]: "results_kept rs rs"
  by (auto simp: results_kept_def)

lemma results_kept_append [simp]: "results_kept rs (rs @ xs)"
  by (fastforce simp: results_kept_def)

lemma results_kept_update_first:
  assumes "\<And>x. s_id (f x) = s_id x \<and> s_outage_id (f x) = s_outage_id x"
  shows "results_kept rs (update_first P f rs)"
  unfolding results_kept_def by (induction rs) (use assms in auto)

lemma results_kept_trans: "results_kept a b \<Longrightarrow> results_kept b c \<Longrightarrow> results_kept a c"
  unfolding results_kept_def by (metis (no_types, lifting))

lemma dispute_ok_kept:
  assumes "dispute_ok rs d" "results_kept rs rs'" "distinct (map s_id rs)" "distinct (map s_id rs')"
  shows "dispute_ok rs' d"
  using assms unfolding dispute_ok_def results_kept_def by (metis (no_types, lifting))

lemma latest_by_id:
  assumes "distinct (map s_id rs)"
  shows "at_most_one_latest rs \<longleftrightarrow>
    (\<forall>x \<in> set rs. \<forall>y \<in> set rs. s_is_latest x \<and> s_is_latest y \<and> s_outage_id x = s_outage_id y \<longrightarrow> s_id x = s_id y)"
proof -
  have "distinct (filter s_is_latest rs)" using assms by (auto simp: distinct_map)
  moreover have "x = y" if "x \<in> set rs" "y \<in> set rs" "s_id x = s_id y" for x y
    using that assms by (meson distinct_map inj_onD)
  ultimately show ?thesis
    by (auto simp: at_most_one_latest_def distinct_map inj_on_def)
qed

lemma update_first_found:
  "r \<in> set (update_first P f rs) \<Longrightarrow> \<not> (\<exists>x0. find P rs = Some x0 \<and> r = f x0) \<Longrightarrow> r \<in> set rs"
  by (induction rs) (auto split: if_splits)

lemma add_dispute_log_frame [simp]:
  "dd_disputes (add_dispute_log env k a u n s) = dd_disputes s"
  "sla_results (dd_db (add_dispute_log env k a u n s)) = sla_results (dd_db s)"
  "schema_ok (dd_db (add_dispute_log env k a u n s)) = schema_ok (dd_db s)"
  "payments (dd_db (add_dispute_log env k a u n s)) = payments (dd_db s)"
  "outages (dd_db (add_dispute_log env k a u n s)) = outages (dd_db s)"
  by (simp_all add: add_dispute_log_def dispute_uuid_def schema_ok_def)

lemma disputes_ok_log [simp]: "disputes_ok (add_dispute_log env k a u n s) = disputes_ok s"
  by (simp add: disputes_ok_def)

lemma schema_ids: "schema_ok db \<Longrightarrow> distinct (map s_id (sla_results db))"
  by (simp add: schema_ok_def)

lemma disputes_ok_others:
  assumes "disputes_ok s" "schema_ok db" "results_kept (sla_results (dd_db s)) (sla_results db)"
  shows "disputes_ok (s\<lparr>dd_db := db\<rparr>)"
  using assms dispute_ok_kept [OF _ assms(3)] by (auto simp: disputes_ok_def dest: schema_ids)

lemma disputes_ok_schema: "disputes_ok s \<Longrightarrow> schema_ok (dd_db s)"
  by (simp add: disputes_ok_def)

text \<open>The new row of a proposal.\<close>

lemma proposed_row_fields [simp]:
  "s_id (proposed_row env x i) = i" "s_outage_id (proposed_row env x i) = r_outage_id x"
  "s_is_latest (proposed_row env x i) = False" "s_compute_hash (proposed_row env x i) = None"
  by (simp_all add: proposed_row_def new_sla_row_def)

lemma schema_ok_proposed:
  assumes "schema_ok db" "x = proposed_row env r (next_sla_id db)"
  shows "schema_ok (db\<lparr>sla_results := sla_results db @ [x], next_sla_id := next_sla_id db + 1\<rparr>)"
proof -
  have "next_sla_id db \<notin> s_id ` set (sla_results db)" using assms(1) by (force simp: schema_ok_def)
  with assms(1) show ?thesis
    unfolding schema_ok_def assms(2) by (auto simp: unique_key_snoc hash_key_def at_most_one_latest_def)
qed

lemma distinct_pending_update:
  assumes "distinct (map g (filter P xs))" "\<And>x. g (f x) = g x" "\<And>x. Q x \<Longrightarrow> P (f x) \<Longrightarrow> P x"
  shows "distinct (map g (filter P (update_first Q f xs)))"
proof -
  have sub: "\<exists>z \<in> set ys. P z \<and> g z = g y" if "y \<in> set (update_first Q f ys)" "P y" for y ys
    using that assms(2,3) by (induction ys) (auto split: if_splits)
  from assms(1) show ?thesis
  proof (induction xs)
    case (Cons x xs)
    show ?case
    proof (cases "Q x")
      case True
      with Cons.prems assms(3) [OF True] show ?thesis by (auto simp: assms(2) split: if_splits)
    next
      case False
      with Cons show ?thesis by (auto split: if_splits dest!: sub) (metis (mono_tags, lifting) imageI mem_Collect_eq)
    qed
  qed simp
qed

lemma dispute_ok_update:
  assumes "\<forall>d \<in> set ds. dispute_ok rs d" "\<And>d. find P ds = Some d \<Longrightarrow> dispute_ok rs d \<Longrightarrow> dispute_ok rs (f d)"
  shows "\<forall>d \<in> set (update_first P f ds). dispute_ok rs d"
  using assms update_first_found [of _ P f ds] find_Some_set [of P ds] by blast

lemma flag_dispute_ok:
  assumes "disputes_ok s"
  shows "disputes_ok (snd (flag_dispute env user r reason s))"
proof (cases "fst (flag_dispute env user r reason s)")
  case (Inl e)
  then have "snd (flag_dispute env user r reason s) = s"
    by (auto simp: flag_dispute_def Let_def split: sum.splits prod.splits if_splits)
  with assms show ?thesis by simp
next
  case (Inr d)
  then obtain s1 i where s1: "dispute_uuid env s = (i, s1)" and known: "find_sla_row r s \<noteq> None"
      and free: "find (pending_for r) (dd_disputes s) = None"
      and out: "flag_dispute env user r reason s = (Inr d, add_dispute_log env i ''flagged'' (au_email user) (Some reason)
                 (s1\<lparr>dd_disputes := dd_disputes s1 @ [d]\<rparr>))"
      and d: "di_sla_result_id d = r" "di_status d = DisputePending" "di_resolved_at d = None" "di_resolved_by d = None"
        "di_baseline_sla_result_id d = Some r" "di_proposed_sla_result_id d = None"
    by (auto simp: flag_dispute_def Let_def split: sum.splits prod.splits if_splits)
  have frame: "dd_disputes s1 = dd_disputes s" "sla_results (dd_db s1) = sla_results (dd_db s)"
      "schema_ok (dd_db s1) = schema_ok (dd_db s)"
    using s1 by (auto simp: dispute_uuid_def schema_ok_def)
  from known obtain x where x: "x \<in> set (sla_results (dd_db s))" "s_id x = r"
    by (auto simp: find_sla_row_def dest: find_Some_set find_Some_P)
  have "dispute_ok (sla_results (dd_db s)) d" using d x by (auto simp: dispute_ok_def)
  moreover have "\<forall>y \<in> set (dd_disputes s). \<not> pending_for r y" using free by (simp add: find_None_set)
  ultimately show ?thesis
    using assms d out frame by (auto simp: disputes_ok_def pending_for_def)
qed

lemma calculate_outage:
  assumes "calculate H p k sev m pv src st rs = Inr x"
  shows "r_outage_id x = k"
proof -
  obtain config live where "get_config_for_severity p (py_lower sev) = Inr config"
      "get_policy_version p None (py_lower sev) = Inr live"
  proof (cases "get_config_for_severity p (py_lower sev)"; cases "get_policy_version p None (py_lower sev)")
    fix config live
    assume "get_config_for_severity p (py_lower sev) = Inr config" "get_policy_version p None (py_lower sev) = Inr live"
    with that show thesis by blast
  qed (use assms in \<open>simp_all add: calculate_def Let_def split: if_splits exn.splits\<close>)
  with assms show ?thesis by (auto simp: calculate_def Let_def split: if_splits prod.splits)
qed

lemma create_proposed_ok:
  assumes ok: "disputes_ok s"
  shows "disputes_ok (snd (create_proposed_sla env pol user r q s))"
proof (cases "fst (create_proposed_sla env pol user r q s)")
  case (Inl e)
  then have "snd (create_proposed_sla env pol user r q s) = s"
    by (auto simp: create_proposed_sla_def Let_def split: sum.splits option.splits)
  with assms show ?thesis by simp
next
  case (Inr d1)
  let ?db = "dd_db s" and ?i = "next_sla_id (dd_db s)"
  let ?set = "\<lambda>y. y\<lparr>di_proposed_sla_result_id := Some ?i\<rparr>"
  from Inr obtain d b baseline x where found: "find (pending_for r) (dd_disputes s) = Some d"
      and b: "di_baseline_sla_result_id d = Some b" "find_sla_row b s = Some baseline"
      and calc: "calculate (sha256 (auditing env)) pol (s_outage_id baseline) (pq_severity q) (pq_mttr_minutes q)
                   (pq_policy_version q) (pq_threshold_source q) [] [] = Inr x"
    by (auto simp: create_proposed_sla_def Let_def split: sum.splits option.splits)
  define db1 where "db1 = ?db\<lparr>sla_results := sla_results ?db @ [proposed_row env x ?i], next_sla_id := ?i + 1\<rparr>"
  define s1 where "s1 = s\<lparr>dd_db := db1, dd_disputes := update_first (pending_for r) ?set (dd_disputes s)\<rparr>"
  have out: "snd (create_proposed_sla env pol user r q s) = add_dispute_log env (di_id d) ''proposed_sla_created''
      (au_email user) (Some (proposed_notes x (pq_notes q))) s1"
    using Inr found b calc by (auto simp: create_proposed_sla_def Let_def s1_def db1_def split: sum.splits)
  have db1: "schema_ok db1" using schema_ok_proposed [OF disputes_ok_schema [OF ok] refl] by (simp add: db1_def)
  have others: "disputes_ok (s\<lparr>dd_db := db1\<rparr>)" by (rule disputes_ok_others [OF ok db1]) (simp add: db1_def)
  have "dispute_ok (sla_results db1) (?set y)" if y: "find (pending_for r) (dd_disputes s) = Some y" "dispute_ok (sla_results db1) y" for y
  proof -
    have "y = d" using y(1) found by simp
    with y(2) b(1) have base: "b = di_sla_result_id y" by (simp add: dispute_ok_def)
    have bl: "baseline \<in> set (sla_results db1)" "s_id baseline = b"
      using b(2) by (auto simp: find_sla_row_def db1_def dest: find_Some_set find_Some_P)
    have "r_outage_id x = s_outage_id baseline" using calculate_outage [OF calc] .
    then have "\<exists>z \<in> set (sla_results db1). s_id z = ?i \<and> s_outage_id z = s_outage_id baseline" by (simp add: db1_def)
    with y(2) bl base show ?thesis by (auto simp: dispute_ok_def)
  qed
  moreover have "distinct (map di_sla_result_id (filter (\<lambda>d. di_status d = DisputePending) (update_first (pending_for r) ?set (dd_disputes s))))"
    using ok by (intro distinct_pending_update) (auto simp: disputes_ok_def)
  ultimately have "disputes_ok s1"
    using others db1 dispute_ok_update [of "dd_disputes s" "sla_results db1" "pending_for r" ?set]
    by (auto simp: disputes_ok_def s1_def)
  then show ?thesis by (simp add: out)
qed

lemma update_first_unique: "length (filter P rs) \<le> 1 \<Longrightarrow> update_first P f rs = map (\<lambda>z. if P z then f z else z) rs"
proof (induction rs)
  case (Cons x rs)
  then show ?case by (cases "P x") (auto simp: filter_empty_conv intro!: map_idI [symmetric])
qed simp

lemma one_per_key: "distinct (map g ys) \<Longrightarrow> length (filter (\<lambda>z. g z = k) ys) \<le> 1"
proof (induction ys)
  case (Cons y ys)
  then show ?case by (cases "g y = k") (auto simp: filter_empty_conv image_iff)
qed simp

lemma filter_map_fixed:
  "\<forall>z \<in> set ys. P (h z) = P z \<and> (P z \<longrightarrow> h z = z) \<Longrightarrow> filter P (map h ys) = filter P ys"
  by (induction ys) auto

text \<open>What applying a proposal does to every row of the table.\<close>

lemma apply_proposed_map:
  assumes "distinct (map s_id rs)" "at_most_one_latest rs"
  shows "apply_proposed x rs = map (\<lambda>z. if s_id z = s_id x then z\<lparr>s_is_latest := True\<rparr>
      else if s_outage_id z = s_outage_id x then z\<lparr>s_is_latest := False\<rparr> else z) rs"
proof -
  let ?P = "\<lambda>z. s_outage_id z = s_outage_id x \<and> s_is_latest z"
  let ?rs = "update_first ?P (\<lambda>z. z\<lparr>s_is_latest := False\<rparr>) rs"
  have "filter ?P rs = filter (\<lambda>z. s_outage_id z = s_outage_id x) (filter s_is_latest rs)"
    by (simp add: conj_commute)
  then have one: "length (filter ?P rs) \<le> 1"
    using one_per_key assms(2) unfolding at_most_one_latest_def by metis
  have "map s_id ?rs = map s_id rs" by (rule map_update_first_key) simp
  then have "distinct (map s_id ?rs)" using assms(1) by simp
  then have "length (filter (\<lambda>z. s_id z = s_id x) ?rs) \<le> 1" by (rule one_per_key)
  from update_first_unique [OF this] show ?thesis
    unfolding apply_proposed_def update_first_unique [OF one] by auto
qed

lemma apply_proposed_schema:
  assumes "schema_ok db" "x \<in> set (sla_results db)"
  shows "schema_ok (db\<lparr>sla_results := apply_proposed x (sla_results db)\<rparr>)"
proof -
  let ?rs = "apply_proposed x (sla_results db)"
  have rs: "distinct (map s_id (sla_results db))" "at_most_one_latest (sla_results db)"
    using assms(1) by (simp_all add: schema_ok_def)
  note eq = apply_proposed_map [OF rs, of x]
  have ids: "map s_id ?rs = map s_id (sla_results db)" and hashes: "map hash_key ?rs = map hash_key (sla_results db)"
    unfolding eq by (simp_all add: hash_key_def)
  have inj: "z = x" if "z \<in> set (sla_results db)" "s_id z = s_id x" for z
    using rs(1) assms(2) that by (meson distinct_map inj_onD)
  define h where "h = (\<lambda>z :: sla_row. if s_id z = s_id x then z\<lparr>s_is_latest := True\<rparr>
      else if s_outage_id z = s_outage_id x then z\<lparr>s_is_latest := False\<rparr> else z)"
  have h: "s_id (h z) = s_id z" "s_outage_id (h z) = s_outage_id z"
      "s_is_latest (h z) \<longleftrightarrow> s_id z = s_id x \<or> s_outage_id z \<noteq> s_outage_id x \<and> s_is_latest z" for z
    by (simp_all add: h_def)
  have pair: "s_id (h u) = s_id (h v)"
    if "u \<in> set (sla_results db)" "v \<in> set (sla_results db)" "s_is_latest (h u)" "s_is_latest (h v)"
      "s_outage_id (h u) = s_outage_id (h v)" for u v
  proof (cases "s_id u = s_id x \<or> s_id v = s_id x")
    case True
    then have "u = x \<or> v = x" using inj that(1,2) by blast
    with that(3-5) show ?thesis unfolding h by metis
  next
    case False
    with that(3-5) have "s_is_latest u \<and> s_is_latest v \<and> s_outage_id u = s_outage_id v" unfolding h by blast
    with that(1,2) rs(2) [unfolded latest_by_id [OF rs(1)]] show ?thesis unfolding h by blast
  qed
  have dist: "distinct (map s_id (map h (sla_results db)))" by (simp add: comp_def h(1) rs(1))
  have "at_most_one_latest (map h (sla_results db))"
  proof (unfold latest_by_id [OF dist], intro ballI impI, elim conjE)
    fix y z
    assume yz: "y \<in> set (map h (sla_results db))" "z \<in> set (map h (sla_results db))" "s_is_latest y" "s_is_latest z"
      "s_outage_id y = s_outage_id z"
    then obtain u v where "u \<in> set (sla_results db)" "y = h u" "v \<in> set (sla_results db)" "z = h v" by auto
    with pair yz(3-5) show "s_id y = s_id z" by blast
  qed
  then have "at_most_one_latest ?rs" unfolding eq h_def .
  moreover have "unique_key hash_key ?rs = unique_key hash_key (sla_results db)"
    unfolding unique_key_def hashes ..
  moreover have "(\<forall>r \<in> set ?rs. s_id r < next_sla_id db) = (\<forall>r \<in> set (sla_results db). s_id r < next_sla_id db)"
  proof -
    have "(\<forall>r \<in> set xs. s_id r < n) \<longleftrightarrow> (\<forall>i \<in> set (map s_id xs). i < n)" for xs :: "sla_row list" and n by simp
    then show ?thesis by (simp only: ids)
  qed
  ultimately show ?thesis using assms(1) ids by (simp add: schema_ok_def)
qed

lemma settle_dispute_fields [simp]:
  "di_sla_result_id (settle_dispute env user q d) = di_sla_result_id d" "di_status (settle_dispute env user q d) = rr_status q"
  "di_id (settle_dispute env user q d) = di_id d"
  "di_proposed_sla_result_id (settle_dispute env user q d) = di_proposed_sla_result_id d"
  by (simp_all add: settle_dispute_def)

lemma dispute_ok_settled: "dispute_ok rs d \<Longrightarrow> rr_status q \<noteq> DisputePending \<Longrightarrow> dispute_ok rs (settle_dispute env user q d)"
  by (auto simp: dispute_ok_def settle_dispute_def)

lemma dispute_db_swap: "s\<lparr>dd_disputes := a, dd_db := b\<rparr> = s\<lparr>dd_db := b, dd_disputes := a\<rparr>"
  by simp

text \<open>The ways a resolution ends.\<close>

lemma resolve_dispute_cases:
  obtains (refused) e where "resolve_dispute env user r q s = (Inl e, s)"
  | (settled) d where "find (pending_for r) (dd_disputes s) = Some d" "rr_status q \<noteq> DisputePending" "au_role user = Admin"
      "\<not> (rr_status q = DisputeResolved \<and> rr_apply_proposed q)"
      "resolve_dispute env user r q s = (Inr (settle_dispute env user q d),
         add_dispute_log env (di_id d) (dispute_status_value (rr_status q)) (au_email user) (Some (rr_resolution_notes q))
           (s\<lparr>dd_disputes := update_first (pending_for r) (settle_dispute env user q) (dd_disputes s)\<rparr>))"
  | (applied) d i x where "find (pending_for r) (dd_disputes s) = Some d" "rr_status q = DisputeResolved" "rr_apply_proposed q"
      "au_role user = Admin" "di_proposed_sla_result_id d = Some i" "find_sla_row i s = Some x"
      "resolve_dispute env user r q s = (Inr (settle_dispute env user q d),
         add_dispute_log env (di_id d) (dispute_status_value (rr_status q)) (au_email user) (Some (rr_resolution_notes q))
           (s\<lparr>dd_db := (dd_db s)\<lparr>sla_results := apply_proposed x (sla_results (dd_db s))\<rparr>,
              dd_disputes := update_first (pending_for r) (settle_dispute env user q) (dd_disputes s)\<rparr>))"
proof (cases "fst (resolve_dispute env user r q s)")
  case (Inl e)
  then have "resolve_dispute env user r q s = (Inl e, s)"
    by (auto simp: resolve_dispute_def Let_def split: sum.splits option.splits if_splits)
  then show ?thesis by (rule refused)
next
  case (Inr d1)
  then obtain d where d: "find (pending_for r) (dd_disputes s) = Some d" and q: "rr_status q \<noteq> DisputePending"
      and u: "require_role Admin user = Inr user" "resolve_request_valid q"
    by (auto simp: resolve_dispute_def Let_def require_role_def split: sum.splits option.splits if_splits)
  have admin: "au_role user = Admin" using u(1) by (simp add: require_role_def split: if_splits)
  show ?thesis
  proof (cases "rr_status q = DisputeResolved \<and> rr_apply_proposed q")
    case False
    then show ?thesis using settled [OF d q admin False] d q u by (auto simp: resolve_dispute_def Let_def)
  next
    case True
    with Inr d q u obtain i x where ix: "di_proposed_sla_result_id d = Some i" "i \<noteq> 0" "find_sla_row i s = Some x"
      by (auto simp: resolve_dispute_def Let_def split: option.splits if_splits)
    then show ?thesis using applied [OF d] True admin d q u
      by (auto simp: resolve_dispute_def Let_def dispute_db_swap)
  qed
qed

lemma disputes_ok_settle:
  assumes "disputes_ok s" "rr_status q \<noteq> DisputePending"
  shows "disputes_ok (s\<lparr>dd_disputes := update_first (pending_for r) (settle_dispute env user q) (dd_disputes s)\<rparr>)"
  using assms dispute_ok_update [of "dd_disputes s" "sla_results (dd_db s)" "pending_for r" "settle_dispute env user q"]
  by (auto simp: disputes_ok_def dispute_ok_settled intro!: distinct_pending_update)

lemma resolve_dispute_ok:
  assumes "disputes_ok s"
  shows "disputes_ok (snd (resolve_dispute env user r q s))"
proof (cases rule: resolve_dispute_cases [of env user r q s])
  case (refused e)
  with assms show ?thesis by simp
next
  case (settled d)
  with assms show ?thesis by (simp add: disputes_ok_settle)
next
  case (applied d i x)
  let ?db = "(dd_db s)\<lparr>sla_results := apply_proposed x (sla_results (dd_db s))\<rparr>"
  have x: "x \<in> set (sla_results (dd_db s))" using applied(6) by (auto simp: find_sla_row_def dest: find_Some_set)
  have "schema_ok ?db" by (rule apply_proposed_schema [OF disputes_ok_schema [OF assms] x])
  moreover have "results_kept rs (apply_proposed x rs)" for rs
    unfolding apply_proposed_def by (rule results_kept_trans [OF results_kept_update_first results_kept_update_first]) simp_all
  then have "results_kept (sla_results (dd_db s)) (sla_results ?db)" by simp
  ultimately have "disputes_ok (s\<lparr>dd_db := ?db\<rparr>)" by (rule disputes_ok_others [OF assms])
  from disputes_ok_settle [OF this, of q r env user] applied(2,7) show ?thesis by simp
qed

lemma dispute_step_ok: "dispute_step s s1 \<Longrightarrow> disputes_ok s \<Longrightarrow> disputes_ok s1"
  by (induction rule: dispute_step.induct)
     (auto intro: flag_dispute_ok create_proposed_ok resolve_dispute_ok disputes_ok_others)

section \<open>Properties\<close>


lemma settled_kept_update:
  "d \<in> set ds \<Longrightarrow> di_status d \<noteq> DisputePending \<Longrightarrow> d \<in> set (update_first (pending_for r) f ds)"
  by (induction ds) (auto simp: pending_for_def)

lemma settled_kept_step:
  assumes "dispute_step s s1" "d \<in> set (dd_disputes s)" "di_status d \<noteq> DisputePending"
  shows "d \<in> set (dd_disputes s1)"
  using assms
proof (induction rule: dispute_step.induct)
  case (flagging s env user r reason)
  then show ?case by (auto simp: flag_dispute_def dispute_uuid_def Let_def split: sum.splits)
next
  case (proposing s env pol user r q)
  then show ?case by (auto simp: create_proposed_sla_def Let_def intro: settled_kept_update split: sum.splits option.splits)
next
  case (resolving s env user r a)
  then show ?case by (cases rule: resolve_dispute_cases [of env user r a s]) (auto intro: settled_kept_update)
next
  case (others db s)
  then show ?case by simp
qed

text \<open>A settled dispute is final: no later request changes its outcome, its resolver, its notes or its proposal.\<close>

theorem settled_dispute_is_final:
  assumes "dispute_step\<^sup>*\<^sup>* s s1" "d \<in> set (dd_disputes s)" "di_status d \<noteq> DisputePending"
  shows "d \<in> set (dd_disputes s1)"
  using assms by (induction rule: rtranclp_induct) (auto intro: settled_kept_step)

text \<open>C28. Resolving a dispute with the proposal applied makes the proposed result the one latest result of its outage, changes no other result but the one it replaces, and leaves payments and outages alone: the payment already made for the replaced result is not revised.\<close>

theorem applied_proposal_becomes_latest:
  assumes "disputes_ok s" "resolve_dispute env user r q s = (Inr d1, s1)" "rr_status q = DisputeResolved" "rr_apply_proposed q"
  shows "\<exists>x \<in> set (sla_results (dd_db s)). di_proposed_sla_result_id d1 = Some (s_id x) \<and> di_status d1 = DisputeResolved \<and>
           (\<forall>y \<in> set (sla_results (dd_db s1)). s_outage_id y = s_outage_id x \<longrightarrow> (s_is_latest y \<longleftrightarrow> s_id y = s_id x)) \<and>
           filter (\<lambda>y. s_outage_id y \<noteq> s_outage_id x) (sla_results (dd_db s1))
             = filter (\<lambda>y. s_outage_id y \<noteq> s_outage_id x) (sla_results (dd_db s)) \<and>
           payments (dd_db s1) = payments (dd_db s) \<and> outages (dd_db s1) = outages (dd_db s)"
proof (cases rule: resolve_dispute_cases [of env user r q s])
  case (applied d i x)
  have x: "x \<in> set (sla_results (dd_db s))" "s_id x = i"
    using applied(6) by (auto simp: find_sla_row_def dest: find_Some_set find_Some_P)
  have rs: "distinct (map s_id (sla_results (dd_db s)))" "at_most_one_latest (sla_results (dd_db s))"
    using disputes_ok_schema [OF assms(1)] by (simp_all add: schema_ok_def)
  have s1: "sla_results (dd_db s1) = apply_proposed x (sla_results (dd_db s))" "payments (dd_db s1) = payments (dd_db s)"
      "outages (dd_db s1) = outages (dd_db s)"
    using assms(2) applied(7) by (auto)
  have inj: "z = x" if "z \<in> set (sla_results (dd_db s))" "s_id z = s_id x" for z
    using rs(1) x(1) that by (meson distinct_map inj_onD)
  have one: "\<forall>y \<in> set (sla_results (dd_db s1)). s_outage_id y = s_outage_id x \<longrightarrow> (s_is_latest y \<longleftrightarrow> s_id y = s_id x)"
    unfolding s1 apply_proposed_map [OF rs] by auto
  define h where "h = (\<lambda>z :: sla_row. if s_id z = s_id x then z\<lparr>s_is_latest := True\<rparr>
      else if s_outage_id z = s_outage_id x then z\<lparr>s_is_latest := False\<rparr> else z)"
  have "s_outage_id (h z) = s_outage_id z" "s_outage_id z \<noteq> s_outage_id x \<Longrightarrow> z \<in> set (sla_results (dd_db s)) \<Longrightarrow> h z = z" for z
    using inj [of z] by (auto simp: h_def)
  then have "filter (\<lambda>y. s_outage_id y \<noteq> s_outage_id x) (map h (sla_results (dd_db s)))
      = filter (\<lambda>y. s_outage_id y \<noteq> s_outage_id x) (sla_results (dd_db s))"
    by (intro filter_map_fixed) simp
  then have rest: "filter (\<lambda>y. s_outage_id y \<noteq> s_outage_id x) (sla_results (dd_db s1))
      = filter (\<lambda>y. s_outage_id y \<noteq> s_outage_id x) (sla_results (dd_db s))"
    unfolding s1 apply_proposed_map [OF rs] h_def .
  have "di_proposed_sla_result_id d1 = Some i" "di_status d1 = DisputeResolved"
    using assms(2) applied(5,7) assms(3) by auto
  with one rest s1 x show ?thesis by blast
qed (use assms in auto)

text \<open>Following the pages of the dispute list visits every matching dispute exactly once, newest first, and the flag for more is right on every page.\<close>

theorem dispute_pages_complete:
  assumes "au_role user = Engineer" "1 \<le> n" "n \<le> MAX_LIST_PAGE_SIZE"
    and "matching = filter (\<lambda>d. st = None \<or> st = Some (di_status d)) (dd_disputes s)"
  shows "concat (map (\<lambda>p. case list_disputes user st p n s of Inr pg \<Rightarrow> dg_items pg | Inl e \<Rightarrow> []) [1..<Suc k])
           = take (k * n) (dispute_order matching) \<and>
         (\<forall>p \<ge> 1. \<exists>pg. list_disputes user st p n s = Inr pg \<and> dg_total pg = length matching \<and>
            (dg_items pg \<noteq> [] \<longrightarrow> (dg_has_more pg \<longleftrightarrow> p * n < length matching)))"
proof -
  have page: "\<exists>pg. list_disputes user st p n s = Inr pg \<and> dg_items pg = page_slice p n (dispute_order matching) \<and>
      dg_total pg = length matching \<and>
      (dg_has_more pg \<longleftrightarrow> (p - 1) * n + length (page_slice p n (dispute_order matching)) < length matching)" if "1 \<le> p" for p
    using assms that by (simp add: list_disputes_def require_role_def Let_def)
  have "map (\<lambda>p. case list_disputes user st p n s of Inr pg \<Rightarrow> dg_items pg | Inl e \<Rightarrow> []) [1..<Suc k]
      = map (\<lambda>p. page_slice p n (dispute_order matching)) [1..<Suc k]"
    using page by (intro map_cong) (fastforce simp del: upt_Suc)+
  moreover have "dg_has_more pg \<longleftrightarrow> p * n < length matching"
    if "1 \<le> p" "list_disputes user st p n s = Inr pg" "dg_items pg \<noteq> []" for p pg
  proof -
    have len: "length (dispute_order matching) = length matching" by (simp add: dispute_order_def)
    from page [OF that(1)] that have "page_slice p n (dispute_order matching) \<noteq> []"
        "dg_has_more pg \<longleftrightarrow> (p - 1) * n + length (page_slice p n (dispute_order matching)) < length matching" by auto
    moreover from this(1) have "(p - 1) * n < length matching" using len by (simp add: page_slice_def)
    moreover have "(p - 1) * n + n = p * n" using that(1) by (cases p) auto
    ultimately show ?thesis using len by (auto simp: page_slice_def min_def)
  qed
  ultimately show ?thesis using page concat_pages [of n "dispute_order matching" k] by (metis (no_types, lifting))
qed

section \<open>Examples\<close>

definition sample_engineer :: auth_user where
  "sample_engineer = \<lparr>au_id = ''u1'', au_email = ''eng@x'', au_full_name = None, au_role = Engineer, au_stellar_wallet = None,
     au_created_at = 0\<rparr>"

definition sample_admin :: auth_user where
  "sample_admin = sample_engineer\<lparr>au_email := ''adm@x'', au_role := Admin\<rparr>"

definition sample_disputes :: dispute_db where
  "sample_disputes = \<lparr>dd_db = empty_database\<lparr>sla_results := [sample_sla 1 ''o1''], next_sla_id := 2\<rparr>,
     dd_disputes = [], dd_logs = []\<rparr>"

definition sample_flagged :: dispute_db where
  "sample_flagged = snd (flag_dispute (sample_env 5) sample_engineer 1 ''wrong severity'' sample_disputes)"

definition sample_proposed :: dispute_db where
  "sample_proposed = snd (create_proposed_sla (sample_env 6) initial_cache sample_engineer 1
     \<lparr>pq_severity = ''critical'', pq_mttr_minutes = 20, pq_policy_version = ''1'', pq_threshold_source = ''config'',
      pq_notes = None\<rparr> sample_flagged)"

definition sample_resolution :: resolve_request where
  "sample_resolution = \<lparr>rr_resolution_notes = ''accepted after review'', rr_status = DisputeResolved, rr_apply_proposed = True\<rparr>"

lemma sample_disputes_ok: "disputes_ok sample_disputes"
  by (simp add: disputes_ok_def sample_disputes_def schema_ok_def empty_database_def sample_sla_def unique_key_def
    at_most_one_latest_def hash_key_def)

lemma sample_proposed_ok: "disputes_ok sample_proposed"
  unfolding sample_proposed_def sample_flagged_def
  by (intro create_proposed_ok flag_dispute_ok sample_disputes_ok)


lemmas sample_dispute_defs = sample_proposed_def sample_flagged_def sample_disputes_def sample_engineer_def sample_admin_def
  sample_resolution_def

lemma sample_severity: "py_lower ''critical'' = ''critical''"
  by (simp add: py_lower_def lower_char_def)

lemma sample_resolves: "\<not> isl (fst (resolve_dispute (sample_env 7) sample_admin 1 sample_resolution sample_proposed))"
  by (simp add: sample_dispute_defs resolve_dispute_def create_proposed_sla_def flag_dispute_def require_role_def
    flag_request_valid_def resolve_request_valid_def find_sla_row_def dispute_uuid_def add_dispute_log_def pending_for_def
    sample_sla_def empty_database_def calculate_def sample_severity get_config_for_severity_def get_policy_version_def
    initial_cache_def default_SLA_CONFIG_def Let_def)

theorem applied_proposal_becomes_latest_witness:
  "\<exists>d1 s1. resolve_dispute (sample_env 7) sample_admin 1 sample_resolution sample_proposed = (Inr d1, s1) \<and>
     payments (dd_db s1) = payments (dd_db sample_proposed) \<and>
     (\<exists>x \<in> set (sla_results (dd_db sample_proposed)). di_proposed_sla_result_id d1 = Some (s_id x) \<and>
        (\<forall>y \<in> set (sla_results (dd_db s1)). s_outage_id y = s_outage_id x \<longrightarrow> (s_is_latest y \<longleftrightarrow> s_id y = s_id x)))"
proof -
  obtain d1 s1 where r: "resolve_dispute (sample_env 7) sample_admin 1 sample_resolution sample_proposed = (Inr d1, s1)"
    using sample_resolves by (metis isl_def prod.collapse sum.exhaust)
  have "rr_status sample_resolution = DisputeResolved" "rr_apply_proposed sample_resolution"
    by (simp_all add: sample_resolution_def)
  from applied_proposal_becomes_latest [OF sample_proposed_ok r this] r show ?thesis by blast
qed

theorem settled_dispute_is_final_witness:
  "\<exists>d1 s1. resolve_dispute (sample_env 7) sample_admin 1 sample_resolution sample_proposed = (Inr d1, s1) \<and>
     d1 \<in> set (dd_disputes (snd (resolve_dispute (sample_env 8) sample_admin 1 sample_resolution s1)))"
proof (cases rule: resolve_dispute_cases [of "sample_env 7" sample_admin 1 sample_resolution sample_proposed])
  case (refused e)
  with sample_resolves show ?thesis by simp
next
  case (settled d)
  then show ?thesis by (simp add: sample_resolution_def)
next
  case (applied d i x)
  let ?s1 = "snd (resolve_dispute (sample_env 7) sample_admin 1 sample_resolution sample_proposed)"
  have kept: "settle_dispute (sample_env 7) sample_admin sample_resolution d \<in> set (dd_disputes ?s1)"
    unfolding applied(7) using find_update_first_Some [OF applied(1)] by simp
  have again: "dispute_step\<^sup>*\<^sup>* ?s1 (snd (resolve_dispute (sample_env 8) sample_admin 1 sample_resolution ?s1))"
    by (rule r_into_rtranclp) (rule resolving)
  have "di_status (settle_dispute (sample_env 7) sample_admin sample_resolution d) \<noteq> DisputePending"
    by (simp add: sample_resolution_def)
  from settled_dispute_is_final [OF again kept this] applied(7) show ?thesis by (metis prod.collapse fst_conv)
qed

theorem dispute_pages_complete_witness:
  "concat (map (\<lambda>p. case list_disputes sample_engineer None p 20 sample_flagged of Inr pg \<Rightarrow> dg_items pg | Inl e \<Rightarrow> []) [1..<Suc 1])
     = take (1 * 20) (dispute_order (filter (\<lambda>d. None = None \<or> None = Some (di_status d)) (dd_disputes sample_flagged)))"
  using dispute_pages_complete [of sample_engineer 20 _ None sample_flagged 1, OF _ _ _ refl]
  by (simp add: sample_engineer_def MAX_LIST_PAGE_SIZE_def)

end
