(* ===== verification/Exports.thy ===== *)
theory Exports
  imports Outages
begin

text \<open>
  \<^verbatim>\<open>utils/exporter.py\<close> and the CSV writer behind it: outages as CSV or JSON, in one text or streamed row by row.  The text of a
  timestamp and of a floating-point number are arguments.
\<close>

section \<open>CSV\<close>

text \<open>The \<open>csv\<close> module with its default dialect: minimal quoting, commas, lines ended by carriage return and line feed.\<close>

definition csv_special :: "char \<Rightarrow> bool" where
  "csv_special c \<longleftrightarrow> (of_char c :: nat) \<in> {10, 13, 34, 44}"

definition csv_field :: "str \<Rightarrow> str" where
  "csv_field s =
     (if list_ex csv_special s
      then [CHR 0x22] @ concat (map (\<lambda>c. if c = CHR 0x22 then [c, c] else [c]) s) @ [CHR 0x22]
      else s)"

definition csv_eol :: str where "csv_eol = [CHR 0x0D, CHR 0x0A]"

text \<open>One row of at least two cells.\<close>

definition csv_row :: "str list \<Rightarrow> str" where
  "csv_row cells = join '','' (map csv_field cells) @ csv_eol"

section \<open>Outages\<close>

definition CSV_FIELDNAMES :: "str list" where
  "CSV_FIELDNAMES = [''id'', ''site_name'', ''site_id'', ''severity'', ''status'', ''detected_at'', ''resolved_at'',
     ''description'', ''affected_services'', ''affected_subscribers'', ''assigned_to'', ''created_by'', ''location'', ''sla_status'']"

text \<open>How the values of \<open>model_dump(mode="json")\<close> are rendered: timestamps and floats by the arguments.\<close>

record rendering =
  rn_iso :: "time \<Rightarrow> str"
  rn_float :: "real \<Rightarrow> str"

text \<open>\<open>json.dumps\<close> of the nested values, with its default separators.\<close>

definition json_pairs :: "(str \<times> str) list \<Rightarrow> str" where
  "json_pairs kvs = ''{'' @ join '', '' (map (\<lambda>(k, v). json_string_ascii k @ '': '' @ v) kvs) @ ''}''"

definition json_str_or_null :: "str option \<Rightarrow> str" where
  "json_str_or_null v = (case v of None \<Rightarrow> ''null'' | Some s \<Rightarrow> json_string_ascii s)"

definition json_int_or_null :: "int option \<Rightarrow> str" where
  "json_int_or_null v = (case v of None \<Rightarrow> ''null'' | Some i \<Rightarrow> py_str_int i)"

definition services_json :: "str list \<Rightarrow> str" where
  "services_json xs = ''['' @ join '', '' (map json_string_ascii xs) @ '']''"

definition location_json :: "rendering \<Rightarrow> location option \<Rightarrow> str" where
  "location_json rn l =
     (case l of
        None \<Rightarrow> ''null''
      | Some (a, b) \<Rightarrow> json_pairs [(''latitude'', rn_float rn a), (''longitude'', rn_float rn b)])"

definition sla_status_json :: "sla_status_doc option \<Rightarrow> str" where
  "sla_status_json d =
     (case d of
        None \<Rightarrow> ''null''
      | Some x \<Rightarrow> json_pairs [(''status'', json_string_ascii (sla_status_value (ss_status x))),
                               (''mttr_minutes'', json_int_or_null (ss_mttr_minutes x)),
                               (''threshold_minutes'', py_str_int (ss_threshold_minutes x)),
                               (''time_remaining_minutes'', json_int_or_null (ss_time_remaining_minutes x))])"

text \<open>The cells of one outage: \<open>None\<close> is the empty cell.\<close>

definition cell :: "str option \<Rightarrow> str" where
  "cell v = (case v of None \<Rightarrow> [] | Some s \<Rightarrow> s)"

definition outage_cells :: "rendering \<Rightarrow> outage \<Rightarrow> str list" where
  "outage_cells rn x =
     [ou_id x, ou_site_name x, cell (ou_site_id x), severity_value (ou_severity x), outage_status_value (ou_status x),
      rn_iso rn (ou_detected_at x), cell (map_option (rn_iso rn) (ou_resolved_at x)), ou_description x,
      services_json (ou_affected_services x), cell (map_option py_str_int (ou_affected_subscribers x)),
      cell (ou_assigned_to x), cell (ou_created_by x), location_json rn (ou_location x), sla_status_json (ou_sla_status x)]"

text \<open>\<open>json.dumps(row, default=str)\<close> of the whole outage.\<close>

definition outage_json :: "rendering \<Rightarrow> outage \<Rightarrow> str" where
  "outage_json rn x = json_pairs
     [(''id'', json_string_ascii (ou_id x)), (''site_name'', json_string_ascii (ou_site_name x)),
      (''site_id'', json_str_or_null (ou_site_id x)), (''severity'', json_string_ascii (severity_value (ou_severity x))),
      (''status'', json_string_ascii (outage_status_value (ou_status x))),
      (''detected_at'', json_string_ascii (rn_iso rn (ou_detected_at x))),
      (''resolved_at'', json_str_or_null (map_option (rn_iso rn) (ou_resolved_at x))),
      (''description'', json_string_ascii (ou_description x)), (''affected_services'', services_json (ou_affected_services x)),
      (''affected_subscribers'', json_int_or_null (ou_affected_subscribers x)),
      (''assigned_to'', json_str_or_null (ou_assigned_to x)), (''created_by'', json_str_or_null (ou_created_by x)),
      (''location'', location_json rn (ou_location x)), (''sla_status'', sla_status_json (ou_sla_status x))]"

datatype exported = ExportRows "outage list" | ExportText str

definition export_outages :: "rendering \<Rightarrow> outage list \<Rightarrow> str \<Rightarrow> exn + exported" where
  "export_outages rn xs fmt =
     (let f = py_lower fmt in
      if f = ''json'' then Inr (ExportRows xs)
      else if f \<noteq> ''csv'' then Inl ValueError
      else Inr (ExportText (csv_row CSV_FIELDNAMES @ concat (map (\<lambda>x. csv_row (outage_cells rn x)) xs))))"

text \<open>The generators, as the list of the chunks they yield.\<close>

definition stream_export_csv :: "rendering \<Rightarrow> outage list \<Rightarrow> str list" where
  "stream_export_csv rn xs = csv_row CSV_FIELDNAMES # map (\<lambda>x. csv_row (outage_cells rn x)) xs"

fun json_chunks :: "rendering \<Rightarrow> bool \<Rightarrow> outage list \<Rightarrow> str list" where
  "json_chunks rn first [] = []"
| "json_chunks rn first (x # xs) = (if first then [] else ['','']) @ outage_json rn x # json_chunks rn False xs"

definition stream_export_json :: "rendering \<Rightarrow> outage list \<Rightarrow> str list" where
  "stream_export_json rn xs = ''['' # json_chunks rn True xs @ ['']'']"

text \<open>The endpoint: format check, filtered rows, the stream.\<close>

definition iter_filtered :: "outage_filter \<Rightarrow> database \<Rightarrow> outage list" where
  "iter_filtered flt db = map outage_of_row (filter (matches_filter flt) (outages db))"

definition export_outages_endpoint :: "rendering \<Rightarrow> str \<Rightarrow> outage_filter \<Rightarrow> database \<Rightarrow> exn + str list" where
  "export_outages_endpoint rn fmt flt db =
     (let f = py_lower fmt in
      if f \<notin> {''csv'', ''json''} then Inl (HTTPError 400)
      else if f = ''csv'' then Inr (stream_export_csv rn (iter_filtered flt db))
      else Inr (stream_export_json rn (iter_filtered flt db)))"

section \<open>Reading CSV back\<close>

text \<open>A reader of the dialect, against which the writer is checked: a quoted field ends at the first single quote mark.\<close>

fun unquote :: "str \<Rightarrow> str \<times> str" where
  "unquote [] = ([], [])"
| "unquote (c # cs) =
     (if c \<noteq> CHR 0x22 then (case unquote cs of (f, r) \<Rightarrow> (c # f, r))
      else case cs of
        d # ds \<Rightarrow> if d = CHR 0x22 then (case unquote ds of (f, r) \<Rightarrow> (c # f, r)) else ([], cs)
      | [] \<Rightarrow> ([], []))"

definition read_field :: "str \<Rightarrow> str \<times> str" where
  "read_field s =
     (case s of
        [] \<Rightarrow> ([], [])
      | c # cs \<Rightarrow>
          if c = CHR 0x22 then unquote cs
          else (takeWhile (\<lambda>d. \<not> csv_special d) s, dropWhile (\<lambda>d. \<not> csv_special d) s))"

lemma unquote_length: "length (snd (unquote s)) \<le> length s"
proof (induction s rule: length_induct)
  case (1 s)
  show ?case
  proof (cases s)
    case (Cons c cs)
    show ?thesis
    proof (cases cs)
      case Nil
      with Cons show ?thesis by simp
    next
      case (Cons d ds)
      with 1 [rule_format, of cs] 1 [rule_format, of ds] \<open>s = c # cs\<close> show ?thesis
        by (cases "unquote cs"; cases "unquote ds"; cases "c = CHR 0x22"; cases "d = CHR 0x22") auto
    qed
  qed simp
qed

lemma read_field_length: "length (snd (read_field s)) \<le> length s"
  using unquote_length by (auto simp: read_field_def length_dropWhile_le le_SucI split: list.split)

lemma read_field_shorter: "(f, c # r) = read_field s \<Longrightarrow> length r < length s"
  using read_field_length [of s] by (metis Suc_le_lessD length_Cons snd_conv)

function read_record :: "str \<Rightarrow> str list \<times> str" where
  "read_record s =
     (case read_field s of
        (f, r) \<Rightarrow>
          (case r of
             [] \<Rightarrow> ([f], [])
           | c # r1 \<Rightarrow>
               if c = CHR '','' then (case read_record r1 of (fs, r2) \<Rightarrow> (f # fs, r2))
               else ([f], tl r1)))"
  by pat_completeness auto
termination
  by (relation "measure length") (auto dest: read_field_shorter)

declare read_record.simps [simp del]

fun read_rows :: "nat \<Rightarrow> str \<Rightarrow> str list list" where
  "read_rows n [] = []"
| "read_rows 0 s = []"
| "read_rows (Suc n) s = (case read_record s of (fs, r) \<Rightarrow> fs # read_rows n r)"

lemma unquote_doubled:
  "s \<noteq> [] \<Longrightarrow> hd s \<noteq> CHR 0x22 \<Longrightarrow>
   unquote (concat (map (\<lambda>c. if c = CHR 0x22 then [c, c] else [c]) f) @ CHR 0x22 # s) = (f, s)"
  by (induction f) (auto split: list.splits)

lemma read_csv_field:
  assumes "s \<noteq> []" "csv_special (hd s)" "hd s \<noteq> CHR 0x22"
  shows "read_field (csv_field f @ s) = (f, s)"
proof (cases "list_ex csv_special f")
  case True
  with assms unquote_doubled [of s f] show ?thesis by (simp add: csv_field_def read_field_def)
next
  case False
  then have plain: "\<forall>c \<in> set f. \<not> csv_special c" by (auto simp: list_ex_iff)
  obtain c cs where s: "s = c # cs" using assms(1) by (cases s) auto
  have "takeWhile (\<lambda>d. \<not> csv_special d) (f @ s) = f" "dropWhile (\<lambda>d. \<not> csv_special d) (f @ s) = s"
    using plain assms(2) s by (simp_all add: takeWhile_append2 dropWhile_append2)
  moreover have "f = [] \<or> hd f \<noteq> CHR 0x22" using plain by (cases f) (auto simp: csv_special_def)
  ultimately show ?thesis
    using False assms(3) s by (cases f) (auto simp: csv_field_def read_field_def)
qed

lemma read_csv_row:
  assumes "cells \<noteq> []"
  shows "read_record (csv_row cells @ rest) = (cells, rest)"
  using assms
proof (induction cells rule: induct_list012)
  case (2 f)
  have "read_field (csv_field f @ csv_eol @ rest) = (f, csv_eol @ rest)"
    by (rule read_csv_field) (simp_all add: csv_eol_def csv_special_def)
  then show ?case by (simp add: csv_row_def read_record.simps) (simp add: csv_eol_def)
next
  case (3 f g fs)
  let ?s = "CHR '','' # csv_row (g # fs) @ rest"
  have row: "csv_row (f # g # fs) @ rest = csv_field f @ ?s" by (simp add: csv_row_def)
  have "read_field (csv_field f @ ?s) = (f, ?s)" by (rule read_csv_field) (simp_all add: csv_special_def)
  with 3 show ?case unfolding row by (subst read_record.simps) simp
qed simp

lemma read_csv_rows:
  assumes "\<forall>r \<in> set rs. r \<noteq> []" "length rs \<le> n"
  shows "read_rows n (concat (map csv_row rs)) = rs"
  using assms
proof (induction rs arbitrary: n)
  case (Cons r rs)
  then obtain m where n: "n = Suc m" by (cases n) auto
  have "csv_row r \<noteq> []" by (simp add: csv_row_def csv_eol_def)
  then obtain c cs where "concat (map csv_row (r # rs)) = c # cs"
    by (metis append_is_Nil_conv concat.simps(2) list.exhaust list.simps(9))
  with Cons read_csv_row [of r "concat (map csv_row rs)"] n show ?case
    by (metis (no_types, lifting) concat.simps(2) le_SucI length_Cons list.set_intros(1,2) list.simps(9) not_less_eq_eq old.prod.case read_rows.simps(3))
qed simp

section \<open>Properties\<close>

text \<open>The CSV export reads back exactly: the header, then one record per outage with its fourteen cells, whatever commas, quotes and line breaks they contain; and the chunks of the streaming export put together are the text of the export in one piece.\<close>

theorem csv_export_roundtrip:
  "export_outages rn xs ''csv'' = Inr (ExportText (concat (stream_export_csv rn xs))) \<and>
   read_rows (Suc (length xs)) (concat (stream_export_csv rn xs)) = CSV_FIELDNAMES # map (outage_cells rn) xs"
proof
  show "export_outages rn xs ''csv'' = Inr (ExportText (concat (stream_export_csv rn xs)))"
    by (simp add: export_outages_def stream_export_csv_def py_lower_def lower_char_def)
  have "concat (stream_export_csv rn xs) = concat (map csv_row (CSV_FIELDNAMES # map (outage_cells rn) xs))"
    by (simp add: stream_export_csv_def comp_def)
  then show "read_rows (Suc (length xs)) (concat (stream_export_csv rn xs)) = CSV_FIELDNAMES # map (outage_cells rn) xs"
    by (simp only:, intro read_csv_rows) (auto simp: CSV_FIELDNAMES_def outage_cells_def)
qed

lemma json_chunks_text:
  "concat (json_chunks rn first xs) =
     (if first \<or> xs = [] then [] else '','') @ join '','' (map (outage_json rn) xs)"
proof (induction xs arbitrary: first)
  case (Cons x xs)
  then show ?case by (cases xs) auto
qed simp

text \<open>The streamed JSON is the JSON array of the rows, separated by single commas.\<close>

theorem json_stream_is_array:
  "concat (stream_export_json rn xs) = ''['' @ join '','' (map (outage_json rn) xs) @ '']''"
  by (simp add: stream_export_json_def json_chunks_text)

end
