(* ===== verification/Sla_Api.thy ===== *)
theory Sla_Api
  imports Exports Sla_Store Caches Access
begin

text \<open>
  \<^verbatim>\<open>api/v1/endpoints/sla.py\<close> and \<^verbatim>\<open>utils/analytics_exporter.py\<close>: calculation and preview, the policy endpoints, the
  dashboards behind the in-process cache, snapshots and exports.
\<close>

section \<open>State\<close>

datatype cached_analytics = CachedKpi dashboard_kpi | CachedTrends "trend_point list"

record sla_api =
  sa_db :: database
  sa_snapshots :: "snapshot_row list"
  sa_policy :: policy_cache
  sa_history :: "history_row list"
  sa_cache :: "cached_analytics ttl_cache"

text \<open>What the database server and the standard library decide: known time zones, buckets, and the text of floats and dates.\<close>

record analytics_env =
  an_known_tz :: "str \<Rightarrow> bool"
  an_trunc :: "str \<Rightarrow> str \<Rightarrow> time \<Rightarrow> time"
  an_day :: time
  an_repr :: "rat \<Rightarrow> str"
  an_iso_written :: "time \<Rightarrow> str"
  an_iso_read :: "time \<Rightarrow> str"
  an_date :: "time \<Rightarrow> str"

definition DASHBOARD_TTL :: time where "DASHBOARD_TTL = 30"

section \<open>Calculation and policy\<close>

definition calculate_endpoint ::
  "env \<Rightarrow> auth_user \<Rightarrow> str \<Rightarrow> str \<Rightarrow> int \<Rightarrow> str \<Rightarrow> str \<Rightarrow> sla_api \<Rightarrow> exn + sla_result" where
  "calculate_endpoint env user outage_id severity mttr policy_version threshold_source s =
     (case require_role Engineer user of
        Inl e \<Rightarrow> Inl e
      | Inr u \<Rightarrow>
          (case calculate (sha256 (auditing env)) (sa_policy s) outage_id severity mttr policy_version threshold_source [] [] of
             Inl ValueError \<Rightarrow> Inl (HTTPError 400)
           | r \<Rightarrow> r))"

definition preview_sla :: "env \<Rightarrow> auth_user \<Rightarrow> severity \<Rightarrow> int \<Rightarrow> sla_api \<Rightarrow> exn + sla_result" where
  "preview_sla env user sev mttr s =
     calculate_endpoint env user ''PREVIEW'' (severity_value sev) mttr ''1.0'' ''config'' s"

definition get_all_config :: "policy_cache \<Rightarrow> str \<rightharpoonup> severity_config" where
  "get_all_config p = SLA_CONFIG p"

definition get_all_config_with_hashes :: "(str \<Rightarrow> str) \<Rightarrow> policy_cache \<Rightarrow> str \<rightharpoonup> (exn + policy_content)" where
  "get_all_config_with_hashes h p =
     (\<lambda>sev. case SLA_CONFIG p sev of None \<Rightarrow> None | Some c \<Rightarrow> Some (get_config_with_hash h p sev))"

datatype config_view = PlainConfig severity_config | HashedConfig policy_content

definition value_error_as :: "nat \<Rightarrow> exn \<Rightarrow> exn" where
  "value_error_as code e = (if e = ValueError then HTTPError code else e)"

definition get_sla_config_by_severity ::
  "env \<Rightarrow> auth_user \<Rightarrow> str \<Rightarrow> bool \<Rightarrow> sla_api \<Rightarrow> exn + config_view" where
  "get_sla_config_by_severity env user severity include_hash s =
     (case require_role Engineer user of
        Inl e \<Rightarrow> Inl e
      | Inr u \<Rightarrow>
          map_sum (value_error_as 404) id
            (if include_hash then map_sum id HashedConfig (get_config_with_hash (sha256 (auditing env)) (sa_policy s) severity)
             else map_sum id PlainConfig (get_config_for_severity (sa_policy s) severity)))"

fun config_error :: "exn \<Rightarrow> exn" where
  "config_error ConcurrencyError = HTTPError 409"
| "config_error ValueError = HTTPError 404"
| "config_error e = e"

text \<open>\<open>others\<close> are the rows concurrent workers commit in between; the body has passed the field bounds.\<close>

definition update_sla_config ::
  "env \<Rightarrow> auth_user \<Rightarrow> str \<Rightarrow> str \<Rightarrow> severity_config \<Rightarrow> str option \<Rightarrow> history_row list \<Rightarrow> sla_api
    \<Rightarrow> (config_view, sla_api) outcome" where
  "update_sla_config env user new_token severity payload expected_token others s =
     (case require_role Admin user of
        Inl e \<Rightarrow> (Inl e, s)
      | Inr u \<Rightarrow>
          if \<not> severity_config_valid payload then (Inl (HTTPError 422), s)
          else
            (case (case expected_token of
                     Some t \<Rightarrow>
                       (case publish_config_for_severity (sha256 (auditing env)) new_token (now env) severity payload
                               (Some t) (Some (au_email user)) others (Some (sa_history s)) (sa_policy s) of
                          (r, st) \<Rightarrow> (map_sum id (\<lambda>(p, _). HashedConfig p) r, st))
                   | None \<Rightarrow>
                       (case update_config_for_severity (sha256 (auditing env)) new_token (now env) severity payload
                               others (Some (sa_history s)) (sa_policy s) of
                          (r, st) \<Rightarrow> (map_sum id PlainConfig r, st))) of
               (r, p, h) \<Rightarrow> (map_sum config_error id r,
                               s\<lparr>sa_policy := p, sa_history := (case h of None \<Rightarrow> [] | Some hs \<Rightarrow> hs)\<rparr>)))"

definition get_config_publish_token :: "auth_user \<Rightarrow> str \<Rightarrow> sla_api \<Rightarrow> exn + str" where
  "get_config_publish_token user severity s =
     (case require_role Admin user of
        Inl e \<Rightarrow> Inl e
      | Inr u \<Rightarrow> map_sum (value_error_as 404) id (get_current_token (sa_policy s) (Some (sa_history s)) severity))"

section \<open>Dashboards\<close>

text \<open>An optional string inside an f-string.\<close>

definition shown :: "str option \<Rightarrow> str" where
  "shown v = (case v of None \<Rightarrow> ''None'' | Some x \<Rightarrow> x)"

definition dashboard_key :: "str option \<Rightarrow> str option \<Rightarrow> str" where
  "dashboard_key severity site = ''dashboard_kpis_'' @ shown severity @ ''_'' @ shown site"

definition trends_key :: "nat \<Rightarrow> str \<Rightarrow> str \<Rightarrow> str option \<Rightarrow> str option \<Rightarrow> str" where
  "trends_key days bucket tz severity site =
     ''trends_'' @ digits_of days @ ''_'' @ bucket @ ''_'' @ tz @ ''_'' @ shown severity @ ''_'' @ shown site"

definition invalidate_analytics_cache :: "sla_api \<Rightarrow> sla_api" where
  "invalidate_analytics_cache s =
     s\<lparr>sa_cache := ttl_invalidate_prefix ''trends_'' (ttl_invalidate_prefix ''dashboard_kpis_'' (sa_cache s))\<rparr>"

definition get_sla_dashboard_kpis ::
  "analytics_env \<Rightarrow> env \<Rightarrow> auth_user \<Rightarrow> str option \<Rightarrow> str option \<Rightarrow> str option \<Rightarrow> sla_api
    \<Rightarrow> (cached_analytics, sla_api) outcome" where
  "get_sla_dashboard_kpis an env user severity site_id site s =
     (case require_role Engineer user of
        Inl e \<Rightarrow> (Inl e, s)
      | Inr u \<Rightarrow>
          (let resolved_site = py_or site_id site; key = dashboard_key severity resolved_site in
           case ttl_get (now env) key (sa_cache s) of
             (Some v, c) \<Rightarrow> (Inr v, s\<lparr>sa_cache := c\<rparr>)
           | (None, c) \<Rightarrow>
               (let v = CachedKpi (aggregate_dashboard_kpis env (an_day an) severity resolved_site (sa_db s))
                in (Inr v, s\<lparr>sa_cache := ttl_set DASHBOARD_TTL (now env) key v c\<rparr>))))"

definition VALID_BUCKETS :: "str list" where "VALID_BUCKETS = [''day'', ''week'', ''month'']"

definition get_sla_trends ::
  "analytics_env \<Rightarrow> env \<Rightarrow> auth_user \<Rightarrow> nat \<Rightarrow> str \<Rightarrow> str \<Rightarrow> str option \<Rightarrow> str option \<Rightarrow> str option \<Rightarrow> sla_api
    \<Rightarrow> (cached_analytics, sla_api) outcome" where
  "get_sla_trends an env user days bucket tz severity site_id site s =
     (case require_role Engineer user of
        Inl e \<Rightarrow> (Inl e, s)
      | Inr u \<Rightarrow>
          if days < 1 \<or> days > 90 then (Inl (HTTPError 422), s)
          else if bucket \<notin> set VALID_BUCKETS then (Inl (HTTPError 400), s)
          else
            (let resolved_site = py_or site_id site; key = trends_key days bucket tz severity resolved_site in
             case ttl_get (now env) key (sa_cache s) of
               (Some v, c) \<Rightarrow> (Inr v, s\<lparr>sa_cache := c\<rparr>)
             | (None, c) \<Rightarrow>
                 (case aggregate_trends (an_known_tz an) (an_trunc an) env (an_day an) days bucket tz severity resolved_site
                         (sa_db s) of
                    Inl e \<Rightarrow> (Inl (value_error_as 400 e), s\<lparr>sa_cache := c\<rparr>)
                  | Inr ts \<Rightarrow> (Inr (CachedTrends ts), s\<lparr>sa_cache := ttl_set DASHBOARD_TTL (now env) key (CachedTrends ts) c\<rparr>))))"

definition aggregate_sla_performance ::
  "analytics_env \<Rightarrow> env \<Rightarrow> auth_user \<Rightarrow> time option \<Rightarrow> time option \<Rightarrow> str option \<Rightarrow> str option \<Rightarrow> str option \<Rightarrow> sla_api
    \<Rightarrow> exn + sla_performance" where
  "aggregate_sla_performance an env user start_date end_date severity site_id site s =
     (case require_role Engineer user of
        Inl e \<Rightarrow> Inl e
      | Inr u \<Rightarrow>
          (case (start_date, end_date) of
             (Some a, Some b) \<Rightarrow>
               if a > b then Inl (HTTPError 400)
               else Inr (aggregate_performance env (an_day an) start_date end_date severity (py_or site_id site) (sa_db s))
           | _ \<Rightarrow> Inr (aggregate_performance env (an_day an) start_date end_date severity (py_or site_id site) (sa_db s))))"

section \<open>Snapshots\<close>

definition create_analytics_snapshot ::
  "analytics_env \<Rightarrow> env \<Rightarrow> auth_user \<Rightarrow> str \<Rightarrow> sla_api \<Rightarrow> (snapshot_row, sla_api) outcome" where
  "create_analytics_snapshot an env user key s =
     (case require_role Engineer user of
        Inl e \<Rightarrow> (Inl e, s)
      | Inr u \<Rightarrow>
          (case create_snapshot (an_repr an) (an_iso_written an) env (an_day an) key (sa_db s) (sa_snapshots s) of
             (x, xs) \<Rightarrow> (Inr x, invalidate_analytics_cache (s\<lparr>sa_snapshots := xs\<rparr>))))"

definition rebuild_analytics_snapshot ::
  "analytics_env \<Rightarrow> env \<Rightarrow> auth_user \<Rightarrow> str \<Rightarrow> sla_api \<Rightarrow> (snapshot_row, sla_api) outcome" where
  "rebuild_analytics_snapshot an env user key s =
     (case require_role Admin user of
        Inl e \<Rightarrow> (Inl e, s)
      | Inr u \<Rightarrow>
          (case rebuild_snapshot (an_repr an) (an_iso_written an) env (an_day an) key (sa_db s) (sa_snapshots s) of
             (x, xs) \<Rightarrow> (Inr x, invalidate_analytics_cache (s\<lparr>sa_snapshots := xs\<rparr>))))"

definition get_latest_analytics_snapshot :: "auth_user \<Rightarrow> str \<Rightarrow> sla_api \<Rightarrow> exn + snapshot_row" where
  "get_latest_analytics_snapshot user key s =
     (case require_role Engineer user of
        Inl e \<Rightarrow> Inl e
      | Inr u \<Rightarrow> (case get_latest_snapshot key (sa_snapshots s) of None \<Rightarrow> Inl (HTTPError 404) | Some x \<Rightarrow> Inr x))"

definition reconcile_analytics_snapshot ::
  "analytics_env \<Rightarrow> env \<Rightarrow> auth_user \<Rightarrow> str \<Rightarrow> sla_api \<Rightarrow> exn + reconciliation" where
  "reconcile_analytics_snapshot an env user key s =
     (case require_role Admin user of
        Inl e \<Rightarrow> Inl e
      | Inr u \<Rightarrow> Inr (reconcile_snapshots env (an_day an) key (sa_db s) (sa_snapshots s)))"

definition verify_snapshot_endpoint :: "analytics_env \<Rightarrow> env \<Rightarrow> auth_user \<Rightarrow> str \<Rightarrow> sla_api \<Rightarrow> exn + int" where
  "verify_snapshot_endpoint an env user key s =
     (case require_role Engineer user of
        Inl e \<Rightarrow> Inl e
      | Inr u \<Rightarrow>
          (case verify_snapshot_integrity (an_repr an) (an_iso_read an) env key (sa_snapshots s) of
             Intact i \<Rightarrow> Inr i | _ \<Rightarrow> Inl (HTTPError 409)))"

section \<open>Exports\<close>

datatype analytics_export =
    KpiJson dashboard_kpi
  | TrendsJson "trend_point list"
  | PerformanceJson sla_performance
  | SummaryJson dashboard_kpi "trend_point list" "sla_performance option"
  | CsvFile str str

definition export_dashboard_kpi :: "analytics_env \<Rightarrow> dashboard_kpi \<Rightarrow> str \<Rightarrow> exn + analytics_export" where
  "export_dashboard_kpi an k fmt =
     (let f = py_lower fmt in
      if f = ''json'' then Inr (KpiJson k)
      else if f \<noteq> ''csv'' then Inl ValueError
      else Inr (CsvFile ''sla_dashboard_kpi.csv''
             (csv_row [''total_outages'', ''total_violations'', ''total_rewards'', ''total_penalties'', ''net_payout''] @
              csv_row [py_str_int (k_total_outages k), py_str_int (k_total_violations k), an_repr an (of_int (k_total_rewards k)),
                       an_repr an (of_int (k_total_penalties k)), an_repr an (of_int (k_net_payout k))])))"

definition trend_cells :: "analytics_env \<Rightarrow> trend_point \<Rightarrow> str list" where
  "trend_cells an p = [an_date an (tp_bucket p), py_str_int (tp_total_outages p), py_str_int (tp_violations p),
     an_repr an (of_int (tp_rewards p)), an_repr an (of_int (tp_penalties p))]"

definition TREND_FIELDS :: "str list" where
  "TREND_FIELDS = [''date'', ''total_outages'', ''violations'', ''rewards'', ''penalties'']"

text \<open>Without a point the header is written by hand and ends in a line feed alone.\<close>

definition export_trends :: "analytics_env \<Rightarrow> trend_point list \<Rightarrow> str \<Rightarrow> exn + analytics_export" where
  "export_trends an ts fmt =
     (let f = py_lower fmt in
      if f = ''json'' then Inr (TrendsJson ts)
      else if f \<noteq> ''csv'' then Inl ValueError
      else if ts = [] then Inr (CsvFile [] (''date,total_outages,violations,rewards,penalties'' @ [CHR 0x0A]))
      else Inr (CsvFile [] (csv_row TREND_FIELDS @ concat (map (\<lambda>p. csv_row (trend_cells an p)) ts))))"

definition export_performance_aggregation :: "analytics_env \<Rightarrow> sla_performance \<Rightarrow> str \<Rightarrow> exn + analytics_export" where
  "export_performance_aggregation an a fmt =
     (let f = py_lower fmt in
      if f = ''json'' then Inr (PerformanceJson a)
      else if f \<noteq> ''csv'' then Inl ValueError
      else Inr (CsvFile ''sla_performance.csv''
             (csv_row [''total_outages'', ''violation_rate'', ''avg_mttr'', ''payout_sum''] @
              csv_row [py_str_int (ag_total_outages a), an_repr an (ag_violation_rate a), an_repr an (ag_avg_mttr a),
                       an_repr an (of_int (ag_payout_sum a))])))"

definition export_analytics_summary ::
  "analytics_env \<Rightarrow> dashboard_kpi \<Rightarrow> trend_point list \<Rightarrow> sla_performance option \<Rightarrow> str \<Rightarrow> exn + analytics_export" where
  "export_analytics_summary an k ts a fmt =
     (let f = py_lower fmt in
      if f = ''json'' then Inr (SummaryJson k ts a)
      else if f \<noteq> ''csv'' then Inl ValueError
      else export_dashboard_kpi an k ''csv'')"

text \<open>The file name of the attachment.\<close>

fun named :: "str \<Rightarrow> analytics_export \<Rightarrow> analytics_export" where
  "named n (CsvFile _ t) = CsvFile n t"
| "named n x = x"

definition export_dashboard_kpis ::
  "analytics_env \<Rightarrow> env \<Rightarrow> auth_user \<Rightarrow> str \<Rightarrow> str option \<Rightarrow> str option \<Rightarrow> str option \<Rightarrow> sla_api \<Rightarrow> exn + analytics_export" where
  "export_dashboard_kpis an env user fmt severity site_id site s =
     (case require_role Engineer user of
        Inl e \<Rightarrow> Inl e
      | Inr u \<Rightarrow>
          map_sum (value_error_as 400) id
            (export_dashboard_kpi an (aggregate_dashboard_kpis env (an_day an) severity (py_or site_id site) (sa_db s)) fmt))"

definition trends_for_export ::
  "analytics_env \<Rightarrow> env \<Rightarrow> nat \<Rightarrow> str \<Rightarrow> str \<Rightarrow> str option \<Rightarrow> str option \<Rightarrow> sla_api \<Rightarrow> exn + trend_point list" where
  "trends_for_export an env days bucket tz severity resolved_site s =
     (if days < 1 \<or> days > 365 then Inl (HTTPError 422)
      else if bucket \<notin> set VALID_BUCKETS then Inl (HTTPError 400)
      else map_sum (value_error_as 400) id
             (aggregate_trends (an_known_tz an) (an_trunc an) env (an_day an) days bucket tz severity resolved_site (sa_db s)))"

definition export_sla_trends ::
  "analytics_env \<Rightarrow> env \<Rightarrow> auth_user \<Rightarrow> str \<Rightarrow> nat \<Rightarrow> str \<Rightarrow> str \<Rightarrow> str option \<Rightarrow> str option \<Rightarrow> str option \<Rightarrow> sla_api
    \<Rightarrow> exn + analytics_export" where
  "export_sla_trends an env user fmt days bucket tz severity site_id site s =
     (case require_role Engineer user of
        Inl e \<Rightarrow> Inl e
      | Inr u \<Rightarrow>
          (case trends_for_export an env days bucket tz severity (py_or site_id site) s of
             Inl e \<Rightarrow> Inl e
           | Inr ts \<Rightarrow>
               map_sum (value_error_as 400) (named (''sla_trends_'' @ digits_of days @ ''d.csv'')) (export_trends an ts fmt)))"

definition export_performance_endpoint ::
  "analytics_env \<Rightarrow> env \<Rightarrow> auth_user \<Rightarrow> str \<Rightarrow> time option \<Rightarrow> time option \<Rightarrow> str option \<Rightarrow> str option \<Rightarrow> str option \<Rightarrow> sla_api
    \<Rightarrow> exn + analytics_export" where
  "export_performance_endpoint an env user fmt start_date end_date severity site_id site s =
     (case aggregate_sla_performance an env user start_date end_date severity site_id site s of
        Inl e \<Rightarrow> Inl e
      | Inr a \<Rightarrow> map_sum (value_error_as 400) id (export_performance_aggregation an a fmt))"

definition export_analytics_summary_endpoint ::
  "analytics_env \<Rightarrow> env \<Rightarrow> auth_user \<Rightarrow> str \<Rightarrow> nat \<Rightarrow> str \<Rightarrow> str \<Rightarrow> str option \<Rightarrow> str option \<Rightarrow> str option \<Rightarrow> bool \<Rightarrow> sla_api
    \<Rightarrow> exn + analytics_export" where
  "export_analytics_summary_endpoint an env user fmt days bucket tz severity site_id site include_aggregation s =
     (case require_role Engineer user of
        Inl e \<Rightarrow> Inl e
      | Inr u \<Rightarrow>
          (let site' = py_or site_id site in
           case trends_for_export an env days bucket tz severity site' s of
             Inl e \<Rightarrow> Inl e
           | Inr ts \<Rightarrow>
               map_sum (value_error_as 400) (named (''sla_analytics_summary_'' @ digits_of days @ ''d.csv''))
                 (export_analytics_summary an (aggregate_dashboard_kpis env (an_day an) severity site' (sa_db s)) ts
                   (if include_aggregation
                    then Some (aggregate_performance env (an_day an) None None severity site' (sa_db s)) else None) fmt)))"

section \<open>Cached answers\<close>

type_synonym reading = "env \<times> analytics_env \<times> database"

text \<open>Where a cached value comes from: a computation on the database as it was at some reading, for filters with that key.\<close>

definition computed_at :: "reading \<Rightarrow> str \<Rightarrow> cached_analytics \<Rightarrow> bool" where
  "computed_at x k v \<longleftrightarrow>
     (case x of (env, an, db) \<Rightarrow>
        (\<exists>sev site. k = dashboard_key sev site \<and> v = CachedKpi (aggregate_dashboard_kpis env (an_day an) sev site db)) \<or>
        (\<exists>days bucket tz sev site ts. k = trends_key days bucket tz sev site \<and> v = CachedTrends ts \<and>
           aggregate_trends (an_known_tz an) (an_trunc an) env (an_day an) days bucket tz sev site db = Inr ts))"

definition explained :: "reading list \<Rightarrow> cached_analytics ttl_cache \<Rightarrow> bool" where
  "explained hist c \<longleftrightarrow>
     (\<forall>k v e. map_of c k = Some (v, e) \<longrightarrow> (\<exists>x \<in> set hist. e = now (fst x) + DASHBOARD_TTL \<and> computed_at x k v))"

text \<open>Requests, interleaved with arbitrary writes to the database; the hist keeps every reading.\<close>

inductive api_step :: "reading list \<times> sla_api \<Rightarrow> reading list \<times> sla_api \<Rightarrow> bool" where
  dashboard: "api_step (hist, s) ((env, an, sa_db s) # hist, snd (get_sla_dashboard_kpis an env user sev site_id site s))"
| trends: "api_step (hist, s) ((env, an, sa_db s) # hist, snd (get_sla_trends an env user days bucket tz sev site_id site s))"
| snapshot: "api_step (hist, s) (hist, snd (create_analytics_snapshot an env user key s))"
| rebuild: "api_step (hist, s) (hist, snd (rebuild_analytics_snapshot an env user key s))"
| configure: "api_step (hist, s) (hist, snd (update_sla_config env user tok sev payload expected others s))"
| writing: "api_step (hist, s) (hist, s\<lparr>sa_db := db\<rparr>)"

lemma explained_mono: "explained hist c \<Longrightarrow> explained (x # hist) c"
  by (auto simp: explained_def)

lemma explained_delete: "explained hist c \<Longrightarrow> explained hist (AList.delete k c)"
  by (auto simp: explained_def delete_conv')

lemma explained_get: "explained hist c \<Longrightarrow> ttl_get t k c = (r, c1) \<Longrightarrow> explained hist c1"
  by (auto simp: ttl_get_def explained_delete split: option.splits prod.splits if_splits)

lemma explained_set:
  "explained hist c \<Longrightarrow> computed_at (env, an, db) k v \<Longrightarrow>
    explained ((env, an, db) # hist) (ttl_set DASHBOARD_TTL (now env) k v c)"
  by (auto simp: explained_def ttl_set_def update_conv' split: if_splits)

lemma explained_invalidate: "explained hist c \<Longrightarrow> explained hist (ttl_invalidate_prefix p c)"
proof -
  have "map_of (filter (\<lambda>(k, _). \<not> Q k) c) k = (if Q k then None else map_of c k)" for Q k and c :: "cached_analytics ttl_cache"
    by (induction c) auto
  then show "explained hist c \<Longrightarrow> explained hist (ttl_invalidate_prefix p c)"
    unfolding explained_def ttl_invalidate_prefix_def by (metis option.distinct(1))
qed

lemma dashboard_explained:
  assumes "explained hist (sa_cache s)"
  shows "explained ((env, an, sa_db s) # hist) (sa_cache (snd (get_sla_dashboard_kpis an env user sev site_id site s)))"
proof (cases "require_role Engineer user")
  case (Inl e)
  with assms show ?thesis by (simp add: get_sla_dashboard_kpis_def explained_mono)
next
  case (Inr u)
  let ?site = "py_or site_id site"
  let ?k = "dashboard_key sev ?site"
  obtain r c where get: "ttl_get (now env) ?k (sa_cache s) = (r, c)" by fastforce
  note c = explained_get [OF assms get]
  have new: "computed_at (env, an, sa_db s) ?k (CachedKpi (aggregate_dashboard_kpis env (an_day an) sev ?site (sa_db s)))"
    by (auto simp: computed_at_def)
  show ?thesis
  proof (cases r)
    case None
    with Inr get explained_set [OF c new] show ?thesis by (simp add: get_sla_dashboard_kpis_def Let_def)
  next
    case (Some v)
    with Inr get explained_mono [OF c] show ?thesis by (simp add: get_sla_dashboard_kpis_def Let_def)
  qed
qed

lemma trends_explained:
  assumes "explained hist (sa_cache s)"
  shows "explained ((env, an, sa_db s) # hist) (sa_cache (snd (get_sla_trends an env user days bucket tz sev site_id site s)))"
proof (cases "require_role Engineer user = Inr user \<and> \<not> (days < 1 \<or> days > 90) \<and> bucket \<in> set VALID_BUCKETS")
  case False
  then have "snd (get_sla_trends an env user days bucket tz sev site_id site s) = s"
    by (auto simp: get_sla_trends_def require_role_def)
  with assms show ?thesis by (simp add: explained_mono)
next
  case True
  let ?site = "py_or site_id site"
  let ?k = "trends_key days bucket tz sev ?site"
  let ?agg = "aggregate_trends (an_known_tz an) (an_trunc an) env (an_day an) days bucket tz sev ?site (sa_db s)"
  obtain r c where get: "ttl_get (now env) ?k (sa_cache s) = (r, c)" by fastforce
  note c = explained_get [OF assms get]
  show ?thesis
  proof (cases r)
    case (Some v)
    with True get explained_mono [OF c] show ?thesis by (simp add: get_sla_trends_def Let_def)
  next
    case None
    show ?thesis
    proof (cases ?agg)
      case (Inl e)
      with None True get explained_mono [OF c] show ?thesis by (simp add: get_sla_trends_def Let_def)
    next
      case (Inr ts)
      then have "computed_at (env, an, sa_db s) ?k (CachedTrends ts)" unfolding computed_at_def by blast
      from explained_set [OF c this] None True get Inr show ?thesis by (simp add: get_sla_trends_def Let_def)
    qed
  qed
qed

lemma api_step_explained:
  assumes "api_step x y" "explained (fst x) (sa_cache (snd x))"
  shows "explained (fst y) (sa_cache (snd y))"
  using assms
proof (induction rule: api_step.induct)
  case (snapshot hist s an env user key)
  then show ?case
    by (auto simp: create_analytics_snapshot_def invalidate_analytics_cache_def explained_invalidate split: sum.splits prod.splits)
next
  case (rebuild hist s an env user key)
  then show ?case
    by (auto simp: rebuild_analytics_snapshot_def invalidate_analytics_cache_def explained_invalidate split: sum.splits prod.splits)
next
  case (configure hist s env user tok sev payload expected others)
  then show ?case by (simp add: update_sla_config_def split: sum.splits prod.splits)
qed (simp_all add: dashboard_explained trends_explained)

lemma dashboard_key_not_trends: "dashboard_key a b \<noteq> trends_key d bu tz sev site"
  by (simp add: dashboard_key_def trends_key_def)

section \<open>Properties\<close>

text \<open>Whatever requests and writes happened before, a dashboard answer is what the aggregation computed at most thirty seconds ago, on the database of that moment, for filters that share its cache key; writes do not make it fresher.\<close>

theorem dashboard_answer_is_recent:
  assumes "api_step\<^sup>*\<^sup>* ([], s0) (hist, s)" "sa_cache s0 = []"
    and "get_sla_dashboard_kpis an env user sev site_id site s = (Inr v, s1)"
  shows "\<exists>(env0, an0, db0) \<in> set ((env, an, sa_db s) # hist). now env - DASHBOARD_TTL \<le> now env0 \<and>
           (\<exists>sev0 site0. dashboard_key sev0 site0 = dashboard_key sev (py_or site_id site) \<and>
              v = CachedKpi (aggregate_dashboard_kpis env0 (an_day an0) sev0 site0 db0))"
proof -
  have "explained (fst (hist, s)) (sa_cache (snd (hist, s)))"
    using assms(1)
  proof (induction rule: rtranclp_induct)
    case base
    show ?case by (simp add: assms(2) explained_def)
  qed (rule api_step_explained)
  then have ex: "explained hist (sa_cache s)" by simp
  let ?k = "dashboard_key sev (py_or site_id site)"
  from assms(3) have role: "require_role Engineer user = Inr user"
    by (auto simp: get_sla_dashboard_kpis_def require_role_def split: if_splits)
  obtain r c where get: "ttl_get (now env) ?k (sa_cache s) = (r, c)" by fastforce
  show ?thesis
  proof (cases r)
    case None
    with assms(3) role get have "v = CachedKpi (aggregate_dashboard_kpis env (an_day an) sev (py_or site_id site) (sa_db s))"
      by (simp add: get_sla_dashboard_kpis_def Let_def)
    moreover have "now env - DASHBOARD_TTL \<le> now env" by (simp add: DASHBOARD_TTL_def)
    ultimately show ?thesis by auto
  next
    case (Some w)
    with assms(3) role get have "w = v" by (simp add: get_sla_dashboard_kpis_def Let_def)
    with Some get obtain e where e: "map_of (sa_cache s) ?k = Some (v, e)" "now env \<le> e"
      by (auto simp: ttl_get_def split: option.splits if_splits prod.splits)
    with ex obtain x where x: "x \<in> set hist" "e = now (fst x) + DASHBOARD_TTL" "computed_at x ?k v"
      unfolding explained_def by blast
    obtain env0 an0 db0 where x0: "x = (env0, an0, db0)" by (cases x)
    from x(3) have "(\<exists>sev0 site0. ?k = dashboard_key sev0 site0 \<and>
        v = CachedKpi (aggregate_dashboard_kpis env0 (an_day an0) sev0 site0 db0)) \<or>
        (\<exists>d b z p q. ?k = trends_key d b z p q)"
      unfolding x0 computed_at_def prod.case by blast
    then obtain sev0 site0 where "dashboard_key sev0 site0 = ?k"
        "v = CachedKpi (aggregate_dashboard_kpis env0 (an_day an0) sev0 site0 db0)"
      using dashboard_key_not_trends by auto
    moreover have "now env - DASHBOARD_TTL \<le> now env0" using e(2) x(2) x0 by simp
    ultimately show ?thesis using x(1) x0 by fastforce
  qed
qed

text \<open>The cache key does not separate its filters: two different filters may share a key, and then the second request is answered, within thirty seconds, with the numbers of the first.  The unfiltered dashboard shares its key with the filter for a severity written "None".\<close>

theorem dashboard_filters_collide:
  assumes "au_role user = Engineer" "dashboard_key sev (py_or site_id site) = dashboard_key sev2 (py_or site_id2 site2)"
    and "get_sla_dashboard_kpis an env user sev site_id site s = (Inr v, s1)" "sa_cache s = []"
    and "now env \<le> now env2" "now env2 \<le> now env + DASHBOARD_TTL"
  shows "fst (get_sla_dashboard_kpis an2 env2 user sev2 site_id2 site2 (s1\<lparr>sa_db := db\<rparr>)) = Inr v \<and>
         v = CachedKpi (aggregate_dashboard_kpis env (an_day an) sev (py_or site_id site) (sa_db s))"
  using assms by (auto simp: get_sla_dashboard_kpis_def require_role_def Let_def ttl_get_def ttl_set_def)

text \<open>The trend export in CSV reads back as the header and one record per point, provided there is a point; an unknown format is refused with 400.\<close>

theorem trend_export_roundtrip:
  assumes "ts \<noteq> []" "py_lower fmt = ''csv''"
  shows "\<exists>t. export_trends an ts fmt = Inr (CsvFile [] t) \<and>
           read_rows (Suc (length ts)) t = TREND_FIELDS # map (trend_cells an) ts"
proof -
  have "read_rows (Suc (length ts)) (concat (map csv_row (TREND_FIELDS # map (trend_cells an) ts))) = TREND_FIELDS # map (trend_cells an) ts"
    by (rule read_csv_rows) (auto simp: TREND_FIELDS_def trend_cells_def)
  with assms show ?thesis by (simp add: export_trends_def Let_def comp_def)
qed

section \<open>Examples\<close>

definition sample_analytics :: analytics_env where
  "sample_analytics = \<lparr>an_known_tz = (\<lambda>z. z = ''UTC''), an_trunc = (\<lambda>b z t. t), an_day = 86400, an_repr = (\<lambda>q. ''0.0''),
     an_iso_written = py_str_int, an_iso_read = py_str_int, an_date = py_str_int\<rparr>"

definition sample_sla_api :: sla_api where
  "sample_sla_api = \<lparr>sa_db = empty_database\<lparr>outages := [sample_outage ''o1'' Open 0], sla_results := [sample_sla 1 ''o1''], next_sla_id := 2\<rparr>,
     sa_snapshots = [], sa_policy = initial_cache, sa_history = [], sa_cache = []\<rparr>"

definition sample_analyst :: auth_user where
  "sample_analyst = \<lparr>au_id = ''u1'', au_email = ''eng@x'', au_full_name = None, au_role = Engineer, au_stellar_wallet = None,
     au_created_at = 0\<rparr>"

theorem dashboard_answer_is_recent_witness:
  "\<exists>v s1. get_sla_dashboard_kpis sample_analytics (sample_env 40) sample_analyst None None None sample_sla_api = (Inr v, s1) \<and>
     (\<exists>(env0, an0, db0) \<in> set [(sample_env 40, sample_analytics, sa_db sample_sla_api)]. now (sample_env 40) - DASHBOARD_TTL \<le> now env0)"
proof -
  obtain v s1 where r: "get_sla_dashboard_kpis sample_analytics (sample_env 40) sample_analyst None None None sample_sla_api = (Inr v, s1)"
    by (auto simp: get_sla_dashboard_kpis_def sample_analyst_def require_role_def sample_sla_api_def ttl_get_def Let_def)
  have "api_step\<^sup>*\<^sup>* ([], sample_sla_api) ([], sample_sla_api)" "sa_cache sample_sla_api = []"
    by (simp_all add: sample_sla_api_def)
  from dashboard_answer_is_recent [OF this r] r show ?thesis by auto
qed

theorem dashboard_filters_collide_witness:
  "\<exists>v s1. get_sla_dashboard_kpis sample_analytics (sample_env 40) sample_analyst (Some ''None'') None None sample_sla_api = (Inr v, s1) \<and>
     fst (get_sla_dashboard_kpis sample_analytics (sample_env 41) sample_analyst None None None s1) = Inr v \<and>
     v \<noteq> CachedKpi (aggregate_dashboard_kpis (sample_env 41) 86400 None None (sa_db sample_sla_api))"
proof -
  obtain v s1 where r: "get_sla_dashboard_kpis sample_analytics (sample_env 40) sample_analyst (Some ''None'') None None sample_sla_api = (Inr v, s1)"
    by (auto simp: get_sla_dashboard_kpis_def sample_analyst_def require_role_def sample_sla_api_def ttl_get_def Let_def)
  have s1: "s1\<lparr>sa_db := sa_db s1\<rparr> = s1" by simp
  have "au_role sample_analyst = Engineer" "dashboard_key (Some ''None'') (py_or None None) = dashboard_key None (py_or None None)"
    by (simp_all add: sample_analyst_def dashboard_key_def shown_def)
  from dashboard_filters_collide [OF this r, of "sample_env 41" sample_analytics "sa_db s1"]
  have "fst (get_sla_dashboard_kpis sample_analytics (sample_env 41) sample_analyst None None None s1) = Inr v \<and>
      v = CachedKpi (aggregate_dashboard_kpis (sample_env 40) 86400 (Some ''None'') None (sa_db sample_sla_api))"
    unfolding s1 by (simp add: sample_sla_api_def sample_env_def DASHBOARD_TTL_def sample_analytics_def py_or_def)
  moreover have "aggregate_dashboard_kpis (sample_env 40) 86400 (Some ''None'') None (sa_db sample_sla_api) \<noteq>
      aggregate_dashboard_kpis (sample_env 41) 86400 None None (sa_db sample_sla_api)"
    by (simp add: aggregate_dashboard_kpis_def recent_latest_def join_outages_def outage_matches_def sample_sla_api_def
      sample_sla_def sample_outage_def empty_database_def sample_env_def scan_start_def DEFAULT_SCAN_DAYS_def Let_def)
  ultimately show ?thesis using r by auto
qed

theorem trend_export_roundtrip_witness:
  "\<exists>t. export_trends sample_analytics [\<lparr>tp_bucket = 1, tp_total_outages = 2, tp_violations = 1, tp_rewards = 3, tp_penalties = 4\<rparr>] ''csv''
       = Inr (CsvFile [] t) \<and> length (read_rows 2 t) = 2"
proof -
  have f: "[\<lparr>tp_bucket = 1, tp_total_outages = 2, tp_violations = 1, tp_rewards = 3, tp_penalties = 4\<rparr>] \<noteq> []"
      "py_lower ''csv'' = ''csv''"
    by (simp_all add: py_lower_def lower_char_def)
  from trend_export_roundtrip [OF f, of sample_analytics] show ?thesis by (auto simp: numeral_2_eq_2)
qed

end
