(* ===== verification/Tx_Memo.thy ===== *)
theory Tx_Memo
  imports Values
begin

text \<open>
  The memo attached to a settlement payment (\<^verbatim>\<open>services/tx_memo.py\<close>): an operation code, an
  aggregation key and eight digits of a content hash, written \<open>op:agg:vhash\<close> in at most 28 bytes.
\<close>

definition VALID_OP_CODES :: "str list" where
  "VALID_OP_CODES = [''SLP'', ''SLR'', ''DSP'', ''DSR'', ''RCA'', ''CFG'']"

definition MEMO_MAX_BYTES :: nat where "MEMO_MAX_BYTES = 28"

record tx_memo =
  tm_op :: str
  tm_agg :: str
  tm_content_hash :: str

definition lower_hex :: "char \<Rightarrow> bool" where
  "lower_hex c \<longleftrightarrow> is_digit c \<or> (let n = (of_char c :: nat) in 97 \<le> n \<and> n \<le> 102)"

definition agg_char :: "char \<Rightarrow> bool" where
  "agg_char c \<longleftrightarrow> is_letter c \<or> is_digit c \<or> c = CHR ''_'' \<or> c = CHR ''-''"

text \<open>The constructor: field lengths, then the validators, which return the normalised values.\<close>

definition make_memo :: "str \<Rightarrow> str \<Rightarrow> str \<Rightarrow> exn + tx_memo" where
  "make_memo op agg h =
     (if \<not> (2 \<le> length op \<and> length op \<le> 3) \<or> \<not> (1 \<le> length agg \<and> length agg \<le> 16) \<or> length h \<noteq> 8 then Inl ValueError
      else if py_upper op \<notin> set VALID_OP_CODES then Inl ValueError
      else if \<not> list_all lower_hex (py_lower h) then Inl ValueError
      else Inr \<lparr>tm_op = py_upper op, tm_agg = agg, tm_content_hash = py_lower h\<rparr>)"

definition memo_encode :: "tx_memo \<Rightarrow> str" where
  "memo_encode m = tm_op m @ '':'' @ tm_agg m @ '':v'' @ tm_content_hash m"

definition memo_byte_length :: "tx_memo \<Rightarrow> nat" where
  "memo_byte_length m = utf8_length (memo_encode m)"

text \<open>\<open>MEMO_PATTERN.match\<close> and its groups; the dollar sign also matches before a final line break.\<close>

definition memo_groups :: "str \<Rightarrow> (str \<times> str \<times> str) option" where
  "memo_groups raw =
     (let body = (if raw \<noteq> [] \<and> last raw = CHR 0x0A then butlast raw else raw) in
      case split_char CHR '':'' body of
        [op, agg, vh] \<Rightarrow>
          (case vh of
             [] \<Rightarrow> None
           | v # h \<Rightarrow>
               if 2 \<le> length op \<and> length op \<le> 3 \<and> list_all is_letter op \<and>
                  1 \<le> length agg \<and> length agg \<le> 16 \<and> list_all agg_char agg \<and>
                  v = CHR ''v'' \<and> length h = 8 \<and> list_all lower_hex h
               then Some (op, agg, h) else None)
      | _ \<Rightarrow> None)"

definition memo_parse :: "str \<Rightarrow> exn + tx_memo" where
  "memo_parse raw =
     (if utf8_length raw > MEMO_MAX_BYTES then Inl ValueError
      else case memo_groups raw of None \<Rightarrow> Inl ValueError | Some (op, agg, h) \<Rightarrow> make_memo op agg h)"

text \<open>\<open>TxMemo.build\<close>; the hexadecimal SHA-256 digest is an argument.\<close>

definition memo_build :: "(str \<Rightarrow> str) \<Rightarrow> str \<Rightarrow> str \<Rightarrow> str \<Rightarrow> str \<Rightarrow> exn + tx_memo" where
  "memo_build sha op agg payload algorithm =
     (if algorithm \<noteq> ''sha256'' then Inl ValueError
      else case make_memo op (take 16 agg) (take 8 (sha payload)) of
        Inl e \<Rightarrow> Inl e
      | Inr m \<Rightarrow> if memo_byte_length m > MEMO_MAX_BYTES then Inl ValueError else Inr m)"

definition is_suspicious :: "str \<Rightarrow> bool" where
  "is_suspicious raw = (case memo_parse raw of Inl _ \<Rightarrow> True | Inr _ \<Rightarrow> False)"

section \<open>Facts\<close>

lemma lower_hex_not_colon: "lower_hex c \<Longrightarrow> c \<noteq> CHR '':'' \<and> c \<noteq> CHR 0x0A \<and> lower_char c = c"
  by (auto simp: lower_hex_def is_digit_def lower_char_def Let_def)

lemma agg_char_plain: "agg_char c \<Longrightarrow> c \<noteq> CHR '':''"
  by (auto simp: agg_char_def is_letter_def is_digit_def)

lemma op_code_plain:
  assumes "op \<in> set VALID_OP_CODES"
  shows "length op = 3" "CHR '':'' \<notin> set op" "list_all is_letter op" "py_upper op = op" "utf8_length op = 3"
  using assms
  by (auto simp: VALID_OP_CODES_def py_upper_def upper_char_def is_letter_def utf8_length_def)

lemma py_lower_fixed: "list_all lower_hex s \<Longrightarrow> py_lower s = s"
  by (auto simp: py_lower_def list_all_iff lower_hex_not_colon intro: map_idI)

lemma make_memo_Inr:
  assumes "make_memo op agg h = Inr m"
  shows "tm_op m \<in> set VALID_OP_CODES" "tm_op m = py_upper op" "tm_agg m = agg" "1 \<le> length agg" "length agg \<le> 16"
    "tm_content_hash m = py_lower h" "length (tm_content_hash m) = 8" "list_all lower_hex (tm_content_hash m)"
  using assms by (auto simp: make_memo_def py_lower_def split: if_splits)

lemma make_memo_again:
  assumes "make_memo op agg h = Inr m"
  shows "make_memo (tm_op m) (tm_agg m) (tm_content_hash m) = Inr m"
  using make_memo_Inr [OF assms] op_code_plain [of "tm_op m"]
  by (simp add: make_memo_def py_lower_fixed)

lemma lower_hex_bytes: "list_all lower_hex s \<Longrightarrow> utf8_length s = length s"
  by (induction s) (auto simp: utf8_length_def lower_hex_def is_digit_def Let_def)

lemma utf8_length_Cons [simp]: "utf8_length (c # s) = (if (of_char c :: nat) < 128 then 1 else 2) + utf8_length s"
  by (simp add: utf8_length_def)

lemma utf8_length_append: "utf8_length (s @ t) = utf8_length s + utf8_length t"
  by (simp add: utf8_length_def)

lemma utf8_length_ge: "length s \<le> utf8_length s"
  by (induction s) (auto simp: utf8_length_def)

lemma memo_length:
  assumes "make_memo op agg h = Inr m"
  shows "memo_byte_length m = 14 + utf8_length agg"
proof -
  from make_memo_Inr [OF assms] op_code_plain(5) lower_hex_bytes [of "tm_content_hash m"] show ?thesis
    by (simp add: memo_byte_length_def memo_encode_def utf8_length_append)
qed

lemma agg_bytes: "list_all agg_char s \<Longrightarrow> utf8_length s = length s"
  by (induction s) (auto simp: utf8_length_def agg_char_def is_letter_def is_digit_def Let_def)

lemma encoded_groups:
  assumes "make_memo op agg h = Inr m"
  shows "memo_groups (memo_encode m) =
           (if list_all agg_char agg then Some (tm_op m, tm_agg m, tm_content_hash m) else None)"
proof -
  note m = make_memo_Inr [OF assms] and o = op_code_plain [OF make_memo_Inr(1) [OF assms]]
  let ?h = "tm_content_hash m"
  from m(7) have hne: "?h \<noteq> []" by auto
  from m(8) hne have "last (memo_encode m) \<noteq> CHR 0x0A"
    using lower_hex_not_colon last_in_set [OF hne] unfolding memo_encode_def list_all_iff by auto
  moreover have split: "split_char CHR '':'' (memo_encode m) = tm_op m # split_char CHR '':'' (agg @ CHR '':'' # CHR ''v'' # ?h)"
    using o(2) m(3) by (simp add: memo_encode_def split_char_append)
  have hc: "CHR '':'' \<notin> set (CHR ''v'' # ?h)" using m(8) by (auto simp: list_all_iff dest: lower_hex_not_colon)
  show ?thesis
  proof (cases "list_all agg_char agg")
    case True
    then have "CHR '':'' \<notin> set agg" by (auto simp: list_all_iff dest: agg_char_plain)
    with split hc have "split_char CHR '':'' (memo_encode m) = [tm_op m, agg, CHR ''v'' # ?h]"
      by (simp add: split_char_append split_char_plain del: split_char.simps)
    with calculation True m o show ?thesis by (simp add: memo_groups_def Let_def)
  next
    case False
    have "memo_groups (memo_encode m) = None"
    proof (rule ccontr)
      assume "memo_groups (memo_encode m) \<noteq> None"
      then obtain x a w where parts: "split_char CHR '':'' (memo_encode m) = [x, a, w]" "list_all agg_char a"
        using calculation by (auto simp: memo_groups_def Let_def split: list.splits if_splits)
      with split have "split_char CHR '':'' (agg @ CHR '':'' # CHR ''v'' # ?h) = [a, w]" by simp
      then have "agg @ CHR '':'' # CHR ''v'' # ?h = a @ CHR '':'' # w"
        using join_split_char [of "CHR '':''" "agg @ CHR '':'' # CHR ''v'' # ?h"] by simp
      moreover have "CHR '':'' \<notin> set w"
        using split_char_parts [of w] parts(1) by (metis list.set_intros)
      ultimately have "agg = a" using hc agg_char_plain parts(2)
        by (auto simp: append_eq_append_conv2 append_eq_Cons_conv Cons_eq_append_conv list_all_iff)
      with parts(2) False show False by simp
    qed
    with False show ?thesis by simp
  qed
qed

lemma memo_groups_length:
  assumes "memo_groups raw = Some (op, agg, h)"
  shows "utf8_length raw \<ge> length op + length agg + 11"
proof -
  let ?body = "if raw \<noteq> [] \<and> last raw = CHR 0x0A then butlast raw else raw"
  from assms have "split_char CHR '':'' ?body = [op, agg, CHR ''v'' # h]" and h: "length h = 8"
    by (auto simp: memo_groups_def Let_def split: list.splits if_splits)
  then have "?body = op @ CHR '':'' # agg @ CHR '':'' # CHR ''v'' # h"
    using join_split_char [of "CHR '':''" ?body] by simp
  then have "length ?body = length op + length agg + 11" using h by (simp only: length_append list.size)
  then have "length op + length agg + 11 \<le> length raw" by (simp split: if_splits)
  with utf8_length_ge [of raw] show ?thesis by linarith
qed

section \<open>Properties\<close>

text \<open>
  What the parser accepts is normal: the memo it returns fits the limit, carries a whitelisted code, and encoding it
  and parsing again gives the same memo, so normalisation happens once.
\<close>

theorem memo_roundtrip:
  assumes "memo_parse raw = Inr m"
  shows "memo_parse (memo_encode m) = Inr m \<and> memo_byte_length m \<le> MEMO_MAX_BYTES \<and> tm_op m \<in> set VALID_OP_CODES"
proof -
  from assms obtain op agg h where g: "memo_groups raw = Some (op, agg, h)" "make_memo op agg h = Inr m"
    and len: "utf8_length raw \<le> MEMO_MAX_BYTES"
    by (auto simp: memo_parse_def split: option.splits if_splits)
  from g(1) have agg: "list_all agg_char agg" and letters: "list_all is_letter op"
    by (auto simp: memo_groups_def Let_def split: list.splits if_splits)
  from letters have sharp: "CHR 0xDF \<notin> set op" by (auto simp: list_all_iff is_letter_def)
  have "utf8_length raw \<ge> 14 + length agg"
    using memo_groups_length [OF g(1)] make_memo_Inr(1,2) [OF g(2)] op_code_plain(1) [of "tm_op m"]
    by (simp add: sharp py_upper_plain)
  with len memo_length [OF g(2)] agg_bytes [OF agg] have fits: "memo_byte_length m \<le> MEMO_MAX_BYTES" by simp
  with encoded_groups [OF g(2)] agg make_memo_again [OF g(2)] have "memo_parse (memo_encode m) = Inr m"
    by (simp add: memo_parse_def memo_byte_length_def)
  with fits make_memo_Inr(1) [OF g(2)] show ?thesis by blast
qed

theorem memo_roundtrip_witness:
  "memo_parse ''slp:OUT001:va3f2c1b9'' = Inr \<lparr>tm_op = ''SLP'', tm_agg = ''OUT001'', tm_content_hash = ''a3f2c1b9''\<rparr> \<and>
   memo_parse (memo_encode \<lparr>tm_op = ''SLP'', tm_agg = ''OUT001'', tm_content_hash = ''a3f2c1b9''\<rparr>) =
     Inr \<lparr>tm_op = ''SLP'', tm_agg = ''OUT001'', tm_content_hash = ''a3f2c1b9''\<rparr>"
proof -
  have p: "memo_parse ''slp:OUT001:va3f2c1b9'' = Inr \<lparr>tm_op = ''SLP'', tm_agg = ''OUT001'', tm_content_hash = ''a3f2c1b9''\<rparr>"
    by code_simp
  with memo_roundtrip [OF p] show ?thesis by blast
qed

text \<open>
  A memo that was built is flagged by \<open>is_suspicious\<close> exactly when its aggregation key has a character outside the
  pattern, which \<open>build\<close> does not look at; and no key of fifteen characters or more can be built, although the field
  admits sixteen.
\<close>

theorem built_memo_limits:
  assumes "\<forall>p. 8 \<le> length (sha p)"
  shows "(\<forall>m. memo_build sha op agg payload algorithm = Inr m \<longrightarrow>
            memo_byte_length m \<le> MEMO_MAX_BYTES \<and> tm_agg m = agg \<and>
            (is_suspicious (memo_encode m) \<longleftrightarrow> \<not> list_all agg_char agg)) \<and>
         (15 \<le> length agg \<longrightarrow> memo_build sha op agg payload algorithm = Inl ValueError)"
proof (intro conjI allI impI)
  fix m
  assume "memo_build sha op agg payload algorithm = Inr m"
  then have mk: "make_memo op (take 16 agg) (take 8 (sha payload)) = Inr m" and fits: "memo_byte_length m \<le> MEMO_MAX_BYTES"
    by (auto simp: memo_build_def split: sum.splits if_splits)
  from fits memo_length [OF mk] utf8_length_ge [of "take 16 agg"] have "length (take 16 agg) \<le> 14"
    by (simp add: MEMO_MAX_BYTES_def)
  then have take: "take 16 agg = agg" by (simp split: if_splits)
  from fits show "memo_byte_length m \<le> MEMO_MAX_BYTES" .
  from make_memo_Inr(3) [OF mk] take show "tm_agg m = agg" by simp
  from encoded_groups [OF mk] fits make_memo_again [OF mk] take
  show "is_suspicious (memo_encode m) \<longleftrightarrow> \<not> list_all agg_char agg"
    by (simp add: is_suspicious_def memo_parse_def memo_byte_length_def)
next
  assume long: "15 \<le> length agg"
  show "memo_build sha op agg payload algorithm = Inl ValueError"
  proof (cases "make_memo op (take 16 agg) (take 8 (sha payload))")
    case (Inl e)
    then have "e = ValueError" by (auto simp: make_memo_def split: if_splits)
    with Inl show ?thesis by (simp add: memo_build_def)
  next
    case (Inr m)
    from memo_length [OF this] utf8_length_ge [of "take 16 agg"] long have "memo_byte_length m > MEMO_MAX_BYTES"
      by (simp add: MEMO_MAX_BYTES_def min_def split: if_splits)
    with Inr show ?thesis by (simp add: memo_build_def)
  qed
qed

theorem built_memo_limits_witness:
  "memo_build (\<lambda>p. ''0123456789abcdef'') ''SLP'' ''OUT.1'' ''x'' ''sha256'' =
     Inr \<lparr>tm_op = ''SLP'', tm_agg = ''OUT.1'', tm_content_hash = ''01234567''\<rparr> \<and>
   is_suspicious (memo_encode \<lparr>tm_op = ''SLP'', tm_agg = ''OUT.1'', tm_content_hash = ''01234567''\<rparr>) \<and>
   memo_build (\<lambda>p. ''0123456789abcdef'') ''SLP'' ''outage_12345678'' ''x'' ''sha256'' = Inl ValueError"
proof -
  let ?sha = "\<lambda>p :: str. ''0123456789abcdef''"
  have sha: "\<forall>p. 8 \<le> length (?sha p)" by simp
  have b: "memo_build ?sha ''SLP'' ''OUT.1'' ''x'' ''sha256'' =
     Inr \<lparr>tm_op = ''SLP'', tm_agg = ''OUT.1'', tm_content_hash = ''01234567''\<rparr>" by code_simp
  moreover have "\<not> list_all agg_char ''OUT.1''" by code_simp
  ultimately show ?thesis
    using built_memo_limits [OF sha, of "''SLP''" "''OUT.1''" "''x''" "''sha256''"]
      built_memo_limits [OF sha, of "''SLP''" "''outage_12345678''" "''x''" "''sha256''"] by simp
qed

end
