(* ===== verification/Tx_Query.thy ===== *)
theory Tx_Query
  imports Values Payments Stellar Access "HOL-Library.Multiset" "HOL-Library.List_Lexorder" "HOL-Library.Char_ord"
begin

text \<open>
  Reading the transaction index: the filters of \<^verbatim>\<open>services/tx_indexer_query.py\<close>, the second set of filters of
  \<^verbatim>\<open>services/tx_indexer_input.py\<close>, the search of \<^verbatim>\<open>repositories/tx_indexer_repository.py\<close> and the
  handler \<open>list_indexed_transactions\<close> of \<^verbatim>\<open>endpoints/indexer.py\<close>.  Filter values are dynamically typed, as the
  validators see them.
\<close>

section \<open>Filter validation\<close>

definition MIN_LIMIT :: int where "MIN_LIMIT = 1"
definition MAX_LIMIT :: int where "MAX_LIMIT = 200"
definition DEFAULT_LIMIT :: int where "DEFAULT_LIMIT = 50"
definition BIGINT_MIN :: int where "BIGINT_MIN = - (2 ^ 63)"
definition BIGINT_MAX :: int where "BIGINT_MAX = 2 ^ 63 - 1"

definition VALID_STATUSES :: "str list" where
  "VALID_STATUSES = map payment_status_value [Pending, Confirmed, Failed]"

definition VALID_SORT_FIELDS :: "str list" where
  "VALID_SORT_FIELDS = [''created_at'', ''confirmed_at'', ''amount'', ''status'']"

definition VALID_SORT_DIRECTIONS :: "str list" where
  "VALID_SORT_DIRECTIONS = [''asc'', ''desc'']"

definition lower_letter :: "char \<Rightarrow> bool" where
  "lower_letter c \<longleftrightarrow> (let n = (of_char c :: nat) in 97 \<le> n \<and> n \<le> 122)"

definition upper_letter :: "char \<Rightarrow> bool" where
  "upper_letter c \<longleftrightarrow> (let n = (of_char c :: nat) in 65 \<le> n \<and> n \<le> 90)"

definition hex_lower :: "char \<Rightarrow> bool" where
  "hex_lower c \<longleftrightarrow> is_digit c \<or> (let n = (of_char c :: nat) in 97 \<le> n \<and> n \<le> 102)"

text \<open>The patterns, matched against the whole value.\<close>

definition transaction_hash_pattern :: "str \<Rightarrow> bool" where
  "transaction_hash_pattern s \<longleftrightarrow> length s = 64 \<and> list_all hex_lower s"

definition asset_code_pattern :: "str \<Rightarrow> bool" where
  "asset_code_pattern s \<longleftrightarrow> 1 \<le> length s \<and> length s \<le> 12 \<and> list_all (\<lambda>c. upper_letter c \<or> is_digit c) s"

definition token_tail :: "char \<Rightarrow> bool" where
  "token_tail c \<longleftrightarrow> lower_letter c \<or> is_digit c \<or> c = CHR ''_''"

definition transaction_type_pattern :: "str \<Rightarrow> bool" where
  "transaction_type_pattern s \<longleftrightarrow> s \<noteq> [] \<and> lower_letter (hd s) \<and> length s \<le> 32 \<and> list_all token_tail (tl s)"

definition outage_id_pattern :: "str \<Rightarrow> bool" where
  "outage_id_pattern s \<longleftrightarrow> 1 \<le> length s \<and> length s \<le> 64 \<and>
     list_all (\<lambda>c. is_letter c \<or> is_digit c \<or> c = CHR ''_'' \<or> c = CHR ''-'') s"

text \<open>\<open>_text\<close>.\<close>

fun text_value :: "nat \<Rightarrow> pyval \<Rightarrow> exn + str" where
  "text_value max_length (PStr raw) =
     (let value = py_strip raw in
      if value = [] \<or> length value > max_length then Inl TxIndexerQueryError else Inr value)"
| "text_value max_length _ = Inl TxIndexerQueryError"

text \<open>A validator of an optional filter: absent stays absent, otherwise the normalised text has to match.\<close>

definition checked :: "nat \<Rightarrow> (str \<Rightarrow> str) \<Rightarrow> (str \<Rightarrow> bool) \<Rightarrow> pyval \<Rightarrow> exn + str option" where
  "checked max_length normal pat raw =
     (if raw = PNone then Inr None
      else case text_value max_length raw of
        Inl e \<Rightarrow> Inl e
      | Inr t \<Rightarrow> if pat (normal t) then Inr (Some (normal t)) else Inl TxIndexerQueryError)"

definition validate_transaction_hash :: "pyval \<Rightarrow> exn + str option" where
  "validate_transaction_hash = checked 64 py_lower transaction_hash_pattern"

definition validate_account :: "pyval \<Rightarrow> exn + str option" where
  "validate_account raw =
     (if raw = PNone then Inr None
      else case text_value 56 raw of
        Inl e \<Rightarrow> Inl e
      | Inr t \<Rightarrow> (case normalize_address t of Inl _ \<Rightarrow> Inl TxIndexerQueryError | Inr a \<Rightarrow> Inr (Some a)))"

definition validate_asset_code :: "pyval \<Rightarrow> exn + str option" where
  "validate_asset_code = checked 12 py_upper asset_code_pattern"

definition validate_status :: "pyval \<Rightarrow> exn + str option" where
  "validate_status = checked 16 py_lower (\<lambda>s. s \<in> set VALID_STATUSES)"

definition validate_transaction_type :: "pyval \<Rightarrow> exn + str option" where
  "validate_transaction_type = checked 32 py_lower transaction_type_pattern"

definition validate_outage_id :: "pyval \<Rightarrow> exn + str option" where
  "validate_outage_id = checked 64 (\<lambda>s. s) outage_id_pattern"

definition bounded_amount :: "int \<Rightarrow> exn + int option" where
  "bounded_amount i = (if BIGINT_MIN \<le> i \<and> i \<le> BIGINT_MAX then Inr (Some i) else Inl TxIndexerQueryError)"

fun validate_amount :: "pyval \<Rightarrow> exn + int option" where
  "validate_amount PNone = Inr None"
| "validate_amount (PInt i) = bounded_amount i"
| "validate_amount (PStr s) = (case py_int_str s of Inl _ \<Rightarrow> Inl TxIndexerQueryError | Inr i \<Rightarrow> bounded_amount i)"
| "validate_amount _ = Inl TxIndexerQueryError"

definition validate_amount_range :: "pyval \<Rightarrow> pyval \<Rightarrow> exn + int option \<times> int option" where
  "validate_amount_range min_amount max_amount =
     (case validate_amount min_amount of
        Inl e \<Rightarrow> Inl e
      | Inr lo \<Rightarrow>
          (case validate_amount max_amount of
             Inl e \<Rightarrow> Inl e
           | Inr hi \<Rightarrow>
               (case (lo, hi) of
                  (Some a, Some b) \<Rightarrow> if a > b then Inl TxIndexerQueryError else Inr (lo, hi)
                | _ \<Rightarrow> Inr (lo, hi))))"

text \<open>
  A time bound: absent, a \<open>datetime\<close> with or without a time zone, or a value of another type.  Python refuses to order a
  naive against an aware time.
\<close>

datatype datetime = Aware time | Naive time
datatype time_arg = NoTime | TimeArg datetime | NotATime

fun validate_timestamp :: "time_arg \<Rightarrow> exn + datetime option" where
  "validate_timestamp NoTime = Inr None"
| "validate_timestamp (TimeArg w) = Inr (Some w)"
| "validate_timestamp NotATime = Inl TxIndexerQueryError"

fun later :: "datetime \<Rightarrow> datetime \<Rightarrow> exn + bool" where
  "later (Aware a) (Aware b) = Inr (a > b)"
| "later (Naive a) (Naive b) = Inr (a > b)"
| "later _ _ = Inl TypeError"

definition validate_timestamp_range :: "time_arg \<Rightarrow> time_arg \<Rightarrow> exn + datetime option \<times> datetime option" where
  "validate_timestamp_range created_after created_before =
     (case validate_timestamp created_after of
        Inl e \<Rightarrow> Inl e
      | Inr start \<Rightarrow>
          (case validate_timestamp created_before of
             Inl e \<Rightarrow> Inl e
           | Inr fin \<Rightarrow>
               (case (start, fin) of
                  (Some a, Some b) \<Rightarrow>
                    (case later a b of
                       Inl e \<Rightarrow> Inl e
                     | Inr l \<Rightarrow> if l then Inl TxIndexerQueryError else Inr (start, fin))
                | _ \<Rightarrow> Inr (start, fin))))"

definition validate_sort :: "pyval \<Rightarrow> pyval \<Rightarrow> exn + str \<times> str" where
  "validate_sort sort_by sort_dir =
     (case (if sort_by = PNone then Inr ''created_at'' else map_sum id py_lower (text_value 32 sort_by)) of
        Inl e \<Rightarrow> Inl e
      | Inr fld \<Rightarrow>
          (case (if sort_dir = PNone then Inr ''desc'' else map_sum id py_lower (text_value 4 sort_dir)) of
             Inl e \<Rightarrow> Inl e
           | Inr dir \<Rightarrow>
               if fld \<notin> set VALID_SORT_FIELDS \<or> dir \<notin> set VALID_SORT_DIRECTIONS then Inl TxIndexerQueryError
               else Inr (fld, dir)))"

fun validate_limit :: "pyval \<Rightarrow> exn + int" where
  "validate_limit PNone = Inr DEFAULT_LIMIT"
| "validate_limit (PInt i) = (if MIN_LIMIT \<le> i \<and> i \<le> MAX_LIMIT then Inr i else Inl TxIndexerQueryError)"
| "validate_limit _ = Inl TxIndexerQueryError"

text \<open>\<open>escape_like\<close>: three successive replacements.\<close>

definition replace_char :: "char \<Rightarrow> str \<Rightarrow> str \<Rightarrow> str" where
  "replace_char c by s = concat (map (\<lambda>x. if x = c then by else [x]) s)"

definition escape_like :: "str \<Rightarrow> str" where
  "escape_like v =
     replace_char CHR ''_'' [CHR 0x5C, CHR ''_'']
       (replace_char CHR ''%'' [CHR 0x5C, CHR ''%''] (replace_char CHR 0x5C [CHR 0x5C, CHR 0x5C] v))"

section \<open>Search\<close>

record tx_request =
  tq_transaction_hash :: pyval
  tq_account :: pyval
  tq_asset_code :: pyval
  tq_status :: pyval
  tq_type :: pyval
  tq_outage_id :: pyval
  tq_min_amount :: pyval
  tq_max_amount :: pyval
  tq_created_after :: time_arg
  tq_created_before :: time_arg
  tq_sort_by :: pyval
  tq_sort_dir :: pyval
  tq_limit :: pyval

record tx_filter =
  tf_hash :: "str option"
  tf_account :: "str option"
  tf_asset :: "str option"
  tf_status :: "str option"
  tf_type :: "str option"
  tf_outage :: "str option"
  tf_amounts :: "int option \<times> int option"
  tf_created :: "datetime option \<times> datetime option"
  tf_order :: "str \<times> str"
  tf_limit :: int

definition bind_ok :: "exn + 'a \<Rightarrow> ('a \<Rightarrow> exn + 'b) \<Rightarrow> exn + 'b" where
  "bind_ok r k = (case r of Inl e \<Rightarrow> Inl e | Inr x \<Rightarrow> k x)"

text \<open>The ten validators, in the order of \<open>search\<close>.\<close>

definition validate_request :: "tx_request \<Rightarrow> exn + tx_filter" where
  "validate_request q =
     bind_ok (validate_transaction_hash (tq_transaction_hash q)) (\<lambda>h.
     bind_ok (validate_account (tq_account q)) (\<lambda>a.
     bind_ok (validate_asset_code (tq_asset_code q)) (\<lambda>c.
     bind_ok (validate_status (tq_status q)) (\<lambda>s.
     bind_ok (validate_transaction_type (tq_type q)) (\<lambda>t.
     bind_ok (validate_outage_id (tq_outage_id q)) (\<lambda>oid.
     bind_ok (validate_amount_range (tq_min_amount q) (tq_max_amount q)) (\<lambda>am.
     bind_ok (validate_timestamp_range (tq_created_after q) (tq_created_before q)) (\<lambda>cr.
     bind_ok (validate_sort (tq_sort_by q) (tq_sort_dir q)) (\<lambda>od.
     bind_ok (validate_limit (tq_limit q)) (\<lambda>n.
       Inr \<lparr>tf_hash = h, tf_account = a, tf_asset = c, tf_status = s, tf_type = t, tf_outage = oid, tf_amounts = am,
            tf_created = cr, tf_order = od, tf_limit = n\<rparr>))))))))))"

text \<open>The instant a bound names: the database reads a naive time in its session's time zone, \<open>tz\<close> seconds off UTC.\<close>

fun instant :: "int \<Rightarrow> datetime \<Rightarrow> time" where
  "instant tz (Aware t) = t"
| "instant tz (Naive t) = t - tz"

definition matches_tx :: "int \<Rightarrow> tx_filter \<Rightarrow> payment_row \<Rightarrow> bool" where
  "matches_tx tz f p \<longleftrightarrow>
     (case tf_hash f of None \<Rightarrow> True | Some h \<Rightarrow> p_transaction_hash p = h) \<and>
     (case tf_account f of None \<Rightarrow> True | Some a \<Rightarrow> p_from_address p = a \<or> p_to_address p = a) \<and>
     (case tf_asset f of None \<Rightarrow> True | Some c \<Rightarrow> p_asset_code p = c) \<and>
     (case tf_status f of None \<Rightarrow> True | Some s \<Rightarrow> p_status p = s) \<and>
     (case tf_type f of None \<Rightarrow> True | Some t \<Rightarrow> p_type p = t) \<and>
     (case tf_outage f of None \<Rightarrow> True | Some k \<Rightarrow> p_outage_id p = Some k) \<and>
     (case fst (tf_amounts f) of None \<Rightarrow> True | Some a \<Rightarrow> a \<le> p_amount p) \<and>
     (case snd (tf_amounts f) of None \<Rightarrow> True | Some a \<Rightarrow> p_amount p \<le> a) \<and>
     (case fst (tf_created f) of None \<Rightarrow> True | Some w \<Rightarrow> instant tz w \<le> p_created_at p) \<and>
     (case snd (tf_created f) of None \<Rightarrow> True | Some w \<Rightarrow> p_created_at p \<le> instant tz w)"

text \<open>The value of the sort column; \<open>NULL\<close> sorts after every value.\<close>

definition tx_sort_value :: "str \<Rightarrow> payment_row \<Rightarrow> bool \<times> int \<times> str" where
  "tx_sort_value fld p =
     (if fld = ''created_at'' then (False, p_created_at p, [])
      else if fld = ''confirmed_at''
      then (case p_confirmed_at p of None \<Rightarrow> (True, 0, []) | Some t \<Rightarrow> (False, t, []))
      else if fld = ''amount'' then (False, p_amount p, [])
      else (False, 0, p_status p))"

definition order_tx :: "str \<times> str \<Rightarrow> payment_row list \<Rightarrow> payment_row list" where
  "order_tx od ps =
     (let by_id = sort_key p_id ps in
      if snd od = ''asc'' then sort_key (tx_sort_value (fst od)) by_id else sort_desc (tx_sort_value (fst od)) by_id)"

definition tx_search :: "int \<Rightarrow> tx_request \<Rightarrow> database \<Rightarrow> exn + payment_row list" where
  "tx_search tz q db =
     bind_ok (validate_request q) (\<lambda>f. Inr (take (nat (tf_limit f)) (order_tx (tf_order f) (filter (matches_tx tz f) (payments db)))))"

text \<open>
  The handler.  FastAPI has already turned the query string into the typed parameters and checked their bounds
  (422 otherwise), and the caller's role is checked by the dependency.
\<close>

definition query_bounds_ok :: "tx_request \<Rightarrow> bool" where
  "query_bounds_ok q \<longleftrightarrow>
     (let str_ok = (\<lambda>n v. case v of PNone \<Rightarrow> True | PStr s \<Rightarrow> length s \<le> n | _ \<Rightarrow> False);
          amt_ok = (\<lambda>v. case v of PNone \<Rightarrow> True | PInt i \<Rightarrow> 0 \<le> i | _ \<Rightarrow> False) in
      str_ok 64 (tq_transaction_hash q) \<and> str_ok 56 (tq_account q) \<and> str_ok 12 (tq_asset_code q) \<and>
      str_ok 16 (tq_status q) \<and> str_ok 32 (tq_type q) \<and> str_ok 64 (tq_outage_id q) \<and>
      amt_ok (tq_min_amount q) \<and> amt_ok (tq_max_amount q) \<and>
      tq_created_after q \<noteq> NotATime \<and> tq_created_before q \<noteq> NotATime \<and>
      str_ok 32 (tq_sort_by q) \<and> tq_sort_by q \<noteq> PNone \<and> str_ok 4 (tq_sort_dir q) \<and> tq_sort_dir q \<noteq> PNone \<and>
      (case tq_limit q of PInt i \<Rightarrow> MIN_LIMIT \<le> i \<and> i \<le> MAX_LIMIT | _ \<Rightarrow> False))"

definition list_indexed_transactions :: "int \<Rightarrow> auth_user \<Rightarrow> tx_request \<Rightarrow> database \<Rightarrow> exn + payment_row list" where
  "list_indexed_transactions tz u q db =
     bind_ok (require_role Engineer u) (\<lambda>_.
       if \<not> query_bounds_ok q then Inl (HTTPError 422)
       else case tx_search tz q db of Inl TxIndexerQueryError \<Rightarrow> Inl (HTTPError 422) | r \<Rightarrow> r)"

section \<open>The input sanitizers\<close>

text \<open>\<open>unicodedata.category(c).startswith("C")\<close> below 256: the control characters and the soft hyphen.\<close>

definition category_C :: "char \<Rightarrow> bool" where
  "category_C c \<longleftrightarrow> (let n = (of_char c :: nat) in n < 32 \<or> 127 \<le> n \<and> n \<le> 159 \<or> n = 173)"

definition hash_pattern :: "str \<Rightarrow> bool" where
  "hash_pattern s \<longleftrightarrow> length s = 64 \<and> list_all (\<lambda>c. hex_value c \<noteq> None) s"

definition account_pattern :: "str \<Rightarrow> bool" where
  "account_pattern s \<longleftrightarrow> 1 \<le> length s \<and> length s \<le> 69 \<and>
     list_all (\<lambda>c. is_letter c \<or> is_digit c \<or> c = CHR ''*'' \<or> c = CHR ''_'' \<or> c = CHR '':'') s"

definition asset_pattern :: "str \<Rightarrow> bool" where
  "asset_pattern s \<longleftrightarrow> 1 \<le> length s \<and> length s \<le> 12 \<and> list_all (\<lambda>c. is_letter c \<or> is_digit c) s"

text \<open>
  \<open>_sanitize\<close>.  The patterns end in a dollar sign, which could match before a final line break; the candidate has been
  stripped and has none, so the whole candidate is matched.
\<close>

definition sanitize :: "str \<Rightarrow> (str \<Rightarrow> bool) \<Rightarrow> nat \<Rightarrow> (str \<Rightarrow> str) \<Rightarrow> str option \<Rightarrow> exn + str option" where
  "sanitize fld pat max_length normal v =
     (case v of
        None \<Rightarrow> Inr None
      | Some raw \<Rightarrow>
          (let candidate = py_strip raw in
           if candidate = [] then Inl (TxIndexerValidationError fld)
           else if list_ex category_C candidate then Inl (TxIndexerValidationError fld)
           else if length (normal candidate) > max_length then Inl (TxIndexerValidationError fld)
           else if \<not> pat (normal candidate) then Inl (TxIndexerValidationError fld)
           else Inr (Some (normal candidate))))"

definition sanitize_transaction_hash :: "str option \<Rightarrow> exn + str option" where
  "sanitize_transaction_hash = sanitize ''transaction_hash'' hash_pattern 64 py_lower"

definition sanitize_account :: "str option \<Rightarrow> exn + str option" where
  "sanitize_account = sanitize ''account'' account_pattern 69 (\<lambda>s. s)"

definition sanitize_asset_code :: "str option \<Rightarrow> exn + str option" where
  "sanitize_asset_code = sanitize ''asset_code'' asset_pattern 12 py_upper"

definition sanitize_status :: "str option \<Rightarrow> exn + str option" where
  "sanitize_status = sanitize ''status'' transaction_type_pattern 32 py_lower"

definition sanitize_operation_type :: "str option \<Rightarrow> exn + str option" where
  "sanitize_operation_type = sanitize ''type'' transaction_type_pattern 32 py_lower"

fun sanitize_bound :: "datetime option \<Rightarrow> datetime option" where
  "sanitize_bound None = None"
| "sanitize_bound (Some (Naive t)) = Some (Aware t)"
| "sanitize_bound (Some (Aware t)) = Some (Aware t)"

record tx_index_filters =
  xf_transaction_hash :: "str option"
  xf_account :: "str option"
  xf_asset_code :: "str option"
  xf_status :: "str option"
  xf_transaction_type :: "str option"
  xf_created_after :: "datetime option"
  xf_created_before :: "datetime option"

definition from_query :: "tx_index_filters \<Rightarrow> exn + tx_index_filters" where
  "from_query q =
     bind_ok (sanitize_transaction_hash (xf_transaction_hash q)) (\<lambda>h.
     bind_ok (sanitize_account (xf_account q)) (\<lambda>a.
     bind_ok (sanitize_asset_code (xf_asset_code q)) (\<lambda>c.
     bind_ok (sanitize_status (xf_status q)) (\<lambda>s.
     bind_ok (sanitize_operation_type (xf_transaction_type q)) (\<lambda>t.
       Inr \<lparr>xf_transaction_hash = h, xf_account = a, xf_asset_code = c, xf_status = s, xf_transaction_type = t,
            xf_created_after = sanitize_bound (xf_created_after q), xf_created_before = sanitize_bound (xf_created_before q)\<rparr>)))))"

section \<open>Facts\<close>

lemma bind_ok_Inr: "bind_ok r k = Inr y \<longleftrightarrow> (\<exists>x. r = Inr x \<and> k x = Inr y)"
  by (cases r) (auto simp: bind_ok_def)

lemma bind_ok_simps [simp]: "bind_ok (Inl e) k = Inl e" "bind_ok (Inr x) k = k x"
  by (simp_all add: bind_ok_def)

subsection \<open>Escaping\<close>

definition escape_like_char :: "char \<Rightarrow> str" where
  "escape_like_char c = (if c = CHR ''%'' \<or> c = CHR ''_'' \<or> c = CHR 0x5C then [CHR 0x5C, c] else [c])"

lemma escape_like_chars: "escape_like v = concat (map escape_like_char v)"
  by (induction v) (auto simp: escape_like_def replace_char_def escape_like_char_def)

lemma ilike_escaped:
  "ilike (escape_like v @ p) s \<longleftrightarrow>
     length v \<le> length s \<and> py_lower (take (length v) s) = py_lower v \<and> ilike p (drop (length v) s)"
proof (induction v arbitrary: s)
  case Nil
  show ?case by (simp add: escape_like_chars py_lower_def)
next
  case (Cons c v)
  have step: "escape_like (c # v) @ p = escape_like_char c @ (escape_like v @ p)" by (simp add: escape_like_chars)
  show ?case
  proof (cases s)
    case Nil
    then show ?thesis unfolding step by (simp add: escape_like_char_def ilike.simps(2))
  next
    case (Cons x xs)
    have "ilike (escape_like_char c @ (escape_like v @ p)) s \<longleftrightarrow> lower_char c = lower_char x \<and> ilike (escape_like v @ p) xs"
      using Cons by (simp add: escape_like_char_def ilike.simps(2))
    with Cons.IH [of xs] Cons show ?thesis unfolding step by (auto simp: py_lower_def)
  qed
qed

text \<open>
  Escaped user text is matched literally: alone it matches the strings that equal it up to case, and followed by a
  percent sign the strings it is a prefix of.
\<close>

theorem escaped_text_is_literal:
  "(ilike (escape_like v) s \<longleftrightarrow> py_lower s = py_lower v) \<and>
   (ilike (escape_like v @ ''%'') s \<longleftrightarrow> starts_with (py_lower v) (py_lower s))"
proof
  have "ilike (escape_like v) s \<longleftrightarrow> length v \<le> length s \<and> py_lower (take (length v) s) = py_lower v \<and> drop (length v) s = []"
    using ilike_escaped [of v "[]" s] by simp
  also have "\<dots> \<longleftrightarrow> py_lower s = py_lower v"
  proof
    assume "py_lower s = py_lower v"
    then have "length s = length v" by (auto simp: py_lower_def dest: map_eq_imp_length_eq)
    with \<open>py_lower s = py_lower v\<close>
    show "length v \<le> length s \<and> py_lower (take (length v) s) = py_lower v \<and> drop (length v) s = []" by simp
  qed (metis append_Nil2 append_take_drop_id)
  finally show "ilike (escape_like v) s \<longleftrightarrow> py_lower s = py_lower v" .
  have any: "ilike ''%'' t" for t by (induction t) (simp_all add: ilike.simps(2))
  have lower: "starts_with (py_lower v) (py_lower s) \<longleftrightarrow> py_lower (take (length v) s) = py_lower v"
    by (simp add: starts_with_def py_lower_def take_map)
  have "length v \<le> length s" if "py_lower (take (length v) s) = py_lower v"
    using arg_cong [OF that, of length] by (simp add: py_lower_def)
  then show "ilike (escape_like v @ ''%'') s \<longleftrightarrow> starts_with (py_lower v) (py_lower s)"
    unfolding lower ilike_escaped [of v "''%''" s] using any by blast
qed

subsection \<open>Order\<close>

lemma sorted_wrt_stable:
  assumes "sorted_wrt (\<lambda>a b. R (f a) (f b) \<or> f a = f b) ys" "\<And>k. sorted (map g (filter (\<lambda>x. f x = k) ys))"
  shows "sorted_wrt (\<lambda>a b. R (f a) (f b) \<or> f a = f b \<and> g a \<le> g b) ys"
  using assms
proof (induction ys)
  case (Cons y ys)
  have "sorted (map g (filter (\<lambda>x. f x = k) ys))" for k using Cons.prems(2) [of k] by (simp split: if_splits)
  moreover have "R (f y) (f z) \<or> f y = f z \<and> g y \<le> g z" if "z \<in> set ys" for z
    using Cons.prems(1) Cons.prems(2) [of "f y"] that by force
  ultimately show ?case using Cons by simp
qed simp

definition tx_before :: "str \<times> str \<Rightarrow> payment_row \<Rightarrow> payment_row \<Rightarrow> bool" where
  "tx_before od a b \<longleftrightarrow>
     (let v = tx_sort_value (fst od) in
      (if snd od = ''asc'' then v a < v b else v b < v a) \<or> v a = v b \<and> p_id a \<le> p_id b)"

lemma order_tx_sorted: "sorted_wrt (tx_before od) (order_tx od ps)"
proof -
  let ?v = "tx_sort_value (fst od)" and ?by = "sort_key p_id ps"
  have ids: "sorted (map p_id (filter P ?by))" for P by (simp add: sorted_filter)
  show ?thesis
  proof (cases "snd od = ''asc''")
    case True
    have "sorted (map ?v (sort_key ?v ?by))" by simp
    then have "sorted_wrt (\<lambda>a b. ?v a < ?v b \<or> ?v a = ?v b) (sort_key ?v ?by)"
      by (simp only: sorted_map order_le_less)
    then have "sorted_wrt (\<lambda>a b. ?v a < ?v b \<or> ?v a = ?v b \<and> p_id a \<le> p_id b) (sort_key ?v ?by)"
      by (rule sorted_wrt_stable [where R = "(<)"]) (simp add: sort_key_stable ids)
    with True show ?thesis by (simp add: order_tx_def tx_before_def [abs_def] Let_def)
  next
    case False
    have stable: "filter (\<lambda>x. ?v x = k) (sort_desc ?v ?by) = filter (\<lambda>x. ?v x = k) ?by" for k
      unfolding sort_desc_def rev_filter [symmetric] sort_key_stable by (simp add: rev_filter)
    have "sorted_wrt (\<lambda>a b. ?v b \<le> ?v a) (sort_desc ?v ?by)"
      using sorted_sort_desc [of ?v ?by] unfolding sorted_map sorted_wrt_rev .
    then have "sorted_wrt (\<lambda>a b. ?v b < ?v a \<or> ?v a = ?v b) (sort_desc ?v ?by)"
      by (rule sorted_wrt_mono_rel [rotated]) auto
    then have "sorted_wrt (\<lambda>a b. ?v b < ?v a \<or> ?v a = ?v b \<and> p_id a \<le> p_id b) (sort_desc ?v ?by)"
      by (rule sorted_wrt_stable [where R = "(>)"]) (simp add: stable ids)
    with False show ?thesis by (simp add: order_tx_def tx_before_def [abs_def] Let_def)
  qed
qed

lemma mset_order_tx: "mset (order_tx od ps) = mset ps"
  by (simp add: order_tx_def Let_def sort_desc_def)


subsection \<open>Canonical filters\<close>

lemma py_strip_ends: "py_strip s \<noteq> [] \<Longrightarrow> \<not> is_blank (hd (py_strip s)) \<and> \<not> is_blank (last (py_strip s))"
proof -
  let ?t = "dropWhile is_blank s"
  assume ne: "py_strip s \<noteq> []"
  then have r: "dropWhile is_blank (rev ?t) \<noteq> []" by (simp add: py_strip_def)
  then have "\<not> is_blank (hd (dropWhile is_blank (rev ?t)))" by (rule hd_dropWhile)
  moreover have "\<not> is_blank (hd (py_strip s))"
  proof -
    obtain ws where "rev ?t = ws @ dropWhile is_blank (rev ?t)" by (metis takeWhile_dropWhile_id)
    then have t: "?t = py_strip s @ rev ws" by (metis py_strip_def rev_append rev_rev_ident)
    with ne have "hd ?t = hd (py_strip s)" by simp
    moreover have "?t \<noteq> []" using t ne by auto
    ultimately show ?thesis using hd_dropWhile by metis
  qed
  ultimately show ?thesis by (simp add: py_strip_def last_rev)
qed

lemma py_strip_fixed: "s \<noteq> [] \<Longrightarrow> \<not> is_blank (hd s) \<Longrightarrow> \<not> is_blank (last s) \<Longrightarrow> py_strip s = s"
proof -
  assume "s \<noteq> []" "\<not> is_blank (hd s)" "\<not> is_blank (last s)"
  then have "dropWhile is_blank s = s" "dropWhile is_blank (rev s) = rev s"
    by (simp_all add: dropWhile_eq_self_iff hd_rev)
  then show ?thesis by (simp add: py_strip_def)
qed

lemma text_value_fixed:
  "s \<noteq> [] \<Longrightarrow> list_all (\<lambda>c. \<not> is_blank c) s \<Longrightarrow> length s \<le> n \<Longrightarrow> text_value n (PStr s) = Inr s"
  by (simp add: py_strip_fixed list_all_iff Let_def)

lemma checked_Inr:
  assumes "checked n f pat raw = Inr r"
  shows "r = None \<and> raw = PNone \<or> (\<exists>s. r = Some s \<and> pat s)"
  using assms by (auto simp: checked_def split: sum.splits if_splits)

definition opt_text :: "str option \<Rightarrow> pyval" where
  "opt_text v = (case v of None \<Rightarrow> PNone | Some s \<Rightarrow> PStr s)"

lemma checked_again:
  assumes "checked n f pat raw = Inr r"
    and "\<And>s. pat s \<Longrightarrow> s \<noteq> [] \<and> list_all (\<lambda>c. \<not> is_blank c) s \<and> length s \<le> n \<and> f s = s"
  shows "checked n f pat (opt_text r) = Inr r"
  using checked_Inr [OF assms(1)] assms(2)
  by (auto simp: checked_def opt_text_def text_value_fixed simp del: text_value.simps)

lemma lower_char_fixed: "\<not> upper_letter c \<Longrightarrow> lower_char c = c"
  by (auto simp: upper_letter_def lower_char_def Let_def)

lemma upper_char_fixed: "\<not> lower_letter c \<Longrightarrow> upper_char c = c"
  by (auto simp: lower_letter_def upper_char_def Let_def)

lemma outage_char_facts: "is_letter c \<or> is_digit c \<or> c = CHR ''_'' \<or> c = CHR ''-'' \<Longrightarrow> \<not> is_blank c"
  by (elim disjE) (auto simp: is_blank_def is_digit_def is_letter_def Let_def)

lemma py_lower_id: "list_all (\<lambda>c. \<not> upper_letter c) s \<Longrightarrow> py_lower s = s"
  by (auto simp: py_lower_def list_all_iff lower_char_fixed intro: map_idI)

lemma py_upper_id: "list_all (\<lambda>c. \<not> lower_letter c \<and> c \<noteq> CHR 0xDF) s \<Longrightarrow> py_upper s = s"
proof -
  assume s: "list_all (\<lambda>c. \<not> lower_letter c \<and> c \<noteq> CHR 0xDF) s"
  then have "CHR 0xDF \<notin> set s" by (auto simp: list_all_iff)
  moreover have "map upper_char s = s" using s upper_char_fixed unfolding list_all_iff by (blast intro: map_idI)
  ultimately show ?thesis by (simp add: py_upper_plain)
qed

lemma hex_lower_facts: "hex_lower c \<Longrightarrow> \<not> is_blank c \<and> \<not> upper_letter c"
  by (auto simp: hex_lower_def is_digit_def is_blank_def upper_letter_def Let_def)

lemma asset_char_facts: "upper_letter c \<or> is_digit c \<Longrightarrow> \<not> is_blank c \<and> \<not> lower_letter c \<and> c \<noteq> CHR 0xDF"
  by (auto simp: is_digit_def is_blank_def upper_letter_def lower_letter_def Let_def)

lemma token_char_facts: "token_tail c \<Longrightarrow> \<not> is_blank c \<and> \<not> upper_letter c"
  by (auto simp: token_tail_def is_digit_def is_blank_def upper_letter_def lower_letter_def Let_def)

lemma token_all: "transaction_type_pattern s \<Longrightarrow> s \<noteq> [] \<and> length s \<le> 32 \<and> list_all token_tail s"
  by (cases s) (auto simp: transaction_type_pattern_def token_tail_def)

lemma hash_again: "transaction_hash_pattern s \<Longrightarrow> s \<noteq> [] \<and> list_all (\<lambda>c. \<not> is_blank c) s \<and> length s \<le> 64 \<and> py_lower s = s"
  by (auto simp: transaction_hash_pattern_def list_all_iff hex_lower_facts intro!: py_lower_id)

lemma asset_again: "asset_code_pattern s \<Longrightarrow> s \<noteq> [] \<and> list_all (\<lambda>c. \<not> is_blank c) s \<and> length s \<le> 12 \<and> py_upper s = s"
  unfolding asset_code_pattern_def list_all_iff using asset_char_facts py_upper_id [unfolded list_all_iff] by fastforce

lemma type_again: "transaction_type_pattern s \<Longrightarrow> s \<noteq> [] \<and> list_all (\<lambda>c. \<not> is_blank c) s \<and> length s \<le> 32 \<and> py_lower s = s"
  using token_all [of s] by (auto simp: list_all_iff token_char_facts intro!: py_lower_id)

lemma status_again:
  "s \<in> set VALID_STATUSES \<Longrightarrow> s \<noteq> [] \<and> list_all (\<lambda>c. \<not> is_blank c) s \<and> length s \<le> 16 \<and> py_lower s = s"
  by (auto simp: VALID_STATUSES_def is_blank_def py_lower_def lower_char_def)

lemma outage_again: "outage_id_pattern s \<Longrightarrow> s \<noteq> [] \<and> list_all (\<lambda>c. \<not> is_blank c) s \<and> length s \<le> 64 \<and> (\<lambda>s. s) s = s"
  unfolding outage_id_pattern_def list_all_iff using outage_char_facts by fastforce

lemma normalized_address:
  assumes "normalize_address t = Inr a"
  shows "length a = 56" "hd a = CHR ''G''" "list_all key_char a" "normalize_address a = Inr a"
proof -
  from assms have len: "length a = 56" and re: "stellar_public_key_re a"
    by (auto simp: normalize_address_def Let_def split: if_splits)
  show "length a = 56" by (rule len)
  from re len have parts: "hd a = CHR ''G''" "list_all key_char (tl a)"
    by (auto simp: stellar_public_key_re_def Let_def split: if_splits)
  then show g: "hd a = CHR ''G''" by simp
  have "key_char CHR ''G''" by (simp add: key_char_def)
  with parts len show k: "list_all key_char a" by (cases a) auto
  from len g k show "normalize_address a = Inr a" by (rule normalize_key)
qed

lemma account_again:
  assumes "validate_account raw = Inr r"
  shows "validate_account (opt_text r) = Inr r \<and> (\<forall>a. r = Some a \<longrightarrow> length a = 56 \<and> hd a = CHR ''G'' \<and> list_all key_char a)"
proof (cases r)
  case None
  then show ?thesis by (simp add: validate_account_def opt_text_def)
next
  case (Some a)
  with assms obtain t where "normalize_address t = Inr a" by (auto simp: validate_account_def split: sum.splits if_splits)
  note n = normalized_address [OF this]
  from n(1) have ne: "a \<noteq> []" by auto
  have "\<not> is_blank c" if "c \<in> set a" for c using n(3) that key_char_plain by (auto simp: list_all_iff)
  then have "text_value 56 (PStr a) = Inr a" using n(1) ne by (intro text_value_fixed) (auto simp: list_all_iff)
  with n Some show ?thesis by (simp add: validate_account_def opt_text_def del: text_value.simps)
qed

definition opt_int :: "int option \<Rightarrow> pyval" where
  "opt_int v = (case v of None \<Rightarrow> PNone | Some i \<Rightarrow> PInt i)"

definition opt_time :: "datetime option \<Rightarrow> time_arg" where
  "opt_time v = (case v of None \<Rightarrow> NoTime | Some w \<Rightarrow> TimeArg w)"

lemma amount_again:
  "validate_amount raw = Inr r \<Longrightarrow> validate_amount (opt_int r) = Inr r \<and> (\<forall>i. r = Some i \<longrightarrow> BIGINT_MIN \<le> i \<and> i \<le> BIGINT_MAX)"
  by (cases raw) (auto simp: opt_int_def bounded_amount_def split: if_splits sum.splits)

lemma amount_range_again:
  assumes "validate_amount_range lo hi = Inr r"
  shows "validate_amount_range (opt_int (fst r)) (opt_int (snd r)) = Inr r"
proof -
  from assms obtain a b where "validate_amount lo = Inr a" "validate_amount hi = Inr b" "r = (a, b)"
    by (auto simp: validate_amount_range_def split: sum.splits option.splits if_splits)
  with assms amount_again [of lo a] amount_again [of hi b] show ?thesis by (simp add: validate_amount_range_def)
qed

lemma timestamp_range_again:
  assumes "validate_timestamp_range lo hi = Inr r"
  shows "validate_timestamp_range (opt_time (fst r)) (opt_time (snd r)) = Inr r"
proof -
  have again: "validate_timestamp x = Inr v \<Longrightarrow> validate_timestamp (opt_time v) = Inr v" for x v
    by (cases x) (auto simp: opt_time_def)
  from assms obtain a b where "validate_timestamp lo = Inr a" "validate_timestamp hi = Inr b" "r = (a, b)"
    by (auto simp: validate_timestamp_range_def split: sum.splits option.splits if_splits)
  with assms again [of lo a] again [of hi b] show ?thesis by (simp add: validate_timestamp_range_def)
qed

lemma sort_again:
  assumes "validate_sort x y = Inr (fld, dir)"
  shows "fld \<in> set VALID_SORT_FIELDS" "dir \<in> set VALID_SORT_DIRECTIONS" "validate_sort (PStr fld) (PStr dir) = Inr (fld, dir)"
proof -
  from assms show f: "fld \<in> set VALID_SORT_FIELDS" and d: "dir \<in> set VALID_SORT_DIRECTIONS"
    by (auto simp: validate_sort_def split: sum.splits if_splits)
  have "py_strip fld = fld" "fld \<noteq> []" "length fld \<le> 32" "py_lower fld = fld"
    using f by (auto simp: VALID_SORT_FIELDS_def py_strip_def is_blank_def py_lower_def lower_char_def)
  moreover have "py_strip dir = dir" "dir \<noteq> []" "length dir \<le> 4" "py_lower dir = dir"
    using d by (auto simp: VALID_SORT_DIRECTIONS_def py_strip_def is_blank_def py_lower_def lower_char_def)
  ultimately show "validate_sort (PStr fld) (PStr dir) = Inr (fld, dir)"
    using f d by (simp add: validate_sort_def Let_def)
qed

lemma limit_again: "validate_limit x = Inr n \<Longrightarrow> MIN_LIMIT \<le> n \<and> n \<le> MAX_LIMIT \<and> validate_limit (PInt n) = Inr n"
  by (cases x) (auto simp: DEFAULT_LIMIT_def MAX_LIMIT_def MIN_LIMIT_def split: if_splits)

text \<open>The request that spells a validated filter out.\<close>

definition request_of :: "tx_filter \<Rightarrow> tx_request" where
  "request_of f =
     \<lparr>tq_transaction_hash = opt_text (tf_hash f), tq_account = opt_text (tf_account f), tq_asset_code = opt_text (tf_asset f),
      tq_status = opt_text (tf_status f), tq_type = opt_text (tf_type f), tq_outage_id = opt_text (tf_outage f),
      tq_min_amount = opt_int (fst (tf_amounts f)), tq_max_amount = opt_int (snd (tf_amounts f)),
      tq_created_after = opt_time (fst (tf_created f)), tq_created_before = opt_time (snd (tf_created f)),
      tq_sort_by = PStr (fst (tf_order f)), tq_sort_dir = PStr (snd (tf_order f)), tq_limit = PInt (tf_limit f)\<rparr>"

text \<open>A request that passes validation is reduced to canonical values: every text is in the alphabet of its field, the
  amounts fit the column, the sort key and direction come from the whitelists, the limit lies between 1 and 200, and
  validating the canonical request again changes nothing.
\<close>

theorem accepted_filters_are_canonical:
  assumes "validate_request q = Inr f"
  shows "(\<forall>h. tf_hash f = Some h \<longrightarrow> transaction_hash_pattern h) \<and>
         (\<forall>a. tf_account f = Some a \<longrightarrow> length a = 56 \<and> hd a = CHR ''G'' \<and> list_all key_char a) \<and>
         (\<forall>c. tf_asset f = Some c \<longrightarrow> asset_code_pattern c) \<and>
         (\<forall>s. tf_status f = Some s \<longrightarrow> s \<in> set VALID_STATUSES) \<and>
         (\<forall>t. tf_type f = Some t \<longrightarrow> transaction_type_pattern t) \<and>
         (\<forall>k. tf_outage f = Some k \<longrightarrow> outage_id_pattern k) \<and>
         fst (tf_order f) \<in> set VALID_SORT_FIELDS \<and> snd (tf_order f) \<in> set VALID_SORT_DIRECTIONS \<and>
         1 \<le> tf_limit f \<and> tf_limit f \<le> 200 \<and>
         validate_request (request_of f) = Inr f"
proof -
  from assms have v: "validate_transaction_hash (tq_transaction_hash q) = Inr (tf_hash f)"
      "validate_account (tq_account q) = Inr (tf_account f)" "validate_asset_code (tq_asset_code q) = Inr (tf_asset f)"
      "validate_status (tq_status q) = Inr (tf_status f)" "validate_transaction_type (tq_type q) = Inr (tf_type f)"
      "validate_outage_id (tq_outage_id q) = Inr (tf_outage f)"
      "validate_amount_range (tq_min_amount q) (tq_max_amount q) = Inr (tf_amounts f)"
      "validate_timestamp_range (tq_created_after q) (tq_created_before q) = Inr (tf_created f)"
      "validate_sort (tq_sort_by q) (tq_sort_dir q) = Inr (fst (tf_order f), snd (tf_order f))"
      "validate_limit (tq_limit q) = Inr (tf_limit f)"
    by (auto simp: validate_request_def bind_ok_Inr)
  note d = validate_transaction_hash_def validate_asset_code_def validate_status_def validate_transaction_type_def validate_outage_id_def
  have "validate_request (request_of f) = Inr f"
    using checked_again [OF v(1) [unfolded d] hash_again] account_again [OF v(2)] checked_again [OF v(3) [unfolded d] asset_again]
      checked_again [OF v(4) [unfolded d] status_again] checked_again [OF v(5) [unfolded d] type_again]
      checked_again [OF v(6) [unfolded d] outage_again] amount_range_again [OF v(7)] timestamp_range_again [OF v(8)]
      sort_again(3) [OF v(9)] limit_again [OF v(10)]
    by (simp add: validate_request_def request_of_def d)
  moreover have "1 \<le> tf_limit f" "tf_limit f \<le> 200" using limit_again [OF v(10)] by (simp_all add: MIN_LIMIT_def MAX_LIMIT_def)
  ultimately show ?thesis
    using checked_Inr [OF v(1) [unfolded d]] account_again [OF v(2)] checked_Inr [OF v(3) [unfolded d]] checked_Inr [OF v(4) [unfolded d]]
      checked_Inr [OF v(5) [unfolded d]] checked_Inr [OF v(6) [unfolded d]] sort_again(1,2) [OF v(9)]
    by (intro conjI) auto
qed

subsection \<open>The two sets of filters\<close>

lemma category_C_facts:
  "category_C c \<Longrightarrow> lower_char c = c \<and> upper_char c = c \<and> c \<noteq> CHR 0xDF \<and> \<not> is_digit c \<and> \<not> is_letter c"
  by (auto simp: category_C_def lower_char_def upper_char_def is_digit_def is_letter_def Let_def)

lemma letter_split: "is_letter c \<longleftrightarrow> lower_letter c \<or> upper_letter c"
  by (auto simp: is_letter_def lower_letter_def upper_letter_def Let_def)

lemma py_lower_not_upper: "c \<in> set (py_lower s) \<Longrightarrow> \<not> upper_letter c"
  by (auto simp: py_lower_def lower_char_def upper_letter_def Let_def)

lemma upper_char_not_lower: "\<not> lower_letter (upper_char c)"
  by (auto simp: upper_char_def lower_letter_def Let_def)

lemma py_upper_not_lower: "c \<in> set (py_upper s) \<Longrightarrow> \<not> lower_letter c"
  using upper_char_not_lower by (auto simp: py_upper_def lower_letter_def split: if_splits)

lemma length_py_upper: "length s \<le> length (py_upper s)"
  by (induction s) (auto simp: py_upper_def)

lemma no_control_lower: "list_all (\<lambda>c. is_letter c \<or> is_digit c \<or> c = CHR ''_'') (py_lower s) \<Longrightarrow> \<not> list_ex category_C s"
proof
  assume all: "list_all (\<lambda>c. is_letter c \<or> is_digit c \<or> c = CHR ''_'') (py_lower s)" and "list_ex category_C s"
  then obtain c where c: "c \<in> set s" "category_C c" by (auto simp: list_ex_iff)
  then have "c \<in> set (py_lower s)" using category_C_facts [of c] by (metis image_eqI list.set_map py_lower_def)
  with all c(2) category_C_facts [of c] have "c = CHR ''_''" by (auto simp: list_all_iff)
  with c(2) show False by (simp add: category_C_def)
qed

lemma no_control_upper: "list_all (\<lambda>c. is_letter c \<or> is_digit c) (py_upper s) \<Longrightarrow> \<not> list_ex category_C s"
proof
  assume all: "list_all (\<lambda>c. is_letter c \<or> is_digit c) (py_upper s)" and "list_ex category_C s"
  then obtain c where c: "c \<in> set s" "category_C c" by (auto simp: list_ex_iff)
  then have "c \<in> set (py_upper s)" using category_C_facts [of c] by (auto simp: py_upper_def intro!: bexI [of _ c])
  with all c(2) category_C_facts [of c] show False by (auto simp: list_all_iff)
qed

lemma hash_patterns_agree: "hash_pattern (py_lower s) \<longleftrightarrow> transaction_hash_pattern (py_lower s)"
proof -
  have "hex_value c \<noteq> None \<longleftrightarrow> hex_lower c" if "\<not> upper_letter c" for c
    using that by (auto simp: hex_value_def hex_lower_def is_digit_def upper_letter_def Let_def)
  then show ?thesis
    using py_lower_not_upper [of _ s] by (auto simp: hash_pattern_def transaction_hash_pattern_def list_all_iff)
qed

lemma asset_patterns_agree: "asset_pattern (py_upper s) \<longleftrightarrow> asset_code_pattern (py_upper s)"
  using py_upper_not_lower [of _ s] by (auto simp: asset_pattern_def asset_code_pattern_def list_all_iff letter_split)

lemma sanitize_checked:
  assumes "\<And>s. pat' (f s) \<longleftrightarrow> pat (f s)" "\<And>s. pat (f s) \<Longrightarrow> \<not> list_ex category_C s \<and> length s \<le> n \<and> length (f s) \<le> n"
  shows "sanitize fld pat' n f (Some s) = Inr r \<longleftrightarrow> checked n f pat (PStr s) = Inr r"
proof (cases "pat (f (py_strip s))")
  case True
  with assms(1) assms(2) [OF True] show ?thesis by (auto simp: sanitize_def checked_def Let_def)
next
  case False
  with assms(1) show ?thesis by (auto simp: sanitize_def checked_def Let_def)
qed

text \<open>
  For transaction hashes, asset codes and operation types the sanitizers of \<^verbatim>\<open>tx_indexer_input.py\<close> and the validators of
  \<^verbatim>\<open>tx_indexer_query.py\<close> accept the same strings and return the same value.
\<close>

theorem both_sanitizers_agree:
  "(sanitize_transaction_hash (Some s) = Inr r \<longleftrightarrow> validate_transaction_hash (PStr s) = Inr r) \<and>
   (sanitize_asset_code (Some s) = Inr r \<longleftrightarrow> validate_asset_code (PStr s) = Inr r) \<and>
   (sanitize_operation_type (Some s) = Inr r \<longleftrightarrow> validate_transaction_type (PStr s) = Inr r)"
proof (intro conjI)
  show "sanitize_transaction_hash (Some s) = Inr r \<longleftrightarrow> validate_transaction_hash (PStr s) = Inr r"
    unfolding sanitize_transaction_hash_def validate_transaction_hash_def
  proof (rule sanitize_checked)
    show "\<not> list_ex category_C t \<and> length t \<le> 64 \<and> length (py_lower t) \<le> 64" if "transaction_hash_pattern (py_lower t)" for t
    proof -
      have "list_all (\<lambda>c. is_letter c \<or> is_digit c \<or> c = CHR ''_'') (py_lower t)"
        using that by (auto simp: transaction_hash_pattern_def list_all_iff hex_lower_def is_letter_def Let_def)
      with that no_control_lower show ?thesis by (auto simp: transaction_hash_pattern_def py_lower_def)
    qed
  qed (rule hash_patterns_agree)
  show "sanitize_asset_code (Some s) = Inr r \<longleftrightarrow> validate_asset_code (PStr s) = Inr r"
    unfolding sanitize_asset_code_def validate_asset_code_def
  proof (rule sanitize_checked)
    show "\<not> list_ex category_C t \<and> length t \<le> 12 \<and> length (py_upper t) \<le> 12" if "asset_code_pattern (py_upper t)" for t
      using that no_control_upper [of t] length_py_upper [of t] asset_patterns_agree [of t] by (auto simp: asset_pattern_def)
  qed (rule asset_patterns_agree)
  show "sanitize_operation_type (Some s) = Inr r \<longleftrightarrow> validate_transaction_type (PStr s) = Inr r"
    unfolding sanitize_operation_type_def validate_transaction_type_def
  proof (rule sanitize_checked)
    show "\<not> list_ex category_C t \<and> length t \<le> 32 \<and> length (py_lower t) \<le> 32" if "transaction_type_pattern (py_lower t)" for t
    proof -
      have "list_all (\<lambda>c. is_letter c \<or> is_digit c \<or> c = CHR ''_'') (py_lower t)"
        using token_all [OF that] by (auto simp: list_all_iff token_tail_def letter_split)
      with token_all [OF that] no_control_lower show ?thesis by (auto simp: py_lower_def)
    qed
  qed simp
qed

lemma sanitize_again:
  assumes "sanitize fld pat n f v = Inr r" "\<And>s. f (f s) = f s"
    "\<And>s. pat (f s) \<Longrightarrow> f s \<noteq> [] \<and> list_all (\<lambda>c. \<not> is_blank c \<and> \<not> category_C c) (f s)"
  shows "sanitize fld pat n f r = Inr r"
proof (cases v)
  case None
  with assms(1) show ?thesis by (auto simp: sanitize_def)
next
  case (Some raw)
  with assms(1) have r: "r = Some (f (py_strip raw))" "pat (f (py_strip raw))" "length (f (py_strip raw)) \<le> n"
    by (auto simp: sanitize_def Let_def split: if_splits)
  let ?t = "f (py_strip raw)"
  from assms(3) [OF r(2)] have "?t \<noteq> []" "py_strip ?t = ?t" "\<not> list_ex category_C ?t"
    by (auto simp: list_all_iff list_ex_iff intro!: py_strip_fixed)
  with r assms(2) show ?thesis by (simp add: sanitize_def Let_def)
qed

lemma py_lower_twice: "py_lower (py_lower s) = py_lower s"
  using py_lower_not_upper [of _ s] by (intro py_lower_id) (auto simp: list_all_iff)

lemma py_upper_twice: "py_upper (py_upper s) = py_upper s"
proof (rule py_upper_id)
  have "c \<noteq> CHR 0xDF" if "c = upper_char d" "d \<noteq> CHR 0xDF" for c d
  proof
    assume "c = CHR 0xDF"
    with that(1) have "of_char (upper_char d) = (of_char CHR 0xDF :: nat)" by (metis (no_types))
    then have "of_char d = (of_char CHR 0xDF :: nat)" by (auto simp: upper_char_def Let_def simp del: of_char_eq_iff split: if_splits)
    with that(2) show False unfolding of_char_eq_iff by simp
  qed
  with py_upper_not_lower [of _ s] show "list_all (\<lambda>c. \<not> lower_letter c \<and> c \<noteq> CHR 0xDF) (py_upper s)"
    by (auto simp: list_all_iff py_upper_def split: if_splits)
qed

definition plain_char :: "char \<Rightarrow> bool" where
  "plain_char c \<longleftrightarrow> \<not> is_blank c \<and> \<not> category_C c"

lemma plain_codes: "33 \<le> (of_char c :: nat) \<Longrightarrow> of_char c \<le> (126 :: nat) \<Longrightarrow> plain_char c"
  by (auto simp: plain_char_def is_blank_def category_C_def Let_def)

lemma plain_alnum: "is_letter c \<or> is_digit c \<or> c = CHR ''_'' \<or> c = CHR ''*'' \<or> c = CHR '':'' \<Longrightarrow> plain_char c"
  by (elim disjE; intro plain_codes) (auto simp: is_letter_def is_digit_def Let_def)

lemma token_plain: "transaction_type_pattern s \<Longrightarrow> s \<noteq> [] \<and> list_all plain_char s"
  using token_all [of s] plain_alnum by (auto simp: list_all_iff token_tail_def letter_split)

lemma hash_plain: "hash_pattern s \<Longrightarrow> s \<noteq> [] \<and> list_all plain_char s"
proof -
  have "hex_value c \<noteq> None \<Longrightarrow> plain_char c" for c
    by (rule plain_codes) (auto simp: hex_value_def Let_def split: if_splits)
  then show "hash_pattern s \<Longrightarrow> s \<noteq> [] \<and> list_all plain_char s" by (auto simp: hash_pattern_def list_all_iff)
qed

lemma account_plain: "account_pattern s \<Longrightarrow> s \<noteq> [] \<and> list_all plain_char s"
  unfolding account_pattern_def list_all_iff using plain_alnum by fastforce

lemma asset_plain: "asset_pattern s \<Longrightarrow> s \<noteq> [] \<and> list_all plain_char s"
  unfolding asset_pattern_def list_all_iff using plain_alnum by fastforce

lemma sanitize_bound_twice: "sanitize_bound (sanitize_bound w) = sanitize_bound w"
  by (cases w rule: sanitize_bound.cases) auto

text \<open>
  The filters that \<open>from_query\<close> accepts are fixed points of it: sanitising twice is sanitising once, for every field
  and for the time bounds.
\<close>

theorem sanitized_filters_are_fixed:
  assumes "from_query q = Inr f"
  shows "from_query f = Inr f"
proof -
  from assms have v: "sanitize_transaction_hash (xf_transaction_hash q) = Inr (xf_transaction_hash f)"
      "sanitize_account (xf_account q) = Inr (xf_account f)" "sanitize_asset_code (xf_asset_code q) = Inr (xf_asset_code f)"
      "sanitize_status (xf_status q) = Inr (xf_status f)"
      "sanitize_operation_type (xf_transaction_type q) = Inr (xf_transaction_type f)"
      "xf_created_after f = sanitize_bound (xf_created_after q)" "xf_created_before f = sanitize_bound (xf_created_before q)"
    by (auto simp: from_query_def bind_ok_Inr)
  note d = sanitize_transaction_hash_def sanitize_account_def sanitize_asset_code_def sanitize_status_def sanitize_operation_type_def
  have "sanitize_transaction_hash (xf_transaction_hash f) = Inr (xf_transaction_hash f)"
    using v(1) unfolding d by (rule sanitize_again) (use hash_plain in \<open>auto simp: py_lower_twice list_all_iff plain_char_def\<close>)
  moreover have "sanitize_account (xf_account f) = Inr (xf_account f)"
    using v(2) unfolding d by (rule sanitize_again) (use account_plain in \<open>auto simp: list_all_iff plain_char_def\<close>)
  moreover have "sanitize_asset_code (xf_asset_code f) = Inr (xf_asset_code f)"
    using v(3) unfolding d by (rule sanitize_again) (use asset_plain in \<open>auto simp: py_upper_twice list_all_iff plain_char_def\<close>)
  moreover have "sanitize_status (xf_status f) = Inr (xf_status f)"
    using v(4) unfolding d by (rule sanitize_again) (use token_plain in \<open>auto simp: py_lower_twice list_all_iff plain_char_def\<close>)
  moreover have "sanitize_operation_type (xf_transaction_type f) = Inr (xf_transaction_type f)"
    using v(5) unfolding d by (rule sanitize_again) (use token_plain in \<open>auto simp: py_lower_twice list_all_iff plain_char_def\<close>)
  ultimately show ?thesis using v(6,7) by (simp add: from_query_def sanitize_bound_twice)
qed

text \<open>
  A request with one time bound in a time zone and the other without is not answered with 422: the comparison of the
  two raises a \<open>TypeError\<close> that the handler does not catch, whatever the rest of a well-formed request says.
\<close>

theorem mixed_time_bounds_fail:
  assumes "au_role u = Engineer" "query_bounds_ok q" "validate_request q' = Inr f"
    "q = q'\<lparr>tq_created_after := TimeArg (Aware a), tq_created_before := TimeArg (Naive b)\<rparr>"
  shows "list_indexed_transactions tz u q db = Inl TypeError"
proof -
  from assms(3) obtain h ac c s t oid am where
      "validate_transaction_hash (tq_transaction_hash q') = Inr h" "validate_account (tq_account q') = Inr ac"
      "validate_asset_code (tq_asset_code q') = Inr c" "validate_status (tq_status q') = Inr s"
      "validate_transaction_type (tq_type q') = Inr t" "validate_outage_id (tq_outage_id q') = Inr oid"
      "validate_amount_range (tq_min_amount q') (tq_max_amount q') = Inr am"
    by (auto simp: validate_request_def bind_ok_Inr)
  then have "validate_request q = Inl TypeError"
    unfolding assms(4) validate_request_def by (simp add: validate_timestamp_range_def)
  with assms(1,2) show ?thesis by (simp add: list_indexed_transactions_def require_role_def tx_search_def)
qed

section \<open>Concrete runs\<close>

definition sample_request :: tx_request where
  "sample_request =
     \<lparr>tq_transaction_hash = PNone, tq_account = PNone, tq_asset_code = PStr '' usdc '', tq_status = PStr ''Confirmed'', tq_type = PNone,
      tq_outage_id = PNone, tq_min_amount = PInt 5, tq_max_amount = PStr ''1_000'', tq_created_after = NoTime,
      tq_created_before = NoTime, tq_sort_by = PStr ''amount'', tq_sort_dir = PStr ''ASC'', tq_limit = PInt 2\<rparr>"

definition sample_filter :: tx_filter where
  "sample_filter =
     \<lparr>tf_hash = None, tf_account = None, tf_asset = Some ''USDC'', tf_status = Some ''confirmed'', tf_type = None, tf_outage = None,
      tf_amounts = (Some 5, Some 1000), tf_created = (None, None), tf_order = (''amount'', ''asc''), tf_limit = 2\<rparr>"

lemma sample_request_valid: "validate_request sample_request = Inr sample_filter"
  by code_simp

theorem accepted_filters_are_canonical_witness:
  "asset_code_pattern ''USDC'' \<and> validate_request (request_of sample_filter) = Inr sample_filter"
  using accepted_filters_are_canonical [OF sample_request_valid] by (simp add: sample_filter_def)


theorem sanitized_filters_are_fixed_witness:
  "from_query \<lparr>xf_transaction_hash = None, xf_account = Some ''SYSTEM_POOL'', xf_asset_code = Some ''USDC'', xf_status = Some ''confirmed'',
     xf_transaction_type = None, xf_created_after = Some (Aware 7), xf_created_before = None\<rparr> =
   Inr \<lparr>xf_transaction_hash = None, xf_account = Some ''SYSTEM_POOL'', xf_asset_code = Some ''USDC'', xf_status = Some ''confirmed'',
     xf_transaction_type = None, xf_created_after = Some (Aware 7), xf_created_before = None\<rparr>"
proof -
  have "from_query \<lparr>xf_transaction_hash = None, xf_account = Some '' SYSTEM_POOL'', xf_asset_code = Some ''usdc'', xf_status = Some ''CONFIRMED'',
     xf_transaction_type = None, xf_created_after = Some (Naive 7), xf_created_before = None\<rparr> =
    Inr \<lparr>xf_transaction_hash = None, xf_account = Some ''SYSTEM_POOL'', xf_asset_code = Some ''USDC'', xf_status = Some ''confirmed'',
     xf_transaction_type = None, xf_created_after = Some (Aware 7), xf_created_before = None\<rparr>" by code_simp
  then show ?thesis by (rule sanitized_filters_are_fixed)
qed

theorem mixed_time_bounds_fail_witness:
  "list_indexed_transactions 0 \<lparr>au_id = ''u1'', au_email = ''e'', au_full_name = None, au_role = Engineer, au_stellar_wallet = None, au_created_at = 0\<rparr>
     (sample_request\<lparr>tq_max_amount := PInt 9, tq_created_after := TimeArg (Aware 1), tq_created_before := TimeArg (Naive 2)\<rparr>)
     empty_database = Inl TypeError"
proof (rule mixed_time_bounds_fail)
  show "query_bounds_ok (sample_request\<lparr>tq_max_amount := PInt 9, tq_created_after := TimeArg (Aware 1), tq_created_before := TimeArg (Naive 2)\<rparr>)"
    by code_simp
  show "validate_request (sample_request\<lparr>tq_max_amount := PInt 9\<rparr>) = Inr (sample_filter\<lparr>tf_amounts := (Some 5, Some 9)\<rparr>)" by code_simp
qed simp_all

end
