(* ===== verification/Tx_Indexer.thy ===== *)
theory Tx_Indexer
  imports Tx_Query
begin

text \<open>
  Filling the transaction index: the retry policy, the Horizon source, the parsing of its records and the passes of
  \<^verbatim>\<open>services/tx_indexer.py\<close>, the idempotent insert of \<^verbatim>\<open>repositories/tx_indexer_repository.py\<close>, the heartbeat of
  \<^verbatim>\<open>services/tx_indexer_health.py\<close> and the probe of \<^verbatim>\<open>endpoints/indexer.py\<close>.  The indexed rows go into the table of
  payments.  Durations are exact rationals.
\<close>

section \<open>Retries\<close>

definition RETRYABLE_STATUS_CODES :: "int list" where
  "RETRYABLE_STATUS_CODES = [408, 425, 429, 500, 502, 503, 504]"

fun is_retryable :: "exn \<Rightarrow> bool" where
  "is_retryable TransportFailure = True"
| "is_retryable (HTTPStatusError c) = (c \<in> set RETRYABLE_STATUS_CODES)"
| "is_retryable _ = False"

record retry_policy =
  rp_max_attempts :: int
  rp_base_delay :: rat
  rp_max_delay :: rat
  rp_jitter_ratio :: rat

text \<open>\<open>__post_init__\<close>.\<close>

definition retry_policy_valid :: "retry_policy \<Rightarrow> bool" where
  "retry_policy_valid rp \<longleftrightarrow> 1 \<le> rp_max_attempts rp \<and> 0 < rp_base_delay rp \<and> rp_base_delay rp \<le> rp_max_delay rp \<and>
     0 \<le> rp_jitter_ratio rp \<and> rp_jitter_ratio rp \<le> 1"

text \<open>\<open>u\<close> is the number the random generator gives, in the half-open unit interval.\<close>

definition compute_delay :: "retry_policy \<Rightarrow> rat \<Rightarrow> int \<Rightarrow> exn + rat" where
  "compute_delay rp u attempt =
     (if attempt < 1 then Inl ValueError
      else let raw = min (rp_base_delay rp * 2 ^ nat (attempt - 1)) (rp_max_delay rp);
               factor = 1 + rp_jitter_ratio rp * (2 * u - 1) in
           Inr (min (max (raw * factor) 0) (rp_max_delay rp)))"

text \<open>\<open>call\<close>, after \<open>k\<close> attempts: the answer, the delays slept, and the world the calls leave.\<close>

function retry_from ::
  "retry_policy \<Rightarrow> (nat \<Rightarrow> rat) \<Rightarrow> ('w \<Rightarrow> (exn + 'a) \<times> 'w) \<Rightarrow> nat \<Rightarrow> 'w \<Rightarrow> (exn + 'a) \<times> rat list \<times> 'w" where
  "retry_from rp rng fn k w =
     (case fn w of
        (Inr x, w1) \<Rightarrow> (Inr x, [], w1)
      | (Inl e, w1) \<Rightarrow>
          if \<not> is_retryable e then (Inl e, [], w1)
          else if int (Suc k) \<ge> rp_max_attempts rp then (Inl TxIndexerRetryExhausted, [], w1)
          else (case compute_delay rp (rng k) (int (Suc k)) of
                  Inl e1 \<Rightarrow> (Inl e1, [], w1)
                | Inr d \<Rightarrow> (case retry_from rp rng fn (Suc k) w1 of (r, ds, w2) \<Rightarrow> (r, d # ds, w2))))"
  by pat_completeness auto
termination
  by (relation "measure (\<lambda>(rp, rng, fn, k, w). nat (rp_max_attempts rp) - k)") auto

declare retry_from.simps [simp del]

definition retry_call ::
  "retry_policy \<Rightarrow> (nat \<Rightarrow> rat) \<Rightarrow> ('w \<Rightarrow> (exn + 'a) \<times> 'w) \<Rightarrow> 'w \<Rightarrow> (exn + 'a) \<times> rat list \<times> 'w" where
  "retry_call rp rng fn w = retry_from rp rng fn 0 w"

section \<open>Records\<close>

record indexed_tx =
  it_hash :: str
  it_type :: str
  it_amount :: int
  it_asset_code :: str
  it_from_address :: str
  it_to_address :: str
  it_created_at :: time

definition indexed_id :: "indexed_tx \<Rightarrow> str" where
  "indexed_id tx = ''txidx_'' @ take 24 (it_hash tx)"

text \<open>
  What the interpreter and its library decide: the clock, the text of floats and of containers, the ISO parser and
  printer, and the text of an exception.
\<close>

record ix_env =
  ix_now :: time
  ix_repr_float :: "rat \<Rightarrow> str"
  ix_repr_other :: "pyval \<Rightarrow> str"
  ix_parse_iso :: "str \<Rightarrow> datetime option"
  ix_iso :: "time \<Rightarrow> str"
  ix_exc_text :: "exn \<Rightarrow> str"

fun py_truthy :: "pyval \<Rightarrow> bool" where
  "py_truthy PNone = False"
| "py_truthy (PBool b) = b"
| "py_truthy (PInt i) = (i \<noteq> 0)"
| "py_truthy (PFloat (Finite q)) = (q \<noteq> 0)"
| "py_truthy (PFloat _) = True"
| "py_truthy (PStr s) = (s \<noteq> [])"
| "py_truthy (PList xs) = (xs \<noteq> [])"
| "py_truthy (PTuple xs) = (xs \<noteq> [])"
| "py_truthy (PDict kvs) = (kvs \<noteq> [])"
| "py_truthy POther = True"

text \<open>\<open>str(v)\<close>; an integer with too many digits is a \<open>ValueError\<close>.\<close>

fun py_str :: "ix_env \<Rightarrow> pyval \<Rightarrow> exn + str" where
  "py_str env PNone = Inr ''None''"
| "py_str env (PBool b) = Inr (if b then ''True'' else ''False'')"
| "py_str env (PInt i) = (case dumps_int i of None \<Rightarrow> Inl ValueError | Some s \<Rightarrow> Inr s)"
| "py_str env (PFloat (Finite q)) = Inr (ix_repr_float env q)"
| "py_str env (PFloat PosInf) = Inr ''inf''"
| "py_str env (PFloat NegInf) = Inr ''-inf''"
| "py_str env (PFloat NaN) = Inr ''nan''"
| "py_str env (PStr s) = Inr s"
| "py_str env v = Inr (ix_repr_other env v)"

text \<open>\<open>str(record.get(k) or default)\<close>.\<close>

definition str_or :: "ix_env \<Rightarrow> pyval option \<Rightarrow> str \<Rightarrow> exn + str" where
  "str_or env v other = (case v of None \<Rightarrow> Inr other | Some x \<Rightarrow> if py_truthy x then py_str env x else Inr other)"

subsection \<open>Amounts\<close>

text \<open>
  A finite decimal number: sign, coefficient and exponent of ten.  The parser drops surrounding blanks and all
  underscores; the special values, which are not finite, are \<open>None\<close> here, as are texts that are not numbers and
  exponents beyond the limits of the library.
\<close>

datatype decimal = Decimal bool nat int

definition signed_part :: "string \<Rightarrow> bool \<times> string" where
  "signed_part s =
     (case s of
        [] \<Rightarrow> (False, [])
      | c # r \<Rightarrow> if c = CHR ''-'' then (True, r) else if c = CHR ''+'' then (False, r) else (False, s))"

definition exponent_part :: "string \<Rightarrow> int option" where
  "exponent_part s =
     (case s of
        [] \<Rightarrow> Some 0
      | _ # r \<Rightarrow>
          (case signed_part r of
             (neg, ds) \<Rightarrow>
               if ds = [] \<or> \<not> list_all is_digit ds then None
               else Some (if neg then - int (decimal_value ds) else int (decimal_value ds))))"

definition MAX_EMAX :: int where "MAX_EMAX = 999999999999999999"
definition MIN_ETINY :: int where "MIN_ETINY = -1999999999999999997"

definition decimal_of :: "string \<Rightarrow> decimal option" where
  "decimal_of s =
     (case signed_part (filter (\<lambda>c. c \<noteq> CHR ''_'') (py_strip s)) of
        (neg, r) \<Rightarrow>
          (let no_exp = (\<lambda>c. c \<noteq> CHR ''e'' \<and> c \<noteq> CHR ''E'');
               (ip, fp) = partition_at CHR ''.'' (takeWhile no_exp r) in
           if ip @ fp = [] \<or> \<not> list_all is_digit (ip @ fp) then None
           else case exponent_part (dropWhile no_exp r) of
             None \<Rightarrow> None
           | Some x \<Rightarrow>
               (let c = decimal_value (ip @ fp); e = x - int (length fp) in
                if e + int (length (digits_of c)) - 1 > MAX_EMAX \<or> e < MIN_ETINY then None else Some (Decimal neg c e))))"

text \<open>The default context: 28 digits, rounding half to even, and an overflow beyond an adjusted exponent of 999999.\<close>

definition round_28 :: "nat \<times> int \<Rightarrow> nat \<times> int" where
  "round_28 ce =
     (let (c, e) = ce; n = length (digits_of c) in
      if n \<le> 28 then (c, e)
      else let k = n - 28; q = c div 10 ^ k; r = c mod 10 ^ k in
           (if 2 * r > 10 ^ k \<or> 2 * r = 10 ^ k \<and> odd q then q + 1 else q, e + int k))"

definition times_stroops :: "nat \<Rightarrow> int \<Rightarrow> exn + nat \<times> int" where
  "times_stroops c e =
     (let (c1, e1) = round_28 (c * 10 ^ 7, e) in
      if c1 \<noteq> 0 \<and> e1 + int (length (digits_of c1)) - 1 > 999999 then Inl OverflowError else Inr (c1, e1))"

definition whole_part :: "nat \<times> int \<Rightarrow> int" where
  "whole_part ce = (let (c, e) = ce in if e \<ge> 0 then int c * 10 ^ nat e else int (c div 10 ^ nat (- e)))"

text \<open>\<open>_to_stroops\<close>; \<open>decimal.Overflow\<close>, which is not caught, appears as \<open>OverflowError\<close>.\<close>

definition to_stroops :: "ix_env \<Rightarrow> pyval \<Rightarrow> exn + int" where
  "to_stroops env raw =
     (case py_str env raw of
        Inl _ \<Rightarrow> Inl TxIndexerError
      | Inr s \<Rightarrow>
          (case decimal_of s of
             None \<Rightarrow> Inl TxIndexerError
           | Some (Decimal neg c e) \<Rightarrow>
               if neg \<and> c \<noteq> 0 then Inl TxIndexerError
               else (case times_stroops c e of Inl x \<Rightarrow> Inl x | Inr ce \<Rightarrow> Inr (whole_part ce))))"

fun in_utc :: "datetime \<Rightarrow> time" where
  "in_utc (Aware t) = t"
| "in_utc (Naive t) = t"

definition zulu :: "str \<Rightarrow> str" where
  "zulu s = replace_char CHR ''Z'' ''+00:00'' s"

definition parse_created_at :: "ix_env \<Rightarrow> pyval \<Rightarrow> exn + time" where
  "parse_created_at env raw =
     (if \<not> py_truthy raw then Inr (ix_now env)
      else bind_ok (py_str env raw) (\<lambda>s.
        case ix_parse_iso env (zulu s) of None \<Rightarrow> Inl TxIndexerError | Some d \<Rightarrow> Inr (in_utc d)))"

text \<open>\<open>parse_horizon_record\<close>; a record that is not a mapping has no \<open>get\<close>.\<close>

fun parse_horizon_record :: "ix_env \<Rightarrow> pyval \<Rightarrow> exn + indexed_tx" where
  "parse_horizon_record env (PDict d) =
     bind_ok (str_or env (dict_get d ''transaction_hash'') []) (\<lambda>h.
       if py_strip h = [] then Inl TxIndexerError
       else
         bind_ok (str_or env (dict_get d ''type'') ''payment'') (\<lambda>ty.
         bind_ok (to_stroops env (case dict_get d ''amount'' of None \<Rightarrow> PStr ''0'' | Some v \<Rightarrow> v)) (\<lambda>am.
         bind_ok (str_or env (dict_get d ''asset_code'') ''XLM'') (\<lambda>ac.
         bind_ok (str_or env (dict_get d ''from'') []) (\<lambda>fr.
         bind_ok (str_or env (dict_get d ''to'') []) (\<lambda>dest.
         bind_ok (parse_created_at env (case dict_get d ''created_at'' of None \<Rightarrow> PNone | Some v \<Rightarrow> v)) (\<lambda>ca.
           Inr \<lparr>it_hash = py_strip h, it_type = ty, it_amount = am, it_asset_code = ac, it_from_address = fr, it_to_address = dest,
                it_created_at = ca\<rparr>)))))))"
| "parse_horizon_record env _ = Inl AttributeError"

section \<open>The Horizon source\<close>

record fetched_page =
  fp_records :: pyval
  fp_next_cursor :: "str option"

type_synonym 'w payment_source = "str option \<Rightarrow> int \<Rightarrow> 'w \<Rightarrow> (exn + fetched_page) \<times> 'w"

text \<open>What the HTTP client gives back: a connection problem or timeout, another request error, or a status with the decoded body.\<close>

datatype horizon_answer = ConnectionProblem | OtherRequestError | Answered int "pyval option"

definition payments_request :: "str \<Rightarrow> str option \<Rightarrow> int \<Rightarrow> str \<times> (str \<times> str) list" where
  "payments_request base_url c l =
     (rstrip_char CHR ''/'' base_url @ ''/payments'',
      [(''order'', ''asc''), (''limit'', py_str_int l)] @ (case c of Some k \<Rightarrow> if k \<noteq> [] then [(''cursor'', k)] else [] | None \<Rightarrow> []))"

text \<open>\<open>records[-1].get("paging_token") if records else cursor\<close>.\<close>

fun page_token :: "str option \<Rightarrow> pyval \<Rightarrow> exn + pyval" where
  "page_token c (PList xs) =
     (if xs = [] then Inr (opt_text c)
      else case last xs of
        PDict r \<Rightarrow> Inr (case dict_get r ''paging_token'' of None \<Rightarrow> PNone | Some v \<Rightarrow> v)
      | _ \<Rightarrow> Inl AttributeError)"
| "page_token c v =
     (if \<not> py_truthy v then Inr (opt_text c)
      else case v of PStr _ \<Rightarrow> Inl AttributeError | PDict _ \<Rightarrow> Inl KeyError | _ \<Rightarrow> Inl TypeError)"

fun get_default :: "pyval \<Rightarrow> str \<Rightarrow> pyval \<Rightarrow> exn + pyval" where
  "get_default (PDict d) k other = Inr (case dict_get d k of None \<Rightarrow> other | Some v \<Rightarrow> v)"
| "get_default _ k other = Inl AttributeError"

definition read_page :: "ix_env \<Rightarrow> str option \<Rightarrow> pyval \<Rightarrow> exn + fetched_page" where
  "read_page env c body =
     bind_ok (get_default body ''_embedded'' (PDict [])) (\<lambda>emb.
     bind_ok (get_default emb ''records'' (PList [])) (\<lambda>recs.
     bind_ok (page_token c recs) (\<lambda>tok.
       if py_truthy tok then bind_ok (py_str env tok) (\<lambda>s. Inr \<lparr>fp_records = recs, fp_next_cursor = Some s\<rparr>)
       else Inr \<lparr>fp_records = recs, fp_next_cursor = None\<rparr>)))"

definition fetch_payments ::
  "ix_env \<Rightarrow> str \<Rightarrow> (str \<times> (str \<times> str) list \<Rightarrow> 'w \<Rightarrow> horizon_answer \<times> 'w) \<Rightarrow> 'w payment_source" where
  "fetch_payments env base_url client c l w =
     (case client (payments_request base_url c l) w of
        (ConnectionProblem, w1) \<Rightarrow> (Inl TransportFailure, w1)
      | (OtherRequestError, w1) \<Rightarrow> (Inl ValueError, w1)
      | (Answered status body, w1) \<Rightarrow>
          (if \<not> (200 \<le> status \<and> status < 300) then Inl (HTTPStatusError status)
           else case body of None \<Rightarrow> Inl ValueError | Some b \<Rightarrow> read_page env c b, w1))"

section \<open>The sink\<close>

definition index_row :: "time \<Rightarrow> indexed_tx \<Rightarrow> payment_row" where
  "index_row t tx =
     \<lparr>p_id = indexed_id tx, p_transaction_hash = it_hash tx, p_type = it_type tx, p_amount = it_amount tx,
      p_asset_code = it_asset_code tx, p_from_address = it_from_address tx, p_to_address = it_to_address tx,
      p_status = ''confirmed'', p_outage_id = None, p_sla_result_id = None, p_created_at = it_created_at tx,
      p_confirmed_at = Some t, p_retry_count = 0, p_last_retried_at = None\<rparr>"

text \<open>The driver refuses strings with a NUL character and integers it cannot print; the columns have their widths.\<close>

definition bindable :: "indexed_tx \<Rightarrow> bool" where
  "bindable tx \<longleftrightarrow>
     list_all (\<lambda>s. CHR 0x00 \<notin> set s) [it_hash tx, it_type tx, it_asset_code tx, it_from_address tx, it_to_address tx] \<and>
     dumps_int (it_amount tx) \<noteq> None"

definition fits_columns :: "payment_row \<Rightarrow> bool" where
  "fits_columns p \<longleftrightarrow> length (p_transaction_hash p) \<le> 255 \<and> length (p_type p) \<le> 50 \<and> length (p_asset_code p) \<le> 20 \<and>
     length (p_from_address p) \<le> 255 \<and> length (p_to_address p) \<le> 255 \<and> BIGINT_MIN \<le> p_amount p \<and> p_amount p \<le> BIGINT_MAX"

text \<open>
  \<open>INSERT ... ON CONFLICT (transaction_hash) DO NOTHING\<close>, row by row: a stored hash skips the row, also one stored by an
  earlier row of the statement; any other unique violation ends the statement.
\<close>

fun insert_rows :: "payment_row list \<Rightarrow> payment_row list \<Rightarrow> exn + payment_row list \<times> nat" where
  "insert_rows tbl [] = Inr (tbl, 0)"
| "insert_rows tbl (r # rs) =
     (if \<not> fits_columns r then Inl DataError
      else if list_ex (\<lambda>p. p_transaction_hash p = p_transaction_hash r) tbl then insert_rows tbl rs
      else if list_ex (\<lambda>p. p_id p = p_id r) tbl then Inl IntegrityError
      else bind_ok (insert_rows (tbl @ [r]) rs) (\<lambda>(tbl1, n). Inr (tbl1, Suc n)))"

definition upsert_many :: "time \<Rightarrow> indexed_tx list \<Rightarrow> database \<Rightarrow> (nat, database) outcome" where
  "upsert_many t txs db =
     (if txs = [] then (Inr 0, db)
      else if \<not> list_all bindable txs then (Inl ValueError, db)
      else case insert_rows (payments db) (map (index_row t) txs) of
        Inl e \<Rightarrow> (Inl e, db)
      | Inr (tbl, n) \<Rightarrow> (Inr n, db\<lparr>payments := tbl\<rparr>))"

section \<open>The heartbeat\<close>

definition MAX_ERROR_LENGTH :: nat where "MAX_ERROR_LENGTH = 240"

record indexer_state =
  xs_last_attempt_at :: "time option"
  xs_last_success_at :: "time option"
  xs_last_error :: "str option"
  xs_consecutive_failures :: int
  xs_last_inserted :: int
  xs_cursor :: "str option"

definition initial_state :: indexer_state where
  "initial_state = \<lparr>xs_last_attempt_at = None, xs_last_success_at = None, xs_last_error = None, xs_consecutive_failures = 0,
     xs_last_inserted = 0, xs_cursor = None\<rparr>"

definition record_pass_success :: "time \<Rightarrow> str option \<Rightarrow> int \<Rightarrow> indexer_state \<Rightarrow> indexer_state" where
  "record_pass_success t c n s =
     s\<lparr>xs_last_attempt_at := Some t, xs_last_success_at := Some t, xs_last_error := None, xs_consecutive_failures := 0,
       xs_last_inserted := n, xs_cursor := c\<rparr>"

definition record_pass_failure :: "time \<Rightarrow> str \<Rightarrow> indexer_state \<Rightarrow> indexer_state" where
  "record_pass_failure t err s =
     s\<lparr>xs_last_attempt_at := Some t, xs_last_error := Some (take MAX_ERROR_LENGTH err),
       xs_consecutive_failures := xs_consecutive_failures s + 1\<rparr>"

definition iso_or_none :: "ix_env \<Rightarrow> time option \<Rightarrow> pyval" where
  "iso_or_none env v = (case v of None \<Rightarrow> PNone | Some t \<Rightarrow> PStr (ix_iso env t))"

definition to_dict :: "ix_env \<Rightarrow> indexer_state \<Rightarrow> pyval" where
  "to_dict env s = PDict
     [(PStr ''last_attempt_at'', iso_or_none env (xs_last_attempt_at s)), (PStr ''last_success_at'', iso_or_none env (xs_last_success_at s)),
      (PStr ''last_error'', opt_text (xs_last_error s)), (PStr ''consecutive_failures'', PInt (xs_consecutive_failures s)),
      (PStr ''last_inserted'', PInt (xs_last_inserted s)), (PStr ''cursor'', opt_text (xs_cursor s))]"

fun parse_timestamp :: "ix_env \<Rightarrow> pyval option \<Rightarrow> time option" where
  "parse_timestamp env (Some (PStr s)) = (if s = [] then None else map_option in_utc (ix_parse_iso env (zulu s)))"
| "parse_timestamp env _ = None"

fun count_of :: "pyval option \<Rightarrow> int" where
  "count_of (Some (PInt i)) = (if i \<ge> 0 then i else 0)"
| "count_of (Some (PBool b)) = of_bool b"
| "count_of _ = 0"

fun text_of :: "pyval option \<Rightarrow> str option" where
  "text_of (Some (PStr s)) = Some s"
| "text_of _ = None"

fun from_dict :: "ix_env \<Rightarrow> pyval \<Rightarrow> indexer_state" where
  "from_dict env (PDict d) =
     \<lparr>xs_last_attempt_at = parse_timestamp env (dict_get d ''last_attempt_at''),
      xs_last_success_at = parse_timestamp env (dict_get d ''last_success_at''), xs_last_error = text_of (dict_get d ''last_error''),
      xs_consecutive_failures = count_of (dict_get d ''consecutive_failures''), xs_last_inserted = count_of (dict_get d ''last_inserted''),
      xs_cursor = text_of (dict_get d ''cursor'')\<rparr>"
| "from_dict env _ = initial_state"

text \<open>
  The Redis key: the decoded document (\<open>None\<close> for a text that is not JSON) with the time at which the key expires.  The two
  flags say whether Redis answers the read and the write of one update.
\<close>

type_synonym heartbeat = "(pyval option \<times> time) option"

definition load_state :: "ix_env \<Rightarrow> bool \<Rightarrow> heartbeat \<Rightarrow> indexer_state" where
  "load_state env up hb =
     (if \<not> up then initial_state
      else case hb of
        Some (Some doc, expires) \<Rightarrow> if ix_now env < expires then from_dict env doc else initial_state
      | _ \<Rightarrow> initial_state)"

definition save_state :: "ix_env \<Rightarrow> bool \<Rightarrow> time \<Rightarrow> indexer_state \<Rightarrow> heartbeat \<Rightarrow> heartbeat" where
  "save_state env up ttl s hb = (if up then Some (Some (to_dict env s), ix_now env + ttl) else hb)"

definition store_update ::
  "ix_env \<Rightarrow> bool \<times> bool \<Rightarrow> time \<Rightarrow> (indexer_state \<Rightarrow> indexer_state) \<Rightarrow> heartbeat \<Rightarrow> heartbeat" where
  "store_update env ups ttl f hb = save_state env (snd ups) ttl (f (load_state env (fst ups) hb)) hb"

section \<open>A pass\<close>

record index_result =
  ir_fetched :: nat
  ir_inserted :: nat
  ir_next_cursor :: "str option"

text \<open>Iterating over the records; \<open>len\<close> and the loop refuse what is not a collection.\<close>

fun records_of :: "pyval \<Rightarrow> exn + pyval list" where
  "records_of (PList xs) = Inr xs"
| "records_of (PTuple xs) = Inr xs"
| "records_of (PStr s) = Inr (map (\<lambda>c. PStr [c]) s)"
| "records_of (PDict kvs) = Inr (map fst kvs)"
| "records_of _ = Inl TypeError"

definition fetch_page ::
  "retry_policy \<Rightarrow> (nat \<Rightarrow> rat) \<Rightarrow> 'w payment_source \<Rightarrow> int \<Rightarrow> str option \<Rightarrow> 'w \<Rightarrow> (exn + pyval list \<times> str option) \<times> rat list \<times> 'w" where
  "fetch_page rp rng source batch c w =
     (case retry_call rp rng (source c batch) w of
        (r, ds, w1) \<Rightarrow> (bind_ok r (\<lambda>page. bind_ok (records_of (fp_records page)) (\<lambda>xs. Inr (xs, fp_next_cursor page))), ds, w1))"

record ix_cfg =
  xc_policy :: retry_policy
  xc_batch_size :: int
  xc_recorder :: "(bool \<times> bool) option"
  xc_state_ttl :: time

record 'w ix_state =
  xw_world :: 'w
  xw_db :: database
  xw_heartbeat :: heartbeat

definition note_outcome :: "ix_env \<Rightarrow> ix_cfg \<Rightarrow> (indexer_state \<Rightarrow> indexer_state) \<Rightarrow> heartbeat \<Rightarrow> heartbeat" where
  "note_outcome env cfg f hb =
     (case xc_recorder cfg of None \<Rightarrow> hb | Some ups \<Rightarrow> store_update env ups (xc_state_ttl cfg) f hb)"

definition run_once ::
  "ix_env \<Rightarrow> ix_cfg \<Rightarrow> (nat \<Rightarrow> rat) \<Rightarrow> 'w payment_source \<Rightarrow> str option \<Rightarrow> 'w ix_state \<Rightarrow> (index_result, 'w ix_state) outcome" where
  "run_once env cfg rng source c st =
     (case fetch_page (xc_policy cfg) rng source (xc_batch_size cfg) c (xw_world st) of
        (page, ds, w1) \<Rightarrow>
          (case (case bind_ok page (\<lambda>(xs, nxt). bind_ok (traverse (parse_horizon_record env) xs) (\<lambda>txs. Inr (txs, nxt))) of
                   Inl e \<Rightarrow> (Inl e, xw_db st)
                 | Inr (txs, nxt) \<Rightarrow>
                     (case upsert_many (ix_now env) txs (xw_db st) of
                        (Inl e, db) \<Rightarrow> (Inl e, db)
                      | (Inr n, db) \<Rightarrow> (Inr \<lparr>ir_fetched = length txs, ir_inserted = n, ir_next_cursor = nxt\<rparr>, db))) of
             (Inl e, db) \<Rightarrow>
               (Inl e, \<lparr>xw_world = w1, xw_db = db,
                        xw_heartbeat = note_outcome env cfg (record_pass_failure (ix_now env) (ix_exc_text env e)) (xw_heartbeat st)\<rparr>)
           | (Inr res, db) \<Rightarrow>
               (Inr res, \<lparr>xw_world = w1, xw_db = db,
                          xw_heartbeat = note_outcome env cfg (record_pass_success (ix_now env) (ir_next_cursor res) (int (ir_inserted res))) (xw_heartbeat st)\<rparr>)))"

section \<open>The probe\<close>

record health_report =
  hr_status :: str
  hr_reason :: "str option"
  hr_lag_seconds :: "time option"
  hr_max_lag_seconds :: time
  hr_state :: indexer_state
  hr_database :: "str \<times> str option"
  hr_state_store :: str

definition build_indexer_health :: "indexer_state \<Rightarrow> time \<Rightarrow> time \<Rightarrow> bool \<Rightarrow> str option \<Rightarrow> health_report" where
  "build_indexer_health s t max_lag database_ok database_error =
     (let lag = map_option (\<lambda>u. max (t - u) 0) (xs_last_success_at s);
          (st, reason) =
            (if \<not> database_ok then (''down'', Some ''database_unreachable'')
             else if xs_last_success_at s = None then (''degraded'', Some ''no_successful_run'')
             else if xs_consecutive_failures s > 0 then (''degraded'', Some ''last_run_failed'')
             else if (case lag of None \<Rightarrow> False | Some l \<Rightarrow> l > max_lag) then (''degraded'', Some ''stale'')
             else (''ok'', None)) in
      \<lparr>hr_status = st, hr_reason = reason, hr_lag_seconds = lag, hr_max_lag_seconds = max_lag, hr_state = s,
       hr_database = (if database_ok then ''ok'' else ''down'', if truthy database_error then database_error else None),
       hr_state_store = (if xs_last_attempt_at s \<noteq> None then ''ok'' else ''empty'')\<rparr>)"

text \<open>\<open>_database_status\<close>: the ping, or the text of its exception.\<close>

definition database_status :: "(exn + unit) \<Rightarrow> (exn \<Rightarrow> str) \<Rightarrow> bool \<times> str option" where
  "database_status ping describe = (case ping of Inl e \<Rightarrow> (False, Some (take 240 (describe e))) | Inr _ \<Rightarrow> (True, None))"

definition indexer_health :: "ix_env \<Rightarrow> bool \<Rightarrow> time \<Rightarrow> (exn + unit) \<Rightarrow> heartbeat \<Rightarrow> nat \<times> health_report" where
  "indexer_health env redis_up max_lag ping hb =
     (case database_status ping (ix_exc_text env) of
        (ok, err) \<Rightarrow>
          (let report = build_indexer_health (load_state env redis_up hb) (ix_now env) max_lag ok err in
           (if hr_status report = ''down'' then 503 else 200, report)))"

section \<open>Amounts are exact\<close>

lemma foldl_digits: "foldl (\<lambda>n c. 10 * n + d c) a t = a * 10 ^ length t + foldl (\<lambda>n c. 10 * n + d c) 0 t" for a :: nat
proof (induction t rule: rev_induct)
  case (snoc c t)
  have "foldl (\<lambda>n c. 10 * n + d c) a (t @ [c]) = 10 * foldl (\<lambda>n c. 10 * n + d c) a t + d c" by simp
  also have "\<dots> = 10 * (a * 10 ^ length t + foldl (\<lambda>n c. 10 * n + d c) 0 t) + d c" by (subst snoc) (rule refl)
  also have "\<dots> = a * 10 ^ length (t @ [c]) + foldl (\<lambda>n c. 10 * n + d c) 0 (t @ [c])" by (simp add: algebra_simps)
  finally show ?case .
qed simp

lemma decimal_value_append: "decimal_value (s @ t) = decimal_value s * 10 ^ length t + decimal_value t"
  unfolding decimal_value_def foldl_append by (rule foldl_digits)

lemma whole_part_neg: "whole_part (c, - int k) = int (c div 10 ^ k)"
  by (cases "k = 0") (simp_all add: whole_part_def)

lemma decimal_value_bound: "list_all is_digit s \<Longrightarrow> decimal_value s < 10 ^ length s"
proof (induction s rule: rev_induct)
  case (snoc c s)
  then have "decimal_value s < 10 ^ length s" "of_char c \<le> (57 :: nat)" by (auto simp: is_digit_def)
  then show ?case by (simp add: decimal_value_def)
qed (simp add: decimal_value_def)

lemma plain_number_strip:
  assumes "a \<noteq> []" "list_all is_digit a" "list_all is_digit b"
  shows "py_strip (a @ CHR ''.'' # b) = a @ CHR ''.'' # b"
proof (rule py_strip_fixed)
  have d: "\<not> is_blank c" if "is_digit c" for c using that by (auto simp: is_digit_def is_blank_def Let_def)
  show "\<not> is_blank (hd (a @ CHR ''.'' # b))" using assms(1,2) d by (cases a) auto
  show "\<not> is_blank (last (a @ CHR ''.'' # b))"
    using assms(3) d by (cases b rule: rev_cases) (auto simp: is_blank_def)
qed simp

lemma stroops_parts:
  assumes "a \<noteq> []" "list_all is_digit a" "list_all is_digit b" "length b \<le> 7" "length a + length b \<le> 21"
  shows "to_stroops env (PStr (a @ ''.'' @ b)) = Inr (int (decimal_value a) * 10 ^ 7 + int (decimal_value b) * 10 ^ (7 - length b))"
proof -
  let ?s = "a @ CHR ''.'' # b" and ?c = "decimal_value (a @ b)"
  have ch: "c \<noteq> CHR ''_'' \<and> c \<noteq> CHR ''e'' \<and> c \<noteq> CHR ''E'' \<and> c \<noteq> CHR ''.'' \<and> c \<noteq> CHR ''-'' \<and> c \<noteq> CHR ''+''" if "is_digit c" for c
    using that by (auto simp: is_digit_def)
  have digs: "\<forall>c \<in> set (a @ b). is_digit c" using assms(2,3) by (auto simp: list_all_iff)
  have f: "filter (\<lambda>c. c \<noteq> CHR ''_'') ?s = ?s" using digs ch by (auto intro!: filter_True)
  have sg: "signed_part ?s = (False, ?s)" using assms(1,2) ch by (cases a) (auto simp: signed_part_def)
  have tw: "takeWhile (\<lambda>c. c \<noteq> CHR ''e'' \<and> c \<noteq> CHR ''E'') ?s = ?s" "dropWhile (\<lambda>c. c \<noteq> CHR ''e'' \<and> c \<noteq> CHR ''E'') ?s = []"
    using digs ch by (auto simp: takeWhile_eq_all_conv)
  have pa: "partition_at CHR ''.'' ?s = (a, b)" using assms(2) ch by (intro partition_at_append) (auto simp: list_all_iff)
  have c: "?c < 10 ^ (length a + length b)" using decimal_value_bound [of "a @ b"] assms(2,3) by simp
  have l: "length (digits_of ?c) \<le> 21"
    using length_digits_of [OF c] assms(1,5) by (cases a) auto
  have dec: "decimal_of ?s = Some (Decimal False ?c (- int (length b)))"
    using assms l unfolding decimal_of_def plain_number_strip [OF assms(1-3)] f sg
    by (simp add: tw pa exponent_part_def Let_def MAX_EMAX_def MIN_ETINY_def)
  have "?c * 10 ^ 7 < 10 ^ 28"
  proof -
    have "(10 :: nat) ^ (length a + length b) \<le> 10 ^ 21" using assms(5) by (intro power_increasing) auto
    with c have "?c < 10 ^ 21" by linarith
    then show ?thesis by simp
  qed
  then have l28: "length (digits_of (?c * 10 ^ 7)) \<le> 28" by (intro length_digits_of) auto
  then have "times_stroops ?c (- int (length b)) = Inr (?c * 10 ^ 7, - int (length b))"
    by (simp add: times_stroops_def round_28_def Let_def)
  moreover have "?c * 10 ^ 7 = ?c * 10 ^ (7 - length b) * 10 ^ length b"
    using assms(4) by (simp add: power_add [symmetric])
  then have "?c * 10 ^ 7 div 10 ^ length b = ?c * 10 ^ (7 - length b)" by (simp only: nonzero_mult_div_cancel_right) simp
  then have "whole_part (?c * 10 ^ 7, - int (length b)) = int (?c * 10 ^ (7 - length b))"
    by (simp only: whole_part_neg)
  moreover have "int (?c * 10 ^ (7 - length b)) = int (decimal_value a) * 10 ^ 7 + int (decimal_value b) * 10 ^ (7 - length b)"
    using assms(4) by (simp add: decimal_value_append algebra_simps power_add [symmetric])
  ultimately show ?thesis using dec by (simp add: to_stroops_def)
qed

text \<open>An amount in the form Horizon writes it, digits with at most seven decimals and at most 21 digits in all, is converted
  to stroops without loss.
\<close>

theorem stroops_exact:
  assumes "a \<noteq> []" "list_all is_digit a" "list_all is_digit b" "length b \<le> 7" "length a + length b \<le> 21"
  shows "to_stroops env (PStr (a @ ''.'' @ b)) = Inr (int (decimal_value a) * 10 ^ 7 + int (decimal_value b) * 10 ^ (7 - length b))"
  using assms by (rule stroops_parts)

lemma to_stroops_nonneg: "to_stroops env raw = Inr n \<Longrightarrow> 0 \<le> n"
  by (auto simp: to_stroops_def whole_part_def split: sum.splits option.splits decimal.splits prod.splits if_splits)

section \<open>Retries are bounded\<close>

abbreviation after_tries :: "('w \<Rightarrow> (exn + 'a) \<times> 'w) \<Rightarrow> nat \<Rightarrow> 'w \<Rightarrow> 'w" where
  "after_tries fn i w \<equiv> ((\<lambda>v. snd (fn v)) ^^ i) w"

abbreviation nth_try :: "('w \<Rightarrow> (exn + 'a) \<times> 'w) \<Rightarrow> nat \<Rightarrow> 'w \<Rightarrow> exn + 'a" where
  "nth_try fn i w \<equiv> fst (fn (after_tries fn i w))"

definition transient :: "exn + 'a \<Rightarrow> bool" where
  "transient r \<longleftrightarrow> (\<exists>e. r = Inl e \<and> is_retryable e)"

lemma compute_delay_bounds:
  assumes "retry_policy_valid rp" "compute_delay rp u k = Inr d"
  shows "0 \<le> d" "d \<le> rp_max_delay rp"
  using assms by (auto simp: compute_delay_def retry_policy_valid_def Let_def split: if_splits)

lemma compute_delay_total: "0 < k \<Longrightarrow> \<exists>d. compute_delay rp u k = Inr d"
  by (simp add: compute_delay_def Let_def)

lemma retry_from_spec:
  assumes "retry_policy_valid rp" "retry_from rp rng fn k w = (r, ds, w1)" "int k < rp_max_attempts rp"
  shows "int (k + length ds) < rp_max_attempts rp \<and> w1 = after_tries fn (Suc (length ds)) w \<and>
         (\<forall>i < length ds. transient (nth_try fn i w)) \<and> (\<forall>d \<in> set ds. 0 \<le> d \<and> d \<le> rp_max_delay rp) \<and>
         (if transient (nth_try fn (length ds) w)
          then r = Inl TxIndexerRetryExhausted \<and> int (k + length ds) = rp_max_attempts rp - 1
          else r = nth_try fn (length ds) w)"
  using assms(2,3)
proof (induction "nat (rp_max_attempts rp) - k" arbitrary: k w r ds)
  case 0
  then show ?case by simp
next
  case (Suc n)
  obtain y v where fn: "fn w = (y, v)" by fastforce
  show ?case
  proof (cases "transient y \<and> int (Suc k) < rp_max_attempts rp")
    case False
    then have "ds = [] \<and> w1 = v \<and> r = (if transient y then Inl TxIndexerRetryExhausted else y)"
      using Suc.prems(1) fn by (auto simp: retry_from.simps [of rp rng fn k w] transient_def split: sum.splits if_splits)
    with False Suc.prems(2) fn show ?thesis by auto
  next
    case True
    then obtain e where e: "y = Inl e" "is_retryable e" by (auto simp: transient_def)
    obtain d where d: "compute_delay rp (rng k) (int (Suc k)) = Inr d" using compute_delay_total [of "int (Suc k)"] by auto
    obtain ds1 where rec: "retry_from rp rng fn (Suc k) v = (r, ds1, w1)" and ds: "ds = d # ds1"
      using Suc.prems(1) True e d fn by (auto simp: retry_from.simps [of rp rng fn k w] split: prod.splits)
    have v: "after_tries fn (Suc i) w = after_tries fn i v" for i using fn by (simp add: funpow_Suc_right del: funpow.simps)
    have "n = nat (rp_max_attempts rp) - Suc k" using Suc.hyps(2) by simp
    note ih = Suc.hyps(1) [OF this rec conjunct2 [OF True]]
    have "transient (nth_try fn i w)" if "i < length ds" for i
    proof (cases i)
      case 0
      with True fn show ?thesis by simp
    next
      case (Suc j)
      with ih that ds v show ?thesis by simp
    qed
    moreover have "nth_try fn (length ds) w = nth_try fn (length ds1) v" "after_tries fn (Suc (length ds)) w = after_tries fn (Suc (length ds1)) v"
      unfolding ds using v by simp_all
    ultimately show ?thesis using ih ds compute_delay_bounds [OF assms(1) d] by auto
  qed
qed

text \<open>A call under the retry policy is made again exactly while it fails with a transient error, at most \<open>max_attempts\<close> times
  in all; it returns the first answer that is not transient, or gives up after the last attempt; every sleep lies between
  zero and the maximal delay.
\<close>

theorem retries_follow_policy:
  assumes "retry_policy_valid rp" "retry_call rp rng fn w = (r, ds, w1)"
  shows "int (length ds) < rp_max_attempts rp \<and> w1 = after_tries fn (Suc (length ds)) w \<and>
         (\<forall>i < length ds. transient (nth_try fn i w)) \<and> (\<forall>d \<in> set ds. 0 \<le> d \<and> d \<le> rp_max_delay rp) \<and>
         (if transient (nth_try fn (length ds) w)
          then r = Inl TxIndexerRetryExhausted \<and> int (length ds) = rp_max_attempts rp - 1
          else r = nth_try fn (length ds) w)"
  using retry_from_spec [OF assms(1) assms(2) [unfolded retry_call_def]] assms(1)
  by (simp add: retry_policy_valid_def split: if_splits)

section \<open>Indexing is idempotent\<close>

lemma insert_rows_grow:
  assumes "insert_rows tbl rs = Inr (tbl1, n)"
  shows "\<exists>new. tbl1 = tbl @ new \<and> length new = n \<and> set new \<subseteq> set rs \<and>
           (\<forall>r \<in> set rs. fits_columns r \<and> (\<exists>p \<in> set tbl1. p_transaction_hash p = p_transaction_hash r))"
  using assms
proof (induction tbl rs arbitrary: tbl1 n rule: insert_rows.induct)
  case (2 tbl r rs)
  show ?case
  proof (cases "list_ex (\<lambda>p. p_transaction_hash p = p_transaction_hash r) tbl")
    case True
    with "2.prems" have "insert_rows tbl rs = Inr (tbl1, n)" "fits_columns r" by (simp_all split: if_splits)
    with "2.IH"(1) True show ?thesis by (fastforce simp: list_ex_iff)
  next
    case False
    with "2.prems" obtain m where m: "insert_rows (tbl @ [r]) rs = Inr (tbl1, m)" "n = Suc m"
      and ok: "fits_columns r" "\<not> list_ex (\<lambda>p. p_id p = p_id r) tbl"
      by (auto simp: bind_ok_Inr split: if_splits prod.splits)
    from "2.IH"(2) [OF _ False ok(2) m(1)] ok(1) obtain new where "tbl1 = (tbl @ [r]) @ new" "length new = m" "set new \<subseteq> set rs"
      "\<forall>r \<in> set rs. fits_columns r \<and> (\<exists>p \<in> set tbl1. p_transaction_hash p = p_transaction_hash r)" by blast
    with m(2) ok(1) show ?thesis by (intro exI [of _ "r # new"]) auto
  qed
qed simp

lemma insert_rows_stored:
  assumes "\<forall>r \<in> set rs. fits_columns r \<and> (\<exists>p \<in> set tbl. p_transaction_hash p = p_transaction_hash r)"
  shows "insert_rows tbl rs = Inr (tbl, 0)"
  using assms by (induction rs) (auto simp: list_ex_iff)

lemma index_row_keys [simp]:
  "p_transaction_hash (index_row t tx) = it_hash tx" "p_id (index_row t tx) = indexed_id tx" "p_sla_result_id (index_row t tx) = None"
  by (simp_all add: index_row_def)

lemma fits_columns_time: "fits_columns (index_row t tx) = fits_columns (index_row t' tx)"
  by (simp add: fits_columns_def index_row_def)

text \<open>C30. Indexing again what was indexed changes nothing: after a successful insert, any batch made of the same transactions,
  in any order and with repetitions, inserts zero rows and leaves the database as it is.
\<close>

theorem reindexing_inserts_nothing:
  assumes "upsert_many t txs db = (Inr n, db1)" "set txs' \<subseteq> set txs"
  shows "upsert_many t' txs' db1 = (Inr 0, db1)"
proof (cases "txs' = []")
  case False
  with assms(2) have "txs \<noteq> []" by auto
  with assms(1) obtain tbl where ins: "insert_rows (payments db) (map (index_row t) txs) = Inr (tbl, n)" "db1 = db\<lparr>payments := tbl\<rparr>"
    and b: "list_all bindable txs"
    by (auto simp: upsert_many_def split: if_splits sum.splits prod.splits)
  from b assms(2) have "list_all bindable txs'" by (auto simp: list_all_iff)
  moreover from insert_rows_grow [OF ins(1)] assms(2) fits_columns_time [of t' _ t]
  have "insert_rows tbl (map (index_row t') txs') = Inr (tbl, 0)" by (intro insert_rows_stored) auto
  ultimately show ?thesis using False ins(2) by (simp add: upsert_many_def)
qed (simp add: upsert_many_def)

section \<open>A pass and the table of payments\<close>

lemma insert_rows_distinct:
  assumes "insert_rows tbl rs = Inr (tbl1, n)" "distinct (map p_id tbl)" "distinct (map p_transaction_hash tbl)"
  shows "distinct (map p_id tbl1) \<and> distinct (map p_transaction_hash tbl1)"
  using assms
proof (induction tbl rs arbitrary: tbl1 n rule: insert_rows.induct)
  case (2 tbl r rs)
  show ?case
  proof (cases "list_ex (\<lambda>p. p_transaction_hash p = p_transaction_hash r) tbl")
    case True
    with 2 show ?thesis by (simp split: if_splits)
  next
    case False
    with "2.prems" obtain m where m: "insert_rows (tbl @ [r]) rs = Inr (tbl1, m)"
      and ok: "fits_columns r" "\<not> list_ex (\<lambda>p. p_id p = p_id r) tbl"
      by (auto simp: bind_ok_Inr split: if_splits prod.splits)
    have "p_id r \<notin> p_id ` set tbl" "p_transaction_hash r \<notin> p_transaction_hash ` set tbl"
      using ok(2) False by (force simp: list_ex_iff)+
    with "2.IH"(2) [OF _ False ok(2) m] ok(1) "2.prems"(2,3) show ?thesis by simp
  qed
qed simp

lemma upsert_many_cases:
  assumes "upsert_many t txs db = (r, db1)"
  obtains (failed) e where "r = Inl e" "db1 = db"
  | (stored) new where "r = Inr (length new)" "db1 = db\<lparr>payments := payments db @ new\<rparr>" "set new \<subseteq> index_row t ` set txs"
      "\<forall>tx \<in> set txs. \<exists>p \<in> set (payments db1). p_transaction_hash p = it_hash tx"
      "distinct (map p_id (payments db)) \<Longrightarrow> distinct (map p_transaction_hash (payments db)) \<Longrightarrow>
         distinct (map p_id (payments db1)) \<and> distinct (map p_transaction_hash (payments db1))"
proof (cases "txs = []")
  case True
  with assms stored [of "[]"] show ?thesis by (simp add: upsert_many_def)
next
  case False
  show ?thesis
  proof (cases "list_all bindable txs")
    case True
    show ?thesis
    proof (cases "insert_rows (payments db) (map (index_row t) txs)")
      case (Inl e)
      with assms False True failed [of e] show ?thesis by (simp add: upsert_many_def)
    next
      case (Inr tn)
      then obtain tbl n where ins: "insert_rows (payments db) (map (index_row t) txs) = Inr (tbl, n)" by (cases tn) simp
      with assms False True have r: "r = Inr n" "db1 = db\<lparr>payments := tbl\<rparr>" by (simp_all add: upsert_many_def)
      from insert_rows_grow [OF ins] obtain new where new: "tbl = payments db @ new" "length new = n" "set new \<subseteq> index_row t ` set txs"
        "\<forall>tx \<in> set txs. \<exists>p \<in> set tbl. p_transaction_hash p = it_hash tx" by auto
      show ?thesis
      proof (rule stored [of new])
        show "distinct (map p_id (payments db)) \<Longrightarrow> distinct (map p_transaction_hash (payments db)) \<Longrightarrow>
          distinct (map p_id (payments db1)) \<and> distinct (map p_transaction_hash (payments db1))"
          using insert_rows_distinct [OF ins] r(2) by simp
      qed (use r new in simp_all)
    qed
  next
    case no: False
    with assms False failed [of ValueError] show ?thesis by (simp add: upsert_many_def)
  qed
qed

lemma parsed_amount_nonneg: "parse_horizon_record env v = Inr tx \<Longrightarrow> 0 \<le> it_amount tx"
  by (cases v) (auto simp: bind_ok_Inr to_stroops_nonneg split: if_splits)

lemma index_row_ok: "0 \<le> it_amount tx \<Longrightarrow> payment_ok (index_row t tx)"
  by (simp add: payment_ok_def index_row_def payment_status_of_def MAX_RETRIES_def)

lemma unique_key_append_None: "\<forall>x \<in> set ys. key x = None \<Longrightarrow> unique_key key xs \<Longrightarrow> unique_key key (xs @ ys)"
  by (simp add: unique_key_def filter_empty_conv)

text \<open>What a pass did, as its caller and the heartbeat see it.\<close>

lemma run_once_cases:
  assumes "run_once env cfg rng source c st = (r, st1)"
  obtains (failed) e where "r = Inl e" "xw_db st1 = xw_db st"
      "xw_heartbeat st1 = note_outcome env cfg (record_pass_failure (ix_now env) (ix_exc_text env e)) (xw_heartbeat st)"
  | (indexed) xs nxt txs new where
      "fst (fetch_page (xc_policy cfg) rng source (xc_batch_size cfg) c (xw_world st)) = Inr (xs, nxt)"
      "traverse (parse_horizon_record env) xs = Inr txs"
      "r = Inr \<lparr>ir_fetched = length txs, ir_inserted = length new, ir_next_cursor = nxt\<rparr>"
      "xw_db st1 = (xw_db st)\<lparr>payments := payments (xw_db st) @ new\<rparr>" "set new \<subseteq> index_row (ix_now env) ` set txs"
      "\<forall>tx \<in> set txs. \<exists>p \<in> set (payments (xw_db st1)). p_transaction_hash p = it_hash tx"
      "distinct (map p_id (payments (xw_db st))) \<Longrightarrow> distinct (map p_transaction_hash (payments (xw_db st))) \<Longrightarrow>
         distinct (map p_id (payments (xw_db st1))) \<and> distinct (map p_transaction_hash (payments (xw_db st1)))"
      "xw_heartbeat st1 = note_outcome env cfg (record_pass_success (ix_now env) nxt (int (length new))) (xw_heartbeat st)"
proof -
  obtain page ds w1 where page: "fetch_page (xc_policy cfg) rng source (xc_batch_size cfg) c (xw_world st) = (page, ds, w1)"
    by (metis prod_cases3)
  let ?parsed = "bind_ok page (\<lambda>(xs, nxt). bind_ok (traverse (parse_horizon_record env) xs) (\<lambda>txs. Inr (txs, nxt)))"
  show ?thesis
  proof (cases ?parsed)
    case (Inl e)
    with assms page failed [of e] show ?thesis by (auto simp: run_once_def)
  next
    case (Inr tn)
    then obtain xs nxt txs where p: "page = Inr (xs, nxt)" "traverse (parse_horizon_record env) xs = Inr txs" "tn = (txs, nxt)"
      by (auto simp: bind_ok_Inr split: prod.splits)
    obtain u db where up: "upsert_many (ix_now env) txs (xw_db st) = (u, db)" by fastforce
    from this show ?thesis
    proof (cases rule: upsert_many_cases)
      case (failed e)
      with assms page p up that(1) [of e] show ?thesis by (auto simp: run_once_def)
    next
      case (stored new)
      with assms page p up have "r = Inr \<lparr>ir_fetched = length txs, ir_inserted = length new, ir_next_cursor = nxt\<rparr>" "xw_db st1 = db"
        "xw_heartbeat st1 = note_outcome env cfg (record_pass_success (ix_now env) nxt (int (length new))) (xw_heartbeat st)"
        by (auto simp: run_once_def)
      with stored page p show ?thesis by (intro indexed [of xs nxt txs new]) simp_all
    qed
  qed
qed

text \<open>C31. Indexing respects the invariant of the payments: a pass never changes a stored payment, appends only confirmed rows that
  belong to no SLA result, and leaves every other table alone; hashes and ids stay unique.
\<close>

theorem indexing_keeps_payments_ok:
  assumes "run_once env cfg rng source c st = (r, st1)" "payments_ok (payments (xw_db st))"
  shows "payments_ok (payments (xw_db st1)) \<and>
         (\<exists>new. xw_db st1 = (xw_db st)\<lparr>payments := payments (xw_db st) @ new\<rparr> \<and>
            (\<forall>p \<in> set new. p_status p = ''confirmed'' \<and> p_sla_result_id p = None \<and> p_outage_id p = None))"
  using assms(1)
proof (cases rule: run_once_cases)
  case (failed e)
  with assms(2) show ?thesis by (intro conjI exI [of _ "[]"]) simp_all
next
  case (indexed xs nxt txs new)
  have rows: "payment_ok p \<and> p_status p = ''confirmed'' \<and> p_sla_result_id p = None \<and> p_outage_id p = None" if "p \<in> set new" for p
  proof -
    from that indexed(5) obtain tx where tx: "tx \<in> set txs" "p = index_row (ix_now env) tx" by blast
    with traverse_Inr_set [OF indexed(2)] parsed_amount_nonneg have "0 \<le> it_amount tx" by blast
    with tx(2) index_row_ok show ?thesis by (simp add: index_row_def)
  qed
  then have "list_all payment_ok (payments (xw_db st1))" "unique_key p_sla_result_id (payments (xw_db st1))"
    using assms(2) indexed(4) by (auto simp: payments_ok_def list_all_iff intro!: unique_key_append_None)
  with indexed(7) assms(2) have "payments_ok (payments (xw_db st1))" by (simp add: payments_ok_def)
  with rows indexed(4) show ?thesis by blast
qed

section \<open>The heartbeat tells the last pass\<close>

text \<open>What the code relies on: reading the printed time back gives the time.\<close>

definition iso_inverse :: "ix_env \<Rightarrow> bool" where
  "iso_inverse env \<longleftrightarrow> (\<forall>t. ix_iso env t \<noteq> [] \<and> CHR ''Z'' \<notin> set (ix_iso env t) \<and> ix_parse_iso env (ix_iso env t) = Some (Aware t))"

lemma zulu_plain: "CHR ''Z'' \<notin> set s \<Longrightarrow> zulu s = s"
  by (induction s) (auto simp: zulu_def replace_char_def)

lemma parse_iso_or_none: "iso_inverse env \<Longrightarrow> parse_timestamp env (Some (iso_or_none env v)) = v"
  by (cases v) (simp_all add: iso_or_none_def iso_inverse_def zulu_plain)

lemma text_of_opt: "text_of (Some (opt_text v)) = v"
  by (cases v) (simp_all add: opt_text_def)

lemma state_roundtrip:
  assumes "iso_inverse env" "0 \<le> xs_consecutive_failures s" "0 \<le> xs_last_inserted s"
  shows "from_dict env (to_dict env s) = s"
  using assms by (simp add: to_dict_def dict_get_def parse_iso_or_none text_of_opt)

lemma count_of_nonneg: "0 \<le> count_of v"
  by (cases v rule: count_of.cases) auto

lemma load_state_counts: "0 \<le> xs_consecutive_failures (load_state env up hb)" "0 \<le> xs_last_inserted (load_state env up hb)"
proof -
  have "0 \<le> xs_consecutive_failures (from_dict env d) \<and> 0 \<le> xs_last_inserted (from_dict env d)" for d
    by (cases d) (simp_all add: count_of_nonneg initial_state_def)
  then show "0 \<le> xs_consecutive_failures (load_state env up hb)" "0 \<le> xs_last_inserted (load_state env up hb)"
    by (auto simp: load_state_def initial_state_def split: option.split)
qed

lemma load_noted:
  assumes "iso_inverse env" "xc_recorder cfg = Some (True, True)" "0 < xc_state_ttl cfg"
    "f = record_pass_success (ix_now env) c (int n) \<or> f = record_pass_failure (ix_now env) err"
  shows "load_state env True (note_outcome env cfg f hb) = f (load_state env True hb)"
proof -
  let ?s = "f (load_state env True hb)"
  have "0 \<le> xs_consecutive_failures ?s" "0 \<le> xs_last_inserted ?s"
    using assms(4) load_state_counts [of env True hb] by (auto simp: record_pass_success_def record_pass_failure_def)
  with state_roundtrip [OF assms(1)] assms(2,3) show ?thesis
    by (simp add: note_outcome_def store_update_def save_state_def load_state_def)
qed

lemma health_status:
  "hr_status (build_indexer_health s t max_lag ok err) =
     (if \<not> ok then ''down''
      else if xs_last_success_at s = None \<or> xs_consecutive_failures s > 0 \<or> (\<exists>u. xs_last_success_at s = Some u \<and> max (t - u) 0 > max_lag)
      then ''degraded'' else ''ok'')"
  by (auto simp: build_indexer_health_def Let_def)

lemma indexer_health_up:
  "fst (indexer_health env up max_lag (Inr ()) hb) = 200"
  "snd (indexer_health env up max_lag (Inr ()) hb) = build_indexer_health (load_state env up hb) (ix_now env) max_lag True None"
  "fst (indexer_health env up max_lag (Inl e) hb) = 503"
  by (simp_all add: indexer_health_def database_status_def Let_def health_status)

text \<open>When Redis answers, the heartbeat and the probe tell what the last pass did: a failed pass leaves the database as it was
  and is counted, with the last success and the cursor kept, and the probe says degraded; a successful one stores the cursor
  and the number of new rows, resets the count and the probe says ok.  Only an unreachable database gives 503.
\<close>

theorem probe_shows_last_pass:
  assumes "iso_inverse env" "xc_recorder cfg = Some (True, True)" "0 < xc_state_ttl cfg" "0 \<le> max_lag"
    and "run_once env cfg rng source c st = (r, st1)"
  shows "(case r of
            Inl e \<Rightarrow> xw_db st1 = xw_db st \<and>
              load_state env True (xw_heartbeat st1) = record_pass_failure (ix_now env) (ix_exc_text env e) (load_state env True (xw_heartbeat st))
          | Inr res \<Rightarrow> length (payments (xw_db st1)) = length (payments (xw_db st)) + ir_inserted res \<and>
              load_state env True (xw_heartbeat st1) =
                record_pass_success (ix_now env) (ir_next_cursor res) (int (ir_inserted res)) (load_state env True (xw_heartbeat st))) \<and>
         fst (indexer_health env True max_lag (Inr ()) (xw_heartbeat st1)) = 200 \<and>
         hr_status (snd (indexer_health env True max_lag (Inr ()) (xw_heartbeat st1))) = (if isl r then ''degraded'' else ''ok'') \<and>
         fst (indexer_health env up max_lag (Inl e1) (xw_heartbeat st1)) = 503"
  using assms(5)
proof (cases rule: run_once_cases)
  case (failed e)
  have l: "load_state env True (xw_heartbeat st1) = record_pass_failure (ix_now env) (ix_exc_text env e) (load_state env True (xw_heartbeat st))"
    unfolding failed(3) by (rule load_noted [OF assms(1-3), where err = "ix_exc_text env e"]) simp
  with failed(1,2) load_state_counts(1) [of env True "xw_heartbeat st"] show ?thesis
    by (simp add: indexer_health_up health_status) (simp add: record_pass_failure_def)
next
  case (indexed xs nxt txs new)
  have l: "load_state env True (xw_heartbeat st1) = record_pass_success (ix_now env) nxt (int (length new)) (load_state env True (xw_heartbeat st))"
    unfolding indexed(8) by (rule load_noted [OF assms(1-3), where c = nxt and n = "length new"]) simp
  with indexed(3,4) assms(4) show ?thesis
    by (simp add: indexer_health_up health_status) (simp add: record_pass_success_def)
qed

section \<open>Nothing is left out\<close>

text \<open>A stream of payments with its paging tokens: what follows a cursor, and the cursor after \<open>m\<close> payments.\<close>

definition payments_after :: "(pyval \<Rightarrow> str) \<Rightarrow> str option \<Rightarrow> pyval list \<Rightarrow> pyval list" where
  "payments_after tok c xs = (case c of None \<Rightarrow> xs | Some k \<Rightarrow> tl (dropWhile (\<lambda>x. tok x \<noteq> k) xs))"

definition token_at :: "(pyval \<Rightarrow> str) \<Rightarrow> pyval list \<Rightarrow> nat \<Rightarrow> str option" where
  "token_at tok xs m = (if m = 0 then None else Some (tok (xs ! (m - 1))))"

lemma payments_after_token:
  assumes "distinct (map tok xs)" "m \<le> length xs"
  shows "payments_after tok (token_at tok xs m) xs = drop m xs"
proof (cases m)
  case (Suc k)
  with assms(2) have split: "xs = take k xs @ xs ! k # drop m xs" by (simp add: id_take_nth_drop)
  have "tok x \<noteq> tok (xs ! k)" if "x \<in> set (take k xs)" for x
    using that assms Suc by (auto simp: in_set_conv_nth distinct_conv_nth)
  then have "dropWhile (\<lambda>x. tok x \<noteq> tok (xs ! k)) (take k xs @ xs ! k # drop m xs) = xs ! k # drop m xs"
    by (subst dropWhile_append2) auto
  with split Suc show ?thesis by (simp add: payments_after_def token_at_def)
qed (simp add: payments_after_def token_at_def)

text \<open>A scheduler that carries the cursor of a successful pass forward and repeats a failed one.\<close>

fun run_passes ::
  "ix_cfg \<Rightarrow> (nat \<Rightarrow> rat) \<Rightarrow> 'w payment_source \<Rightarrow> ix_env list \<Rightarrow> str option \<Rightarrow> 'w ix_state \<Rightarrow> str option \<times> 'w ix_state" where
  "run_passes cfg rng source [] c st = (c, st)"
| "run_passes cfg rng source (env # es) c st =
     (case run_once env cfg rng source c st of
        (Inl e, st1) \<Rightarrow> run_passes cfg rng source es c st1
      | (Inr res, st1) \<Rightarrow> run_passes cfg rng source es (ir_next_cursor res) st1)"

lemma insert_rows_total:
  assumes "\<forall>r \<in> set rs. fits_columns r"
    "\<forall>p \<in> set tbl \<union> set rs. \<forall>r \<in> set rs. p_id p = p_id r \<longrightarrow> p_transaction_hash p = p_transaction_hash r"
  shows "\<exists>tbl1 n. insert_rows tbl rs = Inr (tbl1, n)"
  using assms
proof (induction tbl rs rule: insert_rows.induct)
  case (2 tbl r rs)
  have fit: "fits_columns r" "\<forall>r \<in> set rs. fits_columns r" using "2.prems"(1) by simp_all
  have keys: "\<forall>p \<in> set tbl \<union> set rs. \<forall>r \<in> set rs. p_id p = p_id r \<longrightarrow> p_transaction_hash p = p_transaction_hash r"
    "\<forall>p \<in> set (tbl @ [r]) \<union> set rs. \<forall>r \<in> set rs. p_id p = p_id r \<longrightarrow> p_transaction_hash p = p_transaction_hash r"
    using "2.prems"(2) unfolding set_append list.set by blast+
  show ?case
  proof (cases "list_ex (\<lambda>p. p_transaction_hash p = p_transaction_hash r) tbl")
    case True
    with "2.IH"(1) [OF _ True fit(2) keys(1)] fit(1) show ?thesis by simp
  next
    case False
    have no: "\<not> list_ex (\<lambda>p. p_id p = p_id r) tbl"
    proof
      assume "list_ex (\<lambda>p. p_id p = p_id r) tbl"
      then obtain p where "p \<in> set tbl" "p_id p = p_id r" by (auto simp: list_ex_iff)
      with "2.prems"(2) False show False unfolding list_ex_iff by (metis UnI1 list.set_intros(1))
    qed
    obtain tbl1 n where "insert_rows (tbl @ [r]) rs = Inr (tbl1, n)"
      using "2.IH"(2) [OF _ False no fit(2) keys(2)] fit(1) by blast
    with False no fit(1) show ?thesis by simp
  qed
qed simp

definition steady :: "(pyval \<Rightarrow> str) \<Rightarrow> pyval list \<Rightarrow> payment_row list \<Rightarrow> bool" where
  "steady hash chain tbl \<longleftrightarrow> (\<forall>p \<in> set tbl. \<forall>x \<in> set chain. p_id p = ''txidx_'' @ take 24 (hash x) \<longrightarrow> p_transaction_hash p = hash x)"

definition storable :: "ix_env \<Rightarrow> (pyval \<Rightarrow> str) \<Rightarrow> pyval \<Rightarrow> bool" where
  "storable env hash x \<longleftrightarrow>
     (\<exists>tx. parse_horizon_record env x = Inr tx \<and> it_hash tx = hash x \<and> bindable tx \<and> fits_columns (index_row (ix_now env) tx))"

lemma traverse_storable:
  assumes "\<forall>x \<in> set xs. storable env hash x"
  shows "\<exists>txs. traverse (parse_horizon_record env) xs = Inr txs \<and> map it_hash txs = map hash xs \<and>
           list_all bindable txs \<and> (\<forall>tx \<in> set txs. fits_columns (index_row (ix_now env) tx))"
  using assms
proof (induction xs)
  case (Cons x xs)
  then obtain txs where "traverse (parse_horizon_record env) xs = Inr txs" "map it_hash txs = map hash xs" "list_all bindable txs"
    "\<forall>tx \<in> set txs. fits_columns (index_row (ix_now env) tx)" by auto
  moreover from Cons.prems obtain tx where "parse_horizon_record env x = Inr tx" "it_hash tx = hash x" "bindable tx"
    "fits_columns (index_row (ix_now env) tx)" by (auto simp: storable_def)
  ultimately show ?case by (intro exI [of _ "tx # txs"]) simp
qed simp

lemma pass_succeeds:
  assumes valid: "retry_policy_valid (xc_policy cfg)"
    and reply: "\<exists>k. int k < rp_max_attempts (xc_policy cfg) \<and> (\<forall>i < k. transient (nth_try (source c (xc_batch_size cfg)) i (xw_world st))) \<and>
      nth_try (source c (xc_batch_size cfg)) k (xw_world st) = Inr \<lparr>fp_records = PList xs, fp_next_cursor = nxt\<rparr>"
    and ok: "\<forall>x \<in> set xs. storable env hash x" "set xs \<subseteq> set chain"
    and sep: "\<forall>x \<in> set chain. \<forall>y \<in> set chain. take 24 (hash x) = take 24 (hash y) \<longrightarrow> hash x = hash y"
    and st: "steady hash chain (payments (xw_db st))"
  shows "\<exists>res st1. run_once env cfg rng source c st = (Inr res, st1) \<and> ir_next_cursor res = nxt \<and>
           steady hash chain (payments (xw_db st1)) \<and>
           hash ` set xs \<union> p_transaction_hash ` set (payments (xw_db st)) \<subseteq> p_transaction_hash ` set (payments (xw_db st1))"
proof -
  let ?fn = "source c (xc_batch_size cfg)"
  obtain k where k: "int k < rp_max_attempts (xc_policy cfg)" "\<forall>i < k. transient (nth_try ?fn i (xw_world st))"
    "nth_try ?fn k (xw_world st) = Inr \<lparr>fp_records = PList xs, fp_next_cursor = nxt\<rparr>" using reply by blast
  obtain r ds w1 where call: "retry_call (xc_policy cfg) rng ?fn (xw_world st) = (r, ds, w1)" by (metis prod_cases3)
  note spec = retry_from_spec [OF valid call [unfolded retry_call_def], unfolded add_0]
  have pos: "int 0 < rp_max_attempts (xc_policy cfg)" using valid by (simp add: retry_policy_valid_def)
  have not: "\<not> transient (nth_try ?fn k (xw_world st))" using k(3) by (simp add: transient_def)
  have "length ds = k"
  proof (rule linorder_cases [of "length ds" k])
    assume "length ds < k"
    with k(2) spec [OF pos] k(1) show ?thesis by (auto split: if_splits)
  next
    assume "k < length ds"
    with spec [OF pos] not show ?thesis by blast
  qed
  with spec [OF pos] not k(3) have "r = Inr \<lparr>fp_records = PList xs, fp_next_cursor = nxt\<rparr>" by simp
  with call have page: "fetch_page (xc_policy cfg) rng source (xc_batch_size cfg) c (xw_world st) = (Inr (xs, nxt), ds, w1)"
    by (simp add: fetch_page_def)
  obtain txs where txs: "traverse (parse_horizon_record env) xs = Inr txs" "map it_hash txs = map hash xs" "list_all bindable txs"
    "\<forall>tx \<in> set txs. fits_columns (index_row (ix_now env) tx)" using traverse_storable [OF ok(1)] by blast
  have hashes: "it_hash ` set txs = hash ` set xs" using txs(2) by (metis list.set_map)
  then have named: "\<exists>x \<in> set chain. it_hash tx = hash x" if "tx \<in> set txs" for tx using that ok(2) by (metis image_iff subsetD)
  have "\<exists>tbl n. insert_rows (payments (xw_db st)) (map (index_row (ix_now env)) txs) = Inr (tbl, n)"
  proof (rule insert_rows_total)
    show "\<forall>r \<in> set (map (index_row (ix_now env)) txs). fits_columns r" using txs(4) by simp
    show "\<forall>p \<in> set (payments (xw_db st)) \<union> set (map (index_row (ix_now env)) txs).
      \<forall>r \<in> set (map (index_row (ix_now env)) txs). p_id p = p_id r \<longrightarrow> p_transaction_hash p = p_transaction_hash r"
    proof (intro ballI impI)
      fix p r
      assume p: "p \<in> set (payments (xw_db st)) \<union> set (map (index_row (ix_now env)) txs)"
        and r: "r \<in> set (map (index_row (ix_now env)) txs)" and eq: "p_id p = p_id r"
      from r obtain tx where tx: "tx \<in> set txs" "r = index_row (ix_now env) tx" by auto
      obtain y where y: "y \<in> set chain" "it_hash tx = hash y" using named [OF tx(1)] by blast
      from p show "p_transaction_hash p = p_transaction_hash r"
      proof
        assume "p \<in> set (payments (xw_db st))"
        with st eq tx(2) y show ?thesis unfolding steady_def by (simp add: indexed_id_def)
      next
        assume "p \<in> set (map (index_row (ix_now env)) txs)"
        then obtain tx' where tx': "tx' \<in> set txs" "p = index_row (ix_now env) tx'" by auto
        obtain x where "x \<in> set chain" "it_hash tx' = hash x" using named [OF tx'(1)] by blast
        with sep y eq tx(2) tx'(2) show ?thesis by (simp add: indexed_id_def)
      qed
    qed
  qed
  then have "\<exists>n db. upsert_many (ix_now env) txs (xw_db st) = (Inr n, db)"
    using txs(3) by (auto simp: upsert_many_def)
  then obtain res st1 where run: "run_once env cfg rng source c st = (Inr res, st1)" using page txs(1) by (auto simp: run_once_def)
  from this show ?thesis
  proof (cases rule: run_once_cases)
    case (indexed xs1 nxt1 txs1 new)
    with page txs(1) have same: "nxt1 = nxt" "txs1 = txs" by simp_all
    have "steady hash chain new"
      unfolding steady_def
    proof (intro ballI impI)
      fix p x
      assume "p \<in> set new" and x: "x \<in> set chain" and eq: "p_id p = ''txidx_'' @ take 24 (hash x)"
      then obtain tx where tx: "tx \<in> set txs" "p = index_row (ix_now env) tx" using indexed(5) same(2) by blast
      obtain y where "y \<in> set chain" "it_hash tx = hash y" using named [OF tx(1)] by blast
      with sep x eq tx(2) show "p_transaction_hash p = hash x" by (simp add: indexed_id_def)
    qed
    with st indexed(4) have "steady hash chain (payments (xw_db st1))" by (auto simp: steady_def)
    moreover have "it_hash ` set txs \<subseteq> p_transaction_hash ` set (payments (xw_db st1))" using indexed(6) same(2) by force
    ultimately show ?thesis using run indexed(3,4) same(1) hashes by auto
  qed simp
qed

lemma run_passes_from:
  assumes valid: "retry_policy_valid (xc_policy cfg)" "0 < xc_batch_size cfg"
    and chain: "distinct (map tok chain)" "\<forall>x \<in> set chain. tok x \<noteq> []"
    and answers: "\<And>c w. c \<noteq> Some [] \<Longrightarrow> \<exists>k. int k < rp_max_attempts (xc_policy cfg) \<and>
      (\<forall>i < k. transient (nth_try (source c (xc_batch_size cfg)) i w)) \<and>
      nth_try (source c (xc_batch_size cfg)) k w =
        (let xs = take (nat (xc_batch_size cfg)) (payments_after tok c chain) in
         Inr \<lparr>fp_records = PList xs, fp_next_cursor = (if xs = [] then c else Some (tok (last xs)))\<rparr>)"
    and sep: "\<forall>x \<in> set chain. \<forall>y \<in> set chain. take 24 (hash x) = take 24 (hash y) \<longrightarrow> hash x = hash y"
  shows "\<forall>env \<in> set es. \<forall>x \<in> set chain. storable env hash x \<Longrightarrow> steady hash chain (payments (xw_db st)) \<Longrightarrow> m \<le> length chain \<Longrightarrow>
    hash ` set (take m chain) \<subseteq> p_transaction_hash ` set (payments (xw_db st)) \<Longrightarrow>
    run_passes cfg rng source es (token_at tok chain m) st = (c1, st1) \<Longrightarrow>
    hash ` set (take (m + length es * nat (xc_batch_size cfg)) chain) \<subseteq> p_transaction_hash ` set (payments (xw_db st1)) \<and>
    c1 = token_at tok chain (min (length chain) (m + length es * nat (xc_batch_size cfg)))"
proof (induction es arbitrary: st m)
  case Nil
  then show ?case by (simp add: min_def)
next
  case (Cons env es)
  let ?b = "nat (xc_batch_size cfg)" and ?c = "token_at tok chain m"
  let ?xs = "take ?b (drop m chain)" and ?m = "min (length chain) (m + ?b)"
  have c: "?c \<noteq> Some []" using chain(2) Cons.prems(3) by (auto simp: token_at_def)
  have nxt: "(if ?xs = [] then ?c else Some (tok (last ?xs))) = token_at tok chain ?m"
  proof (cases "?xs = []")
    case True
    then have "m = length chain" using valid(2) Cons.prems(3) by auto
    with True show ?thesis by (simp add: min_def)
  next
    case False
    then have "m < length chain" using valid(2) by auto
    moreover have "last ?xs = chain ! (?m - 1)"
      using False Cons.prems(3) by (simp add: last_conv_nth min_def) (auto simp: algebra_simps)
    ultimately show ?thesis using False valid(2) by (auto simp: token_at_def)
  qed
  have sub: "set ?xs \<subseteq> set chain" by (meson set_drop_subset set_take_subset subset_trans)
  have "\<exists>res st2. run_once env cfg rng source ?c st = (Inr res, st2) \<and> ir_next_cursor res = token_at tok chain ?m \<and>
      steady hash chain (payments (xw_db st2)) \<and>
      hash ` set ?xs \<union> p_transaction_hash ` set (payments (xw_db st)) \<subseteq> p_transaction_hash ` set (payments (xw_db st2))"
  proof (rule pass_succeeds [OF valid(1) _ _ sub sep Cons.prems(2)])
    show "\<exists>k. int k < rp_max_attempts (xc_policy cfg) \<and>
      (\<forall>i < k. transient (nth_try (source ?c (xc_batch_size cfg)) i (xw_world st))) \<and>
      nth_try (source ?c (xc_batch_size cfg)) k (xw_world st) = Inr \<lparr>fp_records = PList ?xs, fp_next_cursor = token_at tok chain ?m\<rparr>"
      using answers [OF c, of "xw_world st"] unfolding payments_after_token [OF chain(1) Cons.prems(3)] Let_def nxt .
    show "\<forall>x \<in> set ?xs. storable env hash x" using Cons.prems(1) sub by auto
  qed
  then obtain res st2 where run: "run_once env cfg rng source ?c st = (Inr res, st2)" "ir_next_cursor res = token_at tok chain ?m"
    and st2: "steady hash chain (payments (xw_db st2))"
      "hash ` set ?xs \<union> p_transaction_hash ` set (payments (xw_db st)) \<subseteq> p_transaction_hash ` set (payments (xw_db st2))" by blast
  have "take ?m chain = take m chain @ ?xs" by (simp add: min_def take_add [symmetric])
  then have "hash ` set (take ?m chain) \<subseteq> p_transaction_hash ` set (payments (xw_db st2))"
    using st2(2) Cons.prems(4) unfolding \<open>take ?m chain = _\<close> set_append image_Un by (meson Un_subset_iff subset_trans)
  moreover have "run_passes cfg rng source es (token_at tok chain ?m) st2 = (c1, st1)" using Cons.prems(5) run by simp
  ultimately have "hash ` set (take (?m + length es * ?b) chain) \<subseteq> p_transaction_hash ` set (payments (xw_db st1)) \<and>
      c1 = token_at tok chain (min (length chain) (?m + length es * ?b))"
    using Cons.IH [of st2 ?m] Cons.prems(1) st2(1) by simp
  moreover have "take (?m + length es * ?b) chain = take (m + length (env # es) * ?b) chain"
    "min (length chain) (?m + length es * ?b) = min (length chain) (m + length (env # es) * ?b)" by (auto simp: min_def add.assoc)
  ultimately show ?case by simp
qed

text \<open>Nothing of the stream is left out: with a source that answers within the allowed attempts with the payments after the
  cursor, records that fit the table, and hashes that differ in their first 24 characters, the hashes of the first \<open>n\<close>
  pages are stored after \<open>n\<close> passes, and the cursor stands behind them.
\<close>

theorem indexer_catches_up:
  assumes "retry_policy_valid (xc_policy cfg)" "0 < xc_batch_size cfg" "distinct (map tok chain)" "\<forall>x \<in> set chain. tok x \<noteq> []"
    and "\<And>c w. c \<noteq> Some [] \<Longrightarrow> \<exists>k. int k < rp_max_attempts (xc_policy cfg) \<and>
      (\<forall>i < k. transient (nth_try (source c (xc_batch_size cfg)) i w)) \<and>
      nth_try (source c (xc_batch_size cfg)) k w =
        (let xs = take (nat (xc_batch_size cfg)) (payments_after tok c chain) in
         Inr \<lparr>fp_records = PList xs, fp_next_cursor = (if xs = [] then c else Some (tok (last xs)))\<rparr>)"
    and "\<forall>x \<in> set chain. \<forall>y \<in> set chain. take 24 (hash x) = take 24 (hash y) \<longrightarrow> hash x = hash y"
    and "\<forall>env \<in> set es. \<forall>x \<in> set chain. storable env hash x" "steady hash chain (payments (xw_db st))"
    and "run_passes cfg rng source es None st = (c1, st1)"
  shows "hash ` set (take (length es * nat (xc_batch_size cfg)) chain) \<subseteq> p_transaction_hash ` set (payments (xw_db st1)) \<and>
         c1 = token_at tok chain (min (length chain) (length es * nat (xc_batch_size cfg)))"
  using run_passes_from [of cfg tok chain source hash es st 0 rng c1 st1, OF assms(1-6)] assms(7-9) by (simp add: token_at_def)

text \<open>
  The index has one row per transaction, not per payment: of two payments in one transaction, which Horizon lists as two
  records with the same hash, only the first is stored, and the second is counted as already indexed.
\<close>

theorem second_payment_of_transaction_lost:
  assumes "it_hash a = it_hash b" "\<forall>p \<in> set (payments db). p_transaction_hash p \<noteq> it_hash a"
    and "upsert_many t [a, b] db = (Inr n, db1)"
  shows "n = 1 \<and> payments db1 = payments db @ [index_row t a]"
proof -
  have "\<not> list_ex (\<lambda>p. p_transaction_hash p = it_hash a) (payments db)" using assms(2) by (auto simp: list_ex_iff)
  with assms(1,3) show ?thesis
    by (auto simp: upsert_many_def bind_ok_Inr split: if_splits sum.splits prod.splits)
qed

section \<open>Concrete runs\<close>

lemma decimal_digits: "decimal_value (digits_of n) = n"
proof (induction n rule: digits_of.induct)
  case (1 n)
  have d: "decimal_value [char_of (48 + k)] = k" if "k < 10" for k :: nat using that by (simp add: decimal_value_def)
  show ?case
  proof (cases "n < 10")
    case True
    with d show ?thesis by (simp add: digits_of.simps [of n])
  next
    case False
    with 1 d [of "n mod 10"] show ?thesis by (simp add: digits_of.simps [of n] decimal_value_append)
  qed
qed

definition sample_parse_iso :: "str \<Rightarrow> datetime option" where
  "sample_parse_iso s =
     (case signed_part s of (neg, ds) \<Rightarrow> Some (Aware (if neg then - int (decimal_value ds) else int (decimal_value ds))))"

definition sample_ix_env :: "time \<Rightarrow> ix_env" where
  "sample_ix_env t = \<lparr>ix_now = t, ix_repr_float = (\<lambda>_. ''0.5''), ix_repr_other = (\<lambda>_. ''?''), ix_parse_iso = sample_parse_iso,
     ix_iso = py_str_int, ix_exc_text = (\<lambda>_. ''error'')\<rparr>"

lemma sample_iso_inverse: "iso_inverse (sample_ix_env t)"
proof -
  have z: "CHR ''Z'' \<notin> set (digits_of n)" "hd (digits_of n) \<noteq> CHR ''-'' \<and> hd (digits_of n) \<noteq> CHR ''+''" for n
    using digits_of_digits [of _ n] hd_in_set [OF digits_of_nonempty] by force+
  have "sample_parse_iso (py_str_int u) = Some (Aware u)" for u
  proof (cases "u < 0")
    case True
    then show ?thesis by (simp add: sample_parse_iso_def py_str_int_def signed_part_def decimal_digits)
  next
    case False
    have "signed_part (digits_of (nat u)) = (False, digits_of (nat u))"
      using z(2) [of "nat u"] by (auto simp: signed_part_def split: list.split)
    with False show ?thesis by (simp add: sample_parse_iso_def py_str_int_def decimal_digits)
  qed
  then show ?thesis using z(1) by (auto simp: iso_inverse_def sample_ix_env_def py_str_int_def digits_of_nonempty)
qed

definition sample_record :: "str \<Rightarrow> str \<Rightarrow> pyval" where
  "sample_record token h = PDict [(PStr ''paging_token'', PStr token), (PStr ''transaction_hash'', PStr h), (PStr ''amount'', PStr ''12.5''),
     (PStr ''from'', PStr ''GA''), (PStr ''to'', PStr ''GB''), (PStr ''created_at'', PStr ''7'')]"

definition sample_stream :: "pyval list" where
  "sample_stream = [sample_record ''t1'' ''aa'', sample_record ''t2'' ''bb'', sample_record ''t3'' ''cc'']"

definition field_text :: "str \<Rightarrow> pyval \<Rightarrow> str" where
  "field_text k x = (case x of PDict d \<Rightarrow> (case dict_get d k of Some (PStr s) \<Rightarrow> s | _ \<Rightarrow> []) | _ \<Rightarrow> [])"

text \<open>A Horizon that drops every second connection and otherwise answers with the payments after the cursor.\<close>

fun flaky_payments :: "str \<times> (str \<times> str) list \<Rightarrow> nat \<Rightarrow> horizon_answer \<times> nat" where
  "flaky_payments (url, params) w =
     (if even w then (ConnectionProblem, Suc w)
      else (Answered 200 (Some (PDict [(PStr ''_embedded'', PDict [(PStr ''records'',
              PList (take 2 (payments_after (field_text ''paging_token'') (map_of params ''cursor'') sample_stream)))])])), Suc w))"

definition sample_ix_cfg :: ix_cfg where
  "sample_ix_cfg = \<lparr>xc_policy = \<lparr>rp_max_attempts = 4, rp_base_delay = 1, rp_max_delay = 8, rp_jitter_ratio = 1/2\<rparr>, xc_batch_size = 2,
     xc_recorder = Some (True, True), xc_state_ttl = 60\<rparr>"

abbreviation sample_payments_source :: "nat payment_source" where
  "sample_payments_source \<equiv> fetch_payments (sample_ix_env 0) ''https://horizon.example/'' flaky_payments"

definition sample_ix_state :: "nat ix_state" where
  "sample_ix_state = \<lparr>xw_world = 0, xw_db = empty_database, xw_heartbeat = None\<rparr>"

lemma sample_policy_valid: "retry_policy_valid (xc_policy sample_ix_cfg)"
  by (simp add: retry_policy_valid_def sample_ix_cfg_def)

theorem stroops_exact_witness: "to_stroops (sample_ix_env 0) (PStr ''922337203685.4775807'') = Inr 9223372036854775807"
  using stroops_exact [of "''922337203685''" "''4775807''" "sample_ix_env 0"]
  by (simp add: is_digit_def decimal_value_def)

theorem retries_follow_policy_witness:
  "\<exists>r ds w1. retry_call (xc_policy sample_ix_cfg) (\<lambda>_. 1/2) (sample_payments_source None 2) 0 = (r, ds, w1) \<and> length ds < 4 \<and>
     (\<forall>d \<in> set ds. 0 \<le> d \<and> d \<le> 8)"
proof -
  obtain r ds w1 where c: "retry_call (xc_policy sample_ix_cfg) (\<lambda>_. 1/2) (sample_payments_source None 2) 0 = (r, ds, w1)"
    by (metis prod_cases3)
  with retries_follow_policy [OF sample_policy_valid c] show ?thesis by (auto simp: sample_ix_cfg_def)
qed

definition sample_tx :: indexed_tx where
  "sample_tx = \<lparr>it_hash = ''aa'', it_type = ''payment'', it_amount = 5, it_asset_code = ''XLM'', it_from_address = ''GA'', it_to_address = ''GB'',
     it_created_at = 7\<rparr>"

lemma sample_upsert: "upsert_many 9 [sample_tx] empty_database = (Inr 1, empty_database\<lparr>payments := [index_row 9 sample_tx]\<rparr>)"
  by code_simp

theorem reindexing_inserts_nothing_witness:
  "upsert_many 10 [sample_tx, sample_tx] (empty_database\<lparr>payments := [index_row 9 sample_tx]\<rparr>) =
     (Inr 0, empty_database\<lparr>payments := [index_row 9 sample_tx]\<rparr>)"
  by (rule reindexing_inserts_nothing [OF sample_upsert]) simp

theorem second_payment_of_transaction_lost_witness:
  "\<exists>db1. upsert_many 9 [sample_tx, sample_tx\<lparr>it_amount := 7\<rparr>] empty_database = (Inr 1, db1) \<and> payments db1 = [index_row 9 sample_tx]"
proof -
  have "fst (upsert_many 9 [sample_tx, sample_tx\<lparr>it_amount := 7\<rparr>] empty_database) = Inr 1" by code_simp
  then obtain db1 where u: "upsert_many 9 [sample_tx, sample_tx\<lparr>it_amount := 7\<rparr>] empty_database = (Inr 1, db1)"
    by (metis prod.collapse)
  have "payments empty_database = []" by (simp add: empty_database_def)
  with second_payment_of_transaction_lost [OF _ _ u] u show ?thesis by simp
qed

theorem indexing_keeps_payments_ok_witness:
  "\<exists>r st1. run_once (sample_ix_env 9) sample_ix_cfg (\<lambda>_. 1/2) sample_payments_source None sample_ix_state = (r, st1) \<and>
     payments_ok (payments (xw_db st1))"
proof -
  obtain r st1 where r: "run_once (sample_ix_env 9) sample_ix_cfg (\<lambda>_. 1/2) sample_payments_source None sample_ix_state = (r, st1)" by fastforce
  have "payments_ok (payments (xw_db sample_ix_state))" by (simp add: sample_ix_state_def empty_database_def payments_ok_def)
  with indexing_keeps_payments_ok [OF r] r show ?thesis by blast
qed

theorem probe_shows_last_pass_witness:
  "\<exists>r st1. run_once (sample_ix_env 9) sample_ix_cfg (\<lambda>_. 1/2) sample_payments_source None sample_ix_state = (r, st1) \<and>
     fst (indexer_health (sample_ix_env 9) True 300 (Inr ()) (xw_heartbeat st1)) = 200"
proof -
  obtain r st1 where r: "run_once (sample_ix_env 9) sample_ix_cfg (\<lambda>_. 1/2) sample_payments_source None sample_ix_state = (r, st1)" by fastforce
  have "xc_recorder sample_ix_cfg = Some (True, True)" "0 < xc_state_ttl sample_ix_cfg" by (simp_all add: sample_ix_cfg_def)
  from probe_shows_last_pass [OF sample_iso_inverse this, of 300, OF _ r] r show ?thesis by auto
qed

lemma sample_answers:
  assumes "c \<noteq> Some []"
  shows "\<exists>k. int k < rp_max_attempts (xc_policy sample_ix_cfg) \<and>
      (\<forall>i < k. transient (nth_try (sample_payments_source c (xc_batch_size sample_ix_cfg)) i w)) \<and>
      nth_try (sample_payments_source c (xc_batch_size sample_ix_cfg)) k w =
        (let xs = take (nat (xc_batch_size sample_ix_cfg)) (payments_after (field_text ''paging_token'') c sample_stream) in
         Inr \<lparr>fp_records = PList xs, fp_next_cursor = (if xs = [] then c else Some (field_text ''paging_token'' (last xs)))\<rparr>)"
proof -
  let ?src = "sample_payments_source c 2" and ?xs = "take 2 (payments_after (field_text ''paging_token'') c sample_stream)"
  have sub: "set ?xs \<subseteq> set sample_stream"
  proof -
    have "set (payments_after (field_text ''paging_token'') c sample_stream) \<subseteq> set sample_stream"
    proof (cases c)
      case (Some k)
      let ?d = "dropWhile (\<lambda>x. field_text ''paging_token'' x \<noteq> k) sample_stream"
      have "set (tl l) \<subseteq> set l" for l :: "pyval list" by (cases l) auto
      then have "set (tl ?d) \<subseteq> set ?d" .
      also have "\<dots> \<subseteq> set sample_stream" by (auto dest: set_dropWhileD)
      finally show ?thesis using Some by (simp add: payments_after_def)
    qed (simp add: payments_after_def)
    then show ?thesis by (rule subset_trans [OF set_take_subset])
  qed
  have param: "map_of (snd (payments_request base c 2)) ''cursor'' = c" for base
    using assms by (cases c) (auto simp: payments_request_def)
  have last: "\<exists>h. last ?xs = sample_record (field_text ''paging_token'' (last ?xs)) h \<and> field_text ''paging_token'' (last ?xs) \<noteq> []" if "?xs \<noteq> []"
    using last_in_set [OF that] sub by (auto simp: sample_stream_def field_text_def sample_record_def dict_get_def)
  have read: "read_page (sample_ix_env 0) c (PDict [(PStr ''_embedded'', PDict [(PStr ''records'', PList ?xs)])]) =
      Inr \<lparr>fp_records = PList ?xs, fp_next_cursor = (if ?xs = [] then c else Some (field_text ''paging_token'' (last ?xs)))\<rparr>"
  proof (cases "?xs = []")
    case True
    with assms show ?thesis by (cases c) (auto simp: read_page_def dict_get_def opt_text_def)
  next
    case False
    obtain h where "last ?xs = sample_record (field_text ''paging_token'' (last ?xs)) h" "field_text ''paging_token'' (last ?xs) \<noteq> []"
      using last [OF False] by blast
    moreover have "page_token c (PList l) = Inr (PStr k)" if "l \<noteq> []" "last l = sample_record k h" for l k
      using that by (simp add: sample_record_def dict_get_def)
    ultimately have "page_token c (PList ?xs) = Inr (PStr (field_text ''paging_token'' (last ?xs)))" using False by blast
    with False \<open>field_text _ _ \<noteq> []\<close> show ?thesis by (simp add: read_page_def dict_get_def del: page_token.simps)
  qed
  have odd: "?src v = (Inr \<lparr>fp_records = PList ?xs, fp_next_cursor = (if ?xs = [] then c else Some (field_text ''paging_token'' (last ?xs)))\<rparr>, Suc v)"
    if "odd v" for v
  proof -
    let ?q = "payments_request ''https://horizon.example/'' c 2"
    have "flaky_payments ?q v = (Answered 200 (Some (PDict [(PStr ''_embedded'', PDict [(PStr ''records'', PList ?xs)])])), Suc v)"
      using flaky_payments.simps [of "fst ?q" "snd ?q" v] param that by simp
    then show ?thesis unfolding fetch_payments_def by (simp add: read)
  qed
  have even: "?src v = (Inl TransportFailure, Suc v)" if "even v" for v
    using that by (simp add: fetch_payments_def payments_request_def)
  show ?thesis
  proof (cases "even w")
    case True
    with even odd [of "Suc w"] show ?thesis
      by (intro exI [of _ 1]) (simp add: sample_ix_cfg_def transient_def Let_def)
  next
    case False
    with odd [of w] show ?thesis by (intro exI [of _ 0]) (simp add: sample_ix_cfg_def Let_def)
  qed
qed

theorem indexer_catches_up_witness:
  "\<exists>c1 st1. run_passes sample_ix_cfg (\<lambda>_. 1/2) sample_payments_source [sample_ix_env 9, sample_ix_env 10] None sample_ix_state = (c1, st1) \<and>
     {''aa'', ''bb'', ''cc''} \<subseteq> p_transaction_hash ` set (payments (xw_db st1)) \<and> c1 = Some ''t3''"
proof -
  let ?tok = "field_text ''paging_token''" and ?hash = "field_text ''transaction_hash''"
  obtain c1 st1 where run: "run_passes sample_ix_cfg (\<lambda>_. 1/2) sample_payments_source [sample_ix_env 9, sample_ix_env 10] None sample_ix_state = (c1, st1)"
    by fastforce
  have t: "map ?tok sample_stream = [''t1'', ''t2'', ''t3'']" "map ?hash sample_stream = [''aa'', ''bb'', ''cc'']"
    by (simp_all add: sample_stream_def field_text_def sample_record_def dict_get_def)
  have sep: "\<forall>x \<in> set sample_stream. \<forall>y \<in> set sample_stream. take 24 (?hash x) = take 24 (?hash y) \<longrightarrow> ?hash x = ?hash y"
    by (simp add: sample_stream_def field_text_def sample_record_def dict_get_def)
  have st: "storable (sample_ix_env u) ?hash (sample_record k h)" if "h \<in> {''aa'', ''bb'', ''cc''}" for u k h
  proof -
    have "to_stroops (sample_ix_env u) (PStr ''12.5'') = Inr 125000000"
      using stroops_parts [of "''12''" "''5''" "sample_ix_env u"] by (simp add: is_digit_def decimal_value_def)
    moreover have "ix_parse_iso (sample_ix_env u) (zulu ''7'') = Some (Aware 7)"
      by (simp add: sample_ix_env_def sample_parse_iso_def zulu_def replace_char_def signed_part_def decimal_value_def)
    moreover have "py_strip h = h" using that by (auto simp: py_strip_def is_blank_def)
    ultimately show ?thesis using that
      by (auto simp: storable_def sample_record_def dict_get_def str_or_def parse_created_at_def field_text_def bindable_def
          dumps_int_def MAX_STR_DIGITS_def fits_columns_def index_row_def BIGINT_MIN_def BIGINT_MAX_def digits_of.simps)
  qed
  have "?hash ` set (take (length [sample_ix_env 9, sample_ix_env 10] * nat (xc_batch_size sample_ix_cfg)) sample_stream)
      \<subseteq> p_transaction_hash ` set (payments (xw_db st1)) \<and>
    c1 = token_at ?tok sample_stream (min (length sample_stream) (length [sample_ix_env 9, sample_ix_env 10] * nat (xc_batch_size sample_ix_cfg)))"
  proof (rule indexer_catches_up [OF sample_policy_valid _ _ _ sample_answers sep _ _ run])
    show "distinct (map ?tok sample_stream)" unfolding t by simp
    show "\<forall>x \<in> set sample_stream. ?tok x \<noteq> []" by (simp add: sample_stream_def field_text_def sample_record_def dict_get_def)
    show "\<forall>env \<in> set [sample_ix_env 9, sample_ix_env 10]. \<forall>x \<in> set sample_stream. storable env ?hash x"
      using st by (simp add: sample_stream_def)
    show "steady ?hash sample_stream (payments (xw_db sample_ix_state))" by (simp add: steady_def sample_ix_state_def empty_database_def)
  qed (simp_all add: sample_ix_cfg_def)
  then have "?hash ` set sample_stream \<subseteq> p_transaction_hash ` set (payments (xw_db st1))" "c1 = token_at ?tok sample_stream 3"
    by (simp_all add: sample_ix_cfg_def sample_stream_def numeral_3_eq_3)
  moreover have "?hash ` set sample_stream = {''aa'', ''bb'', ''cc''}" using arg_cong [OF t(2), of set] by simp
  ultimately show ?thesis using run by (simp add: token_at_def sample_stream_def field_text_def sample_record_def dict_get_def)
qed

end
