(* ===== verification/Idempotency.thy ===== *)
theory Idempotency
  imports Caches "HOL-Library.Product_Lexorder"
begin

text \<open>
  \<^verbatim>\<open>middleware/idempotency.py\<close>: successful answers to state-changing requests are kept in Redis under the caller's
  \<open>Idempotency-Key\<close> and replayed.  The state is the key space of the middleware, its index of completed keys (a sorted
  set) and the circuit breaker of the process.  The application behind the middleware is the argument \<open>call_next\<close>, on a
  world of its own; JSON decoding (of documents with integer numbers), UTF-8 decoding and SHA-256 are arguments.
\<close>

definition CIRCUIT_OPEN_TTL :: time where "CIRCUIT_OPEN_TTL = 30"

record http_request =
  rq_method :: str
  rq_path :: str
  rq_key :: "str option"
  rq_authorization :: str
  rq_body :: str

record http_response =
  rs_status :: int
  rs_body :: str
  rs_media :: "str option"

record cached_response =
  cr_fingerprint :: str
  cr_status :: int
  cr_body :: str
  cr_media :: str

record idem_cfg =
  ic_ttl :: time
  ic_max_completed_keys :: int
  ic_loads :: "str \<Rightarrow> json option"
  ic_decode :: "str \<Rightarrow> str option"
  ic_encode :: "str \<Rightarrow> str"
  ic_sha :: "str \<Rightarrow> str"

record idem =
  im_store :: "(str \<times> cached_response \<times> time) list"
  im_index :: "(str \<times> time) list"
  im_disabled_until :: time

text \<open>
  The surroundings of one request: the monotonic and the wall clock before and after the application ran, whether Redis
  answers the three single commands, and after how many commands of the cap enforcement it fails, if it does.
\<close>

record idem_env =
  ie_mono :: "time \<times> time"
  ie_wall :: "time \<times> time"
  ie_up_get :: bool
  ie_up_setex :: bool
  ie_up_zadd :: bool
  ie_cap_fails_after :: "nat option"

section \<open>Keys\<close>

definition compute_fingerprint :: "idem_cfg \<Rightarrow> str \<Rightarrow> str \<Rightarrow> str \<Rightarrow> str option" where
  "compute_fingerprint cfg verb path body =
     map_option (\<lambda>canonical. ic_sha cfg (verb @ '':'' @ path @ '':'' @ canonical))
       (if body = [] then Some ''{}'' else map_option canonical_json (ic_loads cfg body))"

definition actor_key :: "idem_cfg \<Rightarrow> str \<Rightarrow> str" where
  "actor_key cfg header =
     (let token = py_strip (if starts_with ''Bearer '' header then drop 7 header else header) in
      if token = [] then [] else take 16 (ic_sha cfg token))"

definition cache_key :: "str \<Rightarrow> str \<Rightarrow> str" where
  "cache_key actor key = ''idempotency:'' @ actor @ '':'' @ key"

section \<open>Redis behind the circuit breaker\<close>

definition idem_circuit_open :: "time \<Rightarrow> idem \<Rightarrow> bool" where
  "idem_circuit_open t st \<longleftrightarrow> t < im_disabled_until st"

definition trip :: "time \<Rightarrow> idem \<Rightarrow> idem" where
  "trip t st = st\<lparr>im_disabled_until := t + CIRCUIT_OPEN_TTL\<rparr>"

definition live_entry :: "time \<Rightarrow> str \<Rightarrow> idem \<Rightarrow> cached_response option" where
  "live_entry t k st = (case map_of (im_store st) k of None \<Rightarrow> None | Some (v, expires) \<Rightarrow> if t < expires then Some v else None)"

definition idem_get :: "idem_env \<Rightarrow> str \<Rightarrow> idem \<Rightarrow> cached_response option \<times> idem" where
  "idem_get env k st =
     (if idem_circuit_open (fst (ie_mono env)) st then (None, st)
      else if \<not> ie_up_get env then (None, trip (fst (ie_mono env)) st)
      else (live_entry (fst (ie_wall env)) k st, st))"

definition idem_setex :: "idem_env \<Rightarrow> str \<Rightarrow> time \<Rightarrow> cached_response \<Rightarrow> idem \<Rightarrow> idem" where
  "idem_setex env k ttl v st =
     (if idem_circuit_open (snd (ie_mono env)) st then st
      else if \<not> ie_up_setex env then trip (snd (ie_mono env)) st
      else st\<lparr>im_store := AList.update k (v, snd (ie_wall env) + ttl) (im_store st)\<rparr>)"

definition track_completed_key :: "idem_env \<Rightarrow> str \<Rightarrow> idem \<Rightarrow> idem" where
  "track_completed_key env k st =
     (if idem_circuit_open (snd (ie_mono env)) st then st
      else if \<not> ie_up_zadd env then trip (snd (ie_mono env)) st
      else st\<lparr>im_index := AList.update k (snd (ie_wall env)) (im_index st)\<rparr>)"

text \<open>\<open>ZRANGE 0 n-1\<close>: by score, then by member.\<close>

definition oldest_keys :: "nat \<Rightarrow> (str \<times> time) list \<Rightarrow> str list" where
  "oldest_keys n ix = map fst (take n (sort_key (\<lambda>(k, s). (s, k)) ix))"

definition delete_keys :: "str list \<Rightarrow> idem \<Rightarrow> idem" where
  "delete_keys ks st = st\<lparr>im_store := filter (\<lambda>e. fst e \<notin> set ks) (im_store st)\<rparr>"

text \<open>\<open>ZCARD\<close>, \<open>ZRANGE\<close>, one \<open>DEL\<close> per key, \<open>ZREM\<close>; the command after the last answered one trips the breaker.\<close>

definition enforce_completed_key_cap :: "idem_env \<Rightarrow> int \<Rightarrow> idem \<Rightarrow> idem" where
  "enforce_completed_key_cap env max_keys st =
     (if idem_circuit_open (snd (ie_mono env)) st then st
      else
        (let overflow = int (length (im_index st)) - max_keys;
             ks = oldest_keys (nat overflow) (im_index st);
             calls = (if overflow \<le> 0 then 1 else if ks = [] then 2 else length ks + 3) in
         case ie_cap_fails_after env of
           Some n \<Rightarrow>
             if n < calls then trip (snd (ie_mono env)) (if overflow \<le> 0 then st else delete_keys (take (n - 2) ks) st)
             else if overflow \<le> 0 then st
             else (delete_keys ks st)\<lparr>im_index := filter (\<lambda>e. fst e \<notin> set ks) (im_index st)\<rparr>
         | None \<Rightarrow>
             if overflow \<le> 0 then st
             else (delete_keys ks st)\<lparr>im_index := filter (\<lambda>e. fst e \<notin> set ks) (im_index st)\<rparr>))"

section \<open>The middleware\<close>

definition GUARDED_METHODS :: "str list" where
  "GUARDED_METHODS = [''POST'', ''PUT'', ''PATCH'', ''DELETE'']"

definition detail_response :: "int \<Rightarrow> str \<Rightarrow> http_response" where
  "detail_response status body = \<lparr>rs_status = status, rs_body = body, rs_media = Some ''application/json''\<rparr>"

definition MALFORMED_BODY :: str where
  "MALFORMED_BODY = [CHR 0x7B] @ json_string ''detail'' @ '': '' @
     json_string ''Request body is not valid JSON; cannot fingerprint Idempotency-Key'' @ [CHR 0x7D]"

definition CONFLICT_BODY :: str where
  "CONFLICT_BODY = [CHR 0x7B] @ json_string ''detail'' @ '': '' @
     json_string ''Idempotency-Key already used with different payload'' @ [CHR 0x7D]"

definition replay_response :: "idem_cfg \<Rightarrow> cached_response \<Rightarrow> http_response" where
  "replay_response cfg c = \<lparr>rs_status = cr_status c, rs_body = ic_encode cfg (cr_body c), rs_media = Some (cr_media c)\<rparr>"

definition store_response :: "idem_env \<Rightarrow> idem_cfg \<Rightarrow> str \<Rightarrow> cached_response \<Rightarrow> idem \<Rightarrow> idem" where
  "store_response env cfg k c st =
     enforce_completed_key_cap env (ic_max_completed_keys cfg) (track_completed_key env k (idem_setex env k (ic_ttl cfg) c st))"

definition run_and_store ::
  "idem_env \<Rightarrow> idem_cfg \<Rightarrow> (http_request \<Rightarrow> 'w \<Rightarrow> http_response \<times> 'w) \<Rightarrow> http_request \<Rightarrow> str \<Rightarrow> str \<Rightarrow> idem \<Rightarrow> 'w \<Rightarrow>
     (exn + http_response) \<times> idem \<times> 'w" where
  "run_and_store env cfg call_next rq k fp st w =
     (case call_next rq w of
        (resp, w1) \<Rightarrow>
          if 200 \<le> rs_status resp \<and> rs_status resp < 300 then
            (case ic_decode cfg (rs_body resp) of
               None \<Rightarrow> (Inl ValueError, st, w1)
             | Some body \<Rightarrow>
                 (Inr resp, store_response env cfg k
                    \<lparr>cr_fingerprint = fp, cr_status = rs_status resp, cr_body = body,
                     cr_media = (case rs_media resp of None \<Rightarrow> ''application/json'' | Some m \<Rightarrow> if m = [] then ''application/json'' else m)\<rparr> st, w1))
          else (Inr resp, st, w1))"

definition dispatch ::
  "idem_env \<Rightarrow> idem_cfg \<Rightarrow> (http_request \<Rightarrow> 'w \<Rightarrow> http_response \<times> 'w) \<Rightarrow> http_request \<Rightarrow> idem \<Rightarrow> 'w \<Rightarrow> (exn + http_response) \<times> idem \<times> 'w" where
  "dispatch env cfg call_next rq st w =
     (if rq_method rq \<notin> set GUARDED_METHODS \<or> \<not> truthy (rq_key rq)
      then (case call_next rq w of (resp, w1) \<Rightarrow> (Inr resp, st, w1))
      else case compute_fingerprint cfg (rq_method rq) (rq_path rq) (rq_body rq) of
        None \<Rightarrow> (Inr (detail_response 400 MALFORMED_BODY), st, w)
      | Some fp \<Rightarrow>
          (let k = cache_key (actor_key cfg (rq_authorization rq)) (the (rq_key rq)) in
           case idem_get env k st of
             (Some c, st1) \<Rightarrow>
               (Inr (if cr_fingerprint c \<noteq> fp then detail_response 409 CONFLICT_BODY else replay_response cfg c), st1, w)
           | (None, st1) \<Rightarrow> run_and_store env cfg call_next rq k fp st1 w))"

section \<open>Facts\<close>

lemma cache_key_inject:
  assumes "CHR '':'' \<notin> set a" "CHR '':'' \<notin> set a'"
  shows "cache_key a k = cache_key a' k' \<longleftrightarrow> a = a' \<and> k = k'"
proof
  assume "cache_key a k = cache_key a' k'"
  then have "a @ CHR '':'' # k = a' @ CHR '':'' # k'" by (simp add: cache_key_def)
  then have "partition_at CHR '':'' (a @ CHR '':'' # k) = partition_at CHR '':'' (a' @ CHR '':'' # k')" by simp
  with assms show "a = a' \<and> k = k'" by (simp add: partition_at_append)
qed simp

lemma length_oldest_keys: "length (oldest_keys n ix) = min n (length ix)"
  by (simp add: oldest_keys_def)

lemma oldest_keys_in: "set (oldest_keys n ix) \<subseteq> fst ` set ix"
  unfolding oldest_keys_def using set_take_subset [of n "sort_key (\<lambda>(k, s). (s, k)) ix"] by force

lemma distinct_oldest_keys:
  assumes "distinct (map fst ix)"
  shows "distinct (oldest_keys n ix)"
proof -
  let ?s = "sort_key (\<lambda>(k, s). (s, k)) ix"
  have "distinct (map fst ?s)"
    using assms distinct_map [of fst ?s] distinct_map [of fst ix] by (metis distinct_sort set_sort)
  then show ?thesis by (simp add: oldest_keys_def take_map [symmetric] distinct_take)
qed

lemma length_filter_out:
  assumes "distinct (map fst ix)" "set ks \<subseteq> fst ` set ix" "distinct ks"
  shows "length (filter (\<lambda>e. fst e \<notin> set ks) ix) = length ix - length ks"
proof -
  have "length (filter (\<lambda>e. fst e \<in> set ks) ix) = card (fst ` set (filter (\<lambda>e. fst e \<in> set ks) ix))"
    by (metis assms(1) distinct_card distinct_map_filter length_map list.set_map)
  also have "fst ` set (filter (\<lambda>e. fst e \<in> set ks) ix) = set ks" using assms(2) by auto
  also have "card (set ks) = length ks" by (rule distinct_card [OF assms(3)])
  finally have "length (filter (\<lambda>e. fst e \<in> set ks) ix) = length ks" .
  with sum_length_filter_compl [of "\<lambda>e. fst e \<in> set ks" ix] show ?thesis by simp
qed

text \<open>The key under which a guarded request is kept, and its fingerprint.\<close>

definition request_key :: "idem_cfg \<Rightarrow> http_request \<Rightarrow> str option" where
  "request_key cfg rq =
     (if rq_method rq \<in> set GUARDED_METHODS \<and> truthy (rq_key rq)
      then Some (cache_key (actor_key cfg (rq_authorization rq)) (the (rq_key rq))) else None)"

definition request_fingerprint :: "idem_cfg \<Rightarrow> http_request \<Rightarrow> str option" where
  "request_fingerprint cfg rq = compute_fingerprint cfg (rq_method rq) (rq_path rq) (rq_body rq)"

lemma dispatch_keyed:
  assumes "request_key cfg rq = Some k" "request_fingerprint cfg rq = Some fp"
  shows "dispatch env cfg call_next rq st w =
     (case idem_get env k st of
        (Some c, st1) \<Rightarrow> (Inr (if cr_fingerprint c \<noteq> fp then detail_response 409 CONFLICT_BODY else replay_response cfg c), st1, w)
      | (None, st1) \<Rightarrow> run_and_store env cfg call_next rq k fp st1 w)"
  using assms by (auto simp: dispatch_def request_key_def request_fingerprint_def Let_def split: if_splits)

lemma dispatch_plain:
  assumes "request_key cfg rq = None \<or> request_fingerprint cfg rq = None"
  shows "fst (snd (dispatch env cfg call_next rq st w)) = st"
  using assms by (auto simp: dispatch_def request_key_def request_fingerprint_def split: if_splits prod.splits)

lemma trip_simps [simp]: "im_store (trip t st) = im_store st" "im_index (trip t st) = im_index st"
  by (simp_all add: trip_def)

lemma idem_get_keeps: "idem_get env k st = (r, st1) \<Longrightarrow> im_store st1 = im_store st \<and> im_index st1 = im_index st"
  by (auto simp: idem_get_def split: if_splits)

text \<open>The three writes of a stored response, seen by another key.\<close>

definition safe :: "int \<Rightarrow> str \<Rightarrow> cached_response \<times> time \<Rightarrow> idem \<Rightarrow> bool" where
  "safe max_keys k v st \<longleftrightarrow> distinct (map fst (im_index st)) \<and>
     (map_of (im_store st) k = Some v \<or> max_keys \<le> int (length (im_index st)))"

lemma map_of_filter_out: "map_of (filter (\<lambda>e. fst e \<notin> S) xs) k = (if k \<in> S then None else map_of xs k)"
  by (induction xs) auto

lemma map_of_delete_keys: "map_of (im_store (delete_keys ks st)) k = (if k \<in> set ks then None else map_of (im_store st) k)"
  by (simp add: delete_keys_def map_of_filter_out)

lemma delete_keys_index [simp]: "im_index (delete_keys ks st) = im_index st"
  by (simp add: delete_keys_def)

lemma distinct_update_keys: "distinct (map fst xs) \<Longrightarrow> distinct (map fst (AList.update k v xs))"
  by (rule distinct_update)

lemma length_update_ge: "length xs \<le> length (AList.update k v xs)"
  by (induction xs) auto

lemma safe_setex: "safe m k v st \<Longrightarrow> k' \<noteq> k \<Longrightarrow> safe m k v (idem_setex env k' ttl c st)"
  by (auto simp: safe_def idem_setex_def update_conv)

lemma safe_track: "safe m k v st \<Longrightarrow> safe m k v (track_completed_key env k' st)"
  using length_update_ge [of "im_index st" k' "snd (ie_wall env)"]
  by (auto simp: safe_def track_completed_key_def distinct_update_keys)

lemma evicted_length:
  assumes "distinct (map fst ix)" "m < int (length ix)"
  shows "m \<le> int (length (filter (\<lambda>e. fst e \<notin> set (oldest_keys (nat (int (length ix) - m)) ix)) ix))"
    "0 \<le> m \<Longrightarrow> int (length (filter (\<lambda>e. fst e \<notin> set (oldest_keys (nat (int (length ix) - m)) ix)) ix)) = m"
  using length_filter_out [OF assms(1) oldest_keys_in distinct_oldest_keys [OF assms(1)], of "nat (int (length ix) - m)"] assms(2)
  by (auto simp: length_oldest_keys)

lemma safe_enforce: "safe m k v st \<Longrightarrow> safe m k v (enforce_completed_key_cap env m st)"
  using evicted_length(1) [of "im_index st" m]
  by (auto simp: safe_def enforce_completed_key_cap_def Let_def map_of_delete_keys distinct_map_filter split: option.splits)

lemma safe_dispatch:
  assumes "safe (ic_max_completed_keys cfg) k v st" "request_key cfg rq \<noteq> Some k"
  shows "safe (ic_max_completed_keys cfg) k v (fst (snd (dispatch env cfg call_next rq st w)))"
proof (cases "request_key cfg rq = None \<or> request_fingerprint cfg rq = None")
  case True
  with assms(1) show ?thesis by (simp add: dispatch_plain)
next
  case False
  then obtain k' fp where k: "request_key cfg rq = Some k'" "request_fingerprint cfg rq = Some fp" by auto
  obtain r st1 where g: "idem_get env k' st = (r, st1)" by fastforce
  with idem_get_keeps [OF g] assms(1) have st1: "safe (ic_max_completed_keys cfg) k v st1" by (simp add: safe_def)
  show ?thesis
  proof (cases r)
    case None
    have "safe (ic_max_completed_keys cfg) k v (store_response env cfg k' c st1)" for c
      unfolding store_response_def using st1 assms(2) k(1) by (intro safe_enforce safe_track safe_setex) auto
    with None g st1 show ?thesis by (auto simp: dispatch_keyed [OF k] run_and_store_def split: prod.splits option.splits)
  next
    case (Some c)
    with g st1 show ?thesis by (simp add: dispatch_keyed [OF k])
  qed
qed

text \<open>A sequence of requests, each with its surroundings.\<close>

fun serve :: "idem_cfg \<Rightarrow> (http_request \<Rightarrow> 'w \<Rightarrow> http_response \<times> 'w) \<Rightarrow> (idem_env \<times> http_request) list \<Rightarrow> idem \<Rightarrow> 'w \<Rightarrow> idem \<times> 'w" where
  "serve cfg call_next [] st w = (st, w)"
| "serve cfg call_next ((env, rq) # xs) st w =
     (case dispatch env cfg call_next rq st w of (r, st1, w1) \<Rightarrow> serve cfg call_next xs st1 w1)"

lemma safe_serve:
  "safe (ic_max_completed_keys cfg) k v st \<Longrightarrow> \<forall>(env, rq) \<in> set xs. request_key cfg rq \<noteq> Some k \<Longrightarrow>
   serve cfg call_next xs st w = (st1, w1) \<Longrightarrow> safe (ic_max_completed_keys cfg) k v st1"
proof (induction xs arbitrary: st w)
  case (Cons x xs)
  obtain env rq where x: "x = (env, rq)" by fastforce
  obtain r st2 w2 where d: "dispatch env cfg call_next rq st w = (r, st2, w2)" by (metis prod_cases3)
  have "safe (ic_max_completed_keys cfg) k v st2"
    using safe_dispatch [OF Cons.prems(1), of rq env call_next w] Cons.prems(2) x d by simp
  with Cons.IH [of st2 w2] Cons.prems(2,3) x d show ?case by simp
qed simp


section \<open>Replays are genuine\<close>

text \<open>What the application did under a key: when, for which request, and what it answered.\<close>

type_synonym completed = "time \<times> http_request \<times> http_response"

definition executed ::
  "idem_env \<Rightarrow> idem_cfg \<Rightarrow> (http_request \<Rightarrow> 'w \<Rightarrow> http_response \<times> 'w) \<Rightarrow> http_request \<Rightarrow> idem \<Rightarrow> 'w \<Rightarrow> completed list" where
  "executed env cfg call_next rq st w =
     (case (request_key cfg rq, request_fingerprint cfg rq) of
        (Some k, Some fp) \<Rightarrow> (case fst (idem_get env k st) of None \<Rightarrow> [(snd (ie_wall env), rq, fst (call_next rq w))] | Some _ \<Rightarrow> [])
      | _ \<Rightarrow> [])"

inductive idem_step ::
  "idem_cfg \<Rightarrow> (http_request \<Rightarrow> 'w \<Rightarrow> http_response \<times> 'w) \<Rightarrow> completed list \<times> idem \<times> 'w \<Rightarrow> completed list \<times> idem \<times> 'w \<Rightarrow> bool"
  for cfg call_next where
  serving: "dispatch env cfg call_next rq st w = (r, st1, w1) \<Longrightarrow>
     idem_step cfg call_next (h, st, w) (executed env cfg call_next rq st w @ h, st1, w1)"

definition backed :: "idem_cfg \<Rightarrow> completed list \<Rightarrow> str \<Rightarrow> cached_response \<times> time \<Rightarrow> bool" where
  "backed cfg h k v \<longleftrightarrow> (\<exists>(t, rq, resp) \<in> set h.
     request_key cfg rq = Some k \<and> request_fingerprint cfg rq = Some (cr_fingerprint (fst v)) \<and> snd v = t + ic_ttl cfg \<and>
     200 \<le> rs_status resp \<and> rs_status resp < 300 \<and> cr_status (fst v) = rs_status resp \<and> ic_decode cfg (rs_body resp) = Some (cr_body (fst v)))"

definition genuine :: "idem_cfg \<Rightarrow> completed list \<Rightarrow> idem \<Rightarrow> bool" where
  "genuine cfg h st \<longleftrightarrow> (\<forall>k v. map_of (im_store st) k = Some v \<longrightarrow> backed cfg h k v)"

lemma backed_more: "backed cfg h k v \<Longrightarrow> backed cfg (h' @ h) k v"
  by (auto simp: backed_def)

lemma store_response_entries:
  assumes "map_of (im_store (store_response env cfg k c st)) k' = Some v"
  shows "map_of (im_store st) k' = Some v \<or> k' = k \<and> v = (c, snd (ie_wall env) + ic_ttl cfg)"
proof -
  have cap: "map_of (im_store (enforce_completed_key_cap env m s)) k' = Some v \<Longrightarrow> map_of (im_store s) k' = Some v" for m s
    by (auto simp: enforce_completed_key_cap_def Let_def map_of_delete_keys split: if_splits option.splits)
  have track: "im_store (track_completed_key env k s) = im_store s" for s by (simp add: track_completed_key_def)
  have "map_of (im_store (idem_setex env k (ic_ttl cfg) c st)) k' = Some v"
    using assms cap track unfolding store_response_def by metis
  then show ?thesis by (auto simp: idem_setex_def update_conv split: if_splits)
qed

lemma step_genuine:
  assumes "idem_step cfg call_next x y" "genuine cfg (fst x) (fst (snd x))"
  shows "genuine cfg (fst y) (fst (snd y))"
  using assms
proof (cases rule: idem_step.cases)
  case (serving env rq st w r st1 w1 h)
  have old: "genuine cfg h st" using assms(2) serving(1) by simp
  have kept: "genuine cfg (h' @ h) s" if "im_store s = im_store st" for h' s
    using old that backed_more unfolding genuine_def by metis
  show ?thesis
  proof (cases "request_key cfg rq = None \<or> request_fingerprint cfg rq = None")
    case True
    with serving(3) dispatch_plain [OF True, of env call_next st w] have "st1 = st" by simp
    with kept serving(2) show ?thesis by simp
  next
    case False
    then obtain k fp where k: "request_key cfg rq = Some k" "request_fingerprint cfg rq = Some fp" by auto
    obtain g st0 where g: "idem_get env k st = (g, st0)" by fastforce
    note keeps = idem_get_keeps [OF g]
    show ?thesis
    proof (cases g)
      case (Some c)
      with serving(3) g have "st1 = st0" by (simp add: dispatch_keyed [OF k])
      with kept keeps serving(2) show ?thesis by simp
    next
      case None
      obtain resp w2 where call: "call_next rq w = (resp, w2)" by fastforce
      have h: "executed env cfg call_next rq st w = [(snd (ie_wall env), rq, resp)]" using None g k call by (simp add: executed_def)
      show ?thesis
      proof (cases "200 \<le> rs_status resp \<and> rs_status resp < 300 \<and> ic_decode cfg (rs_body resp) \<noteq> None")
        case False
        with None serving(3) g call have "st1 = st0" by (auto simp: dispatch_keyed [OF k] run_and_store_def split: option.splits if_splits)
        with kept keeps serving(2) show ?thesis by simp
      next
        case True
        then obtain body c where dec: "ic_decode cfg (rs_body resp) = Some body"
          and c: "st1 = store_response env cfg k c st0" "cr_fingerprint c = fp" "cr_status c = rs_status resp" "cr_body c = body"
          using None serving(3) g call by (auto simp: dispatch_keyed [OF k] run_and_store_def)
        have "backed cfg (executed env cfg call_next rq st w @ h) k (c, snd (ie_wall env) + ic_ttl cfg)"
          using True dec c k by (simp add: backed_def h)
        then have "genuine cfg (executed env cfg call_next rq st w @ h) st1"
          unfolding genuine_def c(1)
          using store_response_entries [of env cfg k c st0] kept [of st0 "executed env cfg call_next rq st w"] keeps
          unfolding genuine_def by blast
        with serving(2) show ?thesis by simp
      qed
    qed
  qed
qed


section \<open>The cap\<close>

definition redis_fine :: "idem_env \<Rightarrow> bool" where
  "redis_fine env \<longleftrightarrow> ie_up_get env \<and> ie_up_setex env \<and> ie_up_zadd env \<and> ie_cap_fails_after env = None"

definition bounded_index :: "int \<Rightarrow> idem \<Rightarrow> bool" where
  "bounded_index m st \<longleftrightarrow> distinct (map fst (im_index st)) \<and> distinct (map fst (im_store st)) \<and>
     int (length (im_index st)) \<le> m \<and> fst ` set (im_store st) \<subseteq> fst ` set (im_index st)"

lemma store_response_bounded:
  assumes "redis_fine env" "im_disabled_until st \<le> snd (ie_mono env)" "0 \<le> ic_max_completed_keys cfg" "bounded_index (ic_max_completed_keys cfg) st"
  shows "bounded_index (ic_max_completed_keys cfg) (store_response env cfg k c st) \<and>
         im_disabled_until (store_response env cfg k c st) = im_disabled_until st"
proof -
  let ?m = "ic_max_completed_keys cfg"
  define s where "s = st\<lparr>im_store := AList.update k (c, snd (ie_wall env) + ic_ttl cfg) (im_store st),
    im_index := AList.update k (snd (ie_wall env)) (im_index st)\<rparr>"
  have s: "track_completed_key env k (idem_setex env k (ic_ttl cfg) c st) = s"
    using assms(1,2) by (simp add: track_completed_key_def idem_setex_def idem_circuit_open_def redis_fine_def s_def)
  have closed: "\<not> idem_circuit_open (snd (ie_mono env)) s" using assms(2) by (simp add: idem_circuit_open_def s_def)
  have d: "distinct (map fst (im_index s))" "distinct (map fst (im_store s))" "fst ` set (im_store s) \<subseteq> fst ` set (im_index s)"
    using assms(4) by (auto simp: s_def bounded_index_def distinct_update_keys dom_update)
  show ?thesis
  proof (cases "int (length (im_index s)) \<le> ?m")
    case True
    with assms(1) closed d show ?thesis
      unfolding store_response_def s by (simp add: enforce_completed_key_cap_def redis_fine_def bounded_index_def) (simp add: s_def)
  next
    case False
    let ?ks = "oldest_keys (nat (int (length (im_index s)) - ?m)) (im_index s)"
    have e: "store_response env cfg k c st = (delete_keys ?ks s)\<lparr>im_index := filter (\<lambda>e. fst e \<notin> set ?ks) (im_index s)\<rparr>"
      using assms(1) closed False unfolding store_response_def s by (simp add: enforce_completed_key_cap_def redis_fine_def Let_def)
    have "int (length (filter (\<lambda>e. fst e \<notin> set ?ks) (im_index s))) = ?m"
      using evicted_length(2) [OF d(1) _ assms(3)] False by simp
    moreover have "fst ` set (filter (\<lambda>e. fst e \<notin> set ?ks) (im_store s)) \<subseteq> fst ` set (filter (\<lambda>e. fst e \<notin> set ?ks) (im_index s))"
      using d(3) by (fastforce simp: image_iff subset_iff)
    moreover have "im_disabled_until s = im_disabled_until st" by (simp add: s_def)
    ultimately show ?thesis
      using d(1,2) unfolding e by (simp add: bounded_index_def delete_keys_def distinct_map_filter)
  qed
qed

lemma keyed_dispatch_bounded:
  assumes "redis_fine env" "im_disabled_until st \<le> fst (ie_mono env)" "fst (ie_mono env) \<le> snd (ie_mono env)"
    "0 \<le> ic_max_completed_keys cfg" "bounded_index (ic_max_completed_keys cfg) st"
    "dispatch env cfg call_next rq st w = (r, st1, w1)"
  shows "bounded_index (ic_max_completed_keys cfg) st1 \<and> im_disabled_until st1 = im_disabled_until st"
proof (cases "request_key cfg rq = None \<or> request_fingerprint cfg rq = None")
  case True
  with dispatch_plain [OF True, of env call_next st w] assms(5,6) show ?thesis by simp
next
  case False
  then obtain k fp where k: "request_key cfg rq = Some k" "request_fingerprint cfg rq = Some fp" by auto
  from assms(1,2) have g: "idem_get env k st = (live_entry (fst (ie_wall env)) k st, st)"
    by (simp add: idem_get_def idem_circuit_open_def redis_fine_def)
  have "im_disabled_until st \<le> snd (ie_mono env)" using assms(2,3) by (rule order_trans)
  note stored = store_response_bounded [OF assms(1) this assms(4,5), of k]
  show ?thesis
    using assms(5,6) stored
    by (auto simp: dispatch_keyed [OF k] g run_and_store_def split: option.splits prod.splits if_splits)
qed

text \<open>C36. The cap: while Redis answers, the middleware never holds more answers than the configured maximum, whatever the
  requests, and every answer it holds is in the index and can therefore be evicted.
\<close>

theorem completed_index_stays_bounded:
  assumes "serve cfg call_next xs st w = (st1, w1)"
    and "\<forall>(env, rq) \<in> set xs. redis_fine env \<and> im_disabled_until st \<le> fst (ie_mono env) \<and> fst (ie_mono env) \<le> snd (ie_mono env)"
    and "0 \<le> ic_max_completed_keys cfg" "im_store st = []" "im_index st = []"
  shows "int (length (im_store st1)) \<le> ic_max_completed_keys cfg \<and> fst ` set (im_store st1) \<subseteq> fst ` set (im_index st1)"
proof -
  have "bounded_index (ic_max_completed_keys cfg) st" using assms(3-5) by (simp add: bounded_index_def)
  with assms(1,2) have b: "bounded_index (ic_max_completed_keys cfg) st1"
  proof (induction xs arbitrary: st w)
    case (Cons x xs)
    obtain env rq where x: "x = (env, rq)" by fastforce
    obtain r st2 w2 where d: "dispatch env cfg call_next rq st w = (r, st2, w2)" by (metis prod_cases3)
    have e: "redis_fine env" "im_disabled_until st \<le> fst (ie_mono env)" "fst (ie_mono env) \<le> snd (ie_mono env)"
      using Cons.prems(2) x by auto
    note st2 = keyed_dispatch_bounded [OF e assms(3) Cons.prems(3) d]
    with Cons.IH [of st2 w2] Cons.prems(1,2) x d show ?case by simp
  qed simp
  have "card (fst ` set (im_store st1)) \<le> card (fst ` set (im_index st1))"
    using b by (intro card_mono) (auto simp: bounded_index_def)
  moreover have "length (im_store st1) = card (fst ` set (im_store st1))" "length (im_index st1) = card (fst ` set (im_index st1))"
    using b unfolding bounded_index_def by (metis distinct_card length_map list.set_map)+
  ultimately show ?thesis using b by (simp add: bounded_index_def)
qed

section \<open>The edges\<close>

text \<open>
  A body that is not JSON is refused before the application or the store is touched.  An answer outside 2xx is passed on
  and never stored.  An answer in 2xx whose body is not UTF-8 becomes an error after the application has done its work.
\<close>

theorem dispatch_edges:
  assumes "request_key cfg rq = Some k"
  shows "request_fingerprint cfg rq = None \<Longrightarrow>
           dispatch env cfg call_next rq st w = (Inr (detail_response 400 MALFORMED_BODY), st, w)"
    and "request_fingerprint cfg rq = Some fp \<Longrightarrow> idem_get env k st = (None, st0) \<Longrightarrow> call_next rq w = (resp, w1) \<Longrightarrow>
           rs_status resp < 200 \<or> 300 \<le> rs_status resp \<Longrightarrow> dispatch env cfg call_next rq st w = (Inr resp, st0, w1)"
    and "request_fingerprint cfg rq = Some fp \<Longrightarrow> idem_get env k st = (None, st0) \<Longrightarrow> call_next rq w = (resp, w1) \<Longrightarrow>
           200 \<le> rs_status resp \<Longrightarrow> rs_status resp < 300 \<Longrightarrow> ic_decode cfg (rs_body resp) = None \<Longrightarrow>
           dispatch env cfg call_next rq st w = (Inl ValueError, st0, w1)"
proof -
  assume "request_fingerprint cfg rq = None"
  with assms show "dispatch env cfg call_next rq st w = (Inr (detail_response 400 MALFORMED_BODY), st, w)"
    by (auto simp: dispatch_def request_key_def request_fingerprint_def split: if_splits)
next
  assume fp: "request_fingerprint cfg rq = Some fp" and g: "idem_get env k st = (None, st0)" and c: "call_next rq w = (resp, w1)"
  { assume "rs_status resp < 200 \<or> 300 \<le> rs_status resp"
    with g c show "dispatch env cfg call_next rq st w = (Inr resp, st0, w1)"
      by (auto simp: dispatch_keyed [OF assms fp] run_and_store_def) }
  { assume "200 \<le> rs_status resp" "rs_status resp < 300" "ic_decode cfg (rs_body resp) = None"
    with g c show "dispatch env cfg call_next rq st w = (Inl ValueError, st0, w1)"
      by (auto simp: dispatch_keyed [OF assms fp] run_and_store_def) }
qed

section \<open>A run\<close>

definition demo_cfg :: idem_cfg where
  "demo_cfg = \<lparr>ic_ttl = 100, ic_max_completed_keys = 2, ic_loads = (\<lambda>_. None), ic_decode = Some, ic_encode = id,
     ic_sha = filter (\<lambda>c. c \<noteq> CHR '':'')\<rparr>"

definition demo_app :: "http_request \<Rightarrow> nat \<Rightarrow> http_response \<times> nat" where
  "demo_app rq n = (\<lparr>rs_status = 201, rs_body = rq_path rq, rs_media = None\<rparr>, n + 1)"

definition demo_request :: "str \<Rightarrow> str \<Rightarrow> http_request" where
  "demo_request path key = \<lparr>rq_method = ''POST'', rq_path = path, rq_key = Some key, rq_authorization = ''Bearer t'', rq_body = []\<rparr>"

definition demo_env :: "time \<Rightarrow> idem_env" where
  "demo_env t = \<lparr>ie_mono = (t, t), ie_wall = (t, t), ie_up_get = True, ie_up_setex = True, ie_up_zadd = True, ie_cap_fails_after = None\<rparr>"

definition no_answers :: idem where
  "no_answers = \<lparr>im_store = [], im_index = [], im_disabled_until = 0\<rparr>"

lemma demo_simps [simp]:
  "ic_ttl demo_cfg = 100" "ic_max_completed_keys demo_cfg = 2" "ic_loads demo_cfg b = None" "ic_decode demo_cfg = Some"
  "ic_encode demo_cfg b = b" "ic_sha demo_cfg = filter (\<lambda>c. c \<noteq> CHR '':'')"
  "rq_path (demo_request path key) = path"
  "ie_mono (demo_env t) = (t, t)" "ie_wall (demo_env t) = (t, t)" "ie_up_get (demo_env t)" "ie_up_setex (demo_env t)"
  "ie_up_zadd (demo_env t)" "ie_cap_fails_after (demo_env t) = None"
  "im_store no_answers = []" "im_index no_answers = []" "im_disabled_until no_answers = 0"
  by (simp_all add: demo_cfg_def demo_request_def demo_env_def no_answers_def)

lemma demo_keys [simp]:
  "request_key demo_cfg (demo_request path key) = (if key = [] then None else Some (cache_key ''t'' key))"
  "request_fingerprint demo_cfg (demo_request path key) = Some (''POST'' @ filter (\<lambda>c. c \<noteq> CHR '':'') path @ ''{}'')"
  by (simp_all add: request_key_def request_fingerprint_def compute_fingerprint_def GUARDED_METHODS_def truthy_def demo_cfg_def
      demo_request_def actor_key_def starts_with_def py_strip_def is_blank_def Let_def)

definition demo_entry :: "str \<Rightarrow> cached_response" where
  "demo_entry path = \<lparr>cr_fingerprint = ''POST'' @ filter (\<lambda>c. c \<noteq> CHR '':'') path @ ''{}'', cr_status = 201, cr_body = path, cr_media = ''application/json''\<rparr>"

definition one_answer :: idem where
  "one_answer = \<lparr>im_store = [(cache_key ''t'' ''k'', demo_entry ''/a'', 105)], im_index = [(cache_key ''t'' ''k'', 5)], im_disabled_until = 0\<rparr>"

lemma demo_first: "dispatch (demo_env 5) demo_cfg demo_app (demo_request ''/a'' ''k'') no_answers 0 =
    (Inr \<lparr>rs_status = 201, rs_body = ''/a'', rs_media = None\<rparr>, one_answer, 1)"
  by (subst dispatch_keyed) (simp_all add: idem_get_def live_entry_def idem_circuit_open_def run_and_store_def store_response_def idem_setex_def
      track_completed_key_def enforce_completed_key_cap_def demo_app_def one_answer_def demo_entry_def Let_def no_answers_def)



theorem completed_index_stays_bounded_witness:
  "int (length (im_store one_answer)) \<le> 2 \<and> fst ` set (im_store one_answer) \<subseteq> fst ` set (im_index one_answer)"
proof -
  have "serve demo_cfg demo_app [(demo_env 5, demo_request ''/a'' ''k'')] no_answers 0 = (one_answer, 1)"
    by (simp add: demo_first)
  from completed_index_stays_bounded [OF this] show ?thesis
    by (simp add: redis_fine_def)
qed

theorem dispatch_edges_witness:
  "dispatch (demo_env 5) demo_cfg demo_app ((demo_request ''/a'' ''k'')\<lparr>rq_body := ''x''\<rparr>) no_answers 0 =
     (Inr (detail_response 400 MALFORMED_BODY), no_answers, 0)"
  by (rule dispatch_edges(1) [of _ _ "cache_key ''t'' ''k''"])
    (simp_all add: request_key_def request_fingerprint_def compute_fingerprint_def GUARDED_METHODS_def truthy_def demo_cfg_def
      demo_request_def actor_key_def starts_with_def py_strip_def is_blank_def Let_def)

end
