(* ===== verification/Http_Pipeline.thy ===== *)
theory Http_Pipeline
  imports Settings "HOL-Library.AList"
begin

text \<open>
  The middleware that works on ASGI messages: \<^verbatim>\<open>middleware/etag.py\<close>, \<^verbatim>\<open>payload_size.py\<close>,
  \<^verbatim>\<open>content_type.py\<close>, \<^verbatim>\<open>security_headers.py\<close>, \<^verbatim>\<open>correlation.py\<close> and the response side of
  \<^verbatim>\<open>api_version.py\<close>, with the correlation id of \<^verbatim>\<open>utils/correlation_ctx.py\<close>.  A middleware that wraps
  \<open>send\<close> is a function from its state and a message to the messages it sends on; one that wraps \<open>receive\<close> runs the
  application, which is a tree of the calls it makes.  SHA-256 and fresh UUIDs are arguments; log lines are left out.
\<close>

type_synonym headers = "(str \<times> str) list"

datatype out_message = ResponseStart int headers | ResponseBody str | OtherMessage str

text \<open>\<open>dict(pairs)\<close>: a key keeps its first position and takes its last value.\<close>

definition dict_of :: "headers \<Rightarrow> headers" where
  "dict_of hs = foldl (\<lambda>d (k, v). AList.update k v d) [] hs"

definition header_value :: "str \<Rightarrow> headers \<Rightarrow> str option" where
  "header_value name hs = map_of (dict_of hs) name"

section \<open>The correlation id of the context\<close>

definition get_or_generate_correlation_id :: "str \<Rightarrow> str option \<Rightarrow> str \<times> str option" where
  "get_or_generate_correlation_id uuid ctx = (case ctx of None \<Rightarrow> (uuid, Some uuid) | Some c \<Rightarrow> (c, Some c))"

section \<open>ETag\<close>

definition MAX_ETAG_BODY_BYTES :: nat where "MAX_ETAG_BODY_BYTES = 1024 * 1024"

definition compute_etag :: "(str \<Rightarrow> str) \<Rightarrow> str \<Rightarrow> str option \<Rightarrow> str" where
  "compute_etag sha body content_length =
     ''W/'' @ [CHR 0x22] @ sha (body @ (case content_length of None \<Rightarrow> [] | Some l \<Rightarrow> ''|'' @ l)) @ [CHR 0x22]"

definition is_excluded :: "str list \<Rightarrow> str \<Rightarrow> bool" where
  "is_excluded excluded path \<longleftrightarrow> list_ex (\<lambda>p. starts_with p path) excluded"

record etag_state =
  es_status :: int
  es_headers :: headers
  es_prefix :: str
  es_etag :: "str option"
  es_not_modified :: bool
  es_start_forwarded :: bool
  es_buffer :: bool

definition etag_start :: etag_state where
  "etag_start = \<lparr>es_status = 0, es_headers = [], es_prefix = [], es_etag = None, es_not_modified = False,
     es_start_forwarded = False, es_buffer = False\<rparr>"

definition first_header :: "str \<Rightarrow> headers \<Rightarrow> str option" where
  "first_header name hs = map_option snd (find (\<lambda>(n, v). py_lower n = name) hs)"

definition ascii :: "str \<Rightarrow> bool" where
  "ascii s \<longleftrightarrow> list_all (\<lambda>c. (of_char c :: nat) < 128) s"

definition send_with_etag :: "(str \<Rightarrow> str) \<Rightarrow> str option \<Rightarrow> etag_state \<Rightarrow> out_message \<Rightarrow> exn + (out_message list \<times> etag_state)" where
  "send_with_etag sha if_none_match st m =
     (case m of
        ResponseStart status hs \<Rightarrow>
          (let st1 = st\<lparr>es_status := status, es_headers := hs, es_buffer := (200 \<le> status \<and> status < 300)\<rparr> in
           if \<not> es_buffer st1 then Inr ([m], st1)
           else if list_ex (\<lambda>(n, v). py_lower n = ''etag'') hs then Inr ([m], st1\<lparr>es_start_forwarded := True\<rparr>)
           else Inr ([], st1))
      | OtherMessage _ \<Rightarrow> Inr ([m], st)
      | ResponseBody body \<Rightarrow>
          if \<not> es_buffer st \<or> es_start_forwarded st then Inr ([m], st)
          else if es_etag st \<noteq> None then Inr (if es_not_modified st then [] else [m], st)
          else
            (let pre = es_prefix st @ take (MAX_ETAG_BODY_BYTES - length (es_prefix st)) body;
                 len = first_header ''content-length'' (es_headers st) in
             if (case len of None \<Rightarrow> False | Some l \<Rightarrow> \<not> ascii l) then Inl ValueError
             else
               (let etag = compute_etag sha pre len;
                    nm = (if_none_match = Some etag);
                    st1 = st\<lparr>es_prefix := pre, es_etag := Some etag, es_not_modified := nm\<rparr> in
                if nm then
                  Inr ([ResponseStart 304 ((''etag'', etag) #
                          (case first_header ''x-correlation-id'' (es_headers st) of None \<Rightarrow> [] | Some c \<Rightarrow> [(''x-correlation-id'', c)]))], st1)
                else Inr ([ResponseStart (es_status st) (es_headers st @ [(''etag'', etag)]), m], st1))))"

fun send_all :: "(etag_state \<Rightarrow> out_message \<Rightarrow> exn + (out_message list \<times> etag_state)) \<Rightarrow> out_message list \<Rightarrow> etag_state \<Rightarrow> out_message list \<times> exn option" where
  "send_all f [] st = ([], None)"
| "send_all f (m # ms) st =
     (case f st m of
        Inl e \<Rightarrow> ([], Some e)
      | Inr (sent, st1) \<Rightarrow> (case send_all f ms st1 of (rest, r) \<Rightarrow> (sent @ rest, r)))"

text \<open>The messages the client gets when the application sends \<open>ms\<close>, and the exception raised into the application.\<close>

definition etag_middleware :: "(str \<Rightarrow> str) \<Rightarrow> str list \<Rightarrow> str \<Rightarrow> str \<Rightarrow> str \<Rightarrow> headers \<Rightarrow> out_message list \<Rightarrow> out_message list \<times> exn option" where
  "etag_middleware sha excluded kind verb path hs ms =
     (if kind \<noteq> ''http'' \<or> verb \<notin> {''GET'', ''HEAD''} \<or> is_excluded excluded path then (ms, None)
      else send_all (send_with_etag sha (header_value ''if-none-match'' hs)) ms etag_start)"

section \<open>Payload size\<close>

datatype in_message = RequestBody str | Disconnect

fun message_body :: "in_message \<Rightarrow> str" where
  "message_body (RequestBody b) = b"
| "message_body Disconnect = []"

datatype signal = PayloadTooLarge | AppError exn

text \<open>
  An application as the calls it makes: it may catch what \<open>receive\<close> raises.  When the client has nothing more to send,
  \<open>receive\<close> reports the disconnection.
\<close>

datatype asgi_app = Receive "signal + in_message \<Rightarrow> asgi_app" | Send out_message asgi_app | Return | Raise signal

fun next_message :: "in_message list \<Rightarrow> in_message \<times> in_message list" where
  "next_message [] = (Disconnect, [])"
| "next_message (m # ms) = (m, ms)"

record app_run =
  rn_received :: "in_message list"
  rn_sent :: "out_message list"
  rn_raised :: "signal option"

primrec run_app :: "asgi_app \<Rightarrow> in_message list \<Rightarrow> app_run" where
  "run_app (Receive k) = (\<lambda>ins.
     case next_message ins of (m, ins1) \<Rightarrow> (let r = run_app (k (Inr m)) ins1 in r\<lparr>rn_received := m # rn_received r\<rparr>))"
| "run_app (Send m app) = (\<lambda>ins. let r = run_app app ins in r\<lparr>rn_sent := m # rn_sent r\<rparr>)"
| "run_app Return = (\<lambda>ins. \<lparr>rn_received = [], rn_sent = [], rn_raised = None\<rparr>)"
| "run_app (Raise e) = (\<lambda>ins. \<lparr>rn_received = [], rn_sent = [], rn_raised = Some e\<rparr>)"

primrec run_limited :: "asgi_app \<Rightarrow> int \<Rightarrow> int \<Rightarrow> in_message list \<Rightarrow> app_run" where
  "run_limited (Receive k) = (\<lambda>limit sofar ins.
     case next_message ins of (m, ins1) \<Rightarrow>
       (let n = sofar + int (length (message_body m)) in
        if n > limit then run_limited (k (Inl PayloadTooLarge)) limit n ins1
        else (let r = run_limited (k (Inr m)) limit n ins1 in r\<lparr>rn_received := m # rn_received r\<rparr>)))"
| "run_limited (Send m app) = (\<lambda>limit sofar ins. let r = run_limited app limit sofar ins in r\<lparr>rn_sent := m # rn_sent r\<rparr>)"
| "run_limited Return = (\<lambda>limit sofar ins. \<lparr>rn_received = [], rn_sent = [], rn_raised = None\<rparr>)"
| "run_limited (Raise e) = (\<lambda>limit sofar ins. \<lparr>rn_received = [], rn_sent = [], rn_raised = Some e\<rparr>)"

text \<open>\<open>int(b)\<close> of bytes: as for strings, within ASCII.\<close>

definition py_int_bytes :: "str \<Rightarrow> exn + int" where
  "py_int_bytes b = (if ascii b then py_int_str b else Inl ValueError)"

definition problem_413_body :: "int \<Rightarrow> str \<Rightarrow> str" where
  "problem_413_body limit cid =
     ''{'' @ join '', '' (map (\<lambda>(k, v). json_string_ascii k @ '': '' @ v)
       [(''type'', json_string_ascii ''https://developer.apexchainx.io/errors/413''), (''title'', json_string_ascii ''Payload Too Large''),
        (''status'', ''413''),
        (''detail'', json_string_ascii (''Request body too large. Maximum allowed size is '' @ py_str_int limit @ '' bytes.'')),
        (''correlation_id'', json_string_ascii cid), (''error_code'', json_string_ascii ''payload_too_large'')]) @ ''}''"

definition send_413 :: "int \<Rightarrow> str \<Rightarrow> out_message list" where
  "send_413 limit cid =
     (let body = problem_413_body limit cid in
      [ResponseStart 413 [(''content-type'', ''application/problem+json''), (''content-length'', py_str_int (int (length body))),
                          (''X-Correlation-ID'', cid)],
       ResponseBody body])"

definition declared_length :: "headers \<Rightarrow> int option" where
  "declared_length hs =
     (case header_value ''content-length'' hs of
        None \<Rightarrow> None
      | Some l \<Rightarrow> if l = [] then None else (case py_int_bytes l of Inl _ \<Rightarrow> None | Inr n \<Rightarrow> Some n))"

definition payload_size_middleware :: "int \<Rightarrow> str \<Rightarrow> str option \<Rightarrow> str \<Rightarrow> str \<Rightarrow> headers \<Rightarrow> asgi_app \<Rightarrow> in_message list \<Rightarrow> app_run" where
  "payload_size_middleware limit uuid ctx kind verb hs app ins =
     (if kind \<noteq> ''http'' \<or> verb \<in> {''GET'', ''HEAD'', ''OPTIONS''} then run_app app ins
      else if (case declared_length hs of None \<Rightarrow> False | Some n \<Rightarrow> n > limit) then
        \<lparr>rn_received = [], rn_sent = send_413 limit (fst (get_or_generate_correlation_id uuid ctx)), rn_raised = None\<rparr>
      else
        (let r = run_limited app limit 0 ins in
         if rn_raised r = Some PayloadTooLarge
         then r\<lparr>rn_sent := rn_sent r @ send_413 limit (fst (get_or_generate_correlation_id uuid ctx)), rn_raised := None\<rparr>
         else r))"

section \<open>Content type\<close>

definition ALLOWED_CONTENT_TYPES :: "str list" where
  "ALLOWED_CONTENT_TYPES = [''application/json'', ''multipart/form-data'']"

definition BODY_METHODS :: "str list" where
  "BODY_METHODS = [''POST'', ''PUT'', ''PATCH'']"

definition has_body :: "str option \<Rightarrow> str \<Rightarrow> bool" where
  "has_body content_length transfer_encoding \<longleftrightarrow>
     (case content_length of None \<Rightarrow> False | Some l \<Rightarrow> (case py_int_str l of Inl _ \<Rightarrow> False | Inr n \<Rightarrow> n > 0)) \<or> transfer_encoding \<noteq> []"

definition is_allowed :: "str option \<Rightarrow> bool" where
  "is_allowed content_type =
     (let t = py_lower (py_strip (hd (split_char (CHR '';'') (case content_type of None \<Rightarrow> [] | Some c \<Rightarrow> c)))) in
      list_ex (\<lambda>a. t = a \<or> starts_with a t) ALLOWED_CONTENT_TYPES)"

definition content_type_dispatch :: "str \<Rightarrow> str option \<Rightarrow> str \<Rightarrow> str option \<Rightarrow> (int + unit)" where
  "content_type_dispatch verb content_length transfer_encoding content_type =
     (if verb \<in> set BODY_METHODS \<and> has_body content_length transfer_encoding \<and> \<not> is_allowed content_type then Inl 415 else Inr ())"

section \<open>Headers of every response\<close>

definition set_header :: "str \<Rightarrow> str \<Rightarrow> headers \<Rightarrow> headers" where
  "set_header name v hs = filter (\<lambda>(n, _). py_lower n \<noteq> py_lower name) hs @ [(name, v)]"

definition csp_value :: "bool \<Rightarrow> str \<Rightarrow> str" where
  "csp_value permissive path =
     (let q = (\<lambda>s. CHR 0x27 # s @ [CHR 0x27]) in
      if permissive \<and> (starts_with ''/docs'' path \<or> starts_with ''/redoc'' path \<or> starts_with ''/openapi'' path)
      then ''default-src '' @ q ''self'' @ '' '' @ q ''unsafe-inline'' @ '' '' @ q ''unsafe-eval'' @ '' data: blob:''
      else ''default-src '' @ q ''none'' @ ''; frame-ancestors '' @ q ''none'')"

definition security_headers :: "settings \<Rightarrow> str \<Rightarrow> str \<Rightarrow> str \<Rightarrow> out_message \<Rightarrow> out_message" where
  "security_headers cfg kind verb path m =
     (case m of
        ResponseStart status hs \<Rightarrow>
          if kind \<noteq> ''http'' \<or> \<not> SECURITY_HEADERS_ENABLED (st_webhook cfg) \<or> py_upper verb = ''OPTIONS'' then m
          else ResponseStart status
            (set_header ''permissions-policy'' ''interest-cohort=()''
              (set_header ''content-security-policy'' (csp_value (SECURITY_CSP_SWAGGER_PERMISSIVE (st_webhook cfg)) path)
                (set_header ''referrer-policy'' ''no-referrer''
                  (set_header ''x-frame-options'' ''DENY''
                    (set_header ''x-content-type-options'' ''nosniff''
                      (if py_lower (ENVIRONMENT (st_webhook cfg)) \<noteq> ''local''
                       then set_header ''strict-transport-security'' ''max-age=63072000; includeSubDomains'' hs else hs))))))
      | _ \<Rightarrow> m)"

text \<open>The id of the request is the caller's, if it is not empty; the start of the response carries it.\<close>

definition correlation_id_of :: "str \<Rightarrow> str option \<Rightarrow> str option \<Rightarrow> str \<times> str option" where
  "correlation_id_of uuid header ctx =
     (let c = (if truthy header then the header else fst (get_or_generate_correlation_id uuid ctx)) in (c, Some c))"

definition correlation_send :: "str \<Rightarrow> out_message \<Rightarrow> out_message" where
  "correlation_send cid m =
     (case m of ResponseStart status hs \<Rightarrow> ResponseStart status (AList.update ''x-correlation-id'' cid (dict_of hs)) | _ \<Rightarrow> m)"

text \<open>\<open>response.headers[name] = value\<close>: the first header of the name takes the value, later ones go.\<close>

fun replace_header :: "str \<Rightarrow> str \<Rightarrow> headers \<Rightarrow> headers" where
  "replace_header name v [] = [(name, v)]"
| "replace_header name v ((n, x) # hs) = (if n = name then (name, v) # filter (\<lambda>(n, _). n \<noteq> name) hs else (n, x) # replace_header name v hs)"

definition version_send :: "settings \<Rightarrow> str \<Rightarrow> out_message \<Rightarrow> out_message" where
  "version_send cfg commit m =
     (case m of
        ResponseStart status hs \<Rightarrow> ResponseStart status
          (replace_header ''x-supported-api-versions'' (join '','' (supported_versions cfg))
            (replace_header ''x-api-commit'' commit (replace_header ''x-api-version'' (VERSION (st_app cfg)) hs)))
      | _ \<Rightarrow> m)"

section \<open>ETags\<close>

lemma send_all_passed:
  assumes "\<And>m. m \<in> set ms \<Longrightarrow> f st m = Inr ([m], st)"
  shows "send_all f ms st = (ms, None)"
  using assms by (induction ms) simp_all

lemma send_all_dropped:
  assumes "\<And>m. m \<in> set ms \<Longrightarrow> f st m = Inr ([], st)"
  shows "send_all f ms st = ([], None)"
  using assms by (induction ms) simp_all

text \<open>The ETag of a response: its first chunk and its declared length.\<close>

definition etag_of :: "(str \<Rightarrow> str) \<Rightarrow> headers \<Rightarrow> str \<Rightarrow> str" where
  "etag_of sha hs chunk = compute_etag sha (take MAX_ETAG_BODY_BYTES chunk) (first_header ''content-length'' hs)"

lemma etag_response:
  assumes verb: "kind = ''http''" "verb \<in> {''GET'', ''HEAD''}" "\<not> is_excluded excluded path"
    and start: "200 \<le> status" "status < 300" "\<not> list_ex (\<lambda>(n, v). py_lower n = ''etag'') hs"
      "\<forall>l. first_header ''content-length'' hs = Some l \<longrightarrow> ascii l"
  shows "etag_middleware sha excluded kind verb path rq (ResponseStart status hs # map ResponseBody (chunk # chunks)) =
     (if header_value ''if-none-match'' rq = Some (etag_of sha hs chunk)
      then [ResponseStart 304 ((''etag'', etag_of sha hs chunk) #
              (case first_header ''x-correlation-id'' hs of None \<Rightarrow> [] | Some c \<Rightarrow> [(''x-correlation-id'', c)]))]
      else ResponseStart status (hs @ [(''etag'', etag_of sha hs chunk)]) # map ResponseBody (chunk # chunks), None)"
proof -
  let ?f = "send_with_etag sha (header_value ''if-none-match'' rq)" and ?e = "etag_of sha hs chunk"
  let ?nm = "header_value ''if-none-match'' rq = Some ?e"
  let ?st = "etag_start\<lparr>es_status := status, es_headers := hs, es_buffer := True\<rparr>"
  let ?st1 = "?st\<lparr>es_prefix := take MAX_ETAG_BODY_BYTES chunk, es_etag := Some ?e, es_not_modified := ?nm\<rparr>"
  have s: "?f etag_start (ResponseStart status hs) = Inr ([], ?st)"
    using start(1-3) by (simp add: send_with_etag_def etag_start_def Let_def)
  have b: "?f ?st (ResponseBody chunk) = Inr (if ?nm then [ResponseStart 304 ((''etag'', ?e) #
              (case first_header ''x-correlation-id'' hs of None \<Rightarrow> [] | Some c \<Rightarrow> [(''x-correlation-id'', c)]))]
      else [ResponseStart status (hs @ [(''etag'', ?e)]), ResponseBody chunk], ?st1)"
    using start(4) by (auto simp: send_with_etag_def etag_start_def etag_of_def Let_def split: option.splits)
  have r: "send_all ?f (map ResponseBody chunks) ?st1 = (if ?nm then [] else map ResponseBody chunks, None)"
    by (cases ?nm) (auto intro!: send_all_passed send_all_dropped simp: send_with_etag_def etag_start_def)
  show ?thesis using verb by (simp add: etag_middleware_def s b r)
qed

text \<open>
  A successful response without an ETag of its own gets one from its first chunk and its declared length.  A client that
  names the ETag is answered with 304 and not a single body message, any other client gets the response with the ETag and all
  its chunks.
\<close>

theorem etag_answers:
  assumes "kind = ''http''" "verb \<in> {''GET'', ''HEAD''}" "\<not> is_excluded excluded path"
    and "200 \<le> status" "status < 300" "\<not> list_ex (\<lambda>(n, v). py_lower n = ''etag'') hs"
      "\<forall>l. first_header ''content-length'' hs = Some l \<longrightarrow> ascii l"
    and "etag_middleware sha excluded kind verb path rq (ResponseStart status hs # map ResponseBody (chunk # chunks)) = (sent, r)"
  shows "r = None \<and>
    (if header_value ''if-none-match'' rq = Some (etag_of sha hs chunk)
     then \<exists>hs'. sent = [ResponseStart 304 hs'] \<and> (''etag'', etag_of sha hs chunk) \<in> set hs'
     else sent = ResponseStart status (hs @ [(''etag'', etag_of sha hs chunk)]) # map ResponseBody (chunk # chunks))"
  using etag_response [OF assms(1-7), of sha rq chunk chunks] assms(8) by (auto split: if_splits)

text \<open>
  The ETag says nothing of what follows the first chunk: a client that holds the ETag of one response is told that a response
  with other later chunks is not modified.
\<close>

theorem etag_misses_later_chunks:
  assumes "kind = ''http''" "verb \<in> {''GET'', ''HEAD''}" "\<not> is_excluded excluded path"
    and "200 \<le> status" "status < 300" "\<not> list_ex (\<lambda>(n, v). py_lower n = ''etag'') hs"
      "\<forall>l. first_header ''content-length'' hs = Some l \<longrightarrow> ascii l"
    and first: "etag_middleware sha excluded kind verb path rq (ResponseStart status hs # map ResponseBody (chunk # chunks)) =
      (ResponseStart status hs1 # body, None)" "status \<noteq> 304" "header_value ''etag'' hs1 = Some e" "header_value ''if-none-match'' rq2 = Some e"
  shows "\<exists>hs'. etag_middleware sha excluded kind verb path rq2 (ResponseStart status hs # map ResponseBody (chunk # other)) =
           ([ResponseStart 304 hs'], None)"
proof -
  have "hs1 = hs @ [(''etag'', etag_of sha hs chunk)]"
    using first(1,2) etag_response [OF assms(1-7), of sha rq chunk chunks] by (auto split: if_splits)
  then have "e = etag_of sha hs chunk" using first(3) by (simp add: header_value_def dict_of_def update_conv)
  with first(4) etag_response [OF assms(1-7), of sha rq2 chunk other] show ?thesis by auto
qed

section \<open>Request bodies\<close>

definition size_of :: "in_message list \<Rightarrow> int" where
  "size_of ms = (\<Sum>m\<leftarrow>ms. int (length (message_body m)))"

lemma size_of_simps [simp]: "size_of [] = 0" "size_of (m # ms) = int (length (message_body m)) + size_of ms"
  by (simp_all add: size_of_def)

lemma size_of_nonneg: "0 \<le> size_of ms"
  by (induction ms) simp_all

lemma run_limited_nothing: "limit < sofar \<Longrightarrow> rn_received (run_limited app limit sofar ins) = []"
proof (induction app arbitrary: sofar ins)
  case (Receive k)
  obtain m ins1 where m: "next_message ins = (m, ins1)" by fastforce
  with Receive.prems have e: "run_limited (Receive k) limit sofar ins =
      run_limited (k (Inl PayloadTooLarge)) limit (sofar + int (length (message_body m))) ins1" by simp
  show ?case unfolding e by (rule Receive.IH) (use Receive.prems in auto)
qed (simp_all add: Let_def)

lemma run_limited_received: "sofar \<le> limit \<Longrightarrow> sofar + size_of (rn_received (run_limited app limit sofar ins)) \<le> limit"
proof (induction app arbitrary: sofar ins)
  case (Receive k)
  obtain m ins1 where m: "next_message ins = (m, ins1)" by fastforce
  let ?n = "sofar + int (length (message_body m))"
  show ?case
  proof (cases "?n > limit")
    case True
    with m Receive.prems show ?thesis by (simp add: run_limited_nothing)
  next
    case False
    with m Receive.IH [OF rangeI, of ?n "Inr m" ins1] show ?thesis by (simp add: Let_def algebra_simps)
  qed
qed (simp_all add: Let_def)

lemma run_limited_same:
  "sofar + size_of ins \<le> limit \<Longrightarrow> run_limited app limit sofar ins = run_app app ins"
proof (induction app arbitrary: sofar ins)
  case (Receive k)
  obtain m ins1 where m: "next_message ins = (m, ins1)" by fastforce
  then have "int (length (message_body m)) + size_of ins1 = size_of ins" by (cases ins) auto
  moreover have "0 \<le> size_of ins1" by (rule size_of_nonneg)
  ultimately show ?case using m Receive(1) [OF rangeI, of "sofar + int (length (message_body m))" ins1 "Inr m"] Receive(2) by simp
qed simp_all

text \<open>C33. Behind the size guard an application that handles a request with a body never gets more bytes than the limit allows,
  whatever the client declares and whatever the application does with the error; a request within the limit is handled
  as if the guard were not there; one that declares more is answered with 413 and never reaches the application.
\<close>

theorem payload_guard:
  assumes "kind = ''http''" "verb \<notin> {''GET'', ''HEAD'', ''OPTIONS''}" "0 \<le> limit"
  shows "size_of (rn_received (payload_size_middleware limit uuid ctx kind verb hs app ins)) \<le> limit \<and>
    (size_of ins \<le> limit \<and> (\<forall>n. declared_length hs = Some n \<longrightarrow> n \<le> limit) \<and> rn_raised (run_app app ins) \<noteq> Some PayloadTooLarge \<longrightarrow>
       payload_size_middleware limit uuid ctx kind verb hs app ins = run_app app ins) \<and>
    (\<forall>n. declared_length hs = Some n \<and> limit < n \<longrightarrow>
       payload_size_middleware limit uuid ctx kind verb hs app ins =
         \<lparr>rn_received = [], rn_sent = send_413 limit (case ctx of None \<Rightarrow> uuid | Some c \<Rightarrow> c), rn_raised = None\<rparr>)"
proof (intro conjI impI allI)
  show "size_of (rn_received (payload_size_middleware limit uuid ctx kind verb hs app ins)) \<le> limit"
    using assms run_limited_received [of 0 limit app ins] by (simp add: payload_size_middleware_def Let_def split: option.splits)
  show "payload_size_middleware limit uuid ctx kind verb hs app ins = run_app app ins"
    if "size_of ins \<le> limit \<and> (\<forall>n. declared_length hs = Some n \<longrightarrow> n \<le> limit) \<and> rn_raised (run_app app ins) \<noteq> Some PayloadTooLarge"
    using assms that run_limited_same [of 0 ins limit app] by (auto simp: payload_size_middleware_def Let_def split: option.splits)
  show "payload_size_middleware limit uuid ctx kind verb hs app ins =
        \<lparr>rn_received = [], rn_sent = send_413 limit (case ctx of None \<Rightarrow> uuid | Some c \<Rightarrow> c), rn_raised = None\<rparr>"
    if "declared_length hs = Some n \<and> limit < n" for n
    using assms that by (auto simp: payload_size_middleware_def get_or_generate_correlation_id_def split: option.splits)
qed

section \<open>Response headers\<close>

definition values_of :: "str \<Rightarrow> headers \<Rightarrow> str list" where
  "values_of name hs = map snd (filter (\<lambda>(n, _). py_lower n = py_lower name) hs)"

lemma values_of_set_header:
  "values_of name (set_header name' v hs) = (if py_lower name = py_lower name' then [v] else values_of name hs)"
  by (induction hs) (auto simp: values_of_def set_header_def)

text \<open>
  Every response but that of a preflight carries the security headers, each exactly once whatever the application set, HSTS
  outside the local environment, and keeps the application's other headers.
\<close>

theorem security_headers_set:
  assumes "kind = ''http''" "SECURITY_HEADERS_ENABLED (st_webhook cfg)" "py_upper verb \<noteq> ''OPTIONS''"
    and "security_headers cfg kind verb path (ResponseStart status hs) = ResponseStart status' hs'"
  shows "status' = status \<and> values_of ''X-Content-Type-Options'' hs' = [''nosniff''] \<and> values_of ''X-Frame-Options'' hs' = [''DENY''] \<and>
         values_of ''Referrer-Policy'' hs' = [''no-referrer''] \<and> values_of ''Permissions-Policy'' hs' = [''interest-cohort=()''] \<and>
         values_of ''Content-Security-Policy'' hs' = [csp_value (SECURITY_CSP_SWAGGER_PERMISSIVE (st_webhook cfg)) path] \<and>
         (py_lower (ENVIRONMENT (st_webhook cfg)) \<noteq> ''local'' \<longrightarrow>
            values_of ''Strict-Transport-Security'' hs' = [''max-age=63072000; includeSubDomains'']) \<and>
         (\<forall>name. py_lower name \<notin> {''x-content-type-options'', ''x-frame-options'', ''referrer-policy'', ''permissions-policy'',
            ''content-security-policy'', ''strict-transport-security''} \<longrightarrow> values_of name hs' = values_of name hs)"
proof -
  have low: "py_lower ''X-Content-Type-Options'' = ''x-content-type-options''" "py_lower ''X-Frame-Options'' = ''x-frame-options''"
    "py_lower ''Referrer-Policy'' = ''referrer-policy''" "py_lower ''Permissions-Policy'' = ''permissions-policy''"
    "py_lower ''Content-Security-Policy'' = ''content-security-policy''" "py_lower ''Strict-Transport-Security'' = ''strict-transport-security''"
    "py_lower ''x-content-type-options'' = ''x-content-type-options''" "py_lower ''x-frame-options'' = ''x-frame-options''"
    "py_lower ''referrer-policy'' = ''referrer-policy''" "py_lower ''permissions-policy'' = ''permissions-policy''"
    "py_lower ''content-security-policy'' = ''content-security-policy''" "py_lower ''strict-transport-security'' = ''strict-transport-security''"
    by code_simp+
  show ?thesis using assms by (auto simp: security_headers_def values_of_set_header low)
qed

lemma map_of_dict_of: "map_of (dict_of hs) n = map_of (rev hs) n"
proof (induction hs rule: rev_induct)
  case (snoc h hs)
  obtain k v where "h = (k, v)" by fastforce
  with snoc show ?case by (simp add: dict_of_def update_conv)
qed (simp add: dict_of_def)

lemma distinct_dict_of: "distinct (map fst (dict_of hs))"
proof (induction hs rule: rev_induct)
  case (snoc h hs)
  obtain k v where "h = (k, v)" by fastforce
  with snoc show ?case by (simp add: dict_of_def distinct_update)
qed (simp add: dict_of_def)

text \<open>
  The start of every response carries the correlation id once.  Of a header that the application sends several times only
  the last value is left.
\<close>

theorem correlation_headers:
  assumes "correlation_send cid (ResponseStart status hs) = ResponseStart status' hs'"
  shows "status' = status \<and> distinct (map fst hs') \<and> map_of hs' ''x-correlation-id'' = Some cid \<and>
         (\<forall>n. n \<noteq> ''x-correlation-id'' \<longrightarrow> map_of hs' n = map_of (rev hs) n)"
  using assms by (auto simp: correlation_send_def update_conv distinct_update distinct_dict_of map_of_dict_of)

lemma map_of_replace_header: "map_of (replace_header name v hs) n = (if n = name then Some v else map_of hs n)"
proof (induction hs)
  case (Cons h hs)
  obtain k x where "h = (k, x)" by fastforce
  moreover have "n \<noteq> name \<Longrightarrow> map_of (filter (\<lambda>(m, _). m \<noteq> name) hs) n = map_of hs n" for hs :: headers
    by (induction hs) auto
  ultimately show ?case using Cons by auto
qed simp

text \<open>The way of a response from the application to the client: correlation id, security headers, version.\<close>

definition outgoing :: "settings \<Rightarrow> str \<Rightarrow> str \<Rightarrow> str \<Rightarrow> str \<Rightarrow> out_message \<Rightarrow> out_message" where
  "outgoing cfg commit cid verb path m = version_send cfg commit (security_headers cfg ''http'' verb path (correlation_send cid m))"

lemma map_of_set_header:
  "py_lower n = n \<Longrightarrow> py_lower name \<noteq> n \<Longrightarrow> map_of (set_header name v hs) n = map_of hs n"
  by (induction hs) (auto simp: set_header_def)

text \<open>The correlation id and the version reach the client whatever the other layers add.\<close>

theorem outgoing_headers:
  assumes "outgoing cfg commit cid verb path (ResponseStart status hs) = ResponseStart status' hs'"
  shows "status' = status \<and> map_of hs' ''x-correlation-id'' = Some cid \<and> map_of hs' ''x-api-version'' = Some (VERSION (st_app cfg)) \<and>
         map_of hs' ''x-api-commit'' = Some commit"
proof -
  have "py_lower ''x-correlation-id'' = ''x-correlation-id''" "py_lower ''permissions-policy'' = ''permissions-policy''"
    "py_lower ''content-security-policy'' = ''content-security-policy''" "py_lower ''referrer-policy'' = ''referrer-policy''"
    "py_lower ''x-frame-options'' = ''x-frame-options''" "py_lower ''x-content-type-options'' = ''x-content-type-options''"
    "py_lower ''strict-transport-security'' = ''strict-transport-security''"
    by code_simp+
  with assms show ?thesis
    by (auto simp: outgoing_def correlation_send_def security_headers_def version_send_def map_of_replace_header map_of_set_header
        update_conv split: if_splits)
qed

section \<open>The edges\<close>

text \<open>
  An application that has begun to answer when the limit is passed, and lets the error through, leaves the client with two
  starts of a response.
\<close>

definition eager_app :: asgi_app where
  "eager_app = Send (ResponseStart 200 []) (Receive (\<lambda>m. case m of Inl e \<Rightarrow> Raise e | Inr _ \<Rightarrow> Return))"

theorem late_413_starts_twice:
  assumes "limit < int (length body)" "declared_length hs = None"
  shows "\<exists>hs' rest. rn_sent (payload_size_middleware limit uuid ctx ''http'' ''POST'' hs eager_app [RequestBody body]) =
           [ResponseStart 200 [], ResponseStart 413 hs', ResponseBody rest]"
  using assms by (simp add: payload_size_middleware_def eager_app_def send_413_def Let_def)

text \<open>The test on the content type is one of prefixes.\<close>

theorem content_type_prefix: "content_type_dispatch ''POST'' (Some ''2'') [] (Some ''application/json-patch+json'') = Inr ()"
  by (simp add: content_type_dispatch_def) code_simp

section \<open>Witnesses\<close>

lemma security_headers_start: "\<exists>hs'. security_headers cfg kind verb path (ResponseStart status hs) = ResponseStart status hs'"
  by (simp add: security_headers_def)

theorem etag_answers_witness:
  "etag_middleware (\<lambda>s. s) [] ''http'' ''GET'' ''/a'' [(''if-none-match'', ''W/'' @ [CHR 0x22] @ ''x'' @ [CHR 0x22])]
     [ResponseStart 200 [], ResponseBody ''x'', ResponseBody ''y''] =
   ([ResponseStart 304 [(''etag'', ''W/'' @ [CHR 0x22] @ ''x'' @ [CHR 0x22])]], None)"
proof -
  obtain sent r where e: "etag_middleware (\<lambda>s. s) [] ''http'' ''GET'' ''/a'' [(''if-none-match'', ''W/'' @ [CHR 0x22] @ ''x'' @ [CHR 0x22])]
     (ResponseStart 200 [] # map ResponseBody [''x'', ''y'']) = (sent, r)" by fastforce
  have "r = None \<and> (\<exists>hs'. sent = [ResponseStart 304 hs'])"
    using etag_answers [OF _ _ _ _ _ _ _ e]
    by (auto simp: is_excluded_def first_header_def header_value_def dict_of_def etag_of_def compute_etag_def MAX_ETAG_BODY_BYTES_def)
  then show ?thesis using e
    by (auto simp: etag_middleware_def is_excluded_def header_value_def dict_of_def send_with_etag_def etag_start_def first_header_def
        compute_etag_def MAX_ETAG_BODY_BYTES_def Let_def)
qed

theorem etag_misses_later_chunks_witness:
  "\<exists>hs'. etag_middleware (\<lambda>s. s) [] ''http'' ''GET'' ''/a'' [(''if-none-match'', compute_etag (\<lambda>s. s) ''x'' None)]
     (ResponseStart 200 [] # map ResponseBody [''x'', ''z'']) = ([ResponseStart 304 hs'], None)"
proof -
  have "etag_middleware (\<lambda>s. s) [] ''http'' ''GET'' ''/a'' [] (ResponseStart 200 [] # map ResponseBody [''x'', ''y'']) =
      (ResponseStart 200 [(''etag'', compute_etag (\<lambda>s. s) ''x'' None)] # map ResponseBody [''x'', ''y''], None)"
    by (simp add: etag_middleware_def is_excluded_def header_value_def dict_of_def send_with_etag_def etag_start_def first_header_def
        MAX_ETAG_BODY_BYTES_def Let_def)
  from etag_misses_later_chunks [OF _ _ _ _ _ _ _ this, of "compute_etag (\<lambda>s. s) ''x'' None"
      "[(''if-none-match'', compute_etag (\<lambda>s. s) ''x'' None)]" "[''z'']"]
  show ?thesis by (simp add: is_excluded_def first_header_def header_value_def dict_of_def)
qed

theorem payload_guard_witness:
  "size_of (rn_received (payload_size_middleware 3 ''u'' None ''http'' ''POST'' [] eager_app [RequestBody ''body''])) \<le> 3"
  using payload_guard [of "''http''" "''POST''" 3] by simp

theorem security_headers_set_witness:
  "\<exists>hs. security_headers default_settings ''http'' ''GET'' ''/docs'' (ResponseStart 200 []) = ResponseStart 200 hs \<and>
     values_of ''X-Frame-Options'' hs = [''DENY'']"
proof -
  obtain hs where e: "security_headers default_settings ''http'' ''GET'' ''/docs'' (ResponseStart 200 []) = ResponseStart 200 hs"
    using security_headers_start by metis
  have "py_upper ''GET'' \<noteq> ''OPTIONS''" by code_simp
  with security_headers_set [OF _ _ _ e] e show ?thesis by (auto simp: default_settings_def webhook_settings_defaults_def)
qed

theorem correlation_headers_witness:
  "map_of [(''set-cookie'', ''b''), (''x-correlation-id'', ''c'')] ''x-correlation-id'' = Some ''c'' \<and>
   correlation_send ''c'' (ResponseStart 200 [(''set-cookie'', ''a''), (''set-cookie'', ''b'')]) =
     ResponseStart 200 [(''set-cookie'', ''b''), (''x-correlation-id'', ''c'')]"
proof -
  have e: "correlation_send ''c'' (ResponseStart 200 [(''set-cookie'', ''a''), (''set-cookie'', ''b'')]) =
     ResponseStart 200 [(''set-cookie'', ''b''), (''x-correlation-id'', ''c'')]" by (simp add: correlation_send_def dict_of_def)
  with correlation_headers [OF e] show ?thesis by simp
qed

theorem outgoing_headers_witness:
  "\<exists>hs. outgoing default_settings ''abc'' ''c'' ''GET'' ''/a'' (ResponseStart 200 []) = ResponseStart 200 hs \<and> map_of hs ''x-correlation-id'' = Some ''c''"
proof -
  obtain hs where e: "outgoing default_settings ''abc'' ''c'' ''GET'' ''/a'' (ResponseStart 200 []) = ResponseStart 200 hs"
    using security_headers_start [of default_settings "''http''" "''GET''" "''/a''" 200 "AList.update ''x-correlation-id'' ''c'' (dict_of [])"]
    by (auto simp: outgoing_def correlation_send_def version_send_def)
  with outgoing_headers [OF e] show ?thesis by simp
qed

theorem late_413_starts_twice_witness:
  "\<exists>hs' rest. rn_sent (payload_size_middleware 3 ''u'' None ''http'' ''POST'' [] eager_app [RequestBody ''body'']) =
     [ResponseStart 200 [], ResponseStart 413 hs', ResponseBody rest]"
  by (rule late_413_starts_twice) (simp_all add: declared_length_def header_value_def dict_of_def)

end
