(* ===== verification/Cursors.thy ===== *)
theory Cursors
  imports Tx_Indexer
begin

text \<open>
  Opaque cursors, \<^verbatim>\<open>utils/cursor.py\<close>, over URL-safe base64 as CPython 3.11 reads and writes it; the cursors and page
  sizes of the block poller, \<^verbatim>\<open>services/block_poller_pagination.py\<close>, its identifier checks,
  \<^verbatim>\<open>block_poller_security.py\<close>, and its backlog report, \<^verbatim>\<open>block_poller_health.py\<close>.  Bytes are characters; UTF-8
  decoding, JSON decoding and ISO timestamps are arguments.
\<close>

section \<open>Base64\<close>

definition b64_char :: "nat \<Rightarrow> char" where
  "b64_char n =
     (if n < 26 then char_of (65 + n) else if n < 52 then char_of (71 + n) else if n < 62 then char_of (n - 4)
      else if n = 62 then CHR ''-'' else CHR ''_'')"

text \<open>Both alphabets are read.\<close>

definition b64_value :: "char \<Rightarrow> nat option" where
  "b64_value c =
     (let n = (of_char c :: nat) in
      if 65 \<le> n \<and> n \<le> 90 then Some (n - 65) else if 97 \<le> n \<and> n \<le> 122 then Some (n - 71)
      else if 48 \<le> n \<and> n \<le> 57 then Some (n + 4)
      else if n = 45 \<or> n = 43 then Some 62 else if n = 95 \<or> n = 47 then Some 63 else None)"

fun urlsafe_b64encode :: "string \<Rightarrow> string" where
  "urlsafe_b64encode [] = []"
| "urlsafe_b64encode [x] =
     (let a = (of_char x :: nat) in [b64_char (a div 4), b64_char (a mod 4 * 16), CHR ''='', CHR ''=''])"
| "urlsafe_b64encode [x, y] =
     (let a = (of_char x :: nat); b = of_char y in
      [b64_char (a div 4), b64_char (a mod 4 * 16 + b div 16), b64_char (b mod 16 * 4), CHR ''=''])"
| "urlsafe_b64encode (x # y # z # s) =
     (let a = (of_char x :: nat); b = of_char y; c = of_char z in
      [b64_char (a div 4), b64_char (a mod 4 * 16 + b div 16), b64_char (b mod 16 * 4 + c div 64), b64_char (c mod 64)] @ urlsafe_b64encode s)"

text \<open>
  \<open>binascii.a2b_base64\<close> in its lenient mode: the position in the quantum, the bits left over, and the padding characters
  in a row; characters outside the alphabet are skipped, and a finished padding ends the input.
\<close>

fun a2b_base64 :: "nat \<Rightarrow> nat \<Rightarrow> nat \<Rightarrow> string \<Rightarrow> string option" where
  "a2b_base64 pos left pads [] = (if pos = 0 then Some [] else None)"
| "a2b_base64 pos left pads (c # s) =
     (if c = CHR ''='' then
        (if pos \<ge> 2 then (if pos + (pads + 1) \<ge> 4 then Some [] else a2b_base64 pos left (pads + 1) s)
         else a2b_base64 pos left pads s)
      else case b64_value c of
        None \<Rightarrow> a2b_base64 pos left pads s
      | Some v \<Rightarrow>
          if pos = 0 then a2b_base64 1 v 0 s
          else if pos = 1 then map_option (Cons (char_of (left * 4 + v div 16))) (a2b_base64 2 (v mod 16) 0 s)
          else if pos = 2 then map_option (Cons (char_of (left * 16 + v div 4))) (a2b_base64 3 (v mod 4) 0 s)
          else map_option (Cons (char_of (left * 64 + v))) (a2b_base64 0 0 0 s))"

definition urlsafe_b64decode :: "string \<Rightarrow> string option" where
  "urlsafe_b64decode s = (if list_all (\<lambda>c. (of_char c :: nat) < 128) s then a2b_base64 0 0 0 s else None)"

section \<open>Cursors\<close>

definition encode_cursor :: "str \<Rightarrow> str \<Rightarrow> str" where
  "encode_cursor i v =
     rstrip_char (CHR ''='')
       (urlsafe_b64encode (''{'' @ json_string_ascii ''id'' @ '': '' @ json_string_ascii i @ '', '' @ json_string_ascii ''v'' @ '': '' @ json_string_ascii v @ ''}''))"

definition pad_cursor :: "str \<Rightarrow> str" where
  "pad_cursor s = (if length s mod 4 \<noteq> 0 then s @ replicate (4 - length s mod 4) CHR ''='' else s)"

definition decode_cursor :: "(str \<Rightarrow> str option) \<Rightarrow> (str \<Rightarrow> json option) \<Rightarrow> str option \<Rightarrow> exn + (json \<times> json) option" where
  "decode_cursor utf8 loads cursor =
     (if \<not> truthy cursor then Inr None
      else case Option.bind (Option.bind (urlsafe_b64decode (pad_cursor (the cursor))) utf8) loads of
        None \<Rightarrow> Inr None
      | Some (JObj kvs) \<Rightarrow> Inr (case (map_of kvs ''id'', map_of kvs ''v'') of (Some i, Some v) \<Rightarrow> Some (i, v) | _ \<Rightarrow> None)
      | Some _ \<Rightarrow> Inl TypeError)"

section \<open>Pages of the block poller\<close>

definition MAX_PAGE_SIZE :: int where "MAX_PAGE_SIZE = 100"
definition DEFAULT_PAGE_SIZE :: int where "DEFAULT_PAGE_SIZE = 20"

definition clamp_page_size :: "pyval \<Rightarrow> exn + int" where
  "clamp_page_size v =
     (case py_int v of
        Inl e \<Rightarrow> Inl (if e \<in> {TypeError, ValueError} then ValueError else e)
      | Inr n \<Rightarrow> Inr (if n < 1 then DEFAULT_PAGE_SIZE else min n MAX_PAGE_SIZE))"

definition encode_payment_cursor :: "(time \<Rightarrow> str) \<Rightarrow> str \<Rightarrow> time \<Rightarrow> str" where
  "encode_payment_cursor iso_of payment_id created_at = encode_cursor payment_id (iso_of created_at)"

definition decode_payment_cursor ::
  "(str \<Rightarrow> str option) \<Rightarrow> (str \<Rightarrow> json option) \<Rightarrow> (str \<Rightarrow> datetime option) \<Rightarrow> (json \<Rightarrow> str) \<Rightarrow> str option \<Rightarrow> exn + (str \<times> datetime) option" where
  "decode_payment_cursor utf8 loads parse_iso str_of cursor =
     bind_ok (decode_cursor utf8 loads cursor) (\<lambda>d. Inr
       (case d of
          None \<Rightarrow> None
        | Some (i, v) \<Rightarrow> map_option (\<lambda>t. (str_of i, t)) (parse_iso (str_of v))))"

section \<open>Identifiers\<close>

definition ALLOWED_PAYMENT_STATUSES :: "str list" where
  "ALLOWED_PAYMENT_STATUSES = [''pending'', ''confirmed'', ''failed'']"

definition poller_transaction_hash :: "pyval \<Rightarrow> exn + str" where
  "poller_transaction_hash v =
     (case v of
        PStr s \<Rightarrow> if length s = 64 \<and> list_all (\<lambda>c. is_digit c \<or> c \<in> set ''abcdef'') s then Inr s else Inl ValueError
      | _ \<Rightarrow> Inl ValueError)"

definition poller_payment_status :: "pyval \<Rightarrow> exn + str" where
  "poller_payment_status v =
     (case v of PStr s \<Rightarrow> if s \<in> set ALLOWED_PAYMENT_STATUSES then Inr s else Inl ValueError | _ \<Rightarrow> Inl ValueError)"

section \<open>The backlog\<close>

definition DEFAULT_MAX_PENDING_AGE_SECONDS :: int where "DEFAULT_MAX_PENDING_AGE_SECONDS = 300"

datatype backlog_status = Healthy | Degraded | Unreachable

record backlog_report =
  br_status :: backlog_status
  br_pending :: nat
  br_oldest_age :: "int option"

definition pollable :: "payment_row \<Rightarrow> bool" where
  "pollable p \<longleftrightarrow> p_status p = ''pending'' \<and> p_confirmed_at p = None"

definition age_seconds :: "time \<Rightarrow> time option \<Rightarrow> int option" where
  "age_seconds t oldest = map_option (\<lambda>d. max 0 (t - d)) oldest"

definition build_block_poller_report :: "time \<Rightarrow> bool \<Rightarrow> int \<Rightarrow> database \<Rightarrow> backlog_report" where
  "build_block_poller_report t db_up max_age db =
     (if \<not> db_up then \<lparr>br_status = Unreachable, br_pending = 0, br_oldest_age = None\<rparr>
      else
        (let ps = filter pollable (payments db);
             age = age_seconds t (if ps = [] then None else Some (Min (set (map p_created_at ps)))) in
         \<lparr>br_status = (case age of Some a \<Rightarrow> if a > max_age then Degraded else Healthy | None \<Rightarrow> Healthy),
          br_pending = length ps, br_oldest_age = age\<rparr>))"

section \<open>Base64 reads what it wrote\<close>

lemma b64_value_char: "n < 64 \<Longrightarrow> b64_value (b64_char n) = Some n"
  by (auto simp: b64_value_def b64_char_def Let_def)

lemma b64_char_plain: "n < 64 \<Longrightarrow> b64_char n \<noteq> CHR ''='' \<and> (of_char (b64_char n) :: nat) < 128"
proof -
  assume "n < 64"
  then have "(of_char (b64_char n) :: nat) \<noteq> 61 \<and> (of_char (b64_char n) :: nat) < 128"
    by (auto simp: b64_char_def)
  then show ?thesis by auto
qed

lemma a2b_char:
  assumes "n < 64"
  shows "a2b_base64 pos left pads (b64_char n # s) =
     (if pos = 0 then a2b_base64 1 n 0 s
      else if pos = 1 then map_option (Cons (char_of (left * 4 + n div 16))) (a2b_base64 2 (n mod 16) 0 s)
      else if pos = 2 then map_option (Cons (char_of (left * 16 + n div 4))) (a2b_base64 3 (n mod 4) 0 s)
      else map_option (Cons (char_of (left * 64 + n))) (a2b_base64 0 0 0 s))"
  using assms by (simp add: b64_value_char b64_char_plain)

lemma a2b_padding: "a2b_base64 2 l 0 [CHR ''='', CHR ''=''] = Some []" "a2b_base64 3 l 0 [CHR ''=''] = Some []"
  by simp_all

declare a2b_base64.simps(2) [simp del]

lemma b64_byte_bound: "(of_char c :: nat) < 256"
  by (rule nat_of_char_less_256)

lemma six_bits:
  fixes a b c :: nat
  assumes "a < 256" "b < 256" "c < 256"
  shows "a div 4 < 64" "a mod 4 * 16 + b div 16 < 64" "a mod 4 * 16 < 64" "b mod 16 * 4 + c div 64 < 64" "b mod 16 * 4 < 64" "c mod 64 < 64"
    "(a mod 4 * 16 + b div 16) div 16 = a mod 4" "(a mod 4 * 16 + b div 16) mod 16 = b div 16" "a div 4 * 4 + a mod 4 = a"
    "(b mod 16 * 4 + c div 64) div 4 = b mod 16" "(b mod 16 * 4 + c div 64) mod 4 = c div 64" "b div 16 * 16 + b mod 16 = b"
    "c div 64 * 64 + c mod 64 = c"
proof -
  have "b div 16 < 16" "c div 64 < 4" "a div 4 < 64" using assms by auto
  moreover have "a mod 4 < 4" "b mod 16 < 16" "c mod 64 < 64" by simp_all
  ultimately show "a div 4 < 64" "a mod 4 * 16 + b div 16 < 64" "a mod 4 * 16 < 64" "b mod 16 * 4 + c div 64 < 64" "b mod 16 * 4 < 64" "c mod 64 < 64"
    "(a mod 4 * 16 + b div 16) div 16 = a mod 4" "(a mod 4 * 16 + b div 16) mod 16 = b div 16" "a div 4 * 4 + a mod 4 = a"
    "(b mod 16 * 4 + c div 64) div 4 = b mod 16" "(b mod 16 * 4 + c div 64) mod 4 = c div 64" "b div 16 * 16 + b mod 16 = b"
    "c div 64 * 64 + c mod 64 = c"
    by (auto simp: div_mult_mod_eq)
qed

lemma a2b_encode: "a2b_base64 0 0 0 (urlsafe_b64encode s) = Some s"
proof (induction s rule: urlsafe_b64encode.induct)
  case (2 x)
  note six_bits [OF b64_byte_bound [of x] b64_byte_bound [of x] b64_byte_bound [of x]]
  then show ?case by (simp add: a2b_char a2b_padding Let_def)
next
  case (3 x y)
  note six_bits [OF b64_byte_bound [of x] b64_byte_bound [of y] b64_byte_bound [of y]]
  then show ?case by (simp add: a2b_char a2b_padding Let_def)
next
  case (4 x y z s)
  note six_bits [OF b64_byte_bound [of x] b64_byte_bound [of y] b64_byte_bound [of z]]
  then show ?case using 4 by (simp add: a2b_char Let_def)
qed simp

text \<open>The encoding without its padding.\<close>

definition b64_plain :: "char \<Rightarrow> bool" where
  "b64_plain c \<longleftrightarrow> c \<noteq> CHR ''='' \<and> (of_char c :: nat) < 128"

lemma b64_plain_char: "n < 64 \<Longrightarrow> b64_plain (b64_char n)"
  by (simp add: b64_plain_def b64_char_plain)

fun b64_body :: "string \<Rightarrow> string" where
  "b64_body [] = []"
| "b64_body [x] = take 2 (urlsafe_b64encode [x])"
| "b64_body [x, y] = take 3 (urlsafe_b64encode [x, y])"
| "b64_body (x # y # z # s) = take 4 (urlsafe_b64encode (x # y # z # s)) @ b64_body s"

definition b64_fill :: "nat \<Rightarrow> string" where
  "b64_fill n = (if n mod 4 = 2 then [CHR ''='', CHR ''=''] else if n mod 4 = 3 then [CHR ''=''] else [])"

lemma encode_padded: "urlsafe_b64encode s = b64_body s @ b64_fill (length (b64_body s)) \<and> length (b64_body s) mod 4 \<noteq> 1"
proof (induction s rule: b64_body.induct)
  case (4 x y z s)
  have "length (b64_body (x # y # z # s)) = 4 + length (b64_body s)" by (simp add: Let_def)
  then have "length (b64_body (x # y # z # s)) mod 4 = length (b64_body s) mod 4" by simp
  with 4 show ?case by (simp add: Let_def b64_fill_def del: urlsafe_b64encode.simps(1-3))
qed (simp_all add: Let_def b64_fill_def)

lemma pad_cursor_fill: "length s mod 4 \<noteq> 1 \<Longrightarrow> pad_cursor s = s @ b64_fill (length s)"
proof -
  assume "length s mod 4 \<noteq> 1"
  moreover have "length s mod 4 < 4" by simp
  ultimately have "length s mod 4 = 0 \<or> length s mod 4 = 2 \<or> length s mod 4 = 3" by linarith
  then show ?thesis by (auto simp: pad_cursor_def b64_fill_def numeral_2_eq_2)
qed

lemma take_two: "take 2 (a # b # xs) = [a, b]" and take_three: "take 3 (a # b # c # xs) = [a, b, c]"
  and take_four: "take 4 (a # b # c # d # xs) = [a, b, c, d]"
  by simp_all

lemma body_plain: "list_all b64_plain (b64_body s)"
proof (induction s rule: b64_body.induct)
  case (2 x)
  note b = six_bits(1,3) [OF b64_byte_bound [of x] b64_byte_bound [of x] b64_byte_bound [of x]]
  show ?case unfolding b64_body.simps urlsafe_b64encode.simps Let_def
    by (simp only: take_two list.pred_inject b64_plain_char [OF b(1)] b64_plain_char [OF b(2)] simp_thms)
next
  case (3 x y)
  note b = six_bits(1,2,5) [OF b64_byte_bound [of x] b64_byte_bound [of y] b64_byte_bound [of y]]
  show ?case unfolding b64_body.simps urlsafe_b64encode.simps Let_def
    by (simp only: take_three list.pred_inject b64_plain_char [OF b(1)] b64_plain_char [OF b(2)] b64_plain_char [OF b(3)] simp_thms)
next
  case (4 x y z s)
  note b = six_bits(1,2,4,6) [OF b64_byte_bound [of x] b64_byte_bound [of y] b64_byte_bound [of z]]
  show ?case unfolding b64_body.simps urlsafe_b64encode.simps Let_def
    by (simp only: append_Cons append_Nil take_four list.pred_inject
        b64_plain_char [OF b(1)] b64_plain_char [OF b(2)] b64_plain_char [OF b(3)] b64_plain_char [OF b(4)] 4 simp_thms)
qed simp

lemma b64_roundtrip: "urlsafe_b64decode (pad_cursor (rstrip_char (CHR ''='') (urlsafe_b64encode s))) = Some s"
proof -
  let ?b = "b64_body s" and ?f = "b64_fill (length (b64_body s))"
  have plain: "CHR ''='' \<notin> set ?b" "list_all (\<lambda>c. (of_char c :: nat) < 128) ?b"
    using body_plain [of s] by (auto simp: list_all_iff b64_plain_def)
  have fill: "set ?f \<subseteq> {CHR ''=''}" by (auto simp: b64_fill_def)
  note e = encode_padded [of s]
  have "dropWhile (\<lambda>c. c = CHR ''='') (rev ?f @ rev ?b) = dropWhile (\<lambda>c. c = CHR ''='') (rev ?b)"
    using fill by (intro dropWhile_append2) auto
  also have "\<dots> = rev ?b" using plain(1) using hd_in_set [of "rev ?b"] by (auto simp: dropWhile_eq_self_iff)
  finally have "rstrip_char (CHR ''='') (urlsafe_b64encode s) = ?b" using e by (simp add: rstrip_char_def)
  moreover have "pad_cursor ?b = urlsafe_b64encode s" using e by (simp add: pad_cursor_fill)
  moreover have "list_all (\<lambda>c. (of_char c :: nat) < 128) (urlsafe_b64encode s)"
    using plain(2) fill e by (auto simp: list_all_iff)
  ultimately show ?thesis using a2b_encode by (simp add: urlsafe_b64decode_def)
qed

section \<open>Properties\<close>

text \<open>What a cursor document is when it is written.\<close>

definition cursor_text :: "str \<Rightarrow> str \<Rightarrow> str" where
  "cursor_text i v = ''{'' @ json_string_ascii ''id'' @ '': '' @ json_string_ascii i @ '', '' @ json_string_ascii ''v'' @ '': '' @ json_string_ascii v @ ''}''"

text \<open>C38. A cursor that was issued is read back as the pair it was made from, when UTF-8 and JSON decoding undo the writing; so
  is the key of a payment, when ISO timestamps are read back.
\<close>

theorem cursor_roundtrip:
  assumes "utf8 (cursor_text i (iso_of t)) = Some (cursor_text i (iso_of t))"
    and "loads (cursor_text i (iso_of t)) = Some (JObj [(''id'', JStr i), (''v'', JStr (iso_of t))])"
    and "parse_iso (iso_of t) = Some (Aware t)" "str_of (JStr i) = i" "str_of (JStr (iso_of t)) = iso_of t"
  shows "decode_payment_cursor utf8 loads parse_iso str_of (Some (encode_payment_cursor iso_of i t)) = Inr (Some (i, Aware t))"
proof -
  let ?c = "encode_cursor i (iso_of t)"
  have d: "urlsafe_b64decode (pad_cursor ?c) = Some (cursor_text i (iso_of t))"
    unfolding encode_cursor_def cursor_text_def [symmetric] by (rule b64_roundtrip)
  have "?c \<noteq> []"
  proof
    assume "?c = []"
    with d show False by (simp add: pad_cursor_def urlsafe_b64decode_def cursor_text_def)
  qed
  then have "decode_cursor utf8 loads (Some ?c) = Inr (Some (JStr i, JStr (iso_of t)))"
    using d assms(1,2) by (simp add: decode_cursor_def truthy_def)
  with assms(3-5) show ?thesis by (simp add: decode_payment_cursor_def encode_payment_cursor_def)
qed

text \<open>
  A cursor is refused quietly, read as a pair, or, when it holds a JSON value that is not an object, raises \<open>TypeError\<close>,
  which the decoder does not catch.
\<close>

theorem foreign_cursor_raises:
  assumes "truthy cursor" "urlsafe_b64decode (pad_cursor (the cursor)) = Some bytes" "utf8 bytes = Some doc" "loads doc = Some j"
  shows "decode_cursor utf8 loads cursor = Inl TypeError \<longleftrightarrow> (\<forall>kvs. j \<noteq> JObj kvs)"
  using assms by (auto simp: decode_cursor_def split: json.splits option.splits)

text \<open>A page size is always between one and the maximum, whatever was asked for.\<close>

theorem page_size_in_range: "clamp_page_size v = Inr n \<Longrightarrow> 1 \<le> n \<and> n \<le> MAX_PAGE_SIZE"
  by (auto simp: clamp_page_size_def MAX_PAGE_SIZE_def DEFAULT_PAGE_SIZE_def split: sum.splits if_splits)

text \<open>
  The report is degraded exactly when some payment has been waiting for longer than allowed, and then it tells the age of the
  oldest one.
\<close>

theorem backlog_degraded:
  assumes "0 \<le> max_age"
  shows "br_status (build_block_poller_report t True max_age db) = Degraded \<longleftrightarrow>
           (\<exists>p \<in> set (payments db). p_status p = ''pending'' \<and> p_confirmed_at p = None \<and> t - p_created_at p > max_age)"
    (is "?l \<longleftrightarrow> ?r")
proof -
  let ?ps = "filter pollable (payments db)"
  let ?m = "Min (set (map p_created_at ?ps))"
  show ?thesis
  proof (cases "?ps = []")
    case True
    then have "\<not> ?r" by (auto simp: pollable_def filter_empty_conv)
    with True show ?thesis by (simp add: build_block_poller_report_def age_seconds_def)
  next
    case False
    then have "?l \<longleftrightarrow> max_age < t - ?m" using assms by (simp add: build_block_poller_report_def age_seconds_def Let_def) linarith
    also have "\<dots> \<longleftrightarrow> ?m < t - max_age" by linarith
    also have "\<dots> \<longleftrightarrow> (\<exists>x \<in> set (map p_created_at ?ps). x < t - max_age)" using False by (subst Min_less_iff) (auto simp: filter_empty_conv)
    also have "\<dots> \<longleftrightarrow> ?r" by (auto simp: pollable_def algebra_simps)
    finally show ?thesis .
  qed
qed

section \<open>Witnesses\<close>

theorem cursor_roundtrip_witness:
  "decode_payment_cursor Some (\<lambda>s. if s = cursor_text ''p1'' ''7'' then Some (JObj [(''id'', JStr ''p1''), (''v'', JStr ''7'')]) else None)
     (\<lambda>s. if s = ''7'' then Some (Aware 7) else None) (\<lambda>j. case j of JStr s \<Rightarrow> s | _ \<Rightarrow> [])
     (Some (encode_payment_cursor (\<lambda>_. ''7'') ''p1'' 7)) = Inr (Some (''p1'', Aware 7))"
  by (rule cursor_roundtrip) simp_all

theorem foreign_cursor_raises_witness: "decode_cursor Some (\<lambda>_. Some (JInt 1)) (Some ''MQ'') = Inl TypeError"
proof -
  have "urlsafe_b64decode (pad_cursor ''MQ'') = Some ''1''" by code_simp
  from foreign_cursor_raises [of "Some ''MQ''" "''1''" Some "''1''" "\<lambda>_. Some (JInt 1)" "JInt 1"] this show ?thesis by (simp add: truthy_def)
qed

theorem page_size_in_range_witness: "clamp_page_size (PInt 500) = Inr 100 \<and> (1 :: int) \<le> 100"
  using page_size_in_range [of "PInt 500" 100] by (simp add: clamp_page_size_def MAX_PAGE_SIZE_def)

definition no_rows :: database where
  "no_rows = \<lparr>outages = [], outage_events = [], sla_results = [], payments = [], audit = \<lparr>rows = [], next_id = 1\<rparr>,
     next_sla_id = 1, uuid_count = 0\<rparr>"

theorem backlog_degraded_witness: "br_status (build_block_poller_report 400 True 300 no_rows) \<noteq> Degraded"
  using backlog_degraded [of 300 400 no_rows] by (simp add: no_rows_def)

end
