(* ===== verification/Oauth.thy ===== *)
theory Oauth
  imports Cursors
begin

text \<open>
  OAuth connect states, \<^verbatim>\<open>services/oauth_session.py\<close>, their periodic pruning, \<^verbatim>\<open>tasks/oauth_tasks.py\<close>, and the two
  endpoints of \<^verbatim>\<open>api/v1/endpoints/oauth.py\<close>.  A row of the store is what \<open>json.loads\<close> makes of the stored text, nothing
  if it is not JSON, with the expiry that Redis keeps for it, if any.  ISO timestamps, SHA-256 and the random token are
  arguments.
\<close>

definition STATE_KEY_PREFIX :: str where "STATE_KEY_PREFIX = ''oauth_state:''"

type_synonym state_row = "json option \<times> time option"
type_synonym oauth_store = "(str \<times> state_row) list"

record oauth_env =
  oe_now :: time
  oe_ttl :: time
  oe_iso :: "time \<Rightarrow> str"
  oe_parse_iso :: "str \<Rightarrow> datetime option"
  oe_sha256 :: "str \<Rightarrow> str"

definition state_key :: "str \<Rightarrow> str" where
  "state_key state = STATE_KEY_PREFIX @ state"

section \<open>The store\<close>

definition state_get :: "time \<Rightarrow> str \<Rightarrow> oauth_store \<Rightarrow> json option option" where
  "state_get t k st =
     (case map_of st k of
        None \<Rightarrow> None
      | Some (v, expiry) \<Rightarrow> (case expiry of None \<Rightarrow> Some v | Some e \<Rightarrow> if t < e then Some v else None))"

definition json_truthy :: "json \<Rightarrow> bool" where
  "json_truthy j = (j \<notin> {JNull, JBool False, JInt 0, JStr [], JList [], JObj []})"

definition create_state :: "oauth_env \<Rightarrow> str \<Rightarrow> str \<Rightarrow> str \<Rightarrow> str option \<Rightarrow> oauth_store \<Rightarrow> str \<times> oauth_store" where
  "create_state env token provider redirect_uri code_challenge st =
     (let state = ''oauth_state_'' @ token;
          payload = JObj [(''provider'', JStr provider), (''redirect_uri'', JStr redirect_uri),
            (''code_challenge'', case code_challenge of None \<Rightarrow> JNull | Some c \<Rightarrow> JStr c),
            (''created_at'', JStr (oe_iso env (oe_now env))), (''expires_at'', JStr (oe_iso env (oe_now env + oe_ttl env)))] in
      (state, AList.update (state_key state) (Some payload, Some (oe_now env + oe_ttl env)) st))"

definition is_expired :: "oauth_env \<Rightarrow> json \<Rightarrow> exn + bool" where
  "is_expired env payload =
     (if \<not> json_truthy payload then Inr False
      else case payload of
        JObj kvs \<Rightarrow>
          (case map_of kvs ''expires_at'' of
             None \<Rightarrow> Inr False
           | Some raw \<Rightarrow>
               if \<not> json_truthy raw then Inr False
               else case raw of
                 JStr s \<Rightarrow>
                   (case oe_parse_iso env s of
                      None \<Rightarrow> Inr True
                    | Some (Aware t) \<Rightarrow> Inr (t \<le> oe_now env)
                    | Some (Naive t) \<Rightarrow> Inr (t \<le> oe_now env))
               | _ \<Rightarrow> Inr True)
      | _ \<Rightarrow> Inl AttributeError)"

definition json_none :: "json \<Rightarrow> json option" where
  "json_none j = (if j = JNull then None else Some j)"

definition get_state :: "oauth_env \<Rightarrow> str \<Rightarrow> oauth_store \<Rightarrow> (exn + json option) \<times> oauth_store" where
  "get_state env state st =
     (let k = state_key state in
      case state_get (oe_now env) k st of
        None \<Rightarrow> (Inr None, st)
      | Some None \<Rightarrow> (Inr None, AList.delete k st)
      | Some (Some payload) \<Rightarrow>
          (case is_expired env payload of
             Inl e \<Rightarrow> (Inl e, st)
           | Inr True \<Rightarrow> (Inr None, AList.delete k st)
           | Inr False \<Rightarrow> (Inr (json_none payload), st)))"

definition consume_state :: "oauth_env \<Rightarrow> str \<Rightarrow> oauth_store \<Rightarrow> (exn + json option) \<times> oauth_store" where
  "consume_state env state st =
     (let k = state_key state in
      case state_get (oe_now env) k st of
        None \<Rightarrow> (Inr None, st)
      | Some None \<Rightarrow> (Inr None, AList.delete k st)
      | Some (Some payload) \<Rightarrow>
          (case is_expired env payload of
             Inl e \<Rightarrow> (Inl e, AList.delete k st)
           | Inr True \<Rightarrow> (Inr None, AList.delete k st)
           | Inr False \<Rightarrow> (Inr (json_none payload), AList.delete k st)))"

text \<open>The scan visits the keys in some order; a null document counts as corrupt.\<close>

fun prune_keys :: "oauth_env \<Rightarrow> str list \<Rightarrow> nat \<Rightarrow> oauth_store \<Rightarrow> (exn + nat) \<times> oauth_store" where
  "prune_keys env [] deleted st = (Inr deleted, st)"
| "prune_keys env (k # ks) deleted st =
     (case state_get (oe_now env) k st of
        None \<Rightarrow> prune_keys env ks deleted st
      | Some row \<Rightarrow>
          (case (case row of None \<Rightarrow> Inr True | Some payload \<Rightarrow> if payload = JNull then Inr True else is_expired env payload) of
             Inl e \<Rightarrow> (Inl e, st)
           | Inr True \<Rightarrow> prune_keys env ks (deleted + 1) (AList.delete k st)
           | Inr False \<Rightarrow> prune_keys env ks deleted st))"

definition prune_expired_states :: "oauth_env \<Rightarrow> oauth_store \<Rightarrow> (exn + nat) \<times> oauth_store" where
  "prune_expired_states env st = prune_keys env (filter (starts_with STATE_KEY_PREFIX) (map fst st)) 0 st"

definition verify_code_challenge :: "oauth_env \<Rightarrow> str \<Rightarrow> str \<Rightarrow> exn + bool" where
  "verify_code_challenge env verifier challenge =
     (if \<not> list_all (\<lambda>c. (of_char c :: nat) < 128) verifier then Inl ValueError
      else if \<not> list_all (\<lambda>c. (of_char c :: nat) < 128) challenge then Inl TypeError
      else Inr (rstrip_char (CHR ''='') (urlsafe_b64encode (oe_sha256 env verifier)) = challenge))"

section \<open>The endpoints\<close>

definition PROVIDERS :: "str list" where
  "PROVIDERS = [''google'', ''github'', ''gitlab'']"

datatype oauth_answer = Authorization str str | Refused nat str

definition authorize :: "oauth_env \<Rightarrow> str list \<Rightarrow> str \<Rightarrow> str \<Rightarrow> str \<Rightarrow> str option \<Rightarrow> oauth_store \<Rightarrow> oauth_answer \<times> oauth_store" where
  "authorize env allowlist token provider redirect_uri code_challenge st =
     (if provider \<notin> set PROVIDERS then (Refused 400 (''Unsupported provider: '' @ provider), st)
      else if redirect_uri \<notin> set allowlist then (Refused 400 ''invalid_redirect'', st)
      else case create_state env token provider redirect_uri code_challenge st of
        (state, st1) \<Rightarrow>
          (Authorization
             (''/api/v1/oauth/'' @ provider @ ''/callback?state='' @ state @ ''&redirect_uri='' @ redirect_uri @
              (if truthy code_challenge then ''&code_challenge='' @ the code_challenge else [])) state, st1))"

text \<open>A callback answers with the reason it fails, which the audit log gets as well unless the state itself is at fault.\<close>

definition oauth_callback ::
  "oauth_env \<Rightarrow> str \<Rightarrow> str \<Rightarrow> str option \<Rightarrow> oauth_store \<Rightarrow> (exn + oauth_answer) \<times> str option \<times> oauth_store" where
  "oauth_callback env provider state verifier st =
     (if provider \<notin> set PROVIDERS then (Inr (Refused 400 (''Unsupported provider: '' @ provider)), None, st)
      else if state = [] then (Inr (Refused 400 ''state_required''), None, st)
      else case consume_state env state st of
        (Inl e, st1) \<Rightarrow> (Inl e, None, st1)
      | (Inr None, st1) \<Rightarrow> (Inr (Refused 400 ''invalid_or_expired_state''), None, st1)
      | (Inr (Some stored), st1) \<Rightarrow>
          (case stored of
             JObj kvs \<Rightarrow>
               (case map_of kvs ''provider'' of
                  None \<Rightarrow> (Inl KeyError, None, st1)
                | Some p \<Rightarrow>
                    if p \<noteq> JStr provider then (Inr (Refused 400 ''provider_mismatch''), None, st1)
                    else
                      (let challenge = (case map_of kvs ''code_challenge'' of None \<Rightarrow> JNull | Some c \<Rightarrow> c) in
                       if json_truthy challenge then
                         (if \<not> truthy verifier then (Inr (Refused 400 ''invalid_code_verifier''), Some ''pkce_verification_failed'', st1)
                          else case challenge of
                            JStr c \<Rightarrow>
                              (case verify_code_challenge env (the verifier) c of
                                 Inl e \<Rightarrow> (Inl e, None, st1)
                               | Inr False \<Rightarrow> (Inr (Refused 400 ''invalid_code_verifier''), Some ''pkce_verification_failed'', st1)
                               | Inr True \<Rightarrow> (Inr (Refused 501 ''oauth_provider_exchange_not_implemented''), Some ''provider_exchange_not_implemented'', st1))
                          | _ \<Rightarrow> (Inl TypeError, None, st1))
                       else if truthy verifier then (Inr (Refused 400 ''invalid_code_verifier''), Some ''unexpected_code_verifier'', st1)
                       else (Inr (Refused 501 ''oauth_provider_exchange_not_implemented''), Some ''provider_exchange_not_implemented'', st1)))
           | _ \<Rightarrow> (Inl TypeError, None, st1)))"

section \<open>A state is used once\<close>

datatype oauth_op = Authorize oauth_env "str list" str str str "str option" | Callback oauth_env str str "str option" | Peek oauth_env str | Prune oauth_env

fun oauth_do :: "oauth_op \<Rightarrow> oauth_store \<Rightarrow> oauth_store" where
  "oauth_do (Authorize env allowlist token provider uri challenge) st = snd (authorize env allowlist token provider uri challenge st)"
| "oauth_do (Callback env provider state verifier) st = snd (snd (oauth_callback env provider state verifier st))"
| "oauth_do (Peek env state) st = snd (get_state env state st)"
| "oauth_do (Prune env) st = snd (prune_expired_states env st)"

fun reissues :: "str \<Rightarrow> oauth_op \<Rightarrow> bool" where
  "reissues state (Authorize env allowlist token provider uri challenge) \<longleftrightarrow> ''oauth_state_'' @ token = state"
| "reissues state _ \<longleftrightarrow> False"

lemma consume_store: "snd (consume_state env s st) = st \<or> snd (consume_state env s st) = AList.delete (state_key s) st"
  by (auto simp: consume_state_def Let_def split: option.splits sum.splits bool.splits)

lemma oauth_callback_store:
  "snd (snd (oauth_callback env p s v st)) = st \<or> snd (snd (oauth_callback env p s v st)) = AList.delete (state_key s) st"
proof (cases "p \<notin> set PROVIDERS \<or> s = []")
  case True
  then show ?thesis by (auto simp: oauth_callback_def)
next
  case False
  obtain r st1 where c: "consume_state env s st = (r, st1)" by fastforce
  have "snd (snd (oauth_callback env p s v st)) = st1"
    using False c by (auto simp: oauth_callback_def Let_def split: sum.splits option.splits json.splits bool.splits)
  with c consume_store [of env s st] show ?thesis by simp
qed

lemma map_of_prune: "map_of (snd (prune_keys env ks n st)) k = map_of st k \<or> map_of (snd (prune_keys env ks n st)) k = None"
proof (induction ks arbitrary: n st)
  case (Cons j ks)
  have "map_of (snd (prune_keys env ks m (AList.delete j st))) k = map_of st k \<or> map_of (snd (prune_keys env ks m (AList.delete j st))) k = None" for m
    using Cons [of m "AList.delete j st"] by (auto simp: delete_conv split: if_splits)
  with Cons show ?case by (auto split: option.splits sum.splits bool.splits)
qed simp

lemma absent_stays:
  assumes "map_of st (state_key s) = None" "\<not> reissues s op"
  shows "map_of (oauth_do op st) (state_key s) = None"
proof (cases op)
  case (Authorize env allowlist token p u c)
  with assms show ?thesis by (auto simp: authorize_def create_state_def Let_def update_conv state_key_def)
next
  case (Callback env p s' v)
  with assms oauth_callback_store [of env p s' v st] show ?thesis by (auto simp: delete_conv)
next
  case (Peek env s')
  have "snd (get_state env s' st) = st \<or> snd (get_state env s' st) = AList.delete (state_key s') st"
    by (auto simp: get_state_def Let_def split: option.splits sum.splits bool.splits)
  with Peek assms show ?thesis by (auto simp: delete_conv)
next
  case (Prune env)
  with assms map_of_prune [of env _ 0 st "state_key s"] show ?thesis
    by (metis oauth_do.simps(4) prune_expired_states_def)
qed

lemma consumed_is_absent:
  assumes "consume_state env s st = (r, st1)"
  shows "map_of st1 (state_key s) = None \<or> state_get (oe_now env) (state_key s) st = None"
  using assms by (auto simp: consume_state_def Let_def delete_conv split: option.splits sum.splits bool.splits)

text \<open>C37. A state gets past the check of a callback once: after a callback that found it, whatever it answered, no later callback
  finds it, whatever other requests and sweeps come between, unless the same random token is drawn again.
\<close>

theorem state_used_once:
  assumes "state_get (oe_now env) (state_key s) st \<noteq> None" "p \<in> set PROVIDERS" "s \<noteq> []"
    and "\<forall>op \<in> set ops. \<not> reissues s op" "p2 \<in> set PROVIDERS"
  shows "oauth_callback env2 p2 s v2 (foldl (\<lambda>x op. oauth_do op x) (snd (snd (oauth_callback env p s v st))) ops) =
     (Inr (Refused 400 ''invalid_or_expired_state''), None, foldl (\<lambda>x op. oauth_do op x) (snd (snd (oauth_callback env p s v st))) ops)"
proof -
  obtain r st1 where c: "consume_state env s st = (r, st1)" by fastforce
  have "snd (snd (oauth_callback env p s v st)) = st1"
    using assms(2,3) c by (auto simp: oauth_callback_def Let_def split: sum.splits option.splits json.splits bool.splits)
  then have "map_of (snd (snd (oauth_callback env p s v st))) (state_key s) = None" using consumed_is_absent [OF c] assms(1) by simp
  with assms(4) have "map_of (foldl (\<lambda>x op. oauth_do op x) (snd (snd (oauth_callback env p s v st))) ops) (state_key s) = None"
    by (induction ops rule: rev_induct) (auto intro: absent_stays)
  then show ?thesis using assms(3,5) by (simp add: oauth_callback_def consume_state_def state_get_def)
qed

section \<open>Who reaches the exchange\<close>

definition stored_challenge :: "(str \<times> json) list \<Rightarrow> json" where
  "stored_challenge kvs = (case map_of kvs ''code_challenge'' of None \<Rightarrow> JNull | Some c \<Rightarrow> c)"

text \<open>
  A callback reaches the exchange with the provider only for a state that was stored for this provider, is in the store and has
  not expired, and only with the verifier of the stored challenge, or without a verifier if none was stored.
\<close>

theorem exchange_needs_proof:
  assumes "oauth_callback env p s v st = (Inr (Refused 501 d), lg, st1)"
  shows "\<exists>kvs. state_get (oe_now env) (state_key s) st = Some (Some (JObj kvs)) \<and> is_expired env (JObj kvs) = Inr False \<and>
           map_of kvs ''provider'' = Some (JStr p) \<and>
           (if json_truthy (stored_challenge kvs)
            then \<exists>w. v = Some w \<and> stored_challenge kvs = JStr (rstrip_char (CHR ''='') (urlsafe_b64encode (oe_sha256 env w)))
            else \<not> truthy v)"
proof -
  have p: "p \<in> set PROVIDERS" "s \<noteq> []" using assms by (auto simp: oauth_callback_def split: if_splits)
  obtain r st2 where c: "consume_state env s st = (r, st2)" by fastforce
  with assms p obtain kvs where r: "r = Inr (Some (JObj kvs))"
    by (auto simp: oauth_callback_def split: sum.splits option.splits json.splits)
  have live: "state_get (oe_now env) (state_key s) st = Some (Some (JObj kvs))" "is_expired env (JObj kvs) = Inr False"
    using c r by (auto simp: consume_state_def json_none_def Let_def split: option.splits sum.splits bool.splits if_splits)
  from assms p c r have prov: "map_of kvs ''provider'' = Some (JStr p)"
    by (auto simp: oauth_callback_def split: option.splits if_splits)
  have "if json_truthy (stored_challenge kvs)
            then \<exists>w. v = Some w \<and> stored_challenge kvs = JStr (rstrip_char (CHR ''='') (urlsafe_b64encode (oe_sha256 env w)))
            else \<not> truthy v"
    using assms p c r prov
    by (cases v) (auto simp: oauth_callback_def stored_challenge_def [symmetric] verify_code_challenge_def truthy_def Let_def
        split: json.splits if_splits sum.splits bool.splits)
  with live prov show ?thesis by blast
qed

text \<open>
  A state issued for a provider serves for its lifetime and no longer: until it ends a callback of the provider with the right
  verifier reaches the exchange, from then on it is invalid.
\<close>

theorem issued_state_lifetime:
  assumes iso: "oe_parse_iso env2 (oe_iso env (oe_now env + oe_ttl env)) = Some (Aware (oe_now env + oe_ttl env))" "oe_iso env (oe_now env + oe_ttl env) \<noteq> []"
    and issued: "authorize env allowlist token p uri challenge st = (Authorization url s, st1)"
    and verifier: "case challenge of None \<Rightarrow> v = None
        | Some c \<Rightarrow> c \<noteq> [] \<and> (\<exists>w. v = Some w \<and> w \<noteq> [] \<and> verify_code_challenge env2 w c = Inr True)"
  shows "fst (oauth_callback env2 p s v st1) =
     Inr (if oe_now env2 < oe_now env + oe_ttl env then Refused 501 ''oauth_provider_exchange_not_implemented''
          else Refused 400 ''invalid_or_expired_state'')"
proof -
  define exp where "exp = oe_now env + oe_ttl env"
  define kvs where "kvs = [(''provider'', JStr p), (''redirect_uri'', JStr uri),
            (''code_challenge'', case challenge of None \<Rightarrow> JNull | Some c \<Rightarrow> JStr c),
            (''created_at'', JStr (oe_iso env (oe_now env))), (''expires_at'', JStr (oe_iso env exp))]"
  from issued have p: "p \<in> set PROVIDERS" and s: "s = ''oauth_state_'' @ token"
    and st1: "st1 = AList.update (state_key s) (Some (JObj kvs), Some exp) st"
    by (auto simp: authorize_def create_state_def Let_def kvs_def exp_def split: if_splits)
  have g: "state_get (oe_now env2) (state_key s) st1 = (if oe_now env2 < exp then Some (Some (JObj kvs)) else None)"
    by (simp add: st1 state_get_def update_conv)
  have e: "is_expired env2 (JObj kvs) = Inr (exp \<le> oe_now env2)"
    using iso by (simp add: is_expired_def json_truthy_def kvs_def exp_def)
  show ?thesis
  proof (cases "oe_now env2 < exp")
    case False
    with g p s show ?thesis by (simp add: oauth_callback_def consume_state_def exp_def)
  next
    case True
    then have "fst (consume_state env2 s st1) = Inr (Some (JObj kvs))" using g e by (simp add: consume_state_def json_none_def)
    then obtain st2 where "consume_state env2 s st1 = (Inr (Some (JObj kvs)), st2)" by (metis prod.collapse)
    with True p s verifier show ?thesis
      by (cases challenge) (auto simp: oauth_callback_def kvs_def json_truthy_def truthy_def exp_def Let_def)
  qed
qed

section \<open>Two callbacks at once\<close>

text \<open>The consumption is a read followed by a deletion; between the two another request may read.\<close>

definition consume_read :: "oauth_env \<Rightarrow> str \<Rightarrow> oauth_store \<Rightarrow> json option option" where
  "consume_read env s st = state_get (oe_now env) (state_key s) st"

definition consume_finish :: "oauth_env \<Rightarrow> str \<Rightarrow> json option option \<Rightarrow> oauth_store \<Rightarrow> (exn + json option) \<times> oauth_store" where
  "consume_finish env s data st =
     (case data of
        None \<Rightarrow> (Inr None, st)
      | Some None \<Rightarrow> (Inr None, AList.delete (state_key s) st)
      | Some (Some payload) \<Rightarrow>
          (case is_expired env payload of
             Inl e \<Rightarrow> (Inl e, AList.delete (state_key s) st)
           | Inr True \<Rightarrow> (Inr None, AList.delete (state_key s) st)
           | Inr False \<Rightarrow> (Inr (json_none payload), AList.delete (state_key s) st)))"

text \<open>Two callbacks whose reads both come before the first deletion both get the state.\<close>

theorem interleaved_consumption:
  "consume_state env s st = consume_finish env s (consume_read env s st) st"
  "consume_state env s st = (Inr (Some payload), st1) \<Longrightarrow>
     (case consume_finish env s (consume_read env s st) st of (first, st') \<Rightarrow> (first, fst (consume_finish env s (consume_read env s st) st'))) =
       (Inr (Some payload), Inr (Some payload))"
  by (auto simp: consume_state_def consume_finish_def consume_read_def Let_def split: option.splits sum.splits bool.splits)

section \<open>Sweeps\<close>

definition stale_row :: "oauth_env \<Rightarrow> json option \<Rightarrow> bool" where
  "stale_row env row \<longleftrightarrow> (case row of None \<Rightarrow> True | Some payload \<Rightarrow> payload = JNull \<or> is_expired env payload = Inr True)"

lemma prune_keys_exact:
  "prune_keys env ks n st = (Inr m, st1) \<Longrightarrow>
   map_of st1 k = (if k \<in> set ks \<and> (\<exists>row. state_get (oe_now env) k st = Some row \<and> stale_row env row) then None else map_of st k)"
proof (induction ks arbitrary: n st)
  case (Cons j ks)
  show ?case
  proof (cases "\<exists>row. state_get (oe_now env) j st = Some row \<and> stale_row env row")
    case True
    then obtain row where row: "state_get (oe_now env) j st = Some row" "stale_row env row" by blast
    then have "prune_keys env ks (n + 1) (AList.delete j st) = (Inr m, st1)"
      using Cons.prems by (auto simp: stale_row_def split: option.splits if_splits)
    from Cons.IH [OF this] row show ?thesis by (auto simp: state_get_def delete_conv split: if_splits)
  next
    case False
    then have "prune_keys env ks n st = (Inr m, st1)"
      using Cons.prems by (auto simp: stale_row_def split: option.splits sum.splits bool.splits if_splits)
    from Cons.IH [OF this] False show ?thesis by auto
  qed
qed simp

text \<open>A sweep that runs through removes exactly the rows that Redis still holds and that are corrupt or expired.\<close>

theorem sweep_removes_stale:
  assumes "prune_expired_states env st = (Inr n, st1)" "starts_with STATE_KEY_PREFIX k"
  shows "map_of st1 k = (if \<exists>row. state_get (oe_now env) k st = Some row \<and> stale_row env row then None else map_of st k)"
proof -
  have "state_get (oe_now env) k st = Some row \<Longrightarrow> k \<in> set (filter (starts_with STATE_KEY_PREFIX) (map fst st))" for row
    using assms(2) by (auto simp: state_get_def split: option.splits dest!: map_of_SomeD) force+
  with prune_keys_exact [OF assms(1) [unfolded prune_expired_states_def], of k] show ?thesis by auto
qed

section \<open>Witnesses\<close>

definition demo_oauth :: "time \<Rightarrow> oauth_env" where
  "demo_oauth t = \<lparr>oe_now = t, oe_ttl = 600, oe_iso = py_str_int, oe_parse_iso = (\<lambda>s. if s = py_str_int 605 then Some (Aware 605) else None),
     oe_sha256 = (\<lambda>s. s)\<rparr>"

definition issued_store :: oauth_store where
  "issued_store = snd (authorize (demo_oauth 5) [''https://a''] ''t'' ''github'' ''https://a'' None [])"

lemma demo_oauth_simps [simp]: "oe_now (demo_oauth t) = t" "oe_ttl (demo_oauth t) = 600" "oe_iso (demo_oauth t) = py_str_int"
  "oe_parse_iso (demo_oauth t) x = (if x = py_str_int 605 then Some (Aware 605) else None)"
  by (simp_all add: demo_oauth_def)

lemma demo_issued: "authorize (demo_oauth 5) [''https://a''] ''t'' ''github'' ''https://a'' None [] =
    (Authorization ''/api/v1/oauth/github/callback?state=oauth_state_t&redirect_uri=https://a'' ''oauth_state_t'', issued_store)"
  by (simp add: authorize_def issued_store_def create_state_def PROVIDERS_def Let_def)

theorem issued_state_lifetime_witness:
  "fst (oauth_callback (demo_oauth 9) ''github'' ''oauth_state_t'' None issued_store) = Inr (Refused 501 ''oauth_provider_exchange_not_implemented'')"
  using issued_state_lifetime [OF _ _ demo_issued, of "demo_oauth 9" None] by (simp add: py_str_int_nonempty)

lemma issued_present: "state_get 9 (state_key ''oauth_state_t'') issued_store \<noteq> None"
  by (simp add: issued_store_def authorize_def create_state_def PROVIDERS_def state_get_def Let_def)

theorem state_used_once_witness:
  "fst (oauth_callback (demo_oauth 10) ''github'' ''oauth_state_t'' None (snd (snd (oauth_callback (demo_oauth 9) ''gitlab'' ''oauth_state_t'' None issued_store)))) =
     Inr (Refused 400 ''invalid_or_expired_state'')"
  using state_used_once [of "demo_oauth 9" "''oauth_state_t''" issued_store "''gitlab''" "[]" "''github''" "demo_oauth 10" None None] issued_present
  by (simp add: PROVIDERS_def)

theorem exchange_needs_proof_witness:
  "\<exists>kvs. state_get 9 (state_key ''oauth_state_t'') issued_store = Some (Some (JObj kvs)) \<and> map_of kvs ''provider'' = Some (JStr ''github'')"
proof -
  have c: "consume_state (demo_oauth 9) ''oauth_state_t'' issued_store = (Inr (Some (the (the (state_get 9 (state_key ''oauth_state_t'') issued_store)))), [])"
    by (simp add: consume_state_def issued_store_def authorize_def create_state_def PROVIDERS_def state_get_def is_expired_def json_truthy_def
        json_none_def py_str_int_nonempty Let_def)
  obtain lg st1 where "oauth_callback (demo_oauth 9) ''github'' ''oauth_state_t'' None issued_store =
      (Inr (Refused 501 ''oauth_provider_exchange_not_implemented''), lg, st1)"
    using c by (simp add: oauth_callback_def issued_store_def authorize_def create_state_def PROVIDERS_def state_get_def json_truthy_def truthy_def Let_def)
  from exchange_needs_proof [OF this] show ?thesis by auto
qed

theorem interleaved_consumption_witness:
  "fst (consume_finish (demo_oauth 9) ''s'' (Some (Some (JInt 1))) []) = Inl AttributeError \<and> consume_state (demo_oauth 9) ''s'' [] =
     consume_finish (demo_oauth 9) ''s'' (consume_read (demo_oauth 9) ''s'' []) []"
  using interleaved_consumption(1) [of "demo_oauth 9" "''s''" "[]"] by (simp add: consume_finish_def is_expired_def json_truthy_def)

theorem sweep_removes_stale_witness: "map_of (snd (prune_expired_states (demo_oauth 9) [(state_key ''s'', None, None)])) (state_key ''s'') = None"
proof -
  have "prune_expired_states (demo_oauth 9) [(state_key ''s'', None, None)] = (Inr 1, [])"
    by (simp add: prune_expired_states_def state_key_def starts_with_def state_get_def)
  from sweep_removes_stale [OF this, of "state_key ''s''"] show ?thesis by (simp add: \<open>prune_expired_states _ _ = _\<close>)
qed

end
