(* ===== verification/Problems.thy ===== *)
theory Problems
  imports Http_Pipeline
begin

text \<open>
  The error surface: \<^verbatim>\<open>core/exceptions.py\<close>, \<^verbatim>\<open>api/coded_errors.py\<close>, \<^verbatim>\<open>api/exception_handlers.py\<close> and the handlers of
  \<^verbatim>\<open>main.py\<close>, which turn every exception into an RFC 7807 document; and the readiness report of
  \<^verbatim>\<open>services/health_report.py\<close> with its endpoint.  The fields of a document are kept in the order in which the code
  inserts them; log lines are left out.
\<close>

record problem =
  pr_status :: int
  pr_body :: "(str \<times> json) list"
  pr_headers :: "(str \<times> str) list"

section \<open>Domain exceptions\<close>

record apex_exception =
  ax_detail :: str
  ax_error_code :: str
  ax_status_code :: int
  ax_extra :: "(str \<times> json) list"
  ax_fields :: "(str \<times> str) list"

definition apex_not_found_error :: "str \<Rightarrow> apex_exception" where
  "apex_not_found_error detail =
     \<lparr>ax_detail = detail, ax_error_code = ''not_found'', ax_status_code = 404, ax_extra = [], ax_fields = []\<rparr>"

definition apex_transient_error :: "str \<Rightarrow> apex_exception" where
  "apex_transient_error detail =
     \<lparr>ax_detail = detail, ax_error_code = ''transient_error'', ax_status_code = 503, ax_extra = [], ax_fields = []\<rparr>"

definition apex_conflict_error :: "str \<Rightarrow> (str \<times> str) list \<Rightarrow> apex_exception" where
  "apex_conflict_error detail flds =
     \<lparr>ax_detail = detail, ax_error_code = ''conflict'', ax_status_code = 409, ax_extra = [], ax_fields = flds\<rparr>"

definition apex_wallet_already_exists_error :: "str \<Rightarrow> int \<Rightarrow> str \<Rightarrow> str \<Rightarrow> apex_exception" where
  "apex_wallet_already_exists_error detail wallet_id user_id public_key =
     (apex_conflict_error detail [(''wallet_id'', py_str_int wallet_id), (''user_id'', user_id), (''public_key'', public_key)])
       \<lparr>ax_error_code := ''wallet_already_exists''\<rparr>"

definition apex_validation_error :: "str \<Rightarrow> apex_exception" where
  "apex_validation_error detail =
     \<lparr>ax_detail = detail, ax_error_code = ''validation_error'', ax_status_code = 422, ax_extra = [], ax_fields = []\<rparr>"

definition DEFAULT_ERROR_CODES :: "(int \<times> str) list" where
  "DEFAULT_ERROR_CODES =
     [(400, ''validation_error''), (401, ''unauthorized''), (403, ''forbidden''), (404, ''not_found''), (405, ''method_not_allowed''),
      (409, ''conflict''), (410, ''gone''), (413, ''payload_too_large''), (415, ''unsupported_media_type''),
      (422, ''unprocessable_entity''), (429, ''rate_limited''), (500, ''internal_error''), (501, ''not_implemented''),
      (502, ''bad_gateway''), (503, ''service_unavailable'')]"

datatype detail_value = DetailText str | DetailDict "(str \<times> json) list" | DetailList "json list" | DetailOther str

record http_exception =
  hx_status :: int
  hx_detail :: detail_value
  hx_headers :: "(str \<times> str) list"
  hx_error_code :: "str option"

definition coded_http_exception :: "int \<Rightarrow> str \<Rightarrow> (str \<times> str) list \<Rightarrow> str option \<Rightarrow> http_exception" where
  "coded_http_exception status detail hs code =
     \<lparr>hx_status = status, hx_detail = DetailText detail, hx_headers = hs,
      hx_error_code = (if truthy code then code else map_of DEFAULT_ERROR_CODES status)\<rparr>"

section \<open>Problem documents\<close>

definition resolve_correlation_id :: "str \<Rightarrow> str option \<Rightarrow> str option \<Rightarrow> str" where
  "resolve_correlation_id uuid ctx request_cid =
     (if truthy request_cid then the request_cid else fst (get_or_generate_correlation_id uuid ctx))"

definition default_titles :: "(int \<times> str) list" where
  "default_titles =
     [(400, ''Bad Request''), (401, ''Unauthorized''), (403, ''Forbidden''), (404, ''Not Found''), (405, ''Method Not Allowed''),
      (409, ''Conflict''), (410, ''Gone''), (413, ''Payload Too Large''), (415, ''Unsupported Media Type''),
      (422, ''Unprocessable Entity''), (429, ''Too Many Requests''), (500, ''Internal Server Error''), (502, ''Bad Gateway''),
      (503, ''Service Unavailable'')]"

definition default_title :: "int \<Rightarrow> str" where
  "default_title status = (case map_of default_titles status of None \<Rightarrow> ''Unknown Error'' | Some t \<Rightarrow> t)"

definition problem_response ::
  "str \<Rightarrow> int \<Rightarrow> str \<Rightarrow> str \<Rightarrow> json list option \<Rightarrow> str option \<Rightarrow> (str \<times> str) list \<Rightarrow> problem" where
  "problem_response cid status title detail errs code hs =
     \<lparr>pr_status = status,
      pr_body = [(''type'', JStr ''about:blank''), (''title'', JStr title), (''status'', JInt status), (''detail'', JStr detail),
                 (''correlation_id'', JStr cid)] @
                (case errs of None \<Rightarrow> [] | Some es \<Rightarrow> [(''errors'', JList es)]) @
                (if truthy code then [(''error_code'', JStr (the code))] else []),
      pr_headers = AList.update ''X-Correlation-ID'' cid (dict_of hs)\<rparr>"

definition http_exception_handler :: "str \<Rightarrow> http_exception \<Rightarrow> problem" where
  "http_exception_handler cid x =
     (let go = (\<lambda>errs. problem_response cid (hx_status x) (default_title (hx_status x)) ''Request failed.'' (Some errs) None (hx_headers x)) in
      case hx_detail x of
        DetailText t \<Rightarrow> problem_response cid (hx_status x) (default_title (hx_status x)) t None (hx_error_code x) (hx_headers x)
      | DetailDict d \<Rightarrow> go [JObj d]
      | DetailList l \<Rightarrow> go l
      | DetailOther s \<Rightarrow> go [JObj [(''detail'', JStr s)]])"

text \<open>An error of the validation library: where, of which type, and the message; the parts of the place are printed.\<close>

record field_error =
  fe_loc :: "str list"
  fe_type :: str
  fe_msg :: str

definition validation_exception_handler :: "str \<Rightarrow> field_error list \<Rightarrow> problem" where
  "validation_exception_handler cid es =
     problem_response cid 422 ''Unprocessable Entity'' ''Request validation failed.''
       (Some (map (\<lambda>e. JObj [(''pointer'', JStr (''/'' @ join ''/'' (fe_loc e))), (''type'', JStr (fe_type e)), (''message'', JStr (fe_msg e))]) es)) None []"

definition general_exception_handler :: "str \<Rightarrow> problem" where
  "general_exception_handler cid = problem_response cid 500 ''Internal Server Error'' ''An unexpected error occurred.'' None None []"

text \<open>The documents of the domain exceptions; the extra fields overwrite those before them.\<close>

definition error_type :: "int \<Rightarrow> json" where
  "error_type status = JStr (''https://developer.apexchainx.io/errors/'' @ py_str_int status)"

definition update_all :: "(str \<times> json) list \<Rightarrow> (str \<times> json) list \<Rightarrow> (str \<times> json) list" where
  "update_all kvs d = foldl (\<lambda>d (k, v). AList.update k v d) d kvs"

definition apex_exception_handler :: "str \<Rightarrow> apex_exception \<Rightarrow> problem" where
  "apex_exception_handler cid x =
     \<lparr>pr_status = ax_status_code x,
      pr_body = update_all (if ax_fields x = [] then [] else [(''fields'', JObj (map (\<lambda>(k, v). (k, JStr v)) (ax_fields x)))])
        (update_all (ax_extra x)
          [(''type'', error_type (ax_status_code x)), (''title'', JStr (ax_error_code x)), (''status'', JInt (ax_status_code x)),
           (''detail'', JStr (ax_detail x)), (''correlation_id'', JStr cid), (''error_code'', JStr (ax_error_code x))]),
      pr_headers = [(''X-Correlation-ID'', cid)]\<rparr>"

definition apex_not_found_handler :: "str \<Rightarrow> apex_exception \<Rightarrow> problem" where
  "apex_not_found_handler cid x =
     \<lparr>pr_status = 404,
      pr_body = [(''type'', error_type 404), (''title'', JStr ''Not Found''), (''status'', JInt 404), (''detail'', JStr (ax_detail x)),
                 (''correlation_id'', JStr cid), (''error_code'', JStr ''not_found'')],
      pr_headers = [(''X-Correlation-ID'', cid)]\<rparr>"

definition apex_transient_error_handler :: "str \<Rightarrow> apex_exception \<Rightarrow> problem" where
  "apex_transient_error_handler cid x =
     \<lparr>pr_status = ax_status_code x,
      pr_body = [(''type'', error_type (ax_status_code x)), (''title'', JStr ''Service Unavailable''), (''status'', JInt (ax_status_code x)),
                 (''detail'', JStr (ax_detail x)), (''correlation_id'', JStr cid), (''error_code'', JStr ''transient_error''),
                 (''retryable'', JBool True)],
      pr_headers = [(''X-Correlation-ID'', cid)]\<rparr>"

definition build_rfc7807 :: "str \<Rightarrow> str \<Rightarrow> int \<Rightarrow> str \<Rightarrow> str \<Rightarrow> (str \<times> json) list \<Rightarrow> (str \<times> json) list" where
  "build_rfc7807 cid title status detail inst extra =
     update_all extra
       ([(''type'', error_type status), (''title'', JStr title), (''status'', JInt status), (''detail'', JStr detail),
         (''correlation_id'', JStr cid)] @ (if inst = [] then [] else [(''instance'', JStr inst)]))"

section \<open>Unique keys that collide\<close>

text \<open>\<open>s.split(sep)\<close> for a separator that is not empty.\<close>

fun split_str :: "string \<Rightarrow> string \<Rightarrow> string \<Rightarrow> string list" where
  "split_str sep acc [] = [rev acc]"
| "split_str sep acc (c # s) =
     (if starts_with sep (c # s) then rev acc # split_str sep [] (drop (length sep - 1) s) else split_str sep (c # acc) s)"

text \<open>The text between the first opening parenthesis and the next closing one; without one the index is out of range.\<close>

definition in_parens :: "string \<Rightarrow> string option" where
  "in_parens part =
     (case split_char (CHR ''('') part of _ # p # _ \<Rightarrow> Some (py_strip (hd (split_char (CHR '')'') p))) | _ \<Rightarrow> None)"

definition integrity_field :: "(str \<times> str) list option \<Rightarrow> string \<Rightarrow> (str \<times> str) list option" where
  "integrity_field fs part =
     (case fs of
        None \<Rightarrow> None
      | Some flds \<Rightarrow>
          if contains_str '' already exists'' part then
            (case in_parens part of
               None \<Rightarrow> None
             | Some key \<Rightarrow>
                 Some (AList.update key
                   (if contains_str ''=('' part then py_strip (hd (split_char (CHR '')'') (split_str ''=('' [] part ! 1))) else ''unknown'') flds))
          else Some flds)"

text \<open>\<open>None\<close> is the \<open>IndexError\<close> of a part without a parenthesis.\<close>

definition extract_integrity_fields :: "string \<Rightarrow> (str \<times> str) list option" where
  "extract_integrity_fields msg =
     (if contains_str ''Key ('' msg then foldl integrity_field (Some []) (tl (split_str ''Key '' [] msg)) else Some [])"

definition integrity_error_handler :: "str \<Rightarrow> str \<Rightarrow> string \<Rightarrow> problem option" where
  "integrity_error_handler cid path msg =
     map_option (\<lambda>flds.
       \<lparr>pr_status = 409,
        pr_body = build_rfc7807 cid ''Conflict'' 409 ''A record with the same unique fields already exists.'' path
          [(''fields'', JObj (map (\<lambda>(k, v). (k, JStr v)) flds))],
        pr_headers = [(''X-Correlation-ID'', cid)]\<rparr>) (extract_integrity_fields msg)"

definition pydantic_validation_handler :: "str \<Rightarrow> str \<Rightarrow> field_error list \<Rightarrow> problem" where
  "pydantic_validation_handler cid path es =
     \<lparr>pr_status = 422,
      pr_body = build_rfc7807 cid ''Validation Error'' 422 ''The request body contains invalid fields.'' path
        [(''errors'', JList (map (\<lambda>e. JObj [(''field'', JStr (join '' -> '' (fe_loc e))), (''message'', JStr (fe_msg e)), (''code'', JStr (fe_type e))]) es))],
      pr_headers = [(''X-Correlation-ID'', cid)]\<rparr>"

section \<open>Readiness\<close>

datatype component_status = Ok | Warn | Down

text \<open>What the probes find; \<open>None\<close> is a probe that raised.\<close>

record probes =
  pb_database :: bool
  pb_pool :: "(int \<times> int) option"
  pb_redis :: bool
  pb_dead_letters :: "nat option"
  pb_audit_database :: bool
  pb_revocation_store :: bool

definition pool_status :: "(int \<times> int) option \<Rightarrow> component_status" where
  "pool_status p = (case p of None \<Rightarrow> Down | Some (capacity, checked_out) \<Rightarrow> if 10 * checked_out > 9 * capacity then Warn else Ok)"

definition dlq_depth :: "nat \<Rightarrow> nat option \<Rightarrow> component_status" where
  "dlq_depth threshold n = (case n of None \<Rightarrow> Down | Some c \<Rightarrow> if min c (threshold + 1) > threshold then Warn else Ok)"

definition revocation_store_ping :: "bool \<Rightarrow> component_status" where
  "revocation_store_ping up = (let s = (if up then Ok else Down) in if s = Down then Warn else s)"

definition components :: "nat \<Rightarrow> probes \<Rightarrow> (str \<times> component_status) list" where
  "components threshold p =
     [(''database'', if pb_database p then Ok else Down), (''postgres_pool'', pool_status (pb_pool p)),
      (''redis'', if pb_redis p then Ok else Down), (''webhook_dlq'', dlq_depth threshold (pb_dead_letters p)),
      (''audit_database'', if pb_audit_database p then Ok else Warn), (''revocation_store'', revocation_store_ping (pb_revocation_store p))]"

fun overall :: "component_status \<Rightarrow> (str \<times> component_status) list \<Rightarrow> component_status" where
  "overall acc [] = acc"
| "overall acc ((_, s) # cs) = (if s = Down then Down else overall (if s = Warn then Warn else acc) cs)"

definition build_readiness_report :: "nat \<Rightarrow> probes \<Rightarrow> component_status \<times> (str \<times> component_status) list" where
  "build_readiness_report threshold p = (overall Ok (components threshold p), components threshold p)"

definition readiness :: "probes \<Rightarrow> int" where
  "readiness p = (if fst (build_readiness_report 1000 p) = Down then 503 else 200)"

section \<open>Every document names its request\<close>

definition echoes :: "str \<Rightarrow> problem \<Rightarrow> bool" where
  "echoes cid p \<longleftrightarrow> map_of (pr_body p) ''correlation_id'' = Some (JStr cid) \<and> map_of (pr_headers p) ''X-Correlation-ID'' = Some cid \<and>
     map_of (pr_body p) ''status'' = Some (JInt (pr_status p))"

lemma map_of_update_all: "map_of (update_all kvs d) k = (case map_of (rev kvs) k of None \<Rightarrow> map_of d k | Some v \<Rightarrow> Some v)"
proof (induction kvs rule: rev_induct)
  case (snoc x kvs)
  obtain a b where "x = (a, b)" by fastforce
  with snoc show ?case by (simp add: update_all_def update_conv)
qed (simp add: update_all_def)

lemma problem_response_echoes: "echoes cid (problem_response cid status title detail errs code hs)"
  by (simp add: echoes_def problem_response_def update_conv)

lemma build_rfc7807_echoes:
  assumes "map_of (rev extra) ''correlation_id'' = None" "map_of (rev extra) ''status'' = None"
  shows "echoes cid \<lparr>pr_status = status, pr_body = build_rfc7807 cid title status detail inst extra, pr_headers = [(''X-Correlation-ID'', cid)]\<rparr>"
  using assms by (simp add: echoes_def build_rfc7807_def map_of_update_all)

text \<open>
  Whatever goes wrong, the document and the header of the answer carry the same correlation id and the document the status of
  the answer: for exceptions of HTTP and of the validation, unexpected ones, unique keys that collide, and the domain exceptions,
  provided that their extra fields do not overwrite these two.
\<close>

theorem every_problem_echoes:
  assumes "p \<in> {http_exception_handler cid x, validation_exception_handler cid es, general_exception_handler cid,
      pydantic_validation_handler cid path es, apex_not_found_handler cid a, apex_transient_error_handler cid a} \<or>
    integrity_error_handler cid path msg = Some p \<or>
    p = apex_exception_handler cid a \<and> map_of (rev (ax_extra a)) ''correlation_id'' = None \<and> map_of (rev (ax_extra a)) ''status'' = None"
  shows "echoes cid p"
proof -
  have "echoes cid (http_exception_handler cid x)"
    by (cases "hx_detail x") (simp_all add: http_exception_handler_def problem_response_echoes Let_def)
  moreover have "echoes cid (validation_exception_handler cid es)" "echoes cid (general_exception_handler cid)"
    by (simp_all add: validation_exception_handler_def general_exception_handler_def problem_response_echoes)
  moreover have "echoes cid (pydantic_validation_handler cid path es)"
    by (simp add: pydantic_validation_handler_def build_rfc7807_echoes)
  moreover have "echoes cid (apex_not_found_handler cid a)" "echoes cid (apex_transient_error_handler cid a)"
    by (simp_all add: echoes_def apex_not_found_handler_def apex_transient_error_handler_def)
  moreover have "integrity_error_handler cid path msg = Some p \<Longrightarrow> echoes cid p"
    by (auto simp: integrity_error_handler_def build_rfc7807_echoes)
  moreover have "map_of (rev (ax_extra a)) ''correlation_id'' = None \<Longrightarrow> map_of (rev (ax_extra a)) ''status'' = None \<Longrightarrow>
      echoes cid (apex_exception_handler cid a)"
    by (simp add: echoes_def apex_exception_handler_def map_of_update_all)
  ultimately show ?thesis using assms by auto
qed

text \<open>Every status with a registered code has a title, but for one: an operation that is not implemented is an unknown error.\<close>

theorem coded_statuses_have_titles:
  "status \<in> set (map fst DEFAULT_ERROR_CODES) \<Longrightarrow> default_title status = ''Unknown Error'' \<longleftrightarrow> status = 501"
  by (auto simp: DEFAULT_ERROR_CODES_def default_title_def default_titles_def)

section \<open>What a collision reports\<close>

lemma starts_with_Cons: "starts_with (p # ps) (c # cs) \<longleftrightarrow> p = c \<and> starts_with ps cs"
  by (auto simp: starts_with_def)

lemma split_str_skip: "hd sep \<notin> set s \<Longrightarrow> sep \<noteq> [] \<Longrightarrow> split_str sep acc (s @ t) = split_str sep (rev s @ acc) t"
proof (induction s arbitrary: acc)
  case (Cons c s)
  obtain x xs where "sep = x # xs" using Cons.prems(2) by (cases sep) auto
  with Cons show ?case by (auto simp: starts_with_Cons)
qed simp

lemma split_str_end: "hd sep \<notin> set s \<Longrightarrow> sep \<noteq> [] \<Longrightarrow> split_str sep acc s = [rev acc @ s]"
  using split_str_skip [of sep s acc "[]"] by simp

lemma contains_str_append: "contains_str p (p @ t)"
proof (cases "p @ t")
  case (Cons c s)
  then have "starts_with p (c # s)" by (metis append_eq_conv_conj starts_with_def)
  then show ?thesis unfolding Cons by simp
qed simp

lemma split_str_no_paren: "CHR ''('' \<notin> set s \<Longrightarrow> split_str ''=('' acc s = [rev acc @ s]"
proof (induction s arbitrary: acc)
  case (Cons c s)
  then have "\<not> starts_with ''=('' (c # s)" by (cases s) (auto simp: starts_with_Cons starts_with_def)
  with Cons show ?case by simp
qed simp

lemma contains_str_prefix: "contains_str p t \<Longrightarrow> contains_str p (s @ t)"
proof (induction s)
  case (Cons c s)
  then show ?case by simp
qed simp

text \<open>
  The message of PostgreSQL about a key that exists gives the column and the value, when neither contains a parenthesis or the
  letter that begins the word the message is split at.
\<close>

theorem collision_reported:
  assumes "CHR ''K'' \<notin> set pre" "CHR ''K'' \<notin> set col" "CHR ''K'' \<notin> set v" "CHR ''('' \<notin> set col" "CHR '')'' \<notin> set col" "CHR ''='' \<notin> set col"
    "CHR ''('' \<notin> set v" "CHR '')'' \<notin> set v"
  shows "extract_integrity_fields (pre @ ''Key ('' @ col @ '')=('' @ v @ '') already exists.'') = Some [(py_strip col, py_strip v)]"
proof -
  let ?part = "''('' @ col @ '')=('' @ v @ '') already exists.''"
  have "split_str ''Key '' [] (pre @ ''Key '' @ ?part) = split_str ''Key '' (rev pre) (''Key '' @ ?part)"
    using assms(1) split_str_skip [of "''Key ''" pre "[]"] by simp
  also have "\<dots> = pre # split_str ''Key '' [] ?part" by (simp add: starts_with_def)
  also have "split_str ''Key '' [] ?part = [?part]" using split_str_end [of "''Key ''" ?part "[]"] assms(2,3) by simp
  finally have parts: "tl (split_str ''Key '' [] (pre @ ''Key ('' @ col @ '')=('' @ v @ '') already exists.'')) = [?part]" by simp
  have exists: "contains_str '' already exists'' ?part"
    using contains_str_prefix [of "'' already exists''" "'' already exists.''" "''('' @ col @ '')=('' @ v @ '')''"]
      contains_str_append [of "'' already exists''" "''.''"] by simp
  have key: "contains_str ''Key ('' (pre @ ''Key ('' @ col @ '')=('' @ v @ '') already exists.'')"
    using contains_str_prefix contains_str_append [of "''Key (''"] by blast
  have eq: "contains_str ''=('' ?part"
    using contains_str_prefix [of "''=(''" "''=('' @ v @ '') already exists.''" "''('' @ col @ '')''"] contains_str_append [of "''=(''" "v @ '') already exists.''"]
    by simp
  have "split_char (CHR ''('') (CHR ''('' # (col @ '')='') @ CHR ''('' # v @ '') already exists.'') =
      [] # (col @ '')='') # split_char (CHR ''('') (v @ '') already exists.'')"
    using split_char_append [of "CHR ''(''" "col @ '')=''" "v @ '') already exists.''"] assms(4) by simp
  then have "in_parens ?part = Some (py_strip (hd (split_char (CHR '')'') (col @ CHR '')'' # ''=''))))"
    by (simp add: in_parens_def)
  then have k: "in_parens ?part = Some (py_strip col)" using assms(5) by (simp add: split_char_append)
  have "split_str ''=('' [] ((''('' @ col @ '')'') @ ''=('' @ v @ '') already exists.'') =
      split_str ''=('' (rev (''('' @ col @ '')'')) (''=('' @ v @ '') already exists.'')"
    using assms(6) split_str_skip [of "''=(''" "''('' @ col @ '')''" "[]"] by simp
  also have "\<dots> = (''('' @ col @ '')'') # split_str ''=('' [] (v @ '') already exists.'')" by (simp add: starts_with_def)
  also have "split_str ''=('' [] (v @ '') already exists.'') = [v @ '') already exists.'']"
    using split_str_no_paren [of "v @ '') already exists.''" "[]"] assms(7) by simp
  finally have val: "split_str ''=('' [] ?part ! 1 = v @ CHR '')'' # '' already exists.''" by simp
  have v: "hd (split_char (CHR '')'') (v @ CHR '')'' # '' already exists.'')) = v" using assms(8) by (simp add: split_char_append)
  show ?thesis
    using parts exists key eq k val v
    by (simp add: extract_integrity_fields_def integrity_field_def del: split_str.simps contains_str.simps)
qed

text \<open>
  A value with a closing parenthesis is cut at it; a value that contains the word the message is split at makes the handler raise.
\<close>

theorem collision_misread:
  "extract_integrity_fields ''DETAIL:  Key (name)=(a (b)) already exists.'' = Some [(''name'', ''a (b'')]"
  "extract_integrity_fields ''DETAIL:  Key (name)=(Key one) already exists.'' = None"
  by code_simp+

section \<open>Readiness\<close>

lemma overall_cases:
  "acc \<noteq> Down \<Longrightarrow> overall acc cs = (if Down \<in> snd ` set cs then Down else if acc = Warn \<or> Warn \<in> snd ` set cs then Warn else Ok)"
proof (induction cs arbitrary: acc)
  case Nil
  then show ?case by (cases acc) simp_all
next
  case (Cons c cs)
  then show ?case by (cases c; cases "snd c") auto
qed

lemma component_states:
  "Down \<in> snd ` set (components threshold p) \<longleftrightarrow> \<not> pb_database p \<or> pb_pool p = None \<or> \<not> pb_redis p \<or> pb_dead_letters p = None"
  "Warn \<in> snd ` set (components threshold p) \<longleftrightarrow>
     (\<exists>c out. pb_pool p = Some (c, out) \<and> 10 * out > 9 * c) \<or> (\<exists>n > threshold. pb_dead_letters p = Some n) \<or>
     \<not> pb_audit_database p \<or> \<not> pb_revocation_store p"
  by (cases "pb_pool p"; cases "pb_dead_letters p";
      auto simp: components_def pool_status_def dlq_depth_def revocation_store_ping_def split: if_splits)+

text \<open>
  The instance leaves the rotation exactly when the database, its pool, Redis or the table of deliveries cannot be reached;
  the audit database and the revocation store only degrade it.
\<close>

theorem readiness_policy:
  "readiness p = 503 \<longleftrightarrow> \<not> pb_database p \<or> pb_pool p = None \<or> \<not> pb_redis p \<or> pb_dead_letters p = None"
  by (simp add: readiness_def build_readiness_report_def overall_cases component_states)

theorem degraded_but_ready:
  assumes "readiness p = 200"
  shows "fst (build_readiness_report 1000 p) = Warn \<longleftrightarrow>
     (\<exists>c out. pb_pool p = Some (c, out) \<and> 10 * out > 9 * c) \<or> (\<exists>n > 1000. pb_dead_letters p = Some n) \<or>
     \<not> pb_audit_database p \<or> \<not> pb_revocation_store p"
  using assms by (simp add: readiness_def build_readiness_report_def overall_cases component_states split: if_splits)

section \<open>Witnesses\<close>

theorem every_problem_echoes_witness:
  "echoes ''c'' (http_exception_handler ''c'' (coded_http_exception 404 ''no such outage'' [(''Retry-After'', ''1'')] None))"
  by (rule every_problem_echoes [where x = "coded_http_exception 404 ''no such outage'' [(''Retry-After'', ''1'')] None"
        and es = "[]" and path = "[]" and msg = "[]" and a = "apex_not_found_error []"]) simp

theorem coded_statuses_have_titles_witness: "default_title 404 \<noteq> ''Unknown Error''"
  using coded_statuses_have_titles [of 404] by (simp add: DEFAULT_ERROR_CODES_def)

theorem collision_reported_witness:
  "extract_integrity_fields ''DETAIL:  Key (email)=(a@b) already exists.'' = Some [(''email'', ''a@b'')]"
proof -
  have "py_strip ''email'' = ''email''" "py_strip ''a@b'' = ''a@b''" by code_simp+
  with collision_reported [of "''DETAIL:  ''" "''email''" "''a@b''"] show ?thesis by simp
qed

theorem degraded_but_ready_witness:
  "fst (build_readiness_report 1000 \<lparr>pb_database = True, pb_pool = Some (10, 10), pb_redis = True, pb_dead_letters = Some 0,
     pb_audit_database = True, pb_revocation_store = True\<rparr>) = Warn"
  by (subst degraded_but_ready) (simp_all add: readiness_def build_readiness_report_def overall_cases component_states)

end
