(* ===== verification/Spec2Isabelle.thy ===== *)
theory Spec2Isabelle
  imports Intervals Settlement Access Job_Tracking Webhook_Registry Wallets
    Block_Poller Block_Hardening Disputes Sla_Api Tx_Memo Tx_Indexer
    Idempotency Http_Pipeline Oauth Problems
begin

text \<open>
  A verification development for the ApexChainx backend (\<^verbatim>\<open>src/app\<close>), a FastAPI service that records network outages,
  settles their service-level agreements against a versioned policy, turns each settlement into a payment, and tells
  subscribers about violations through signed webhooks, with a hash-chained audit log beside everything.

  \<^bold>\<open>Shape of the model.\<close>  Every operation of the code is one definition.  A table of the relational database is a list of
  records, the columns being its fields, in insertion order; \<open>database\<close> holds the tables that one session sees, and an
  operation maps it to an outcome: \<open>Inl\<close> with the exception that was raised, or \<open>Inr\<close> with the result, together with
  the state that was committed.  Times are integers; one clock reading per request is part of \<open>env\<close>, as are the random
  identifiers (a function of a counter kept in the database), the hash function and the rendering of timestamps, which the code
  takes from libraries.  Column defaults written \<open>default=datetime.now(UTC)\<close> are evaluated once per process and appear as
  \<open>process_start\<close>.  Replies of Redis, of HTTP receivers and of DNS are arguments of the definitions.

  \<^bold>\<open>Theories, in the order of the code.\<close>
  \<^item> \<open>Prelude\<close>: exceptions, outcomes, Python string helpers, the table primitives (update first, delete first,
    update where, pages, order by) and their lemmas.
  \<^item> \<open>Sla_Policy\<close>: \<^verbatim>\<open>services/sla/config.py\<close> (versioned policy with optimistic tokens), \<^verbatim>\<open>sla_calculator.py\<close>, the contract
    adapter and its translation.  Shown: amounts are antitone in the repair time; the threshold alone decides; publishing bumps
    the version by one, keeps versions unique under concurrent workers and refuses a stale token; the boundary loses only the
    reason code and the trace.
  \<^item> \<open>Intervals\<close>: \<^verbatim>\<open>services/sla/interval_merge.py\<close>; merged downtime counts every tick once.
  \<^item> \<open>Audit_Trail\<close>: \<^verbatim>\<open>services/audit_log.py\<close>, \<^verbatim>\<open>scrubber.py\<close>, \<^verbatim>\<open>formatters.py\<close>.  Locale \<open>audit_sink\<close>,
    interpreted on the log.  Shown: logging appends and keeps the chain verified, the last hash commits to the history, the
    actor is not covered.
  \<^item> \<open>Database\<close>: the ORM classes of \<^verbatim>\<open>models/orm\<close>, the state record, the schema constraints \<open>schema_ok\<close>, sample rows.
  \<^item> \<open>Outages\<close>: \<^verbatim>\<open>repositories/outage_repository.py\<close> and \<^verbatim>\<open>outage_event_repository.py\<close>.  Shown: ascending cursor
    walks are complete (and descending ones skip ties), settled outages stay, creation is idempotent, retention is exact.
  \<^item> \<open>Sla_Store\<close>: \<^verbatim>\<open>repositories/sla_repository.py\<close>.  Locale \<open>sla_writer\<close>, interpreted on both writers.  Shown: one latest
    result per outage, replays change nothing, the dashboards agree, and two defects of timestamps.
  \<^item> \<open>Payments\<close>: \<^verbatim>\<open>models/payment.py\<close>, \<^verbatim>\<open>payment_repository.py\<close>, \<^verbatim>\<open>endpoints/payments.py\<close>,
    \<^verbatim>\<open>single_use_token_store.py\<close>.  The abstract machine \<open>payment_move\<close> is refined by every request (\<open>payment_step\<close>);
    locale \<open>single_use\<close> gives the replay protection of callbacks.  Shown: the payment invariant, finality of confirmation,
    rejection of forged and of replayed callbacks.
  \<^item> \<open>Rate_Limits\<close>: \<^verbatim>\<open>core/rate_limiter.py\<close>, \<^verbatim>\<open>auth_attempt_ledger.py\<close>, \<^verbatim>\<open>event_listener_rate_limit.py\<close>.  Locale
    \<open>window_limiter\<close>, interpreted on the three limiters, carries the bound on granted requests.
  \<^item> \<open>Webhooks\<close>: \<^verbatim>\<open>webhook_signing.py\<close>, \<^verbatim>\<open>webhook_breaker.py\<close>, \<^verbatim>\<open>webhook_service.py\<close>, \<^verbatim>\<open>webhook_repository.py\<close>, the plan
    of \<^verbatim>\<open>event_listener.py\<close>.  The step relation \<open>webhook_step\<close> interleaves dispatches, duplicate tasks, sweeps, replays and new
    events.  Shown: signatures verify, successes are final, attempts are bounded, the breaker trips at its threshold.
  \<^item> \<open>Settlement\<close>, \<open>Locks\<close>: \<^verbatim>\<open>endpoints/outages.py\<close> over all of the above, and \<^verbatim>\<open>core/lock.py\<close>.  Shown: resolution settles
    the outage in all tables, recomputation is idempotent, atomic imports are all or nothing; lock numbers fit a signed 64-bit
    column and polling for a lock ends.
  \<^item> \<open>Exports\<close>, \<open>Sla_Api\<close>: \<^verbatim>\<open>utils/exporter.py\<close>, \<^verbatim>\<open>endpoints/sla.py\<close>, \<^verbatim>\<open>utils/analytics_exporter.py\<close>.  Shown: exported CSV reads back as
    the rows, a cached dashboard answer was computed from a state at most thirty seconds old, and two filters share a cache key.
  \<^item> \<open>Disputes\<close>: \<^verbatim>\<open>endpoints/sla_dispute.py\<close>.  Shown: the tables stay consistent, a settled dispute is final, an applied
    proposal becomes the one latest result of its outage.
  \<^item> \<open>Batches\<close>, \<open>Auth\<close>, \<open>Auth_Sessions\<close>, \<open>Access\<close>: accounts, sessions, token families, lockout, administration, erasure, API keys and scopes
    (\<^verbatim>\<open>services/auth_store.py\<close>, \<^verbatim>\<open>core/security.py\<close>, \<^verbatim>\<open>endpoints/auth.py\<close>, \<^verbatim>\<open>endpoints/api_keys.py\<close>).  The machine \<open>token_move\<close>
    is refined by every request.  Shown: soundness of the token families, dead tokens and keys stay dead, lockout is exact.
  \<^item> \<open>Caches\<close>: \<^verbatim>\<open>utils/cache.py\<close>, \<^verbatim>\<open>services/cache_layer.py\<close> and their clients; locale \<open>honest_cache\<close>, interpreted on the three
    caches: a cached read equals the computation.
  \<^item> \<open>Jobs\<close>, \<open>Job_Tracking\<close>: \<^verbatim>\<open>endpoints/jobs.py\<close>, \<^verbatim>\<open>models/job.py\<close> and the Celery tasks; the step relation \<open>job_step\<close> interleaves requests,
    runs and clean-ups.  Shown: the table invariant, complete cursor pages, resubmission, and that the SLA tasks compute nothing.
  \<^item> \<open>Strings\<close>, \<open>Network\<close>, \<open>Webhook_Admin\<close>, \<open>Webhook_Registry\<close>: address and URL checks, \<^verbatim>\<open>endpoints/webhooks.py\<close>, secrets at rest and
    their rotation.  \<open>registry_move\<close> is the abstract machine.  Shown: the registry invariant, deleted webhooks stay silent,
    deliveries reach approved public addresses, the outgoing secret is remembered (and lost on a second rotation).
  \<^item> \<open>Stellar\<close>, \<open>Wallets\<close>: \<^verbatim>\<open>utils/stellar_checksum.py\<close>, \<^verbatim>\<open>stellar_keypair_generator.py\<close>, \<^verbatim>\<open>wallet_registry.py\<close>, \<^verbatim>\<open>wallet_repository.py\<close>,
    \<^verbatim>\<open>endpoints/wallets.py\<close>, over 16-bit words.  Shown: generated addresses are valid, the checksum detects every change of
    one byte, wallets stay unique, linking never succeeds.
  \<^item> \<open>Values\<close>, \<open>Block_Poller\<close>, \<open>Block_Hardening\<close>: dynamically typed values, and the two pollers \<^verbatim>\<open>services/block_poller.py\<close> and
    \<^verbatim>\<open>block_poller_hardening.py\<close>.  Locales \<open>ledger_feed\<close>, \<open>lively_feed\<close> and \<open>horizon_feed\<close> state what a source promises; the
    Horizon client is a sublocale.  Shown: no ledger is skipped or handled out of order, the poller catches up, retries and delays
    are bounded, sanitised payloads are clean and sanitising is idempotent.
  \<^item> \<open>Tx_Memo\<close>, \<open>Tx_Query\<close>, \<open>Tx_Indexer\<close>: \<^verbatim>\<open>services/tx_memo.py\<close>, \<^verbatim>\<open>tx_indexer_query.py\<close>, \<^verbatim>\<open>tx_indexer_input.py\<close>, \<^verbatim>\<open>tx_indexer_repository.py\<close>.  Shown: memos
    round-trip, accepted filters are canonical, a search returns the leading matching rows, escaped text is literal;
    amounts are converted exactly, indexing again inserts nothing, the payments keep their invariant, the indexer catches up, and the
    probe tells the last pass.

  \<^item> \<open>Settings\<close>, \<open>Http_Pipeline\<close>, \<open>Idempotency\<close>: \<^verbatim>\<open>core/config.py\<close>, \<^verbatim>\<open>core/wall.py\<close> and the middleware of \<^verbatim>\<open>middleware/\<close>.  An
    application behind the size guard is a tree of the calls it makes; a request behind the idempotency store changes a world of
    its own.  Shown: a validated deployment is fit to run and serves its own version, versions are read back, the defaults need
    secrets; no more bytes than allowed reach the application, ETags and the headers of every response; a retry does not run
    twice, every replay is genuine, the store is bounded.

  \<^item> \<open>Cursors\<close>, \<open>Oauth\<close>, \<open>Problems\<close>: \<^verbatim>\<open>utils/cursor.py\<close> over base64 as CPython reads it, the helpers of the poller, the OAuth
    states and endpoints, and the error documents with the readiness report.  Shown: cursors are read back, a state is used once
    and serves for its lifetime, only a verified callback reaches the exchange, two interleaved ones both may, every document
    carries the id of its request, colliding keys are reported, and which failures take the instance out of rotation.

  \<^bold>\<open>Loops and fuel.\<close>  Every loop over a collection is structural recursion; batched deletion, redaction, the retry loops and the
  sanitisers carry termination proofs.  A loop that runs until it is stopped takes the clock readings or polls it sees as a list
  argument (\<open>run_polls\<close>, \<open>run_forever\<close>, \<open>acquire_before\<close>).

  \<^bold>\<open>Not modelled.\<close>  Decoding of uploaded files and of request bodies (a request is its validated model, or the error the
  validation raised); logging, metrics and tracing, which no other component reads; cryptographic primitives, password hashing,
  JWT signing and Fernet, which are arguments; database migrations, scripts, Celery configuration and the wiring of
  the application, which only put the parts together.  Characters are code points below 256.  A session that interleaves with another one between two
  statements is considered only where the code takes a lock or a unique index decides.
\<close>

end
